(* ===== verification/Prelude.thy ===== *)
theory Prelude
  imports Main "HOL-Library.Word"
begin

text \<open>
  Shared vocabulary of the development: names for the basic types, the collections
  (\<open>named_theorems\<close>) the component theories add their automation to, and the facts on
  lists that the table operations need.

  A point in time is an \<open>int\<close>, the number of microseconds since the Unix epoch (the
  resolution of a Postgres \<open>timestamptz\<close>); a calendar date is the number of days since the
  epoch, in UTC. A UUID is an opaque number. A \<open>float64\<close> or \<open>float32\<close> is its bit
  pattern: the modelled code copies such values and compares them with zero, and never
  computes with them. An amount of money (a \<open>NUMERIC(12,2)\<close> column, carried through Go as
  its decimal text) is a number of hundredths.
\<close>

type_synonym time = int
type_synonym date = int
type_synonym uuid = nat
type_synonym float64 = "64 word"
type_synonym float32 = "32 word"
type_synonym money = int

definition seconds :: "int \<Rightarrow> time" where
  "seconds n = 1000000 * n"

definition minutes :: "int \<Rightarrow> time" where
  "minutes n = seconds (60 * n)"

definition hours :: "int \<Rightarrow> time" where
  "hours n = minutes (60 * n)"

definition days :: "int \<Rightarrow> time" where
  "days n = hours (24 * n)"

definition date_of :: "time \<Rightarrow> date" where
  "date_of t = t div 86400000000"

lemma days_eq: "days n = 86400000000 * n"
  by (simp add: days_def hours_def minutes_def seconds_def)

lemma date_of_mono: "s \<le> t \<Longrightarrow> date_of s \<le> date_of t"
  by (simp add: date_of_def zdiv_mono1)

named_theorems run_elims \<open>inversion of a handler step that ran to its end\<close>
named_theorems frame_intros \<open>frame conditions of handler steps\<close>
named_theorems table_simps \<open>what the table operations do to rows\<close>

text \<open>\<open>COALESCE\<close>.\<close>

definition or_else :: "'a option \<Rightarrow> 'a option \<Rightarrow> 'a option" where
  "or_else x y = (case x of None \<Rightarrow> y | Some _ \<Rightarrow> x)"

section \<open>Lists\<close>

lemma find_Some_in: "find P xs = Some x \<Longrightarrow> x \<in> set xs \<and> P x"
  by (auto simp: find_Some_iff in_set_conv_nth)

lemma find_None_filter: "find P xs = None \<longleftrightarrow> filter P xs = []"
  by (auto simp: find_None_iff filter_empty_conv)

lemma find_unique:
  assumes "distinct (map k xs)" and "x \<in> set xs"
  shows "find (\<lambda>y. k y = k x) xs = Some x"
  using assms by (induction xs) (auto simp: image_iff)

lemma map_if_unchanged:
  assumes "\<And>x. x \<in> set xs \<Longrightarrow> P x \<Longrightarrow> f x = x"
  shows "map (\<lambda>x. if P x then f x else x) xs = xs"
  using assms by (induction xs) auto

lemma filter_map_if_disjoint:
  assumes "\<And>x. P x \<Longrightarrow> \<not> Q x" and "\<And>x. P x \<Longrightarrow> \<not> Q (f x)"
  shows "filter Q (map (\<lambda>x. if P x then f x else x) xs) = filter Q xs"
  using assms by (induction xs) auto

lemma map_proj_map_if:
  assumes "\<And>x. k (f x) = k x"
  shows "map k (map (\<lambda>x. if P x then f x else x) xs) = map k xs"
  using assms by (induction xs) auto

lemma length_filter_0_iff: "length (filter P xs) = 0 \<longleftrightarrow> (\<forall>x\<in>set xs. \<not> P x)"
  by (simp add: filter_empty_conv)

lemma set_map_filter: "set (List.map_filter g xs) = {y. \<exists>x\<in>set xs. g x = Some y}"
  by (induction xs) (auto simp: map_filter_simps split: option.splits)

lemma distinct_filter_map: "distinct (map k xs) \<Longrightarrow> distinct (map k (filter P xs))"
  by (induction xs) auto

lemma distinct_map_filter_key:
  assumes "distinct (map k xs)" and "\<And>x y. g x = Some y \<Longrightarrow> h y = k x"
  shows "distinct (map h (List.map_filter g xs))"
  using assms(1)
proof (induction xs)
  case (Cons x xs)
  have "h y \<notin> h ` set (List.map_filter g xs)" if "g x = Some y" for y
  proof
    assume "h y \<in> h ` set (List.map_filter g xs)"
    then obtain z where "z \<in> set xs" "\<exists>y'. g z = Some y' \<and> h y' = h y" by (auto simp: set_map_filter)
    with that assms(2) have "k z = k x" by metis
    with \<open>z \<in> set xs\<close> have "k x \<in> k ` set xs" by (metis imageI)
    with Cons.prems show False by simp
  qed
  with Cons show ?case by (auto simp: map_filter_simps split: option.splits)
qed (simp add: map_filter_simps)

lemma list_all2_memD:
  assumes "list_all2 P xs ys" and "y \<in> set ys"
  shows "\<exists>x\<in>set xs. P x y"
  using assms by (induction rule: list_all2_induct) auto

section \<open>Text\<close>

text \<open>
  \<open>strings.TrimSpace\<close>, \<open>strings.ToUpper\<close> and \<open>strings.ToLower\<close> on ASCII text, byte by byte.
\<close>

definition is_space :: "char \<Rightarrow> bool" where
  "is_space c \<longleftrightarrow> c = CHR '' '' \<or> (9 \<le> (of_char c :: nat) \<and> (of_char c :: nat) \<le> 13)"

definition TrimSpace :: "string \<Rightarrow> string" where
  "TrimSpace s = rev (dropWhile is_space (rev (dropWhile is_space s)))"

definition upper_char :: "char \<Rightarrow> char" where
  "upper_char c = (if 97 \<le> (of_char c :: nat) \<and> (of_char c :: nat) \<le> 122 then char_of (of_char c - 32 :: nat) else c)"

definition lower_char :: "char \<Rightarrow> char" where
  "lower_char c = (if 65 \<le> (of_char c :: nat) \<and> (of_char c :: nat) \<le> 90 then char_of (of_char c + 32 :: nat) else c)"

definition ToUpper :: "string \<Rightarrow> string" where
  "ToUpper s = map upper_char s"

definition ToLower :: "string \<Rightarrow> string" where
  "ToLower s = map lower_char s"

end
