(* ===== verification/Handler.thy ===== *)
theory Handler
  imports Prelude
begin

text \<open>
  How a Go handler of this repository runs against Postgres.

  \<^item> HTTP responses and errors (\<open>packages/go-common/httpx/httpx.go\<close>): an \<open>httpx.Error\<close>
    carries a status and a code; any other error is written as 500. The human-readable
    message is not modelled.
  \<^item> A handler is a function of the \<open>world\<close>: the database its connection sees, the
    snapshot a rollback of the open transaction restores, the savepoint, the aborted flag of
    the transaction (after a failed statement Postgres refuses every further one), the
    sequences behind \<open>BIGSERIAL\<close> columns (never rolled back), a list of faults, one flag
    per statement still to come (\<open>True\<close>: this statement fails for a reason outside the
    model, such as a lost connection), and the log of effects outside the database, which no
    rollback undoes.
  \<^item> It returns either an early result (\<open>Inl\<close>, the Go \<open>return\<close> in the middle of the
    handler) or a value the rest of the handler goes on with (\<open>Inr\<close>).
\<close>

section \<open>Errors and responses\<close>

datatype goerr = HttpError nat string | PlainError

datatype 'b response =
    Err nat string
  | Internal
  | Json nat 'b
  | Status nat

definition ErrUnauthorized :: goerr where
  "ErrUnauthorized = HttpError 401 ''unauthorized''"

definition ErrForbidden :: goerr where
  "ErrForbidden = HttpError 403 ''forbidden''"

definition ErrNotFound :: goerr where
  "ErrNotFound = HttpError 404 ''not_found''"

definition ErrConflict :: goerr where
  "ErrConflict = HttpError 409 ''conflict''"

definition ErrBadRequest :: goerr where
  "ErrBadRequest = HttpError 400 ''bad_request''"

fun write_err :: "goerr \<Rightarrow> 'b response" where
  "write_err (HttpError st code) = Err st code"
| "write_err PlainError = Internal"

fun status_of :: "'b response \<Rightarrow> nat" where
  "status_of (Err n _) = n"
| "status_of Internal = 500"
| "status_of (Json n _) = n"
| "status_of (Status n) = n"

lemmas err_defs = ErrUnauthorized_def ErrForbidden_def ErrNotFound_def ErrConflict_def
  ErrBadRequest_def

section \<open>The world of a handler\<close>

datatype sqlerr = NoRows | UniqueViolation | ForeignKeyViolation | CheckViolation | RlsViolation | SqlFault

record ('d, 'e) world =
  w_db :: 'd
  w_snap :: "'d option"
  w_save :: "'d option"
  w_aborted :: bool
  w_seq :: "string \<Rightarrow> int"
  w_faults :: "bool list"
  w_log :: "'e list"

type_synonym ('d, 'e, 'r, 'a) act = "('d, 'e) world \<Rightarrow> ('r + 'a) \<times> ('d, 'e) world"

definition ret :: "'a \<Rightarrow> ('d, 'e, 'r, 'a) act" where
  "ret x w = (Inr x, w)"

definition stop :: "'r \<Rightarrow> ('d, 'e, 'r, 'a) act" where
  "stop r w = (Inl r, w)"

definition bind :: "('d, 'e, 'r, 'a) act \<Rightarrow> ('a \<Rightarrow> ('d, 'e, 'r, 'b) act) \<Rightarrow> ('d, 'e, 'r, 'b) act" where
  "bind m f w = (case m w of (Inl r, w') \<Rightarrow> (Inl r, w') | (Inr x, w') \<Rightarrow> f x w')"

definition andthen :: "('d, 'e, 'r, 'a) act \<Rightarrow> ('d, 'e, 'r, 'b) act \<Rightarrow> ('d, 'e, 'r, 'b) act" where
  "andthen m n = bind m (\<lambda>_. n)"

definition guard :: "bool \<Rightarrow> 'r \<Rightarrow> ('d, 'e, 'r, unit) act" where
  "guard ok r = (if ok then ret () else stop r)"

fun for_each :: "('x \<Rightarrow> ('d, 'e, 'r, unit) act) \<Rightarrow> 'x list \<Rightarrow> ('d, 'e, 'r, unit) act" where
  "for_each f [] = ret ()"
| "for_each f (x # xs) = andthen (f x) (for_each f xs)"

text \<open>A call whose error the caller looks at or drops.\<close>

definition attempt :: "('d, 'e, 'q, 'a) act \<Rightarrow> ('d, 'e, 'r, 'q + 'a) act" where
  "attempt m w = (case m w of (res, w') \<Rightarrow> (Inr res, w'))"

text \<open>The handler's answer, whichever way it was reached.\<close>

definition finish :: "('d, 'e, 'r, 'r) act \<Rightarrow> ('d, 'e) world \<Rightarrow> 'r \<times> ('d, 'e) world" where
  "finish m w = (case m w of (Inl r, w') \<Rightarrow> (r, w') | (Inr r, w') \<Rightarrow> (r, w'))"

text \<open>\<open>httpx.ReadJSON\<close>: \<open>None\<close> is a body the strict decoder rejects.\<close>

definition read_json :: "'q option \<Rightarrow> ('d, 'e, 'b response, 'q) act" where
  "read_json body = (case body of None \<Rightarrow> stop (Err 400 ''bad_json'') | Some q \<Rightarrow> ret q)"

definition emit :: "'e \<Rightarrow> ('d, 'e, 'r, unit) act" where
  "emit ev w = (Inr (), w\<lparr>w_log := w_log w @ [ev]\<rparr>)"

text \<open>What a process keeps in memory is what it has stored there: a function of its log.\<close>

definition recall :: "('e list \<Rightarrow> 'a) \<Rightarrow> ('d, 'e, 'r, 'a) act" where
  "recall f w = (Inr (f (w_log w)), w)"

definition nextval :: "string \<Rightarrow> ('d, 'e, 'r, int) act" where
  "nextval sq w = (let n = w_seq w sq + 1 in (Inr n, w\<lparr>w_seq := (w_seq w)(sq := n)\<rparr>))"

section \<open>Statements and transactions\<close>

text \<open>
  One SQL statement. Its outcome is a value: \<open>pgx.ErrNoRows\<close> is reported by the client
  after a statement that succeeded, so it leaves the transaction usable; every other error
  aborts the open transaction.
\<close>

definition exec_try :: "('d \<Rightarrow> sqlerr + 'a \<times> 'd) \<Rightarrow> ('d, 'e, 'r, sqlerr + 'a) act" where
  "exec_try f w =
     (let w1 = w\<lparr>w_faults := tl (w_faults w)\<rparr>;
          broken = w1\<lparr>w_aborted := (w_aborted w \<or> w_snap w \<noteq> None)\<rparr>
      in if w_aborted w \<or> (w_faults w \<noteq> [] \<and> hd (w_faults w)) then (Inr (Inl SqlFault), broken)
         else (case f (w_db w) of
                 Inr (x, d) \<Rightarrow> (Inr (Inr x), w1\<lparr>w_db := d\<rparr>)
               | Inl e \<Rightarrow> (Inr (Inl e), if e = NoRows then w1 else broken)))"

definition exec_or :: "(sqlerr \<Rightarrow> 'r) \<Rightarrow> ('d \<Rightarrow> sqlerr + 'a \<times> 'd) \<Rightarrow> ('d, 'e, 'r, 'a) act" where
  "exec_or k f = bind (exec_try f) (\<lambda>res. case res of Inl e \<Rightarrow> stop (k e) | Inr x \<Rightarrow> ret x)"

abbreviation exec :: "('d \<Rightarrow> sqlerr + 'a \<times> 'd) \<Rightarrow> ('d, 'e, 'b response, 'a) act" where
  "exec f \<equiv> exec_or (\<lambda>_. Internal) f"

abbreviation exec_job :: "('d \<Rightarrow> sqlerr + 'a \<times> 'd) \<Rightarrow> ('d, 'e, goerr, 'a) act" where
  "exec_job f \<equiv> exec_or (\<lambda>_. PlainError) f"

text \<open>A read: the statement leaves the database as it is.\<close>

definition query :: "('d \<Rightarrow> 'a) \<Rightarrow> 'd \<Rightarrow> sqlerr + 'a \<times> 'd" where
  "query f d = Inr (f d, d)"

definition query_row :: "('d \<Rightarrow> 'a option) \<Rightarrow> 'd \<Rightarrow> sqlerr + 'a \<times> 'd" where
  "query_row f d = (case f d of None \<Rightarrow> Inl NoRows | Some x \<Rightarrow> Inr (x, d))"

text \<open>A write that cannot violate a constraint.\<close>

definition change :: "('d \<Rightarrow> 'd) \<Rightarrow> 'd \<Rightarrow> sqlerr + unit \<times> 'd" where
  "change f d = Inr ((), f d)"

definition no_rows_or :: "'r \<Rightarrow> 'r \<Rightarrow> sqlerr \<Rightarrow> 'r" where
  "no_rows_or missing other e = (if e = NoRows then missing else other)"

definition tx_begin :: "'r \<Rightarrow> ('d, 'e, 'r, unit) act" where
  "tx_begin k w =
     (let w1 = w\<lparr>w_faults := tl (w_faults w)\<rparr>
      in if w_faults w \<noteq> [] \<and> hd (w_faults w) then (Inl k, w1)
         else (Inr (), w1\<lparr>w_snap := Some (w_db w), w_save := None, w_aborted := False\<rparr>))"

definition rolled_back :: "('d, 'e) world \<Rightarrow> ('d, 'e) world" where
  "rolled_back w = (case w_snap w of None \<Rightarrow> w
     | Some d \<Rightarrow> w\<lparr>w_db := d, w_snap := None, w_save := None, w_aborted := False\<rparr>)"

definition tx_commit :: "'r \<Rightarrow> ('d, 'e, 'r, unit) act" where
  "tx_commit k w =
     (let w1 = w\<lparr>w_faults := tl (w_faults w)\<rparr>
      in if w_aborted w \<or> (w_faults w \<noteq> [] \<and> hd (w_faults w)) then (Inl k, rolled_back w1)
         else (Inr (), w1\<lparr>w_snap := None, w_save := None\<rparr>))"

text \<open>\<open>defer tx.Rollback(ctx)\<close>: a no-op once the transaction was committed.\<close>

definition defer_rollback :: "('d, 'e, 'r, 'a) act \<Rightarrow> ('d, 'e, 'r, 'a) act" where
  "defer_rollback m w = (case m w of (res, w') \<Rightarrow> (res, rolled_back w'))"

definition in_tx :: "'r \<Rightarrow> ('d, 'e, 'r, 'a) act \<Rightarrow> ('d, 'e, 'r, 'a) act" where
  "in_tx k body = defer_rollback
     (andthen (tx_begin k) (bind body (\<lambda>x. andthen (tx_commit k) (ret x))))"

text \<open>
  One statement under a savepoint: \<open>SAVEPOINT t\<close>, the statement, then \<open>RELEASE SAVEPOINT t\<close> or
  \<open>ROLLBACK TO SAVEPOINT t\<close>, whose own errors the callers drop. Rolling back to a savepoint
  makes an aborted transaction usable again.
\<close>

definition savepoint :: "'r \<Rightarrow> ('d, 'e, 'r, unit) act" where
  "savepoint k w =
     (let w1 = w\<lparr>w_faults := tl (w_faults w)\<rparr>
      in if w_aborted w \<or> (w_faults w \<noteq> [] \<and> hd (w_faults w)) then (Inl k, w1\<lparr>w_aborted := True\<rparr>)
         else (Inr (), w1\<lparr>w_save := Some (w_db w)\<rparr>))"

definition release :: "('d, 'e, 'r, unit) act" where
  "release w =
     (let w1 = w\<lparr>w_faults := tl (w_faults w)\<rparr>
      in (Inr (), if w_aborted w \<or> (w_faults w \<noteq> [] \<and> hd (w_faults w)) then w1\<lparr>w_aborted := True\<rparr>
                  else w1\<lparr>w_save := None\<rparr>))"

definition rollback_to :: "('d, 'e, 'r, unit) act" where
  "rollback_to w =
     (let w1 = w\<lparr>w_faults := tl (w_faults w)\<rparr>
      in (Inr (), if w_faults w \<noteq> [] \<and> hd (w_faults w) then w1\<lparr>w_aborted := True\<rparr>
                  else case w_save w of None \<Rightarrow> w1\<lparr>w_aborted := True\<rparr>
                       | Some d \<Rightarrow> w1\<lparr>w_db := d, w_aborted := False\<rparr>))"

definition in_savepoint :: "'r \<Rightarrow> ('d \<Rightarrow> sqlerr + 'a \<times> 'd) \<Rightarrow> ('d, 'e, 'r, sqlerr + 'a) act" where
  "in_savepoint k f =
     andthen (savepoint k) (bind (exec_try f) (\<lambda>res.
     case res of
       Inl e \<Rightarrow> andthen rollback_to (ret (Inl e))
     | Inr x \<Rightarrow> andthen release (ret (Inr x))))"

section \<open>Inversion of steps that succeed\<close>

lemma bindE [run_elims]:
  assumes "bind m f w = (Inr y, w')"
  obtains x w1 where "m w = (Inr x, w1)" and "f x w1 = (Inr y, w')"
  using assms by (auto simp: bind_def split: prod.splits sum.splits)

lemma andthenE [run_elims]:
  assumes "andthen m n w = (Inr y, w')"
  obtains x w1 where "m w = (Inr x, w1)" and "n w1 = (Inr y, w')"
  using assms by (auto simp: andthen_def elim: bindE)

lemma guard_Inr [simp]: "guard ok r w = (Inr u, w') \<longleftrightarrow> ok \<and> w' = w"
  by (auto simp: guard_def ret_def stop_def)

lemma ret_Inr [simp]: "ret x w = (Inr y, w') \<longleftrightarrow> y = x \<and> w' = w"
  by (auto simp: ret_def)

lemma stop_Inr [simp]: "stop r w = (Inr y, w') \<longleftrightarrow> False"
  by (simp add: stop_def)

lemma read_json_Inr [simp]: "read_json body w = (Inr q, w') \<longleftrightarrow> body = Some q \<and> w' = w"
  by (auto simp: read_json_def split: option.splits)

lemma exec_orE [run_elims]:
  assumes "exec_or k f w = (Inr x, w')"
  obtains d fs where "f (w_db w) = Inr (x, d)" and "\<not> w_aborted w"
    and "w' = w\<lparr>w_faults := fs, w_db := d\<rparr>"
  using assms
  by (auto simp: exec_or_def exec_try_def Let_def bind_def
      split: if_splits prod.splits sum.splits)

text \<open>The three outcomes of a statement whose error the code looks at.\<close>

lemma exec_try_cases:
  assumes run: "exec_try f w = (res, w')"
  obtains (ok) x d where "res = Inr (Inr x)" "f (w_db w) = Inr (x, d)" "\<not> w_aborted w"
      "w' = w\<lparr>w_faults := tl (w_faults w), w_db := d\<rparr>"
  | (norows) "res = Inr (Inl NoRows)" "f (w_db w) = Inl NoRows" "\<not> w_aborted w"
      "w' = w\<lparr>w_faults := tl (w_faults w)\<rparr>"
  | (failed) e where "res = Inr (Inl e)" "e \<noteq> NoRows" "w' = w\<lparr>w_faults := tl (w_faults w),
         w_aborted := (w_aborted w \<or> w_snap w \<noteq> None)\<rparr>"
proof (cases "w_aborted w \<or> (w_faults w \<noteq> [] \<and> hd (w_faults w))")
  case True
  with run show thesis by (intro failed [of SqlFault]) (auto simp: exec_try_def Let_def)
next
  case False
  show thesis
  proof (cases "f (w_db w)")
    case (Inl e)
    show thesis
    proof (cases "e = NoRows")
      case True
      with run False Inl show thesis by (intro norows) (auto simp: exec_try_def Let_def)
    next
      case other: False
      with run False Inl show thesis by (intro failed [of e]) (auto simp: exec_try_def Let_def)
    qed
  next
    case (Inr r)
    with run False show thesis
      by (cases r) (intro ok, auto simp: exec_try_def Let_def)
  qed
qed

text \<open>
  A dropped error is not forgotten: inside the transaction it makes every later statement fail, so
  where the run goes on the statement had worked.
\<close>

lemma try_row_settled:
  assumes "exec_try (query_row f) w = (Inr res, w1)" and "w_snap w \<noteq> None" and "\<not> w_aborted w1"
  shows "res = (case f (w_db w) of None \<Rightarrow> Inl NoRows | Some x \<Rightarrow> Inr x) \<and> w_db w1 = w_db w \<and> w_snap w1 = w_snap w"
  using assms(1) by (cases rule: exec_try_cases) (use assms(2,3) in \<open>auto simp: query_row_def split: option.splits\<close>)

lemma try_query_settled:
  assumes "exec_try (query f) w = (Inr res, w1)" and "w_snap w \<noteq> None" and "\<not> w_aborted w1"
  shows "res = Inr (f (w_db w)) \<and> w_db w1 = w_db w \<and> w_snap w1 = w_snap w"
  using assms(1) by (cases rule: exec_try_cases) (use assms(2,3) in \<open>auto simp: query_def\<close>)

text \<open>What a statement does outside the database and the counters, whichever way it ends.\<close>

lemma exec_try_quiet:
  assumes "exec_try f w = (res, w')"
  shows "w_log w' = w_log w \<and> w_snap w' = w_snap w \<and> w_seq w' = w_seq w"
  using assms by (cases rule: exec_try_cases) simp_all

lemma exec_or_outcome:
  fixes res :: "'r + 'a"
  assumes run: "exec_or k f w = (res, w')"
  obtains (ok) x where "res = Inr x" "f (w_db w) = Inr (x, w_db w')" "w_log w' = w_log w" "w_snap w' = w_snap w"
  | (failed) e where "res = Inl (k e)" "w_db w' = w_db w" "w_log w' = w_log w" "w_snap w' = w_snap w"
proof -
  obtain r1 w1 where step: "exec_try f w = (r1 :: 'r + sqlerr + 'a, w1)" by fastforce
  from exec_try_quiet [OF step] have quiet: "w_log w1 = w_log w" "w_snap w1 = w_snap w" by simp_all
  from step show thesis
  proof (cases rule: exec_try_cases)
    case (ok x d)
    with run step quiet show thesis
      by (intro that(1) [of x]) (auto simp: exec_or_def bind_def ret_def)
  next
    case norows
    with run step quiet show thesis
      by (intro that(2) [of NoRows]) (auto simp: exec_or_def bind_def stop_def)
  next
    case (failed e)
    with run step quiet show thesis
      by (intro that(2) [of e]) (auto simp: exec_or_def bind_def stop_def)
  qed
qed

lemma emitE [run_elims]:
  assumes "emit ev w = (Inr u, w')"
  obtains "w' = w\<lparr>w_log := w_log w @ [ev]\<rparr>"
  using assms by (auto simp: emit_def)

lemma nextvalE [run_elims]:
  assumes "nextval sq w = (Inr n, w')"
  obtains "n = w_seq w sq + 1" and "w' = w\<lparr>w_seq := (w_seq w)(sq := n)\<rparr>"
  using assms by (auto simp: nextval_def Let_def)

lemma recall_Inr [simp]: "recall f w = (Inr x, w') \<longleftrightarrow> x = f (w_log w) \<and> w' = w"
  by (auto simp: recall_def)

lemma query_Inr [simp]: "query f d = Inr (x, d') \<longleftrightarrow> x = f d \<and> d' = d"
  by (auto simp: query_def)

lemma query_row_Inr [simp]: "query_row f d = Inr (x, d') \<longleftrightarrow> f d = Some x \<and> d' = d"
  by (auto simp: query_row_def split: option.splits)

lemma change_Inr [simp]: "change f d = Inr (u, d') \<longleftrightarrow> d' = f d"
  by (auto simp: change_def)

lemma attempt_Inr [simp]: "attempt m w = (Inr res, w') \<longleftrightarrow> m w = (res, w')"
  by (auto simp: attempt_def split: prod.splits)

lemma exec_change_db: "exec_or k (change f) w = (Inr u, w') \<Longrightarrow> w_db w' = f (w_db w)"
  by (elim exec_orE) simp

lemma exec_query_db: "exec_or k (query f) w = (Inr x, w') \<Longrightarrow> x = f (w_db w) \<and> w_db w' = w_db w"
  by (elim exec_orE) simp

lemma exec_query_row_db: "exec_or k (query_row f) w = (Inr x, w') \<Longrightarrow> f (w_db w) = Some x \<and> w_db w' = w_db w"
  by (elim exec_orE) simp

lemma exec_db: "exec_or k f w = (Inr x, w') \<Longrightarrow> f (w_db w) = Inr (x, w_db w')"
  by (elim exec_orE) simp

text \<open>Every answer of a handler comes from its end or from an early return.\<close>

lemma finish_cases:
  assumes "finish m w = (r, w')"
  obtains (ended) "m w = (Inr r, w')" | (stopped) "m w = (Inl r, w')"
  using assms by (auto simp: finish_def split: prod.splits sum.splits)

section \<open>Frame conditions\<close>

text \<open>
  \<open>keeps R m\<close>: whatever \<open>m\<close> returns, the world it leaves is related to the one it
  started in. For a preorder \<open>R\<close> the condition is checked step by step, which the locale
  proves once; the theories interpret it for the relations they need (the open transaction
  is kept, the rows of other tenants are kept, an append-only table only grows).
\<close>

definition keeps :: "(('d, 'e) world \<Rightarrow> ('d, 'e) world \<Rightarrow> bool) \<Rightarrow> ('d, 'e, 'r, 'a) act \<Rightarrow> bool" where
  "keeps R m \<longleftrightarrow> (\<forall>w. R w (snd (m w)))"

lemma keepsI: "(\<And>w. R w (snd (m w))) \<Longrightarrow> keeps R m"
  by (simp add: keeps_def)

lemma keepsD: "keeps R m \<Longrightarrow> m w = (res, w') \<Longrightarrow> R w w'"
  by (metis keeps_def snd_conv)

locale frame =
  fixes R :: "('d, 'e) world \<Rightarrow> ('d, 'e) world \<Rightarrow> bool"
  assumes refl: "R w w"
    and trans: "R u v \<Longrightarrow> R v w \<Longrightarrow> R u w"
begin

lemma r_ret: "keeps R (ret x)"
  by (simp add: keeps_def ret_def refl)

lemma r_stop: "keeps R (stop x)"
  by (simp add: keeps_def stop_def refl)

lemma r_guard: "keeps R (guard b x)"
  by (simp add: guard_def r_ret r_stop)

lemma r_read_json: "keeps R (read_json body)"
  by (cases body) (simp_all add: read_json_def r_ret r_stop)

lemma r_bind:
  assumes "keeps R m" and "\<And>x. keeps R (f x)"
  shows "keeps R (bind m f)"
proof (rule keepsI)
  fix w
  show "R w (snd (bind m f w))"
  proof (cases "m w")
    case (Pair res w1)
    with assms(1) have step: "R w w1" by (rule keepsD)
    show ?thesis
    proof (cases res)
      case (Inl r)
      with Pair step show ?thesis by (simp add: bind_def)
    next
      case (Inr x)
      from assms(2) have "R w1 (snd (f x w1))" by (simp add: keeps_def)
      with Pair Inr step show ?thesis by (auto simp: bind_def intro: trans)
    qed
  qed
qed

lemma r_andthen: "keeps R m \<Longrightarrow> keeps R n \<Longrightarrow> keeps R (andthen m n)"
  by (simp add: andthen_def r_bind)

lemma r_for_each: "(\<And>x. keeps R (f x)) \<Longrightarrow> keeps R (for_each f xs)"
  by (induction xs) (simp_all add: r_ret r_andthen)

lemma r_if: "keeps R m \<Longrightarrow> keeps R n \<Longrightarrow> keeps R (if b then m else n)"
  by simp

lemma r_option: "keeps R m \<Longrightarrow> (\<And>x. keeps R (f x)) \<Longrightarrow> keeps R (case opt of None \<Rightarrow> m | Some x \<Rightarrow> f x)"
  by (cases opt) simp_all

lemma r_sum: "(\<And>x. keeps R (g x)) \<Longrightarrow> (\<And>x. keeps R (f x)) \<Longrightarrow> keeps R (case s of Inl x \<Rightarrow> g x | Inr x \<Rightarrow> f x)"
  by (cases s) simp_all

lemma r_recall: "keeps R (recall f)"
  by (simp add: keeps_def recall_def refl)

lemma r_let: "(\<And>x. keeps R (f x)) \<Longrightarrow> keeps R (let x = a in f x)"
  by simp

lemma r_prod: "(\<And>x y. keeps R (f x y)) \<Longrightarrow> keeps R (case p of (x, y) \<Rightarrow> f x y)"
  by (cases p) simp

lemma r_attempt: "keeps R m \<Longrightarrow> keeps R (attempt m)"
  unfolding keeps_def attempt_def by (auto split: prod.splits) (metis snd_conv)

lemmas r_control = r_attempt r_recall r_ret r_stop r_guard r_read_json r_bind r_andthen r_for_each r_if
  r_option r_sum r_let r_prod

end

text \<open>First instance: a step that neither opens nor closes the transaction.\<close>

definition same_tx :: "('d, 'e) world \<Rightarrow> ('d, 'e) world \<Rightarrow> bool" where
  "same_tx w w' \<longleftrightarrow> w_snap w' = w_snap w"

interpretation tx: frame same_tx
  by unfold_locales (simp_all add: same_tx_def)

lemma tx_exec_try: "keeps same_tx (exec_try f)"
  by (rule keepsI) (auto simp: same_tx_def exec_try_def Let_def split: sum.splits prod.splits)

lemma tx_exec_or: "keeps same_tx (exec_or k f)"
  unfolding exec_or_def by (intro tx.r_control tx_exec_try)

lemma tx_emit: "keeps same_tx (emit ev)"
  by (rule keepsI) (simp add: same_tx_def emit_def)

lemma tx_nextval: "keeps same_tx (nextval sq)"
  by (rule keepsI) (simp add: same_tx_def nextval_def Let_def)

lemmas tx_steps = tx.r_control tx_exec_try tx_exec_or tx_emit tx_nextval

text \<open>
  Atomicity, once for all handlers: a body that keeps the transaction open either runs to
  its end and its whole effect is committed, or nothing of it remains.
\<close>

lemma in_tx_cases:
  assumes run: "in_tx k body w = (res, w')"
    and idle: "w_snap w = None"
    and body_tx: "keeps same_tx body"
  obtains (committed) x w1 w2 where "res = Inr x" "body w1 = (Inr x, w2)" "w_db w1 = w_db w"
      "w_log w1 = w_log w" "w_seq w1 = w_seq w" "w_snap w1 = Some (w_db w)" "\<not> w_aborted w1"
      "w_db w' = w_db w2" "w_log w' = w_log w2" "w_seq w' = w_seq w2" "w_snap w' = None"
  | (rolledback) r where "res = Inl r" "w_db w' = w_db w" "w_snap w' = None"
proof -
  let ?w0 = "w\<lparr>w_faults := tl (w_faults w)\<rparr>"
  let ?w1 = "?w0\<lparr>w_snap := Some (w_db w), w_save := None, w_aborted := False\<rparr>"
  obtain bres w2 where body: "body ?w1 = (bres, w2)" by fastforce
  have snap2: "w_snap w2 = Some (w_db w)"
    using keepsD [OF body_tx body] by (simp add: same_tx_def)
  show thesis
  proof (cases "w_faults w \<noteq> [] \<and> hd (w_faults w)")
    case True
    with run idle show thesis
      by (intro rolledback) (auto simp: in_tx_def defer_rollback_def andthen_def bind_def
          tx_begin_def Let_def rolled_back_def split: option.splits)
  next
    case False
    then have begun: "tx_begin k w = (Inr (), ?w1)"
      by (auto simp: tx_begin_def Let_def)
    show thesis
    proof (cases bres)
      case (Inl r)
      with run begun body snap2 show thesis
        by (intro rolledback) (auto simp: in_tx_def defer_rollback_def andthen_def bind_def
            rolled_back_def)
    next
      case (Inr x)
      show thesis
      proof (cases "w_aborted w2 \<or> (w_faults w2 \<noteq> [] \<and> hd (w_faults w2))")
        case True
        with run begun body snap2 Inr show thesis
          by (intro rolledback) (auto simp: in_tx_def defer_rollback_def andthen_def bind_def
              tx_commit_def Let_def rolled_back_def)
      next
        case False
        with run begun body Inr show thesis
          by (intro committed [of x ?w1 w2]) (auto simp: in_tx_def defer_rollback_def andthen_def
              bind_def tx_commit_def Let_def rolled_back_def ret_def)
      qed
    qed
  qed
qed

lemma in_txE:
  assumes "in_tx k body w = (Inr x, w')" and "w_snap w = None" and "keeps same_tx body"
  obtains w1 w2 where "body w1 = (Inr x, w2)" "w_db w1 = w_db w" "w_log w1 = w_log w"
    "w_seq w1 = w_seq w" "w_snap w1 = Some (w_db w)" "\<not> w_aborted w1"
    "w_db w' = w_db w2" "w_log w' = w_log w2" "w_seq w' = w_seq w2" "w_snap w' = None"
  using assms by (cases rule: in_tx_cases) auto

lemma in_tx_failed:
  assumes "in_tx k body w = (Inl r, w')" and "w_snap w = None" and "keeps same_tx body"
  shows "w_db w' = w_db w \<and> w_snap w' = None"
  using assms by (cases rule: in_tx_cases) auto

text \<open>
  The outcomes of a statement under a savepoint: its effect, or none; the log and the snapshot
  stay as they are.
\<close>

lemma in_savepoint_outcome:
  fixes res :: "'r + sqlerr + 'a" and f :: "'d \<Rightarrow> sqlerr + 'a \<times> 'd" and w w' :: "('d, 'e) world"
  assumes run: "in_savepoint k f w = (res, w')"
  obtains (ok) x where "res = Inr (Inr x)" "f (w_db w) = Inr (x, w_db w')" "w_log w' = w_log w" "w_snap w' = w_snap w"
  | (failed) e where "res = Inr (Inl e)" "w_db w' = w_db w" "w_log w' = w_log w" "w_snap w' = w_snap w"
  | (broken) "res = Inl k" "w_db w' = w_db w" "w_log w' = w_log w" "w_snap w' = w_snap w"
proof -
  let ?w0 = "w\<lparr>w_faults := tl (w_faults w)\<rparr>"
  show thesis
  proof (cases "w_aborted w \<or> (w_faults w \<noteq> [] \<and> hd (w_faults w))")
    case True
    with run show thesis
      by (intro broken) (auto simp: in_savepoint_def andthen_def bind_def savepoint_def Let_def)
  next
    case False
    let ?w1 = "?w0\<lparr>w_save := Some (w_db w)\<rparr>"
    obtain r2 w2 where step: "(exec_try f :: ('d, 'e, 'r, sqlerr + 'a) act) ?w1 = (r2, w2)" by fastforce
    from False run step have rest:
      "(case r2 of Inl r \<Rightarrow> (Inl r, w2) | Inr y \<Rightarrow> (case y of Inl e \<Rightarrow> bind rollback_to (\<lambda>_. ret (Inl e))
          | Inr x \<Rightarrow> bind release (\<lambda>_. ret (Inr x))) w2) = (res, w')"
      by (auto simp: in_savepoint_def andthen_def bind_def savepoint_def Let_def)
    from step show thesis
    proof (cases rule: exec_try_cases)
      case (ok x d)
      with rest show thesis
        by (intro that(1) [of x]) (auto simp: bind_def release_def ret_def Let_def split: if_splits)
    next
      case norows
      with rest show thesis
        by (intro that(2) [of NoRows]) (auto simp: bind_def rollback_to_def ret_def Let_def split: if_splits)
    next
      case (failed e)
      with rest show thesis
        by (intro that(2) [of e]) (auto simp: bind_def rollback_to_def ret_def Let_def split: if_splits)
    qed
  qed
qed

lemma keeps_in_savepoint:
  fixes f :: "'d \<Rightarrow> sqlerr + 'a \<times> 'd" and k :: 'r
  assumes "\<And>w w' :: ('d, 'e) world. w_log w' = w_log w \<Longrightarrow> w_snap w' = w_snap w \<Longrightarrow>
      w_db w' = w_db w \<or> (\<exists>x. f (w_db w) = Inr (x, w_db w')) \<Longrightarrow> R w w'"
  shows "keeps R (in_savepoint k f :: ('d, 'e, 'r, sqlerr + 'a) act)"
proof (rule keepsI)
  fix w :: "('d, 'e) world"
  obtain res :: "'r + sqlerr + 'a" and w' where run: "in_savepoint k f w = (res, w')" by fastforce
  from run have "R w w'" by (cases rule: in_savepoint_outcome) (use assms in blast)+
  with run show "R w (snd ((in_savepoint k f :: ('d, 'e, 'r, sqlerr + 'a) act) w))" by simp
qed

lemma tx_in_savepoint: "keeps same_tx (in_savepoint k f)"
  by (rule keeps_in_savepoint) (simp add: same_tx_def)

text \<open>Second instance: a step that only reads.\<close>

definition same_db :: "('d, 'e) world \<Rightarrow> ('d, 'e) world \<Rightarrow> bool" where
  "same_db w w' \<longleftrightarrow> w_db w' = w_db w \<and> w_snap w' = w_snap w"

interpretation rd: frame same_db
  by unfold_locales (simp_all add: same_db_def)

definition reads :: "('d \<Rightarrow> sqlerr + 'a \<times> 'd) \<Rightarrow> bool" where
  "reads f \<longleftrightarrow> (\<forall>d x d'. f d = Inr (x, d') \<longrightarrow> d' = d)"

lemma reads_query [frame_intros]: "reads (query f)" "reads (query_row g)"
  by (simp_all add: reads_def)

lemma rd_exec_try: "reads f \<Longrightarrow> keeps same_db (exec_try f)"
  by (rule keepsI)
    (auto simp: same_db_def exec_try_def Let_def reads_def split: sum.splits prod.splits)

lemma rd_exec_or: "reads f \<Longrightarrow> keeps same_db (exec_or k f)"
  unfolding exec_or_def by (intro rd.r_control rd_exec_try)

lemma rd_emit: "keeps same_db (emit ev)"
  by (rule keepsI) (simp add: same_db_def emit_def)

lemma rd_nextval: "keeps same_db (nextval sq)"
  by (rule keepsI) (simp add: same_db_def nextval_def Let_def)

lemmas rd_steps = rd.r_control rd_exec_try rd_exec_or rd_emit rd_nextval frame_intros

text \<open>
  Third instance: a step that keeps what \<open>g\<close> reads of the database, both in the current
  database and in the one a rollback would restore. With \<open>g\<close> the rows of other tenants this is
  isolation, with \<open>g\<close> a table it says the table is not written.
\<close>

definition steady :: "('d \<Rightarrow> 'x) \<Rightarrow> 'x \<Rightarrow> ('d, 'e) world \<Rightarrow> bool" where
  "steady g x w \<longleftrightarrow> g (w_db w) = x \<and> (case w_snap w of None \<Rightarrow> True | Some d \<Rightarrow> g d = x)"

definition pinned :: "('d \<Rightarrow> 'x) \<Rightarrow> ('d, 'e) world \<Rightarrow> ('d, 'e) world \<Rightarrow> bool" where
  "pinned g w w' \<longleftrightarrow> (\<forall>x. steady g x w \<longrightarrow> steady g x w')"

interpretation pin: frame "pinned g" for g
  by unfold_locales (auto simp: pinned_def)

lemma pinI: "(\<And>x w. steady g x w \<Longrightarrow> steady g x (snd (m w))) \<Longrightarrow> keeps (pinned g) m"
  by (simp add: keeps_def pinned_def)

definition fixed :: "('d \<Rightarrow> 'x) \<Rightarrow> ('d \<Rightarrow> sqlerr + 'a \<times> 'd) \<Rightarrow> bool" where
  "fixed g f \<longleftrightarrow> (\<forall>d x d'. f d = Inr (x, d') \<longrightarrow> g d' = g d)"

lemma fixed_query [frame_intros]: "fixed g (query f)"
  by (simp add: fixed_def)

lemma fixed_query_row [frame_intros]: "fixed g (query_row f)"
  by (simp add: fixed_def)

lemma fixed_change: "(\<And>d. g (f d) = g d) \<Longrightarrow> fixed g (change f)"
  by (simp add: fixed_def)

lemma steady_irrelevant [simp]:
  "steady g x (w\<lparr>w_faults := fs\<rparr>) = steady g x w"
  "steady g x (w\<lparr>w_aborted := b\<rparr>) = steady g x w"
  "steady g x (w\<lparr>w_log := l\<rparr>) = steady g x w"
  "steady g x (w\<lparr>w_seq := sq\<rparr>) = steady g x w"
  "steady g x (w\<lparr>w_save := sv\<rparr>) = steady g x w"
  by (simp_all add: steady_def)

lemma steady_rolled_back: "steady g x w \<Longrightarrow> steady g x (rolled_back w)"
  by (cases "w_snap w") (simp_all add: steady_def rolled_back_def)

lemma steady_committed: "steady g x w \<Longrightarrow> steady g x (w\<lparr>w_snap := None\<rparr>)"
  by (simp add: steady_def)

lemma steady_write: "steady g x w \<Longrightarrow> g d = g (w_db w) \<Longrightarrow> steady g x (w\<lparr>w_db := d\<rparr>)"
  by (simp add: steady_def)

lemma pin_exec_try:
  fixes f :: "'d \<Rightarrow> sqlerr + 'a \<times> 'd"
  assumes "fixed g f"
  shows "keeps (pinned g) (exec_try f :: ('d, 'e, 'r, sqlerr + 'a) act)"
proof (rule pinI)
  fix x and w :: "('d, 'e) world"
  assume c: "steady g x w"
  obtain res :: "'r + sqlerr + 'a" and w' where run: "exec_try f w = (res, w')" by fastforce
  from run have "steady g x w'"
  proof (cases rule: exec_try_cases)
    case (ok y d)
    with assms have "g d = g (w_db w)" by (auto simp: fixed_def)
    with ok c show ?thesis by (simp add: steady_write)
  qed (simp_all add: c)
  with run show "steady g x (snd ((exec_try f :: ('d, 'e, 'r, sqlerr + 'a) act) w))" by simp
qed

lemma pin_exec_or: "fixed g f \<Longrightarrow> keeps (pinned g) (exec_or k f)"
  unfolding exec_or_def by (intro pin.r_control pin_exec_try)

lemma pin_emit: "keeps (pinned g) (emit ev)"
  by (rule pinI) (simp add: emit_def)

lemma pin_nextval: "keeps (pinned g) (nextval sq)"
  by (rule pinI) (simp add: nextval_def Let_def)

lemma pin_begin: "keeps (pinned g) (tx_begin k)"
  by (rule pinI) (simp add: tx_begin_def Let_def steady_def)

lemma pin_commit: "keeps (pinned g) (tx_commit k)"
  by (rule pinI) (simp add: tx_commit_def Let_def steady_rolled_back steady_committed)

lemma pin_defer: "keeps (pinned g) m \<Longrightarrow> keeps (pinned g) (defer_rollback m)"
  by (rule pinI)
    (auto simp: defer_rollback_def pinned_def split: prod.splits
      dest!: keepsD intro!: steady_rolled_back)

lemma pin_in_tx: "keeps (pinned g) body \<Longrightarrow> keeps (pinned g) (in_tx k body)"
  unfolding in_tx_def by (intro pin.r_control pin_defer pin_begin pin_commit)

lemmas pin_steps = pin.r_control pin_exec_try pin_exec_or pin_emit pin_nextval pin_begin
  pin_commit pin_defer pin_in_tx

lemma pinnedD:
  assumes "keeps (pinned g) m" and "m w = (res, w')" and "w_snap w = None"
  shows "g (w_db w') = g (w_db w)"
proof -
  from assms(1,2) have "pinned g w w'" by (rule keepsD)
  moreover from assms(3) have "steady g (g (w_db w)) w" by (simp add: steady_def)
  ultimately show ?thesis by (auto simp: pinned_def steady_def)
qed

lemma pinned_finish:
  assumes "keeps (pinned g) m" and "finish m w = (r, w')" and "w_snap w = None"
  shows "g (w_db w') = g (w_db w)"
  using assms(2) by (cases rule: finish_cases) (use assms(1,3) pinnedD in blast)+

text \<open>Fourth instance: the log of outside effects only grows; no rollback shortens it.\<close>

definition log_grows :: "('d, 'e) world \<Rightarrow> ('d, 'e) world \<Rightarrow> bool" where
  "log_grows w w' \<longleftrightarrow> (\<exists>l. w_log w' = w_log w @ l)"

interpretation lg: frame log_grows
  by unfold_locales (auto simp: log_grows_def)

lemma log_growsI: "w_log w' = w_log w \<Longrightarrow> log_grows w w'"
  by (simp add: log_grows_def)

lemma w_log_rolled_back [simp]: "w_log (rolled_back w) = w_log w"
  by (simp add: rolled_back_def split: option.split)

lemma lg_exec_try: "keeps log_grows (exec_try f)"
  by (rule keepsI, rule log_growsI)
    (auto simp: exec_try_def Let_def split: sum.splits prod.splits)

lemma lg_exec_or: "keeps log_grows (exec_or k f)"
  unfolding exec_or_def by (intro lg.r_control lg_exec_try)

lemma lg_emit: "keeps log_grows (emit ev)"
  by (rule keepsI) (simp add: log_grows_def emit_def)

lemma lg_nextval: "keeps log_grows (nextval sq)"
  by (rule keepsI, rule log_growsI) (simp add: nextval_def Let_def)

lemma lg_in_tx: 
  assumes "keeps log_grows body"
  shows "keeps log_grows (in_tx k body)"
proof -
  have "keeps log_grows (tx_begin k)"
    by (rule keepsI, rule log_growsI) (simp add: tx_begin_def Let_def)
  moreover have "keeps log_grows (tx_commit k)"
    by (rule keepsI, rule log_growsI) (simp add: tx_commit_def Let_def)
  ultimately have "keeps log_grows (andthen (tx_begin k) (bind body (\<lambda>x. andthen (tx_commit k) (ret x))))"
    using assms by (intro lg.r_control)
  then show ?thesis
    unfolding in_tx_def keeps_def defer_rollback_def log_grows_def by (auto split: prod.splits) (metis snd_conv)
qed

lemmas lg_steps = lg.r_control lg_exec_try lg_exec_or lg_emit lg_nextval lg_in_tx

lemma lg_in_savepoint: "keeps log_grows (in_savepoint k f)"
  by (rule keeps_in_savepoint) (simp add: log_growsI)

lemma pin_in_savepoint: "fixed g f \<Longrightarrow> keeps (pinned g) (in_savepoint k f)"
  by (rule keeps_in_savepoint) (auto simp: pinned_def steady_def fixed_def)

text \<open>
  Fifth instance: a step that keeps an invariant of the database, again of the current one and
  of the one a rollback would restore.
\<close>

definition held :: "('d \<Rightarrow> bool) \<Rightarrow> ('d, 'e) world \<Rightarrow> bool" where
  "held q w \<longleftrightarrow> q (w_db w) \<and> (case w_snap w of None \<Rightarrow> True | Some d \<Rightarrow> q d)"

definition kept :: "('d \<Rightarrow> bool) \<Rightarrow> ('d, 'e) world \<Rightarrow> ('d, 'e) world \<Rightarrow> bool" where
  "kept q w w' \<longleftrightarrow> (held q w \<longrightarrow> held q w')"

interpretation iv: frame "kept q" for q
  by unfold_locales (auto simp: kept_def)

definition preserved :: "('d \<Rightarrow> bool) \<Rightarrow> ('d \<Rightarrow> sqlerr + 'a \<times> 'd) \<Rightarrow> bool" where
  "preserved q f \<longleftrightarrow> (\<forall>d x d'. q d \<longrightarrow> f d = Inr (x, d') \<longrightarrow> q d')"

lemma preserved_query [frame_intros]: "preserved q (query f)" "preserved q (query_row g)"
  by (simp_all add: preserved_def)

lemma preserved_change: "(\<And>d. q d \<Longrightarrow> q (f d)) \<Longrightarrow> preserved q (change f)"
  by (simp add: preserved_def)

lemma kept_outcome:
  assumes "preserved q f" and "w_snap w' = w_snap w" and "w_db w' = w_db w \<or> (\<exists>x. f (w_db w) = Inr (x, w_db w'))"
  shows "kept q w w'"
  using assms by (auto simp: kept_def held_def preserved_def)

lemma iv_exec_try:
  fixes f :: "'d \<Rightarrow> sqlerr + 'a \<times> 'd"
  assumes "preserved q f"
  shows "keeps (kept q) (exec_try f :: ('d, 'e, 'r, sqlerr + 'a) act)"
proof (rule keepsI)
  fix w :: "('d, 'e) world"
  obtain res :: "'r + sqlerr + 'a" and w' where run: "exec_try f w = (res, w')" by fastforce
  from run have "kept q w w'"
    by (cases rule: exec_try_cases) (use assms in \<open>auto simp: kept_def held_def preserved_def\<close>)
  with run show "kept q w (snd ((exec_try f :: ('d, 'e, 'r, sqlerr + 'a) act) w))" by simp
qed

lemma iv_exec_or: "preserved q f \<Longrightarrow> keeps (kept q) (exec_or k f)"
  unfolding exec_or_def by (intro iv.r_control iv_exec_try)

lemma iv_in_savepoint: "preserved q f \<Longrightarrow> keeps (kept q) (in_savepoint k f)"
  by (rule keeps_in_savepoint) (rule kept_outcome)

lemma iv_emit: "keeps (kept q) (emit ev)"
  by (rule keepsI) (simp add: kept_def held_def emit_def)

lemma iv_nextval: "keeps (kept q) (nextval sq)"
  by (rule keepsI) (simp add: kept_def held_def nextval_def Let_def)

lemma held_rolled_back: "held q w \<Longrightarrow> held q (rolled_back w)"
  by (cases "w_snap w") (simp_all add: held_def rolled_back_def)

lemma iv_begin: "keeps (kept q) (tx_begin k)"
  by (rule keepsI) (simp add: kept_def held_def tx_begin_def Let_def)

lemma iv_commit: "keeps (kept q) (tx_commit k)"
  by (rule keepsI) (auto simp: kept_def tx_commit_def Let_def held_def rolled_back_def split: option.splits)

lemma iv_defer: "keeps (kept q) m \<Longrightarrow> keeps (kept q) (defer_rollback m)"
  by (rule keepsI)
    (auto simp: defer_rollback_def kept_def split: prod.splits dest!: keepsD intro!: held_rolled_back)

lemma iv_in_tx: "keeps (kept q) body \<Longrightarrow> keeps (kept q) (in_tx k body)"
  unfolding in_tx_def by (intro iv.r_control iv_defer iv_begin iv_commit)

lemmas iv_steps = iv.r_control iv_exec_try iv_exec_or iv_in_savepoint iv_emit iv_nextval iv_begin
  iv_commit iv_defer iv_in_tx

lemma keptD:
  assumes "keeps (kept q) m" and "m w = (res, w')" and "w_snap w = None" and "q (w_db w)"
  shows "q (w_db w')"
proof -
  from assms(1,2) have "kept q w w'" by (rule keepsD)
  with assms(3,4) show ?thesis by (auto simp: kept_def held_def)
qed

lemma kept_finish:
  assumes "keeps (kept q) m" and "finish m w = (r, w')" and "w_snap w = None" and "q (w_db w)"
  shows "q (w_db w')"
  using assms(2) by (cases rule: finish_cases) (use assms(1,3,4) keptD in blast)+

text \<open>
  Sixth instance: a step that starts and ends outside a transaction and keeps an invariant of the
  database in between; inside its transactions the invariant may be broken and mended.
\<close>

definition kept_alone :: "('d \<Rightarrow> bool) \<Rightarrow> ('d, 'e) world \<Rightarrow> ('d, 'e) world \<Rightarrow> bool" where
  "kept_alone q w w' \<longleftrightarrow> (w_snap w = None \<and> q (w_db w) \<longrightarrow> w_snap w' = None \<and> q (w_db w'))"

interpretation ka: frame "kept_alone q" for q
  by unfold_locales (auto simp: kept_alone_def)

lemma ka_quiet: "keeps same_db m \<Longrightarrow> keeps (kept_alone q) m"
  unfolding keeps_def same_db_def kept_alone_def by simp

lemma kept_alone_tx:
  fixes body :: "('d, 'e, 'r, 'a) act"
  assumes "keeps same_tx body"
    and "\<And>w x w'. body w = (Inr x, w') \<Longrightarrow> q (w_db w) \<Longrightarrow> q (w_db w')"
  shows "keeps (kept_alone q) (in_tx k body)"
proof (rule keepsI)
  fix w :: "('d, 'e) world"
  obtain res w' where run: "in_tx k body w = (res, w')" by fastforce
  have "w_snap w' = None \<and> q (w_db w')" if idle: "w_snap w = None" and q: "q (w_db w)"
    using run idle assms(1)
  proof (cases rule: in_tx_cases)
    case (committed x w1 w2)
    with assms(2) [OF committed(2)] q show ?thesis by simp
  qed (use q in simp)
  with run show "kept_alone q w (snd (in_tx k body w))" by (auto simp: kept_alone_def)
qed

lemma kept_alone_finish:
  assumes "keeps (kept_alone q) m" and "finish m w = (r, w')" and "w_snap w = None" and "q (w_db w)"
  shows "q (w_db w')"
  using assms(2)
proof (cases rule: finish_cases)
  case ended
  from keepsD [OF assms(1) ended] assms(3,4) show ?thesis by (simp add: kept_alone_def)
next
  case stopped
  from keepsD [OF assms(1) stopped] assms(3,4) show ?thesis by (simp add: kept_alone_def)
qed

section \<open>Early returns\<close>

text \<open>\<open>stops_with P m\<close>: every early return of \<open>m\<close> satisfies \<open>P\<close>.\<close>

definition stops_with :: "('r \<Rightarrow> bool) \<Rightarrow> ('d, 'e, 'r, 'a) act \<Rightarrow> bool" where
  "stops_with P m \<longleftrightarrow> (\<forall>w r w'. m w = (Inl r, w') \<longrightarrow> P r)"

lemma stops_withD: "stops_with P m \<Longrightarrow> m w = (Inl r, w') \<Longrightarrow> P r"
  unfolding stops_with_def by blast

lemma bind_stopped:
  assumes "bind m f w = (Inl r, w')"
  obtains (first) "m w = (Inl r, w')" | (second) x w1 where "m w = (Inr x, w1)" "f x w1 = (Inl r, w')"
  using assms by (auto simp: bind_def split: prod.splits sum.splits)

lemma sw_ret: "stops_with P (ret x)"
  by (simp add: stops_with_def ret_def)

lemma sw_stop: "P r \<Longrightarrow> stops_with P (stop r)"
  by (simp add: stops_with_def stop_def)

lemma sw_guard: "P r \<Longrightarrow> stops_with P (guard ok r)"
  by (simp add: guard_def sw_ret sw_stop)

lemma sw_read_json: "P (Err 400 ''bad_json'') \<Longrightarrow> stops_with P (read_json body)"
  by (cases body) (simp_all add: read_json_def sw_ret sw_stop)

lemma sw_bind: "stops_with P m \<Longrightarrow> (\<And>x. stops_with P (f x)) \<Longrightarrow> stops_with P (bind m f)"
  unfolding stops_with_def bind_def by (auto split: prod.splits sum.splits)

lemma sw_andthen: "stops_with P m \<Longrightarrow> stops_with P n \<Longrightarrow> stops_with P (andthen m n)"
  by (simp add: andthen_def sw_bind)

lemma sw_for_each: "(\<And>x. stops_with P (f x)) \<Longrightarrow> stops_with P (for_each f xs)"
  by (induction xs) (simp_all add: sw_ret sw_andthen)

lemma sw_if: "stops_with P m \<Longrightarrow> stops_with P n \<Longrightarrow> stops_with P (if b then m else n)"
  by simp

lemma sw_option: "stops_with P m \<Longrightarrow> (\<And>x. stops_with P (f x)) \<Longrightarrow> stops_with P (case opt of None \<Rightarrow> m | Some x \<Rightarrow> f x)"
  by (cases opt) simp_all

lemma sw_sum: "(\<And>x. stops_with P (g x)) \<Longrightarrow> (\<And>x. stops_with P (f x)) \<Longrightarrow> stops_with P (case s of Inl x \<Rightarrow> g x | Inr x \<Rightarrow> f x)"
  by (cases s) simp_all

lemma sw_let: "(\<And>x. stops_with P (f x)) \<Longrightarrow> stops_with P (let x = a in f x)"
  by simp

lemma sw_prod: "(\<And>x y. stops_with P (f x y)) \<Longrightarrow> stops_with P (case p of (x, y) \<Rightarrow> f x y)"
  by (cases p) simp

lemma sw_exec_try: "stops_with P (exec_try f)"
  by (auto simp: stops_with_def exec_try_def Let_def split: sum.splits prod.splits if_splits)

lemma sw_exec_or: "(\<And>e. P (k e)) \<Longrightarrow> stops_with P (exec_or k f)"
  unfolding exec_or_def by (intro sw_bind sw_exec_try sw_sum sw_stop sw_ret)

lemma sw_in_savepoint: "P k \<Longrightarrow> stops_with P (in_savepoint k f)"
  unfolding in_savepoint_def
  by (intro sw_andthen sw_bind sw_exec_try sw_sum sw_ret)
    (auto simp: stops_with_def savepoint_def rollback_to_def release_def Let_def split: if_splits)

lemma sw_emit: "stops_with P (emit ev)"
  by (simp add: stops_with_def emit_def)

lemma sw_recall: "stops_with P (recall f)"
  by (simp add: stops_with_def recall_def)

lemma sw_nextval: "stops_with P (nextval sq)"
  by (simp add: stops_with_def nextval_def Let_def)

lemma sw_begin: "P k \<Longrightarrow> stops_with P (tx_begin k)"
  by (simp add: stops_with_def tx_begin_def Let_def)

lemma sw_commit: "P k \<Longrightarrow> stops_with P (tx_commit k)"
  by (simp add: stops_with_def tx_commit_def Let_def)

lemma sw_defer: "stops_with P m \<Longrightarrow> stops_with P (defer_rollback m)"
  by (auto simp: stops_with_def defer_rollback_def split: prod.splits)

lemma sw_in_tx: "P k \<Longrightarrow> stops_with P body \<Longrightarrow> stops_with P (in_tx k body)"
  unfolding in_tx_def by (intro sw_defer sw_andthen sw_bind sw_begin sw_commit sw_ret)

lemmas sw_steps = sw_ret sw_stop sw_guard sw_read_json sw_bind sw_andthen sw_for_each sw_if
  sw_option sw_sum sw_let sw_prod sw_exec_try sw_exec_or sw_emit sw_recall sw_nextval sw_in_savepoint sw_in_tx

text \<open>The refusals of a handler are the answers of status 400 and above.\<close>

definition refusal :: "'b response \<Rightarrow> bool" where
  "refusal r \<longleftrightarrow> 400 \<le> status_of r"

lemma refusal_simps [simp]:
  "refusal Internal" "refusal (Err n code) \<longleftrightarrow> 400 \<le> n" "refusal (Json n b) \<longleftrightarrow> 400 \<le> n"
  "refusal (Status n) \<longleftrightarrow> 400 \<le> n"
  by (simp_all add: refusal_def)

lemma refusal_write_err [simp]:
  "refusal (write_err ErrUnauthorized)" "refusal (write_err ErrForbidden)"
  "refusal (write_err ErrNotFound)" "refusal (write_err ErrConflict)"
  "refusal (write_err ErrBadRequest)" "refusal (write_err PlainError)"
  by (simp_all add: err_defs)

lemma refusal_no_rows [simp]: "refusal a \<Longrightarrow> refusal b \<Longrightarrow> refusal (no_rows_or a b e)"
  by (simp add: no_rows_or_def)

text \<open>An answer that is no refusal is reached at the handler's end.\<close>

lemma finish_accepted:
  assumes "finish m w = (r, w')" and "stops_with refusal m" and "\<not> refusal r"
  shows "m w = (Inr r, w')"
  using assms by (auto simp: finish_def stops_with_def split: prod.splits sum.splits)

section \<open>All or nothing\<close>

text \<open>\<open>atomic m\<close>: where \<open>m\<close> returns early, outside a transaction, the database is as it was.\<close>

definition atomic :: "('d, 'e, 'r, 'a) act \<Rightarrow> bool" where
  "atomic m \<longleftrightarrow> (\<forall>w r w'. w_snap w = None \<longrightarrow> m w = (Inl r, w') \<longrightarrow> w_db w' = w_db w \<and> w_snap w' = None)"

lemma atomicD: "atomic m \<Longrightarrow> w_snap w = None \<Longrightarrow> m w = (Inl r, w') \<Longrightarrow> w_db w' = w_db w \<and> w_snap w' = None"
  unfolding atomic_def by blast

lemma at_reads:
  assumes "keeps same_db m"
  shows "atomic m"
  unfolding atomic_def
proof (intro allI impI)
  fix w r w'
  assume idle: "w_snap w = None" and run: "m w = (Inl r, w')"
  from keepsD [OF assms run] idle show "w_db w' = w_db w \<and> w_snap w' = None"
    by (simp add: same_db_def)
qed

lemma at_in_tx: "keeps same_tx body \<Longrightarrow> atomic (in_tx k body)"
  unfolding atomic_def by (blast dest: in_tx_failed)

lemma at_bind:
  assumes "keeps same_db m" and "\<And>x. atomic (f x)"
  shows "atomic (bind m f)"
  unfolding atomic_def
proof (intro allI impI)
  fix w r w'
  assume idle: "w_snap w = None" and run: "bind m f w = (Inl r, w')"
  from run show "w_db w' = w_db w \<and> w_snap w' = None"
  proof (cases rule: bind_stopped)
    case first
    from atomicD [OF at_reads [OF assms(1)] idle first] show ?thesis .
  next
    case (second x w1)
    from keepsD [OF assms(1) second(1)] have "w_db w1 = w_db w" "w_snap w1 = w_snap w"
      by (simp_all add: same_db_def)
    with atomicD [OF assms(2) _ second(2)] idle show ?thesis by simp
  qed
qed

lemma at_last:
  assumes "atomic m" and "\<And>x. stops_with (\<lambda>_. False) (f x)"
  shows "atomic (bind m f)"
  unfolding atomic_def
proof (intro allI impI)
  fix w r w'
  assume idle: "w_snap w = None" and run: "bind m f w = (Inl r, w')"
  from run show "w_db w' = w_db w \<and> w_snap w' = None"
    by (cases rule: bind_stopped) (use assms idle in \<open>auto dest: atomicD stops_withD\<close>)
qed

lemma at_andthen: "keeps same_db m \<Longrightarrow> atomic n \<Longrightarrow> atomic (andthen m n)"
  by (simp add: andthen_def at_bind)

lemma at_if: "atomic m \<Longrightarrow> atomic n \<Longrightarrow> atomic (if b then m else n)"
  by simp

lemma at_option: "atomic m \<Longrightarrow> (\<And>x. atomic (f x)) \<Longrightarrow> atomic (case opt of None \<Rightarrow> m | Some x \<Rightarrow> f x)"
  by (cases opt) simp_all

lemma at_let: "(\<And>x. atomic (f x)) \<Longrightarrow> atomic (let x = a in f x)"
  by simp

lemma at_ret: "atomic (ret x)"
  by (simp add: atomic_def ret_def)

lemma at_stop: "atomic (stop r)"
  by (simp add: atomic_def stop_def)

section \<open>Runs without faults\<close>

text \<open>The same steps read forwards, for the theorems that say a run gets to its end.\<close>

definition healthy :: "('d, 'e) world \<Rightarrow> bool" where
  "healthy w \<longleftrightarrow> w_faults w = [] \<and> \<not> w_aborted w"

lemma healthy_simps [simp]:
  "healthy (w\<lparr>w_db := d\<rparr>) = healthy w" "healthy (w\<lparr>w_seq := sq\<rparr>) = healthy w"
  "healthy (w\<lparr>w_log := l\<rparr>) = healthy w" "healthy (w\<lparr>w_snap := sn\<rparr>) = healthy w"
  "healthy (w\<lparr>w_save := sv\<rparr>) = healthy w"
  by (simp_all add: healthy_def)

lemma exec_or_ok:
  assumes "healthy w" and "f (w_db w) = Inr (x, d)"
  shows "exec_or k f w = (Inr x, w\<lparr>w_db := d\<rparr>)"
  using assms by (simp add: exec_or_def exec_try_def Let_def bind_def ret_def healthy_def)

lemma exec_query_row_ok:
  assumes "healthy w" and "f (w_db w) = Some x"
  shows "exec_or k (query_row f) w = (Inr x, w)"
  using exec_or_ok [OF assms(1), of "query_row f" x "w_db w"] assms(2) by simp

lemma exec_query_ok: "healthy w \<Longrightarrow> exec_or k (query f) w = (Inr (f (w_db w)), w)"
  using exec_or_ok [of w "query f" "f (w_db w)" "w_db w"] by simp

lemma exec_change_ok: "healthy w \<Longrightarrow> exec_or k (change f) w = (Inr (), w\<lparr>w_db := f (w_db w)\<rparr>)"
  using exec_or_ok [of w "change f" "()" "f (w_db w)"] by simp

lemma bind_ok: "m w = (Inr x, w1) \<Longrightarrow> bind m f w = f x w1"
  by (simp add: bind_def)

lemma andthen_ok: "m w = (Inr x, w1) \<Longrightarrow> andthen m n w = n w1"
  by (simp add: andthen_def bind_def)

lemma in_tx_ok:
  assumes "healthy w" and "w_snap w = None"
    and "body (w\<lparr>w_snap := Some (w_db w), w_save := None\<rparr>) = (Inr x, w2)" and "healthy w2"
  shows "in_tx k body w = (Inr x, w2\<lparr>w_snap := None, w_save := None\<rparr>)"
proof -
  have e1: "w\<lparr>w_faults := [], w_snap := Some (w_db w), w_save := None, w_aborted := False\<rparr>
      = w\<lparr>w_snap := Some (w_db w), w_save := None\<rparr>"
    using assms(1) by (cases w) (simp add: healthy_def)
  have e2: "w2\<lparr>w_faults := [], w_snap := None, w_save := None\<rparr> = w2\<lparr>w_snap := None, w_save := None\<rparr>"
    using assms(4) by (cases w2) (simp add: healthy_def)
  show ?thesis
    using assms by (simp add: e1 e2 in_tx_def defer_rollback_def andthen_def bind_def tx_begin_def tx_commit_def
        Let_def healthy_def [of w] healthy_def [of w2] rolled_back_def ret_def)
qed

lemma in_tx_stopped:
  assumes "healthy w" and "w_snap w = None"
    and "body (w\<lparr>w_snap := Some (w_db w), w_save := None\<rparr>) = (Inl r, w2)" and "w_snap w2 = Some d"
  shows "in_tx k body w = (Inl r, w2\<lparr>w_db := d, w_snap := None, w_save := None, w_aborted := False\<rparr>)"
proof -
  have e1: "w\<lparr>w_faults := [], w_snap := Some (w_db w), w_save := None, w_aborted := False\<rparr>
      = w\<lparr>w_snap := Some (w_db w), w_save := None\<rparr>"
    using assms(1) by (cases w) (simp add: healthy_def)
  show ?thesis
    using assms by (simp add: e1 in_tx_def defer_rollback_def andthen_def bind_def tx_begin_def Let_def healthy_def [of w] rolled_back_def)
qed

end
