(* ===== verification/Rls.thy ===== *)
theory Rls
  imports Handler
begin

text \<open>
  Row-level security (\<open>db/migrations/0001_init.up.sql\<close>, the \<open>tenant_isolation\<close> policies)
  and the tenant-aware connections of \<open>packages/go-common/db/db.go\<close>. A connection either
  carries the tenant of the caller's claims in \<open>app.tenant_id\<close> or belongs to a role that
  bypasses the policies. \<open>app_tenant()\<close> turns an empty setting into NULL, so a session
  with an empty tenant sees nothing. A table is the list of its rows in insertion order; the
  key a table is unique over and the column that holds the tenant are arguments.
\<close>

datatype session = TenantSession string | BypassRls

fun sees :: "session \<Rightarrow> string \<Rightarrow> bool" where
  "sees BypassRls ten = True"
| "sees (TenantSession t) ten = (t \<noteq> [] \<and> ten = t)"

definition rows_seen :: "('r \<Rightarrow> string) \<Rightarrow> session \<Rightarrow> 'r list \<Rightarrow> 'r list" where
  "rows_seen ten s rows = filter (\<lambda>r. sees s (ten r)) rows"

definition row_seen :: "('r \<Rightarrow> string) \<Rightarrow> session \<Rightarrow> ('r \<Rightarrow> bool) \<Rightarrow> 'r list \<Rightarrow> 'r option" where
  "row_seen ten s P rows = find (\<lambda>r. sees s (ten r) \<and> P r) rows"

definition update_rows :: "('r \<Rightarrow> string) \<Rightarrow> session \<Rightarrow> ('r \<Rightarrow> bool) \<Rightarrow> ('r \<Rightarrow> 'r) \<Rightarrow> 'r list \<Rightarrow> 'r list" where
  "update_rows ten s P f rows = map (\<lambda>r. if sees s (ten r) \<and> P r then f r else r) rows"

text \<open>
  \<open>clash old new\<close>: the two rows agree on a unique key. Uniqueness is checked against the
  whole table, whatever the session sees.
\<close>

definition insert_row :: "('r \<Rightarrow> string) \<Rightarrow> session \<Rightarrow> ('r \<Rightarrow> 'r \<Rightarrow> bool) \<Rightarrow> 'r \<Rightarrow> 'r list \<Rightarrow> sqlerr + 'r list" where
  "insert_row ten s clash r rows =
     (if \<not> sees s (ten r) then Inl RlsViolation
      else if list_ex (\<lambda>old. clash old r) rows then Inl UniqueViolation
      else Inr (rows @ [r]))"

section \<open>What the operations do to the rows\<close>

lemma row_seen_SomeD: "row_seen ten s P rows = Some r \<Longrightarrow> r \<in> set rows \<and> sees s (ten r) \<and> P r"
  by (auto simp: row_seen_def dest: find_Some_in)

lemma row_seen_appended:
  assumes "\<And>old. old \<in> set rows \<Longrightarrow> \<not> P old" and "sees s (ten r)" and "P r"
  shows "row_seen ten s P (rows @ [r]) = Some r"
  using assms unfolding row_seen_def by (induction rows) auto

lemma row_seen_None_iff: "row_seen ten s P rows = None \<longleftrightarrow> (\<forall>r\<in>set rows. sees s (ten r) \<longrightarrow> \<not> P r)"
  by (auto simp: row_seen_def find_None_iff)

lemma set_rows_seen [table_simps]: "r \<in> set (rows_seen ten s rows) \<longleftrightarrow> r \<in> set rows \<and> sees s (ten r)"
  by (simp add: rows_seen_def)

lemma insert_row_Inr [table_simps]:
  "insert_row ten s clash r rows = Inr rows' \<longleftrightarrow>
     sees s (ten r) \<and> (\<forall>old\<in>set rows. \<not> clash old r) \<and> rows' = rows @ [r]"
  by (auto simp: insert_row_def list_ex_iff)

lemma set_update_rows:
  "set (update_rows ten s P f rows) = (\<lambda>r. if sees s (ten r) \<and> P r then f r else r) ` set rows"
  by (simp add: update_rows_def)

lemma update_rowsE:
  assumes "r \<in> set (update_rows ten s P f rows)"
  obtains (updated) r0 where "r0 \<in> set rows" "sees s (ten r0)" "P r0" "r = f r0"
  | (kept) "r \<in> set rows" "\<not> (sees s (ten r) \<and> P r)"
  using assms by (auto simp: set_update_rows split: if_splits)

lemma length_update_rows [simp]: "length (update_rows ten s P f rows) = length rows"
  by (simp add: update_rows_def)

lemma update_rows_nothing:
  "(\<And>r. r \<in> set rows \<Longrightarrow> sees s (ten r) \<Longrightarrow> \<not> P r) \<Longrightarrow> update_rows ten s P f rows = rows"
  unfolding update_rows_def by (rule map_idI) auto

lemma map_update_rows:
  assumes "\<And>r. k (f r) = k r"
  shows "map k (update_rows ten s P f rows) = map k rows"
  using assms by (simp add: update_rows_def)

lemma row_seen_own:
  assumes "distinct (map k rows)" and "r \<in> set rows" and "sees s (ten r)"
  shows "row_seen ten s (\<lambda>x. k x = k r) rows = Some r"
  using assms unfolding row_seen_def by (induction rows) (auto simp: image_iff)

lemma row_seen_update_other:
  assumes "\<And>r. P r \<Longrightarrow> \<not> Q r" and "\<And>r. P r \<Longrightarrow> \<not> Q (f r)"
  shows "row_seen ten s Q (update_rows ten s P f rows) = row_seen ten s Q rows"
  unfolding row_seen_def update_rows_def by (induction rows) (auto simp: assms)

section \<open>Unique keys\<close>

text \<open>No two rows clash: what a unique index promises. Inserts and key-preserving updates keep it.\<close>

definition unique_by :: "('r \<Rightarrow> 'r \<Rightarrow> bool) \<Rightarrow> 'r list \<Rightarrow> bool" where
  "unique_by clash rows \<longleftrightarrow> sorted_wrt (\<lambda>x y. \<not> clash x y) rows"

lemma unique_by_Nil [simp]: "unique_by clash []"
  by (simp add: unique_by_def)

lemma unique_by_insert:
  assumes "unique_by clash rows" and "insert_row ten s clash r rows = Inr rows'"
  shows "unique_by clash rows'"
  using assms by (auto simp: unique_by_def insert_row_Inr sorted_wrt_append)

lemma unique_by_map:
  assumes "\<And>x y. clash (f x) (f y) = clash x y"
  shows "unique_by clash (map f rows) = unique_by clash rows"
  using assms by (simp add: unique_by_def sorted_wrt_map)

lemma unique_by_update:
  assumes "\<And>x y. clash (f x) y = clash x y" and "\<And>x y. clash x (f y) = clash x y"
  shows "unique_by clash (update_rows ten s P f rows) = unique_by clash rows"
  unfolding update_rows_def using assms by (intro unique_by_map) simp

lemma unique_byD:
  assumes "unique_by clash rows" and "x \<in> set rows" and "y \<in> set rows"
  shows "x = y \<or> \<not> clash x y \<or> \<not> clash y x"
  using assms unfolding unique_by_def by (induction rows) auto

section \<open>Tenants do not touch each other\<close>

text \<open>
  The rows of the other tenants, as the owner of a table would see them. No statement of a
  session of tenant \<open>t\<close> changes this list: the contract of the policies, stated once for any
  table whose writes keep the tenant column.
\<close>

definition others :: "('r \<Rightarrow> string) \<Rightarrow> string \<Rightarrow> 'r list \<Rightarrow> 'r list" where
  "others ten t rows = filter (\<lambda>r. ten r \<noteq> t) rows"

lemma others_append [simp]: "others ten t (xs @ ys) = others ten t xs @ others ten t ys"
  by (simp add: others_def)

lemma others_insert:
  assumes "insert_row ten (TenantSession t) clash r rows = Inr rows'"
  shows "others ten t rows' = others ten t rows"
  using assms by (auto simp: insert_row_Inr others_def)

lemma others_update:
  assumes "\<And>r. ten (f r) = ten r"
  shows "others ten t (update_rows ten (TenantSession t) P f rows) = others ten t rows"
  unfolding others_def update_rows_def
  by (rule filter_map_if_disjoint) (auto simp: assms)

lemmas others_simps = others_insert others_update

end
