(* ===== verification/Auth.thy ===== *)
theory Auth
  imports Rls
begin

text \<open>
  Request authentication (\<open>packages/go-common/auth/jwt.go\<close>, \<open>middleware.go\<close>) and the
  tenant-aware connection a handler takes from its claims (\<open>packages/go-common/db/db.go\<close>).

  The JWT library is a parameter: \<open>jwt_sign alg key claims\<close> and \<open>jwt_parse keyfunc tok\<close>,
  the latter at the instant of the request (the library checks the expiry itself). The
  subject of a token is the text of a UUID, \<open>None\<close> when it does not parse as one.
\<close>

section \<open>Claims\<close>

record claims =
  c_tenant :: string
  c_role :: string
  c_permissions :: "string list"
  c_device :: string
  c_subject :: "uuid option"
  c_issued_at :: time
  c_expires_at :: time
  c_jti :: "uuid option"

record issuer =
  Secret :: string
  AccessTTL :: time
  RefreshTTL :: time

type_synonym jwt_signer = "string \<Rightarrow> string \<Rightarrow> claims \<Rightarrow> string option"
type_synonym jwt_parser = "(string \<Rightarrow> string option) \<Rightarrow> string \<Rightarrow> claims option"

text \<open>\<open>jwt.NewNumericDate\<close> truncates to whole seconds.\<close>

definition numeric_date :: "time \<Rightarrow> time" where
  "numeric_date t = t div 1000000 * 1000000"

definition stamp_claims :: "issuer \<Rightarrow> time \<Rightarrow> uuid \<Rightarrow> uuid \<Rightarrow> claims \<Rightarrow> claims" where
  "stamp_claims i now jti user c =
     c\<lparr>c_subject := Some user, c_issued_at := numeric_date now,
       c_expires_at := numeric_date (now + AccessTTL i), c_jti := Some jti\<rparr>"

definition Sign :: "jwt_signer \<Rightarrow> issuer \<Rightarrow> time \<Rightarrow> uuid \<Rightarrow> uuid \<Rightarrow> claims \<Rightarrow> string option" where
  "Sign jwt_sign i now jti user c = jwt_sign ''HS256'' (Secret i) (stamp_claims i now jti user c)"

definition Parse :: "jwt_parser \<Rightarrow> issuer \<Rightarrow> string \<Rightarrow> claims option" where
  "Parse jwt_parse i tok = jwt_parse (\<lambda>alg. if alg \<noteq> ''HS256'' then None else Some (Secret i)) tok"

section \<open>Middleware\<close>

record headers =
  h_authorization :: string
  h_tenant :: string

definition BearerToken :: "headers \<Rightarrow> string" where
  "BearerToken h =
     (if take 7 (h_authorization h) \<noteq> ''Bearer '' then [] else drop 7 (h_authorization h))"

text \<open>The middleware runs the handler behind it with the claims it found, or answers itself.\<close>

definition Middleware ::
    "jwt_parser \<Rightarrow> issuer \<Rightarrow> headers \<Rightarrow> (claims \<Rightarrow> ('d, 'e, 'b response, 'b response) act)
       \<Rightarrow> ('d, 'e, 'b response, 'b response) act" where
  "Middleware jwt_parse i h nxt =
     (let tok = BearerToken h in
      if tok = [] then stop (write_err ErrUnauthorized)
      else case Parse jwt_parse i tok of
             None \<Rightarrow> stop (write_err ErrUnauthorized)
           | Some c \<Rightarrow>
               if h_tenant h \<noteq> [] \<and> h_tenant h \<noteq> c_tenant c then stop (write_err ErrForbidden)
               else nxt c)"

definition RequirePermission ::
    "string \<Rightarrow> claims option \<Rightarrow> ('d, 'e, 'b response, 'b response) act
       \<Rightarrow> ('d, 'e, 'b response, 'b response) act" where
  "RequirePermission perm cl nxt =
     (case cl of
        None \<Rightarrow> stop (write_err ErrUnauthorized)
      | Some c \<Rightarrow> if perm \<notin> set (c_permissions c) then stop (write_err ErrForbidden) else nxt)"

definition RequireAnyRole ::
    "string list \<Rightarrow> claims option \<Rightarrow> ('d, 'e, 'b response, 'b response) act
       \<Rightarrow> ('d, 'e, 'b response, 'b response) act" where
  "RequireAnyRole roles cl nxt =
     (case cl of
        None \<Rightarrow> stop (write_err ErrUnauthorized)
      | Some c \<Rightarrow> if c_role c \<notin> set roles then stop (write_err ErrForbidden) else nxt)"

text \<open>
  The gate in front of a handler, as one predicate: the request carries a token this issuer
  accepts, its tenant header agrees with the token, and the token holds the permission.
\<close>

definition admitted :: "jwt_parser \<Rightarrow> issuer \<Rightarrow> headers \<Rightarrow> claims \<Rightarrow> bool" where
  "admitted jwt_parse i h c \<longleftrightarrow>
     BearerToken h \<noteq> [] \<and> Parse jwt_parse i (BearerToken h) = Some c
     \<and> (h_tenant h = [] \<or> h_tenant h = c_tenant c)"

lemma Middleware_cases:
  obtains (denied) r where "r \<in> {write_err ErrUnauthorized, write_err ErrForbidden}"
      "Middleware jwt_parse i h nxt = stop r" "\<And>c. \<not> admitted jwt_parse i h c"
  | (admitted) c where "admitted jwt_parse i h c" "Middleware jwt_parse i h nxt = nxt c"
proof (cases "BearerToken h = []")
  case True
  then show thesis
    by (intro denied [of "write_err ErrUnauthorized"]) (auto simp: Middleware_def admitted_def)
next
  case tok: False
  show thesis
  proof (cases "Parse jwt_parse i (BearerToken h)")
    case None
    with tok show thesis
      by (intro denied [of "write_err ErrUnauthorized"]) (auto simp: Middleware_def admitted_def)
  next
    case (Some c)
    show thesis
    proof (cases "h_tenant h \<noteq> [] \<and> h_tenant h \<noteq> c_tenant c")
      case True
      with tok Some show thesis
        by (intro denied [of "write_err ErrForbidden"]) (auto simp: Middleware_def admitted_def)
    next
      case False
      with tok Some show thesis
        by (intro admitted [of c]) (auto simp: Middleware_def admitted_def)
    qed
  qed
qed

lemma RequirePermission_cases:
  obtains (denied) r where "r \<in> {write_err ErrUnauthorized, write_err ErrForbidden}"
      "RequirePermission perm cl nxt = stop r"
  | (granted) c where "cl = Some c" "perm \<in> set (c_permissions c)" "RequirePermission perm cl nxt = nxt"
proof (cases cl)
  case None
  then show thesis by (intro denied [of "write_err ErrUnauthorized"]) (auto simp: RequirePermission_def)
next
  case (Some c)
  then show thesis
    by (cases "perm \<in> set (c_permissions c)")
      (auto simp: RequirePermission_def intro: granted denied [of "write_err ErrForbidden"])
qed

section \<open>Connections\<close>

text \<open>
  The database user a pool connects as either is subject to the policies or bypasses them
  (\<open>BYPASSRLS\<close>). \<open>WithTenant\<close> sets the tenant of the claims on the connection; that setting
  has an effect only for a user of the first kind: \<open>session_of\<close> is the session the handler's
  statements then run in.
\<close>

datatype dbrole = SubjectToRls | BypassesRls

fun session_of :: "dbrole \<Rightarrow> string \<Rightarrow> session" where
  "session_of SubjectToRls ten = TenantSession ten"
| "session_of BypassesRls ten = BypassRls"

text \<open>
  \<open>SET LOCAL row_security = off\<close> inside a transaction: for a role that bypasses the policies
  nothing changes; for any other a statement on a table with policies fails.
\<close>

fun rls_off :: "dbrole \<Rightarrow> ('d \<Rightarrow> sqlerr + 'a \<times> 'd) \<Rightarrow> 'd \<Rightarrow> sqlerr + 'a \<times> 'd" where
  "rls_off BypassesRls f = f"
| "rls_off SubjectToRls f = (\<lambda>_. Inl SqlFault)"

lemma rls_off_Inr: "rls_off role f d = Inr (x, d') \<longleftrightarrow> role = BypassesRls \<and> f d = Inr (x, d')"
  by (cases role) simp_all

lemma reads_rls_off [frame_intros]: "reads f \<Longrightarrow> reads (rls_off role f)"
  by (auto simp: reads_def rls_off_Inr)

lemma preserved_rls_off [frame_intros]: "preserved q f \<Longrightarrow> preserved q (rls_off role f)"
  by (auto simp: preserved_def rls_off_Inr)

lemma fixed_rls_off [frame_intros]: "fixed g f \<Longrightarrow> fixed g (rls_off role f)"
  by (auto simp: fixed_def rls_off_Inr)

definition WithTenant :: "claims option \<Rightarrow> ('d, 'e, 'b response, unit) act" where
  "WithTenant cl = (case cl of None \<Rightarrow> stop Internal | Some c \<Rightarrow> exec (query (\<lambda>_. ())))"

lemma WithTenantE [run_elims]:
  assumes "WithTenant cl w = (Inr u, w')"
  obtains c fs where "cl = Some c" and "\<not> w_aborted w" and "w' = w\<lparr>w_faults := fs\<rparr>"
  using assms by (auto simp: WithTenant_def split: option.splits elim!: run_elims)

lemma tx_WithTenant: "keeps same_tx (WithTenant cl)"
  unfolding WithTenant_def by (intro tx_steps)

lemma rd_WithTenant: "keeps same_db (WithTenant cl)"
  unfolding WithTenant_def by (intro rd_steps)

lemma sw_WithTenant: "P Internal \<Longrightarrow> stops_with P (WithTenant cl)"
  unfolding WithTenant_def by (intro sw_steps)

end
