(* ===== verification/Events.thy ===== *)
theory Events
  imports Auth
begin

text \<open>
  Domain events (\<open>packages/go-common/events/events.go\<close> and \<open>types.go\<close>): the envelope,
  the payloads the modelled services produce, the type strings, and how an envelope is built
  from the request. Identifiers travel as their canonical text in Go; the model keeps the
  UUID itself, and an omitted one (the empty string) is \<open>None\<close>.
\<close>

section \<open>Payloads\<close>

record fine_issued_payload =
  fip_fine_id :: uuid
  fip_plate :: string
  fip_vehicle_id :: "uuid option"
  fip_offence_code :: string
  fip_amount :: money
  fip_currency :: string
  fip_issued_by :: uuid
  fip_device_id :: string
  fip_geo_lat :: float64
  fip_geo_lng :: float64
  fip_evidence_n :: nat

record fine_paid_payload =
  fpp_fine_id :: uuid
  fpp_amount :: money
  fpp_currency :: string
  fpp_method :: string
  fpp_provider_ref :: string

record fine_escalated_payload =
  fep_fine_id :: uuid
  fep_from_stage :: int
  fep_to_stage :: int
  fep_action :: string
  fep_new_status :: string

record vehicle_transferred_payload =
  vtp_vehicle_id :: uuid
  vtp_plate :: string
  vtp_from_owner :: uuid
  vtp_to_owner :: uuid

record vehicle_flagged_payload =
  vfp_vehicle_id :: uuid
  vfp_plate :: string
  vfp_is_stolen :: bool
  vfp_is_seized :: bool
  vfp_is_wanted :: bool

record anpr_scan_payload =
  asp_scan_id :: uuid
  asp_plate :: string
  asp_confidence :: float32
  asp_source :: string
  asp_geo_lat :: float64
  asp_geo_lng :: float64
  asp_matched_vehicle_id :: "uuid option"

record anpr_alert_payload =
  aap_scan_id :: uuid
  aap_plate :: string
  aap_vehicle_id :: uuid
  aap_is_stolen :: bool
  aap_is_seized :: bool
  aap_is_wanted :: bool

text \<open>A date travels as text: what a client sent, or a time the service formatted itself.\<close>

datatype stamp = Text string | RFC3339 time

record license_suspended_payload =
  lsp_license_id :: uuid
  lsp_reason :: string
  lsp_trigger_kind :: string
  lsp_starts_at :: stamp
  lsp_ends_at :: stamp

record license_demerit_payload =
  ldp_license_id :: uuid
  ldp_delta :: int
  ldp_reason :: string
  ldp_source :: string
  ldp_source_id :: uuid
  ldp_new_total :: int

text \<open>
  \<open>Data any\<close>: one constructor per payload struct. \<open>OtherData\<close> stands for data that fits
  none of them.
\<close>

datatype payload =
    FineIssued fine_issued_payload
  | FinePaid fine_paid_payload
  | FineCancelled uuid string
  | FineDisputed uuid "uuid option" string
  | FineEscalated fine_escalated_payload
  | VehicleCreated uuid string "uuid option"
  | VehicleTransferred vehicle_transferred_payload
  | VehicleFlagged vehicle_flagged_payload
  | AnprScan anpr_scan_payload
  | AnprAlert anpr_alert_payload
  | LicenseIssued uuid string "uuid option" "string list"
  | LicenseSuspended license_suspended_payload
  | LicenseReinstated uuid uuid
  | LicenseDemerit license_demerit_payload
  | OtherData

section \<open>Type strings\<close>

definition TypeFineIssued :: string where "TypeFineIssued = ''fine.issued''"
definition TypeFinePaid :: string where "TypeFinePaid = ''fine.paid''"
definition TypeFineCancelled :: string where "TypeFineCancelled = ''fine.cancelled''"
definition TypeFineDisputed :: string where "TypeFineDisputed = ''fine.disputed''"
definition TypeFineEscalated :: string where "TypeFineEscalated = ''fine.escalated''"
definition TypeVehicleCreated :: string where "TypeVehicleCreated = ''vehicle.created''"
definition TypeVehicleFlagged :: string where "TypeVehicleFlagged = ''vehicle.flagged''"
definition TypeVehicleTransferred :: string where "TypeVehicleTransferred = ''vehicle.transferred''"
definition TypeAnprScan :: string where "TypeAnprScan = ''anpr.scan''"
definition TypeAnprMatched :: string where "TypeAnprMatched = ''anpr.matched''"
definition TypeAnprAlert :: string where "TypeAnprAlert = ''anpr.alert''"
definition TypeLicenseIssued :: string where "TypeLicenseIssued = ''license.issued''"
definition TypeLicenseSuspended :: string where "TypeLicenseSuspended = ''license.suspended''"
definition TypeLicenseReinstated :: string where "TypeLicenseReinstated = ''license.reinstated''"
definition TypeLicenseDemerit :: string where "TypeLicenseDemerit = ''license.demerit''"

section \<open>Envelopes\<close>

record envelope =
  env_id :: uuid
  env_type :: string
  env_version :: nat
  env_source :: string
  env_tenant :: string
  env_occurred_at :: time
  env_actor_id :: "uuid option"
  env_actor_role :: string
  env_trace_id :: string
  env_request_id :: string
  env_data :: payload

text \<open>
  What a request or a worker takes from its surroundings: the clock of the Go process, the
  clock of Postgres (\<open>now()\<close>, fixed for a transaction), and the UUIDs generated while it
  runs (\<open>gen_random_uuid()\<close> and \<open>uuid.NewString()\<close>), numbered in the order the model
  names them.
\<close>

record surroundings =
  go_now :: time
  db_now :: time
  new_uuid :: "nat \<Rightarrow> uuid"

definition NewEnvelope :: "surroundings \<Rightarrow> uuid \<Rightarrow> string \<Rightarrow> string \<Rightarrow> string \<Rightarrow> nat \<Rightarrow> payload \<Rightarrow> envelope" where
  "NewEnvelope sur eid source tenant ty version data =
     \<lparr>env_id = eid, env_type = ty, env_version = version, env_source = source,
      env_tenant = tenant, env_occurred_at = go_now sur, env_actor_id = None,
      env_actor_role = [], env_trace_id = [], env_request_id = [], env_data = data\<rparr>"

text \<open>
  The request context: the claims the auth middleware bound to it, if any, and the trace id
  of the observability middleware (empty when absent). \<open>actorFrom\<close> and \<open>traceFrom\<close> are the
  extractors those packages register (\<open>auth/events.go\<close>, \<open>observability/events.go\<close>).
\<close>

record reqctx =
  ctx_claims :: "claims option"
  ctx_trace :: string

definition actorFrom :: "reqctx \<Rightarrow> (uuid option \<times> string) option" where
  "actorFrom ctx = (case ctx_claims ctx of None \<Rightarrow> None | Some c \<Rightarrow> Some (c_subject c, c_role c))"

definition traceFrom :: "reqctx \<Rightarrow> string option" where
  "traceFrom ctx = (if ctx_trace ctx = [] then None else Some (ctx_trace ctx))"

definition EnvelopeFromContext ::
    "surroundings \<Rightarrow> reqctx \<Rightarrow> uuid \<Rightarrow> string \<Rightarrow> string \<Rightarrow> string \<Rightarrow> nat \<Rightarrow> payload \<Rightarrow> envelope" where
  "EnvelopeFromContext sur ctx eid source tenant ty version data =
     (let env = NewEnvelope sur eid source tenant ty version data;
          env = (case actorFrom ctx of None \<Rightarrow> env
                 | Some (sub, role) \<Rightarrow> env\<lparr>env_actor_id := sub, env_actor_role := role\<rparr>)
      in (case traceFrom ctx of None \<Rightarrow> env | Some tr \<Rightarrow> env\<lparr>env_trace_id := tr\<rparr>))"

lemma EnvelopeFromContext_fields [simp]:
  "env_type (EnvelopeFromContext sur ctx eid source tenant ty version data) = ty"
  "env_tenant (EnvelopeFromContext sur ctx eid source tenant ty version data) = tenant"
  "env_source (EnvelopeFromContext sur ctx eid source tenant ty version data) = source"
  "env_data (EnvelopeFromContext sur ctx eid source tenant ty version data) = data"
  by (auto simp: EnvelopeFromContext_def NewEnvelope_def Let_def split: option.splits)

lemma NewEnvelope_fields [simp]:
  "env_type (NewEnvelope sur eid source tenant ty version data) = ty"
  "env_tenant (NewEnvelope sur eid source tenant ty version data) = tenant"
  "env_source (NewEnvelope sur eid source tenant ty version data) = source"
  "env_data (NewEnvelope sur eid source tenant ty version data) = data"
  by (simp_all add: NewEnvelope_def)

end
