(* ===== verification/Schema.thy ===== *)
theory Schema
  imports Events
begin

text \<open>
  The tables the services share (\<open>db/migrations/*.up.sql\<close>), one record per row and one
  list per table. Nullable columns are options. Columns that no modelled statement reads or
  writes are left out. \<open>outside t\<close> is what is left of the database when the rows of tenant
  \<open>t\<close> are removed: the part no session of \<open>t\<close> may change.
\<close>

section \<open>Enumerations\<close>

datatype fine_status = Issued | Warned | Overdue | Paid | Disputed | Escalated | Seized | Court | Cancelled

datatype dispute_status = DPending | DAccepted | DRejected | DCourt

datatype payment_status = PPending | PSucceeded | PFailed | PRefunded

datatype transfer_status = TPending | TAccepted | TCancelled | TExpired

datatype job_status = JQueued | JProcessing | JDone | JFailed | JDuplicate

datatype notification_status = NPending | NSent | NFailed | NSuppressed

datatype retry_status = RQueued | RRunning | RDone | RFailed | RDeadLetter

fun fine_status_text :: "fine_status \<Rightarrow> string" where
  "fine_status_text Issued = ''issued''"
| "fine_status_text Warned = ''warned''"
| "fine_status_text Overdue = ''overdue''"
| "fine_status_text Paid = ''paid''"
| "fine_status_text Disputed = ''disputed''"
| "fine_status_text Escalated = ''escalated''"
| "fine_status_text Seized = ''seized''"
| "fine_status_text Court = ''court''"
| "fine_status_text Cancelled = ''cancelled''"

section \<open>Rows\<close>

record user_row =
  u_id :: uuid
  u_tenant :: string
  u_email :: string
  u_phone :: "string option"
  u_password_hash :: string
  u_full_name :: string
  u_is_active :: bool

record offence_row =
  ro_tenant :: string
  ro_code :: string
  ro_base_amount :: money
  ro_currency :: string
  ro_dup_window_min :: int
  ro_is_active :: bool

record escalation_row =
  re_tenant :: string
  re_stage :: int
  re_after_days :: int
  re_action :: string

record owner_row =
  o_id :: uuid
  o_tenant :: string
  o_user_id :: "uuid option"
  o_full_name :: string
  o_national_id :: "string option"
  o_email :: "string option"
  o_phone :: "string option"
  o_created_at :: time

record vehicle_row =
  v_id :: uuid
  v_tenant :: string
  v_plate :: string
  v_vin :: "string option"
  v_make :: "string option"
  v_model :: "string option"
  v_year :: "int option"
  v_color :: "string option"
  v_category :: "string option"
  v_emission_class :: "string option"
  v_owner_id :: "uuid option"
  v_registration_expires_at :: "time option"
  v_insurance_expires_at :: "time option"
  v_inspection_expires_at :: "time option"
  v_tax_paid_through :: "time option"
  v_is_stolen :: bool
  v_is_seized :: bool
  v_is_wanted :: bool
  v_updated_at :: time

record license_row =
  l_id :: uuid
  l_tenant :: string
  l_user_id :: "uuid option"
  l_number :: string
  l_full_name :: string
  l_classes :: "string list"
  l_date_of_birth :: "date option"
  l_issued_at :: "date option"
  l_expires_at :: "date option"
  l_points :: int
  l_is_suspended :: bool
  l_suspended_until :: "date option"

record fine_row =
  f_id :: uuid
  f_tenant :: string
  f_vehicle_id :: "uuid option"
  f_plate :: string
  f_driver_user_id :: "uuid option"
  f_driver_license_id :: "uuid option"
  f_offence_code :: string
  f_amount :: money
  f_currency :: string
  f_status :: fine_status
  f_issued_by :: uuid
  f_issued_at :: time
  f_device_id :: string
  f_geo_lat :: float64
  f_geo_lng :: float64
  f_geo_accuracy :: float32
  f_due_at :: time
  f_paid_at :: "time option"
  f_stage :: int
  f_notes :: "string option"

record evidence_row =
  fe_id :: uuid
  fe_tenant :: string
  fe_fine_id :: uuid
  fe_kind :: string
  fe_s3_key :: string
  fe_sha256 :: string
  fe_bytes :: int
  fe_taken_at :: time
  fe_sealed_at :: "time option"

record custody_row =
  cu_id :: int
  cu_tenant :: string
  cu_fine_id :: uuid
  cu_evidence_id :: uuid
  cu_action :: string
  cu_actor_user :: "uuid option"
  cu_actor_role :: "string option"
  cu_actor_device :: "string option"
  cu_details :: "(string \<times> string) list"
  cu_occurred_at :: time

record dispute_row =
  d_id :: uuid
  d_tenant :: string
  d_fine_id :: uuid
  d_filed_by :: uuid
  d_reason :: string
  d_status :: dispute_status
  d_resolution :: "string option"
  d_filed_at :: time
  d_resolved_at :: "time option"

record payment_row =
  fp_id :: uuid
  fp_tenant :: string
  fp_fine_id :: uuid
  fp_amount :: money
  fp_currency :: string
  fp_method :: string
  fp_provider_ref :: string
  fp_status :: payment_status
  fp_paid_at :: "time option"

record retention_row =
  rp_tenant :: string
  rp_default_days :: int
  rp_paid_fine_days :: int
  rp_cancelled_fine_days :: int
  rp_court_case_days :: "int option"
  rp_legal_hold_active :: bool

record transfer_row =
  vt_id :: uuid
  vt_tenant :: string
  vt_vehicle_id :: uuid
  vt_from_owner :: uuid
  vt_to_owner :: "uuid option"
  vt_to_contact :: string
  vt_code :: string
  vt_status :: transfer_status
  vt_created_at :: time
  vt_expires_at :: time
  vt_accepted_at :: "time option"

record suspension_row =
  ds_id :: uuid
  ds_tenant :: string
  ds_license_id :: uuid
  ds_reason :: string
  ds_trigger_kind :: string
  ds_starts_at :: time
  ds_ends_at :: "time option"
  ds_lifted_at :: "time option"
  ds_created_by :: "uuid option"

record demerit_row =
  de_id :: int
  de_tenant :: string
  de_license_id :: uuid
  de_delta :: int
  de_reason :: string
  de_source :: string
  de_source_id :: "uuid option"
  de_occurred_at :: time

record demerit_policy_row =
  dp_tenant :: string
  dp_threshold_points :: int
  dp_window_months :: int
  dp_suspension_months :: int

record endorsement_row =
  en_id :: uuid
  en_tenant :: string
  en_license_id :: uuid
  en_code :: string
  en_description :: string
  en_issued_at :: date
  en_expires_at :: "date option"

record violation_row =
  dv_id :: uuid
  dv_tenant :: string
  dv_license_id :: uuid
  dv_fine_id :: "uuid option"
  dv_offence_code :: string
  dv_points :: int
  dv_occurred_at :: time
  dv_recorded_at :: time

record biometric_row =
  db_license_id :: uuid
  db_tenant :: string
  db_template_kid :: string
  db_template_hash :: string
  db_algo :: string
  db_enrolled_at :: time

record refresh_row =
  rt_id :: uuid
  rt_tenant :: string
  rt_user_id :: uuid
  rt_token_hash :: string
  rt_expires_at :: time
  rt_revoked_at :: "time option"

text \<open>
  \<open>audit_events\<close>: the UUID, the address and the JSON columns are kept as the text they read back as.
\<close>

record audit_row =
  au_id :: int
  au_tenant :: string
  au_occurred_at :: time
  au_actor_user :: "string option"
  au_actor_role :: "string option"
  au_actor_device :: "string option"
  au_actor_ip :: "string option"
  au_service :: string
  au_action :: string
  au_resource_type :: string
  au_resource_id :: "string option"
  au_before :: "string option"
  au_after :: "string option"
  au_prev_hash :: "string option"
  au_hash :: string

record anpr_job_row =
  aj_id :: uuid
  aj_tenant :: string
  aj_scan_id :: "uuid option"
  aj_source :: string
  aj_source_id :: "string option"
  aj_raw_plate :: string
  aj_normalized_plate :: "string option"
  aj_confidence :: float32
  aj_geo_lat :: "float64 option"
  aj_geo_lng :: "float64 option"
  aj_image_s3_key :: "string option"
  aj_captured_at :: time
  aj_status :: job_status
  aj_attempts :: int
  aj_failed_with :: "goerr option"
  aj_enqueued_at :: time
  aj_processed_at :: "time option"

record anpr_scan_row =
  as_id :: uuid
  as_tenant :: string
  as_plate_read :: string
  as_confidence :: float32
  as_source :: string
  as_source_id :: "string option"
  as_captured_at :: time
  as_geo_lat :: "float64 option"
  as_geo_lng :: "float64 option"
  as_image_s3_key :: "string option"
  as_matched_vehicle_id :: "uuid option"

text \<open>
  The payload of a retry job is the JSON of a vehicle and its plate; \<open>None\<close> is one the workers
  cannot decode.
\<close>

record retry_row =
  rj_id :: uuid
  rj_tenant :: string
  rj_module :: string
  rj_kind :: string
  rj_payload :: "(uuid \<times> string) option"
  rj_status :: retry_status
  rj_attempts :: int
  rj_max_attempts :: int
  rj_next_run_at :: time
  rj_failed_with :: "goerr option"
  rj_updated_at :: time

record health_row =
  ph_tenant :: string
  ph_module :: string
  ph_provider :: string
  ph_region :: "string option"
  ph_last_ok_at :: "time option"
  ph_last_fail_at :: "time option"
  ph_fail_streak :: int
  ph_state :: string
  ph_updated_at :: time

record insurance_row =
  ir_id :: uuid
  ir_tenant :: string
  ir_vehicle_id :: uuid
  ir_provider :: string
  ir_policy_number :: string
  ir_starts_at :: time
  ir_expires_at :: time
  ir_is_active :: bool

record inspection_row =
  xr_id :: uuid
  xr_tenant :: string
  xr_vehicle_id :: uuid
  xr_station :: string
  xr_performed_at :: time
  xr_expires_at :: time
  xr_result :: string
  xr_certificate_url :: "string option"

text \<open>
  \<open>audit_alerts\<close>: the details of an alert are the scan, the plate and the flags of a vehicle, the
  score and the fines of an officer's day, or its fines and cancelled fines.
\<close>

datatype alert_details =
    FlaggedVehicle uuid string "string list"
  | HighScore float32 int
  | CancelRate int int

record alert_row =
  aal_id :: int
  aal_tenant :: string
  aal_kind :: string
  aal_subject_kind :: "string option"
  aal_subject_id :: "uuid option"
  aal_day :: date
  aal_severity :: "float32 option"
  aal_details :: alert_details
  aal_detected_at :: time
  aal_resolved_at :: "time option"
  aal_resolved_by :: "uuid option"
  aal_resolution :: "string option"

record stats_row =
  os_tenant :: string
  os_officer :: uuid
  os_day :: date
  os_fines_issued :: int
  os_fines_cancelled :: int
  os_fines_total :: money
  os_unique_plates :: int
  os_anomaly_score :: "float32 option"

record notification_row =
  nr_id :: uuid
  nr_tenant :: string
  nr_related_event :: "int option"
  nr_channel :: string
  nr_recipient :: string
  nr_subject :: "string option"
  nr_body :: string
  nr_template :: "string option"
  nr_status :: notification_status
  nr_provider :: "string option"
  nr_provider_ref :: "string option"
  nr_attempts :: int
  nr_failed_with :: "goerr option"
  nr_created_at :: time
  nr_sent_at :: "time option"

text \<open>
  \<open>event_outbox\<close>: the body of a row is the JSON of an envelope; \<open>None\<close> is a body
  \<open>json.Unmarshal\<close> rejects.
\<close>

record outbox_row =
  ob_id :: int
  ob_tenant :: string
  ob_body :: "envelope option"
  ob_delivered_at :: "time option"
  ob_attempts :: int
  ob_created_at :: time

section \<open>The database\<close>

text \<open>
  \<open>tenants\<close> holds the plate pattern of each tenant, \<open>packs\<close> the offences (code and points) in
  the manifest of the country pack a tenant is pinned to, \<open>tenant_details\<close> the other columns of
  the tenant (name, country, locale, currency); no modelled service writes them. \<open>roles\<close>,
  \<open>role_permissions\<close> and \<open>user_roles\<close> are the tuples of the tables of that name.
\<close>

record db =
  tenants :: "(string \<times> string) list"
  users :: "user_row list"
  offences :: "offence_row list"
  escalations :: "escalation_row list"
  owners :: "owner_row list"
  vehicles :: "vehicle_row list"
  licenses :: "license_row list"
  fines :: "fine_row list"
  evidence :: "evidence_row list"
  custody :: "custody_row list"
  disputes :: "dispute_row list"
  payments :: "payment_row list"
  retention :: "retention_row list"
  transfers :: "transfer_row list"
  suspensions :: "suspension_row list"
  demerits :: "demerit_row list"
  demerit_policies :: "demerit_policy_row list"
  packs :: "(string \<times> (string \<times> int) list) list"
  endorsements :: "endorsement_row list"
  violations :: "violation_row list"
  biometrics :: "biometric_row list"
  tenant_details :: "(string \<times> string \<times> string \<times> string \<times> string) list"
  roles :: "(string \<times> string) list"
  role_permissions :: "(string \<times> string \<times> string) list"
  user_roles :: "(string \<times> uuid \<times> string) list"
  refresh_tokens :: "refresh_row list"
  audit_events :: "audit_row list"
  anpr_jobs :: "anpr_job_row list"
  anpr_scans :: "anpr_scan_row list"
  retry_jobs :: "retry_row list"
  provider_health :: "health_row list"
  insurance_records :: "insurance_row list"
  inspection_records :: "inspection_row list"
  audit_alerts :: "alert_row list"
  officer_stats :: "stats_row list"
  notification_records :: "notification_row list"
  consumer_offsets :: "(string \<times> int) list"
  outbox :: "outbox_row list"

definition empty_db :: db where
  "empty_db = \<lparr>tenants = [], users = [], offences = [], escalations = [], owners = [],
     vehicles = [], licenses = [], fines = [], evidence = [], custody = [], disputes = [],
     payments = [], retention = [], transfers = [], suspensions = [], demerits = [],
     demerit_policies = [], packs = [], endorsements = [], violations = [],
     biometrics = [], tenant_details = [], roles = [], role_permissions = [], user_roles = [],
     refresh_tokens = [], audit_events = [], anpr_jobs = [], anpr_scans = [],
     retry_jobs = [], provider_health = [], insurance_records = [], inspection_records = [],
     audit_alerts = [], officer_stats = [], notification_records = [], consumer_offsets = [], outbox = []\<rparr>"

text \<open>Effects outside the database; no rollback undoes them.\<close>

record audit_msg =
  am_tenant :: string
  am_actor :: "uuid option"
  am_role :: string
  am_device :: string
  am_service :: string
  am_action :: string
  am_rtype :: string
  am_rid :: uuid

datatype effect =
    Audited audit_msg
  | IntentCreated string uuid money string string
  | HealthOk string
  | HealthFail string
  | ObjectDeleted string
  | PlateRegexCached string string
  | MessageSent string string string "string option"

type_synonym dbworld = "(db, effect) world"
type_synonym ('b, 'a) handler = "(db, effect, 'b response, 'a) act"
type_synonym 'a job = "(db, effect, goerr, 'a) act"

text \<open>
  \<open>audit.Client.Emit\<close>: one POST to the audit service; without a configured URL nothing is
  sent, and the callers ignore the error it may return. The before and after images are not
  modelled.
\<close>

definition audit_event :: "string \<Rightarrow> claims option \<Rightarrow> string \<Rightarrow> string \<Rightarrow> uuid \<Rightarrow> audit_msg" where
  "audit_event service cl action rtype rid =
     (case cl of
        None \<Rightarrow> \<lparr>am_tenant = [], am_actor = None, am_role = [], am_device = [],
                 am_service = service, am_action = action, am_rtype = rtype, am_rid = rid\<rparr>
      | Some c \<Rightarrow> \<lparr>am_tenant = c_tenant c, am_actor = c_subject c, am_role = c_role c,
                 am_device = c_device c, am_service = service, am_action = action,
                 am_rtype = rtype, am_rid = rid\<rparr>)"

definition audit_Emit ::
    "string \<Rightarrow> string \<Rightarrow> claims option \<Rightarrow> string \<Rightarrow> string \<Rightarrow> uuid \<Rightarrow> (db, effect, 'r, unit) act" where
  "audit_Emit url service cl action rtype rid =
     (if url = [] then ret () else emit (Audited (audit_event service cl action rtype rid)))"

definition world_of :: "db \<Rightarrow> dbworld" where
  "world_of d = \<lparr>w_db = d, w_snap = None, w_save = None, w_aborted = False,
     w_seq = (\<lambda>_. 0), w_faults = [], w_log = []\<rparr>"

section \<open>What a tenant may not touch\<close>

definition outside :: "string \<Rightarrow> db \<Rightarrow> db" where
  "outside t d = d\<lparr>
     users := others u_tenant t (users d),
     offences := others ro_tenant t (offences d),
     escalations := others re_tenant t (escalations d),
     owners := others o_tenant t (owners d),
     vehicles := others v_tenant t (vehicles d),
     licenses := others l_tenant t (licenses d),
     fines := others f_tenant t (fines d),
     evidence := others fe_tenant t (evidence d),
     custody := others cu_tenant t (custody d),
     disputes := others d_tenant t (disputes d),
     payments := others fp_tenant t (payments d),
     retention := others rp_tenant t (retention d),
     transfers := others vt_tenant t (transfers d),
     suspensions := others ds_tenant t (suspensions d),
     demerits := others de_tenant t (demerits d),
     demerit_policies := others dp_tenant t (demerit_policies d),
     endorsements := others en_tenant t (endorsements d),
     violations := others dv_tenant t (violations d),
     biometrics := others db_tenant t (biometrics d),
     roles := others fst t (roles d),
     role_permissions := others fst t (role_permissions d),
     user_roles := others fst t (user_roles d),
     refresh_tokens := others rt_tenant t (refresh_tokens d),
     audit_events := others au_tenant t (audit_events d),
     anpr_jobs := others aj_tenant t (anpr_jobs d),
     anpr_scans := others as_tenant t (anpr_scans d),
     retry_jobs := others rj_tenant t (retry_jobs d),
     provider_health := others ph_tenant t (provider_health d),
     insurance_records := others ir_tenant t (insurance_records d),
     inspection_records := others xr_tenant t (inspection_records d),
     audit_alerts := others aal_tenant t (audit_alerts d),
     officer_stats := others os_tenant t (officer_stats d),
     notification_records := others nr_tenant t (notification_records d),
     outbox := others ob_tenant t (outbox d)\<rparr>"

abbreviation isolated :: "string \<Rightarrow> dbworld \<Rightarrow> dbworld \<Rightarrow> bool" where
  "isolated t \<equiv> pinned (outside t)"

abbreviation keeps_outside :: "string \<Rightarrow> (db \<Rightarrow> sqlerr + 'a \<times> db) \<Rightarrow> bool" where
  "keeps_outside t \<equiv> fixed (outside t)"

section \<open>References to users\<close>

text \<open>A nullable foreign key on \<open>users(id)\<close> holds, whatever the session sees.\<close>

definition user_exists :: "uuid option \<Rightarrow> db \<Rightarrow> bool" where
  "user_exists uid d = (case uid of None \<Rightarrow> True | Some u \<Rightarrow> list_ex (\<lambda>r. u_id r = u) (users d))"

section \<open>The caller in a statement\<close>

text \<open>
  The subject of the claims is a parameter of statements on UUID columns: a subject that is no
  UUID makes the statement fail.
\<close>

definition subject_param :: "claims \<Rightarrow> (uuid \<Rightarrow> db \<Rightarrow> sqlerr + 'a \<times> db) \<Rightarrow> db \<Rightarrow> sqlerr + 'a \<times> db" where
  "subject_param c f = (case c_subject c of None \<Rightarrow> (\<lambda>_. Inl SqlFault) | Some u \<Rightarrow> f u)"

lemma subject_param_Inr:
  "subject_param c f d = Inr (x, d') \<longleftrightarrow> (\<exists>u. c_subject c = Some u \<and> f u d = Inr (x, d'))"
  by (simp add: subject_param_def split: option.splits)

lemma reads_subject_param [frame_intros]: "(\<And>u. reads (f u)) \<Longrightarrow> reads (subject_param c f)"
  by (auto simp: reads_def subject_param_Inr)

lemma keeps_outside_subject_param [frame_intros]:
  "(\<And>u. keeps_outside t (f u)) \<Longrightarrow> keeps_outside t (subject_param c f)"
  by (auto simp: fixed_def subject_param_Inr)

lemma preserved_subject_param [frame_intros]:
  "(\<And>u. preserved q (f u)) \<Longrightarrow> preserved q (subject_param c f)"
  unfolding preserved_def subject_param_Inr by blast

section \<open>The outbox\<close>

text \<open>
  \<open>events.WriteOutbox\<close>: one insert in the caller's transaction. The row's id comes from the
  \<open>BIGSERIAL\<close> sequence, its creation time is \<open>now()\<close>.
\<close>

definition outbox_row_of :: "surroundings \<Rightarrow> int \<Rightarrow> envelope \<Rightarrow> outbox_row" where
  "outbox_row_of sur n env =
     \<lparr>ob_id = n, ob_tenant = env_tenant env, ob_body = Some env, ob_delivered_at = None,
      ob_attempts = 0, ob_created_at = db_now sur\<rparr>"

definition insert_outbox :: "session \<Rightarrow> outbox_row \<Rightarrow> db \<Rightarrow> sqlerr + unit \<times> db" where
  "insert_outbox s r d =
     (case insert_row ob_tenant s (\<lambda>old new. ob_id old = ob_id new) r (outbox d) of
        Inl e \<Rightarrow> Inl e | Inr rows \<Rightarrow> Inr ((), d\<lparr>outbox := rows\<rparr>))"

definition WriteOutbox :: "'r \<Rightarrow> session \<Rightarrow> surroundings \<Rightarrow> envelope \<Rightarrow> (db, effect, 'r, unit) act" where
  "WriteOutbox k s sur env =
     bind (nextval ''event_outbox'') (\<lambda>n.
     exec_or (\<lambda>_. k) (insert_outbox s (outbox_row_of sur n env)))"

lemma insert_outbox_Inr:
  "insert_outbox s r d = Inr (u, d') \<longleftrightarrow>
     sees s (ob_tenant r) \<and> (\<forall>old\<in>set (outbox d). ob_id old \<noteq> ob_id r)
     \<and> d' = d\<lparr>outbox := outbox d @ [r]\<rparr>"
  by (auto simp: insert_outbox_def insert_row_def list_ex_iff)

lemma WriteOutboxE [run_elims]:
  assumes "WriteOutbox k s sur env w = (Inr u, w')"
  obtains n sq fs where "n = w_seq w ''event_outbox'' + 1" and "sees s (env_tenant env)" and "\<not> w_aborted w"
    and "w' = w\<lparr>w_seq := sq, w_faults := fs, w_db := (w_db w)\<lparr>outbox := outbox (w_db w) @ [outbox_row_of sur n env]\<rparr>\<rparr>"
  using assms
  by (auto simp: WriteOutbox_def insert_outbox_Inr outbox_row_of_def elim!: run_elims)

lemma audit_EmitE [run_elims]:
  assumes "audit_Emit url service cl action rtype rid w = (Inr u, w')"
  obtains l where "w' = w\<lparr>w_log := l\<rparr>"
proof (cases "url = []")
  case True
  with assms show thesis by (intro that [of "w_log w"]) (auto simp: audit_Emit_def)
next
  case False
  with assms show thesis by (intro that) (auto simp: audit_Emit_def emit_def)
qed

lemma tx_audit_Emit: "keeps same_tx (audit_Emit url service cl action rtype rid)"
  unfolding audit_Emit_def by (intro tx_steps)

lemma pin_audit_Emit: "keeps (pinned g) (audit_Emit url service cl action rtype rid)"
  unfolding audit_Emit_def by (intro pin_steps)

lemma pin_WithTenant: "keeps (pinned g) (WithTenant cl)"
  unfolding WithTenant_def by (intro pin_steps frame_intros)

lemma rd_audit_Emit: "keeps same_db (audit_Emit url service cl action rtype rid)"
  unfolding audit_Emit_def by (intro rd_steps)

lemma sw_audit_Emit: "stops_with P (audit_Emit url service cl action rtype rid)"
  unfolding audit_Emit_def by (intro sw_steps)

lemma sw_WriteOutbox: "P k \<Longrightarrow> stops_with P (WriteOutbox k s sur env)"
  unfolding WriteOutbox_def by (intro sw_steps)

lemma WriteOutbox_db:
  assumes "WriteOutbox k s sur env w = (Inr u, w')"
  obtains n where "w_db w' = (w_db w)\<lparr>outbox := outbox (w_db w) @ [outbox_row_of sur n env]\<rparr>"
  using assms by (elim WriteOutboxE) simp

lemma tx_WriteOutbox: "keeps same_tx (WriteOutbox k s sur env)"
  unfolding WriteOutbox_def by (intro tx_steps)

lemma keeps_outside_insert_outbox: "keeps_outside t (insert_outbox (TenantSession t) r)"
  by (auto simp: fixed_def insert_outbox_Inr outside_def others_def)

lemma iso_WriteOutbox: "keeps (isolated t) (WriteOutbox k (TenantSession t) sur env)"
  unfolding WriteOutbox_def by (intro pin_steps keeps_outside_insert_outbox)

lemma pin_WriteOutbox:
  assumes "\<And>d rows. g (d\<lparr>outbox := rows\<rparr>) = g d"
  shows "keeps (pinned g) (WriteOutbox k s sur env)"
proof -
  have "fixed g (insert_outbox s r)" for r
    using assms by (auto simp: fixed_def insert_outbox_Inr)
  then show ?thesis unfolding WriteOutbox_def by (intro pin_steps)
qed

lemma iv_WriteOutbox:
  assumes "\<And>d rows. q d \<Longrightarrow> q (d\<lparr>outbox := rows\<rparr>)"
  shows "keeps (kept q) (WriteOutbox k s sur env)"
proof -
  have "preserved q (insert_outbox s r)" for r
    using assms by (auto simp: preserved_def insert_outbox_Inr)
  then show ?thesis unfolding WriteOutbox_def by (intro iv_steps)
qed

lemma iv_audit_Emit: "keeps (kept q) (audit_Emit url service cl action rtype rid)"
  unfolding audit_Emit_def by (intro iv_steps)

lemma iv_WithTenant: "keeps (kept q) (WithTenant cl)"
  unfolding WithTenant_def by (intro iv_steps frame_intros)

lemma lg_WriteOutbox: "keeps log_grows (WriteOutbox k s sur env)"
  unfolding WriteOutbox_def by (intro lg_steps)

lemmas db_lg_steps = lg_steps lg_WriteOutbox
lemmas db_tx_steps = tx_steps tx_WithTenant tx_audit_Emit tx_WriteOutbox
lemmas db_rd_steps = rd_steps rd_WithTenant rd_audit_Emit
lemmas db_sw_steps = sw_steps sw_WithTenant sw_audit_Emit sw_WriteOutbox
lemmas db_pin_steps = pin_steps pin_WithTenant pin_audit_Emit
lemmas db_iv_steps = iv_steps iv_WithTenant iv_audit_Emit
lemmas db_iso_steps = pin_steps pin_WithTenant pin_audit_Emit iso_WriteOutbox

end
