(* ===== verification/FinesTypes.thy ===== *)
theory FinesTypes
  imports Schema
begin

text \<open>
  The fines service (\<open>services/fines/internal/api/api.go\<close>): its configuration, the payments
  contract it relies on (\<open>packages/go-common/contracts/payments/payments.go\<close>), the bodies it
  answers with, and the statements on the fines tables that several handlers share.
\<close>

section \<open>Configuration and providers\<close>

datatype pay_status = RequiresAction | Processing | Succeeded | Failed | Refunded | PayCancelled

record create_intent_input =
  ci_tenant :: string
  ci_idempotency_fine :: uuid
  ci_amount :: money
  ci_currency :: string
  ci_method :: string

record intent =
  pi_id :: string
  pi_status :: pay_status
  pi_client_secret :: string

record webhook_event =
  we_intent_id :: string
  we_status :: pay_status

text \<open>
  \<open>payments.Provider\<close>, code outside the repository: what it answers to one call.
\<close>

record provider =
  pv_module :: string
  pv_name :: string
  pv_region :: string
  pv_create_intent :: "create_intent_input \<Rightarrow> intent option"
  pv_verify_webhook :: "(string \<times> string) list \<Rightarrow> string \<Rightarrow> webhook_event option"

text \<open>
  What \<open>New\<close> wires: the database user of the request pool and of the admin pool, the audit
  URL, the provider, and whether a health monitor is bound.
\<close>

record fines_api =
  fa_pool :: dbrole
  fa_admin_pool :: dbrole
  fa_audit :: string
  fa_pay :: provider
  fa_hm :: bool

section \<open>Bodies\<close>

record evidence_in =
  ei_kind :: string
  ei_s3_key :: string
  ei_sha256 :: string
  ei_bytes :: int
  ei_taken_at :: time

record issue_req =
  ir_plate :: string
  ir_offence_code :: string
  ir_driver_license :: "string option"
  ir_geo_lat :: float64
  ir_geo_lng :: float64
  ir_geo_accuracy :: float32
  ir_device_id :: string
  ir_notes :: string
  ir_evidence :: "evidence_in list"

record fine_out =
  fo_id :: uuid
  fo_plate :: string
  fo_offence_code :: string
  fo_amount :: money
  fo_currency :: string
  fo_status :: fine_status
  fo_issued_at :: time
  fo_due_at :: time
  fo_issued_by :: uuid
  fo_stage :: int

record custody_out =
  co_evidence_id :: uuid
  co_action :: string
  co_actor_user :: "uuid option"
  co_actor_role :: "string option"
  co_actor_device :: "string option"
  co_details :: "(string \<times> string) list"
  co_occurred_at :: time

record dispute_item =
  di_id :: uuid
  di_fine_id :: uuid
  di_plate :: string
  di_offence_code :: string
  di_amount :: money
  di_currency :: string
  di_filed_by :: uuid
  di_reason :: string
  di_status :: dispute_status
  di_filed_at :: time
  di_resolution :: "string option"
  di_resolved_at :: "time option"

record health_snapshot =
  hs_state :: string
  hs_fail_streak :: int
  hs_last_ok :: "time option"
  hs_last_fail :: "time option"

datatype fines_body =
    OneFine fine_out
  | FineItems "fine_out list"
  | FineDetail fine_out "evidence_in list" "custody_out list"
  | PayAnswer string string payment_status
  | DisputeItems "dispute_item list"
  | SealedCount nat
  | PaymentsHealth string string string "health_snapshot option"

type_synonym fines_handler = "(fines_body, fines_body response) handler"

definition zero_time :: time where
  "zero_time = seconds (-62135596800)"

definition IsZero :: "time \<Rightarrow> bool" where
  "IsZero t \<longleftrightarrow> t = zero_time"

definition fine_out_of :: "fine_row \<Rightarrow> fine_out" where
  "fine_out_of f = \<lparr>fo_id = f_id f, fo_plate = f_plate f, fo_offence_code = f_offence_code f,
     fo_amount = f_amount f, fo_currency = f_currency f, fo_status = f_status f,
     fo_issued_at = f_issued_at f, fo_due_at = f_due_at f, fo_issued_by = f_issued_by f,
     fo_stage = f_stage f\<rparr>"

section \<open>Statements on the fines tables\<close>

text \<open>
  \<open>INSERT INTO fines\<close>: besides the policy and the primary key, the foreign keys on the
  issuing user and on \<open>(tenant_id, offence_code)\<close>. The vehicle and the licence were read in
  the same transaction, and the tenant exists because its offence does.
\<close>

definition insert_fine :: "session \<Rightarrow> fine_row \<Rightarrow> db \<Rightarrow> sqlerr + uuid \<times> db" where
  "insert_fine s f d =
     (if \<not> list_ex (\<lambda>u. u_id u = f_issued_by f) (users d)
         \<or> \<not> list_ex (\<lambda>r. ro_tenant r = f_tenant f \<and> ro_code r = f_offence_code f) (offences d)
      then Inl ForeignKeyViolation
      else case insert_row f_tenant s (\<lambda>old new. f_id old = f_id new) f (fines d) of
             Inl e \<Rightarrow> Inl e
           | Inr rows \<Rightarrow> Inr (f_id f, d\<lparr>fines := rows\<rparr>))"

text \<open>
  The trigger \<open>fine_child_tenant\<close> copies the tenant of the parent fine, as far as the session
  sees it; a NULL tenant violates the NOT NULL constraint of the child table.
\<close>

definition child_tenant :: "session \<Rightarrow> uuid \<Rightarrow> db \<Rightarrow> string option" where
  "child_tenant s fid d = map_option f_tenant (row_seen f_tenant s (\<lambda>f. f_id f = fid) (fines d))"

definition evidence_kinds :: "string list" where
  "evidence_kinds = [''photo'', ''video'', ''signature'', ''document'']"

definition evidence_row_of :: "uuid \<Rightarrow> string \<Rightarrow> uuid \<Rightarrow> evidence_in \<Rightarrow> evidence_row" where
  "evidence_row_of eid ten fid e =
     \<lparr>fe_id = eid, fe_tenant = ten, fe_fine_id = fid, fe_kind = ei_kind e,
      fe_s3_key = ei_s3_key e, fe_sha256 = ei_sha256 e, fe_bytes = ei_bytes e,
      fe_taken_at = ei_taken_at e, fe_sealed_at = None\<rparr>"

definition insert_evidence :: "session \<Rightarrow> uuid \<Rightarrow> uuid \<Rightarrow> evidence_in \<Rightarrow> db \<Rightarrow> sqlerr + uuid \<times> db" where
  "insert_evidence s eid fid e d =
     (case child_tenant s fid d of
        None \<Rightarrow> Inl CheckViolation
      | Some ten \<Rightarrow>
          if ei_kind e \<notin> set evidence_kinds then Inl CheckViolation
          else case insert_row fe_tenant s (\<lambda>old new. fe_id old = fe_id new)
                      (evidence_row_of eid ten fid e) (evidence d) of
                 Inl err \<Rightarrow> Inl err
               | Inr rows \<Rightarrow> Inr (eid, d\<lparr>evidence := rows\<rparr>))"

definition insert_custody :: "session \<Rightarrow> custody_row \<Rightarrow> db \<Rightarrow> sqlerr + unit \<times> db" where
  "insert_custody s r d =
     (if \<not> list_ex (\<lambda>f. f_id f = cu_fine_id r) (fines d)
         \<or> \<not> list_ex (\<lambda>e. fe_id e = cu_evidence_id r) (evidence d)
      then Inl ForeignKeyViolation
      else case insert_row cu_tenant s (\<lambda>old new. cu_id old = cu_id new) r (custody d) of
             Inl e \<Rightarrow> Inl e
           | Inr rows \<Rightarrow> Inr ((), d\<lparr>custody := rows\<rparr>))"

definition update_fine :: "session \<Rightarrow> uuid \<Rightarrow> (fine_row \<Rightarrow> fine_row) \<Rightarrow> db \<Rightarrow> db" where
  "update_fine s fid f d = d\<lparr>fines := update_rows f_tenant s (\<lambda>r. f_id r = fid) f (fines d)\<rparr>"

definition fine_seen :: "session \<Rightarrow> uuid \<Rightarrow> db \<Rightarrow> fine_row option" where
  "fine_seen s fid d = row_seen f_tenant s (\<lambda>f. f_id f = fid) (fines d)"

text \<open>
  \<open>o.user_id = $2 OR f.driver_user_id = $2\<close> over the left joins with the vehicle and its
  owner; a NULL on either side makes the comparison false.
\<close>

definition owner_user :: "session \<Rightarrow> fine_row \<Rightarrow> db \<Rightarrow> uuid option" where
  "owner_user s f d =
     (case f_vehicle_id f of None \<Rightarrow> None
      | Some vid \<Rightarrow> (case row_seen v_tenant s (\<lambda>v. v_id v = vid) (vehicles d) of None \<Rightarrow> None
      | Some v \<Rightarrow> (case v_owner_id v of None \<Rightarrow> None
      | Some oid \<Rightarrow> (case row_seen o_tenant s (\<lambda>ow. o_id ow = oid) (owners d) of None \<Rightarrow> None
      | Some ow \<Rightarrow> o_user_id ow))))"

definition owns_fine :: "session \<Rightarrow> uuid \<Rightarrow> fine_row \<Rightarrow> db \<Rightarrow> bool" where
  "owns_fine s user f d \<longleftrightarrow> owner_user s f d = Some user \<or> f_driver_user_id f = Some user"

section \<open>What the statements do\<close>

lemma insert_fine_Inr [table_simps]:
  "insert_fine s f d = Inr (i, d') \<longleftrightarrow>
     (\<exists>u\<in>set (users d). u_id u = f_issued_by f)
     \<and> (\<exists>r\<in>set (offences d). ro_tenant r = f_tenant f \<and> ro_code r = f_offence_code f)
     \<and> sees s (f_tenant f) \<and> (\<forall>old\<in>set (fines d). f_id old \<noteq> f_id f)
     \<and> i = f_id f \<and> d' = d\<lparr>fines := fines d @ [f]\<rparr>"
  by (auto simp: insert_fine_def insert_row_def list_ex_iff)

lemma insert_custody_Inr [table_simps]:
  "insert_custody s r d = Inr (u, d') \<longleftrightarrow>
     (\<exists>f\<in>set (fines d). f_id f = cu_fine_id r) \<and> (\<exists>e\<in>set (evidence d). fe_id e = cu_evidence_id r)
     \<and> sees s (cu_tenant r) \<and> (\<forall>old\<in>set (custody d). cu_id old \<noteq> cu_id r)
     \<and> d' = d\<lparr>custody := custody d @ [r]\<rparr>"
  by (auto simp: insert_custody_def insert_row_def list_ex_iff)

lemma child_tenant_SomeD:
  "child_tenant s fid d = Some ten \<Longrightarrow> sees s ten \<and> (\<exists>f\<in>set (fines d). f_id f = fid \<and> f_tenant f = ten)"
  by (auto simp: child_tenant_def dest!: row_seen_SomeD)

lemma insert_evidence_InrD:
  assumes "insert_evidence s eid fid e d = Inr (i, d')"
  obtains ten where "i = eid" "child_tenant s fid d = Some ten" "ei_kind e \<in> set evidence_kinds"
    "\<forall>old\<in>set (evidence d). fe_id old \<noteq> eid"
    "d' = d\<lparr>evidence := evidence d @ [evidence_row_of eid ten fid e]\<rparr>"
  using assms
  by (auto simp: insert_evidence_def table_simps evidence_row_of_def
      split: option.splits if_splits sum.splits)

lemma fine_seen_SomeD: "fine_seen s fid d = Some f \<Longrightarrow> f \<in> set (fines d) \<and> sees s (f_tenant f) \<and> f_id f = fid"
  by (auto simp: fine_seen_def dest!: row_seen_SomeD)

lemma update_fine_fields [simp]:
  "users (update_fine s fid f d) = users d" "offences (update_fine s fid f d) = offences d"
  "evidence (update_fine s fid f d) = evidence d" "custody (update_fine s fid f d) = custody d"
  "disputes (update_fine s fid f d) = disputes d" "payments (update_fine s fid f d) = payments d"
  "outbox (update_fine s fid f d) = outbox d"
  "fines (update_fine s fid f d) = update_rows f_tenant s (\<lambda>r. f_id r = fid) f (fines d)"
  by (simp_all add: update_fine_def)

section \<open>Isolation of the statements\<close>

lemma keeps_outside_insert_fine [frame_intros]: "keeps_outside t (insert_fine (TenantSession t) f)"
  by (auto simp: fixed_def outside_def others_def table_simps)

lemma keeps_outside_insert_custody [frame_intros]: "keeps_outside t (insert_custody (TenantSession t) r)"
  by (auto simp: fixed_def outside_def others_def table_simps)

lemma keeps_outside_insert_evidence [frame_intros]:
  "keeps_outside t (insert_evidence (TenantSession t) eid fid e)"
  by (auto simp: fixed_def outside_def others_def evidence_row_of_def
      elim!: insert_evidence_InrD dest!: child_tenant_SomeD)

lemma keeps_outside_update_fine [frame_intros]:
  assumes "\<And>r. f_tenant (f r) = f_tenant r"
  shows "keeps_outside t (change (update_fine (TenantSession t) fid f))"
  by (rule fixed_change) (simp add: outside_def update_fine_def others_update assms)

end
