(* ===== verification/FinesIssue.thy ===== *)
theory FinesIssue
  imports FinesTypes
begin

text \<open>
  \<open>POST /v1/fines\<close> (\<open>issue\<close>, \<open>services/fines/internal/api/api.go\<close>): the validation of the
  body, the transaction (vehicle, regulation, duplicate check, licence, fine, evidence and
  custody rows, outbox event) and the answer. The UUIDs of the surroundings are numbered: 0
  for the fine, 1 for the event, 2 and up for the evidence rows.
\<close>

section \<open>The handler\<close>

definition evidence_ok :: "evidence_in \<Rightarrow> bool" where
  "evidence_ok e \<longleftrightarrow> \<not> (ei_s3_key e = [] \<or> ei_sha256 e = [] \<or> IsZero (ei_taken_at e))"

definition nil_uuid :: uuid where
  "nil_uuid = 0"

definition subject_or_nil :: "claims \<Rightarrow> uuid" where
  "subject_or_nil c = (case c_subject c of None \<Rightarrow> nil_uuid | Some u \<Rightarrow> u)"

definition vehicle_by_plate :: "session \<Rightarrow> string \<Rightarrow> db \<Rightarrow> vehicle_row option" where
  "vehicle_by_plate s plate d = row_seen v_tenant s (\<lambda>v. v_plate v = plate) (vehicles d)"

definition active_offence :: "session \<Rightarrow> string \<Rightarrow> db \<Rightarrow> offence_row option" where
  "active_offence s code d = row_seen ro_tenant s (\<lambda>r. ro_code r = code \<and> ro_is_active r) (offences d)"

definition license_by_number :: "session \<Rightarrow> string \<Rightarrow> db \<Rightarrow> license_row option" where
  "license_by_number s n d = row_seen l_tenant s (\<lambda>l. l_number l = n) (licenses d)"

definition is_duplicate :: "time \<Rightarrow> uuid \<Rightarrow> string \<Rightarrow> int \<Rightarrow> fine_row \<Rightarrow> bool" where
  "is_duplicate now vid code window f \<longleftrightarrow>
     f_vehicle_id f = Some vid \<and> f_offence_code f = code
     \<and> f_issued_at f > now - minutes window \<and> f_status f \<noteq> Cancelled"

definition dup_count :: "session \<Rightarrow> time \<Rightarrow> uuid \<Rightarrow> string \<Rightarrow> int \<Rightarrow> db \<Rightarrow> nat" where
  "dup_count s now vid code window d =
     length (filter (is_duplicate now vid code window) (rows_seen f_tenant s (fines d)))"

definition captured_row :: "surroundings \<Rightarrow> claims \<Rightarrow> uuid \<Rightarrow> string \<Rightarrow> int \<Rightarrow> uuid \<Rightarrow> evidence_in \<Rightarrow> custody_row" where
  "captured_row sur c fid device n eid e =
     \<lparr>cu_id = n, cu_tenant = c_tenant c, cu_fine_id = fid, cu_evidence_id = eid,
      cu_action = ''captured'', cu_actor_user = Some (subject_or_nil c),
      cu_actor_role = Some (c_role c), cu_actor_device = Some device,
      cu_details = [(''sha256'', ei_sha256 e), (''kind'', ei_kind e)],
      cu_occurred_at = db_now sur\<rparr>"

definition issue_evidence ::
    "session \<Rightarrow> surroundings \<Rightarrow> claims \<Rightarrow> uuid \<Rightarrow> string \<Rightarrow> nat \<times> evidence_in \<Rightarrow> (fines_body, unit) handler" where
  "issue_evidence s sur c fid device =
     (\<lambda>(k, e).
        bind (exec (insert_evidence s (new_uuid sur k) fid e)) (\<lambda>eid.
        bind (nextval ''evidence_custody'') (\<lambda>n.
        exec (insert_custody s (captured_row sur c fid device n eid e)))))"

definition lookup_vehicle :: "session \<Rightarrow> string \<Rightarrow> (fines_body, uuid option) handler" where
  "lookup_vehicle s plate =
     bind (exec_try (query_row (vehicle_by_plate s plate))) (\<lambda>res.
     case res of
       Inr v \<Rightarrow> ret (Some (v_id v))
     | Inl e \<Rightarrow> if e = NoRows then ret None else stop Internal)"

definition check_duplicate :: "session \<Rightarrow> surroundings \<Rightarrow> uuid option \<Rightarrow> string \<Rightarrow> int \<Rightarrow> (fines_body, unit) handler" where
  "check_duplicate s sur vid code window =
     (case vid of
        None \<Rightarrow> ret ()
      | Some v \<Rightarrow>
          bind (exec (query (dup_count s (db_now sur) v code window))) (\<lambda>n.
          guard (\<not> n > 0) (Err 409 ''duplicate_fine'')))"

definition lookup_license :: "session \<Rightarrow> string option \<Rightarrow> (fines_body, uuid option) handler" where
  "lookup_license s number =
     (case number of
        None \<Rightarrow> ret None
      | Some n \<Rightarrow>
          if n = [] then ret None
          else bind (exec_or (no_rows_or (Err 400 ''unknown_license'') Internal)
                       (query_row (license_by_number s n)))
                 (\<lambda>l. ret (Some (l_id l))))"

definition new_fine ::
    "surroundings \<Rightarrow> claims \<Rightarrow> issue_req \<Rightarrow> uuid option \<Rightarrow> offence_row \<Rightarrow> uuid option \<Rightarrow> fine_row" where
  "new_fine sur c inp vid off lid =
     \<lparr>f_id = new_uuid sur 0, f_tenant = c_tenant c, f_vehicle_id = vid, f_plate = ir_plate inp,
      f_driver_user_id = None, f_driver_license_id = lid, f_offence_code = ir_offence_code inp,
      f_amount = ro_base_amount off, f_currency = ro_currency off, f_status = Issued,
      f_issued_by = subject_or_nil c, f_issued_at = db_now sur, f_device_id = ir_device_id inp,
      f_geo_lat = ir_geo_lat inp, f_geo_lng = ir_geo_lng inp,
      f_geo_accuracy = ir_geo_accuracy inp, f_due_at = go_now sur + days 14,
      f_paid_at = None, f_stage = 0, f_notes = Some (ir_notes inp)\<rparr>"

definition fine_issued_event :: "surroundings \<Rightarrow> reqctx \<Rightarrow> claims \<Rightarrow> issue_req \<Rightarrow> fine_row \<Rightarrow> envelope" where
  "fine_issued_event sur ctx c inp f =
     EnvelopeFromContext sur ctx (new_uuid sur 1) ''fines'' (c_tenant c) TypeFineIssued 1
       (FineIssued \<lparr>fip_fine_id = f_id f, fip_plate = ir_plate inp, fip_vehicle_id = f_vehicle_id f,
          fip_offence_code = ir_offence_code inp, fip_amount = f_amount f,
          fip_currency = f_currency f, fip_issued_by = subject_or_nil c,
          fip_device_id = ir_device_id inp, fip_geo_lat = ir_geo_lat inp,
          fip_geo_lng = ir_geo_lng inp, fip_evidence_n = length (ir_evidence inp)\<rparr>)"

definition issue_tx :: "session \<Rightarrow> surroundings \<Rightarrow> reqctx \<Rightarrow> claims \<Rightarrow> issue_req \<Rightarrow> (fines_body, fine_row) handler" where
  "issue_tx s sur ctx c inp =
     bind (lookup_vehicle s (ir_plate inp)) (\<lambda>vid.
     bind (exec_or (no_rows_or (Err 400 ''unknown_offence'') Internal)
             (query_row (active_offence s (ir_offence_code inp)))) (\<lambda>off.
     andthen (check_duplicate s sur vid (ir_offence_code inp) (ro_dup_window_min off)) (
     bind (lookup_license s (ir_driver_license inp)) (\<lambda>lid.
     let f = new_fine sur c inp vid off lid in
     bind (exec (insert_fine s f)) (\<lambda>fid.
     andthen (for_each (issue_evidence s sur c fid (ir_device_id inp))
               (List.enumerate 2 (ir_evidence inp))) (
     andthen (WriteOutbox Internal s sur (fine_issued_event sur ctx c inp f)) (
     ret f)))))))"

definition issue :: "fines_api \<Rightarrow> surroundings \<Rightarrow> reqctx \<Rightarrow> claims \<Rightarrow> issue_req option \<Rightarrow> fines_handler" where
  "issue a sur ctx c body =
     bind (read_json body) (\<lambda>inp.
     andthen (guard (ir_evidence inp \<noteq> []) (Err 400 ''evidence_required'')) (
     andthen (guard (list_all evidence_ok (ir_evidence inp)) (Err 400 ''evidence_invalid'')) (
     andthen (guard (\<not> (ir_plate inp = [] \<or> ir_offence_code inp = [])) (write_err ErrBadRequest)) (
     andthen (WithTenant (Some c)) (
     bind (in_tx Internal (issue_tx (session_of (fa_pool a) (c_tenant c)) sur ctx c inp)) (\<lambda>f.
     andthen (audit_Emit (fa_audit a) ''fines'' (Some c) ''fine.issue'' ''fine'' (f_id f)) (
     ret (Json 201 (OneFine ((fine_out_of f)\<lparr>fo_issued_at := go_now sur\<rparr>))))))))))"

section \<open>Frame conditions\<close>

lemmas issue_step_defs = issue_evidence_def lookup_vehicle_def check_duplicate_def lookup_license_def

lemma tx_issue_evidence: "keeps same_tx (issue_evidence s sur c fid device ke)"
  by (cases ke) (auto simp: issue_evidence_def intro!: db_tx_steps)

lemma tx_issue_tx: "keeps same_tx (issue_tx s sur ctx c inp)"
  unfolding issue_tx_def lookup_vehicle_def check_duplicate_def lookup_license_def
  by (intro db_tx_steps tx_issue_evidence)

lemma sw_issue_evidence: "stops_with refusal (issue_evidence s sur c fid device ke)"
  by (cases ke) (auto simp: issue_evidence_def intro!: db_sw_steps)

lemma sw_issue_tx: "stops_with refusal (issue_tx s sur ctx c inp)"
  unfolding issue_tx_def lookup_vehicle_def check_duplicate_def lookup_license_def
  by (intro db_sw_steps sw_issue_evidence) simp_all

lemma sw_issue: "stops_with refusal (issue a sur ctx c body)"
  unfolding issue_def by (intro db_sw_steps sw_issue_tx) simp_all

lemma iso_issue_evidence: "keeps (isolated t) (issue_evidence (TenantSession t) sur c fid device ke)"
  by (cases ke) (auto simp: issue_evidence_def intro!: db_iso_steps frame_intros)

lemma iso_issue_tx: "keeps (isolated t) (issue_tx (TenantSession t) sur ctx c inp)"
  unfolding issue_tx_def lookup_vehicle_def check_duplicate_def lookup_license_def
  by (intro db_iso_steps frame_intros iso_issue_evidence)

lemma iso_issue:
  assumes "fa_pool a = SubjectToRls"
  shows "keeps (isolated (c_tenant c)) (issue a sur ctx c body)"
  unfolding issue_def assms session_of.simps by (intro db_iso_steps frame_intros iso_issue_tx)

lemma at_issue: "atomic (issue a sur ctx c body)"
  unfolding issue_def
  by (intro at_bind at_andthen at_last at_in_tx db_rd_steps tx_issue_tx db_sw_steps)

section \<open>What a created fine is\<close>

lemma issue_evidence_run:
  assumes "issue_evidence s sur c fid device (k, e) w = (Inr u, w')"
  obtains ten n where "child_tenant s fid (w_db w) = Some ten" "fines (w_db w') = fines (w_db w)"
    "w_db w' = (w_db w)\<lparr>
       evidence := evidence (w_db w) @ [evidence_row_of (new_uuid sur k) ten fid e],
       custody := custody (w_db w) @ [captured_row sur c fid device n (new_uuid sur k) e]\<rparr>"
  using assms
  by (auto simp: issue_evidence_def table_simps elim!: run_elims insert_evidence_InrD)

lemma issue_evidence_loop:
  assumes "for_each (issue_evidence s sur c fid device) (List.enumerate k es) w = (Inr u, w')"
    and "child_tenant s fid (w_db w) = Some ten"
  shows "\<exists>rows cs. w_db w' = (w_db w)\<lparr>evidence := evidence (w_db w) @ rows, custody := custody (w_db w) @ cs\<rparr>
    \<and> rows = map (\<lambda>(i, e). evidence_row_of (new_uuid sur i) ten fid e) (List.enumerate k es)
    \<and> list_all2 (\<lambda>cu (i, e). \<exists>n. cu = captured_row sur c fid device n (new_uuid sur i) e) cs (List.enumerate k es)"
  using assms
proof (induction es arbitrary: k w)
  case Nil
  then show ?case by simp
next
  case (Cons e es)
  from Cons.prems(1) obtain w1 x where
    one: "issue_evidence s sur c fid device (k, e) w = (Inr x, w1)" and
    rest: "for_each (issue_evidence s sur c fid device) (List.enumerate (Suc k) es) w1 = (Inr u, w')"
    by (auto elim: andthenE)
  from one Cons.prems(2) obtain n where fines1: "fines (w_db w1) = fines (w_db w)" and
    db1: "w_db w1 = (w_db w)\<lparr>
       evidence := evidence (w_db w) @ [evidence_row_of (new_uuid sur k) ten fid e],
       custody := custody (w_db w) @ [captured_row sur c fid device n (new_uuid sur k) e]\<rparr>"
    by (auto elim: issue_evidence_run)
  from fines1 Cons.prems(2) have "child_tenant s fid (w_db w1) = Some ten"
    by (simp add: child_tenant_def)
  from Cons.IH [OF rest this] obtain rows cs where
    "w_db w' = (w_db w1)\<lparr>evidence := evidence (w_db w1) @ rows, custody := custody (w_db w1) @ cs\<rparr>"
    "rows = map (\<lambda>(i, e). evidence_row_of (new_uuid sur i) ten fid e) (List.enumerate (Suc k) es)"
    "list_all2 (\<lambda>cu (i, e). \<exists>n. cu = captured_row sur c fid device n (new_uuid sur i) e) cs (List.enumerate (Suc k) es)"
    by blast
  with db1 show ?case
    by (intro exI [of _ "evidence_row_of (new_uuid sur k) ten fid e # rows"]
        exI [of _ "captured_row sur c fid device n (new_uuid sur k) e # cs"]) auto
qed

lemma lookup_vehicle_run:
  assumes "lookup_vehicle s plate w = (Inr vid, w')"
  obtains "vid = map_option v_id (vehicle_by_plate s plate (w_db w))" "w_db w' = w_db w"
    "w_seq w' = w_seq w" "w_log w' = w_log w"
  using assms unfolding lookup_vehicle_def
  by (elim bindE exec_try_cases)
    (auto simp: query_row_def split: option.splits if_splits intro: that)

lemma lookup_license_run:
  assumes "lookup_license s number w = (Inr lid, w')"
  obtains "w_db w' = w_db w" "lid = None \<longleftrightarrow> number \<in> {None, Some []}"
    "\<And>i. lid = Some i \<Longrightarrow> \<exists>n l. number = Some n \<and> license_by_number s n (w_db w) = Some l \<and> l_id l = i"
  using assms by (auto simp: lookup_license_def split: option.splits if_splits elim!: run_elims intro: that)

lemma check_duplicate_run:
  assumes "check_duplicate s sur vid code window w = (Inr u, w')"
  obtains "w_db w' = w_db w"
    "\<And>v f. vid = Some v \<Longrightarrow> f \<in> set (fines (w_db w)) \<Longrightarrow> sees s (f_tenant f) \<Longrightarrow> \<not> is_duplicate (db_now sur) v code window f"
  using assms
  by (auto simp: check_duplicate_def dup_count_def filter_empty_conv table_simps split: option.splits
      elim!: run_elims intro: that)

lemma issue_tx_run:
  assumes run: "issue_tx s sur ctx c inp w = (Inr f, w')"
  obtains off vid lid rows cs n where
    "active_offence s (ir_offence_code inp) (w_db w) = Some off"
    "vid = map_option v_id (vehicle_by_plate s (ir_plate inp) (w_db w))"
    "\<And>v g. vid = Some v \<Longrightarrow> g \<in> set (fines (w_db w)) \<Longrightarrow> sees s (f_tenant g)
        \<Longrightarrow> \<not> is_duplicate (db_now sur) v (ir_offence_code inp) (ro_dup_window_min off) g"
    "lid = None \<longleftrightarrow> ir_driver_license inp \<in> {None, Some []}"
    "f = new_fine sur c inp vid off lid" "sees s (c_tenant c)"
    "\<forall>old\<in>set (fines (w_db w)). f_id old \<noteq> f_id f"
    "w_db w' = (w_db w)\<lparr>fines := fines (w_db w) @ [f], evidence := evidence (w_db w) @ rows,
       custody := custody (w_db w) @ cs,
       outbox := outbox (w_db w) @ [outbox_row_of sur n (fine_issued_event sur ctx c inp f)]\<rparr>"
    "rows = map (\<lambda>(i, e). evidence_row_of (new_uuid sur i) (c_tenant c) (f_id f) e) (List.enumerate 2 (ir_evidence inp))"
    "list_all2 (\<lambda>cu (i, e). \<exists>n. cu = captured_row sur c (f_id f) (ir_device_id inp) n (new_uuid sur i) e) cs
       (List.enumerate 2 (ir_evidence inp))"
proof -
  from run obtain vid w1 off w2 u1 w3 lid w4 fid w5 u2 w6 u3 w7 where
    veh: "lookup_vehicle s (ir_plate inp) w = (Inr vid, w1)" and
    offq: "exec_or (no_rows_or (Err 400 ''unknown_offence'') (Internal :: fines_body response))
      (query_row (active_offence s (ir_offence_code inp))) w1 = (Inr off, w2)" and
    dup: "check_duplicate s sur vid (ir_offence_code inp) (ro_dup_window_min off) w2 = (Inr u1, w3)" and
    lic: "lookup_license s (ir_driver_license inp) w3 = (Inr lid, w4)" and
    insq: "(exec (insert_fine s (new_fine sur c inp vid off lid)) :: (fines_body, uuid) handler) w4 = (Inr fid, w5)" and
    loop: "for_each (issue_evidence s sur c fid (ir_device_id inp)) (List.enumerate 2 (ir_evidence inp)) w5 = (Inr u2, w6)" and
    outq: "WriteOutbox (Internal :: fines_body response) s sur (fine_issued_event sur ctx c inp (new_fine sur c inp vid off lid)) w6 = (Inr u3, w7)" and
    fin: "(ret (new_fine sur c inp vid off lid) :: (fines_body, fine_row) handler) w7 = (Inr f, w')"
    unfolding issue_tx_def Let_def by (elim bindE andthenE) (rule that)
  from fin have f: "f = new_fine sur c inp vid off lid" and w': "w' = w7" by simp_all
  from offq have off: "active_offence s (ir_offence_code inp) (w_db w1) = Some off" and db2: "w_db w2 = w_db w1"
    by (auto elim!: exec_orE)
  from insq have ins: "insert_fine s f (w_db w4) = Inr (fid, w_db w5)"
    by (auto simp: f elim!: exec_orE)
  from outq have out: "WriteOutbox (Internal :: fines_body response) s sur (fine_issued_event sur ctx c inp f) w6 = (Inr (), w')"
    by (simp add: f w')
  have same: "w_db w1 = w_db w" "w_db w3 = w_db w2" "w_db w4 = w_db w3"
    using lookup_vehicle_run [OF veh] check_duplicate_run [OF dup] lookup_license_run [OF lic] by metis+
  with db2 have db4: "w_db w4 = w_db w" by simp
  from ins have seen: "sees s (f_tenant f)" and fresh: "\<forall>old\<in>set (fines (w_db w)). f_id old \<noteq> f_id f"
    and fid: "fid = f_id f" and db5: "w_db w5 = (w_db w)\<lparr>fines := fines (w_db w) @ [f]\<rparr>"
    by (simp_all add: table_simps db4)
  have ten: "f_tenant f = c_tenant c" by (simp add: f new_fine_def)
  from fresh seen have "child_tenant s fid (w_db w5) = Some (c_tenant c)"
    by (simp add: child_tenant_def db5 fid row_seen_appended ten)
  from issue_evidence_loop [OF loop this] obtain rows cs where
    db6: "w_db w6 = (w_db w5)\<lparr>evidence := evidence (w_db w5) @ rows, custody := custody (w_db w5) @ cs\<rparr>" and
    rows: "rows = map (\<lambda>(i, e). evidence_row_of (new_uuid sur i) (c_tenant c) fid e) (List.enumerate 2 (ir_evidence inp))" and
    cs: "list_all2 (\<lambda>cu (i, e). \<exists>n. cu = captured_row sur c fid (ir_device_id inp) n (new_uuid sur i) e) cs
       (List.enumerate 2 (ir_evidence inp))"
    by blast
  from out obtain n where "w_db w' = (w_db w6)\<lparr>outbox := outbox (w_db w6)
      @ [outbox_row_of sur n (fine_issued_event sur ctx c inp f)]\<rparr>"
    by (elim WriteOutboxE) simp
  then have db': "w_db w' = (w_db w)\<lparr>fines := fines (w_db w) @ [f], evidence := evidence (w_db w) @ rows,
       custody := custody (w_db w) @ cs,
       outbox := outbox (w_db w) @ [outbox_row_of sur n (fine_issued_event sur ctx c inp f)]\<rparr>"
    by (simp add: db6 db5)
  show thesis
  proof (rule that [where off = off and vid = vid and lid = lid and rows = rows and cs = cs and n = n])
    show "active_offence s (ir_offence_code inp) (w_db w) = Some off" using off same by simp
    show "vid = map_option v_id (vehicle_by_plate s (ir_plate inp) (w_db w))"
      using lookup_vehicle_run [OF veh] by metis
    show "\<not> is_duplicate (db_now sur) v (ir_offence_code inp) (ro_dup_window_min off) g"
      if "vid = Some v" "g \<in> set (fines (w_db w))" "sees s (f_tenant g)" for v g
      using check_duplicate_run [OF dup] that same db2 by metis
    show "lid = None \<longleftrightarrow> ir_driver_license inp \<in> {None, Some []}"
      using lookup_license_run [OF lic] by metis
  qed (use seen fresh f ten db' rows cs fid in simp_all)
qed

lemma issue_run:
  assumes "issue a sur ctx c body w = (Inr r, w')" and "w_snap w = None"
  obtains inp f w1 w2 where
    "issue_tx (session_of (fa_pool a) (c_tenant c)) sur ctx c inp w1 = (Inr f, w2)"
    "body = Some inp" "ir_evidence inp \<noteq> []" "list_all evidence_ok (ir_evidence inp)"
    "ir_plate inp \<noteq> []" "w_db w1 = w_db w" "w_db w' = w_db w2" "w_snap w' = None"
    "r = Json 201 (OneFine ((fine_out_of f)\<lparr>fo_issued_at := go_now sur\<rparr>))"
  using assms unfolding issue_def
  by (elim bindE andthenE WithTenantE audit_EmitE, elim in_txE [OF _ _ tx_issue_tx])
    (simp, rule that, assumption, simp_all)

section \<open>A concrete request\<close>

text \<open>One tenant with an officer, an offence and a vehicle: the input of the witnesses.\<close>

definition demo_officer :: claims where
  "demo_officer = \<lparr>c_tenant = ''NO'', c_role = ''officer'', c_permissions = [''fines:create''],
     c_device = ''dev-1'', c_subject = Some 7, c_issued_at = 0, c_expires_at = 0, c_jti = None\<rparr>"

definition demo_user :: user_row where
  "demo_user = \<lparr>u_id = 7, u_tenant = ''NO'', u_email = ''o@no'', u_phone = None,
     u_password_hash = [], u_full_name = ''Officer'', u_is_active = True\<rparr>"

definition demo_offence :: offence_row where
  "demo_offence = \<lparr>ro_tenant = ''NO'', ro_code = ''INS'', ro_base_amount = 50000,
     ro_currency = ''NOK'', ro_dup_window_min = 1440, ro_is_active = True\<rparr>"

definition demo_vehicle :: vehicle_row where
  "demo_vehicle = \<lparr>v_id = 40, v_tenant = ''NO'', v_plate = ''AB1'', v_vin = None, v_make = None,
     v_model = None, v_year = None, v_color = None, v_category = None, v_emission_class = None,
     v_owner_id = Some 30, v_registration_expires_at = None, v_insurance_expires_at = None,
     v_inspection_expires_at = None, v_tax_paid_through = None, v_is_stolen = False,
     v_is_seized = False, v_is_wanted = False, v_updated_at = 0\<rparr>"

definition demo_owner :: owner_row where
  "demo_owner = \<lparr>o_id = 30, o_tenant = ''NO'', o_user_id = Some 8, o_full_name = ''Citizen'',
     o_national_id = None, o_email = None, o_phone = None, o_created_at = 0\<rparr>"

definition demo_db :: db where
  "demo_db = empty_db\<lparr>users := [demo_user], offences := [demo_offence], owners := [demo_owner],
     vehicles := [demo_vehicle]\<rparr>"

definition demo_surroundings :: surroundings where
  "demo_surroundings = \<lparr>go_now = days 20000, db_now = days 20000, new_uuid = (\<lambda>k. 100 + k)\<rparr>"

definition demo_provider :: provider where
  "demo_provider = \<lparr>pv_module = ''payments'', pv_name = ''dev-stub'', pv_region = [],
     pv_create_intent = (\<lambda>_. Some \<lparr>pi_id = ''dev_1'', pi_status = Succeeded, pi_client_secret = []\<rparr>),
     pv_verify_webhook = (\<lambda>_ body. if body = ''signed'' then Some \<lparr>we_intent_id = ''dev_1'', we_status = Succeeded\<rparr> else None)\<rparr>"

definition demo_api :: fines_api where
  "demo_api = \<lparr>fa_pool = SubjectToRls, fa_admin_pool = BypassesRls, fa_audit = ''http://audit'',
     fa_pay = demo_provider, fa_hm = True\<rparr>"

definition demo_ctx :: reqctx where
  "demo_ctx = \<lparr>ctx_claims = Some demo_officer, ctx_trace = ''t1''\<rparr>"

definition demo_issue_req :: issue_req where
  "demo_issue_req = \<lparr>ir_plate = ''AB1'', ir_offence_code = ''INS'', ir_driver_license = None,
     ir_geo_lat = 0, ir_geo_lng = 0, ir_geo_accuracy = 0, ir_device_id = ''dev-1'', ir_notes = [],
     ir_evidence = [\<lparr>ei_kind = ''photo'', ei_s3_key = ''k1'', ei_sha256 = ''h1'', ei_bytes = 10,
       ei_taken_at = days 19999\<rparr>]\<rparr>"

definition demo_issued :: "fines_body response \<times> dbworld" where
  "demo_issued = finish (issue demo_api demo_surroundings demo_ctx demo_officer (Some demo_issue_req))
     (world_of demo_db)"

lemma demo_issued_status: "status_of (fst demo_issued) = 201"
  by code_simp

section \<open>Properties\<close>

lemma issue_answers:
  assumes "finish (issue a sur ctx c body) w = (r, w')"
  obtains (created) "issue a sur ctx c body w = (Inr r, w')"
  | (refused) "issue a sur ctx c body w = (Inl r, w')" "refusal r"
  using assms stops_withD [OF sw_issue]
  by (fastforce simp: finish_def split: prod.splits sum.splits)

lemma issue_created_run:
  assumes "finish (issue a sur ctx c body) w = (r, w')" and "status_of r = 201" and "w_snap w = None"
  obtains inp f w1 w2 where
    "issue_tx (session_of (fa_pool a) (c_tenant c)) sur ctx c inp w1 = (Inr f, w2)"
    "body = Some inp" "ir_evidence inp \<noteq> []" "list_all evidence_ok (ir_evidence inp)"
    "w_db w1 = w_db w" "w_db w' = w_db w2"
  using assms(1)
proof (cases rule: issue_answers)
  case created
  from issue_run [OF this assms(3)] that show thesis by metis
next
  case refused
  with assms(2) show thesis by (simp add: refusal_def)
qed

text \<open>
  A fine that is answered as created is the one the regulation prescribes: the body had
  valid evidence, the offence is active for the caller's session and its amount and currency
  are the fine's (the officer does not choose them), the fine belongs to the caller's tenant
  and names the caller as issuer, starts as issued at stage 0, and is due 14 days later.
\<close>

theorem issue_takes_amount_from_regulation:
  assumes "finish (issue a sur ctx c body) w = (r, w')" and "status_of r = 201" and "w_snap w = None"
  shows "\<exists>inp off f. body = Some inp \<and> ir_evidence inp \<noteq> [] \<and> (\<forall>e\<in>set (ir_evidence inp). evidence_ok e)
    \<and> off \<in> set (offences (w_db w)) \<and> sees (session_of (fa_pool a) (c_tenant c)) (ro_tenant off)
    \<and> ro_code off = ir_offence_code inp \<and> ro_is_active off
    \<and> fines (w_db w') = fines (w_db w) @ [f]
    \<and> f_amount f = ro_base_amount off \<and> f_currency f = ro_currency off
    \<and> f_tenant f = c_tenant c \<and> f_issued_by f = subject_or_nil c \<and> f_plate f = ir_plate inp
    \<and> f_status f = Issued \<and> f_stage f = 0 \<and> f_due_at f = go_now sur + days 14"
proof -
  from issue_created_run [OF assms] obtain inp f w1 w2 where
    body: "body = Some inp" "ir_evidence inp \<noteq> []" "list_all evidence_ok (ir_evidence inp)" and
    tx: "issue_tx (session_of (fa_pool a) (c_tenant c)) sur ctx c inp w1 = (Inr f, w2)" and
    dbs: "w_db w1 = w_db w" "w_db w' = w_db w2"
    by metis
  from tx show ?thesis
    by (rule issue_tx_run)
      (use body dbs in \<open>auto simp: new_fine_def active_offence_def list_all_iff dest!: row_seen_SomeD\<close>)
qed

theorem issue_takes_amount_from_regulation_witness:
  "\<exists>f. fines (w_db (snd demo_issued)) = fines demo_db @ [f] \<and> f_amount f = 50000 \<and> f_status f = Issued"
  using issue_takes_amount_from_regulation [of demo_api demo_surroundings demo_ctx demo_officer
      "Some demo_issue_req" "world_of demo_db" "fst demo_issued" "snd demo_issued"] demo_issued_status
  by (auto simp: demo_issued_def world_of_def demo_db_def demo_offence_def)

text \<open>C1
  What a created fine leaves in the database, as one equation: besides the fine, one evidence
  row per item of the body with its hash and key, one custody row \<open>captured\<close> by the caller
  for each of them, and one outbox row holding the \<open>fine.issued\<close> event. Nothing else changes.
\<close>

theorem issue_writes_evidence_custody_and_event:
  assumes "finish (issue a sur ctx c body) w = (r, w')" and "status_of r = 201" and "w_snap w = None"
  shows "\<exists>inp f rows cs n. body = Some inp \<and>
    w_db w' = (w_db w)\<lparr>fines := fines (w_db w) @ [f], evidence := evidence (w_db w) @ rows,
      custody := custody (w_db w) @ cs,
      outbox := outbox (w_db w) @ [outbox_row_of sur n (fine_issued_event sur ctx c inp f)]\<rparr>
    \<and> map (\<lambda>e. (fe_kind e, fe_s3_key e, fe_sha256 e, fe_taken_at e)) rows
       = map (\<lambda>e. (ei_kind e, ei_s3_key e, ei_sha256 e, ei_taken_at e)) (ir_evidence inp)
    \<and> list_all (\<lambda>e. fe_fine_id e = f_id f \<and> fe_tenant e = c_tenant c \<and> fe_sealed_at e = None) rows
    \<and> list_all2 (\<lambda>cu e. cu_evidence_id cu = fe_id e \<and> cu_fine_id cu = f_id f \<and> cu_action cu = ''captured''
         \<and> cu_actor_user cu = Some (subject_or_nil c) \<and> (''sha256'', fe_sha256 e) \<in> set (cu_details cu)) cs rows"
proof -
  from issue_created_run [OF assms] obtain inp f w1 w2 where
    body: "body = Some inp" and
    tx: "issue_tx (session_of (fa_pool a) (c_tenant c)) sur ctx c inp w1 = (Inr f, w2)" and
    dbs: "w_db w1 = w_db w" "w_db w' = w_db w2"
    by metis
  from tx obtain rows cs n where
    db: "w_db w2 = (w_db w1)\<lparr>fines := fines (w_db w1) @ [f], evidence := evidence (w_db w1) @ rows,
       custody := custody (w_db w1) @ cs,
       outbox := outbox (w_db w1) @ [outbox_row_of sur n (fine_issued_event sur ctx c inp f)]\<rparr>" and
    rows: "rows = map (\<lambda>(i, e). evidence_row_of (new_uuid sur i) (c_tenant c) (f_id f) e) (List.enumerate 2 (ir_evidence inp))" and
    cs: "list_all2 (\<lambda>cu (i, e). \<exists>n. cu = captured_row sur c (f_id f) (ir_device_id inp) n (new_uuid sur i) e) cs
       (List.enumerate 2 (ir_evidence inp))"
    by (rule issue_tx_run)
  have "list_all2 (\<lambda>cu e. cu_evidence_id cu = fe_id e \<and> cu_fine_id cu = f_id f \<and> cu_action cu = ''captured''
         \<and> cu_actor_user cu = Some (subject_or_nil c) \<and> (''sha256'', fe_sha256 e) \<in> set (cu_details cu)) cs rows"
    unfolding rows list.rel_map
    by (rule list_all2_mono [OF cs]) (auto simp: captured_row_def evidence_row_of_def)
  moreover have "map (\<lambda>e. (fe_kind e, fe_s3_key e, fe_sha256 e, fe_taken_at e)) rows
       = map (\<lambda>e. (ei_kind e, ei_s3_key e, ei_sha256 e, ei_taken_at e)) (ir_evidence inp)"
    unfolding rows by (rule nth_equalityI) (auto simp: nth_enumerate_eq evidence_row_of_def)
  moreover have "list_all (\<lambda>e. fe_fine_id e = f_id f \<and> fe_tenant e = c_tenant c \<and> fe_sealed_at e = None) rows"
    by (auto simp: rows list_all_iff evidence_row_of_def)
  ultimately show ?thesis using body db dbs
    by (intro exI [of _ inp] exI [of _ f] exI [of _ rows] exI [of _ cs] exI [of _ n]) simp
qed

theorem issue_writes_evidence_custody_and_event_witness:
  "\<exists>rows cs. evidence (w_db (snd demo_issued)) = rows \<and> custody (w_db (snd demo_issued)) = cs
     \<and> map fe_sha256 rows = [''h1''] \<and> length cs = 1 \<and> list_all (\<lambda>cu. cu_action cu = ''captured'') cs"
proof -
  have "finish (issue demo_api demo_surroundings demo_ctx demo_officer (Some demo_issue_req)) (world_of demo_db)
      = (fst demo_issued, snd demo_issued)"
    by (simp add: demo_issued_def)
  from issue_writes_evidence_custody_and_event [OF this demo_issued_status]
  obtain inp f rows cs n where inp: "Some demo_issue_req = Some inp" and
    db: "w_db (snd demo_issued) = (w_db (world_of demo_db))\<lparr>fines := fines (w_db (world_of demo_db)) @ [f],
      evidence := evidence (w_db (world_of demo_db)) @ rows, custody := custody (w_db (world_of demo_db)) @ cs,
      outbox := outbox (w_db (world_of demo_db)) @ [outbox_row_of demo_surroundings n
        (fine_issued_event demo_surroundings demo_ctx demo_officer inp f)]\<rparr>" and
    rows: "map (\<lambda>e. (fe_kind e, fe_s3_key e, fe_sha256 e, fe_taken_at e)) rows
       = map (\<lambda>e. (ei_kind e, ei_s3_key e, ei_sha256 e, ei_taken_at e)) (ir_evidence inp)" and
    cs: "list_all2 (\<lambda>cu e. cu_evidence_id cu = fe_id e \<and> cu_fine_id cu = f_id f \<and> cu_action cu = ''captured''
         \<and> cu_actor_user cu = Some (subject_or_nil demo_officer) \<and> (''sha256'', fe_sha256 e) \<in> set (cu_details cu)) cs rows"
    unfolding world_of_def by auto
  from rows inp obtain e where "rows = [e]" "fe_sha256 e = ''h1''"
    by (auto simp: demo_issue_req_def)
  moreover from cs this obtain cu where "cs = [cu]" "cu_action cu = ''captured''"
    by (auto simp: list_all2_Cons2)
  moreover from db have "evidence (w_db (snd demo_issued)) = rows" "custody (w_db (snd demo_issued)) = cs"
    by (simp_all add: world_of_def demo_db_def empty_db_def)
  ultimately show ?thesis by simp
qed

text \<open>
  Issuing is all or nothing: whatever fails, the validation, a lookup, any statement of the
  transaction or its commit, an answer other than 201 leaves the database as it was.
\<close>

lemma issue_all_or_nothing:
  assumes "finish (issue a sur ctx c body) w = (r, w')" and "w_snap w = None" and "status_of r \<noteq> 201"
  shows "w_db w' = w_db w"
  using assms(1)
proof (cases rule: issue_answers)
  case created
  then show ?thesis by (rule issue_run [OF _ assms(2)]) (use assms(3) in simp)
next
  case refused
  from atomicD [OF at_issue assms(2) refused(1)] show ?thesis by simp
qed

definition demo_broken :: dbworld where
  "demo_broken = (world_of demo_db)\<lparr>w_faults := replicate 7 False @ [True]\<rparr>"

text \<open>C2
  No duplicates: when a fine is created for a vehicle the session knows by its plate, the
  session sees no fine of that vehicle for the same offence that is not cancelled and was
  issued within the offence's duplicate window.
\<close>

theorem issue_rejects_duplicates:
  assumes "finish (issue a sur ctx c body) w = (r, w')" and "status_of r = 201" and "w_snap w = None"
    and "body = Some inp"
    and "vehicle_by_plate (session_of (fa_pool a) (c_tenant c)) (ir_plate inp) (w_db w) = Some v"
    and "active_offence (session_of (fa_pool a) (c_tenant c)) (ir_offence_code inp) (w_db w) = Some off"
    and "g \<in> set (fines (w_db w))" and "sees (session_of (fa_pool a) (c_tenant c)) (f_tenant g)"
    and "f_vehicle_id g = Some (v_id v)" and "f_offence_code g = ir_offence_code inp" and "f_status g \<noteq> Cancelled"
  shows "f_issued_at g \<le> db_now sur - minutes (ro_dup_window_min off)"
proof -
  from issue_created_run [OF assms(1-3)] assms(4) obtain f w1 w2 where
    tx: "issue_tx (session_of (fa_pool a) (c_tenant c)) sur ctx c inp w1 = (Inr f, w2)" and
    db: "w_db w1 = w_db w"
    by (metis option.inject)
  from tx show ?thesis
    by (rule issue_tx_run) (use assms db in \<open>auto simp: is_duplicate_def not_less\<close>)
qed

definition demo_old_fine :: fine_row where
  "demo_old_fine = \<lparr>f_id = 1, f_tenant = ''NO'', f_vehicle_id = Some 40, f_plate = ''AB1'',
     f_driver_user_id = None, f_driver_license_id = None, f_offence_code = ''INS'', f_amount = 50000,
     f_currency = ''NOK'', f_status = Issued, f_issued_by = 7, f_issued_at = days 19990,
     f_device_id = ''dev-1'', f_geo_lat = 0, f_geo_lng = 0, f_geo_accuracy = 0,
     f_due_at = days 20004, f_paid_at = None, f_stage = 0, f_notes = None\<rparr>"

theorem issue_rejects_duplicates_witness:
  "f_issued_at demo_old_fine \<le> db_now demo_surroundings - minutes (ro_dup_window_min demo_offence)"
proof -
  let ?w = "world_of (demo_db\<lparr>fines := [demo_old_fine]\<rparr>)"
  let ?run = "finish (issue demo_api demo_surroundings demo_ctx demo_officer (Some demo_issue_req)) ?w"
  have ok: "status_of (fst ?run) = 201" by code_simp
  have veh: "vehicle_by_plate (session_of (fa_pool demo_api) (c_tenant demo_officer)) (ir_plate demo_issue_req) (w_db ?w)
      = Some demo_vehicle"
    by (simp add: vehicle_by_plate_def row_seen_def demo_api_def demo_officer_def demo_issue_req_def
        world_of_def demo_db_def demo_vehicle_def)
  have off: "active_offence (session_of (fa_pool demo_api) (c_tenant demo_officer)) (ir_offence_code demo_issue_req) (w_db ?w)
      = Some demo_offence"
    by (simp add: active_offence_def row_seen_def demo_api_def demo_officer_def demo_issue_req_def
        world_of_def demo_db_def demo_offence_def)
  show ?thesis
    by (rule issue_rejects_duplicates [of demo_api _ demo_ctx demo_officer "Some demo_issue_req" ?w
            "fst ?run" "snd ?run", OF _ ok _ _ veh off])
      (simp_all add: world_of_def demo_old_fine_def demo_api_def demo_officer_def demo_vehicle_def demo_issue_req_def)
qed

end
