(* ===== verification/FinesDispute.thy ===== *)
theory FinesDispute
  imports FinesIssue
begin

text \<open>
  Disputes and cancellation (\<open>dispute\<close>, \<open>listDisputes\<close>, \<open>resolveDispute\<close>, \<open>cancel\<close> in
  \<open>services/fines/internal/api/api.go\<close>).
\<close>

section \<open>Statements\<close>

definition dispute_row_of :: "surroundings \<Rightarrow> uuid \<Rightarrow> string \<Rightarrow> uuid \<Rightarrow> uuid \<Rightarrow> string \<Rightarrow> dispute_row" where
  "dispute_row_of sur did ten fid user reason =
     \<lparr>d_id = did, d_tenant = ten, d_fine_id = fid, d_filed_by = user, d_reason = reason,
      d_status = DPending, d_resolution = None, d_filed_at = db_now sur, d_resolved_at = None\<rparr>"

definition insert_dispute :: "session \<Rightarrow> surroundings \<Rightarrow> uuid \<Rightarrow> uuid \<Rightarrow> string \<Rightarrow> uuid \<Rightarrow> db \<Rightarrow> sqlerr + unit \<times> db" where
  "insert_dispute s sur did fid reason user d =
     (case child_tenant s fid d of
        None \<Rightarrow> Inl CheckViolation
      | Some ten \<Rightarrow>
          if \<not> list_ex (\<lambda>u. u_id u = user) (users d) then Inl ForeignKeyViolation
          else case insert_row d_tenant s (\<lambda>old new. d_id old = d_id new)
                      (dispute_row_of sur did ten fid user reason) (disputes d) of
                 Inl e \<Rightarrow> Inl e
               | Inr rows \<Rightarrow> Inr ((), d\<lparr>disputes := rows\<rparr>))"

definition fine_and_ownership :: "session \<Rightarrow> uuid \<Rightarrow> uuid \<Rightarrow> db \<Rightarrow> (fine_row \<times> bool) option" where
  "fine_and_ownership s fid user d = map_option (\<lambda>f. (f, owns_fine s user f d)) (fine_seen s fid d)"

section \<open>\<open>POST /v1/fines/{id}/dispute\<close>\<close>

definition dispute_tx :: "session \<Rightarrow> surroundings \<Rightarrow> reqctx \<Rightarrow> claims \<Rightarrow> uuid \<Rightarrow> string \<Rightarrow> (fines_body, unit) handler" where
  "dispute_tx s sur ctx c fid reason =
     bind (exec_or (no_rows_or (write_err ErrNotFound) Internal)
             (subject_param c (\<lambda>user. query_row (fine_and_ownership s fid user)))) (\<lambda>(f, owned).
     andthen (guard owned (write_err ErrForbidden)) (
     andthen (guard (\<not> (f_status f = Paid \<or> f_status f = Cancelled \<or> f_status f = Disputed)) (Err 409 ''not_disputable'')) (
     andthen (exec (subject_param c (insert_dispute s sur (new_uuid sur 0) fid reason))) (
     andthen (exec (change (update_fine s fid (f_status_update (\<lambda>_. Disputed))))) (
     WriteOutbox Internal s sur
       (EnvelopeFromContext sur ctx (new_uuid sur 1) ''fines'' (c_tenant c) TypeFineDisputed 1
         (FineDisputed fid (c_subject c) reason)))))))"

definition dispute :: "fines_api \<Rightarrow> surroundings \<Rightarrow> reqctx \<Rightarrow> claims \<Rightarrow> uuid option \<Rightarrow> string option \<Rightarrow> fines_handler" where
  "dispute a sur ctx c fine body =
     (case fine of
        None \<Rightarrow> stop (write_err ErrBadRequest)
      | Some fid \<Rightarrow>
          bind (read_json body) (\<lambda>reason.
          andthen (guard (reason \<noteq> []) (Err 400 ''reason_required'')) (
          andthen (WithTenant (Some c)) (
          bind (in_tx Internal (dispute_tx (session_of (fa_pool a) (c_tenant c)) sur ctx c fid reason)) (\<lambda>_.
          andthen (audit_Emit (fa_audit a) ''fines'' (Some c) ''fine.dispute'' ''fine'' fid) (
          ret (Status 201)))))))"

section \<open>\<open>GET /v1/fines/disputes\<close>\<close>

fun dispute_status_text :: "dispute_status \<Rightarrow> string" where
  "dispute_status_text DPending = ''pending''"
| "dispute_status_text DAccepted = ''accepted''"
| "dispute_status_text DRejected = ''rejected''"
| "dispute_status_text DCourt = ''court''"

definition dispute_item_of :: "dispute_row \<Rightarrow> fine_row \<Rightarrow> dispute_item" where
  "dispute_item_of r f =
     \<lparr>di_id = d_id r, di_fine_id = d_fine_id r, di_plate = f_plate f, di_offence_code = f_offence_code f,
      di_amount = f_amount f, di_currency = f_currency f, di_filed_by = d_filed_by r,
      di_reason = d_reason r, di_status = d_status r, di_filed_at = d_filed_at r,
      di_resolution = d_resolution r, di_resolved_at = d_resolved_at r\<rparr>"

definition disputes_with_status :: "session \<Rightarrow> string \<Rightarrow> db \<Rightarrow> dispute_item list" where
  "disputes_with_status s status d =
     take 200 (sort_key (\<lambda>it. - di_filed_at it)
       (List.map_filter (\<lambda>r. if dispute_status_text (d_status r) = status
                             then map_option (dispute_item_of r) (fine_seen s (d_fine_id r) d) else None)
         (rows_seen d_tenant s (disputes d))))"

definition listDisputes :: "fines_api \<Rightarrow> claims \<Rightarrow> string \<Rightarrow> fines_handler" where
  "listDisputes a c status_param =
     (let status = (if status_param = [] then ''pending'' else status_param) in
      andthen (WithTenant (Some c)) (
      bind (exec (query (disputes_with_status (session_of (fa_pool a) (c_tenant c)) status))) (\<lambda>items.
      ret (Json 200 (DisputeItems items)))))"

section \<open>\<open>POST /v1/fines/{id}/disputes/{did}/resolve\<close>\<close>

record resolve_req =
  rr_outcome :: string
  rr_note :: string

definition outcomes :: "(string \<times> dispute_status \<times> fine_status) list" where
  "outcomes = [(''accepted'', DAccepted, Cancelled), (''rejected'', DRejected, Issued), (''court'', DCourt, Court)]"

definition dispute_of_fine :: "session \<Rightarrow> uuid \<Rightarrow> uuid \<Rightarrow> db \<Rightarrow> dispute_row option" where
  "dispute_of_fine s did fid d = row_seen d_tenant s (\<lambda>r. d_id r = did \<and> d_fine_id r = fid) (disputes d)"

definition close_dispute :: "session \<Rightarrow> uuid \<Rightarrow> dispute_status \<Rightarrow> string \<Rightarrow> time \<Rightarrow> db \<Rightarrow> db" where
  "close_dispute s did st note now d = d\<lparr>disputes := update_rows d_tenant s (\<lambda>r. d_id r = did)
     (\<lambda>r. r\<lparr>d_status := st, d_resolution := (if note = [] then None else Some note), d_resolved_at := Some now\<rparr>)
     (disputes d)\<rparr>"

definition resolve_tx ::
    "session \<Rightarrow> surroundings \<Rightarrow> reqctx \<Rightarrow> claims \<Rightarrow> uuid \<Rightarrow> uuid \<Rightarrow> resolve_req \<Rightarrow> dispute_status \<times> fine_status \<Rightarrow> (fines_body, unit) handler" where
  "resolve_tx s sur ctx c fid did inp verdict =
     bind (exec_or (no_rows_or (write_err ErrNotFound) Internal) (query_row (dispute_of_fine s did fid))) (\<lambda>r.
     andthen (guard (d_status r = DPending) (Err 409 ''already_resolved'')) (
     andthen (exec (change (close_dispute s did (fst verdict) (rr_note inp) (db_now sur)))) (
     andthen (exec (change (update_fine s fid (f_status_update (\<lambda>_. snd verdict))))) (
     if rr_outcome inp = ''accepted''
     then WriteOutbox Internal s sur
            (EnvelopeFromContext sur ctx (new_uuid sur 0) ''fines'' (c_tenant c) TypeFineCancelled 1
              (FineCancelled fid (''dispute upheld: '' @ rr_note inp)))
     else ret ()))))"

definition resolveDispute ::
    "fines_api \<Rightarrow> surroundings \<Rightarrow> reqctx \<Rightarrow> claims \<Rightarrow> uuid option \<Rightarrow> uuid option \<Rightarrow> resolve_req option \<Rightarrow> fines_handler" where
  "resolveDispute a sur ctx c fine disp body =
     (case fine of
        None \<Rightarrow> stop (write_err ErrBadRequest)
      | Some fid \<Rightarrow>
     (case disp of
        None \<Rightarrow> stop (write_err ErrBadRequest)
      | Some did \<Rightarrow>
          bind (read_json body) (\<lambda>inp.
          (case map_of outcomes (rr_outcome inp) of
             None \<Rightarrow> stop (Err 400 ''bad_outcome'')
           | Some verdict \<Rightarrow>
               andthen (WithTenant (Some c)) (
               bind (in_tx Internal (resolve_tx (session_of (fa_pool a) (c_tenant c)) sur ctx c fid did inp verdict)) (\<lambda>_.
               andthen (audit_Emit (fa_audit a) ''fines'' (Some c) ''fine.dispute.resolve'' ''fine_dispute'' did) (
               ret (Status 204))))))))"

section \<open>\<open>POST /v1/fines/{id}/cancel\<close>\<close>

definition cancel_fine :: "string \<Rightarrow> fine_row \<Rightarrow> fine_row" where
  "cancel_fine reason f = f\<lparr>f_status := Cancelled,
     f_notes := Some ((case f_notes f of None \<Rightarrow> [] | Some n \<Rightarrow> n) @ CHR 0x0A # ''CANCELLED: '' @ reason)\<rparr>"

definition cancel_tx :: "session \<Rightarrow> surroundings \<Rightarrow> reqctx \<Rightarrow> claims \<Rightarrow> uuid \<Rightarrow> string \<Rightarrow> (fines_body, unit) handler" where
  "cancel_tx s sur ctx c fid reason =
     andthen (exec (change (update_fine s fid (cancel_fine reason)))) (
     WriteOutbox Internal s sur
       (EnvelopeFromContext sur ctx (new_uuid sur 0) ''fines'' (c_tenant c) TypeFineCancelled 1
         (FineCancelled fid reason)))"

definition cancel :: "fines_api \<Rightarrow> surroundings \<Rightarrow> reqctx \<Rightarrow> claims \<Rightarrow> uuid option \<Rightarrow> string option \<Rightarrow> fines_handler" where
  "cancel a sur ctx c fine body =
     (case fine of
        None \<Rightarrow> stop (write_err ErrBadRequest)
      | Some fid \<Rightarrow>
          bind (read_json body) (\<lambda>reason.
          andthen (guard (reason \<noteq> []) (Err 400 ''reason_required'')) (
          andthen (WithTenant (Some c)) (
          bind (in_tx Internal (cancel_tx (session_of (fa_pool a) (c_tenant c)) sur ctx c fid reason)) (\<lambda>_.
          andthen (audit_Emit (fa_audit a) ''fines'' (Some c) ''fine.cancel'' ''fine'' fid) (
          ret (Status 204)))))))"

section \<open>Frame conditions\<close>

lemma insert_dispute_InrD:
  assumes "insert_dispute s sur did fid reason user d = Inr (u, d')"
  obtains ten where "child_tenant s fid d = Some ten" "sees s ten"
    "d' = d\<lparr>disputes := disputes d @ [dispute_row_of sur did ten fid user reason]\<rparr>"
  using assms
  by (auto simp: insert_dispute_def table_simps dispute_row_of_def split: option.splits if_splits sum.splits)

lemma keeps_outside_insert_dispute [frame_intros]:
  "keeps_outside t (insert_dispute (TenantSession t) sur did fid reason user)"
  by (auto simp: fixed_def outside_def others_def dispute_row_of_def elim!: insert_dispute_InrD)

lemma keeps_outside_close_dispute [frame_intros]:
  "keeps_outside t (change (close_dispute (TenantSession t) did st note now))"
  by (rule fixed_change) (simp add: outside_def close_dispute_def others_update)

lemma status_update_tenant [frame_intros]: "f_tenant (f_status_update g f) = f_tenant f"
  by simp

lemma cancel_fine_tenant [frame_intros]: "f_tenant (cancel_fine reason f) = f_tenant f"
  by (simp add: cancel_fine_def)

lemma tx_dispute_tx: "keeps same_tx (dispute_tx s sur ctx c fid reason)"
  unfolding dispute_tx_def by (intro db_tx_steps)

lemma sw_dispute: "stops_with refusal (dispute a sur ctx c fine body)"
  unfolding dispute_def dispute_tx_def by (intro db_sw_steps) simp_all

lemma iso_dispute:
  assumes "fa_pool a = SubjectToRls"
  shows "keeps (isolated (c_tenant c)) (dispute a sur ctx c fine body)"
  unfolding dispute_def dispute_tx_def assms session_of.simps by (intro db_iso_steps frame_intros)

lemma at_dispute: "atomic (dispute a sur ctx c fine body)"
  unfolding dispute_def
  by (intro at_option at_stop at_bind at_andthen at_last at_in_tx db_rd_steps tx_dispute_tx db_sw_steps)

lemma rd_listDisputes: "keeps same_db (listDisputes a c status)"
  unfolding listDisputes_def by (intro db_rd_steps frame_intros)

lemma sw_listDisputes: "stops_with refusal (listDisputes a c status)"
  unfolding listDisputes_def by (intro db_sw_steps) simp_all

lemma tx_resolve_tx: "keeps same_tx (resolve_tx s sur ctx c fid did inp verdict)"
  unfolding resolve_tx_def by (intro db_tx_steps)

lemma sw_resolveDispute: "stops_with refusal (resolveDispute a sur ctx c fine disp body)"
  unfolding resolveDispute_def resolve_tx_def by (intro db_sw_steps) simp_all

lemma iso_resolveDispute:
  assumes "fa_pool a = SubjectToRls"
  shows "keeps (isolated (c_tenant c)) (resolveDispute a sur ctx c fine disp body)"
  unfolding resolveDispute_def resolve_tx_def assms session_of.simps
  by (intro db_iso_steps frame_intros)

lemma at_resolveDispute: "atomic (resolveDispute a sur ctx c fine disp body)"
  unfolding resolveDispute_def
  by (intro at_option at_stop at_bind at_andthen at_last at_in_tx db_rd_steps tx_resolve_tx db_sw_steps)

lemma tx_cancel_tx: "keeps same_tx (cancel_tx s sur ctx c fid reason)"
  unfolding cancel_tx_def by (intro db_tx_steps)

lemma sw_cancel: "stops_with refusal (cancel a sur ctx c fine body)"
  unfolding cancel_def cancel_tx_def by (intro db_sw_steps) simp_all

lemma iso_cancel:
  assumes "fa_pool a = SubjectToRls"
  shows "keeps (isolated (c_tenant c)) (cancel a sur ctx c fine body)"
  unfolding cancel_def cancel_tx_def assms session_of.simps by (intro db_iso_steps frame_intros)

lemma at_cancel: "atomic (cancel a sur ctx c fine body)"
  unfolding cancel_def
  by (intro at_option at_stop at_bind at_andthen at_last at_in_tx db_rd_steps tx_cancel_tx db_sw_steps)

section \<open>What the transactions do\<close>

lemma dispute_tx_run:
  assumes "dispute_tx s sur ctx c fid reason w = (Inr u, w')"
  obtains user f r n where "c_subject c = Some user" "fine_seen s fid (w_db w) = Some f"
    "owns_fine s user f (w_db w)" "f_status f \<notin> {Paid, Cancelled, Disputed}"
    "d_fine_id r = fid" "d_filed_by r = user" "d_status r = DPending" "d_reason r = reason"
    "w_db w' = (update_fine s fid (f_status_update (\<lambda>_. Disputed)) (w_db w))\<lparr>
       disputes := disputes (w_db w) @ [r],
       outbox := outbox (w_db w) @ [outbox_row_of sur n
         (EnvelopeFromContext sur ctx (new_uuid sur 1) ''fines'' (c_tenant c) TypeFineDisputed 1
           (FineDisputed fid (Some user) reason))]\<rparr>"
proof -
  let ?env = "EnvelopeFromContext sur ctx (new_uuid sur 1) ''fines'' (c_tenant c) TypeFineDisputed 1
           (FineDisputed fid (c_subject c) reason)"
  from assms obtain f owned w1 w2 w3 u1 u2 where
    q: "exec_or (no_rows_or (write_err ErrNotFound) (Internal :: fines_body response))
      (subject_param c (\<lambda>user. query_row (fine_and_ownership s fid user))) w = (Inr (f, owned), w1)" and
    ok: "owned" "f_status f \<notin> {Paid, Cancelled, Disputed}" and
    ins: "(exec (subject_param c (insert_dispute s sur (new_uuid sur 0) fid reason)) :: (fines_body, unit) handler) w1 = (Inr u1, w2)" and
    upd: "(exec (change (update_fine s fid (f_status_update (\<lambda>_. Disputed)))) :: (fines_body, unit) handler) w2 = (Inr u2, w3)" and
    out: "WriteOutbox (Internal :: fines_body response) s sur ?env w3 = (Inr u, w')"
    unfolding dispute_tx_def by (elim bindE andthenE) (auto split: prod.splits elim!: andthenE)
  from exec_db [OF q] obtain user where user: "c_subject c = Some user" and
    seen: "fine_seen s fid (w_db w) = Some f" and own: "owns_fine s user f (w_db w)" and db1: "w_db w1 = w_db w"
    using ok by (auto simp: subject_param_Inr fine_and_ownership_def)
  from exec_db [OF ins] user obtain ten where
    db2: "w_db w2 = (w_db w)\<lparr>disputes := disputes (w_db w) @ [dispute_row_of sur (new_uuid sur 0) ten fid user reason]\<rparr>"
    by (auto simp: subject_param_Inr db1 elim!: insert_dispute_InrD)
  from out obtain n where db': "w_db w' = (w_db w3)\<lparr>outbox := outbox (w_db w3) @ [outbox_row_of sur n ?env]\<rparr>"
    by (rule WriteOutbox_db)
  show thesis
    by (rule that [where n = n and r = "dispute_row_of sur (new_uuid sur 0) ten fid user reason", OF user seen own ok(2)])
      (simp_all add: dispute_row_of_def db' exec_change_db [OF upd] db2 update_fine_def user)
qed

lemma dispute_run:
  assumes "dispute a sur ctx c fine body w = (Inr r, w')" and "w_snap w = None"
  obtains fid reason u w1 w2 where
    "dispute_tx (session_of (fa_pool a) (c_tenant c)) sur ctx c fid reason w1 = (Inr u, w2)"
    "fine = Some fid" "body = Some reason" "reason \<noteq> []" "w_db w1 = w_db w" "w_db w' = w_db w2"
  using assms unfolding dispute_def
  by (cases fine; simp)
    (elim bindE andthenE WithTenantE audit_EmitE, elim in_txE [OF _ _ tx_dispute_tx],
      simp, rule that, assumption, simp_all)

lemma resolve_tx_run:
  assumes "resolve_tx s sur ctx c fid did inp verdict w = (Inr u, w')"
  obtains r obs where "dispute_of_fine s did fid (w_db w) = Some r" "d_status r = DPending"
    "w_db w' = (update_fine s fid (f_status_update (\<lambda>_. snd verdict))
       (close_dispute s did (fst verdict) (rr_note inp) (db_now sur) (w_db w)))\<lparr>outbox := outbox (w_db w) @ obs\<rparr>"
    "length obs = (if rr_outcome inp = ''accepted'' then 1 else 0)"
proof -
  let ?env = "EnvelopeFromContext sur ctx (new_uuid sur 0) ''fines'' (c_tenant c) TypeFineCancelled 1
              (FineCancelled fid (''dispute upheld: '' @ rr_note inp))"
  from assms obtain r w1 w2 w3 u1 u2 where
    q: "exec_or (no_rows_or (write_err ErrNotFound) (Internal :: fines_body response)) (query_row (dispute_of_fine s did fid)) w = (Inr r, w1)" and
    pend: "d_status r = DPending" and
    upd1: "(exec (change (close_dispute s did (fst verdict) (rr_note inp) (db_now sur))) :: (fines_body, unit) handler) w1 = (Inr u1, w2)" and
    upd2: "(exec (change (update_fine s fid (f_status_update (\<lambda>_. snd verdict)))) :: (fines_body, unit) handler) w2 = (Inr u2, w3)" and
    out: "(if rr_outcome inp = ''accepted'' then WriteOutbox (Internal :: fines_body response) s sur ?env else ret ()) w3 = (Inr u, w')"
    unfolding resolve_tx_def by (elim bindE andthenE) auto
  have db3: "w_db w3 = update_fine s fid (f_status_update (\<lambda>_. snd verdict))
       (close_dispute s did (fst verdict) (rr_note inp) (db_now sur) (w_db w))"
    using exec_query_row_db [OF q] exec_change_db [OF upd1] exec_change_db [OF upd2] by simp
  have seen: "dispute_of_fine s did fid (w_db w) = Some r" using exec_query_row_db [OF q] by simp
  show thesis
  proof (cases "rr_outcome inp = ''accepted''")
    case True
    from out [unfolded if_P [OF True]] obtain n where
      "w_db w' = (w_db w3)\<lparr>outbox := outbox (w_db w3) @ [outbox_row_of sur n ?env]\<rparr>" by (rule WriteOutbox_db)
    with True show thesis
      by (intro that [OF seen pend, where obs = "[outbox_row_of sur n ?env]"]) (simp_all add: db3 close_dispute_def)
  next
    case False
    with out show thesis
      by (intro that [OF seen pend, where obs = "[]"]) (simp_all add: db3 close_dispute_def update_fine_def)
  qed
qed

lemma resolve_run:
  assumes "resolveDispute a sur ctx c fine disp body w = (Inr r, w')" and "w_snap w = None"
  obtains fid did inp verdict u w1 w2 where
    "resolve_tx (session_of (fa_pool a) (c_tenant c)) sur ctx c fid did inp verdict w1 = (Inr u, w2)"
    "fine = Some fid" "disp = Some did" "body = Some inp" "map_of outcomes (rr_outcome inp) = Some verdict"
    "w_db w1 = w_db w" "w_db w' = w_db w2"
  using assms unfolding resolveDispute_def
  by (cases fine; cases disp; simp)
    (elim bindE, cases "map_of outcomes (rr_outcome (the body))"; simp add: andthen_def;
      elim bindE WithTenantE audit_EmitE, elim in_txE [OF _ _ tx_resolve_tx],
      simp, rule that, assumption, simp_all)

section \<open>Properties\<close>

text \<open>C8
  Only the citizen concerned can dispute, and only an open fine: an answer 201 means the fine
  is visible to the session, the caller owns its vehicle or is its listed driver, and its
  status was none of paid, cancelled, disputed. One pending dispute by the caller was added,
  the fine is now disputed, and exactly one event was written.
\<close>

theorem dispute_only_by_owner_of_open_fine:
  assumes "finish (dispute a sur ctx c fine body) w = (r, w')" and "status_of r = 201" and "w_snap w = None"
  shows "\<exists>fid user f disp. fine = Some fid \<and> c_subject c = Some user
    \<and> fine_seen (session_of (fa_pool a) (c_tenant c)) fid (w_db w) = Some f
    \<and> owns_fine (session_of (fa_pool a) (c_tenant c)) user f (w_db w)
    \<and> f_status f \<notin> {Paid, Cancelled, Disputed}
    \<and> disputes (w_db w') = disputes (w_db w) @ [disp] \<and> d_fine_id disp = fid \<and> d_filed_by disp = user \<and> d_status disp = DPending
    \<and> fines (w_db w') = update_rows f_tenant (session_of (fa_pool a) (c_tenant c)) (\<lambda>g. f_id g = fid)
         (f_status_update (\<lambda>_. Disputed)) (fines (w_db w))
    \<and> length (outbox (w_db w')) = Suc (length (outbox (w_db w)))"
  using assms(1)
proof (cases rule: finish_cases)
  case stopped
  with stops_withD [OF sw_dispute stopped] assms(2) show ?thesis by (simp add: refusal_def)
next
  case ended
  then obtain fid reason u w1 w2 where
    tx: "dispute_tx (session_of (fa_pool a) (c_tenant c)) sur ctx c fid reason w1 = (Inr u, w2)" and
    fine: "fine = Some fid" and dbs: "w_db w1 = w_db w" "w_db w' = w_db w2"
    by (rule dispute_run [OF _ assms(3)])
  show ?thesis
    by (rule dispute_tx_run [OF tx]) (use fine dbs in auto)
qed

definition demo_owner_claims :: claims where
  "demo_owner_claims = demo_officer\<lparr>c_role := ''citizen'', c_permissions := [], c_subject := Some 8\<rparr>"

definition demo_citizen_user :: user_row where
  "demo_citizen_user = demo_user\<lparr>u_id := 8, u_email := ''c@no''\<rparr>"

definition demo_disputable :: dbworld where
  "demo_disputable = world_of (demo_db\<lparr>fines := [demo_old_fine], users := [demo_user, demo_citizen_user]\<rparr>)"

definition demo_disputed :: "fines_body response \<times> dbworld" where
  "demo_disputed = finish (dispute demo_api demo_surroundings demo_ctx demo_owner_claims (Some 1) (Some ''wrong plate''))
     demo_disputable"

lemma demo_disputed_status: "status_of (fst demo_disputed) = 201"
  by code_simp

theorem dispute_only_by_owner_of_open_fine_witness:
  "length (outbox (w_db (snd demo_disputed))) = Suc (length (outbox (w_db demo_disputable)))"
proof -
  have "finish (dispute demo_api demo_surroundings demo_ctx demo_owner_claims (Some 1) (Some ''wrong plate'')) demo_disputable
      = (fst demo_disputed, snd demo_disputed)"
    by (simp add: demo_disputed_def)
  from dispute_only_by_owner_of_open_fine [OF this demo_disputed_status] show ?thesis
    by (auto simp: demo_disputable_def world_of_def)
qed

text \<open>
  A verdict is applied once and as documented: an answer 204 means the dispute belonged to
  that fine and was pending; afterwards the dispute carries the verdict and the fine the
  status of the table accepted/cancelled, rejected/issued, court/court, and an event was
  written exactly when the citizen won. Resolving the same dispute again, on the database
  this left, is refused and changes nothing.
\<close>

theorem resolveDispute_once:
  assumes "finish (resolveDispute a sur ctx c (Some fid) (Some did) body) w = (r, w')" and "status_of r = 204"
    and "w_snap w = None"
    and "finish (resolveDispute a sur' ctx' c (Some fid') (Some did) body') v = (r', v')" and "w_snap v = None" and "w_db v = w_db w'"
  shows "\<exists>inp ds fs old. body = Some inp \<and> (rr_outcome inp, ds, fs) \<in> set outcomes
    \<and> dispute_of_fine (session_of (fa_pool a) (c_tenant c)) did fid (w_db w) = Some old \<and> d_status old = DPending
    \<and> fines (w_db w') = update_rows f_tenant (session_of (fa_pool a) (c_tenant c)) (\<lambda>g. f_id g = fid)
         (f_status_update (\<lambda>_. fs)) (fines (w_db w))
    \<and> (\<forall>d\<in>set (disputes (w_db w')). sees (session_of (fa_pool a) (c_tenant c)) (d_tenant d) \<longrightarrow> d_id d = did \<longrightarrow> d_status d = ds)
    \<and> length (outbox (w_db w')) = length (outbox (w_db w)) + (if rr_outcome inp = ''accepted'' then 1 else 0)
    \<and> refusal r' \<and> w_db v' = w_db v"
proof -
  let ?s = "session_of (fa_pool a) (c_tenant c)"
  from assms(1) have "resolveDispute a sur ctx c (Some fid) (Some did) body w = (Inr r, w')"
  proof (cases rule: finish_cases)
    case stopped
    with stops_withD [OF sw_resolveDispute stopped] assms(2) show ?thesis by (simp add: refusal_def)
  qed
  then obtain inp verdict u w1 w2 where
    tx: "resolve_tx ?s sur ctx c fid did inp verdict w1 = (Inr u, w2)" and
    inp: "body = Some inp" "map_of outcomes (rr_outcome inp) = Some verdict" and
    dbs: "w_db w1 = w_db w" "w_db w' = w_db w2"
    by (rule resolve_run [OF _ assms(3)]) simp
  from tx obtain old obs where
    old: "dispute_of_fine ?s did fid (w_db w1) = Some old" "d_status old = DPending" and
    db: "w_db w2 = (update_fine ?s fid (f_status_update (\<lambda>_. snd verdict))
       (close_dispute ?s did (fst verdict) (rr_note inp) (db_now sur) (w_db w1)))\<lparr>outbox := outbox (w_db w1) @ obs\<rparr>" and
    obs: "length obs = (if rr_outcome inp = ''accepted'' then 1 else 0)"
    by (rule resolve_tx_run)
  from inp(2) have verdict: "(rr_outcome inp, fst verdict, snd verdict) \<in> set outcomes"
    by (cases verdict) (auto dest: map_of_SomeD)
  then have closed: "fst verdict \<noteq> DPending" by (auto simp: outcomes_def)
  have dis: "disputes (w_db w') = update_rows d_tenant ?s (\<lambda>r. d_id r = did)
     (\<lambda>r. r\<lparr>d_status := fst verdict, d_resolution := (if rr_note inp = [] then None else Some (rr_note inp)),
        d_resolved_at := Some (db_now sur)\<rparr>) (disputes (w_db w1))"
    by (simp add: dbs(2) db close_dispute_def)
  have after: "d_status d = fst verdict"
    if "d \<in> set (disputes (w_db w'))" "sees ?s (d_tenant d)" "d_id d = did" for d
    using that(1) unfolding dis by (rule update_rowsE) (use that(2,3) in simp_all)
  have again: "refusal r' \<and> w_db v' = w_db v"
    using assms(4)
  proof (cases rule: finish_cases)
    case stopped
    from stops_withD [OF sw_resolveDispute stopped] atomicD [OF at_resolveDispute assms(5) stopped]
    show ?thesis by simp
  next
    case ended
    then obtain inp' verdict' u' v1 v2 where
      "resolve_tx ?s sur' ctx' c fid' did inp' verdict' v1 = (Inr u', v2)" and "w_db v1 = w_db v"
      by (rule resolve_run [OF _ assms(5)]) simp
    from this(1) obtain d where "dispute_of_fine ?s did fid' (w_db v1) = Some d" "d_status d = DPending"
      by (rule resolve_tx_run)
    with \<open>w_db v1 = w_db v\<close> assms(6) have "d \<in> set (disputes (w_db w'))" "sees ?s (d_tenant d)" "d_id d = did"
      by (auto simp: dispute_of_fine_def dest!: row_seen_SomeD)
    from after [OF this] \<open>d_status d = DPending\<close> closed show ?thesis by simp
  qed
  show ?thesis
  proof (intro exI conjI)
    show "body = Some inp" by (rule inp(1))
    show "(rr_outcome inp, fst verdict, snd verdict) \<in> set outcomes" by (rule verdict)
    show "dispute_of_fine ?s did fid (w_db w) = Some old" using old(1) dbs(1) by simp
    show "d_status old = DPending" by (rule old(2))
    show "fines (w_db w') = update_rows f_tenant ?s (\<lambda>g. f_id g = fid) (f_status_update (\<lambda>_. snd verdict)) (fines (w_db w))"
      by (simp add: dbs db close_dispute_def)
    show "\<forall>d\<in>set (disputes (w_db w')). sees ?s (d_tenant d) \<longrightarrow> d_id d = did \<longrightarrow> d_status d = fst verdict"
      using after by blast
    show "length (outbox (w_db w')) = length (outbox (w_db w)) + (if rr_outcome inp = ''accepted'' then 1 else 0)"
      using obs by (simp add: dbs db)
    show "refusal r'" "w_db v' = w_db v" using again by simp_all
  qed
qed

definition demo_dispute_row :: dispute_row where
  "demo_dispute_row = dispute_row_of demo_surroundings 70 ''NO'' 1 8 ''wrong plate''"

definition demo_triage :: dbworld where
  "demo_triage = world_of (demo_db\<lparr>fines := [demo_old_fine\<lparr>f_status := Disputed\<rparr>], disputes := [demo_dispute_row]\<rparr>)"

definition demo_verdict :: resolve_req where
  "demo_verdict = \<lparr>rr_outcome = ''accepted'', rr_note = []\<rparr>"

definition demo_resolved :: "fines_body response \<times> dbworld" where
  "demo_resolved = finish (resolveDispute demo_api demo_surroundings demo_ctx demo_officer (Some 1) (Some 70) (Some demo_verdict))
     demo_triage"

lemma demo_resolved_facts: "status_of (fst demo_resolved) = 204" "Option.is_none (w_snap (snd demo_resolved))"
  by code_simp+

theorem resolveDispute_once_witness:
  "refusal (fst (finish (resolveDispute demo_api demo_surroundings demo_ctx demo_officer (Some 1) (Some 70) (Some demo_verdict))
     (snd demo_resolved)))"
proof -
  let ?again = "finish (resolveDispute demo_api demo_surroundings demo_ctx demo_officer (Some 1) (Some 70) (Some demo_verdict))
     (snd demo_resolved)"
  have first: "finish (resolveDispute demo_api demo_surroundings demo_ctx demo_officer (Some 1) (Some 70) (Some demo_verdict))
      demo_triage = (fst demo_resolved, snd demo_resolved)"
    by (simp add: demo_resolved_def)
  have second: "finish (resolveDispute demo_api demo_surroundings demo_ctx demo_officer (Some 1) (Some 70) (Some demo_verdict))
     (snd demo_resolved) = (fst ?again, snd ?again)"
    by (rule prod.collapse [symmetric])
  have idle: "w_snap (snd demo_resolved) = None" "w_snap demo_triage = None"
    using demo_resolved_facts(2) by (simp_all add: Option.is_none_def demo_triage_def world_of_def)
  from resolveDispute_once [OF first demo_resolved_facts(1) idle(2) second idle(1) refl]
  show ?thesis by blast
qed

text \<open>
  \<open>cancel\<close> does not check that the fine exists: it answers 204 and writes the event for an
  identifier no fine has.
\<close>

lemma cancel_announces_unknown_fine:
  "status_of (fst (finish (cancel demo_api demo_surroundings demo_ctx demo_officer (Some 99) (Some ''x'')) (world_of demo_db))) = 204
   \<and> length (outbox (w_db (snd (finish (cancel demo_api demo_surroundings demo_ctx demo_officer (Some 99) (Some ''x''))
        (world_of demo_db))))) = 1"
  by code_simp

end
