(* ===== verification/FinesRead.thy ===== *)
theory FinesRead
  imports FinesDispute
begin

text \<open>
  Reading fines (\<open>list\<close>, \<open>listMine\<close>, \<open>listIssuedByMe\<close>, \<open>get\<close> in
  \<open>services/fines/internal/api/api.go\<close>). Rows with the same sort key keep their order.
\<close>

section \<open>Lists\<close>

definition newest_100 :: "fine_row list \<Rightarrow> fine_out list" where
  "newest_100 rows = map fine_out_of (take 100 (sort_key (\<lambda>f. - f_issued_at f) rows))"

definition list_fines :: "fines_api \<Rightarrow> claims \<Rightarrow> fines_handler" where
  "list_fines a c =
     andthen (WithTenant (Some c)) (
     bind (exec (query (\<lambda>d. newest_100 (rows_seen f_tenant (session_of (fa_pool a) (c_tenant c)) (fines d))))) (\<lambda>items.
     ret (Json 200 (FineItems items))))"

definition mine :: "session \<Rightarrow> uuid \<Rightarrow> db \<Rightarrow> fine_row list" where
  "mine s user d = filter (\<lambda>f. owns_fine s user f d) (rows_seen f_tenant s (fines d))"

definition listMine :: "fines_api \<Rightarrow> claims \<Rightarrow> fines_handler" where
  "listMine a c =
     andthen (WithTenant (Some c)) (
     bind (exec (subject_param c (\<lambda>user. query (\<lambda>d. newest_100 (mine (session_of (fa_pool a) (c_tenant c)) user d))))) (\<lambda>items.
     ret (Json 200 (FineItems items))))"

definition listIssuedByMe :: "fines_api \<Rightarrow> claims \<Rightarrow> fines_handler" where
  "listIssuedByMe a c =
     andthen (WithTenant (Some c)) (
     bind (exec (subject_param c (\<lambda>user. query (\<lambda>d. newest_100 (filter (\<lambda>f. f_issued_by f = user)
        (rows_seen f_tenant (session_of (fa_pool a) (c_tenant c)) (fines d))))))) (\<lambda>items.
     ret (Json 200 (FineItems items))))"

section \<open>\<open>GET /v1/fines/{id}\<close>\<close>

definition evidence_out :: "evidence_row \<Rightarrow> evidence_in" where
  "evidence_out e = \<lparr>ei_kind = fe_kind e, ei_s3_key = fe_s3_key e, ei_sha256 = fe_sha256 e,
     ei_bytes = fe_bytes e, ei_taken_at = fe_taken_at e\<rparr>"

definition custody_out_of :: "custody_row \<Rightarrow> custody_out" where
  "custody_out_of r = \<lparr>co_evidence_id = cu_evidence_id r, co_action = cu_action r,
     co_actor_user = cu_actor_user r, co_actor_role = cu_actor_role r,
     co_actor_device = cu_actor_device r, co_details = cu_details r, co_occurred_at = cu_occurred_at r\<rparr>"

definition evidence_of :: "session \<Rightarrow> uuid \<Rightarrow> db \<Rightarrow> evidence_in list" where
  "evidence_of s fid d = map evidence_out (filter (\<lambda>e. fe_fine_id e = fid) (rows_seen fe_tenant s (evidence d)))"

definition custody_of :: "session \<Rightarrow> uuid \<Rightarrow> db \<Rightarrow> custody_out list" where
  "custody_of s fid d = map custody_out_of
     (sort_key cu_occurred_at (sort_key cu_id (filter (\<lambda>r. cu_fine_id r = fid) (rows_seen cu_tenant s (custody d)))))"

definition fine_detail :: "session \<Rightarrow> claims \<Rightarrow> uuid \<Rightarrow> fine_row \<Rightarrow> bool \<Rightarrow> fines_handler" where
  "fine_detail s c fid f owned =
     andthen (guard (\<not> (\<not> owned \<and> Some (f_issued_by f) \<noteq> c_subject c) \<or> ''fines:read'' \<in> set (c_permissions c))
        (write_err ErrForbidden)) (
     bind (exec_try (query (evidence_of s fid))) (\<lambda>evs.
     bind (exec (query (custody_of s fid))) (\<lambda>cs.
     ret (Json 200 (FineDetail (fine_out_of f) (case evs of Inl _ \<Rightarrow> [] | Inr es \<Rightarrow> es) cs)))))"

definition get_fine :: "fines_api \<Rightarrow> claims \<Rightarrow> uuid option \<Rightarrow> fines_handler" where
  "get_fine a c fine =
     (case fine of
        None \<Rightarrow> stop (write_err ErrBadRequest)
      | Some fid \<Rightarrow>
          andthen (WithTenant (Some c)) (
          bind (exec_or (no_rows_or (write_err ErrNotFound) Internal)
             (subject_param c (\<lambda>user. query_row (fine_and_ownership (session_of (fa_pool a) (c_tenant c)) fid user)))) (\<lambda>(f, owned).
          fine_detail (session_of (fa_pool a) (c_tenant c)) c fid f owned)))"

section \<open>Frame conditions\<close>

lemma rd_lists: "keeps same_db (list_fines a c)" "keeps same_db (listMine a c)" "keeps same_db (listIssuedByMe a c)"
  unfolding list_fines_def listMine_def listIssuedByMe_def by (intro db_rd_steps frame_intros)+

lemma rd_get: "keeps same_db (get_fine a c fine)"
  unfolding get_fine_def fine_detail_def by (intro db_rd_steps frame_intros)

lemma sw_lists: "stops_with refusal (list_fines a c)" "stops_with refusal (listMine a c)"
  "stops_with refusal (listIssuedByMe a c)"
  unfolding list_fines_def listMine_def listIssuedByMe_def by ((intro db_sw_steps)?, simp)+

lemma sw_get: "stops_with refusal (get_fine a c fine)"
  unfolding get_fine_def fine_detail_def by (intro db_sw_steps) simp_all

section \<open>Properties\<close>

lemma newest_100_sorted: "sorted (map (\<lambda>fo. - fo_issued_at fo) (newest_100 rows))"
  by (simp add: newest_100_def comp_def fine_out_of_def sorted_wrt_take flip: take_map)

lemma set_newest_100: "set (newest_100 rows) \<subseteq> fine_out_of ` set rows"
  by (auto simp: newest_100_def dest: in_set_takeD)

text \<open>
  Who may read a fine: an answer 200 to \<open>GET /v1/fines/{id}\<close> means that the session sees the
  fine and that the caller owns its vehicle, is its listed driver, issued it, or holds
  \<open>fines:read\<close>; the body shows that fine and the whole chain of custody the session sees of
  it, in chronological order.
\<close>

theorem get_fine_authorised:
  assumes "finish (get_fine a c fine) w = (r, w')" and "status_of r = 200"
  shows "\<exists>fid user f evs. fine = Some fid \<and> c_subject c = Some user
    \<and> fine_seen (session_of (fa_pool a) (c_tenant c)) fid (w_db w) = Some f
    \<and> (owns_fine (session_of (fa_pool a) (c_tenant c)) user f (w_db w) \<or> f_issued_by f = user \<or> ''fines:read'' \<in> set (c_permissions c))
    \<and> r = Json 200 (FineDetail (fine_out_of f) evs (custody_of (session_of (fa_pool a) (c_tenant c)) fid (w_db w)))
    \<and> sorted (map co_occurred_at (custody_of (session_of (fa_pool a) (c_tenant c)) fid (w_db w)))
    \<and> w_db w' = w_db w"
  using assms(1)
proof (cases rule: finish_cases)
  case stopped
  with stops_withD [OF sw_get stopped] assms(2) show ?thesis by (simp add: refusal_def)
next
  case ended
  let ?s = "session_of (fa_pool a) (c_tenant c)"
  from ended obtain fid where fine: "fine = Some fid"
    by (cases fine) (auto simp: get_fine_def)
  from ended [unfolded get_fine_def fine option.case] obtain w1 fo w2 where
    q': "exec_or (no_rows_or (write_err ErrNotFound) (Internal :: fines_body response))
      (subject_param c (\<lambda>user. query_row (fine_and_ownership ?s fid user))) w1 = (Inr fo, w2)" and
    rest': "(case fo of (f, owned) \<Rightarrow> fine_detail ?s c fid f owned) w2 = (Inr r, w')" and
    conn: "w_db w1 = w_db w"
    by (elim bindE andthenE WithTenantE) (rule that, assumption, assumption, simp)
  obtain f owned where fo: "fo = (f, owned)" by (cases fo)
  note q = q' [unfolded fo] and rest = rest' [unfolded fo prod.case]
  from rest obtain evs w3 cs where
    ok: "\<not> (\<not> owned \<and> Some (f_issued_by f) \<noteq> c_subject c) \<or> ''fines:read'' \<in> set (c_permissions c)" and
    ev: "(exec_try (query (evidence_of ?s fid)) :: (fines_body, _) handler) w2 = (Inr evs, w3)" and
    cu: "(exec (query (custody_of ?s fid)) :: (fines_body, _) handler) w3 = (Inr cs, w')" and
    r: "r = Json 200 (FineDetail (fine_out_of f) (case evs of Inl _ \<Rightarrow> [] | Inr es \<Rightarrow> es) cs)"
    unfolding fine_detail_def by (elim bindE andthenE) (simp only: guard_Inr ret_Inr)
  from exec_db [OF q] conn obtain user where user: "c_subject c = Some user" and
    seen: "fine_seen ?s fid (w_db w) = Some f" and own: "owned = owns_fine ?s user f (w_db w)" and db2: "w_db w2 = w_db w"
    by (auto simp: subject_param_Inr fine_and_ownership_def)
  from keepsD [OF rd_exec_try [OF reads_query(1)] ev] db2 have "w_db w3 = w_db w" by (simp add: same_db_def)
  with exec_query_db [OF cu] have "cs = custody_of ?s fid (w_db w)" "w_db w' = w_db w" by simp_all
  moreover have "sorted (map co_occurred_at (custody_of ?s fid (w_db w)))"
    by (simp add: custody_of_def comp_def custody_out_of_def)
  ultimately show ?thesis
    using fine user seen own ok r by (intro exI conjI) auto
qed

definition demo_custody_row :: custody_row where
  "demo_custody_row = captured_row demo_surroundings demo_officer 1 ''dev-1'' 1 50
     \<lparr>ei_kind = ''photo'', ei_s3_key = ''k1'', ei_sha256 = ''h1'', ei_bytes = 10, ei_taken_at = 0\<rparr>"

definition demo_readable :: dbworld where
  "demo_readable = world_of (demo_db\<lparr>fines := [demo_old_fine], custody := [demo_custody_row]\<rparr>)"


definition demo_read :: "fines_body response \<times> dbworld" where
  "demo_read = finish (get_fine demo_api demo_owner_claims (Some 1)) demo_readable"

lemma demo_read_status: "status_of (fst demo_read) = 200"
  by code_simp

theorem get_fine_authorised_witness:
  "\<exists>evs cs. fst demo_read = Json 200 (FineDetail (fine_out_of demo_old_fine) evs cs)"
proof -
  have "finish (get_fine demo_api demo_owner_claims (Some 1)) demo_readable = (fst demo_read, snd demo_read)"
    by (simp add: demo_read_def)
  from get_fine_authorised [OF this demo_read_status] obtain f evs cs where
    "fine_seen (session_of (fa_pool demo_api) (c_tenant demo_owner_claims)) 1 (w_db demo_readable) = Some f"
    "fst demo_read = Json 200 (FineDetail (fine_out_of f) evs cs)"
    by blast
  then show ?thesis
    by (auto dest!: fine_seen_SomeD simp: demo_readable_def world_of_def)
qed

text \<open>
  \<open>listMine\<close> answers with the caller's own fines only, the newest first and at most 100 of
  them: every item is a fine the session sees whose vehicle the caller owns or whose listed
  driver the caller is, and when there are at most 100 such fines none is missing.
\<close>

theorem listMine_own_fines:
  assumes "finish (listMine a c) w = (r, w')" and "status_of r = 200"
  shows "\<exists>user items. c_subject c = Some user \<and> r = Json 200 (FineItems items) \<and> length items \<le> 100
    \<and> sorted (map (\<lambda>fo. - fo_issued_at fo) items)
    \<and> (\<forall>it\<in>set items. \<exists>f\<in>set (fines (w_db w)). sees (session_of (fa_pool a) (c_tenant c)) (f_tenant f)
         \<and> owns_fine (session_of (fa_pool a) (c_tenant c)) user f (w_db w) \<and> it = fine_out_of f)
    \<and> (length (mine (session_of (fa_pool a) (c_tenant c)) user (w_db w)) \<le> 100
         \<longrightarrow> length items = length (mine (session_of (fa_pool a) (c_tenant c)) user (w_db w)))"
  using assms(1)
proof (cases rule: finish_cases)
  case stopped
  with stops_withD [OF sw_lists(2) stopped] assms(2) show ?thesis by (simp add: refusal_def)
next
  case ended
  let ?s = "session_of (fa_pool a) (c_tenant c)"
  from ended obtain w1 items w2 where
    q: "(exec (subject_param c (\<lambda>user. query (\<lambda>d. newest_100 (mine ?s user d)))) :: (fines_body, fine_out list) handler) w1
      = (Inr items, w2)" and
    r: "r = Json 200 (FineItems items)" and conn: "w_db w1 = w_db w"
    unfolding listMine_def by (elim bindE andthenE WithTenantE) (rule that, assumption, simp_all)
  from exec_db [OF q] conn obtain user where user: "c_subject c = Some user" and
    items: "items = newest_100 (mine ?s user (w_db w))"
    by (auto simp: subject_param_Inr)
  have len: "length items = min (length (mine ?s user (w_db w))) 100"
    by (simp add: items newest_100_def)
  have own: "\<exists>f\<in>set (fines (w_db w)). sees ?s (f_tenant f) \<and> owns_fine ?s user f (w_db w) \<and> it = fine_out_of f"
    if "it \<in> set items" for it
    using that set_newest_100 [of "mine ?s user (w_db w)"] unfolding items by (auto simp: mine_def table_simps)
  show ?thesis
    using user r len own newest_100_sorted [of "mine ?s user (w_db w)"] unfolding items by auto
qed

definition demo_mine :: "fines_body response \<times> dbworld" where
  "demo_mine = finish (listMine demo_api demo_owner_claims) demo_readable"

lemma demo_mine_status: "status_of (fst demo_mine) = 200"
  by code_simp

theorem listMine_own_fines_witness:
  "\<exists>items. fst demo_mine = Json 200 (FineItems items) \<and> length items \<le> 100"
proof -
  have "finish (listMine demo_api demo_owner_claims) demo_readable = (fst demo_mine, snd demo_mine)"
    by (simp add: demo_mine_def)
  from listMine_own_fines [OF this demo_mine_status] show ?thesis by blast
qed

end
