(* ===== verification/FinesPay.thy ===== *)
theory FinesPay
  imports FinesIssue
begin

text \<open>
  Paying a fine (\<open>handlePay\<close>, \<open>handleWebhook\<close> and \<open>paymentsHealth\<close> in
  \<open>services/fines/internal/api/api.go\<close>). The payments provider is the parameter \<open>fa_pay\<close>;
  the health monitor writes on a connection of its own, so its stamps, like the intents
  created at the provider, are entries of the log that no rollback removes.
\<close>

section \<open>Payment rows\<close>

definition payment_row_of ::
    "uuid \<Rightarrow> string \<Rightarrow> uuid \<Rightarrow> money \<Rightarrow> string \<Rightarrow> string \<Rightarrow> string \<Rightarrow> payment_status \<Rightarrow> time option \<Rightarrow> payment_row" where
  "payment_row_of pid ten fid amount currency method ref st paid =
     \<lparr>fp_id = pid, fp_tenant = ten, fp_fine_id = fid, fp_amount = amount, fp_currency = currency,
      fp_method = method, fp_provider_ref = ref, fp_status = st, fp_paid_at = paid\<rparr>"

definition insert_payment ::
    "session \<Rightarrow> uuid \<Rightarrow> uuid \<Rightarrow> money \<Rightarrow> string \<Rightarrow> string \<Rightarrow> string \<Rightarrow> payment_status \<Rightarrow> time option \<Rightarrow> db \<Rightarrow> sqlerr + unit \<times> db" where
  "insert_payment s pid fid amount currency method ref st paid d =
     (case child_tenant s fid d of
        None \<Rightarrow> Inl CheckViolation
      | Some ten \<Rightarrow>
          (case insert_row fp_tenant s (\<lambda>old new. fp_id old = fp_id new)
                  (payment_row_of pid ten fid amount currency method ref st paid) (payments d) of
             Inl e \<Rightarrow> Inl e
           | Inr rows \<Rightarrow> Inr ((), d\<lparr>payments := rows\<rparr>)))"

definition mark_paid :: "time \<Rightarrow> fine_row \<Rightarrow> fine_row" where
  "mark_paid now f = f\<lparr>f_status := Paid, f_paid_at := Some now\<rparr>"

definition fine_paid_data :: "uuid \<Rightarrow> money \<Rightarrow> string \<Rightarrow> string \<Rightarrow> string \<Rightarrow> payload" where
  "fine_paid_data fid amount currency method ref =
     FinePaid \<lparr>fpp_fine_id = fid, fpp_amount = amount, fpp_currency = currency,
       fpp_method = method, fpp_provider_ref = ref\<rparr>"

section \<open>\<open>POST /v1/fines/{id}/pay\<close>\<close>

text \<open>
  \<open>method_in\<close> is what the decoder left in \<open>in.Method\<close>: the handler ignores its error.
\<close>

definition hm_ok :: "fines_api \<Rightarrow> string \<Rightarrow> (fines_body, unit) handler" where
  "hm_ok a tenant = (if fa_hm a then emit (HealthOk tenant) else ret ())"

definition hm_fail :: "fines_api \<Rightarrow> string \<Rightarrow> (fines_body, unit) handler" where
  "hm_fail a tenant = (if fa_hm a then emit (HealthFail tenant) else ret ())"

definition create_intent :: "fines_api \<Rightarrow> claims \<Rightarrow> fine_row \<Rightarrow> string \<Rightarrow> (fines_body, intent) handler" where
  "create_intent a c f method =
     (case pv_create_intent (fa_pay a)
             \<lparr>ci_tenant = c_tenant c, ci_idempotency_fine = f_id f, ci_amount = f_amount f,
              ci_currency = f_currency f, ci_method = method\<rparr> of
        None \<Rightarrow> andthen (hm_fail a (c_tenant c)) (stop Internal)
      | Some it \<Rightarrow>
          andthen (emit (IntentCreated (c_tenant c) (f_id f) (f_amount f) (f_currency f) method)) (
          andthen (hm_ok a (c_tenant c)) (ret it)))"

definition payment_status_of :: "intent \<Rightarrow> payment_status" where
  "payment_status_of it = (if pi_status it = Succeeded then PSucceeded else PPending)"

definition pay_tx ::
    "session \<Rightarrow> fines_api \<Rightarrow> surroundings \<Rightarrow> reqctx \<Rightarrow> claims \<Rightarrow> uuid \<Rightarrow> string \<Rightarrow> (fines_body, intent \<times> payment_status) handler" where
  "pay_tx s a sur ctx c fid method =
     (bind (exec_or (no_rows_or (write_err ErrNotFound) Internal) (query_row (fine_seen s fid))) (\<lambda>f.
      bind (create_intent a c f method) (\<lambda>it.
      let st = payment_status_of it in
      andthen (exec (insert_payment s (new_uuid sur 0) fid (f_amount f) (f_currency f) method (pi_id it) st
                 (if st = PSucceeded then Some (db_now sur) else None))) (
      andthen (if st = PSucceeded
               then andthen (exec (change (update_fine s fid (mark_paid (db_now sur)))))
                      (WriteOutbox Internal s sur
                        (EnvelopeFromContext sur ctx (new_uuid sur 1) ''fines'' (c_tenant c) TypeFinePaid 1
                          (fine_paid_data fid (f_amount f) (f_currency f) method (pi_id it))))
               else ret ())
        (ret (it, st))))))"

definition handlePay ::
    "fines_api \<Rightarrow> surroundings \<Rightarrow> reqctx \<Rightarrow> claims \<Rightarrow> uuid option \<Rightarrow> string \<Rightarrow> fines_handler" where
  "handlePay a sur ctx c fine method_in =
     (case fine of
        None \<Rightarrow> stop (write_err ErrBadRequest)
      | Some fid \<Rightarrow>
          let method = (if method_in = [] then ''card'' else method_in) in
          andthen (WithTenant (Some c)) (
          bind (in_tx Internal (pay_tx (session_of (fa_pool a) (c_tenant c)) a sur ctx c fid method)) (\<lambda>(it, st).
          andthen (audit_Emit (fa_audit a) ''fines'' (Some c) ''fine.pay'' ''fine'' fid) (
          ret (Json 200 (PayAnswer (pi_id it) (pi_client_secret it) st))))))"

section \<open>\<open>POST /v1/fines/payments/webhooks/{provider}\<close>\<close>

text \<open>
  \<open>body\<close> is \<open>None\<close> when reading it fails; at most 1 MiB of it is read. The handler has no
  claims and runs on the admin pool, whose connections carry no tenant.
\<close>

definition webhook_row :: "session \<Rightarrow> string \<Rightarrow> db \<Rightarrow> (payment_row \<times> fine_row) option" where
  "webhook_row s ref d =
     (case row_seen fp_tenant s (\<lambda>p. fp_provider_ref p = ref \<and> fine_seen s (fp_fine_id p) d \<noteq> None) (payments d) of
        None \<Rightarrow> None
      | Some p \<Rightarrow> map_option (\<lambda>f. (p, f)) (fine_seen s (fp_fine_id p) d))"

definition mark_payment :: "session \<Rightarrow> string \<Rightarrow> time \<Rightarrow> db \<Rightarrow> db" where
  "mark_payment s ref now d = d\<lparr>payments := update_rows fp_tenant s (\<lambda>p. fp_provider_ref p = ref)
     (\<lambda>p. p\<lparr>fp_status := PSucceeded, fp_paid_at := Some now\<rparr>) (payments d)\<rparr>"

definition webhook_tx :: "session \<Rightarrow> surroundings \<Rightarrow> string \<Rightarrow> (fines_body, payment_row \<times> fine_row) handler" where
  "webhook_tx s sur ref =
     bind (exec_or (no_rows_or (Status 202) Internal) (query_row (webhook_row s ref))) (\<lambda>(p, f).
     andthen (guard (\<not> (fp_status p = PSucceeded \<or> f_status f = Paid)) (Status 202)) (
     andthen (exec (change (mark_payment s ref (db_now sur)))) (
     andthen (exec (change (update_fine s (fp_fine_id p) (mark_paid (db_now sur))))) (
     andthen (WriteOutbox Internal s sur
       (NewEnvelope sur (new_uuid sur 0) ''fines'' (f_tenant f) TypeFinePaid 1
         (fine_paid_data (fp_fine_id p) (fp_amount p) (fp_currency p) (fp_method p) ref))) (
     ret (p, f))))))"

definition limit_reader :: "int \<Rightarrow> string \<Rightarrow> string" where
  "limit_reader n body = (if int (length body) \<le> n then body else take (nat n) body)"

definition handleWebhook ::
    "fines_api \<Rightarrow> surroundings \<Rightarrow> string \<Rightarrow> (string \<times> string) list \<Rightarrow> string option \<Rightarrow> fines_handler" where
  "handleWebhook a sur name hdrs body =
     (if name \<noteq> pv_name (fa_pay a) then stop (Err 404 ''unknown_provider'')
      else case body of
        None \<Rightarrow> stop (Err 400 ''read_failed'')
      | Some text \<Rightarrow>
          (case pv_verify_webhook (fa_pay a) hdrs (limit_reader 1048576 text) of
             None \<Rightarrow> andthen (hm_fail a []) (stop (Err 401 ''signature_invalid''))
           | Some evt \<Rightarrow>
               if we_status evt \<noteq> Succeeded then ret (Status 202)
               else
                 bind (in_tx Internal (webhook_tx (session_of (fa_admin_pool a) []) sur (we_intent_id evt))) (\<lambda>(p, f).
                 andthen (hm_ok a (f_tenant f)) (
                 andthen (audit_Emit (fa_audit a) ''fines'' None ''fine.pay.webhook'' ''fine'' (fp_fine_id p)) (
                 ret (Status 200))))))"

section \<open>\<open>GET /v1/fines/payments/health\<close>\<close>

text \<open>\<open>snapshot\<close> is what the health monitor answers, \<open>None\<close> an error.\<close>

definition paymentsHealth :: "fines_api \<Rightarrow> claims \<Rightarrow> (string \<Rightarrow> string \<Rightarrow> string \<Rightarrow> health_snapshot option) \<Rightarrow> fines_handler" where
  "paymentsHealth a c snapshot =
     ret (Json 200 (PaymentsHealth (pv_module (fa_pay a)) (pv_name (fa_pay a)) (pv_region (fa_pay a))
       (if fa_hm a then snapshot (c_tenant c) (pv_module (fa_pay a)) (pv_name (fa_pay a)) else None)))"

section \<open>Frame conditions\<close>

lemma insert_payment_InrD:
  assumes "insert_payment s pid fid amount currency method ref st paid d = Inr (u, d')"
  obtains ten where "child_tenant s fid d = Some ten" "sees s ten"
    "d' = d\<lparr>payments := payments d @ [payment_row_of pid ten fid amount currency method ref st paid]\<rparr>"
  using assms by (auto simp: insert_payment_def table_simps payment_row_of_def split: option.splits sum.splits)

lemma keeps_outside_insert_payment [frame_intros]:
  "keeps_outside t (insert_payment (TenantSession t) pid fid amount currency method ref st paid)"
  by (auto simp: fixed_def outside_def others_def payment_row_of_def elim!: insert_payment_InrD)

lemma mark_paid_tenant [simp, frame_intros]: "f_tenant (mark_paid now f) = f_tenant f" "f_id (mark_paid now f) = f_id f"
  "f_status (mark_paid now f) = Paid"
  by (simp_all add: mark_paid_def)

lemma tx_create_intent: "keeps same_tx (create_intent a c f method)"
  unfolding create_intent_def hm_ok_def hm_fail_def by (intro db_tx_steps)

lemma tx_pay_tx: "keeps same_tx (pay_tx s a sur ctx c fid method)"
  unfolding pay_tx_def by (intro db_tx_steps tx_create_intent)

lemma sw_pay_tx: "stops_with refusal (pay_tx s a sur ctx c fid method)"
  unfolding pay_tx_def create_intent_def hm_ok_def hm_fail_def by (intro db_sw_steps) simp_all

lemma sw_handlePay: "stops_with refusal (handlePay a sur ctx c fine method)"
  unfolding handlePay_def by (intro db_sw_steps sw_pay_tx) simp_all

lemma iso_handlePay:
  assumes "fa_pool a = SubjectToRls"
  shows "keeps (isolated (c_tenant c)) (handlePay a sur ctx c fine method)"
  unfolding handlePay_def pay_tx_def create_intent_def hm_ok_def hm_fail_def assms session_of.simps
  by (intro db_iso_steps frame_intros mark_paid_tenant)

lemma at_handlePay: "atomic (handlePay a sur ctx c fine method)"
  unfolding handlePay_def
  by (intro at_option at_stop at_let at_bind at_andthen at_last at_in_tx db_rd_steps tx_pay_tx db_sw_steps)

lemma tx_webhook_tx: "keeps same_tx (webhook_tx s sur ref)"
  unfolding webhook_tx_def by (intro db_tx_steps)

section \<open>What a payment does\<close>

lemma create_intent_run:
  assumes "create_intent a c f method w = (Inr it, w')"
  obtains "w_db w' = w_db w"
    "pv_create_intent (fa_pay a) \<lparr>ci_tenant = c_tenant c, ci_idempotency_fine = f_id f,
       ci_amount = f_amount f, ci_currency = f_currency f, ci_method = method\<rparr> = Some it"
  using assms
  by (auto simp: create_intent_def hm_ok_def hm_fail_def split: option.splits if_splits elim!: run_elims intro: that)

lemma insert_payment_fine_tenant:
  "fine_seen s fid d = Some f \<Longrightarrow> child_tenant s fid d = Some (f_tenant f)"
  by (simp add: child_tenant_def fine_seen_def)

lemma pay_tx_run:
  assumes "pay_tx s a sur ctx c fid method w = (Inr (it, st), w')"
  obtains f pay n where "fine_seen s fid (w_db w) = Some f" "st = payment_status_of it"
    "fp_fine_id pay = fid" "fp_amount pay = f_amount f" "fp_currency pay = f_currency f"
    "fp_status pay = st" "fp_provider_ref pay = pi_id it" "fp_tenant pay = f_tenant f"
    "w_db w' =
       (if st = PSucceeded then
          (update_fine s fid (mark_paid (db_now sur)) (w_db w))\<lparr>payments := payments (w_db w) @ [pay],
            outbox := outbox (w_db w) @ [outbox_row_of sur n
              (EnvelopeFromContext sur ctx (new_uuid sur 1) ''fines'' (c_tenant c) TypeFinePaid 1
                 (fine_paid_data fid (f_amount f) (f_currency f) method (pi_id it)))]\<rparr>
        else (w_db w)\<lparr>payments := payments (w_db w) @ [pay]\<rparr>)"
proof -
  let ?env = "\<lambda>f. EnvelopeFromContext sur ctx (new_uuid sur 1) ''fines'' (c_tenant c) TypeFinePaid 1
     (fine_paid_data fid (f_amount f) (f_currency f) method (pi_id it))"
  from assms obtain f w1 w2 w3 where
    seen: "fine_seen s fid (w_db w) = Some f" and st: "st = payment_status_of it" and
    db1: "w_db w1 = w_db w" and
    int: "create_intent a c f method w1 = (Inr it, w2)" and
    ins: "insert_payment s (new_uuid sur 0) fid (f_amount f) (f_currency f) method (pi_id it) st
       (if st = PSucceeded then Some (db_now sur) else None) (w_db w2) = Inr ((), w_db w3)" and
    rest: "(if st = PSucceeded
         then andthen (exec (change (update_fine s fid (mark_paid (db_now sur)))))
                (WriteOutbox (Internal :: fines_body response) s sur (?env f))
         else ret ()) w3 = (Inr (), w')"
    unfolding pay_tx_def Let_def by (elim bindE andthenE exec_orE) (simp, rule that, auto)
  have db2: "w_db w2 = w_db w" using create_intent_run [OF int] db1 by simp
  define pay where "pay = payment_row_of (new_uuid sur 0) (f_tenant f) fid (f_amount f) (f_currency f)
    method (pi_id it) st (if st = PSucceeded then Some (db_now sur) else None)"
  have pay: "fp_fine_id pay = fid" "fp_amount pay = f_amount f"
    "fp_currency pay = f_currency f" "fp_status pay = st" "fp_provider_ref pay = pi_id it"
    "fp_tenant pay = f_tenant f"
    by (simp_all add: pay_def payment_row_of_def)
  from ins db2 have db3: "w_db w3 = (w_db w)\<lparr>payments := payments (w_db w) @ [pay]\<rparr>"
    by (auto simp: insert_payment_fine_tenant [OF seen] pay_def elim!: insert_payment_InrD)
  have "\<exists>n. w_db w' =
       (if st = PSucceeded then
          (update_fine s fid (mark_paid (db_now sur)) (w_db w))\<lparr>payments := payments (w_db w) @ [pay],
            outbox := outbox (w_db w) @ [outbox_row_of sur n (?env f)]\<rparr>
        else (w_db w)\<lparr>payments := payments (w_db w) @ [pay]\<rparr>)"
  proof (cases "st = PSucceeded")
    case True
    from rest [unfolded if_P [OF True]] obtain w4 u where
      upd: "(exec (change (update_fine s fid (mark_paid (db_now sur)))) :: (fines_body, unit) handler) w3 = (Inr u, w4)" and
      out: "WriteOutbox (Internal :: fines_body response) s sur (?env f) w4 = (Inr (), w')"
      by (elim andthenE)
    from upd have db4: "w_db w4 = update_fine s fid (mark_paid (db_now sur)) (w_db w3)"
      by (elim exec_orE) simp
    from out obtain n where "w_db w' = (w_db w4)\<lparr>outbox := outbox (w_db w4) @ [outbox_row_of sur n (?env f)]\<rparr>"
      by (elim WriteOutboxE) simp
    then show ?thesis unfolding db4 db3 if_P [OF True] by (intro exI [of _ n]) (simp add: update_fine_def)
  next
    case False
    with rest db3 show ?thesis by simp
  qed
  with seen st pay show thesis by (elim exE) (rule that)
qed

lemma handlePay_run:
  assumes "handlePay a sur ctx c fine method_in w = (Inr r, w')" and "w_snap w = None"
  obtains fid it st w1 w2 where
    "pay_tx (session_of (fa_pool a) (c_tenant c)) a sur ctx c fid (if method_in = [] then ''card'' else method_in) w1
       = (Inr (it, st), w2)"
    "fine = Some fid" "w_db w1 = w_db w" "w_db w' = w_db w2"
    "r = Json 200 (PayAnswer (pi_id it) (pi_client_secret it) st)"
  using assms unfolding handlePay_def Let_def
  by (cases fine; simp)
    (elim bindE andthenE WithTenantE, elim in_txE [OF _ _ tx_pay_tx],
      auto elim!: andthenE audit_EmitE intro: that)

lemma webhook_tx_run:
  assumes "webhook_tx s sur ref w = (Inr (p, f), w')"
  obtains n where "webhook_row s ref (w_db w) = Some (p, f)" "fp_status p \<noteq> PSucceeded" "f_status f \<noteq> Paid"
    "w_db w' = (update_fine s (fp_fine_id p) (mark_paid (db_now sur)) (mark_payment s ref (db_now sur) (w_db w)))\<lparr>
       outbox := outbox (w_db w) @ [outbox_row_of sur n
         (NewEnvelope sur (new_uuid sur 0) ''fines'' (f_tenant f) TypeFinePaid 1
           (fine_paid_data (fp_fine_id p) (fp_amount p) (fp_currency p) (fp_method p) ref))]\<rparr>"
proof -
  let ?env = "NewEnvelope sur (new_uuid sur 0) ''fines'' (f_tenant f) TypeFinePaid 1
     (fine_paid_data (fp_fine_id p) (fp_amount p) (fp_currency p) (fp_method p) ref)"
  from assms obtain w1 w2 w3 w4 u1 u2 u3 where
    row: "exec_or (no_rows_or (Status 202) (Internal :: fines_body response)) (query_row (webhook_row s ref)) w = (Inr (p, f), w1)" and
    open_: "fp_status p \<noteq> PSucceeded" "f_status f \<noteq> Paid" and
    upd1: "(exec (change (mark_payment s ref (db_now sur))) :: (fines_body, unit) handler) w1 = (Inr u1, w2)" and
    upd2: "(exec (change (update_fine s (fp_fine_id p) (mark_paid (db_now sur)))) :: (fines_body, unit) handler) w2 = (Inr u2, w3)" and
    out: "WriteOutbox (Internal :: fines_body response) s sur ?env w3 = (Inr u3, w')"
    unfolding webhook_tx_def by (elim bindE andthenE) (auto split: prod.splits elim!: andthenE)
  from exec_query_row_db [OF row] exec_change_db [OF upd1] exec_change_db [OF upd2]
  have db: "webhook_row s ref (w_db w) = Some (p, f)"
    "w_db w3 = update_fine s (fp_fine_id p) (mark_paid (db_now sur)) (mark_payment s ref (db_now sur) (w_db w))"
    by simp_all
  from out obtain n where "w_db w' = (w_db w3)\<lparr>outbox := outbox (w_db w3) @ [outbox_row_of sur n ?env]\<rparr>"
    by (rule WriteOutbox_db)
  then show thesis
    using db open_ by (intro that [of n]) (simp_all add: mark_payment_def)
qed

lemma handleWebhook_cases:
  assumes "finish (handleWebhook a sur name hdrs body) w = (r, w')" and "w_snap w = None"
  obtains (settled) evt p f w2 raw where "r = Status 200" "name = pv_name (fa_pay a)" "body = Some raw"
      "pv_verify_webhook (fa_pay a) hdrs (limit_reader 1048576 raw) = Some evt" "we_status evt = Succeeded"
      "\<exists>w1. webhook_tx (session_of (fa_admin_pool a) []) sur (we_intent_id evt) w1 = (Inr (p, f), w2) \<and> w_db w1 = w_db w"
      "w_db w' = w_db w2"
  | (nothing) "r \<noteq> Status 200" "w_db w' = w_db w"
proof -
  have still: "keeps same_db (andthen (hm_fail a []) (stop (Err 401 ''signature_invalid'') :: fines_handler))"
    unfolding hm_fail_def by (intro rd_steps)
  have no200: "stops_with (\<lambda>r. r \<noteq> Status 200) (webhook_tx s sur ref)" for s ref
    unfolding webhook_tx_def no_rows_or_def by (intro db_sw_steps) (auto simp: no_rows_or_def)
  show thesis
  proof (cases "name = pv_name (fa_pay a) \<and> (\<exists>raw evt. body = Some raw \<and>
      pv_verify_webhook (fa_pay a) hdrs (limit_reader 1048576 raw) = Some evt \<and> we_status evt = Succeeded)")
    case False
    with assms have "r \<noteq> Status 200 \<and> w_db w' = w_db w"
      by (auto simp: handleWebhook_def finish_def stop_def ret_def hm_fail_def andthen_def bind_def emit_def
          split: if_splits option.splits prod.splits sum.splits)
    then show thesis by (elim conjE) (rule nothing)
  next
    case True
    then obtain raw evt where ok: "name = pv_name (fa_pay a)" "body = Some raw"
      "pv_verify_webhook (fa_pay a) hdrs (limit_reader 1048576 raw) = Some evt" "we_status evt = Succeeded"
      by blast
    let ?tx = "webhook_tx (session_of (fa_admin_pool a) []) sur (we_intent_id evt)"
    let ?k = "\<lambda>(p, f). andthen (hm_ok a (f_tenant f)) (
       andthen (audit_Emit (fa_audit a) ''fines'' None ''fine.pay.webhook'' ''fine'' (fp_fine_id p)) (
       ret (Status 200) :: fines_handler))"
    have run: "finish (bind (in_tx Internal ?tx) ?k) w = (r, w')"
      using assms(1) ok by (simp add: handleWebhook_def)
    have tail: "\<exists>v'. ?k (p, f) v = (Inr (Status 200), v') \<and> w_db v' = w_db v" for p f v
      by (auto simp: hm_ok_def audit_Emit_def andthen_def bind_def emit_def ret_def)
    obtain res v where tx: "in_tx Internal ?tx w = (res, v)" by fastforce
    from tx assms(2) tx_webhook_tx show thesis
    proof (cases rule: in_tx_cases)
      case (committed x w1 w2)
      obtain p f where x: "x = (p, f)" by (cases x)
      from tail [of p f v] obtain v' where "?k x v = (Inr (Status 200), v')" "w_db v' = w_db v" unfolding x by blast
      with run tx committed(1) have "r = Status 200" "w_db w' = w_db v"
        by (auto simp: finish_def bind_def)
      with committed ok x show thesis by (intro settled) auto
    next
      case (rolledback e)
      have "e \<noteq> Status 200"
        using stops_withD [OF sw_in_tx [OF _ no200] tx [unfolded rolledback(1)]] by simp
      from run tx rolledback have e: "r = e" "w_db w' = w_db w" by (auto simp: finish_def bind_def)
      show thesis by (rule nothing) (use e \<open>e \<noteq> Status 200\<close> in simp_all)
    qed
  qed
qed

section \<open>Properties\<close>


definition demo_citizen :: claims where
  "demo_citizen = \<lparr>c_tenant = ''NO'', c_role = ''citizen'', c_permissions = [], c_device = [],
     c_subject = Some 8, c_issued_at = 0, c_expires_at = 0, c_jti = None\<rparr>"

definition demo_fined :: dbworld where
  "demo_fined = world_of (demo_db\<lparr>fines := [demo_old_fine]\<rparr>)"

definition demo_paid :: "fines_body response \<times> dbworld" where
  "demo_paid = finish (handlePay demo_api demo_surroundings demo_ctx demo_citizen (Some 1) []) demo_fined"

lemma demo_paid_status: "status_of (fst demo_paid) = 200"
  by code_simp


text \<open>
  The handler reads neither the fine's status nor whose fine it is: a fine that was cancelled
  becomes paid.
\<close>

lemma handlePay_pays_cancelled_fine:
  "map f_status (fines (w_db (snd (finish (handlePay demo_api demo_surroundings demo_ctx demo_citizen (Some 1) [])
     (world_of (demo_db\<lparr>fines := [demo_old_fine\<lparr>f_status := Cancelled\<rparr>]\<rparr>)))))) = [Paid]"
  by code_simp

text \<open>C6
  Webhooks are processed once: after a notification was answered 200, the same notification
  arriving again, on the database the first one left, is not answered 200 and changes nothing.
\<close>

theorem handleWebhook_idempotent:
  assumes "finish (handleWebhook a sur name hdrs body) w = (Status 200, w')" and "w_snap w = None"
    and "finish (handleWebhook a sur' name hdrs body) v = (r, v')" and "w_snap v = None" and "w_db v = w_db w'"
  shows "r \<noteq> Status 200 \<and> w_db v' = w_db v"
  using assms(3,4)
proof (cases rule: handleWebhook_cases)
  case nothing
  then show ?thesis by simp
next
  case second: (settled evt' p' f' v2 raw')
  from assms(1,2) show ?thesis
  proof (cases rule: handleWebhook_cases)
    case nothing
    then show ?thesis by simp
  next
    case first: (settled evt p f w2 raw)
    let ?s = "session_of (fa_admin_pool a) []"
    from first second have evt: "evt' = evt" by simp
    from first(6) obtain w1 where tx: "webhook_tx ?s sur (we_intent_id evt) w1 = (Inr (p, f), w2)" by blast
    have "payments (w_db w2) = update_rows fp_tenant ?s (\<lambda>q. fp_provider_ref q = we_intent_id evt)
        (\<lambda>q. q\<lparr>fp_status := PSucceeded, fp_paid_at := Some (db_now sur)\<rparr>) (payments (w_db w1))"
      by (rule webhook_tx_run [OF tx]) (simp add: mark_payment_def)
    then have pays: "payments (w_db v) = update_rows fp_tenant ?s (\<lambda>q. fp_provider_ref q = we_intent_id evt)
        (\<lambda>q. q\<lparr>fp_status := PSucceeded, fp_paid_at := Some (db_now sur)\<rparr>) (payments (w_db w1))"
      by (simp add: assms(5) first(7))
    from second(6) obtain v1 where "webhook_row ?s (we_intent_id evt) (w_db v) = Some (p', f')" "fp_status p' \<noteq> PSucceeded"
      unfolding evt by (elim exE conjE webhook_tx_run) simp
    then have "p' \<in> set (payments (w_db v))" "sees ?s (fp_tenant p')" "fp_provider_ref p' = we_intent_id evt" "fp_status p' \<noteq> PSucceeded"
      by (auto simp: webhook_row_def split: option.splits dest!: row_seen_SomeD)
    then show ?thesis unfolding pays by (auto simp: set_update_rows)
  qed
qed

definition demo_payment :: payment_row where
  "demo_payment = payment_row_of 60 ''NO'' 1 50000 ''NOK'' ''card'' ''dev_1'' PPending None"

definition demo_pending :: dbworld where
  "demo_pending = world_of (demo_db\<lparr>fines := [demo_old_fine], payments := [demo_payment]\<rparr>)"

definition demo_notified :: "fines_body response \<times> dbworld" where
  "demo_notified = finish (handleWebhook demo_api demo_surroundings ''dev-stub'' [] (Some ''signed'')) demo_pending"

theorem handleWebhook_idempotent_witness:
  "fst (finish (handleWebhook demo_api demo_surroundings ''dev-stub'' [] (Some ''signed'')) (snd demo_notified)) \<noteq> Status 200
   \<and> w_db (snd (finish (handleWebhook demo_api demo_surroundings ''dev-stub'' [] (Some ''signed'')) (snd demo_notified)))
     = w_db (snd demo_notified)"
proof (rule handleWebhook_idempotent [OF _ _ prod.collapse [symmetric]])
  have "fst demo_notified = Status 200" by code_simp
  then have "demo_notified = (Status 200, snd demo_notified)" by (intro prod_eqI) simp_all
  then show "finish (handleWebhook demo_api demo_surroundings ''dev-stub'' [] (Some ''signed'')) demo_pending
      = (Status 200, snd demo_notified)"
    unfolding demo_notified_def [symmetric] .
  show "w_snap demo_pending = None" by (simp add: demo_pending_def world_of_def)
  have "Option.is_none (w_snap (snd demo_notified))" by code_simp
  then show "w_snap (snd demo_notified) = None" by (simp add: Option.is_none_def)
qed simp

end
