(* ===== verification/Escalation.thy ===== *)
theory Escalation
  imports FinesIssue
begin

text \<open>
  The escalation sweep (\<open>services/fines/internal/escalation/engine.go\<close>): one query finds the
  fines below the stage their age calls for, then each of them is advanced in a transaction
  of its own. The sweep runs on the service's pool without a tenant.
\<close>

section \<open>The sweep\<close>

record cand =
  ec_fine_id :: uuid
  ec_tenant :: string
  ec_cur_stage :: int
  ec_next_stage :: int
  ec_action :: string

text \<open>
  The lateral subquery: the highest stage of the fine's tenant whose \<open>after_days\<close> is at most
  the number of days since the due date, fractions included.
\<close>

definition target_stage :: "session \<Rightarrow> time \<Rightarrow> db \<Rightarrow> fine_row \<Rightarrow> escalation_row option" where
  "target_stage s now d f =
     (case sort_key (\<lambda>r. - re_stage r)
             (filter (\<lambda>r. re_tenant r = f_tenant f \<and> days (re_after_days r) \<le> now - f_due_at f)
               (rows_seen re_tenant s (escalations d))) of
        [] \<Rightarrow> None
      | r # _ \<Rightarrow> Some r)"

definition due_escalation :: "session \<Rightarrow> time \<Rightarrow> db \<Rightarrow> fine_row \<Rightarrow> cand option" where
  "due_escalation s now d f =
     (case target_stage s now d f of
        None \<Rightarrow> None
      | Some r \<Rightarrow>
          if f_status f \<notin> {Paid, Cancelled, Disputed} \<and> f_stage f < re_stage r
          then Some \<lparr>ec_fine_id = f_id f, ec_tenant = f_tenant f, ec_cur_stage = f_stage f,
                     ec_next_stage = re_stage r, ec_action = re_action r\<rparr>
          else None)"

definition candidates :: "session \<Rightarrow> time \<Rightarrow> db \<Rightarrow> cand list" where
  "candidates s now d = List.map_filter (due_escalation s now d) (rows_seen f_tenant s (fines d))"

text \<open>The empty string of the source, an unknown action, is \<open>None\<close>.\<close>

definition statusFor :: "string \<Rightarrow> fine_status option" where
  "statusFor action =
     (if action = ''warning'' then Some Warned
      else if action = ''penalty'' then Some Warned
      else if action = ''flag'' then Some Overdue
      else if action = ''seize'' then Some Seized
      else if action = ''court'' then Some Court
      else None)"

definition move_to :: "int \<Rightarrow> string \<Rightarrow> fine_row \<Rightarrow> fine_row" where
  "move_to stage action f =
     (case statusFor action of
        None \<Rightarrow> f\<lparr>f_stage := stage\<rparr>
      | Some st \<Rightarrow> f\<lparr>f_stage := stage, f_status := st\<rparr>)"

definition escalated_event :: "surroundings \<Rightarrow> nat \<Rightarrow> cand \<Rightarrow> envelope" where
  "escalated_event sur k c =
     NewEnvelope sur (new_uuid sur k) ''fines'' (ec_tenant c) TypeFineEscalated 1
       (FineEscalated \<lparr>fep_fine_id = ec_fine_id c, fep_from_stage = ec_cur_stage c,
          fep_to_stage = ec_next_stage c, fep_action = ec_action c,
          fep_new_status = (case statusFor (ec_action c) of None \<Rightarrow> [] | Some st \<Rightarrow> fine_status_text st)\<rparr>)"

text \<open>The result of a job is the error it returns, \<open>None\<close> for \<open>nil\<close>.\<close>

type_synonym 'a sweep = "(db, effect, goerr option, 'a) act"

definition advance_tx :: "session \<Rightarrow> surroundings \<Rightarrow> nat \<Rightarrow> cand \<Rightarrow> goerr option sweep" where
  "advance_tx s sur k c =
     bind (exec_or (\<lambda>_. Some PlainError) (query_row (fine_seen s (ec_fine_id c)))) (\<lambda>f.
     andthen (guard (\<not> f_stage f \<ge> ec_next_stage c) None) (
     andthen (exec_or (\<lambda>_. Some PlainError)
               (change (update_fine s (ec_fine_id c) (move_to (ec_next_stage c) (ec_action c))))) (
     andthen (WriteOutbox (Some PlainError) s sur (escalated_event sur k c)) (
     ret None))))"

definition advance :: "session \<Rightarrow> surroundings \<Rightarrow> nat \<Rightarrow> cand \<Rightarrow> goerr option sweep" where
  "advance s sur k c = in_tx (Some PlainError) (advance_tx s sur k c)"

definition sweep_step :: "session \<Rightarrow> surroundings \<Rightarrow> nat \<times> cand \<Rightarrow> unit sweep" where
  "sweep_step s sur kc = bind (attempt (advance s sur (fst kc) (snd kc))) (\<lambda>_. ret ())"

definition RunOnce :: "dbrole \<Rightarrow> surroundings \<Rightarrow> goerr option sweep" where
  "RunOnce role sur =
     bind (exec_or (\<lambda>_. Some PlainError) (query (candidates (session_of role []) (db_now sur)))) (\<lambda>batch.
     andthen (for_each (sweep_step (session_of role []) sur) (List.enumerate 0 batch)) (
     ret None))"

section \<open>One step\<close>

lemma tx_advance_tx: "keeps same_tx (advance_tx s sur k c)"
  unfolding advance_tx_def by (intro db_tx_steps)

definition advances_by :: "session \<Rightarrow> cand \<Rightarrow> db \<Rightarrow> db \<Rightarrow> bool" where
  "advances_by s c d d' \<longleftrightarrow>
     (\<exists>f. fine_seen s (ec_fine_id c) d = Some f \<and> f_stage f < ec_next_stage c)
     \<and> (\<exists>ob. d' = (update_fine s (ec_fine_id c) (move_to (ec_next_stage c) (ec_action c)) d)\<lparr>outbox := outbox d @ [ob]\<rparr>
          \<and> ob_tenant ob = ec_tenant c)"

lemma advance_tx_run:
  assumes "advance_tx s sur k c w = (Inr x, w')"
  shows "x = None \<and> advances_by s c (w_db w) (w_db w')"
proof -
  from assms obtain f w1 w2 w3 u1 u2 where
    q: "exec_or (\<lambda>_. Some PlainError) (query_row (fine_seen s (ec_fine_id c))) w = (Inr f, w1)" and
    lt: "f_stage f < ec_next_stage c" and
    upd: "exec_or (\<lambda>_. Some PlainError) (change (update_fine s (ec_fine_id c) (move_to (ec_next_stage c) (ec_action c)))) w1 = (Inr u1, w2)" and
    out: "WriteOutbox (Some PlainError) s sur (escalated_event sur k c) w2 = (Inr u2, w3)" and
    x: "x = None" "w' = w3"
    unfolding advance_tx_def by (elim bindE andthenE) auto
  from out obtain n where db3: "w_db w3 = (w_db w2)\<lparr>outbox := outbox (w_db w2) @ [outbox_row_of sur n (escalated_event sur k c)]\<rparr>"
    by (rule WriteOutbox_db)
  have db2: "w_db w2 = update_fine s (ec_fine_id c) (move_to (ec_next_stage c) (ec_action c)) (w_db w)"
    and seen: "fine_seen s (ec_fine_id c) (w_db w) = Some f"
    using exec_query_row_db [OF q] exec_change_db [OF upd] by simp_all
  show ?thesis
    unfolding advances_by_def x db3 db2
    by (intro conjI exI [of _ f] exI [of _ "outbox_row_of sur n (escalated_event sur k c)"])
      (use seen lt in \<open>simp_all add: outbox_row_of_def escalated_event_def NewEnvelope_def\<close>)
qed

lemma advance_cases:
  assumes "advance s sur k c w = (res, w')" and "w_snap w = None"
  shows "w_snap w' = None \<and> (w_db w' = w_db w \<or> advances_by s c (w_db w) (w_db w'))"
  using assms(1)[unfolded advance_def] assms(2) tx_advance_tx
proof (cases rule: in_tx_cases)
  case (committed x w1 w2)
  with advance_tx_run [OF committed(2)] show ?thesis by simp
qed simp

lemma move_to_fields [simp]: "f_id (move_to st ac f) = f_id f" "f_tenant (move_to st ac f) = f_tenant f"
  "f_stage (move_to st ac f) = st" "f_amount (move_to st ac f) = f_amount f" "f_due_at (move_to st ac f) = f_due_at f"
  "f_paid_at (move_to st ac f) = f_paid_at f"
  by (simp_all add: move_to_def split: option.splits)

section \<open>The whole batch\<close>

text \<open>
  The sweep's invariant: a fine is as it was, or it was advanced as one of the candidates
  says. The candidates of a batch have different fines, so no fine is advanced twice.
\<close>

definition moved :: "session \<Rightarrow> cand list \<Rightarrow> fine_row \<Rightarrow> fine_row \<Rightarrow> bool" where
  "moved s cs f f' \<longleftrightarrow> f' = f
     \<or> (\<exists>c\<in>set cs. ec_fine_id c = f_id f \<and> sees s (f_tenant f) \<and> f' = move_to (ec_next_stage c) (ec_action c) f)"

lemma sweep_step_run: "advance s sur k c w = (r, w1) \<Longrightarrow> sweep_step s sur (k, c) w = (Inr (), w1)"
  by (simp add: sweep_step_def bind_def attempt_def ret_def)

lemma sweep_batch:
  assumes "for_each (sweep_step s sur) (List.enumerate k cs) w = (res, w')"
    and "w_snap w = None" and "distinct (map ec_fine_id cs)"
  shows "res = Inr () \<and> w_snap w' = None \<and> (\<exists>fs obs. list_all2 (moved s cs) (fines (w_db w)) fs
    \<and> w_db w' = (w_db w)\<lparr>fines := fs, outbox := outbox (w_db w) @ obs\<rparr>)"
  using assms
proof (induction cs arbitrary: k w)
  case Nil
  have "list_all2 (moved s []) (fines (w_db w)) (fines (w_db w))"
    by (rule list_all2_refl) (simp add: moved_def)
  with Nil show ?case by (auto simp: ret_def intro!: exI [of _ "fines (w_db w)"] exI [of _ "[] :: outbox_row list"])
next
  case (Cons c cs)
  obtain r w1 where one: "advance s sur k c w = (r, w1)" by fastforce
  have rest: "for_each (sweep_step s sur) (List.enumerate (Suc k) cs) w1 = (res, w')"
    using Cons.prems(1) by (simp add: andthen_ok [where m = "sweep_step s sur (k, c)", OF sweep_step_run [OF one]])
  from advance_cases [OF one Cons.prems(2)] have idle: "w_snap w1 = None" and
    step: "w_db w1 = w_db w \<or> advances_by s c (w_db w) (w_db w1)" by simp_all
  from step obtain fsx obx where db1: "w_db w1 = (w_db w)\<lparr>fines := fsx, outbox := outbox (w_db w) @ obx\<rparr>" and
    first: "list_all2 (\<lambda>f f1. f1 = f \<or> ec_fine_id c = f_id f \<and> sees s (f_tenant f) \<and> f1 = move_to (ec_next_stage c) (ec_action c) f)
      (fines (w_db w)) fsx"
  proof (elim disjE)
    assume "w_db w1 = w_db w"
    then show thesis by (intro that [where fsx = "fines (w_db w)" and obx = "[]"]) (simp_all add: list_all2_refl)
  next
    assume "advances_by s c (w_db w) (w_db w1)"
    then obtain ob where "w_db w1 = (update_fine s (ec_fine_id c) (move_to (ec_next_stage c) (ec_action c)) (w_db w))\<lparr>outbox := outbox (w_db w) @ [ob]\<rparr>"
      unfolding advances_by_def by blast
    then show thesis
      by (intro that [where obx = "[ob]" and fsx = "update_rows f_tenant s (\<lambda>r. f_id r = ec_fine_id c) (move_to (ec_next_stage c) (ec_action c)) (fines (w_db w))"])
        (auto simp: update_fine_def update_rows_def list_all2_conv_all_nth)
  qed
  from Cons.prems(3) have "distinct (map ec_fine_id cs)" by simp
  from Cons.IH [OF rest idle this] obtain fs obs where
    done_: "res = Inr ()" "w_snap w' = None" and tail: "list_all2 (moved s cs) fsx fs" and
    db: "w_db w' = (w_db w)\<lparr>fines := fs, outbox := outbox (w_db w) @ (obx @ obs)\<rparr>"
    by (auto simp: db1)
  have ne: "ec_fine_id x \<noteq> ec_fine_id c" if "x \<in> set cs" for x
    using Cons.prems(3) that by (force simp: image_iff)
  have "list_all2 (moved s (c # cs)) (fines (w_db w)) fs"
  proof (rule list_all2_trans [OF _ first tail])
    fix f f1 f2
    assume "f1 = f \<or> ec_fine_id c = f_id f \<and> sees s (f_tenant f) \<and> f1 = move_to (ec_next_stage c) (ec_action c) f"
      and "moved s cs f1 f2"
    then show "moved s (c # cs) f f2"
      using ne by (auto simp: moved_def)
  qed
  with done_ db show ?case by blast
qed

section \<open>Candidates\<close>

lemma due_escalation_Some:
  assumes "due_escalation s now d f = Some c"
  obtains r where "target_stage s now d f = Some r" "f_status f \<notin> {Paid, Cancelled, Disputed}"
    "f_stage f < re_stage r" "ec_fine_id c = f_id f" "ec_tenant c = f_tenant f"
    "ec_next_stage c = re_stage r" "ec_action c = re_action r"
  using assms by (auto simp: due_escalation_def split: option.splits if_splits)

lemma set_candidates:
  "c \<in> set (candidates s now d) \<longleftrightarrow> (\<exists>f\<in>set (fines d). sees s (f_tenant f) \<and> due_escalation s now d f = Some c)"
  by (auto simp: candidates_def set_map_filter table_simps)

lemma distinct_candidates:
  assumes "distinct (map f_id (fines d))"
  shows "distinct (map ec_fine_id (candidates s now d))"
  unfolding candidates_def
  by (rule distinct_map_filter_key [where k = f_id])
    (use assms in \<open>auto simp: rows_seen_def distinct_filter_map elim: due_escalation_Some\<close>)

lemma RunOnce_run:
  assumes "finish (RunOnce role sur) w = (res, w')" and "w_snap w = None"
    and "distinct (map f_id (fines (w_db w)))"
  obtains (failed) "res = Some PlainError" "w_db w' = w_db w"
  | (swept) fs obs where "res = None"
      "list_all2 (moved (session_of role []) (candidates (session_of role []) (db_now sur) (w_db w))) (fines (w_db w)) fs"
      "w_db w' = (w_db w)\<lparr>fines := fs, outbox := outbox (w_db w) @ obs\<rparr>"
proof -
  let ?s = "session_of role []"
  obtain q w1 where q: "exec_or (\<lambda>_. Some PlainError) (query (candidates ?s (db_now sur))) w = (q, w1)" by fastforce
  have same: "w_db w1 = w_db w" "w_snap w1 = None"
    using keepsD [OF rd_exec_or [OF reads_query(1)] q] assms(2) by (simp_all add: same_db_def)
  show thesis
  proof (cases q)
    case (Inl e)
    then have "e = Some PlainError"
      using stops_withD [OF sw_exec_or [of "\<lambda>e. e = Some PlainError"] q [unfolded Inl]] by simp
    with q Inl assms(1) same show thesis
      by (intro failed) (auto simp: RunOnce_def finish_def bind_def)
  next
    case (Inr batch)
    from exec_query_db [OF q [unfolded Inr]] have batch: "batch = candidates ?s (db_now sur) (w_db w)" by simp
    obtain r w2 where loop: "for_each (sweep_step ?s sur) (List.enumerate 0 batch) w1 = (r, w2)" by fastforce
    have "distinct (map ec_fine_id batch)"
      unfolding batch using assms(3) by (rule distinct_candidates)
    from sweep_batch [OF loop same(2) this, unfolded same(1)] obtain fs obs where
      r: "r = Inr ()" and fs: "list_all2 (moved ?s batch) (fines (w_db w)) fs" and
      db: "w_db w2 = (w_db w)\<lparr>fines := fs, outbox := outbox (w_db w) @ obs\<rparr>"
      by blast
    have "RunOnce role sur w = (Inr None, w2)"
      using q loop by (simp add: Inr r RunOnce_def bind_def andthen_def ret_def)
    with assms(1) have "res = None" "w' = w2" by (simp_all add: finish_def)
    then show thesis by (intro swept [of fs obs]) (use fs db batch in simp_all)
  qed
qed

section \<open>Properties\<close>

text \<open>C9
  A sweep touches only what is due, whatever statements fail in it: row by row, a fine is
  unchanged unless it was open (not paid, cancelled or disputed) and below the stage its age
  calls for; then it may have been advanced to exactly that stage, with the status of that
  stage's action. Amounts, due dates and every table but the outbox stay as they are.
\<close>

theorem escalation_touches_only_due_fines:
  assumes "finish (RunOnce role sur) w = (res, w')" and "w_snap w = None"
    and "distinct (map f_id (fines (w_db w)))"
  shows "list_all2 (\<lambda>f f'. f' = f \<or>
      (f_status f \<notin> {Paid, Cancelled, Disputed}
       \<and> (\<exists>r. target_stage (session_of role []) (db_now sur) (w_db w) f = Some r \<and> f_stage f < re_stage r
            \<and> f' = move_to (re_stage r) (re_action r) f)))
      (fines (w_db w)) (fines (w_db w'))
    \<and> (w_db w')\<lparr>fines := fines (w_db w), outbox := outbox (w_db w)\<rparr> = w_db w"
  using assms
proof (cases rule: RunOnce_run)
  case failed
  then show ?thesis by (auto intro: list_all2_refl)
next
  case (swept fs obs)
  have "list_all2 (\<lambda>f f'. f' = f \<or>
      (f_status f \<notin> {Paid, Cancelled, Disputed}
       \<and> (\<exists>r. target_stage (session_of role []) (db_now sur) (w_db w) f = Some r \<and> f_stage f < re_stage r
            \<and> f' = move_to (re_stage r) (re_action r) f))) (fines (w_db w)) fs"
    using swept(2)
  proof (rule list.rel_mono_strong)
    fix f f'
    assume f: "f \<in> set (fines (w_db w))" and "moved (session_of role []) (candidates (session_of role []) (db_now sur) (w_db w)) f f'"
    then consider "f' = f"
      | c g where "g \<in> set (fines (w_db w))" "due_escalation (session_of role []) (db_now sur) (w_db w) g = Some c"
        "ec_fine_id c = f_id f" "f' = move_to (ec_next_stage c) (ec_action c) f"
      unfolding moved_def Bex_def set_candidates by metis
    then show "f' = f \<or> (f_status f \<notin> {Paid, Cancelled, Disputed}
       \<and> (\<exists>r. target_stage (session_of role []) (db_now sur) (w_db w) f = Some r \<and> f_stage f < re_stage r
            \<and> f' = move_to (re_stage r) (re_action r) f))"
    proof cases
      case 2
      from 2(2,3) have "f_id g = f_id f" by (auto elim: due_escalation_Some)
      with assms(3) f 2(1) have "g = f" by (auto simp: distinct_map inj_on_def)
      with 2 show ?thesis by (auto elim!: due_escalation_Some)
    qed simp
  qed
  with swept(3) show ?thesis by simp
qed

definition demo_stage :: "int \<Rightarrow> int \<Rightarrow> string \<Rightarrow> escalation_row" where
  "demo_stage n after action = \<lparr>re_tenant = ''NO'', re_stage = n, re_after_days = after, re_action = action\<rparr>"

definition demo_overdue :: dbworld where
  "demo_overdue = world_of (demo_db\<lparr>
     escalations := [demo_stage 1 7 ''warning'', demo_stage 2 14 ''penalty'', demo_stage 3 30 ''flag'', demo_stage 4 60 ''seize''],
     fines := [demo_old_fine\<lparr>f_due_at := days 19960\<rparr>,
               demo_old_fine\<lparr>f_id := 2, f_due_at := days 19960, f_status := Paid\<rparr>]\<rparr>)"

lemma demo_overdue_facts: "w_snap demo_overdue = None" "distinct (map f_id (fines (w_db demo_overdue)))"
  "w_faults demo_overdue = []" "\<not> w_aborted demo_overdue" "outbox (w_db demo_overdue) = []"
  by (simp_all add: demo_overdue_def world_of_def demo_db_def empty_db_def demo_old_fine_def)

theorem escalation_touches_only_due_fines_witness:
  "f_status (fines (w_db (snd (finish (RunOnce BypassesRls demo_surroundings) demo_overdue))) ! 1) = Paid"
proof -
  let ?run = "finish (RunOnce BypassesRls demo_surroundings) demo_overdue"
  from escalation_touches_only_due_fines [OF prod.collapse [symmetric] demo_overdue_facts(1,2)]
  have "list_all2 (\<lambda>f f'. f' = f \<or> f_status f \<notin> {Paid, Cancelled, Disputed})
      (fines (w_db demo_overdue)) (fines (w_db (snd ?run)))"
    by (rule conjE) (erule list_all2_mono, blast)
  from list_all2_nthD [OF this, of 1] show ?thesis
    by (simp add: demo_overdue_def world_of_def)
qed

text \<open>
  The candidate is computed before its transaction, and the transaction looks at the stage
  alone: a fine paid in between is taken back out of the paid state.
\<close>

lemma advance_overwrites_paid_fine:
  "map f_status (fines (w_db (snd (advance BypassRls demo_surroundings 0
      \<lparr>ec_fine_id = 2, ec_tenant = ''NO'', ec_cur_stage = 0, ec_next_stage = 3, ec_action = ''flag''\<rparr> demo_overdue)))) = [Issued, Overdue]"
  by code_simp

section \<open>A sweep without faults\<close>

text \<open>What a sweep should do to a fine, as one function.\<close>

definition escalated :: "session \<Rightarrow> time \<Rightarrow> db \<Rightarrow> fine_row \<Rightarrow> fine_row" where
  "escalated s now d f =
     (case (if sees s (f_tenant f) then due_escalation s now d f else None) of
        None \<Rightarrow> f
      | Some c \<Rightarrow> move_to (ec_next_stage c) (ec_action c) f)"

definition outbox_fresh :: "dbworld \<Rightarrow> bool" where
  "outbox_fresh w \<longleftrightarrow> (\<forall>r\<in>set (outbox (w_db w)). ob_id r \<le> w_seq w ''event_outbox'')"

lemma WriteOutbox_ok:
  assumes "healthy w" and "outbox_fresh w" and "sees s (env_tenant env)"
  shows "\<exists>ob w'. WriteOutbox k s sur env w = (Inr (), w') \<and> w_db w' = (w_db w)\<lparr>outbox := outbox (w_db w) @ [ob]\<rparr>
    \<and> healthy w' \<and> outbox_fresh w' \<and> w_snap w' = w_snap w"
proof -
  let ?n = "w_seq w ''event_outbox'' + 1"
  let ?w1 = "w\<lparr>w_seq := (w_seq w)(''event_outbox'' := ?n)\<rparr>"
  let ?d = "(w_db w)\<lparr>outbox := outbox (w_db w) @ [outbox_row_of sur ?n env]\<rparr>"
  have "insert_outbox s (outbox_row_of sur ?n env) (w_db ?w1) = Inr ((), ?d)"
    using assms(2,3) by (force simp: insert_outbox_Inr outbox_row_of_def outbox_fresh_def)
  then have "exec_or (\<lambda>_. k) (insert_outbox s (outbox_row_of sur ?n env)) ?w1 = (Inr (), ?w1\<lparr>w_db := ?d\<rparr>)"
    using assms(1) by (intro exec_or_ok) simp_all
  then have run: "WriteOutbox k s sur env w = (Inr (), ?w1\<lparr>w_db := ?d\<rparr>)"
    by (simp add: WriteOutbox_def bind_def nextval_def Let_def)
  show ?thesis
    by (rule exI [of _ "outbox_row_of sur ?n env"], rule exI [of _ "?w1\<lparr>w_db := ?d\<rparr>"], intro conjI, rule run)
      (use assms(1,2) in \<open>auto simp: outbox_fresh_def outbox_row_of_def\<close>)
qed

lemma advance_ok:
  assumes "healthy w" and "outbox_fresh w" and "w_snap w = None"
    and "fine_seen s (ec_fine_id c) (w_db w) = Some f" and "f_stage f < ec_next_stage c" and "sees s (ec_tenant c)"
  shows "\<exists>w' ob. advance s sur k c w = (Inr None, w') \<and> healthy w' \<and> outbox_fresh w' \<and> w_snap w' = None
    \<and> w_db w' = (update_fine s (ec_fine_id c) (move_to (ec_next_stage c) (ec_action c)) (w_db w))\<lparr>outbox := outbox (w_db w) @ [ob]\<rparr>"
proof -
  let ?w1 = "w\<lparr>w_snap := Some (w_db w), w_save := None\<rparr>"
  let ?d = "update_fine s (ec_fine_id c) (move_to (ec_next_stage c) (ec_action c)) (w_db w)"
  have q: "exec_or (\<lambda>_. Some PlainError) (query_row (fine_seen s (ec_fine_id c))) ?w1 = (Inr f, ?w1)"
    using assms by (intro exec_query_row_ok) simp_all
  have u: "exec_or (\<lambda>_. Some PlainError) (change (update_fine s (ec_fine_id c) (move_to (ec_next_stage c) (ec_action c)))) ?w1
      = (Inr (), ?w1\<lparr>w_db := ?d\<rparr>)"
    using exec_change_ok [of ?w1 "\<lambda>_. Some PlainError" "update_fine s (ec_fine_id c) (move_to (ec_next_stage c) (ec_action c))"] assms by simp
  have "healthy (?w1\<lparr>w_db := ?d\<rparr>)" "outbox_fresh (?w1\<lparr>w_db := ?d\<rparr>)"
    "sees s (env_tenant (escalated_event sur k c))"
    using assms by (simp_all add: outbox_fresh_def escalated_event_def)
  from WriteOutbox_ok [OF this, of "Some PlainError" sur] obtain ob w2 where
    out: "WriteOutbox (Some PlainError) s sur (escalated_event sur k c) (?w1\<lparr>w_db := ?d\<rparr>) = (Inr (), w2)" and
    db2: "w_db w2 = ?d\<lparr>outbox := outbox ?d @ [ob]\<rparr>" and ok2: "healthy w2" "outbox_fresh w2"
    by auto
  have "advance_tx s sur k c ?w1 = (Inr None, w2)"
    using assms(5) by (simp add: advance_tx_def bind_def andthen_def q u out guard_def ret_def)
  from in_tx_ok [where body = "advance_tx s sur k c", OF assms(1,3) this ok2(1)] have "advance s sur k c w = (Inr None, w2\<lparr>w_snap := None, w_save := None\<rparr>)"
    by (simp add: advance_def)
  then show ?thesis
    using ok2 db2 by (intro exI [of _ "w2\<lparr>w_snap := None, w_save := None\<rparr>"] exI [of _ ob])
      (simp add: outbox_fresh_def)
qed

definition apply_cand :: "session \<Rightarrow> cand list \<Rightarrow> fine_row \<Rightarrow> fine_row" where
  "apply_cand s cs f =
     (case (if sees s (f_tenant f) then find (\<lambda>c. ec_fine_id c = f_id f) cs else None) of
        None \<Rightarrow> f
      | Some c \<Rightarrow> move_to (ec_next_stage c) (ec_action c) f)"

lemma find_key_None: "k \<notin> set (map h cs) \<Longrightarrow> find (\<lambda>c. h c = k) cs = None"
  by (auto simp: find_None_iff)

lemma sweep_batch_ok:
  assumes "healthy w" and "outbox_fresh w" and "w_snap w = None" and "distinct (map ec_fine_id cs)"
    and "\<And>c. c \<in> set cs \<Longrightarrow> sees s (ec_tenant c)
      \<and> (\<exists>f. fine_seen s (ec_fine_id c) (w_db w) = Some f \<and> f_stage f < ec_next_stage c)"
  shows "\<exists>w' obs. for_each (sweep_step s sur) (List.enumerate k cs) w = (Inr (), w')
    \<and> w_db w' = (w_db w)\<lparr>fines := map (apply_cand s cs) (fines (w_db w)), outbox := outbox (w_db w) @ obs\<rparr>"
  using assms
proof (induction cs arbitrary: k w)
  case Nil
  have "map (apply_cand s []) (fines (w_db w)) = fines (w_db w)" by (rule map_idI) (simp add: apply_cand_def)
  then show ?case by (intro exI [of _ w] exI [of _ "[]"]) (simp add: ret_def)
next
  case (Cons c cs)
  from Cons.prems(5) [of c] obtain f where f: "fine_seen s (ec_fine_id c) (w_db w) = Some f" "f_stage f < ec_next_stage c"
    and sees: "sees s (ec_tenant c)" by auto
  from advance_ok [OF Cons.prems(1-3) f sees] obtain w1 ob where
    one: "advance s sur k c w = (Inr None, w1)" and ok: "healthy w1" "outbox_fresh w1" "w_snap w1 = None" and
    db1: "w_db w1 = (update_fine s (ec_fine_id c) (move_to (ec_next_stage c) (ec_action c)) (w_db w))\<lparr>outbox := outbox (w_db w) @ [ob]\<rparr>"
    by blast
  have notin: "ec_fine_id c \<notin> set (map ec_fine_id cs)" and dist: "distinct (map ec_fine_id cs)"
    using Cons.prems(4) by simp_all
  have "sees s (ec_tenant x) \<and> (\<exists>f. fine_seen s (ec_fine_id x) (w_db w1) = Some f \<and> f_stage f < ec_next_stage x)"
    if x: "x \<in> set cs" for x
  proof -
    from x have "ec_fine_id x \<in> set (map ec_fine_id cs)" by simp
    with notin have "ec_fine_id x \<noteq> ec_fine_id c" by metis
    then have "fine_seen s (ec_fine_id x) (w_db w1) = fine_seen s (ec_fine_id x) (w_db w)"
      unfolding fine_seen_def by (simp add: db1) (rule row_seen_update_other, auto)
    with Cons.prems(5) [of x] x show ?thesis by simp
  qed
  from Cons.IH [OF ok dist this] obtain w' obs where
    rest: "for_each (sweep_step s sur) (List.enumerate (Suc k) cs) w1 = (Inr (), w')" and
    db': "w_db w' = (w_db w1)\<lparr>fines := map (apply_cand s cs) (fines (w_db w1)), outbox := outbox (w_db w1) @ obs\<rparr>"
    by blast
  have run: "for_each (sweep_step s sur) (List.enumerate k (c # cs)) w = (Inr (), w')"
    using rest by (simp add: andthen_ok [where m = "sweep_step s sur (k, c)", OF sweep_step_run [OF one]])
  have "map (apply_cand s cs) (fines (w_db w1)) = map (apply_cand s (c # cs)) (fines (w_db w))"
    using find_key_None [OF notin] by (auto simp: db1 update_rows_def apply_cand_def)
  with run show ?case by (intro exI [of _ w'] exI [of _ "ob # obs"]) (simp add: db' db1 update_fine_def)
qed

lemma fine_seen_own:
  assumes "distinct (map f_id (fines d))" and "f \<in> set (fines d)" and "sees s (f_tenant f)"
  shows "fine_seen s (f_id f) d = Some f"
  unfolding fine_seen_def using assms by (rule row_seen_own)

lemma apply_candidates:
  assumes "distinct (map f_id (fines d))" and "f \<in> set (fines d)"
  shows "apply_cand s (candidates s now d) f = escalated s now d f"
proof (cases "sees s (f_tenant f)")
  case seen: True
  have uniq: "g = f" if "g \<in> set (fines d)" "f_id g = f_id f" for g
    using assms that by (auto simp: distinct_map inj_on_def)
  show ?thesis
  proof (cases "due_escalation s now d f")
    case None
    have "find (\<lambda>c. ec_fine_id c = f_id f) (candidates s now d) = None"
      unfolding find_None_iff set_candidates using uniq None due_escalation_Some
      by (metis option.distinct(1))
    with None seen show ?thesis by (simp add: apply_cand_def escalated_def)
  next
    case (Some c)
    then have id_c: "ec_fine_id c = f_id f" by (rule due_escalation_Some)
    have "c \<in> set (candidates s now d)" unfolding set_candidates using assms(2) seen Some by blast
    from find_unique [OF distinct_candidates [OF assms(1)] this]
    have "find (\<lambda>x. ec_fine_id x = f_id f) (candidates s now d) = Some c" by (simp add: id_c)
    with Some seen show ?thesis by (simp add: apply_cand_def escalated_def)
  qed
qed (simp add: apply_cand_def escalated_def)



end
