(* ===== verification/Reaper.thy ===== *)
theory Reaper
  imports FinesIssue
begin

text \<open>
  The evidence reaper (\<open>services/fines/internal/reaper/reaper.go\<close>): one query finds the
  evidence past its retention deadline, then each item is sealed, the stored object first and
  the row in a transaction of its own. The object store
  (\<open>packages/go-common/contracts/storage\<close>) is the parameter \<open>delete\<close>: the text of the error
  its \<open>Delete\<close> answers for a key, \<open>None\<close> for success.
\<close>

section \<open>The sweep\<close>

record reap_cand =
  rc_evidence :: uuid
  rc_fine :: uuid
  rc_tenant :: string
  rc_s3_key :: string

type_synonym object_store = "string \<Rightarrow> string option"
type_synonym 'a reaping = "(db, effect, goerr option, 'a) act"

definition policy_of :: "session \<Rightarrow> string \<Rightarrow> db \<Rightarrow> retention_row option" where
  "policy_of s ten d = row_seen rp_tenant s (\<lambda>p. rp_tenant p = ten) (retention d)"

definition coalesce :: "'a option \<Rightarrow> 'a \<Rightarrow> 'a" where
  "coalesce x y = (case x of None \<Rightarrow> y | Some v \<Rightarrow> v)"

text \<open>The \<open>CASE\<close> of the query; \<open>None\<close> is \<open>infinity\<close>.\<close>

definition retention_deadline :: "retention_row option \<Rightarrow> fine_row \<Rightarrow> time option" where
  "retention_deadline p f =
     (if f_status f = Paid \<and> f_paid_at f \<noteq> None
      then Some (the (f_paid_at f) + days (coalesce (map_option rp_paid_fine_days p) 1825))
      else if f_status f = Cancelled
      then Some (f_issued_at f + days (coalesce (map_option rp_cancelled_fine_days p) 365))
      else if f_status f = Court
      then (case p of None \<Rightarrow> None
            | Some q \<Rightarrow> map_option (\<lambda>n. f_issued_at f + days n) (rp_court_case_days q))
      else Some (f_issued_at f + days (coalesce (map_option rp_default_days p) 1825)))"

definition expired :: "time \<Rightarrow> retention_row option \<Rightarrow> fine_row \<Rightarrow> bool" where
  "expired now p f \<longleftrightarrow> (case retention_deadline p f of None \<Rightarrow> False | Some t \<Rightarrow> now > t)"

definition reapable :: "session \<Rightarrow> time \<Rightarrow> db \<Rightarrow> evidence_row \<Rightarrow> bool" where
  "reapable s now d e \<longleftrightarrow>
     (case fine_seen s (fe_fine_id e) d of
        None \<Rightarrow> False
      | Some f \<Rightarrow>
          fe_sealed_at e = None
          \<and> \<not> coalesce (map_option rp_legal_hold_active (policy_of s (fe_tenant e) d)) False
          \<and> expired now (policy_of s (fe_tenant e) d) f)"

definition reap_candidates :: "session \<Rightarrow> time \<Rightarrow> db \<Rightarrow> reap_cand list" where
  "reap_candidates s now d =
     map (\<lambda>e. \<lparr>rc_evidence = fe_id e, rc_fine = fe_fine_id e, rc_tenant = fe_tenant e, rc_s3_key = fe_s3_key e\<rparr>)
       (filter (reapable s now d) (rows_seen fe_tenant s (evidence d)))"

definition isNotFound :: "string option \<Rightarrow> bool" where
  "isNotFound err = (case err of None \<Rightarrow> False | Some text \<Rightarrow> text = ''storage: not found'')"

definition evidence_seen :: "session \<Rightarrow> uuid \<Rightarrow> db \<Rightarrow> evidence_row option" where
  "evidence_seen s eid d = row_seen fe_tenant s (\<lambda>e. fe_id e = eid) (evidence d)"

definition mark_sealed :: "session \<Rightarrow> uuid \<Rightarrow> time \<Rightarrow> db \<Rightarrow> db" where
  "mark_sealed s eid now d = d\<lparr>evidence := update_rows fe_tenant s (\<lambda>e. fe_id e = eid)
     (fe_sealed_at_update (\<lambda>_. Some now)) (evidence d)\<rparr>"

definition sealed_row :: "surroundings \<Rightarrow> int \<Rightarrow> reap_cand \<Rightarrow> custody_row" where
  "sealed_row sur n c =
     \<lparr>cu_id = n, cu_tenant = rc_tenant c, cu_fine_id = rc_fine c, cu_evidence_id = rc_evidence c,
      cu_action = ''sealed'', cu_actor_user = None, cu_actor_role = None, cu_actor_device = None,
      cu_details = [(''reason'', ''retention_policy'')], cu_occurred_at = db_now sur\<rparr>"

definition seal_tx :: "session \<Rightarrow> surroundings \<Rightarrow> reap_cand \<Rightarrow> goerr option reaping" where
  "seal_tx s sur c =
     bind (exec_or (\<lambda>_. Some PlainError)
             (query_row (\<lambda>d. map_option (\<lambda>e. fe_sealed_at e \<noteq> None) (evidence_seen s (rc_evidence c) d)))) (\<lambda>is_sealed.
     andthen (guard (\<not> is_sealed) None) (
     andthen (exec_or (\<lambda>_. Some PlainError) (change (mark_sealed s (rc_evidence c) (db_now sur)))) (
     bind (nextval ''evidence_custody'') (\<lambda>n.
     andthen (exec_or (\<lambda>_. Some PlainError) (insert_custody s (sealed_row sur n c))) (
     ret None)))))"

definition seal :: "session \<Rightarrow> object_store \<Rightarrow> surroundings \<Rightarrow> reap_cand \<Rightarrow> goerr option reaping" where
  "seal s delete sur c =
     (let err = delete (rc_s3_key c) in
      andthen (guard (\<not> (err \<noteq> None \<and> \<not> isNotFound err)) (Some PlainError)) (
      andthen (if err = None then emit (ObjectDeleted (rc_s3_key c)) else ret ()) (
      in_tx (Some PlainError) (seal_tx s sur c))))"

text \<open>The loop of \<open>RunOnce\<close> and its counter of the seals that returned no error.\<close>

fun reap_batch :: "session \<Rightarrow> object_store \<Rightarrow> surroundings \<Rightarrow> reap_cand list \<Rightarrow> nat reaping" where
  "reap_batch s delete sur [] = ret 0"
| "reap_batch s delete sur (c # cs) =
     bind (attempt (seal s delete sur c)) (\<lambda>res.
     bind (reap_batch s delete sur cs) (\<lambda>n.
     ret (if (case res of Inl e \<Rightarrow> e | Inr e \<Rightarrow> e) = None then Suc n else n)))"

definition reap :: "dbrole \<Rightarrow> object_store \<Rightarrow> surroundings \<Rightarrow> nat reaping" where
  "reap role delete sur =
     bind (exec_or (\<lambda>_. Some PlainError) (query (reap_candidates (session_of role []) (db_now sur)))) (\<lambda>batch.
     reap_batch (session_of role []) delete sur batch)"

section \<open>One item\<close>

lemma tx_seal_tx: "keeps same_tx (seal_tx s sur c)"
  unfolding seal_tx_def by (intro db_tx_steps)

text \<open>What one successful seal does to the database.\<close>

definition seals :: "session \<Rightarrow> surroundings \<Rightarrow> reap_cand \<Rightarrow> db \<Rightarrow> db \<Rightarrow> bool" where
  "seals s sur c d d' \<longleftrightarrow>
     (\<exists>e n. evidence_seen s (rc_evidence c) d = Some e \<and> fe_sealed_at e = None
       \<and> d' = (mark_sealed s (rc_evidence c) (db_now sur) d)\<lparr>custody := custody d @ [sealed_row sur n c]\<rparr>)"

lemma seal_tx_run:
  assumes "seal_tx s sur c w = (Inr x, w')"
  shows "seals s sur c (w_db w) (w_db w')"
proof -
  from assms obtain b w0 w1 u0 u1 w2 n w3 u2 w4 where
    q: "exec_or (\<lambda>_. Some PlainError)
      (query_row (\<lambda>d. map_option (\<lambda>e. fe_sealed_at e \<noteq> None) (evidence_seen s (rc_evidence c) d))) w = (Inr b, w0)" and
    gd: "(guard (\<not> b) None :: unit reaping) w0 = (Inr u0, w1)" and
    upd: "exec_or (\<lambda>_. Some PlainError) (change (mark_sealed s (rc_evidence c) (db_now sur))) w1 = (Inr u1, w2)" and
    seq: "(nextval ''evidence_custody'' :: int reaping) w2 = (Inr n, w3)" and
    ins: "exec_or (\<lambda>_. Some PlainError) (insert_custody s (sealed_row sur n c)) w3 = (Inr u2, w4)" and
    fin: "(ret None :: goerr option reaping) w4 = (Inr x, w')"
    unfolding seal_tx_def by (elim bindE andthenE) (rule that)
  from gd fin have b: "\<not> b" and w1: "w1 = w0" and w': "w' = w4" by simp_all
  from seq have db3: "w_db w3 = w_db w2" by (elim nextvalE) simp
  from exec_db [OF ins] have "w_db w4 = (w_db w3)\<lparr>custody := custody (w_db w3) @ [sealed_row sur n c]\<rparr>"
    by (simp add: table_simps)
  moreover have "w_db w2 = mark_sealed s (rc_evidence c) (db_now sur) (w_db w)"
    using exec_query_row_db [OF q] exec_change_db [OF upd] by (simp add: w1)
  moreover from exec_query_row_db [OF q] b obtain e where
    "evidence_seen s (rc_evidence c) (w_db w) = Some e" "fe_sealed_at e = None" by auto
  ultimately show ?thesis
    unfolding seals_def w' by (intro exI [of _ e] exI [of _ n]) (simp add: db3 mark_sealed_def)
qed

text \<open>The stored object of an item is gone: this sweep deleted it, or the store has none.\<close>

definition object_gone :: "object_store \<Rightarrow> string \<Rightarrow> dbworld \<Rightarrow> bool" where
  "object_gone delete key w \<longleftrightarrow>
     delete key = None \<and> ObjectDeleted key \<in> set (w_log w) \<or> isNotFound (delete key)"

lemma object_gone_mono: "object_gone delete key w \<Longrightarrow> log_grows w w' \<Longrightarrow> object_gone delete key w'"
  by (auto simp: object_gone_def log_grows_def)

lemma lg_seal_tx: "keeps log_grows (seal_tx s sur c)"
  unfolding seal_tx_def by (intro db_lg_steps)

lemma seal_cases:
  assumes "seal s delete sur c w = (res, w')" and "w_snap w = None"
  obtains (refused) "w_db w' = w_db w" "w_snap w' = None" "log_grows w w'"
  | (performed) "seals s sur c (w_db w) (w_db w')" "w_snap w' = None" "log_grows w w'"
      "object_gone delete (rc_s3_key c) w'"
proof (cases "delete (rc_s3_key c) = None \<or> isNotFound (delete (rc_s3_key c))")
  case False
  with assms show thesis
    by (intro refused) (auto simp: seal_def Let_def andthen_def bind_def guard_def stop_def log_grows_def)
next
  case True
  define w0 where "w0 = (if delete (rc_s3_key c) = None then w\<lparr>w_log := w_log w @ [ObjectDeleted (rc_s3_key c)]\<rparr> else w)"
  have run: "in_tx (Some PlainError) (seal_tx s sur c) w0 = (res, w')"
    using assms(1) True by (auto simp: seal_def Let_def andthen_def bind_def guard_def ret_def emit_def w0_def split: if_splits)
  have w0: "w_db w0 = w_db w" "w_snap w0 = None" "log_grows w w0"
    using assms(2) by (auto simp: w0_def log_grows_def)
  have grows: "log_grows w0 w'" using keepsD [OF lg_in_tx [OF lg_seal_tx] run] .
  with w0(3) have grow: "log_grows w w'" by (rule lg.trans)
  have gone: "object_gone delete (rc_s3_key c) w'"
    using True grows by (auto simp: w0_def log_grows_def object_gone_def)
  from run w0(2) tx_seal_tx show thesis
  proof (cases rule: in_tx_cases)
    case (committed x w1 w2)
    from seal_tx_run [OF committed(2)] committed w0(1) have "seals s sur c (w_db w) (w_db w')" by simp
    then show thesis using committed grow gone by (intro performed) simp_all
  next
    case (rolledback r)
    with w0(1) grow show thesis by (intro refused) simp_all
  qed
qed

section \<open>The whole batch\<close>

definition reaped ::
    "session \<Rightarrow> object_store \<Rightarrow> surroundings \<Rightarrow> dbworld \<Rightarrow> reap_cand list \<Rightarrow> custody_row list \<Rightarrow> evidence_row \<Rightarrow> evidence_row \<Rightarrow> bool" where
  "reaped s delete sur w cs added e e' \<longleftrightarrow> e' = e
     \<or> (\<exists>c\<in>set cs. rc_evidence c = fe_id e \<and> sees s (fe_tenant e)
          \<and> e' = e\<lparr>fe_sealed_at := Some (db_now sur)\<rparr> \<and> object_gone delete (rc_s3_key c) w
          \<and> (\<exists>cu\<in>set added. cu_evidence_id cu = fe_id e \<and> cu_action cu = ''sealed''))"

lemma seal_step:
  assumes "seal s delete sur c w = (res, w1)" and "w_snap w = None"
  obtains es cus where "w_snap w1 = None" "log_grows w w1"
    "w_db w1 = (w_db w)\<lparr>evidence := es, custody := custody (w_db w) @ cus\<rparr>"
    "list_all2 (reaped s delete sur w1 [c] cus) (evidence (w_db w)) es"
  using assms
proof (cases rule: seal_cases)
  case refused
  then show thesis
    by (intro that [where es = "evidence (w_db w)" and cus = "[]"]) (simp_all add: list_all2_refl reaped_def)
next
  case performed
  then obtain n where db: "w_db w1 = (mark_sealed s (rc_evidence c) (db_now sur) (w_db w))\<lparr>custody := custody (w_db w) @ [sealed_row sur n c]\<rparr>"
    unfolding seals_def by blast
  have "list_all2 (reaped s delete sur w1 [c] [sealed_row sur n c]) (evidence (w_db w))
     (update_rows fe_tenant s (\<lambda>e. fe_id e = rc_evidence c) (fe_sealed_at_update (\<lambda>_. Some (db_now sur))) (evidence (w_db w)))"
    using performed(4) by (auto simp: update_rows_def list_all2_conv_all_nth reaped_def sealed_row_def)
  with performed db show thesis by (intro that) (simp_all add: mark_sealed_def)
qed

lemma reaped_mono:
  assumes "reaped s delete sur w cs added e e'" and "log_grows w v" and "set cs \<subseteq> set cs'" and "set added \<subseteq> set added'"
  shows "reaped s delete sur v cs' added' e e'"
  using assms object_gone_mono [OF _ assms(2)] unfolding reaped_def by (meson subsetD)

lemma reap_batch_run:
  assumes "reap_batch s delete sur cs w = (res, w')" and "w_snap w = None"
  shows "(\<exists>n. res = Inr n \<and> n \<le> length cs) \<and> w_snap w' = None \<and> log_grows w w'
    \<and> (\<exists>es cus. w_db w' = (w_db w)\<lparr>evidence := es, custody := custody (w_db w) @ cus\<rparr>
         \<and> list_all2 (reaped s delete sur w' cs cus) (evidence (w_db w)) es)"
  using assms
proof (induction cs arbitrary: w w' res)
  case Nil
  then show ?case
    by (auto simp: ret_def lg.refl list_all2_refl reaped_def intro!: exI [of _ "evidence (w_db w)"] exI [of _ "[] :: custody_row list"])
next
  case (Cons c cs)
  obtain r w1 where one: "seal s delete sur c w = (r, w1)" by fastforce
  obtain q v where rest: "reap_batch s delete sur cs w1 = (q, v)" by fastforce
  from seal_step [OF one Cons.prems(2)] obtain es1 cus1 where
    idle: "w_snap w1 = None" and grow1: "log_grows w w1" and
    db1: "w_db w1 = (w_db w)\<lparr>evidence := es1, custody := custody (w_db w) @ cus1\<rparr>" and
    ev1: "list_all2 (reaped s delete sur w1 [c] cus1) (evidence (w_db w)) es1" .
  from Cons.IH [OF rest idle] obtain n es cus where
    q: "q = Inr n" "n \<le> length cs" and v: "w_snap v = None" "log_grows w1 v" and
    db: "w_db v = (w_db w1)\<lparr>evidence := es, custody := custody (w_db w1) @ cus\<rparr>" and
    ev: "list_all2 (reaped s delete sur v cs cus) (evidence (w_db w1)) es"
    by blast
  have fin: "w' = v" "\<exists>n. res = Inr n \<and> n \<le> length (c # cs)"
    using Cons.prems(1) one rest q by (auto simp: bind_def attempt_def ret_def)
  have rows: "list_all2 (reaped s delete sur v (c # cs) (cus1 @ cus)) (evidence (w_db w)) es"
  proof (rule list_all2_trans)
    show "list_all2 (reaped s delete sur v (c # cs) cus1) (evidence (w_db w)) es1"
      using ev1 by (rule list_all2_mono) (rule reaped_mono [OF _ v(2)], auto)
    show "list_all2 (reaped s delete sur v (c # cs) cus) es1 es"
      using ev unfolding db1 by simp (erule list_all2_mono, rule reaped_mono [OF _ lg.refl], auto)
    show "reaped s delete sur v (c # cs) (cus1 @ cus) e e''"
      if "reaped s delete sur v (c # cs) cus1 e e'" "reaped s delete sur v (c # cs) cus e' e''" for e e' e''
    proof (cases "e' = e")
      case True
      with that(2) show ?thesis by (auto intro: reaped_mono [OF _ lg.refl])
    next
      case False
      with that(1) have "e' = e\<lparr>fe_sealed_at := Some (db_now sur)\<rparr>" unfolding reaped_def by blast
      with that(2) have "e'' = e'" unfolding reaped_def by auto
      with that(1) show ?thesis by (auto intro: reaped_mono [OF _ lg.refl])
    qed
  qed
  have "w_db v = (w_db w)\<lparr>evidence := es, custody := custody (w_db w) @ (cus1 @ cus)\<rparr>"
    by (simp add: db db1)
  with rows have "\<exists>es cus. w_db v = (w_db w)\<lparr>evidence := es, custody := custody (w_db w) @ cus\<rparr>
         \<and> list_all2 (reaped s delete sur v (c # cs) cus) (evidence (w_db w)) es"
    by blast
  with lg.trans [OF grow1 v(2)] v(1) fin show ?case by simp
qed

lemma set_reap_candidates:
  "c \<in> set (reap_candidates s now d) \<longleftrightarrow>
     (\<exists>e\<in>set (evidence d). sees s (fe_tenant e) \<and> reapable s now d e
        \<and> c = \<lparr>rc_evidence = fe_id e, rc_fine = fe_fine_id e, rc_tenant = fe_tenant e, rc_s3_key = fe_s3_key e\<rparr>)"
  by (auto simp: reap_candidates_def table_simps)

lemma reap_run:
  assumes "reap role delete sur w = (res, w')" and "w_snap w = None"
  obtains es cus where "w_snap w' = None" "log_grows w w'"
    "w_db w' = (w_db w)\<lparr>evidence := es, custody := custody (w_db w) @ cus\<rparr>"
    "list_all2 (reaped (session_of role []) delete sur w' (reap_candidates (session_of role []) (db_now sur) (w_db w)) cus) (evidence (w_db w)) es"
proof -
  let ?s = "session_of role []"
  obtain q w1 where q: "exec_or (\<lambda>_. Some PlainError) (query (reap_candidates ?s (db_now sur))) w = (q, w1)" by fastforce
  have same: "w_db w1 = w_db w" "w_snap w1 = None"
    using keepsD [OF rd_exec_or [OF reads_query(1)] q] assms(2) by (simp_all add: same_db_def)
  have grow: "log_grows w w1" using keepsD [OF lg_exec_or q] .
  show thesis
  proof (cases q)
    case (Inl e)
    with assms(1) q have "w' = w1" by (simp add: reap_def bind_def)
    with same grow show thesis
      by (intro that [where es = "evidence (w_db w)" and cus = "[]"]) (simp_all add: list_all2_refl reaped_def)
  next
    case (Inr batch)
    from exec_query_db [OF q [unfolded Inr]] have batch: "batch = reap_candidates ?s (db_now sur) (w_db w)" by simp
    from assms(1) q Inr have "reap_batch ?s delete sur batch w1 = (res, w')" by (simp add: reap_def bind_def)
    from reap_batch_run [OF this same(2)] obtain es cus where
      "w_snap w' = None" "log_grows w1 w'" "w_db w' = (w_db w)\<lparr>evidence := es, custody := custody (w_db w) @ cus\<rparr>"
      "list_all2 (reaped ?s delete sur w' batch cus) (evidence (w_db w)) es"
      unfolding same(1) by blast
    then show thesis using lg.trans [OF grow] unfolding batch by (intro that)
  qed
qed

section \<open>Properties\<close>

text \<open>C11
  The reaper destroys nothing it must keep, whatever fails on the way: row by row, an evidence
  row is unchanged, or it was not sealed yet, its tenant has no legal hold, the retention
  deadline of its fine has passed (never for a court case without a limit), its stored object
  is gone, and the row is now sealed at the time of the sweep, with a custody row that records the
  sealing appended for it. No other table changes and no custody row is lost.
\<close>

theorem reaper_seals_only_expired_evidence:
  assumes "reap role delete sur w = (res, w')" and "w_snap w = None"
    and "distinct (map fe_id (evidence (w_db w)))"
  shows "\<exists>added. list_all2 (\<lambda>e e'. e' = e \<or>
        (reapable (session_of role []) (db_now sur) (w_db w) e
         \<and> e' = e\<lparr>fe_sealed_at := Some (db_now sur)\<rparr> \<and> object_gone delete (fe_s3_key e) w'
         \<and> (\<exists>cu\<in>set added. cu_evidence_id cu = fe_id e \<and> cu_action cu = ''sealed'')))
      (evidence (w_db w)) (evidence (w_db w'))
    \<and> custody (w_db w') = custody (w_db w) @ added
    \<and> (w_db w')\<lparr>evidence := evidence (w_db w), custody := custody (w_db w)\<rparr> = w_db w"
  using assms(1,2)
proof (rule reap_run)
  fix es added
  let ?s = "session_of role []"
  assume db: "w_db w' = (w_db w)\<lparr>evidence := es, custody := custody (w_db w) @ added\<rparr>" and
    rows: "list_all2 (reaped ?s delete sur w' (reap_candidates ?s (db_now sur) (w_db w)) added) (evidence (w_db w)) es"
  have "list_all2 (\<lambda>e e'. e' = e \<or>
        (reapable ?s (db_now sur) (w_db w) e
         \<and> e' = e\<lparr>fe_sealed_at := Some (db_now sur)\<rparr> \<and> object_gone delete (fe_s3_key e) w'
         \<and> (\<exists>cu\<in>set added. cu_evidence_id cu = fe_id e \<and> cu_action cu = ''sealed''))) (evidence (w_db w)) es"
    using rows
  proof (rule list.rel_mono_strong)
    fix e e'
    assume e: "e \<in> set (evidence (w_db w))" and "reaped ?s delete sur w' (reap_candidates ?s (db_now sur) (w_db w)) added e e'"
    then consider "e' = e"
      | g where "g \<in> set (evidence (w_db w))" "reapable ?s (db_now sur) (w_db w) g" "fe_id g = fe_id e"
        "e' = e\<lparr>fe_sealed_at := Some (db_now sur)\<rparr>" "object_gone delete (fe_s3_key g) w'"
        "\<exists>cu\<in>set added. cu_evidence_id cu = fe_id e \<and> cu_action cu = ''sealed''"
      unfolding reaped_def Bex_def set_reap_candidates by fastforce
    then show "e' = e \<or>
        (reapable ?s (db_now sur) (w_db w) e
         \<and> e' = e\<lparr>fe_sealed_at := Some (db_now sur)\<rparr> \<and> object_gone delete (fe_s3_key e) w'
         \<and> (\<exists>cu\<in>set added. cu_evidence_id cu = fe_id e \<and> cu_action cu = ''sealed''))"
    proof cases
      case 2
      from assms(3) e 2(1,3) have "g = e" by (auto simp: distinct_map inj_on_def)
      with 2 show ?thesis by blast
    qed simp
  qed
  with db show ?thesis by (intro exI [of _ added]) simp
qed

definition demo_evidence :: evidence_row where
  "demo_evidence = \<lparr>fe_id = 50, fe_tenant = ''NO'', fe_fine_id = 1, fe_kind = ''photo'', fe_s3_key = ''k1'',
     fe_sha256 = ''h1'', fe_bytes = 10, fe_taken_at = days 10, fe_sealed_at = None\<rparr>"

definition demo_archive :: dbworld where
  "demo_archive = world_of (demo_db\<lparr>
     fines := [demo_old_fine\<lparr>f_issued_at := days 10, f_status := Cancelled\<rparr>,
               demo_old_fine\<lparr>f_id := 2, f_issued_at := days 10, f_status := Court\<rparr>],
     evidence := [demo_evidence, demo_evidence\<lparr>fe_id := 51, fe_fine_id := 2, fe_s3_key := ''k2''\<rparr>]\<rparr>)"

theorem reaper_seals_only_expired_evidence_witness:
  "\<exists>added. length added = 1
    \<and> custody (w_db (snd (reap BypassesRls (\<lambda>_. None) demo_surroundings demo_archive))) = custody (w_db demo_archive) @ added"
proof -
  have "w_snap demo_archive = None" "distinct (map fe_id (evidence (w_db demo_archive)))"
    by (simp_all add: demo_archive_def world_of_def demo_evidence_def)
  from reaper_seals_only_expired_evidence [OF prod.collapse [symmetric] this, where role = BypassesRls and delete = "\<lambda>_. None" and sur = demo_surroundings]
  obtain added where added:
    "custody (w_db (snd (reap BypassesRls (\<lambda>_. None) demo_surroundings demo_archive))) = custody (w_db demo_archive) @ added"
    by blast
  moreover have "length (custody (w_db (snd (reap BypassesRls (\<lambda>_. None) demo_surroundings demo_archive)))) = 1" by code_simp
  moreover have "custody (w_db demo_archive) = []"
    by (simp add: demo_archive_def world_of_def demo_db_def empty_db_def)
  ultimately show ?thesis by (intro exI [of _ added]) simp
qed

text \<open>
  The retention table, case by case: the deadline of a paid fine counts from its payment, that
  of a cancelled one from its issue with the cancelled period, a court case is kept for ever
  unless the tenant set a limit, and everything else has the default period; the schema's
  defaults (1825, 365, 1825 days) apply to a tenant without a policy row.
\<close>

theorem retention_deadline_table:
  "retention_deadline p f =
     (case (f_status f, f_paid_at f) of
        (Paid, Some t) \<Rightarrow> Some (t + days (case p of None \<Rightarrow> 1825 | Some q \<Rightarrow> rp_paid_fine_days q))
      | (Cancelled, _) \<Rightarrow> Some (f_issued_at f + days (case p of None \<Rightarrow> 365 | Some q \<Rightarrow> rp_cancelled_fine_days q))
      | (Court, _) \<Rightarrow> Option.bind p (\<lambda>q. Option.bind (rp_court_case_days q) (\<lambda>n. Some (f_issued_at f + days n)))
      | _ \<Rightarrow> Some (f_issued_at f + days (case p of None \<Rightarrow> 1825 | Some q \<Rightarrow> rp_default_days q)))"
  by (cases "f_status f"; cases "f_paid_at f"; cases p)
    (auto simp: retention_deadline_def coalesce_def map_option_case split: option.splits)

text \<open>
  A row another replica sealed first counts as sealed by this sweep too: \<open>seal\<close> returns nil
  without doing anything.
\<close>

lemma seal_counts_row_already_sealed:
  "fst (seal BypassRls (\<lambda>_. None) demo_surroundings
     \<lparr>rc_evidence = 50, rc_fine = 1, rc_tenant = ''NO'', rc_s3_key = ''k1''\<rparr>
     (demo_archive\<lparr>w_db := (w_db demo_archive)\<lparr>evidence := [demo_evidence\<lparr>fe_sealed_at := Some 5\<rparr>]\<rparr>\<rparr>)) = Inl None"
  by code_simp

end
