(* ===== verification/FinesMux.thy ===== *)
theory FinesMux
  imports FinesRead FinesPay Escalation Reaper
begin

text \<open>
  The HTTP surface of the fines service: the routes \<open>New\<close> registers and the middleware in
  front of each (\<open>services/fines/internal/api/api.go\<close>), the synchronous reaper trigger
  (\<open>runReaper\<close>), and the service as a whole, a transition system whose steps are requests,
  escalation sweeps and reaper sweeps.
\<close>

section \<open>Routes\<close>

datatype fines_route =
    PostFine "issue_req option"
  | GetFines
  | GetMine
  | GetIssuedByMe
  | GetFine "uuid option"
  | PostPay "uuid option" string
  | PostDispute "uuid option" "string option"
  | GetDisputes string
  | PostResolve "uuid option" "uuid option" "resolve_req option"
  | PostCancel "uuid option" "string option"
  | GetPaymentsHealth
  | PostReaperRun
  | PostWebhook string "(string \<times> string) list" "string option"

text \<open>What the process is started with, besides \<open>fines_api\<close>.\<close>

record fines_process =
  fp_api :: fines_api
  fp_issuer :: issuer
  fp_jwt :: jwt_parser
  fp_snapshot :: "string \<Rightarrow> string \<Rightarrow> string \<Rightarrow> health_snapshot option"
  fp_reaper :: "(dbrole \<times> object_store) option"

definition runReaper :: "(dbrole \<times> object_store) option \<Rightarrow> surroundings \<Rightarrow> fines_handler" where
  "runReaper rp sur =
     (case rp of
        None \<Rightarrow> stop (Err 503 ''no_reaper'')
      | Some (role, delete) \<Rightarrow>
          bind (attempt (reap role delete sur)) (\<lambda>res.
          (case res of
             Inl _ \<Rightarrow> stop (write_err PlainError)
           | Inr n \<Rightarrow> ret (Json 200 (SealedCount n)))))"

text \<open>The permission \<open>New\<close> requires of a route, if any.\<close>

fun route_permission :: "fines_route \<Rightarrow> string option" where
  "route_permission (PostFine _) = Some ''fines:create''"
| "route_permission GetFines = Some ''fines:read''"
| "route_permission GetMine = None"
| "route_permission GetIssuedByMe = Some ''fines:create''"
| "route_permission (GetFine _) = None"
| "route_permission (PostPay _ _) = None"
| "route_permission (PostDispute _ _) = None"
| "route_permission (GetDisputes _) = Some ''fines:cancel''"
| "route_permission (PostResolve _ _ _) = Some ''fines:cancel''"
| "route_permission (PostCancel _ _) = Some ''fines:cancel''"
| "route_permission GetPaymentsHealth = None"
| "route_permission PostReaperRun = Some ''fines:cancel''"
| "route_permission (PostWebhook _ _ _) = None"

definition require :: "string option \<Rightarrow> claims \<Rightarrow> fines_handler \<Rightarrow> fines_handler" where
  "require perm c nxt = (case perm of None \<Rightarrow> nxt | Some p \<Rightarrow> RequirePermission p (Some c) nxt)"

fun serve :: "fines_process \<Rightarrow> surroundings \<Rightarrow> string \<Rightarrow> claims \<Rightarrow> fines_route \<Rightarrow> fines_handler" where
  "serve p sur tr c (PostFine body) = issue (fp_api p) sur \<lparr>ctx_claims = Some c, ctx_trace = tr\<rparr> c body"
| "serve p sur tr c GetFines = list_fines (fp_api p) c"
| "serve p sur tr c GetMine = listMine (fp_api p) c"
| "serve p sur tr c GetIssuedByMe = listIssuedByMe (fp_api p) c"
| "serve p sur tr c (GetFine fine) = get_fine (fp_api p) c fine"
| "serve p sur tr c (PostPay fine method) = handlePay (fp_api p) sur \<lparr>ctx_claims = Some c, ctx_trace = tr\<rparr> c fine method"
| "serve p sur tr c (PostDispute fine body) = dispute (fp_api p) sur \<lparr>ctx_claims = Some c, ctx_trace = tr\<rparr> c fine body"
| "serve p sur tr c (GetDisputes status) = listDisputes (fp_api p) c status"
| "serve p sur tr c (PostResolve fine disp body) = resolveDispute (fp_api p) sur \<lparr>ctx_claims = Some c, ctx_trace = tr\<rparr> c fine disp body"
| "serve p sur tr c (PostCancel fine body) = cancel (fp_api p) sur \<lparr>ctx_claims = Some c, ctx_trace = tr\<rparr> c fine body"
| "serve p sur tr c GetPaymentsHealth = paymentsHealth (fp_api p) c (fp_snapshot p)"
| "serve p sur tr c PostReaperRun = runReaper (fp_reaper p) sur"
| "serve p sur tr c (PostWebhook name hdrs body) = handleWebhook (fp_api p) sur name hdrs body"

definition fines_mux :: "fines_process \<Rightarrow> surroundings \<Rightarrow> string \<Rightarrow> headers \<Rightarrow> fines_route \<Rightarrow> fines_handler" where
  "fines_mux p sur tr h route =
     (case route of
        PostWebhook name hdrs body \<Rightarrow> handleWebhook (fp_api p) sur name hdrs body
      | _ \<Rightarrow> Middleware (fp_jwt p) (fp_issuer p) h (\<lambda>c. require (route_permission route) c (serve p sur tr c route)))"

fun is_webhook :: "fines_route \<Rightarrow> bool" where
  "is_webhook (PostWebhook _ _ _) = True"
| "is_webhook _ = False"

fun is_reaper_run :: "fines_route \<Rightarrow> bool" where
  "is_reaper_run PostReaperRun = True"
| "is_reaper_run _ = False"

section \<open>The gate in front of the handlers\<close>

text \<open>
  A request behind the JWT is either refused before its handler, with nothing done, or its
  handler runs with admitted claims that hold the route's permission.
\<close>

lemma fines_mux_cases:
  assumes "\<not> is_webhook route"
  obtains (denied) r where "refusal r" "fines_mux p sur tr h route = stop r"
  | (served) c where "admitted (fp_jwt p) (fp_issuer p) h c" "set_option (route_permission route) \<subseteq> set (c_permissions c)"
      "fines_mux p sur tr h route = serve p sur tr c route"
proof -
  have mux: "fines_mux p sur tr h route
      = Middleware (fp_jwt p) (fp_issuer p) h (\<lambda>c. require (route_permission route) c (serve p sur tr c route))"
    using assms by (cases route) (simp_all add: fines_mux_def)
  show thesis
  proof (cases rule: Middleware_cases [of "fp_jwt p" "fp_issuer p" h "\<lambda>c. require (route_permission route) c (serve p sur tr c route)"])
    case (denied r)
    then have "refusal r" by auto
    with mux denied(2) show thesis by (intro that(1)) simp_all
  next
    case (admitted c)
    show thesis
    proof (cases "route_permission route")
      case None
      with admitted mux show thesis by (intro that(2)) (simp_all add: require_def)
    next
      case (Some perm)
      show thesis
      proof (cases rule: RequirePermission_cases [of perm "Some c" "serve p sur tr c route"])
        case (denied r)
        then have "refusal r" by auto
        with denied(2) admitted(2) mux Some show thesis by (intro that(1)) (simp_all add: require_def)
      next
        case (granted c')
        with admitted mux Some show thesis by (intro that(2)) (simp_all add: require_def)
      qed
    qed
  qed
qed

lemma sw_runReaper: "stops_with refusal (runReaper rp sur)"
proof (cases rp)
  case (Some q)
  have "stops_with refusal (attempt m)" for m :: "nat reaping"
    by (simp add: stops_with_def attempt_def split: prod.splits)
  then show ?thesis
    unfolding runReaper_def by (intro sw_steps) simp_all
qed (simp add: runReaper_def stops_with_def stop_def)

lemma rd_paymentsHealth: "keeps same_db (paymentsHealth a c snapshot)"
  unfolding paymentsHealth_def by (intro rd_steps)

lemma at_serve:
  assumes "\<not> is_webhook route" and "\<not> is_reaper_run route"
  shows "atomic (serve p sur tr c route)"
  using assms
  by (cases route) (auto intro: at_issue at_handlePay at_dispute at_resolveDispute at_cancel
      at_reads rd_lists rd_get rd_listDisputes rd_paymentsHealth)

lemma iso_serve:
  assumes "fa_pool (fp_api p) = SubjectToRls" and "\<not> is_webhook route" and "\<not> is_reaper_run route"
  shows "keeps (isolated (c_tenant c)) (serve p sur tr c route)"
proof -
  have reads: "keeps (isolated t) m" if "keeps same_db m" for t and m :: fines_handler
    using that unfolding keeps_def same_db_def pinned_def steady_def by simp
  show ?thesis
    using assms
    by (cases route) (auto intro: iso_issue iso_handlePay iso_dispute iso_resolveDispute iso_cancel
        reads rd_lists rd_get rd_listDisputes rd_paymentsHealth)
qed

text \<open>What a handler answers at its end is a success.\<close>

lemma ends_bind:
  assumes "bind m f w = (Inr r, w')" and "\<And>x v v'. f x v = (Inr r, v') \<Longrightarrow> P r"
  shows "P r"
  using assms by (elim bindE) blast

lemma ends_andthen:
  assumes "andthen m n w = (Inr r, w')" and "\<And>v v'. n v = (Inr r, v') \<Longrightarrow> P r"
  shows "P r"
  using assms by (elim andthenE) blast

lemma serve_ended:
  assumes "serve p sur tr c route w = (Inr r, w')" and "\<not> is_webhook route" and "\<not> is_reaper_run route"
  shows "status_of r < 400"
  using assms
proof (cases route)
  case (PostFine body)
  with assms(1) show ?thesis by (auto simp: issue_def elim!: ends_bind ends_andthen)
next
  case (PostPay fine way)
  with assms(1) show ?thesis
    by (cases fine) (auto simp: handlePay_def Let_def elim!: ends_bind ends_andthen split: prod.splits)
next
  case (PostDispute fine body)
  with assms(1) show ?thesis by (cases fine) (auto simp: dispute_def elim!: ends_bind ends_andthen)
next
  case (PostResolve fine disp body)
  with assms(1) show ?thesis
    by (cases fine; cases disp)
      (auto simp: resolveDispute_def elim!: ends_bind ends_andthen split: option.splits)
next
  case (PostCancel fine body)
  with assms(1) show ?thesis by (cases fine) (auto simp: cancel_def elim!: ends_bind ends_andthen)
next
  case (GetFine fine)
  with assms(1) show ?thesis
    by (cases fine) (auto simp: get_fine_def fine_detail_def elim!: ends_bind ends_andthen split: prod.splits)
qed (auto simp: list_fines_def listMine_def listIssuedByMe_def listDisputes_def Let_def paymentsHealth_def
  elim!: ends_bind ends_andthen)

section \<open>Properties of the whole surface\<close>

text \<open>
  No handler behind the JWT runs without its permission: if such a request is answered with a
  status below 400, its bearer token was accepted by this issuer, the tenant header did not
  contradict it, and the claims hold the permission the route requires.
\<close>

theorem fines_routes_need_permission:
  assumes "finish (fines_mux p sur tr h route) w = (r, w')" and "\<not> is_webhook route" and "status_of r < 400"
  shows "\<exists>c. admitted (fp_jwt p) (fp_issuer p) h c \<and> set_option (route_permission route) \<subseteq> set (c_permissions c)"
  using assms(2)
proof (cases rule: fines_mux_cases [of route p sur tr h])
  case (denied e)
  with assms(1,3) show ?thesis by (auto simp: finish_def stop_def refusal_def)
qed blast

definition demo_jwt :: jwt_parser where
  "demo_jwt keyfunc tok = (if keyfunc ''HS256'' \<noteq> Some ''secret'' then None
     else if tok = ''owner'' then Some demo_owner_claims
     else if tok = ''officer'' then Some demo_officer
     else if tok = ''foreign'' then Some (demo_officer\<lparr>c_tenant := ''SE'', c_permissions := [''fines:cancel'']\<rparr>)
     else None)"

definition demo_process :: fines_process where
  "demo_process = \<lparr>fp_api = demo_api, fp_issuer = \<lparr>Secret = ''secret'', AccessTTL = minutes 15, RefreshTTL = days 30\<rparr>,
     fp_jwt = demo_jwt, fp_snapshot = (\<lambda>_ _ _. None), fp_reaper = Some (BypassesRls, \<lambda>_. None)\<rparr>"

definition bearer :: "string \<Rightarrow> headers" where
  "bearer tok = \<lparr>h_authorization = ''Bearer '' @ tok, h_tenant = []\<rparr>"

definition demo_mux_issued :: "fines_body response \<times> dbworld" where
  "demo_mux_issued = finish (fines_mux demo_process demo_surroundings [] (bearer ''officer'') (PostFine (Some demo_issue_req)))
     (world_of demo_db)"

lemma demo_mux_issued_status: "status_of (fst demo_mux_issued) < 400"
  by code_simp

theorem fines_routes_need_permission_witness:
  "\<exists>c. admitted (fp_jwt demo_process) (fp_issuer demo_process) (bearer ''officer'') c \<and> ''fines:create'' \<in> set (c_permissions c)"
proof -
  have "finish (fines_mux demo_process demo_surroundings [] (bearer ''officer'') (PostFine (Some demo_issue_req))) (world_of demo_db)
      = (fst demo_mux_issued, snd demo_mux_issued)"
    by (simp add: demo_mux_issued_def)
  from fines_routes_need_permission [OF this _ demo_mux_issued_status] show ?thesis by simp
qed


definition demo_mux_broken :: "fines_body response \<times> dbworld" where
  "demo_mux_broken = finish (fines_mux demo_process demo_surroundings [] (bearer ''officer'') (PostFine (Some demo_issue_req)))
     demo_broken"




text \<open>
  The hypothesis on the pool matters, and \<open>cmd/server/main.go\<close> states the opposite (the
  runtime user is \<open>BYPASSRLS\<close>): with such a user an administrator of one tenant cancels a
  fine of another.
\<close>

lemma bypassing_pool_crosses_tenants:
  "map f_status (fines (w_db (snd (finish (fines_mux
      (demo_process\<lparr>fp_api := demo_api\<lparr>fa_pool := BypassesRls\<rparr>\<rparr>) demo_surroundings [] (bearer ''foreign'')
      (PostCancel (Some 1) (Some ''x''))) demo_fined)))) = [Cancelled]"
  by code_simp

section \<open>The service as a transition system\<close>

text \<open>
  One step of the service: a request of any kind, an escalation sweep or a reaper sweep, run
  from any idle connection state on the current database, with whatever faults.
\<close>

inductive fines_step :: "fines_process \<Rightarrow> db \<Rightarrow> db \<Rightarrow> bool" for p where
  request: "finish (fines_mux p sur tr h route) w = (r, w') \<Longrightarrow> w_snap w = None \<Longrightarrow> fines_step p (w_db w) (w_db w')"
| escalation: "finish (RunOnce role sur) w = (e, w') \<Longrightarrow> w_snap w = None \<Longrightarrow> fines_step p (w_db w) (w_db w')"
| reaping: "reap role delete sur w = (res, w') \<Longrightarrow> w_snap w = None \<Longrightarrow> fines_step p (w_db w) (w_db w')"

inductive_cases fines_stepE: "fines_step p d d'"

inductive fines_reachable :: "fines_process \<Rightarrow> db \<Rightarrow> db \<Rightarrow> bool" for p d0 where
  start: "fines_reachable p d0 d0"
| step: "fines_reachable p d0 d \<Longrightarrow> fines_step p d d' \<Longrightarrow> fines_reachable p d0 d'"

text \<open>The chain of custody is complete: every evidence row has its capture on record, with its hash, and every sealed one its sealing.\<close>

definition custody_complete :: "db \<Rightarrow> bool" where
  "custody_complete d \<longleftrightarrow> (\<forall>e\<in>set (evidence d).
     (\<exists>cu\<in>set (custody d). cu_evidence_id cu = fe_id e \<and> cu_action cu = ''captured'' \<and> (''sha256'', fe_sha256 e) \<in> set (cu_details cu))
     \<and> (fe_sealed_at e \<noteq> None \<longrightarrow> (\<exists>cu\<in>set (custody d). cu_evidence_id cu = fe_id e \<and> cu_action cu = ''sealed'')))"

definition evidence_books :: "db \<Rightarrow> evidence_row list \<times> custody_row list" where
  "evidence_books d = (evidence d, custody d)"

text \<open>What a step may do to the two tables: rows of evidence are added with their captures, or sealed with a sealing on record; custody rows are only appended.\<close>

definition books_grow :: "db \<Rightarrow> db \<Rightarrow> bool" where
  "books_grow d d' \<longleftrightarrow>
     (\<exists>added_ev kept added_cu. evidence d' = kept @ added_ev \<and> custody d' = custody d @ added_cu
        \<and> list_all2 (\<lambda>e e'. e' = e
             \<or> (\<exists>t. e' = e\<lparr>fe_sealed_at := Some t\<rparr>) \<and> (\<exists>cu\<in>set added_cu. cu_evidence_id cu = fe_id e \<and> cu_action cu = ''sealed''))
           (evidence d) kept
        \<and> (\<forall>e\<in>set added_ev. fe_sealed_at e = None
             \<and> (\<exists>cu\<in>set added_cu. cu_evidence_id cu = fe_id e \<and> cu_action cu = ''captured'' \<and> (''sha256'', fe_sha256 e) \<in> set (cu_details cu))))"

lemma books_grow_same: "evidence_books d' = evidence_books d \<Longrightarrow> books_grow d d'"
  by (auto simp: books_grow_def evidence_books_def list_all2_refl intro!: exI [of _ "[] :: evidence_row list"] exI [of _ "[] :: custody_row list"])

lemma books_update_fine [frame_intros]: "fixed evidence_books (change (update_fine s fid f))"
  by (rule fixed_change) (simp add: evidence_books_def)

lemma books_pin:
  "fixed evidence_books (insert_payment s pid fid amount currency method ref st paid)"
  "fixed evidence_books (subject_param c (insert_dispute s sur did fid reason))"
  "fixed evidence_books (subject_param c (\<lambda>user. query_row (fine_and_ownership s fid user)))"
  "fixed evidence_books (change (close_dispute s did st' note now))"
  "fixed evidence_books (change (mark_payment s ref now))"
  "keeps (pinned evidence_books) (WriteOutbox k s sur env)"
  by (auto simp: fixed_def evidence_books_def subject_param_Inr close_dispute_def mark_payment_def
      elim!: insert_payment_InrD insert_dispute_InrD intro: pin_WriteOutbox)

lemma books_serve:
  assumes "\<And>body. route \<noteq> PostFine body" and "\<not> is_reaper_run route"
  shows "keeps (pinned evidence_books) (serve p sur tr c route)"
proof -
  have reads: "keeps (pinned evidence_books) m" if "keeps same_db m" for m :: fines_handler
    using that unfolding keeps_def same_db_def pinned_def steady_def by simp
  have pay: "keeps (pinned evidence_books) (handlePay a sur ctx c fine m)" for a ctx fine m
    unfolding handlePay_def pay_tx_def create_intent_def hm_ok_def hm_fail_def
    by (intro db_pin_steps frame_intros books_pin)
  have disp: "keeps (pinned evidence_books) (dispute a sur ctx c fine body)" for a ctx fine body
    unfolding dispute_def dispute_tx_def by (intro db_pin_steps frame_intros books_pin)
  have res: "keeps (pinned evidence_books) (resolveDispute a sur ctx c fine d body)" for a ctx fine d body
    unfolding resolveDispute_def resolve_tx_def by (intro db_pin_steps frame_intros books_pin)
  have can: "keeps (pinned evidence_books) (cancel a sur ctx c fine body)" for a ctx fine body
    unfolding cancel_def cancel_tx_def by (intro db_pin_steps frame_intros books_pin)
  have hook: "keeps (pinned evidence_books) (handleWebhook a sur name hdrs body)" for a name hdrs body
    unfolding handleWebhook_def webhook_tx_def hm_ok_def hm_fail_def
    by (intro db_pin_steps frame_intros books_pin)
  show ?thesis
    using assms by (cases route) (auto intro: pay disp res can hook reads rd_lists rd_get rd_listDisputes rd_paymentsHealth)
qed

lemma books_issue:
  assumes "finish (issue a sur ctx c body) w = (r, w')" and "w_snap w = None"
  shows "books_grow (w_db w) (w_db w')"
  using assms(1)
proof (cases rule: issue_answers)
  case refused
  from atomicD [OF at_issue assms(2) refused(1)] show ?thesis by (intro books_grow_same) simp
next
  case created
  then obtain inp f w1 w2 where
    tx: "issue_tx (session_of (fa_pool a) (c_tenant c)) sur ctx c inp w1 = (Inr f, w2)" and
    dbs: "w_db w1 = w_db w" "w_db w' = w_db w2"
    by (rule issue_run [OF _ assms(2)])
  from tx obtain rows cs n where
    db: "w_db w2 = (w_db w1)\<lparr>fines := fines (w_db w1) @ [f], evidence := evidence (w_db w1) @ rows,
       custody := custody (w_db w1) @ cs,
       outbox := outbox (w_db w1) @ [outbox_row_of sur n (fine_issued_event sur ctx c inp f)]\<rparr>" and
    rows: "rows = map (\<lambda>(i, e). evidence_row_of (new_uuid sur i) (c_tenant c) (f_id f) e) (List.enumerate 2 (ir_evidence inp))" and
    cs: "list_all2 (\<lambda>cu (i, e). \<exists>n. cu = captured_row sur c (f_id f) (ir_device_id inp) n (new_uuid sur i) e) cs
       (List.enumerate 2 (ir_evidence inp))"
    by (rule issue_tx_run)
  have "fe_sealed_at e = None \<and> (\<exists>cu\<in>set cs. cu_evidence_id cu = fe_id e \<and> cu_action cu = ''captured'' \<and> (''sha256'', fe_sha256 e) \<in> set (cu_details cu))"
    if "e \<in> set rows" for e
  proof -
    from that obtain i x where ix: "(i, x) \<in> set (List.enumerate 2 (ir_evidence inp))" and
      e: "e = evidence_row_of (new_uuid sur i) (c_tenant c) (f_id f) x"
      by (auto simp: rows)
    from list_all2_memD [OF cs ix] obtain n where "captured_row sur c (f_id f) (ir_device_id inp) n (new_uuid sur i) x \<in> set cs"
      by auto
    then show ?thesis
      by (intro conjI bexI) (simp_all add: e captured_row_def evidence_row_of_def)
  qed
  then show ?thesis
    unfolding books_grow_def dbs db
    by (intro exI [of _ rows] exI [of _ "evidence (w_db w)"] exI [of _ cs]) (simp add: list_all2_refl)
qed

lemma books_escalation:
  assumes "finish (RunOnce role sur) w = (e, w')" and "w_snap w = None"
  shows "books_grow (w_db w) (w_db w')"
proof -
  have "keeps (pinned evidence_books) (advance_tx s sur k c)" for s k c
    unfolding advance_tx_def by (intro db_pin_steps frame_intros books_pin)
  then have "keeps (pinned evidence_books) (RunOnce role sur)"
    unfolding RunOnce_def sweep_step_def advance_def by (intro db_pin_steps frame_intros)
  from pinned_finish [OF this assms] show ?thesis by (rule books_grow_same)
qed

lemma books_reaper:
  assumes "reap role delete sur w = (res, w')" and "w_snap w = None"
  shows "books_grow (w_db w) (w_db w') \<and> w_snap w' = None"
  using assms
proof (rule reap_run)
  fix es cus
  assume idle: "w_snap w' = None" and
    db: "w_db w' = (w_db w)\<lparr>evidence := es, custody := custody (w_db w) @ cus\<rparr>" and
    rows: "list_all2 (reaped (session_of role []) delete sur w' (reap_candidates (session_of role []) (db_now sur) (w_db w)) cus) (evidence (w_db w)) es"
  have "list_all2 (\<lambda>e e'. e' = e
             \<or> (\<exists>t. e' = e\<lparr>fe_sealed_at := Some t\<rparr>) \<and> (\<exists>cu\<in>set cus. cu_evidence_id cu = fe_id e \<and> cu_action cu = ''sealed''))
           (evidence (w_db w)) es"
    using rows by (rule list_all2_mono) (unfold reaped_def, blast)
  with db idle show ?thesis
    unfolding books_grow_def
    by (intro conjI exI [of _ "[]"] exI [of _ es] exI [of _ cus]) simp_all
qed

lemma books_step: "fines_step p d d' \<Longrightarrow> books_grow d d'"
proof (erule fines_stepE)
  fix sur tr h route and w w' :: dbworld and r
  assume run: "finish (fines_mux p sur tr h route) w = (r, w')" and idle: "w_snap w = None" and d: "d = w_db w" "d' = w_db w'"
  show "books_grow d d'"
  proof (cases "is_webhook route")
    case True
    then obtain name hdrs body where route: "route = PostWebhook name hdrs body" by (cases route) auto
    from run have "finish (serve p sur tr undefined route) w = (r, w')" by (simp add: route fines_mux_def)
    from pinned_finish [OF books_serve this idle] show ?thesis unfolding d by (intro books_grow_same) (simp add: route)
  next
    case False
    then show ?thesis
    proof (cases rule: fines_mux_cases [of route p sur tr h])
      case (denied e)
      with run show ?thesis unfolding d by (auto simp: finish_def stop_def intro: books_grow_same)
    next
      case (served c)
      note run = run [unfolded served(3)]
      consider (issue) body where "route = PostFine body" | (reaper) "route = PostReaperRun"
        | (other) "\<And>body. route \<noteq> PostFine body" "\<not> is_reaper_run route"
        by (cases route) auto
      then show ?thesis
      proof cases
        case issue
        with run idle show ?thesis unfolding d by (auto intro: books_issue)
      next
        case reaper
        show ?thesis
        proof (cases "fp_reaper p")
          case None
          with run reaper show ?thesis unfolding d by (auto simp: runReaper_def finish_def stop_def intro: books_grow_same)
        next
          case (Some rd)
          obtain role delete where rd: "rd = (role, delete)" by (cases rd)
          obtain res v where rp: "reap role delete sur w = (res, v)" by fastforce
          with run reaper Some rd have "w' = v"
            by (auto simp: runReaper_def finish_def bind_def attempt_def stop_def ret_def split: sum.splits)
          with books_reaper [OF rp idle] show ?thesis unfolding d by simp
        qed
      next
        case other
        from pinned_finish [OF books_serve [OF other] run idle] show ?thesis unfolding d by (rule books_grow_same)
      qed
    qed
  qed
next
  fix role sur and w w' :: dbworld and e
  assume "finish (RunOnce role sur) w = (e, w')" and "w_snap w = None" and "d = w_db w" "d' = w_db w'"
  then show "books_grow d d'" by (simp add: books_escalation)
next
  fix role delete sur res and w w' :: dbworld
  assume "reap role delete sur w = (res, w')" and "w_snap w = None" and "d = w_db w" "d' = w_db w'"
  then show "books_grow d d'" by (simp add: books_reaper)
qed

lemma custody_complete_grow:
  assumes "custody_complete d" and "books_grow d d'"
  shows "custody_complete d'"
proof -
  from assms(2) obtain added kept cus where
    ev: "evidence d' = kept @ added" and cu: "custody d' = custody d @ cus" and
    old: "list_all2 (\<lambda>e e'. e' = e
             \<or> (\<exists>t. e' = e\<lparr>fe_sealed_at := Some t\<rparr>) \<and> (\<exists>cu\<in>set cus. cu_evidence_id cu = fe_id e \<and> cu_action cu = ''sealed''))
           (evidence d) kept" and
    new: "\<forall>e\<in>set added. fe_sealed_at e = None
             \<and> (\<exists>cu\<in>set cus. cu_evidence_id cu = fe_id e \<and> cu_action cu = ''captured'' \<and> (''sha256'', fe_sha256 e) \<in> set (cu_details cu))"
    unfolding books_grow_def by blast
  have "(\<exists>cu\<in>set (custody d'). cu_evidence_id cu = fe_id e \<and> cu_action cu = ''captured'' \<and> (''sha256'', fe_sha256 e) \<in> set (cu_details cu))
     \<and> (fe_sealed_at e \<noteq> None \<longrightarrow> (\<exists>cu\<in>set (custody d'). cu_evidence_id cu = fe_id e \<and> cu_action cu = ''sealed''))"
    if "e \<in> set (evidence d')" for e
  proof (cases "e \<in> set added")
    case True
    with new cu show ?thesis by auto
  next
    case False
    with that ev have "e \<in> set kept" by simp
    from list_all2_memD [OF old this] obtain e0 where e0: "e0 \<in> set (evidence d)" and
      "e = e0 \<or> (\<exists>t. e = e0\<lparr>fe_sealed_at := Some t\<rparr>) \<and> (\<exists>cu\<in>set cus. cu_evidence_id cu = fe_id e0 \<and> cu_action cu = ''sealed'')"
      by blast
    moreover from assms(1) e0 have "(\<exists>cu\<in>set (custody d). cu_evidence_id cu = fe_id e0 \<and> cu_action cu = ''captured'' \<and> (''sha256'', fe_sha256 e0) \<in> set (cu_details cu))"
      "fe_sealed_at e0 \<noteq> None \<Longrightarrow> (\<exists>cu\<in>set (custody d). cu_evidence_id cu = fe_id e0 \<and> cu_action cu = ''sealed'')"
      unfolding custody_complete_def by blast+
    ultimately show ?thesis unfolding cu set_append by (elim disjE) (simp, blast, auto)
  qed
  then show ?thesis unfolding custody_complete_def by blast
qed

text \<open>C5
  The chain of custody stays complete for ever: in every state the service reaches from one
  where it is complete (an empty database, for instance), through requests, escalation and
  reaper sweeps in any order and with any faults, every evidence row has its capture with its
  hash on record, and every sealed row its sealing. Custody rows are never changed or removed.
\<close>

theorem custody_complete_reachable:
  assumes "fines_reachable p d0 d" and "custody_complete d0"
  shows "custody_complete d \<and> (\<exists>added. custody d = custody d0 @ added)"
  using assms
proof (induction rule: fines_reachable.induct)
  case start
  then show ?case by simp
next
  case (step d d')
  from books_step [OF step.hyps(2)] have grow: "books_grow d d'" .
  then obtain cus where "custody d' = custody d @ cus" unfolding books_grow_def by blast
  with custody_complete_grow [OF _ grow] step show ?case by auto
qed

theorem custody_complete_reachable_witness:
  "custody_complete (w_db (snd demo_mux_issued))"
proof -
  have "finish (fines_mux demo_process demo_surroundings [] (bearer ''officer'') (PostFine (Some demo_issue_req))) (world_of demo_db)
      = (fst demo_mux_issued, snd demo_mux_issued)"
    by (simp add: demo_mux_issued_def)
  from fines_step.request [OF this] have "fines_step demo_process demo_db (w_db (snd demo_mux_issued))"
    by (simp add: world_of_def)
  then have "fines_reachable demo_process demo_db (w_db (snd demo_mux_issued))"
    by (rule fines_reachable.step [OF fines_reachable.start])
  moreover have "custody_complete demo_db"
    by (simp add: custody_complete_def demo_db_def empty_db_def)
  ultimately show ?thesis
    using custody_complete_reachable by blast
qed

end
