(* ===== verification/Outbox.thy ===== *)
theory Outbox
  imports Schema
begin

text \<open>
  The two readers of \<open>event_outbox\<close>: the per-consumer offsets of
  \<open>packages/go-common/events/consumer.go\<close> and the relay of
  \<open>packages/go-common/events/outbox.go\<close>, with the in-process bus of
  \<open>packages/go-common/events/inproc.go\<close>. Their database is the outbox and the table of
  offsets; what they hand over is in the log.
\<close>

section \<open>The consumer\<close>

record bus_db =
  bd_outbox :: "outbox_row list"
  bd_offsets :: "(string \<times> int) list"

datatype bus_effect = Dispatched string int envelope | Published envelope

record consumer =
  cn_name :: string
  cn_batch :: nat
  cn_types :: "string list"

type_synonym 'a bus_job = "(bus_db, bus_effect, goerr option, 'a) act"

definition NewConsumer :: "string \<Rightarrow> consumer" where
  "NewConsumer name = \<lparr>cn_name = name, cn_batch = 100, cn_types = []\<rparr>"

definition OnlyTypes :: "string list \<Rightarrow> consumer \<Rightarrow> consumer" where
  "OnlyTypes types c = c\<lparr>cn_types := cn_types c @ types\<rparr>"

definition init_offset :: "string \<Rightarrow> bus_db \<Rightarrow> bus_db" where
  "init_offset name d =
     (if map_of (bd_offsets d) name = None then d\<lparr>bd_offsets := bd_offsets d @ [(name, 0)]\<rparr> else d)"

definition set_offset :: "string \<Rightarrow> int \<Rightarrow> bus_db \<Rightarrow> bus_db" where
  "set_offset name n d = d\<lparr>bd_offsets := map (\<lambda>(k, v). if k = name then (k, n) else (k, v)) (bd_offsets d)\<rparr>"

definition offset_of :: "string \<Rightarrow> bus_db \<Rightarrow> int" where
  "offset_of name d = (case map_of (bd_offsets d) name of None \<Rightarrow> 0 | Some n \<Rightarrow> n)"

definition events_after :: "int \<Rightarrow> nat \<Rightarrow> bus_db \<Rightarrow> outbox_row list" where
  "events_after lastID batch d = take batch (sort_key ob_id (filter (\<lambda>r. ob_id r > lastID) (bd_outbox d)))"

definition wanted :: "consumer \<Rightarrow> envelope \<Rightarrow> bool" where
  "wanted c env \<longleftrightarrow> \<not> (length (cn_types c) > 0 \<and> env_type env \<notin> set (cn_types c))"

text \<open>The dispatcher's error is logged and dropped, so its result does not matter.\<close>

definition dispatch_row :: "consumer \<Rightarrow> outbox_row \<Rightarrow> unit bus_job" where
  "dispatch_row c r =
     (case ob_body r of
        None \<Rightarrow> ret ()
      | Some env \<Rightarrow> if wanted c env then emit (Dispatched (cn_name c) (ob_id r) env) else ret ())"

definition last_offset :: "consumer \<Rightarrow> int bus_job" where
  "last_offset c =
     bind (exec_try (query_row (\<lambda>d. map_of (bd_offsets d) (cn_name c)))) (\<lambda>res.
     case res of
       Inr n \<Rightarrow> ret n
     | Inl e \<Rightarrow>
         if e = NoRows
         then andthen (exec_or (\<lambda>_. Some PlainError) (change (init_offset (cn_name c)))) (ret 0)
         else stop (Some PlainError))"

definition tick :: "consumer \<Rightarrow> goerr option bus_job" where
  "tick c =
     bind (last_offset c) (\<lambda>lastID.
     bind (exec_or (\<lambda>_. Some PlainError) (query (events_after lastID (cn_batch c)))) (\<lambda>batch.
     if batch = [] then ret None
     else
       andthen (for_each (dispatch_row c) batch) (
       andthen (exec_or (\<lambda>_. Some PlainError) (change (set_offset (cn_name c) (ob_id (last batch))))) (
       ret None))))"

section \<open>The relay\<close>

text \<open>
  \<open>publish\<close> stands for the bus: whether it takes the envelope (the NATS publisher is outside
  the repository, the in-process one always does).
\<close>

definition bump_attempts :: "int \<Rightarrow> bus_db \<Rightarrow> bus_db" where
  "bump_attempts i d = d\<lparr>bd_outbox := map (\<lambda>r. if ob_id r = i then r\<lparr>ob_attempts := ob_attempts r + 1\<rparr> else r) (bd_outbox d)\<rparr>"

definition mark_delivered :: "int \<Rightarrow> time \<Rightarrow> bus_db \<Rightarrow> bus_db" where
  "mark_delivered i now d = d\<lparr>bd_outbox := map (\<lambda>r. if ob_id r = i then r\<lparr>ob_delivered_at := Some now\<rparr> else r) (bd_outbox d)\<rparr>"

definition undelivered :: "nat \<Rightarrow> bus_db \<Rightarrow> outbox_row list" where
  "undelivered batch d = take batch (sort_key ob_created_at (filter (\<lambda>r. ob_delivered_at r = None) (bd_outbox d)))"

definition relay_row :: "(envelope \<Rightarrow> bool) \<Rightarrow> time \<Rightarrow> outbox_row \<Rightarrow> unit bus_job" where
  "relay_row publish now r =
     (let give_up = bind (exec_try (change (bump_attempts (ob_id r)))) (\<lambda>_. ret ()) in
      case ob_body r of
        None \<Rightarrow> give_up
      | Some env \<Rightarrow>
          if \<not> publish env then give_up
          else
            andthen (emit (Published env)) (
            exec_or (\<lambda>_. Some PlainError) (change (mark_delivered (ob_id r) now))))"

definition relay_tx :: "(envelope \<Rightarrow> bool) \<Rightarrow> nat \<Rightarrow> time \<Rightarrow> unit bus_job" where
  "relay_tx publish batch now =
     bind (exec_or (\<lambda>_. Some PlainError) (query (undelivered batch))) (\<lambda>rows.
     andthen (guard (rows \<noteq> []) None) (
     for_each (relay_row publish now) rows))"

definition relay_tick :: "(envelope \<Rightarrow> bool) \<Rightarrow> nat \<Rightarrow> time \<Rightarrow> unit bus_job" where
  "relay_tick publish batch now =
     andthen (exec_or (\<lambda>_. Some PlainError) (query (\<lambda>_. ()))) (
     in_tx (Some PlainError) (relay_tx publish batch now))"

section \<open>The in-process bus\<close>

text \<open>\<open>subs\<close> maps an event type to its handlers; a handler answers whether it failed, which is only logged.\<close>

type_synonym 's handler_fun = "envelope \<Rightarrow> 's \<Rightarrow> bool \<times> 's"
type_synonym 's inproc = "string \<Rightarrow> 's handler_fun list"

definition Subscribe :: "string \<Rightarrow> 's handler_fun \<Rightarrow> 's inproc \<Rightarrow> 's inproc" where
  "Subscribe eventType h subs = subs(eventType := subs eventType @ [h])"

definition Publish :: "'s inproc \<Rightarrow> envelope \<Rightarrow> 's \<Rightarrow> goerr option \<times> 's" where
  "Publish subs env st = (None, foldl (\<lambda>s h. snd (h env s)) st (subs (env_type env)))"

section \<open>What a tick of the consumer does\<close>

definition handed_over :: "consumer \<Rightarrow> (bus_db, bus_effect) world \<Rightarrow> outbox_row \<Rightarrow> bool" where
  "handed_over c w r \<longleftrightarrow>
     (\<forall>env. ob_body r = Some env \<longrightarrow> wanted c env \<longrightarrow> Dispatched (cn_name c) (ob_id r) env \<in> set (w_log w))"

lemma dispatch_rows:
  "for_each (dispatch_row c) rows w = (Inr (), w\<lparr>w_log := w_log w
     @ map (\<lambda>r. Dispatched (cn_name c) (ob_id r) (the (ob_body r)))
         (filter (\<lambda>r. case ob_body r of None \<Rightarrow> False | Some env \<Rightarrow> wanted c env) rows)\<rparr>)"
proof (induction rows arbitrary: w)
  case Nil
  then show ?case by (simp add: ret_def)
next
  case (Cons r rows)
  then show ?case
    by (cases "ob_body r") (simp_all add: andthen_def bind_def dispatch_row_def ret_def emit_def)
qed

lemma dispatch_rows_handed_over:
  assumes "for_each (dispatch_row c) rows w = (Inr u, w')" and "r \<in> set rows"
  shows "handed_over c w' r"
  using assms by (force simp: dispatch_rows handed_over_def)

lemma lg_tick: "keeps log_grows (tick c)"
  unfolding tick_def last_offset_def dispatch_row_def by (intro lg_steps)

lemma handed_over_mono: "handed_over c w r \<Longrightarrow> log_grows w w' \<Longrightarrow> handed_over c w' r"
  by (auto simp: handed_over_def log_grows_def)

lemma events_after_from:
  "r \<in> set (events_after lo n d) \<Longrightarrow> r \<in> set (bd_outbox d) \<and> lo < ob_id r"
  unfolding events_after_def by (auto dest: in_set_takeD)

text \<open>A batch has no gap: what lies between the offset and its last event is in the batch.\<close>

lemma events_after_complete:
  assumes "r \<in> set (bd_outbox d)" and "lo < ob_id r" and "events_after lo n d \<noteq> []"
    and "ob_id r < ob_id (last (events_after lo n d))"
  shows "r \<in> set (events_after lo n d)"
proof (rule ccontr)
  let ?all = "sort_key ob_id (filter (\<lambda>r. ob_id r > lo) (bd_outbox d))"
  assume out: "r \<notin> set (events_after lo n d)"
  have "r \<in> set ?all" using assms(1,2) by simp
  then have "r \<in> set (take n ?all) \<or> r \<in> set (drop n ?all)" by (metis append_take_drop_id set_append UnE)
  with out have late: "r \<in> set (drop n ?all)" by (simp add: events_after_def)
  have "sorted (map ob_id (take n ?all @ drop n ?all))" by simp
  then have "\<forall>x\<in>set (take n ?all). \<forall>y\<in>set (drop n ?all). ob_id x \<le> ob_id y"
    unfolding map_append sorted_append by auto
  with late assms(3) have "ob_id (last (events_after lo n d)) \<le> ob_id r"
    unfolding events_after_def by auto
  with assms(4) show False by simp
qed

lemma events_after_no_gap:
  assumes distinct: "distinct (map ob_id (bd_outbox d))"
    and "r \<in> set (bd_outbox d)" and "lo < ob_id r" and some: "events_after lo n d \<noteq> []"
    and below: "ob_id r \<le> ob_id (last (events_after lo n d))"
  shows "r \<in> set (events_after lo n d)"
proof (cases "ob_id r = ob_id (last (events_after lo n d))")
  case True
  have "last (events_after lo n d) \<in> set (bd_outbox d)"
    using events_after_from [OF last_in_set [OF some]] by simp
  with distinct assms(2) True have "r = last (events_after lo n d)"
    by (metis distinct_map inj_onD)
  with some show ?thesis by simp
next
  case False
  with assms show ?thesis by (intro events_after_complete) simp_all
qed

text \<open>The offset row: reading it, creating it, moving it.\<close>

lemma init_offset_facts [simp]:
  "offset_of nm (init_offset name d) = offset_of nm d"
  "bd_outbox (init_offset name d) = bd_outbox d"
  "map_of (bd_offsets (init_offset name d)) name \<noteq> None"
  by (auto simp: init_offset_def offset_of_def map_add_def split: option.splits)

lemma map_of_set_offset:
  "map_of (bd_offsets (set_offset name n d)) nm
     = (if nm = name then map_option (\<lambda>_. n) (map_of (bd_offsets d) name) else map_of (bd_offsets d) nm)"
proof -
  have "map_of (map (\<lambda>(k, v). if k = name then (k, n) else (k, v)) xs) nm
      = (if nm = name then map_option (\<lambda>_. n) (map_of xs name) else map_of xs nm)" for xs :: "(string \<times> int) list"
    by (induction xs) auto
  then show ?thesis by (simp add: set_offset_def)
qed

lemma bd_outbox_set_offset [simp]: "bd_outbox (set_offset name n d) = bd_outbox d"
  by (simp add: set_offset_def)

lemma offset_of_set_offset:
  "offset_of nm (set_offset name n d)
     = (if nm = name \<and> map_of (bd_offsets d) name \<noteq> None then n else offset_of nm d)"
  by (auto simp: offset_of_def map_of_set_offset split: option.splits)

definition same_bus :: "bus_db \<Rightarrow> bus_db \<Rightarrow> bool" where
  "same_bus d d' \<longleftrightarrow> bd_outbox d' = bd_outbox d \<and> (\<forall>nm. offset_of nm d' = offset_of nm d)"

lemma last_offset_outcome:
  fixes w w' :: "(bus_db, bus_effect) world"
  assumes run: "last_offset c w = (res, w')"
  obtains (found) "res = Inr (offset_of (cn_name c) (w_db w))" "map_of (bd_offsets (w_db w')) (cn_name c) \<noteq> None"
      "same_bus (w_db w) (w_db w')" "w_snap w' = w_snap w" "w_log w' = w_log w"
  | (failed) e where "res = Inl e" "same_bus (w_db w) (w_db w')" "w_snap w' = w_snap w" "w_log w' = w_log w"
proof -
  let ?read = "exec_try (query_row (\<lambda>d. map_of (bd_offsets d) (cn_name c))) :: (sqlerr + int) bus_job"
  obtain r1 w1 where step: "?read w = (r1, w1)" by fastforce
  from exec_try_quiet [OF step] have quiet: "w_log w1 = w_log w" "w_snap w1 = w_snap w" by simp_all
  from step show thesis
  proof (cases rule: exec_try_cases)
    case (ok n d)
    with run step quiet show thesis
      by (intro found) (auto simp: last_offset_def bind_def ret_def offset_of_def same_bus_def)
  next
    case norows
    let ?init = "exec_or (\<lambda>_. Some PlainError) (change (init_offset (cn_name c))) :: unit bus_job"
    obtain r2 w2 where init: "?init w1 = (r2, w2)" by fastforce
    from norows have db1: "w_db w1 = w_db w" and none: "map_of (bd_offsets (w_db w)) (cn_name c) = None"
      by (auto simp: query_row_def split: option.splits)
    from init show thesis
    proof (cases rule: exec_or_outcome)
      case (ok x)
      with run step norows(1) quiet init db1 none show thesis
        by (intro found) (auto simp: last_offset_def bind_def andthen_def ret_def offset_of_def [of _ "w_db w"] same_bus_def)
    next
      case (failed e)
      with run step norows(1) quiet init db1 show thesis
        by (intro that(2)) (auto simp: last_offset_def bind_def andthen_def ret_def same_bus_def)
    qed
  next
    case (failed e)
    with run step quiet show thesis
      by (intro that(2)) (auto simp: last_offset_def bind_def stop_def same_bus_def)
  qed
qed

text \<open>A tick, whatever fails on its way, moves the offset over a batch it has handed over, or not at all.\<close>

lemma tick_outcome:
  fixes w w' :: "(bus_db, bus_effect) world"
  assumes run: "tick c w = (res, w')"
  obtains (stays) "same_bus (w_db w) (w_db w')" "w_snap w' = w_snap w"
  | (moves) batch where "batch = events_after (offset_of (cn_name c) (w_db w)) (cn_batch c) (w_db w)" "batch \<noteq> []"
      "\<And>r. r \<in> set batch \<Longrightarrow> handed_over c w' r" "w_snap w' = w_snap w"
      "bd_outbox (w_db w') = bd_outbox (w_db w)"
      "\<And>nm. offset_of nm (w_db w') = (if nm = cn_name c then ob_id (last batch) else offset_of nm (w_db w))"
proof -
  obtain r1 w1 where first: "last_offset c w = (r1, w1)" by fastforce
  from first show thesis
  proof (cases rule: last_offset_outcome)
    case (failed e)
    with run first show thesis by (intro stays) (auto simp: tick_def bind_def)
  next
    case found
    define lo where "lo = offset_of (cn_name c) (w_db w)"
    let ?read = "exec_or (\<lambda>_. Some PlainError) (query (events_after lo (cn_batch c))) :: outbox_row list bus_job"
    obtain r2 w2 where second: "?read w1 = (r2, w2)" by fastforce
    from second show thesis
    proof (cases rule: exec_or_outcome)
      case (failed e)
      with run first found second show thesis by (intro stays) (auto simp: tick_def bind_def lo_def)
    next
      case (ok batch)
      then have batch: "batch = events_after lo (cn_batch c) (w_db w)" and db2: "w_db w2 = w_db w1"
        using found(3) by (simp_all add: same_bus_def events_after_def)
      show thesis
      proof (cases "batch = []")
        case True
        with run first found second ok db2 show thesis by (intro stays) (auto simp: tick_def bind_def lo_def ret_def)
      next
        case False
        obtain w3 where third: "for_each (dispatch_row c) batch w2 = (Inr (), w3)"
          and w3: "w_db w3 = w_db w2" "w_snap w3 = w_snap w2"
          by (simp add: dispatch_rows)
        let ?move = "exec_or (\<lambda>_. Some PlainError) (change (set_offset (cn_name c) (ob_id (last batch)))) :: unit bus_job"
        obtain r4 w4 where fourth: "?move w3 = (r4, w4)" by fastforce
        have "w' = w4"
          using run first second third fourth found(1) ok(1) False
          by (auto simp: tick_def bind_def andthen_def lo_def ret_def split: sum.splits prod.splits)
        from fourth show thesis
        proof (cases rule: exec_or_outcome)
          case (failed e)
          with found db2 w3 ok \<open>w' = w4\<close> show thesis by (intro stays) (auto simp: same_bus_def)
        next
          case moved: (ok u)
          have out: "handed_over c w' r" if "r \<in> set batch" for r
            using dispatch_rows_handed_over [OF third that] moved \<open>w' = w4\<close> by (simp add: handed_over_def)
          show thesis
            using moved(2) found db2 w3 moved(4) ok(4) \<open>w' = w4\<close> False batch out
            by (intro moves [of batch]) (auto simp: same_bus_def offset_of_set_offset lo_def)
        qed
      qed
    qed
  qed
qed

lemma lg_relay_tick: "keeps log_grows (relay_tick publish batch now)"
  unfolding relay_tick_def relay_tx_def relay_row_def Let_def by (intro lg_steps)

text \<open>The relay changes neither the identity nor the body of a row, and no offset.\<close>

definition entries :: "bus_db \<Rightarrow> (int \<times> envelope option) list \<times> (string \<times> int) list" where
  "entries d = (map (\<lambda>r. (ob_id r, ob_body r)) (bd_outbox d), bd_offsets d)"

lemma entries_relay_writes [simp]:
  "entries (bump_attempts i d) = entries d"
  "entries (mark_delivered i now d) = entries d"
  by (auto simp: entries_def bump_attempts_def mark_delivered_def)

lemma pin_relay_tick: "keeps (pinned entries) (relay_tick publish batch now)"
  unfolding relay_tick_def relay_tx_def relay_row_def Let_def
  by (intro pin_steps frame_intros fixed_change entries_relay_writes)

lemma tx_relay_tx: "keeps same_tx (relay_tx publish batch now)"
  unfolding relay_tx_def relay_row_def Let_def by (intro tx_steps)

lemma relay_tick_idle:
  assumes "relay_tick publish n now w = (res, w')" and "w_snap w = None"
  shows "w_snap w' = None"
proof -
  let ?first = "exec_or (\<lambda>_. Some PlainError) (query (\<lambda>_. ())) :: unit bus_job"
  obtain r1 w1 where first: "?first w = (r1, w1)" by fastforce
  from keepsD [OF tx_exec_or first] assms(2) have snap1: "w_snap w1 = None" by (simp add: same_tx_def)
  show ?thesis
  proof (cases r1)
    case (Inl e)
    with assms first snap1 show ?thesis by (auto simp: relay_tick_def andthen_def bind_def)
  next
    case (Inr x)
    with assms first have "in_tx (Some PlainError) (relay_tx publish n now) w1 = (res, w')"
      by (auto simp: relay_tick_def andthen_def bind_def)
    then show ?thesis using snap1 tx_relay_tx by (cases rule: in_tx_cases) auto
  qed
qed

section \<open>Producers, consumers and relays together\<close>

text \<open>
  The steps of a system in which the consumers \<open>cs\<close> share the outbox. A producer commits a row
  whose id is above the ids already there; a consumer's tick or a relay's tick may be cut short
  at any statement (\<open>disturbed\<close> chooses the statements that fail).
\<close>

inductive bus_step :: "consumer set \<Rightarrow> (bus_db, bus_effect) world \<Rightarrow> (bus_db, bus_effect) world \<Rightarrow> bool"
  for cs where
  produced: "\<forall>old\<in>set (bd_outbox (w_db w)). ob_id old < ob_id r \<Longrightarrow> 0 < ob_id r \<Longrightarrow>
     bus_step cs w (w\<lparr>w_db := (w_db w)\<lparr>bd_outbox := bd_outbox (w_db w) @ [r]\<rparr>\<rparr>)"
| ticked: "c \<in> cs \<Longrightarrow> tick c w = (res, w') \<Longrightarrow> bus_step cs w w'"
| relayed: "relay_tick publish n now w = (res, w') \<Longrightarrow> bus_step cs w w'"
| disturbed: "bus_step cs w (w\<lparr>w_faults := fs\<rparr>)"

inductive bus_reachable :: "consumer set \<Rightarrow> (bus_db, bus_effect) world \<Rightarrow> bool" for cs where
  start: "bd_outbox (w_db w) = [] \<Longrightarrow> bd_offsets (w_db w) = [] \<Longrightarrow> w_snap w = None \<Longrightarrow> bus_reachable cs w"
| step: "bus_reachable cs w \<Longrightarrow> bus_step cs w w' \<Longrightarrow> bus_reachable cs w'"

definition caught_up :: "consumer \<Rightarrow> (bus_db, bus_effect) world \<Rightarrow> bool" where
  "caught_up c w \<longleftrightarrow> (\<forall>r\<in>set (bd_outbox (w_db w)). ob_id r \<le> offset_of (cn_name c) (w_db w) \<longrightarrow> handed_over c w r)"

definition offset_at_row :: "consumer \<Rightarrow> bus_db \<Rightarrow> bool" where
  "offset_at_row c d \<longleftrightarrow> offset_of (cn_name c) d = 0 \<or> offset_of (cn_name c) d \<in> ob_id ` set (bd_outbox d)"

definition bus_inv :: "consumer set \<Rightarrow> (bus_db, bus_effect) world \<Rightarrow> bool" where
  "bus_inv cs w \<longleftrightarrow> w_snap w = None \<and> distinct (map ob_id (bd_outbox (w_db w)))
     \<and> (\<forall>r\<in>set (bd_outbox (w_db w)). 0 < ob_id r)
     \<and> (\<forall>c\<in>cs. offset_at_row c (w_db w) \<and> caught_up c w)"

lemma bus_inv_same:
  assumes inv: "bus_inv cs w" and same: "same_bus (w_db w) (w_db w')" "w_snap w' = w_snap w" and log: "log_grows w w'"
  shows "bus_inv cs w'"
  using inv same handed_over_mono [OF _ log]
  unfolding bus_inv_def same_bus_def caught_up_def offset_at_row_def by metis

lemma bus_inv_produced:
  assumes inv: "bus_inv cs w" and new: "\<forall>old\<in>set (bd_outbox (w_db w)). ob_id old < ob_id r" "0 < ob_id r"
  shows "bus_inv cs (w\<lparr>w_db := (w_db w)\<lparr>bd_outbox := bd_outbox (w_db w) @ [r]\<rparr>\<rparr>)"
proof -
  have "offset_of (cn_name c) (w_db w) < ob_id r" if "c \<in> cs" for c
  proof -
    from inv that have "offset_at_row c (w_db w)" by (simp add: bus_inv_def)
    with new show ?thesis by (auto simp: offset_at_row_def)
  qed
  with inv new show ?thesis
    by (fastforce simp: bus_inv_def offset_at_row_def caught_up_def handed_over_def offset_of_def)
qed

lemma bus_inv_ticked:
  assumes inv: "bus_inv cs w" and names: "inj_on cn_name cs" and c: "c \<in> cs" and run: "tick c w = (res, w')"
  shows "bus_inv cs w'"
proof -
  from lg_tick run have log: "log_grows w w'" by (rule keepsD)
  from run show ?thesis
  proof (cases rule: tick_outcome)
    case stays
    with bus_inv_same [OF inv _ _ log] show ?thesis by simp
  next
    case (moves batch)
    let ?lo = "offset_of (cn_name c) (w_db w)"
    have last: "last batch \<in> set (bd_outbox (w_db w))"
      using moves(1) events_after_from last_in_set [OF moves(2)] by blast
    have "offset_at_row k (w_db w') \<and> caught_up k w'" if k: "k \<in> cs" for k
    proof (cases "k = c")
      case False
      with names c k have "cn_name k \<noteq> cn_name c" by (metis inj_onD)
      with inv k moves handed_over_mono [OF _ log] show ?thesis
        by (auto simp: bus_inv_def offset_at_row_def caught_up_def)
    next
      case True
      have "handed_over c w' r" if r: "r \<in> set (bd_outbox (w_db w))" "ob_id r \<le> ob_id (last batch)" for r
      proof (cases "ob_id r \<le> ?lo")
        case True
        with inv c r have "handed_over c w r" by (simp add: bus_inv_def caught_up_def)
        then show ?thesis using log by (rule handed_over_mono)
      next
        case False
        with inv r moves(1,2) have "r \<in> set batch"
          using events_after_no_gap [of "w_db w" r ?lo "cn_batch c"] by (simp add: bus_inv_def)
        then show ?thesis by (rule moves(3))
      qed
      with True moves last show ?thesis by (auto simp: offset_at_row_def caught_up_def)
    qed
    with inv moves show ?thesis by (simp add: bus_inv_def)
  qed
qed

lemma bus_inv_relayed:
  assumes inv: "bus_inv cs w" and run: "relay_tick publish n now w = (res, w')"
  shows "bus_inv cs w'"
proof -
  from lg_relay_tick run have log: "log_grows w w'" by (rule keepsD)
  from inv have idle: "w_snap w = None" by (simp add: bus_inv_def)
  from pinnedD [OF pin_relay_tick run idle] have same: "entries (w_db w') = entries (w_db w)" .
  then have offs: "offset_of nm (w_db w') = offset_of nm (w_db w)" for nm by (simp add: entries_def offset_of_def)
  from same have rows: "map (\<lambda>r. (ob_id r, ob_body r)) (bd_outbox (w_db w')) = map (\<lambda>r. (ob_id r, ob_body r)) (bd_outbox (w_db w))"
    by (simp add: entries_def)
  then have "map fst (map (\<lambda>r. (ob_id r, ob_body r)) (bd_outbox (w_db w'))) = map fst (map (\<lambda>r. (ob_id r, ob_body r)) (bd_outbox (w_db w)))"
    by simp
  then have ids: "map ob_id (bd_outbox (w_db w')) = map ob_id (bd_outbox (w_db w))" by (simp add: comp_def)
  have old: "\<exists>r\<in>set (bd_outbox (w_db w)). ob_id r = ob_id r' \<and> ob_body r = ob_body r'"
    if "r' \<in> set (bd_outbox (w_db w'))" for r'
  proof -
    from that have "(ob_id r', ob_body r') \<in> set (map (\<lambda>r. (ob_id r, ob_body r)) (bd_outbox (w_db w')))" by auto
    then show ?thesis unfolding rows by auto
  qed
  have idset: "ob_id ` set (bd_outbox (w_db w')) = ob_id ` set (bd_outbox (w_db w))"
    using arg_cong [OF ids, of set] by simp
  have "caught_up c w'" if "caught_up c w" for c
    using that old handed_over_mono [OF _ log] unfolding caught_up_def offs handed_over_def by metis
  with inv relay_tick_idle [OF run idle] ids idset offs old show ?thesis
    by (fastforce simp: bus_inv_def offset_at_row_def)
qed

lemma bus_inv_reachable: "bus_reachable cs w \<Longrightarrow> inj_on cn_name cs \<Longrightarrow> bus_inv cs w"
proof (induction rule: bus_reachable.induct)
  case (start w)
  then show ?case by (simp add: bus_inv_def offset_at_row_def caught_up_def offset_of_def)
next
  case (step w w')
  from step have inv: "bus_inv cs w" by simp
  from step.hyps(2) show ?case
  proof (cases rule: bus_step.cases)
    case (produced r)
    from bus_inv_produced [OF inv produced(2,3)] produced(1) show ?thesis by simp
  next
    case (ticked c res)
    from bus_inv_ticked [OF inv step.prems ticked] show ?thesis .
  next
    case (relayed publish n now res)
    from bus_inv_relayed [OF inv relayed] show ?thesis .
  next
    case (disturbed fs)
    from inv show ?thesis unfolding disturbed by (simp add: bus_inv_def caught_up_def handed_over_def)
  qed
qed

section \<open>What the relay marks\<close>

text \<open>
  A further instance of the frame conditions: every row newly marked as delivered is one of
  \<open>rows\<close>, and its envelope was taken by the bus.
\<close>

definition marks_published :: "(envelope \<Rightarrow> bool) \<Rightarrow> outbox_row list \<Rightarrow> (bus_db, bus_effect) world \<Rightarrow> (bus_db, bus_effect) world \<Rightarrow> bool" where
  "marks_published publish rows w w' \<longleftrightarrow> log_grows w w' \<and>
     (\<forall>r'\<in>set (bd_outbox (w_db w')). ob_delivered_at r' \<noteq> None \<longrightarrow>
        (\<exists>r\<in>set (bd_outbox (w_db w)). ob_id r = ob_id r' \<and> ob_delivered_at r \<noteq> None)
        \<or> (\<exists>r\<in>set rows. ob_id r = ob_id r' \<and> (\<exists>env. ob_body r = Some env \<and> publish env \<and> Published env \<in> set (w_log w'))))"

lemma log_grows_member: "log_grows w w' \<Longrightarrow> x \<in> set (w_log w) \<Longrightarrow> x \<in> set (w_log w')"
  by (auto simp: log_grows_def)

interpretation mp: frame "marks_published publish rows" for publish rows
proof unfold_locales
  show "marks_published publish rows w w" for w
    by (auto simp: marks_published_def lg.refl)
next
  fix u v w
  assume uv: "marks_published publish rows u v" and vw: "marks_published publish rows v w"
  then have "log_grows u w" unfolding marks_published_def by (blast intro: lg.trans)
  moreover from vw have "log_grows v w" by (simp add: marks_published_def)
  ultimately show "marks_published publish rows u w"
    using uv vw log_grows_member [OF \<open>log_grows v w\<close>] unfolding marks_published_def by metis
qed

lemma mp_exec_or:
  fixes f :: "bus_db \<Rightarrow> sqlerr + 'a \<times> bus_db" and k :: "sqlerr \<Rightarrow> 'r"
  assumes writes: "\<And>d x d'. f d = Inr (x, d') \<Longrightarrow>
      \<forall>r'\<in>set (bd_outbox d'). ob_delivered_at r' \<noteq> None \<longrightarrow> (\<exists>r\<in>set (bd_outbox d). ob_id r = ob_id r' \<and> ob_delivered_at r \<noteq> None)"
  shows "keeps (marks_published publish rows) (exec_or k f :: (bus_db, bus_effect, 'r, 'a) act)"
proof (rule keepsI)
  fix w :: "(bus_db, bus_effect) world"
  obtain res :: "'r + 'a" and w' where run: "exec_or k f w = (res, w')" by fastforce
  from keepsD [OF lg_exec_or run] have log: "log_grows w w'" .
  from run have "marks_published publish rows w w'"
  proof (cases rule: exec_or_outcome)
    case (ok x)
    with writes [OF ok(2)] log show ?thesis by (simp add: marks_published_def)
  next
    case (failed e)
    with log show ?thesis by (auto simp: marks_published_def)
  qed
  with run show "marks_published publish rows w (snd ((exec_or k f :: (bus_db, bus_effect, 'r, 'a) act) w))" by simp
qed

lemma mp_emit: "keeps (marks_published publish rows) (emit ev)"
  by (rule keepsI) (auto simp: marks_published_def emit_def log_grows_def)

lemma bump_delivered:
  "\<forall>r'\<in>set (bd_outbox (bump_attempts i d)). ob_delivered_at r' \<noteq> None \<longrightarrow> (\<exists>r\<in>set (bd_outbox d). ob_id r = ob_id r' \<and> ob_delivered_at r \<noteq> None)"
  by (auto simp: bump_attempts_def)

lemma mark_delivered_rows:
  "r' \<in> set (bd_outbox (mark_delivered i now d)) \<Longrightarrow> ob_delivered_at r' \<noteq> None \<Longrightarrow>
     ob_id r' = i \<or> (\<exists>r\<in>set (bd_outbox d). ob_id r = ob_id r' \<and> ob_delivered_at r \<noteq> None)"
  by (auto simp: mark_delivered_def)

lemma mp_give_up:
  "keeps (marks_published publish rows) (bind (exec_try (change (bump_attempts i))) (\<lambda>_. ret ()) :: unit bus_job)"
proof (rule keepsI)
  fix w :: "(bus_db, bus_effect) world"
  let ?m = "bind (exec_try (change (bump_attempts i))) (\<lambda>_. ret ()) :: unit bus_job"
  obtain res1 w1 where run: "(exec_try (change (bump_attempts i)) :: (sqlerr + unit) bus_job) w = (res1, w1)" by fastforce
  have log: "log_grows w w1" by (rule keepsD [OF lg_exec_try run])
  from run have "marks_published publish rows w w1 \<and> snd (?m w) = w1"
  proof (cases rule: exec_try_cases)
    case (ok x d)
    with run log bump_delivered [of i "w_db w"] show ?thesis
      by (auto simp: marks_published_def bind_def ret_def)
  qed (use run log in \<open>auto simp: marks_published_def bind_def ret_def\<close>)
  then show "marks_published publish rows w (snd (?m w))" by simp
qed

lemma mp_publish:
  assumes r: "r \<in> set rows" "ob_body r = Some env" "publish env"
  shows "keeps (marks_published publish rows)
    (andthen (emit (Published env)) (exec_or (\<lambda>_. Some PlainError) (change (mark_delivered (ob_id r) now))) :: unit bus_job)"
proof (rule keepsI)
  fix w :: "(bus_db, bus_effect) world"
  let ?w1 = "w\<lparr>w_log := w_log w @ [Published env]\<rparr>"
  let ?mark = "exec_or (\<lambda>_. Some PlainError) (change (mark_delivered (ob_id r) now)) :: unit bus_job"
  obtain res w' where run: "?mark ?w1 = (res, w')" by fastforce
  have log: "log_grows ?w1 w'" by (rule keepsD [OF lg_exec_or run])
  from run have "marks_published publish rows w w'"
  proof (cases rule: exec_or_outcome)
    case (ok x)
    then have db: "w_db w' = mark_delivered (ob_id r) now (w_db w)" and pub: "Published env \<in> set (w_log w')" by simp_all
    have "log_grows w w'" using ok by (simp add: log_grows_def)
    with db pub mark_delivered_rows r show ?thesis unfolding marks_published_def by metis
  next
    case (failed e)
    then show ?thesis by (auto simp: marks_published_def log_grows_def)
  qed
  then show "marks_published publish rows w (snd (andthen (emit (Published env)) ?mark w))"
    using run by (simp add: andthen_def bind_def emit_def)
qed

lemma mp_relay_row: "r \<in> set rows \<Longrightarrow> keeps (marks_published publish rows) (relay_row publish now r)"
  unfolding relay_row_def Let_def by (cases "ob_body r") (auto simp: mp_give_up mp_publish)

lemma mp_relay_rows:
  "set xs \<subseteq> set rows \<Longrightarrow> keeps (marks_published publish rows) (for_each (relay_row publish now) xs)"
  by (induction xs) (auto intro: mp.r_ret mp.r_andthen mp_relay_row)

section \<open>Properties\<close>

definition demo_event :: "int \<Rightarrow> string \<Rightarrow> outbox_row" where
  "demo_event n ty = \<lparr>ob_id = n, ob_tenant = ''cm'',
     ob_body = Some (NewEnvelope \<lparr>go_now = n, db_now = n, new_uuid = (\<lambda>k. k)\<rparr> (nat n) ''fines'' ''cm'' ty 1 OtherData),
     ob_delivered_at = None, ob_attempts = 0, ob_created_at = n\<rparr>"

definition demo_bus :: "outbox_row list \<Rightarrow> (bus_db, bus_effect) world" where
  "demo_bus rows = \<lparr>w_db = \<lparr>bd_outbox = rows, bd_offsets = []\<rparr>, w_snap = None, w_save = None, w_aborted = False,
     w_seq = (\<lambda>_. 0), w_faults = [], w_log = []\<rparr>"

definition demo_consumer :: consumer where
  "demo_consumer = OnlyTypes [TypeFineIssued] (NewConsumer ''license'')"


definition demo_bus_ticked :: "(goerr option + goerr option) \<times> (bus_db, bus_effect) world" where
  "demo_bus_ticked = tick demo_consumer ((demo_bus [])\<lparr>w_db := (w_db (demo_bus []))\<lparr>bd_outbox := [demo_event 1 TypeFineIssued]\<rparr>\<rparr>)"

lemma demo_bus_ticked_reachable: "bus_reachable {demo_consumer} (snd demo_bus_ticked)"
proof -
  have "bus_reachable {demo_consumer} (demo_bus [])" by (rule bus_reachable.start) (simp_all add: demo_bus_def)
  moreover have "bus_step {demo_consumer} (demo_bus []) ((demo_bus [])\<lparr>w_db := (w_db (demo_bus []))\<lparr>bd_outbox := [demo_event 1 TypeFineIssued]\<rparr>\<rparr>)"
    using bus_step.produced [of "demo_bus []" "demo_event 1 TypeFineIssued"] by (simp add: demo_bus_def demo_event_def)
  moreover have "bus_step {demo_consumer} ((demo_bus [])\<lparr>w_db := (w_db (demo_bus []))\<lparr>bd_outbox := [demo_event 1 TypeFineIssued]\<rparr>\<rparr>) (snd demo_bus_ticked)"
    by (rule bus_step.ticked [of demo_consumer _ _ "fst demo_bus_ticked"]) (simp_all add: demo_bus_ticked_def)
  ultimately show ?thesis by (blast intro: bus_reachable.step)
qed


lemma last_offset_healthy:
  assumes "healthy w"
  obtains w1 where "last_offset c w = (Inr (offset_of (cn_name c) (w_db w)), w1)" "healthy w1"
    "same_bus (w_db w) (w_db w1)" "map_of (bd_offsets (w_db w1)) (cn_name c) \<noteq> None"
proof (cases "map_of (bd_offsets (w_db w)) (cn_name c)")
  case None
  let ?w1 = "w\<lparr>w_faults := tl (w_faults w)\<rparr>"
  have h: "healthy ?w1" using assms by (simp add: healthy_def)
  from None assms h show thesis
    by (intro that [of "?w1\<lparr>w_db := init_offset (cn_name c) (w_db w)\<rparr>"])
      (simp_all add: last_offset_def bind_def exec_try_def query_row_def Let_def healthy_def [of w]
        andthen_ok [where m = "exec_or (\<lambda>_. Some PlainError) (change (init_offset (cn_name c)))", OF exec_change_ok] ret_def offset_of_def [of _ "w_db w"] same_bus_def)
next
  case (Some n)
  with assms show thesis
    by (intro that [of "w\<lparr>w_faults := tl (w_faults w)\<rparr>"])
      (simp_all add: last_offset_def bind_def exec_try_def query_row_def Let_def healthy_def
        ret_def offset_of_def same_bus_def)
qed

lemma sorted_le_last: "sorted xs \<Longrightarrow> x \<in> set xs \<Longrightarrow> x \<le> last xs"
  by (induction xs) auto

text \<open>
  A consumer catches up: a tick no statement of which fails, with at most one batch of unread
  events, returns nil, hands over every unread event, and leaves no event above the offset.
\<close>

theorem tick_drains:
  assumes "healthy w"
    and "length (filter (\<lambda>r. offset_of (cn_name c) (w_db w) < ob_id r) (bd_outbox (w_db w))) \<le> cn_batch c"
  shows "\<exists>w'. tick c w = (Inr None, w')
    \<and> (\<forall>r\<in>set (bd_outbox (w_db w)). offset_of (cn_name c) (w_db w) < ob_id r \<longrightarrow> handed_over c w' r)
    \<and> (\<forall>r\<in>set (bd_outbox (w_db w')). ob_id r \<le> offset_of (cn_name c) (w_db w'))"
proof -
  let ?n = "cn_name c" and ?lo = "offset_of (cn_name c) (w_db w)"
  obtain w1 where first: "last_offset c w = (Inr ?lo, w1)" and h1: "healthy w1" and b1: "same_bus (w_db w) (w_db w1)"
    and row: "map_of (bd_offsets (w_db w1)) ?n \<noteq> None"
    using last_offset_healthy [OF assms(1)] .
  define batch where "batch = events_after ?lo (cn_batch c) (w_db w1)"
  have batch: "set batch = {r \<in> set (bd_outbox (w_db w)). ?lo < ob_id r}" "sorted (map ob_id batch)"
    using assms(2) b1 by (simp_all add: batch_def events_after_def same_bus_def)
  have second: "tick c w = (if batch = [] then ret None else
       andthen (for_each (dispatch_row c) batch) (
       andthen (exec_or (\<lambda>_. Some PlainError) (change (set_offset ?n (ob_id (last batch))))) (ret None))) w1"
    by (simp add: tick_def bind_ok [where m = "last_offset c", OF first] batch_def
        bind_ok [where m = "exec_or (\<lambda>_. Some PlainError) (query (events_after ?lo (cn_batch c)))", OF exec_query_ok [OF h1]])
  show ?thesis
  proof (cases "batch = []")
    case True
    with batch(1) b1 second show ?thesis by (auto simp: ret_def same_bus_def not_less)
  next
    case False
    obtain w2 where third: "for_each (dispatch_row c) batch w1 = (Inr (), w2)" and h2: "healthy w2" and db2: "w_db w2 = w_db w1"
      using h1 by (simp add: dispatch_rows)
    let ?w3 = "w2\<lparr>w_db := set_offset ?n (ob_id (last batch)) (w_db w2)\<rparr>"
    have "tick c w = (Inr None, ?w3)"
      using False by (simp add: second ret_def andthen_ok [where m = "for_each (dispatch_row c) batch", OF third]
          andthen_ok [where m = "exec_or (\<lambda>_. Some PlainError) (change (set_offset ?n (ob_id (last batch))))", OF exec_change_ok [OF h2]])
    moreover have "handed_over c ?w3 r" if "r \<in> set (bd_outbox (w_db w))" "?lo < ob_id r" for r
      using dispatch_rows_handed_over [OF third] that batch(1) by (simp add: handed_over_def)
    moreover have "ob_id r \<le> offset_of ?n (w_db ?w3)" if "r \<in> set (bd_outbox (w_db ?w3))" for r
    proof -
      from that b1 db2 have r: "r \<in> set (bd_outbox (w_db w))" by (simp add: same_bus_def)
      have top: "ob_id x \<le> ob_id (last batch)" if "x \<in> set batch" for x
        using sorted_le_last [OF batch(2)] that False by (simp add: last_map)
      have "last batch \<in> set batch" using False by simp
      with batch(1) have "?lo < ob_id (last batch)" by blast
      with r batch(1) top have "ob_id r \<le> ob_id (last batch)" by (cases "?lo < ob_id r") auto
      with row db2 show ?thesis by (simp add: offset_of_set_offset)
    qed
    ultimately show ?thesis by blast
  qed
qed

theorem tick_drains_witness:
  "\<exists>w'. tick demo_consumer (demo_bus [demo_event 1 TypeFineIssued, demo_event 2 TypeFinePaid]) = (Inr None, w')
    \<and> (\<forall>r\<in>set (bd_outbox (w_db w')). ob_id r \<le> offset_of ''license'' (w_db w'))"
proof -
  let ?w = "demo_bus [demo_event 1 TypeFineIssued, demo_event 2 TypeFinePaid]"
  have "healthy ?w" by (simp add: healthy_def demo_bus_def)
  moreover have "length (filter (\<lambda>r. offset_of (cn_name demo_consumer) (w_db ?w) < ob_id r) (bd_outbox (w_db ?w))) \<le> cn_batch demo_consumer"
    by code_simp
  moreover have "cn_name demo_consumer = ''license''" by code_simp
  ultimately show ?thesis using tick_drains [of ?w demo_consumer] by metis
qed

text \<open>
  The relay marks only what the bus took: after a tick of the relay, whatever fails, every row
  that carries a delivery time had one before or its envelope decoded and was published during
  the tick. An event is thus published at least once, and again when the marking was rolled back.
\<close>

theorem relay_marks_only_published:
  assumes "relay_tick publish n now w = (res, w')" and "w_snap w = None"
    and "r' \<in> set (bd_outbox (w_db w'))" and "ob_delivered_at r' \<noteq> None"
  shows "\<exists>r\<in>set (bd_outbox (w_db w)). ob_id r = ob_id r' \<and>
    (ob_delivered_at r \<noteq> None \<or> (\<exists>env. ob_body r = Some env \<and> publish env \<and> Published env \<in> set (w_log w')))"
proof -
  let ?first = "exec_or (\<lambda>_. Some PlainError) (query (\<lambda>_. ())) :: unit bus_job"
  obtain r1 w1 where first: "?first w = (r1, w1)" by fastforce
  have w1: "w_snap w1 = None" "w_db w1 = w_db w"
    using exec_or_outcome [OF first] assms(2) by (metis query_Inr, metis query_Inr)
  show ?thesis
  proof (cases r1)
    case (Inl e)
    with assms first w1 show ?thesis by (auto simp: relay_tick_def andthen_def bind_def)
  next
    case (Inr x)
    with assms(1) first have run: "in_tx (Some PlainError) (relay_tx publish n now) w1 = (res, w')"
      by (auto simp: relay_tick_def andthen_def bind_def)
    from run w1(1) tx_relay_tx show ?thesis
    proof (cases rule: in_tx_cases)
      case (rolledback e)
      with assms(3,4) w1 show ?thesis by auto
    next
      case (committed y w2 w3)
      obtain rows w4 where read: "exec_or (\<lambda>_. Some PlainError) (query (undelivered n)) w2 = (Inr rows :: goerr option + _, w4)"
        and loop: "for_each (relay_row publish now) rows w4 = (Inr y, w3)"
        using committed(2) unfolding relay_tx_def by (elim bindE andthenE) (simp add: that)
      from exec_query_db [OF read] have rows: "set rows \<subseteq> set (bd_outbox (w_db w))" and "w_db w4 = w_db w"
        using committed(3) w1 by (auto simp: undelivered_def dest: in_set_takeD)
      with keepsD [OF mp_relay_rows [of rows rows publish now] loop] assms(3,4) committed show ?thesis
        unfolding marks_published_def by (metis subsetD subset_refl)
    qed
  qed
qed

definition demo_relayed :: "(goerr option + unit) \<times> (bus_db, bus_effect) world" where
  "demo_relayed = relay_tick (\<lambda>_. True) 100 9 (demo_bus [demo_event 1 TypeFineIssued])"

theorem relay_marks_only_published_witness:
  "Published (the (ob_body (demo_event 1 TypeFineIssued))) \<in> set (w_log (snd demo_relayed))"
proof -
  let ?r = "(demo_event 1 TypeFineIssued)\<lparr>ob_delivered_at := Some 9\<rparr>"
  have "relay_tick (\<lambda>_. True) 100 9 (demo_bus [demo_event 1 TypeFineIssued]) = (fst demo_relayed, snd demo_relayed)"
    by (simp add: demo_relayed_def)
  moreover have "w_snap (demo_bus [demo_event 1 TypeFineIssued]) = None" by (simp add: demo_bus_def)
  moreover have "?r \<in> set (bd_outbox (w_db (snd demo_relayed)))" by code_simp
  ultimately have "\<exists>r\<in>set (bd_outbox (w_db (demo_bus [demo_event 1 TypeFineIssued]))). ob_id r = ob_id ?r \<and>
    (ob_delivered_at r \<noteq> None \<or> (\<exists>env. ob_body r = Some env \<and> True \<and> Published env \<in> set (w_log (snd demo_relayed))))"
    by (rule relay_marks_only_published) simp
  then show ?thesis by (auto simp: demo_bus_def demo_event_def)
qed

text \<open>
  Ids are drawn before the producer's commit, so a row can appear below the offset; it is never
  handed over. The producers of \<open>bus_step\<close> exclude that by committing in id order.
\<close>

definition demo_late :: "(bus_db, bus_effect) world" where
  "demo_late =
     (let w1 = snd (tick demo_consumer (demo_bus [demo_event 2 TypeFineIssued]));
          w2 = w1\<lparr>w_db := (w_db w1)\<lparr>bd_outbox := bd_outbox (w_db w1) @ [demo_event 1 TypeFineIssued]\<rparr>\<rparr>
      in snd (tick demo_consumer w2))"

lemma late_commit_is_skipped:
  "demo_event 1 TypeFineIssued \<in> set (bd_outbox (w_db demo_late))
     \<and> ob_id (demo_event 1 TypeFineIssued) \<le> offset_of ''license'' (w_db demo_late)
     \<and> w_log demo_late = [Dispatched ''license'' 2 (the (ob_body (demo_event 2 TypeFineIssued)))]"
  by code_simp

end
