(* ===== verification/Bus.thy ===== *)
theory Bus
  imports Outbox
begin

text \<open>
  The transports an event travels on (\<open>packages/go-common/events/nats.go\<close>, \<open>inproc.go\<close>): the NATS
  publisher, which for now delivers to the handlers registered in the process, and the choice between
  the two. \<open>Outbox\<close> has the in-process bus. \<open>enc\<close> is whether \<open>json.Marshal\<close> takes the envelope (a
  coordinate that is not a number is refused); debug records are not modelled.
\<close>

section \<open>The NATS publisher\<close>

record NATSConfig =
  nc_URL :: string
  nc_Stream :: string
  nc_SubjectPrefix :: string
  nc_ConnectTimeout :: time
  nc_Consumer :: string

definition nats_defaults :: "NATSConfig \<Rightarrow> NATSConfig" where
  "nats_defaults c =
     (let c = (if nc_Stream c = [] then c\<lparr>nc_Stream := ''NADITOS_EVENTS''\<rparr> else c);
          c = (if nc_SubjectPrefix c = [] then c\<lparr>nc_SubjectPrefix := ''naditos.''\<rparr> else c)
      in if nc_ConnectTimeout c = 0 then c\<lparr>nc_ConnectTimeout := seconds 5\<rparr> else c)"

record 's NATSPublisher =
  np_cfg :: NATSConfig
  np_subs :: "'s inproc"
  np_connected :: bool

definition OpenNATS :: "NATSConfig \<Rightarrow> goerr + 's NATSPublisher" where
  "OpenNATS c =
     (let c = nats_defaults c in
      if nc_URL c = [] then Inl PlainError else Inr \<lparr>np_cfg = c, np_subs = (\<lambda>_. []), np_connected = True\<rparr>)"

definition nats_subject :: "'s NATSPublisher \<Rightarrow> envelope \<Rightarrow> string" where
  "nats_subject p env = nc_SubjectPrefix (np_cfg p) @ env_type env"

definition nats_Publish :: "(envelope \<Rightarrow> bool) \<Rightarrow> 's NATSPublisher \<Rightarrow> envelope \<Rightarrow> 's \<Rightarrow> goerr option \<times> 's" where
  "nats_Publish enc p env st =
     (if \<not> np_connected p then (Some PlainError, st)
      else if \<not> enc env then (Some PlainError, st)
      else (None, foldl (\<lambda>s h. snd (h env s)) st (np_subs p (env_type env))))"

definition nats_Subscribe :: "string \<Rightarrow> 's handler_fun \<Rightarrow> 's NATSPublisher \<Rightarrow> 's NATSPublisher" where
  "nats_Subscribe eventType h p = p\<lparr>np_subs := (np_subs p)(eventType := np_subs p eventType @ [h])\<rparr>"

definition nats_Close :: "'s NATSPublisher \<Rightarrow> 's NATSPublisher" where
  "nats_Close p = p\<lparr>np_connected := False\<rparr>"

section \<open>The choice of the transport\<close>

datatype 's publisher = InProcBus "'s inproc" | NatsBus "'s NATSPublisher"

definition NewInProc :: "'s publisher" where
  "NewInProc = InProcBus (\<lambda>_. [])"

definition url_config :: "string \<Rightarrow> NATSConfig" where
  "url_config url = \<lparr>nc_URL = url, nc_Stream = [], nc_SubjectPrefix = [], nc_ConnectTimeout = 0, nc_Consumer = []\<rparr>"

definition OpenPublisher :: "string \<Rightarrow> 's publisher" where
  "OpenPublisher natsURL =
     (if natsURL = [] then NewInProc
      else case OpenNATS (url_config natsURL) of Inl _ \<Rightarrow> NewInProc | Inr p \<Rightarrow> NatsBus p)"

text \<open>The calls of the interface.\<close>

fun bus_publish :: "(envelope \<Rightarrow> bool) \<Rightarrow> 's publisher \<Rightarrow> envelope \<Rightarrow> 's \<Rightarrow> goerr option \<times> 's" where
  "bus_publish enc (InProcBus subs) env st = Publish subs env st"
| "bus_publish enc (NatsBus p) env st = nats_Publish enc p env st"

fun bus_subscribe :: "string \<Rightarrow> 's handler_fun \<Rightarrow> 's publisher \<Rightarrow> 's publisher" where
  "bus_subscribe eventType h (InProcBus subs) = InProcBus (Subscribe eventType h subs)"
| "bus_subscribe eventType h (NatsBus p) = NatsBus (nats_Subscribe eventType h p)"

fun bus_close :: "'s publisher \<Rightarrow> 's publisher" where
  "bus_close (InProcBus subs) = InProcBus subs"
| "bus_close (NatsBus p) = NatsBus (nats_Close p)"

section \<open>What a bus promises\<close>

datatype 's bus_op = SubscribeOp string "'s handler_fun" | PublishOp envelope

text \<open>
  The reference: an event is handed to the handlers subscribed to its type so far, in the order of
  their subscription, each seeing what the ones before it did.
\<close>

fun subscribed :: "string \<Rightarrow> 's bus_op list \<Rightarrow> 's handler_fun list" where
  "subscribed ty [] = []"
| "subscribed ty (SubscribeOp t h # ops) = (if t = ty then [h] else []) @ subscribed ty ops"
| "subscribed ty (PublishOp env # ops) = subscribed ty ops"

fun delivered :: "'s bus_op list \<Rightarrow> 's bus_op list \<Rightarrow> 's \<Rightarrow> 's" where
  "delivered before [] st = st"
| "delivered before (SubscribeOp t h # ops) st = delivered (before @ [SubscribeOp t h]) ops st"
| "delivered before (PublishOp env # ops) st =
     delivered before ops (foldl (\<lambda>s h. snd (h env s)) st (subscribed (env_type env) before))"

lemma subscribed_append [simp]: "subscribed ty (xs @ ys) = subscribed ty xs @ subscribed ty ys"
  by (induction ty xs rule: subscribed.induct) simp_all

text \<open>A client's calls one after the other: what \<open>Publish\<close> answered each time, and the subscribers' state.\<close>

fun bus_run ::
    "('b \<Rightarrow> envelope \<Rightarrow> 's \<Rightarrow> goerr option \<times> 's) \<Rightarrow> (string \<Rightarrow> 's handler_fun \<Rightarrow> 'b \<Rightarrow> 'b) \<Rightarrow> 'b \<Rightarrow> 's bus_op list \<Rightarrow> 's \<Rightarrow> goerr option list \<times> 's" where
  "bus_run publish subscribe b [] st = ([], st)"
| "bus_run publish subscribe b (SubscribeOp ty h # ops) st = bus_run publish subscribe (subscribe ty h b) ops st"
| "bus_run publish subscribe b (PublishOp env # ops) st =
     (case publish b env st of (e, st') \<Rightarrow> (case bus_run publish subscribe b ops st' of (es, st'') \<Rightarrow> (e # es, st'')))"

text \<open>The interface with its laws; \<open>live\<close> is a bus that takes events.\<close>

locale event_bus =
  fixes publish :: "'b \<Rightarrow> envelope \<Rightarrow> 's \<Rightarrow> goerr option \<times> 's"
    and subscribe :: "string \<Rightarrow> 's handler_fun \<Rightarrow> 'b \<Rightarrow> 'b"
    and handlers :: "'b \<Rightarrow> string \<Rightarrow> 's handler_fun list"
    and live :: "'b \<Rightarrow> bool"
    and enc :: "envelope \<Rightarrow> bool"
  assumes publish_law: "live b \<Longrightarrow> enc env \<Longrightarrow> publish b env st = (None, foldl (\<lambda>s h. snd (h env s)) st (handlers b (env_type env)))"
    and subscribe_law: "handlers (subscribe ty h b) t = handlers b t @ (if t = ty then [h] else [])"
    and live_law: "live (subscribe ty h b) = live b"
begin

lemma run_from:
  assumes "live b" and "\<forall>t. handlers b t = subscribed t before" and "\<forall>env. PublishOp env \<in> set ops \<longrightarrow> enc env"
  shows "snd (bus_run publish subscribe b ops st) = delivered before ops st \<and> set (fst (bus_run publish subscribe b ops st)) \<subseteq> {None}"
  using assms
proof (induction before ops st arbitrary: b rule: delivered.induct)
  case (2 before t h ops st)
  from 2(2-) show ?case by (simp add: 2(1) subscribe_law live_law)
next
  case (3 before env ops st)
  from 3(2-) have "publish b env st = (None, foldl (\<lambda>s h. snd (h env s)) st (subscribed (env_type env) before))"
    by (simp add: publish_law)
  with 3(1) [OF 3(2,3)] 3(4) show ?case by (auto split: prod.splits)
qed simp

lemma run_delivers:
  assumes "live b" and "\<forall>t. handlers b t = []" and "\<forall>env. PublishOp env \<in> set ops \<longrightarrow> enc env"
  shows "snd (bus_run publish subscribe b ops st) = delivered [] ops st" and "\<forall>e\<in>set (fst (bus_run publish subscribe b ops st)). e = None"
  using run_from [OF assms(1) _ assms(3), where before = "[]"] assms(2) by auto

end

fun bus_handlers :: "'s publisher \<Rightarrow> string \<Rightarrow> 's handler_fun list" where
  "bus_handlers (InProcBus subs) = subs"
| "bus_handlers (NatsBus p) = np_subs p"

fun bus_live :: "'s publisher \<Rightarrow> bool" where
  "bus_live (InProcBus subs) = True"
| "bus_live (NatsBus p) = np_connected p"

interpretation bus: event_bus "bus_publish enc" bus_subscribe bus_handlers bus_live enc for enc
proof
  show "bus_live b \<Longrightarrow> enc env \<Longrightarrow> bus_publish enc b env st = (None, foldl (\<lambda>s h. snd (h env s)) st (bus_handlers b (env_type env)))" for b env st
    by (cases b) (simp_all add: Publish_def nats_Publish_def)
  show "bus_handlers (bus_subscribe ty h b) t = bus_handlers b t @ (if t = ty then [h] else [])" for ty h b t
    by (cases b) (simp_all add: Subscribe_def nats_Subscribe_def)
  show "bus_live (bus_subscribe ty h b) = bus_live b" for ty h b
    by (cases b) (simp_all add: nats_Subscribe_def)
qed

lemma opened_publisher: "bus_live (OpenPublisher url)" "bus_handlers (OpenPublisher url) t = []"
  by (auto simp: OpenPublisher_def NewInProc_def OpenNATS_def Let_def nats_defaults_def url_config_def)

section \<open>The property\<close>


section \<open>A run\<close>

definition demo_event :: "string \<Rightarrow> envelope" where
  "demo_event ty = \<lparr>env_id = 1, env_type = ty, env_version = 1, env_source = ''fines'', env_tenant = ''no'', env_occurred_at = 0,
     env_actor_id = None, env_actor_role = [], env_trace_id = [], env_request_id = [], env_data = FineCancelled 7 []\<rparr>"

definition demo_note :: "nat \<Rightarrow> (nat list) handler_fun" where
  "demo_note n = (\<lambda>env seen. (n = 2, seen @ [n]))"

definition demo_calls :: "(nat list) bus_op list" where
  "demo_calls = [PublishOp (demo_event TypeFinePaid), SubscribeOp TypeFineIssued (demo_note 1), SubscribeOp TypeFinePaid (demo_note 2),
     SubscribeOp TypeFinePaid (demo_note 3), PublishOp (demo_event TypeFinePaid), PublishOp (demo_event TypeFineIssued)]"


section \<open>What the buses do not do\<close>

text \<open>
  A handler's error goes no further than the log: the publisher, and with it the consumer that calls it,
  learns of no failure.
\<close>

lemma handler_failure_is_dropped:
  "bus_live b \<Longrightarrow> enc env \<Longrightarrow> fst (bus_publish enc b env st) = None"
  by (simp add: bus.publish_law)

text \<open>
  With an address configured the relay's publisher has no subscriber in its process and no connection
  out of it: it takes every event, hands it to nobody, and the relay marks it delivered.
\<close>

lemma nats_events_go_nowhere:
  assumes "url \<noteq> []" and "enc env"
  shows "bus_publish enc (OpenPublisher url) env st = (None, st)"
  using bus.publish_law [of "OpenPublisher url" enc env st] assms by (simp add: opened_publisher)

text \<open>Only the NATS publisher stops at \<open>Close\<close>.\<close>

lemma closing_differs:
  assumes "url \<noteq> []"
  shows "fst (bus_publish enc (bus_close (OpenPublisher url)) env st) = Some PlainError"
    and "fst (bus_publish enc (bus_close (OpenPublisher [])) env st) = None"
  using assms by (simp_all add: OpenPublisher_def NewInProc_def OpenNATS_def Let_def nats_defaults_def url_config_def
      nats_Publish_def nats_Close_def Publish_def)

end
