(* ===== verification/Pool.thy ===== *)
theory Pool
  imports Auth
begin

text \<open>
  The connections behind \<open>packages/go-common/db/db.go\<close>: who holds which one, and what its session
  variables are. The other theories take the session of a request to be that of its claims, and the
  session of a job to have no tenant; here this is what the pool gives them, or does not.

  The pool is \<open>pgxpool\<close>'s as documented: \<open>Acquire\<close> hands out an idle connection or a new one,
  \<open>Release\<close> takes it back unless it is closed. Which one it picks, whether it refuses, and what becomes
  of a statement are arguments. A statement whose context is done already is not sent, and the
  connection stays open; one that fails on the way closes it.
\<close>

section \<open>Connections\<close>

text \<open>The user is \<open>None\<close> for the empty text, and for a subject that is no UUID.\<close>

record settings =
  app_tenant_id :: string
  app_user_id :: "uuid option"
  app_role :: string

definition no_settings :: settings where
  "no_settings = \<lparr>app_tenant_id = [], app_user_id = None, app_role = []\<rparr>"

definition settings_of :: "claims \<Rightarrow> settings" where
  "settings_of c = \<lparr>app_tenant_id = c_tenant c, app_user_id = c_subject c, app_role = c_role c\<rparr>"

record pg_conn =
  pc_id :: nat
  pc_settings :: settings
  pc_open :: bool

datatype exec_fate = Done | NotSent | Broke

definition conn_exec :: "(settings \<Rightarrow> settings) \<Rightarrow> exec_fate \<Rightarrow> pg_conn \<Rightarrow> bool \<times> pg_conn" where
  "conn_exec f x k =
     (if \<not> pc_open k then (False, k)
      else case x of
             Done \<Rightarrow> (True, k\<lparr>pc_settings := f (pc_settings k)\<rparr>)
           | NotSent \<Rightarrow> (False, k)
           | Broke \<Rightarrow> (False, k\<lparr>pc_open := False\<rparr>))"

record conn_pool =
  cp_idle :: "pg_conn list"
  cp_next :: nat

datatype pick = Reuse nat | Dial | Refuse

definition pool_Acquire :: "pick \<Rightarrow> conn_pool \<Rightarrow> (pg_conn \<times> conn_pool) option" where
  "pool_Acquire a p =
     (case a of
        Reuse i \<Rightarrow> if i < length (cp_idle p) then Some (cp_idle p ! i, p\<lparr>cp_idle := take i (cp_idle p) @ drop (Suc i) (cp_idle p)\<rparr>) else None
      | Dial \<Rightarrow> Some (\<lparr>pc_id = cp_next p, pc_settings = no_settings, pc_open = True\<rparr>, p\<lparr>cp_next := Suc (cp_next p)\<rparr>)
      | Refuse \<Rightarrow> None)"

definition pool_Release :: "pg_conn \<Rightarrow> conn_pool \<Rightarrow> conn_pool" where
  "pool_Release k p = (if pc_open k then p\<lparr>cp_idle := k # cp_idle p\<rparr> else p)"

section \<open>db.go\<close>

definition lease_tenant :: "claims option \<Rightarrow> pick \<Rightarrow> exec_fate \<Rightarrow> conn_pool \<Rightarrow> pg_conn option \<times> conn_pool" where
  "lease_tenant cl a x p =
     (case cl of
        None \<Rightarrow> (None, p)
      | Some c \<Rightarrow>
          (case pool_Acquire a p of
             None \<Rightarrow> (None, p)
           | Some (k, p') \<Rightarrow>
               (case conn_exec (\<lambda>_. settings_of c) x k of
                  (ok, k') \<Rightarrow> if ok then (Some k', p') else (None, pool_Release k' p'))))"

definition Conn_Release :: "exec_fate \<Rightarrow> pg_conn option \<Rightarrow> conn_pool \<Rightarrow> conn_pool" where
  "Conn_Release x c p =
     (case c of None \<Rightarrow> p | Some k \<Rightarrow> pool_Release (snd (conn_exec (\<lambda>_. no_settings) x k)) p)"

text \<open>Outside of a transaction \<open>SET LOCAL\<close> changes nothing.\<close>

definition AsAdmin :: "pick \<Rightarrow> exec_fate \<Rightarrow> conn_pool \<Rightarrow> pg_conn option \<times> conn_pool" where
  "AsAdmin a x p =
     (case pool_Acquire a p of
        None \<Rightarrow> (None, p)
      | Some (k, p') \<Rightarrow>
          (case conn_exec (\<lambda>s. s) x k of (ok, k') \<Rightarrow> if ok then (Some k', p') else (None, pool_Release k' p')))"

section \<open>The process\<close>

text \<open>Who works on a connection: a request with its claims, or a job (\<open>None\<close>).\<close>

type_synonym leases = "nat \<Rightarrow> (claims option \<times> pg_conn) option"

text \<open>
  Requests and jobs come and go, in any order. \<open>late\<close>: the reset of \<open>Release\<close> may find its context
  done already, as it does when the client hung up.
\<close>

inductive pool_step :: "bool \<Rightarrow> conn_pool \<times> leases \<Rightarrow> conn_pool \<times> leases \<Rightarrow> bool" for late where
  leased: "L r = None \<Longrightarrow> lease_tenant (Some c) a x p = (Some k, p') \<Longrightarrow> pool_step late (p, L) (p', L(r \<mapsto> (Some c, k)))"
| not_leased: "lease_tenant cl a x p = (None, p') \<Longrightarrow> pool_step late (p, L) (p', L)"
| acquired: "L r = None \<Longrightarrow> pool_Acquire a p = Some (k, p') \<Longrightarrow> pool_step late (p, L) (p', L(r \<mapsto> (None, k)))"
| admin: "L r = None \<Longrightarrow> AsAdmin a x p = (Some k, p') \<Longrightarrow> pool_step late (p, L) (p', L(r \<mapsto> (None, k)))"
| no_admin: "AsAdmin a x p = (None, p') \<Longrightarrow> pool_step late (p, L) (p', L)"
| worked: "L r = Some (who, k) \<Longrightarrow> conn_exec (\<lambda>s. s) x k = (ok, k') \<Longrightarrow> pool_step late (p, L) (p, L(r \<mapsto> (who, k')))"
| released: "L r = Some (Some c, k) \<Longrightarrow> late \<or> x \<noteq> NotSent \<Longrightarrow> pool_step late (p, L) (Conn_Release x (Some k) p, L(r := None))"
| given_back: "L r = Some (None, k) \<Longrightarrow> pool_step late (p, L) (pool_Release k p, L(r := None))"

definition pool_start :: "conn_pool \<times> leases" where
  "pool_start = (\<lparr>cp_idle = [], cp_next = 0\<rparr>, Map.empty)"

section \<open>The invariant\<close>

definition idle_ok :: "bool \<Rightarrow> conn_pool \<Rightarrow> bool" where
  "idle_ok late p \<longleftrightarrow> distinct (map pc_id (cp_idle p))
     \<and> (\<forall>k\<in>set (cp_idle p). pc_id k < cp_next p \<and> pc_open k \<and> (late \<or> pc_settings k = no_settings))"

definition free_of :: "pg_conn \<Rightarrow> conn_pool \<Rightarrow> bool" where
  "free_of k p \<longleftrightarrow> pc_id k < cp_next p \<and> (\<forall>k'\<in>set (cp_idle p). pc_id k' \<noteq> pc_id k)"

definition settings_ok :: "bool \<Rightarrow> claims option \<Rightarrow> pg_conn \<Rightarrow> bool" where
  "settings_ok late who k \<longleftrightarrow> (case who of Some c \<Rightarrow> pc_settings k = settings_of c | None \<Rightarrow> late \<or> pc_settings k = no_settings)"

definition pool_ok :: "bool \<Rightarrow> conn_pool \<times> leases \<Rightarrow> bool" where
  "pool_ok late s \<longleftrightarrow> idle_ok late (fst s)
     \<and> (\<forall>r who k. snd s r = Some (who, k) \<longrightarrow> free_of k (fst s) \<and> settings_ok late who k)
     \<and> (\<forall>r who k r' who' k'. snd s r = Some (who, k) \<longrightarrow> snd s r' = Some (who', k') \<longrightarrow> r \<noteq> r' \<longrightarrow> pc_id k \<noteq> pc_id k')"

lemma conn_exec_same: "conn_exec f x k = (ok, k') \<Longrightarrow> pc_id k' = pc_id k"
  by (auto simp: conn_exec_def split: if_splits exec_fate.splits)

lemma conn_exec_id: "conn_exec (\<lambda>s. s) x k = (ok, k') \<Longrightarrow> pc_settings k' = pc_settings k"
  by (auto simp: conn_exec_def split: if_splits exec_fate.splits)

lemma conn_exec_ok: "conn_exec f x k = (True, k') \<Longrightarrow> pc_settings k' = f (pc_settings k)"
  by (auto simp: conn_exec_def split: if_splits exec_fate.splits)

lemma conn_exec_failed: "conn_exec f x k = (False, k') \<Longrightarrow> pc_settings k' = pc_settings k"
  by (auto simp: conn_exec_def split: if_splits exec_fate.splits)

lemma conn_exec_open: "conn_exec f x k = (ok, k') \<Longrightarrow> pc_open k' \<Longrightarrow> pc_settings k' = f (pc_settings k) \<or> x = NotSent"
  by (auto simp: conn_exec_def split: if_splits exec_fate.splits)

text \<open>What is handed out is idle no more, and whoever else holds a connection holds another one.\<close>

lemma Acquire_ok:
  assumes "pool_Acquire a p = Some (k, p')" and "idle_ok late p"
  shows "idle_ok late p' \<and> free_of k p' \<and> (late \<or> pc_settings k = no_settings)
    \<and> (\<forall>k'. free_of k' p \<longrightarrow> free_of k' p' \<and> pc_id k' \<noteq> pc_id k)"
proof (cases a)
  case (Reuse i)
  with assms(1) have i: "i < length (cp_idle p)" and k: "k = cp_idle p ! i"
    and p': "p' = p\<lparr>cp_idle := take i (cp_idle p) @ drop (Suc i) (cp_idle p)\<rparr>"
    by (auto simp: pool_Acquire_def split: if_splits)
  from i have idle: "cp_idle p = take i (cp_idle p) @ k # drop (Suc i) (cp_idle p)" by (simp add: k id_take_nth_drop)
  obtain xs ys where xs: "cp_idle p = xs @ k # ys" and ys: "cp_idle p' = xs @ ys" "cp_next p' = cp_next p"
    using that [of "take i (cp_idle p)" "drop (Suc i) (cp_idle p)"] idle by (simp add: p')
  with assms(2) show ?thesis by (auto simp: idle_ok_def free_of_def xs ys) (metis image_eqI)+
next
  case Dial
  with assms have p': "cp_idle p' = cp_idle p" "cp_next p' = Suc (cp_next p)" "pc_id k = cp_next p" "pc_settings k = no_settings" "pc_open k"
    by (auto simp: pool_Acquire_def)
  from assms(2) have "pc_id j < cp_next p" if "j \<in> set (cp_idle p)" for j using that by (simp add: idle_ok_def)
  then have "pc_id j < Suc (cp_next p)" "pc_id j \<noteq> cp_next p" if "j \<in> set (cp_idle p)" for j using that by (fastforce intro: less_SucI)+
  with assms(2) show ?thesis by (auto simp: idle_ok_def free_of_def p')
next
  case Refuse
  with assms(1) show ?thesis by (simp add: pool_Acquire_def)
qed

lemma Release_ok:
  assumes "idle_ok late p" and "free_of k p" and "pc_open k \<Longrightarrow> late \<or> pc_settings k = no_settings"
  shows "idle_ok late (pool_Release k p)"
    and "free_of k' p \<Longrightarrow> pc_id k' \<noteq> pc_id k \<Longrightarrow> free_of k' (pool_Release k p)"
  using assms by (auto simp: pool_Release_def idle_ok_def free_of_def)


lemma pool_start_ok: "pool_ok late pool_start"
  by (simp add: pool_ok_def pool_start_def idle_ok_def)

lemma pool_ok_add:
  assumes "pool_ok late (p, L)" and "idle_ok late p'" and "\<And>k'. free_of k' p \<Longrightarrow> free_of k' p' \<and> pc_id k' \<noteq> pc_id k"
    and "free_of k p'" and "settings_ok late who k"
  shows "pool_ok late (p', L(r \<mapsto> (who, k)))"
  using assms unfolding pool_ok_def by (auto split: if_splits) (metis)+

lemma pool_ok_drop:
  assumes "pool_ok late (p, L)" and "L r = Some (who, k)" and "idle_ok late p'"
    and "\<And>k'. free_of k' p \<Longrightarrow> pc_id k' \<noteq> pc_id k \<Longrightarrow> free_of k' p'"
  shows "pool_ok late (p', L(r := None))"
  using assms unfolding pool_ok_def by (auto split: if_splits)

lemma pool_ok_idle:
  assumes "pool_ok late (p, L)" and "idle_ok late p'" and "\<And>k'. free_of k' p \<Longrightarrow> free_of k' p'"
  shows "pool_ok late (p', L)"
  using assms unfolding pool_ok_def by auto

text \<open>A lease that fails puts the connection back as it was.\<close>

lemma failed_lease_ok:
  assumes "pool_Acquire a p = Some (k, p')" and "conn_exec f x k = (False, k')" and "idle_ok late p"
  shows "idle_ok late (pool_Release k' p') \<and> (\<forall>j. free_of j p \<longrightarrow> free_of j (pool_Release k' p'))"
proof -
  from Acquire_ok [OF assms(1,3)] have a: "idle_ok late p'" "free_of k p'" "late \<or> pc_settings k = no_settings"
    "\<And>j. free_of j p \<Longrightarrow> free_of j p' \<and> pc_id j \<noteq> pc_id k" by auto
  from assms(2) have k': "pc_id k' = pc_id k" "pc_settings k' = pc_settings k" by (auto dest: conn_exec_same conn_exec_failed)
  from a(2) have f: "free_of k' p'" by (simp add: free_of_def k')
  from Release_ok [OF a(1) f] a k' show ?thesis by auto
qed

lemma pool_step_ok:
  assumes "pool_step late s s'" and "pool_ok late s"
  shows "pool_ok late s'"
  using assms
proof (induction rule: pool_step.induct)
  case (leased L r c a x p k p')
  then obtain k0 where acq: "pool_Acquire a p = Some (k0, p')" and ex: "conn_exec (\<lambda>_. settings_of c) x k0 = (True, k)"
    by (auto simp: lease_tenant_def split: option.splits prod.splits if_splits)
  from leased.prems have "idle_ok late p" by (simp add: pool_ok_def)
  from Acquire_ok [OF acq this] conn_exec_same [OF ex] conn_exec_ok [OF ex] leased.prems show ?case
    by (intro pool_ok_add) (auto simp: settings_ok_def free_of_def)
next
  case (not_leased cl a x p p' L)
  from not_leased.prems have ok: "idle_ok late p" by (simp add: pool_ok_def)
  from not_leased.hyps consider "p' = p" | c k k' q where "pool_Acquire a p = Some (k, q)" "conn_exec (\<lambda>_. settings_of c) x k = (False, k')" "p' = pool_Release k' q"
    by (auto simp: lease_tenant_def split: option.splits prod.splits if_splits)
  then show ?case using not_leased.prems failed_lease_ok [OF _ _ ok] by cases (auto intro: pool_ok_idle)
next
  case (acquired L r a p k p')
  from acquired.prems have "idle_ok late p" by (simp add: pool_ok_def)
  from Acquire_ok [OF acquired.hyps(2) this] acquired.prems show ?case by (intro pool_ok_add) (auto simp: settings_ok_def)
next
  case (admin L r a x p k p')
  then obtain k0 where acq: "pool_Acquire a p = Some (k0, p')" and ex: "conn_exec (\<lambda>s. s) x k0 = (True, k)"
    by (auto simp: AsAdmin_def split: option.splits prod.splits if_splits)
  from admin.prems have "idle_ok late p" by (simp add: pool_ok_def)
  from Acquire_ok [OF acq this] conn_exec_same [OF ex] conn_exec_ok [OF ex] admin.prems show ?case
    by (intro pool_ok_add) (auto simp: settings_ok_def free_of_def)
next
  case (no_admin a x p p' L)
  from no_admin.prems have ok: "idle_ok late p" by (simp add: pool_ok_def)
  from no_admin.hyps consider "p' = p" | k k' q where "pool_Acquire a p = Some (k, q)" "conn_exec (\<lambda>s. s) x k = (False, k')" "p' = pool_Release k' q"
    by (auto simp: AsAdmin_def split: option.splits prod.splits if_splits)
  then show ?case using no_admin.prems failed_lease_ok [OF _ _ ok] by cases (auto intro: pool_ok_idle)
next
  case (worked L r who k x ok k' p)
  from conn_exec_same [OF worked.hyps(2)] conn_exec_id [OF worked.hyps(2)] worked show ?case
    unfolding pool_ok_def by (auto simp: free_of_def settings_ok_def split: if_splits) metis+
next
  case (released L r c k x p)
  obtain ok k' where ex: "conn_exec (\<lambda>_. no_settings) x k = (ok, k')" by (cases "conn_exec (\<lambda>_. no_settings) x k")
  from released have "idle_ok late p" "free_of k p" by (auto simp: pool_ok_def)
  with conn_exec_same [OF ex] have "idle_ok late p" "free_of k' p" "pc_id k' = pc_id k" by (auto simp: free_of_def)
  moreover from conn_exec_open [OF ex] released.hyps(2) have "pc_open k' \<Longrightarrow> late \<or> pc_settings k' = no_settings" by auto
  ultimately show ?case using released Release_ok [of late p k']
    by (intro pool_ok_drop [of late p L r]) (auto simp: Conn_Release_def ex)
next
  case (given_back L r k p)
  then have "idle_ok late p" "free_of k p" "settings_ok late None k" by (auto simp: pool_ok_def)
  with given_back Release_ok [of late p k] show ?case
    by (intro pool_ok_drop [of late p L r]) (auto simp: settings_ok_def)
qed

lemma pool_reachable_ok: "(pool_step late)\<^sup>*\<^sup>* pool_start s \<Longrightarrow> pool_ok late s"
  by (induction rule: rtranclp_induct) (auto intro: pool_start_ok pool_step_ok)


section \<open>The property\<close>

definition conn_session :: "dbrole \<Rightarrow> pg_conn \<Rightarrow> session" where
  "conn_session role k = session_of role (app_tenant_id (pc_settings k))"

text \<open>C14
  A request works in the session of its own claims. After any interleaving of requests and jobs that
  lease, use and release connections, with the pool picking as it likes and statements failing anywhere:
  the connection a request holds carries the tenant, user and role of its own claims, so its session is
  the one the other theories give its statements; nobody else holds that connection and it is not idle.
  A job's connection has no tenant, unless a reset was not sent because the request's context was done.
\<close>

theorem requests_keep_their_session:
  assumes "(pool_step late)\<^sup>*\<^sup>* pool_start (p, L)" and "L r = Some (who, k)"
  shows "(who = Some c \<longrightarrow> conn_session role k = session_of role (c_tenant c)
            \<and> app_user_id (pc_settings k) = c_subject c \<and> app_role (pc_settings k) = c_role c)
    \<and> (who = None \<and> \<not> late \<longrightarrow> conn_session role k = session_of role [])
    \<and> (r' \<noteq> r \<and> L r' = Some (who', k') \<longrightarrow> pc_id k' \<noteq> pc_id k)
    \<and> pc_id k \<notin> pc_id ` set (cp_idle p)"
  using pool_reachable_ok [OF assms(1)] assms(2)
  by (fastforce simp: pool_ok_def settings_ok_def free_of_def conn_session_def settings_of_def no_settings_def)

definition demo_claims :: "string \<Rightarrow> claims" where
  "demo_claims ten = \<lparr>c_tenant = ten, c_role = ''officer'', c_permissions = [], c_device = [], c_subject = Some 7,
     c_issued_at = 0, c_expires_at = 9, c_jti = None\<rparr>"

text \<open>A request of \<open>no\<close> that is answered, and then a job on the same connection.\<close>

definition demo_leased :: pg_conn where
  "demo_leased = \<lparr>pc_id = 0, pc_settings = settings_of (demo_claims ''no''), pc_open = True\<rparr>"

lemma demo_lease: "lease_tenant (Some (demo_claims ''no'')) Dial Done (fst pool_start) = (Some demo_leased, \<lparr>cp_idle = [], cp_next = 1\<rparr>)"
  by (simp add: lease_tenant_def pool_Acquire_def conn_exec_def pool_start_def demo_leased_def)

theorem requests_keep_their_session_witness:
  "conn_session SubjectToRls demo_leased = TenantSession ''no'' \<and> pc_id demo_leased \<notin> pc_id ` {}"
proof -
  have "pool_step True pool_start (\<lparr>cp_idle = [], cp_next = 1\<rparr>, Map.empty(3 \<mapsto> (Some (demo_claims ''no''), demo_leased)))"
    using pool_step.leased [OF _ demo_lease, of Map.empty 3 True] by (simp add: pool_start_def)
  from requests_keep_their_session [OF r_into_rtranclp [where r = "pool_step True", OF this], of 3 "Some (demo_claims ''no'')" demo_leased "demo_claims ''no''" SubjectToRls]
  show ?thesis by (simp add: demo_claims_def)
qed

section \<open>What the code does not do\<close>

text \<open>
  \<open>Release\<close> resets with the context of the request. When the client hung up, that context is done: the
  reset is not sent, the connection stays open and the tenant stays on it. The job that acquires it next
  then runs as a session of that tenant.
\<close>

lemma hung_up_request_leaves_its_tenant:
  "pool_Acquire (Reuse 0) (Conn_Release NotSent (Some demo_leased) \<lparr>cp_idle = [], cp_next = 1\<rparr>) = Some (demo_leased, \<lparr>cp_idle = [], cp_next = 1\<rparr>)"
  "conn_session SubjectToRls demo_leased = TenantSession ''no''"
  by (simp_all add: pool_Acquire_def Conn_Release_def conn_exec_def pool_Release_def demo_leased_def conn_session_def settings_of_def demo_claims_def)

text \<open>\<open>AsAdmin\<close> answers a connection as plain \<open>Acquire\<close> does.\<close>

lemma AsAdmin_is_Acquire:
  assumes "pool_Acquire a p = Some (k, p')" and "pc_open k"
  shows "AsAdmin a Done p = (Some k, p')"
  using assms by (simp add: AsAdmin_def conn_exec_def)

end
