(* ===== verification/Registry.thy ===== *)
theory Registry
  imports Schema "HOL-Library.List_Lexorder"
begin

text \<open>
  The vehicle registry (\<open>services/registry/internal/api/api.go\<close>): its configuration and
  answers, the status of a vehicle, the plate format of a tenant with the cache in front of it,
  and the handlers on vehicles.

  Two things are parameters: \<open>rx\<close> is \<open>regexp.Compile\<close> with \<open>MatchString\<close> (\<open>None\<close>: the
  pattern does not compile), and \<open>strxfrm\<close> the sort key the database's collation gives a text.
\<close>

section \<open>Configuration and answers\<close>

record registry_api =
  ra_pool :: dbrole
  ra_audit :: string
  ra_rx :: "string \<Rightarrow> (string \<Rightarrow> bool) option"
  ra_strxfrm :: "string \<Rightarrow> nat list"

record vehicle =
  vo_id :: uuid
  vo_plate :: string
  vo_vin :: "string option"
  vo_make :: "string option"
  vo_model :: "string option"
  vo_year :: "int option"
  vo_color :: "string option"
  vo_category :: "string option"
  vo_emission_class :: "string option"
  vo_owner_id :: "uuid option"
  vo_registration_expires_at :: "time option"
  vo_insurance_expires_at :: "time option"
  vo_inspection_expires_at :: "time option"
  vo_tax_paid_through :: "time option"
  vo_is_stolen :: bool
  vo_is_seized :: bool
  vo_is_wanted :: bool
  vo_status :: string

record owner =
  oo_id :: uuid
  oo_user_id :: "uuid option"
  oo_full_name :: string
  oo_national_id :: "string option"
  oo_email :: "string option"
  oo_phone :: "string option"
  oo_created_at :: time

record transfer_item =
  ti_id :: uuid
  ti_vehicle_id :: uuid
  ti_plate :: string
  ti_code :: string
  ti_to_contact :: string
  ti_status :: transfer_status
  ti_created_at :: time
  ti_expires_at :: time
  ti_accepted_at :: "time option"

datatype registry_body =
    OneVehicle vehicle
  | VehicleItems "vehicle list"
  | CreatedId uuid
  | OneOwner owner
  | OwnerItems "owner list"
  | TransferStarted uuid string time
  | TransferAccepted uuid
  | TransferItems "transfer_item list"

type_synonym registry_handler = "(registry_body, registry_body response) handler"

section \<open>Status of a vehicle\<close>

text \<open>The view \<open>v_vehicle_status\<close>; a comparison with NULL does not hold.\<close>

definition before :: "time option \<Rightarrow> time \<Rightarrow> bool" where
  "before t now = (case t of None \<Rightarrow> False | Some x \<Rightarrow> x < now)"

definition vehicle_status :: "time \<Rightarrow> vehicle_row \<Rightarrow> string" where
  "vehicle_status now v =
     (if v_is_stolen v \<or> v_is_seized v \<or> v_is_wanted v then ''black''
      else if v_insurance_expires_at v = None \<or> before (v_insurance_expires_at v) now then ''red''
      else if v_inspection_expires_at v = None \<or> before (v_inspection_expires_at v) now then ''red''
      else if before (v_registration_expires_at v) now then ''red''
      else if before (v_insurance_expires_at v) (now + days 30) \<or> before (v_inspection_expires_at v) (now + days 30)
           \<or> before (v_tax_paid_through v) (now + days 30) then ''yellow''
      else ''green'')"

definition scanVehicle :: "time \<Rightarrow> vehicle_row \<Rightarrow> vehicle" where
  "scanVehicle now v =
     \<lparr>vo_id = v_id v, vo_plate = v_plate v, vo_vin = v_vin v, vo_make = v_make v, vo_model = v_model v,
      vo_year = v_year v, vo_color = v_color v, vo_category = v_category v,
      vo_emission_class = v_emission_class v, vo_owner_id = v_owner_id v,
      vo_registration_expires_at = v_registration_expires_at v,
      vo_insurance_expires_at = v_insurance_expires_at v,
      vo_inspection_expires_at = v_inspection_expires_at v, vo_tax_paid_through = v_tax_paid_through v,
      vo_is_stolen = v_is_stolen v, vo_is_seized = v_is_seized v, vo_is_wanted = v_is_wanted v,
      vo_status = vehicle_status now v\<rparr>"

definition vehicle_seen :: "session \<Rightarrow> uuid \<Rightarrow> db \<Rightarrow> vehicle_row option" where
  "vehicle_seen s vid d = row_seen v_tenant s (\<lambda>v. v_id v = vid) (vehicles d)"

definition update_vehicle :: "session \<Rightarrow> uuid \<Rightarrow> (vehicle_row \<Rightarrow> vehicle_row) \<Rightarrow> db \<Rightarrow> db" where
  "update_vehicle s vid f d = d\<lparr>vehicles := update_rows v_tenant s (\<lambda>v. v_id v = vid) f (vehicles d)\<rparr>"

section \<open>\<open>GET /v1/vehicles\<close>\<close>

text \<open>\<open>LIKE\<close>: a percent sign stands for any text, an underscore for one character, a backslash quotes.\<close>

fun like :: "string \<Rightarrow> string \<Rightarrow> bool" where
  "like [] t = (t = [])"
| "like (p # ps) [] = (p = CHR ''%'' \<and> like ps [])"
| "like (p # ps) (c # cs) =
     (if p = CHR ''%'' then like ps (c # cs) \<or> like (p # ps) cs
      else if p = CHR ''_'' then like ps cs
      else if p = CHR 0x5C then (case ps of [] \<Rightarrow> False | q # qs \<Rightarrow> q = c \<and> like qs cs)
      else p = c \<and> like ps cs)"

definition ilike :: "string option \<Rightarrow> string \<Rightarrow> bool" where
  "ilike t pat = (case t of None \<Rightarrow> False | Some x \<Rightarrow> like (ToLower pat) (ToLower x))"

definition vehicle_conds :: "string \<Rightarrow> string \<Rightarrow> (vehicle_row \<Rightarrow> bool) list" where
  "vehicle_conds q flagged =
     (if q \<noteq> [] then [\<lambda>v. ilike (Some (v_plate v)) (''%'' @ q @ ''%'') \<or> ilike (v_vin v) (''%'' @ q @ ''%'')] else [])
     @ (if flagged = ''1'' then [\<lambda>v. v_is_stolen v \<or> v_is_seized v \<or> v_is_wanted v] else [])"

definition vehicles_listed :: "registry_api \<Rightarrow> session \<Rightarrow> time \<Rightarrow> string \<Rightarrow> string \<Rightarrow> db \<Rightarrow> vehicle list" where
  "vehicles_listed a s now q flagged d =
     map (scanVehicle now) (take 50 (sort_key (ra_strxfrm a \<circ> v_plate)
       (filter (\<lambda>v. list_all (\<lambda>p. p v) (vehicle_conds q flagged)) (rows_seen v_tenant s (vehicles d)))))"

definition list_vehicles :: "registry_api \<Rightarrow> surroundings \<Rightarrow> claims \<Rightarrow> string \<Rightarrow> string \<Rightarrow> registry_handler" where
  "list_vehicles a sur c q flagged =
     andthen (WithTenant (Some c)) (
     bind (exec (query (vehicles_listed a (session_of (ra_pool a) (c_tenant c)) (db_now sur) q flagged))) (\<lambda>items.
     ret (Json 200 (VehicleItems items))))"

section \<open>Plate format\<close>

text \<open>
  \<open>plateRegexCache\<close> holds what was stored for a tenant last; the pattern stands for the
  compiled regex. Nothing ever removes an entry.
\<close>

fun cached_regex :: "string \<Rightarrow> effect list \<Rightarrow> string option" where
  "cached_regex tenant [] = None"
| "cached_regex tenant (e # es) =
     (case cached_regex tenant es of
        Some pat \<Rightarrow> Some pat
      | None \<Rightarrow> (case e of PlateRegexCached t pat \<Rightarrow> if t = tenant then Some pat else None | _ \<Rightarrow> None))"

definition default_plate_regex :: string where
  "default_plate_regex = ''^[A-Z0-9-]{2,10}$''"

definition plateRegexFor :: "registry_api \<Rightarrow> string \<Rightarrow> (registry_body, string \<Rightarrow> bool) handler" where
  "plateRegexFor a tenant =
     bind (recall (cached_regex tenant)) (\<lambda>cached.
     case cached of
       Some pat \<Rightarrow> (case ra_rx a pat of None \<Rightarrow> stop Internal | Some re \<Rightarrow> ret re)
     | None \<Rightarrow>
         bind (exec (query_row (\<lambda>d. map_of (tenants d) tenant))) (\<lambda>col.
         let pat = (if col = [] then default_plate_regex else col) in
         case ra_rx a pat of
           None \<Rightarrow> stop Internal
         | Some re \<Rightarrow> andthen (emit (PlateRegexCached tenant pat)) (ret re)))"

definition validatePlate :: "registry_api \<Rightarrow> string \<Rightarrow> string \<Rightarrow> (registry_body, unit) handler" where
  "validatePlate a tenant plate =
     bind (plateRegexFor a tenant) (\<lambda>re. guard (re plate) (Err 400 ''bad_plate''))"

section \<open>\<open>POST /v1/vehicles\<close>\<close>

record vehicle_req =
  vq_plate :: string
  vq_vin :: "string option"
  vq_make :: "string option"
  vq_model :: "string option"
  vq_year :: "int option"
  vq_color :: "string option"
  vq_category :: "string option"
  vq_emission_class :: "string option"
  vq_owner_id :: "uuid option"
  vq_registration_expires_at :: "time option"
  vq_insurance_expires_at :: "time option"
  vq_inspection_expires_at :: "time option"
  vq_tax_paid_through :: "time option"

definition vehicle_row_of :: "surroundings \<Rightarrow> uuid \<Rightarrow> string \<Rightarrow> vehicle_req \<Rightarrow> vehicle_row" where
  "vehicle_row_of sur vid ten q =
     \<lparr>v_id = vid, v_tenant = ten, v_plate = vq_plate q, v_vin = vq_vin q, v_make = vq_make q,
      v_model = vq_model q, v_year = vq_year q, v_color = vq_color q, v_category = vq_category q,
      v_emission_class = vq_emission_class q, v_owner_id = vq_owner_id q,
      v_registration_expires_at = vq_registration_expires_at q,
      v_insurance_expires_at = vq_insurance_expires_at q,
      v_inspection_expires_at = vq_inspection_expires_at q, v_tax_paid_through = vq_tax_paid_through q,
      v_is_stolen = False, v_is_seized = False, v_is_wanted = False, v_updated_at = db_now sur\<rparr>"

definition owner_exists :: "uuid option \<Rightarrow> db \<Rightarrow> bool" where
  "owner_exists oid d = (case oid of None \<Rightarrow> True | Some i \<Rightarrow> list_ex (\<lambda>own. o_id own = i) (owners d))"

definition insert_vehicle :: "session \<Rightarrow> vehicle_row \<Rightarrow> db \<Rightarrow> sqlerr + uuid \<times> db" where
  "insert_vehicle s v d =
     (if \<not> owner_exists (v_owner_id v) d then Inl ForeignKeyViolation
      else case insert_row v_tenant s
                  (\<lambda>old new. v_id old = v_id new \<or> (v_tenant old = v_tenant new \<and> v_plate old = v_plate new))
                  v (vehicles d) of
             Inl e \<Rightarrow> Inl e
           | Inr rows \<Rightarrow> Inr (v_id v, d\<lparr>vehicles := rows\<rparr>))"

definition create_tx :: "session \<Rightarrow> surroundings \<Rightarrow> reqctx \<Rightarrow> claims \<Rightarrow> vehicle_req \<Rightarrow> (registry_body, uuid) handler" where
  "create_tx s sur ctx c q =
     bind (exec (insert_vehicle s (vehicle_row_of sur (new_uuid sur 0) (c_tenant c) q))) (\<lambda>vid.
     andthen (WriteOutbox Internal s sur
       (EnvelopeFromContext sur ctx (new_uuid sur 1) ''registry'' (c_tenant c) TypeVehicleCreated 1
         (VehicleCreated vid (vq_plate q) (vq_owner_id q)))) (
     ret vid))"

definition create :: "registry_api \<Rightarrow> surroundings \<Rightarrow> reqctx \<Rightarrow> claims \<Rightarrow> vehicle_req option \<Rightarrow> registry_handler" where
  "create a sur ctx c body =
     bind (read_json body) (\<lambda>q.
     andthen (guard (vq_plate q \<noteq> []) (Err 400 ''missing_plate'')) (
     andthen (WithTenant (Some c)) (
     andthen (validatePlate a (c_tenant c) (vq_plate q)) (
     bind (in_tx Internal (create_tx (session_of (ra_pool a) (c_tenant c)) sur ctx c q)) (\<lambda>vid.
     andthen (audit_Emit (ra_audit a) ''registry'' (Some c) ''vehicle.create'' ''vehicle'' vid) (
     ret (Json 201 (CreatedId vid))))))))"

section \<open>\<open>GET /v1/vehicles/{id}\<close> and \<open>GET /v1/vehicles/by-plate/{plate}\<close>\<close>

definition get_vehicle :: "registry_api \<Rightarrow> surroundings \<Rightarrow> claims \<Rightarrow> uuid option \<Rightarrow> registry_handler" where
  "get_vehicle a sur c ident =
     (case ident of
        None \<Rightarrow> stop (write_err ErrBadRequest)
      | Some vid \<Rightarrow>
          andthen (WithTenant (Some c)) (
          bind (exec_or (no_rows_or (write_err ErrNotFound) Internal)
                  (query_row (vehicle_seen (session_of (ra_pool a) (c_tenant c)) vid))) (\<lambda>v.
          ret (Json 200 (OneVehicle (scanVehicle (db_now sur) v))))))"

definition byPlate :: "registry_api \<Rightarrow> surroundings \<Rightarrow> claims \<Rightarrow> string \<Rightarrow> registry_handler" where
  "byPlate a sur c plate =
     andthen (WithTenant (Some c)) (
     bind (exec_or (no_rows_or (write_err ErrNotFound) Internal)
             (query_row (\<lambda>d. row_seen v_tenant (session_of (ra_pool a) (c_tenant c)) (\<lambda>v. v_plate v = plate) (vehicles d)))) (\<lambda>v.
     ret (Json 200 (OneVehicle (scanVehicle (db_now sur) v)))))"

section \<open>\<open>PATCH /v1/vehicles/{id}\<close>\<close>

record vehicle_patch =
  vp_make :: "string option"
  vp_model :: "string option"
  vp_color :: "string option"
  vp_owner_id :: "uuid option"
  vp_registration_expires_at :: "time option"
  vp_insurance_expires_at :: "time option"
  vp_inspection_expires_at :: "time option"
  vp_tax_paid_through :: "time option"

definition patch_vehicle :: "time \<Rightarrow> vehicle_patch \<Rightarrow> vehicle_row \<Rightarrow> vehicle_row" where
  "patch_vehicle now q v =
     v\<lparr>v_make := or_else (vp_make q) (v_make v), v_model := or_else (vp_model q) (v_model v),
       v_color := or_else (vp_color q) (v_color v), v_owner_id := or_else (vp_owner_id q) (v_owner_id v),
       v_registration_expires_at := or_else (vp_registration_expires_at q) (v_registration_expires_at v),
       v_insurance_expires_at := or_else (vp_insurance_expires_at q) (v_insurance_expires_at v),
       v_inspection_expires_at := or_else (vp_inspection_expires_at q) (v_inspection_expires_at v),
       v_tax_paid_through := or_else (vp_tax_paid_through q) (v_tax_paid_through v),
       v_updated_at := now\<rparr>"

text \<open>The foreign key of a new owner is checked when a row changes.\<close>

definition set_vehicle_owner_ok :: "session \<Rightarrow> uuid \<Rightarrow> uuid option \<Rightarrow> db \<Rightarrow> bool" where
  "set_vehicle_owner_ok s vid oid d \<longleftrightarrow> vehicle_seen s vid d = None \<or> owner_exists oid d"

definition update_vehicle_fk :: "session \<Rightarrow> uuid \<Rightarrow> uuid option \<Rightarrow> (vehicle_row \<Rightarrow> vehicle_row) \<Rightarrow> db \<Rightarrow> sqlerr + unit \<times> db" where
  "update_vehicle_fk s vid oid f d =
     (if set_vehicle_owner_ok s vid oid d then Inr ((), update_vehicle s vid f d) else Inl ForeignKeyViolation)"

definition update :: "registry_api \<Rightarrow> surroundings \<Rightarrow> claims \<Rightarrow> uuid option \<Rightarrow> vehicle_patch option \<Rightarrow> registry_handler" where
  "update a sur c ident body =
     (case ident of
        None \<Rightarrow> stop (write_err ErrBadRequest)
      | Some vid \<Rightarrow>
          bind (read_json body) (\<lambda>q.
          andthen (WithTenant (Some c)) (
          andthen (exec (update_vehicle_fk (session_of (ra_pool a) (c_tenant c)) vid (vp_owner_id q) (patch_vehicle (db_now sur) q))) (
          andthen (audit_Emit (ra_audit a) ''registry'' (Some c) ''vehicle.update'' ''vehicle'' vid) (
          ret (Status 204))))))"

section \<open>\<open>POST /v1/vehicles/{id}/flags\<close>\<close>

record flags_req =
  fq_is_stolen :: "bool option"
  fq_is_seized :: "bool option"
  fq_is_wanted :: "bool option"

definition flag_vehicle :: "time \<Rightarrow> flags_req \<Rightarrow> vehicle_row \<Rightarrow> vehicle_row" where
  "flag_vehicle now q v =
     v\<lparr>v_is_stolen := (case fq_is_stolen q of None \<Rightarrow> v_is_stolen v | Some b \<Rightarrow> b),
       v_is_seized := (case fq_is_seized q of None \<Rightarrow> v_is_seized v | Some b \<Rightarrow> b),
       v_is_wanted := (case fq_is_wanted q of None \<Rightarrow> v_is_wanted v | Some b \<Rightarrow> b),
       v_updated_at := now\<rparr>"

definition flags_tx :: "session \<Rightarrow> surroundings \<Rightarrow> reqctx \<Rightarrow> claims \<Rightarrow> uuid \<Rightarrow> flags_req \<Rightarrow> (registry_body, unit) handler" where
  "flags_tx s sur ctx c vid q =
     andthen (exec (change (update_vehicle s vid (flag_vehicle (db_now sur) q)))) (
     bind (exec (query_row (vehicle_seen s vid))) (\<lambda>v.
     WriteOutbox Internal s sur
       (EnvelopeFromContext sur ctx (new_uuid sur 0) ''registry'' (c_tenant c) TypeVehicleFlagged 1
         (VehicleFlagged \<lparr>vfp_vehicle_id = vid, vfp_plate = v_plate v, vfp_is_stolen = v_is_stolen v,
            vfp_is_seized = v_is_seized v, vfp_is_wanted = v_is_wanted v\<rparr>))))"

definition setFlags :: "registry_api \<Rightarrow> surroundings \<Rightarrow> reqctx \<Rightarrow> claims \<Rightarrow> uuid option \<Rightarrow> flags_req option \<Rightarrow> registry_handler" where
  "setFlags a sur ctx c ident body =
     (case ident of
        None \<Rightarrow> stop (write_err ErrBadRequest)
      | Some vid \<Rightarrow>
          bind (read_json body) (\<lambda>q.
          andthen (WithTenant (Some c)) (
          bind (in_tx Internal (flags_tx (session_of (ra_pool a) (c_tenant c)) sur ctx c vid q)) (\<lambda>_.
          andthen (audit_Emit (ra_audit a) ''registry'' (Some c) ''vehicle.flags'' ''vehicle'' vid) (
          ret (Status 204))))))"

section \<open>Runs\<close>

definition plate_pattern :: "string \<Rightarrow> effect list \<Rightarrow> db \<Rightarrow> string option" where
  "plate_pattern tenant log d =
     (case cached_regex tenant log of
        Some pat \<Rightarrow> Some pat
      | None \<Rightarrow> map_option (\<lambda>col. if col = [] then default_plate_regex else col) (map_of (tenants d) tenant))"

lemma plateRegexFor_run:
  assumes "plateRegexFor a tenant w = (Inr re, w')"
  shows "\<exists>pat. plate_pattern tenant (w_log w) (w_db w) = Some pat \<and> ra_rx a pat = Some re
    \<and> w_db w' = w_db w \<and> w_snap w' = w_snap w"
proof (cases "cached_regex tenant (w_log w)")
  case (Some pat)
  with assms show ?thesis
    by (auto simp: plateRegexFor_def recall_def bind_def plate_pattern_def ret_def stop_def split: option.splits)
next
  case None
  define rest where "rest = (\<lambda>col. let pat = (if col = [] then default_plate_regex else col) in
         case ra_rx a pat of
           None \<Rightarrow> (stop Internal :: (registry_body, string \<Rightarrow> bool) handler)
         | Some re \<Rightarrow> andthen (emit (PlateRegexCached tenant pat)) (ret re))"
  from assms None have "bind (exec (query_row (\<lambda>d. map_of (tenants d) tenant))) rest w = (Inr re, w')"
    by (simp add: plateRegexFor_def recall_def bind_def rest_def)
  then obtain col w1 where q: "(exec (query_row (\<lambda>d. map_of (tenants d) tenant)) :: (registry_body, string) handler) w = (Inr col, w1)"
    and tail: "rest col w1 = (Inr re, w')" by (elim bindE)
  let ?pat = "if col = [] then default_plate_regex else col"
  from tail have "ra_rx a ?pat = Some re" and "w_db w' = w_db w1" "w_snap w' = w_snap w1"
    by (auto simp: rest_def Let_def andthen_def bind_def emit_def ret_def stop_def split: option.splits)
  with exec_query_row_db [OF q] keepsD [OF tx_exec_or q] None show ?thesis
    by (auto simp: plate_pattern_def same_tx_def)
qed

lemma insert_vehicle_Inr:
  "insert_vehicle s v d = Inr (x, d') \<longleftrightarrow> x = v_id v \<and> owner_exists (v_owner_id v) d \<and> sees s (v_tenant v)
     \<and> (\<forall>old\<in>set (vehicles d). \<not> (v_id old = v_id v \<or> (v_tenant old = v_tenant v \<and> v_plate old = v_plate v)))
     \<and> d' = d\<lparr>vehicles := vehicles d @ [v]\<rparr>"
  by (auto simp: insert_vehicle_def insert_row_def list_ex_iff)

lemma tx_create_tx: "keeps same_tx (create_tx s sur ctx c q)"
  unfolding create_tx_def by (intro db_tx_steps)

lemma tx_flags_tx: "keeps same_tx (flags_tx s sur ctx c vid q)"
  unfolding flags_tx_def by (intro db_tx_steps)

lemma sw_create: "stops_with refusal (create a sur ctx c body)"
  unfolding create_def validatePlate_def plateRegexFor_def create_tx_def by (intro db_sw_steps) simp_all

lemma sw_setFlags: "stops_with refusal (setFlags a sur ctx c ident body)"
  unfolding setFlags_def flags_tx_def by (intro db_sw_steps) simp_all

definition created_event :: "surroundings \<Rightarrow> reqctx \<Rightarrow> claims \<Rightarrow> vehicle_req \<Rightarrow> uuid \<Rightarrow> envelope" where
  "created_event sur ctx c q vid = EnvelopeFromContext sur ctx (new_uuid sur 1) ''registry'' (c_tenant c) TypeVehicleCreated 1
     (VehicleCreated vid (vq_plate q) (vq_owner_id q))"

lemma create_tx_run:
  assumes "create_tx s sur ctx c q w = (Inr vid, w')"
  obtains n where "insert_vehicle s (vehicle_row_of sur (new_uuid sur 0) (c_tenant c) q) (w_db w)
       = Inr (vid, (w_db w)\<lparr>vehicles := vehicles (w_db w) @ [vehicle_row_of sur vid (c_tenant c) q]\<rparr>)"
    "w_db w' = (w_db w)\<lparr>vehicles := vehicles (w_db w) @ [vehicle_row_of sur vid (c_tenant c) q],
       outbox := outbox (w_db w) @ [outbox_row_of sur n (created_event sur ctx c q vid)]\<rparr>"
proof -
  from assms obtain x w1 u where
    ins: "(exec (insert_vehicle s (vehicle_row_of sur (new_uuid sur 0) (c_tenant c) q)) :: (registry_body, uuid) handler) w = (Inr x, w1)" and
    out: "WriteOutbox (Internal :: registry_body response) s sur (created_event sur ctx c q x) w1 = (Inr u, w')" and x: "vid = x"
    unfolding create_tx_def created_event_def by (elim bindE andthenE) simp
  from out obtain n where db: "w_db w' = (w_db w1)\<lparr>outbox := outbox (w_db w1) @ [outbox_row_of sur n (created_event sur ctx c q x)]\<rparr>"
    by (rule WriteOutbox_db)
  from exec_db [OF ins] have ins': "insert_vehicle s (vehicle_row_of sur (new_uuid sur 0) (c_tenant c) q) (w_db w) = Inr (x, w_db w1)" .
  then have vid: "vid = new_uuid sur 0" and
    db1: "w_db w1 = (w_db w)\<lparr>vehicles := vehicles (w_db w) @ [vehicle_row_of sur (new_uuid sur 0) (c_tenant c) q]\<rparr>"
    unfolding x insert_vehicle_Inr by (simp_all add: vehicle_row_of_def)
  show thesis
  proof (rule that)
    show "insert_vehicle s (vehicle_row_of sur (new_uuid sur 0) (c_tenant c) q) (w_db w)
       = Inr (vid, (w_db w)\<lparr>vehicles := vehicles (w_db w) @ [vehicle_row_of sur vid (c_tenant c) q]\<rparr>)"
      using ins' unfolding db1 x [symmetric] unfolding vid .
    show "w_db w' = (w_db w)\<lparr>vehicles := vehicles (w_db w) @ [vehicle_row_of sur vid (c_tenant c) q],
       outbox := outbox (w_db w) @ [outbox_row_of sur n (created_event sur ctx c q vid)]\<rparr>"
      unfolding db db1 x [symmetric] vid by simp
  qed
qed

lemma create_run:
  assumes "create a sur ctx c body w = (Inr r, w')" and "w_snap w = None"
  obtains q pat re vid w1 w2 where "body = Some q" "vq_plate q \<noteq> []"
    "plate_pattern (c_tenant c) (w_log w) (w_db w) = Some pat" "ra_rx a pat = Some re" "re (vq_plate q)"
    "create_tx (session_of (ra_pool a) (c_tenant c)) sur ctx c q w1 = (Inr vid, w2)" "w_db w1 = w_db w" "w_db w' = w_db w2"
    "r = Json 201 (CreatedId vid)"
proof -
  from assms(1) obtain q w1 w2 w3 x u vid y where
    q: "body = Some q" "vq_plate q \<noteq> []" and
    conn: "(WithTenant (Some c) :: (registry_body, unit) handler) w = (Inr x, w1)" and
    val: "validatePlate a (c_tenant c) (vq_plate q) w1 = (Inr u, w2)" and
    tx: "in_tx (Internal :: registry_body response) (create_tx (session_of (ra_pool a) (c_tenant c)) sur ctx c q) w2 = (Inr vid, w3)" and
    au: "(audit_Emit (ra_audit a) ''registry'' (Some c) ''vehicle.create'' ''vehicle'' vid :: (registry_body, unit) handler) w3 = (Inr y, w')" and
    r: "r = Json 201 (CreatedId vid)"
    unfolding create_def by (elim bindE andthenE) (rule that; simp)
  from conn have w1: "w_db w1 = w_db w" "w_log w1 = w_log w" "w_snap w1 = None" using assms(2) by (elim WithTenantE, simp)+
  from val obtain re where re: "plateRegexFor a (c_tenant c) w1 = (Inr re, w2)" "re (vq_plate q)"
    unfolding validatePlate_def by (elim bindE) simp
  from plateRegexFor_run [OF re(1)] obtain pat where
    pat: "plate_pattern (c_tenant c) (w_log w1) (w_db w1) = Some pat" "ra_rx a pat = Some re" and w2: "w_db w2 = w_db w1" "w_snap w2 = w_snap w1"
    by blast
  from tx obtain w4 w5 where "create_tx (session_of (ra_pool a) (c_tenant c)) sur ctx c q w4 = (Inr vid, w5)" "w_db w4 = w_db w2" "w_db w3 = w_db w5"
    using w2 w1 by (elim in_txE [OF _ _ tx_create_tx]) simp_all
  moreover from au have "w_db w' = w_db w3" by (elim audit_EmitE) simp
  ultimately show thesis using that [OF q] pat re(2) r w1 w2 by simp
qed

section \<open>Properties\<close>

text \<open>
  A vehicle is registered under a valid, free plate: an answer 201 means the plate matches the
  tenant's format, the cached one where there is one and else the tenant's (the built-in one
  where that is empty), no vehicle of the tenant has it, and the owner named exists. The whole
  effect is one new unflagged vehicle with the data of the request and one event.
\<close>

theorem create_vehicle_under_valid_plate:
  assumes "finish (create a sur ctx c body) w = (r, w')" and "status_of r = 201" and "w_snap w = None"
  shows "\<exists>q pat re vid n. body = Some q \<and> vq_plate q \<noteq> []
    \<and> (case cached_regex (c_tenant c) (w_log w) of
         Some p \<Rightarrow> pat = p
       | None \<Rightarrow> (\<exists>col. map_of (tenants (w_db w)) (c_tenant c) = Some col
                   \<and> pat = (if col = [] then default_plate_regex else col)))
    \<and> ra_rx a pat = Some re \<and> re (vq_plate q)
    \<and> (\<forall>old\<in>set (vehicles (w_db w)). v_tenant old = c_tenant c \<longrightarrow> v_plate old \<noteq> vq_plate q)
    \<and> owner_exists (vq_owner_id q) (w_db w) \<and> r = Json 201 (CreatedId vid)
    \<and> w_db w' = (w_db w)\<lparr>vehicles := vehicles (w_db w) @ [vehicle_row_of sur vid (c_tenant c) q],
         outbox := outbox (w_db w) @ [outbox_row_of sur n (created_event sur ctx c q vid)]\<rparr>"
  using assms(1)
proof (cases rule: finish_cases)
  case stopped
  with stops_withD [OF sw_create stopped] assms(2) show ?thesis by (simp add: refusal_def)
next
  case ended
  then obtain q pat re vid w1 w2 where q: "body = Some q" "vq_plate q \<noteq> []" and
    pat: "plate_pattern (c_tenant c) (w_log w) (w_db w) = Some pat" "ra_rx a pat = Some re" "re (vq_plate q)" and
    tx: "create_tx (session_of (ra_pool a) (c_tenant c)) sur ctx c q w1 = (Inr vid, w2)" and
    dbs: "w_db w1 = w_db w" "w_db w' = w_db w2" and r: "r = Json 201 (CreatedId vid)"
    by (rule create_run [OF _ assms(3)])
  from tx obtain n where
    ins: "insert_vehicle (session_of (ra_pool a) (c_tenant c)) (vehicle_row_of sur (new_uuid sur 0) (c_tenant c) q) (w_db w1)
       = Inr (vid, (w_db w1)\<lparr>vehicles := vehicles (w_db w1) @ [vehicle_row_of sur vid (c_tenant c) q]\<rparr>)" and
    db: "w_db w2 = (w_db w1)\<lparr>vehicles := vehicles (w_db w1) @ [vehicle_row_of sur vid (c_tenant c) q],
       outbox := outbox (w_db w1) @ [outbox_row_of sur n (created_event sur ctx c q vid)]\<rparr>"
    by (rule create_tx_run)
  from ins have free: "\<forall>old\<in>set (vehicles (w_db w)). v_tenant old = c_tenant c \<longrightarrow> v_plate old \<noteq> vq_plate q"
    and own: "owner_exists (vq_owner_id q) (w_db w)"
    unfolding insert_vehicle_Inr dbs by (auto simp: vehicle_row_of_def)
  from pat(1) have col: "case cached_regex (c_tenant c) (w_log w) of
         Some p \<Rightarrow> pat = p
       | None \<Rightarrow> (\<exists>col. map_of (tenants (w_db w)) (c_tenant c) = Some col \<and> pat = (if col = [] then default_plate_regex else col))"
    by (cases "cached_regex (c_tenant c) (w_log w)") (simp_all add: plate_pattern_def map_option_eq_Some eq_commute [of pat])
  from db have whole: "w_db w' = (w_db w)\<lparr>vehicles := vehicles (w_db w) @ [vehicle_row_of sur vid (c_tenant c) q],
         outbox := outbox (w_db w) @ [outbox_row_of sur n (created_event sur ctx c q vid)]\<rparr>"
    unfolding dbs .
  show ?thesis
    by (rule exI [of _ q], rule exI [of _ pat], rule exI [of _ re], rule exI [of _ vid], rule exI [of _ n])
      (intro conjI q col pat free own r whole)
qed

definition veh_api :: registry_api where
  "veh_api = \<lparr>ra_pool = SubjectToRls, ra_audit = [], ra_rx = (\<lambda>pat. Some (\<lambda>plate. length plate \<ge> 2)), ra_strxfrm = map of_char\<rparr>"

definition veh_claims :: claims where
  "veh_claims = \<lparr>c_tenant = ''cm'', c_role = ''admin'', c_permissions = [''registry:write''], c_device = [],
     c_subject = Some 3, c_issued_at = 0, c_expires_at = 0, c_jti = None\<rparr>"

definition veh_req :: vehicle_req where
  "veh_req = \<lparr>vq_plate = ''AB12'', vq_vin = None, vq_make = None, vq_model = None, vq_year = None,
     vq_color = None, vq_category = None, vq_emission_class = None, vq_owner_id = None, vq_registration_expires_at = None,
     vq_insurance_expires_at = None, vq_inspection_expires_at = None, vq_tax_paid_through = None\<rparr>"

definition veh_sur :: surroundings where
  "veh_sur = \<lparr>go_now = 0, db_now = 0, new_uuid = (\<lambda>k. 50 + k)\<rparr>"

definition veh_ctx :: reqctx where
  "veh_ctx = \<lparr>ctx_claims = Some veh_claims, ctx_trace = []\<rparr>"

definition veh_start :: dbworld where
  "veh_start = world_of (empty_db\<lparr>tenants := [(''cm'', [])]\<rparr>)"

definition veh_created :: "registry_body response \<times> dbworld" where
  "veh_created = finish (create veh_api veh_sur veh_ctx veh_claims (Some veh_req)) veh_start"

lemma veh_created_facts:
  "finish (create veh_api veh_sur veh_ctx veh_claims (Some veh_req)) veh_start = (fst veh_created, snd veh_created)"
  "status_of (fst veh_created) = 201"
  by (simp add: veh_created_def) code_simp

theorem create_vehicle_under_valid_plate_witness:
  "\<exists>vid. vehicles (w_db (snd veh_created)) = [vehicle_row_of veh_sur vid ''cm'' veh_req]"
proof -
  have idle: "w_snap veh_start = None" and none: "vehicles (w_db veh_start) = []" and ten: "c_tenant veh_claims = ''cm''"
    by (simp_all add: veh_start_def world_of_def empty_db_def veh_claims_def)
  from create_vehicle_under_valid_plate [OF veh_created_facts idle] none ten show ?thesis by auto
qed

text \<open>
  Flags are announced as they are: an answer 204 means the session sees the vehicle; afterwards it
  has the flags of the request where the request gave one and its old flags where not, no other
  vehicle's flags moved, and exactly one event carries the flags the row now has.
\<close>

theorem setFlags_announced:
  assumes "finish (setFlags a sur ctx c ident body) w = (r, w')" and "status_of r = 204" and "w_snap w = None"
  shows "\<exists>vid q v n. ident = Some vid \<and> body = Some q
    \<and> vehicles (w_db w') = update_rows v_tenant (session_of (ra_pool a) (c_tenant c)) (\<lambda>x. v_id x = vid) (flag_vehicle (db_now sur) q) (vehicles (w_db w))
    \<and> vehicle_seen (session_of (ra_pool a) (c_tenant c)) vid (w_db w') = Some v
    \<and> outbox (w_db w') = outbox (w_db w) @ [outbox_row_of sur n (EnvelopeFromContext sur ctx (new_uuid sur 0) ''registry'' (c_tenant c)
         TypeVehicleFlagged 1 (VehicleFlagged \<lparr>vfp_vehicle_id = vid, vfp_plate = v_plate v, vfp_is_stolen = v_is_stolen v,
            vfp_is_seized = v_is_seized v, vfp_is_wanted = v_is_wanted v\<rparr>))]"
  using assms(1)
proof (cases rule: finish_cases)
  case stopped
  with stops_withD [OF sw_setFlags stopped] assms(2) show ?thesis by (simp add: refusal_def)
next
  case ended
  let ?s = "session_of (ra_pool a) (c_tenant c)"
  let ?env = "\<lambda>vid v. EnvelopeFromContext sur ctx (new_uuid sur 0) ''registry'' (c_tenant c)
         TypeVehicleFlagged 1 (VehicleFlagged \<lparr>vfp_vehicle_id = vid, vfp_plate = v_plate v, vfp_is_stolen = v_is_stolen v,
            vfp_is_seized = v_is_seized v, vfp_is_wanted = v_is_wanted v\<rparr>)"
  from ended obtain vid where vid: "ident = Some vid" by (cases ident) (auto simp: setFlags_def)
  from ended obtain q x w1 w2 u y where
    q: "body = Some q" and conn: "(WithTenant (Some c) :: (registry_body, unit) handler) w = (Inr x, w1)" and
    tx: "in_tx (Internal :: registry_body response) (flags_tx ?s sur ctx c vid q) w1 = (Inr u, w2)" and
    au: "(audit_Emit (ra_audit a) ''registry'' (Some c) ''vehicle.flags'' ''vehicle'' vid :: (registry_body, unit) handler) w2 = (Inr y, w')"
    unfolding setFlags_def vid option.case by (elim bindE andthenE) (rule that; simp)
  from conn have w1: "w_db w1 = w_db w" "w_snap w1 = None" using assms(3) by (elim WithTenantE, simp)+
  from au have w': "w_db w' = w_db w2" by (elim audit_EmitE) simp
  from tx obtain w3 w4 where body: "flags_tx ?s sur ctx c vid q w3 = (Inr u, w4)" and dbs: "w_db w3 = w_db w" "w_db w' = w_db w4"
    using w1 w' by (elim in_txE [OF _ _ tx_flags_tx]) simp_all
  from body obtain z w5 v w6 where
    upd: "(exec (change (update_vehicle ?s vid (flag_vehicle (db_now sur) q))) :: (registry_body, unit) handler) w3 = (Inr z, w5)" and
    look: "(exec (query_row (vehicle_seen ?s vid)) :: (registry_body, vehicle_row) handler) w5 = (Inr v, w6)" and
    out: "WriteOutbox (Internal :: registry_body response) ?s sur (?env vid v) w6 = (Inr u, w4)"
    unfolding flags_tx_def by (elim bindE andthenE) (rule that; simp)
  from out obtain n where db: "w_db w4 = (w_db w6)\<lparr>outbox := outbox (w_db w6) @ [outbox_row_of sur n (?env vid v)]\<rparr>"
    by (rule WriteOutbox_db)
  have db5: "w_db w5 = update_vehicle ?s vid (flag_vehicle (db_now sur) q) (w_db w)" using exec_change_db [OF upd] dbs by simp
  have seen: "vehicle_seen ?s vid (w_db w5) = Some v" and db6: "w_db w6 = w_db w5" using exec_query_row_db [OF look] by simp_all
  have "vehicles (w_db w') = update_rows v_tenant ?s (\<lambda>x. v_id x = vid) (flag_vehicle (db_now sur) q) (vehicles (w_db w))"
    by (simp add: dbs db db6 db5 update_vehicle_def)
  moreover have "vehicle_seen ?s vid (w_db w') = Some v" using seen by (simp add: dbs db db6 vehicle_seen_def)
  moreover have "outbox (w_db w') = outbox (w_db w) @ [outbox_row_of sur n (?env vid v)]"
    by (simp add: dbs db db6 db5 update_vehicle_def)
  ultimately show ?thesis using vid q by blast
qed

definition veh_flags :: flags_req where
  "veh_flags = \<lparr>fq_is_stolen = Some True, fq_is_seized = None, fq_is_wanted = None\<rparr>"

definition veh_flagged :: "registry_body response \<times> dbworld" where
  "veh_flagged = finish (setFlags veh_api veh_sur veh_ctx veh_claims (Some 50) (Some veh_flags)) (snd veh_created)"

lemma veh_flagged_facts:
  "finish (setFlags veh_api veh_sur veh_ctx veh_claims (Some 50) (Some veh_flags)) (snd veh_created) = (fst veh_flagged, snd veh_flagged)"
  "status_of (fst veh_flagged) = 204" "Option.is_none (w_snap (snd veh_created))"
  by (simp add: veh_flagged_def) code_simp+

theorem setFlags_announced_witness:
  "length (outbox (w_db (snd veh_flagged))) = Suc (length (outbox (w_db (snd veh_created))))"
proof -
  have "w_snap (snd veh_created) = None" using veh_flagged_facts(3) by (simp add: Option.is_none_def)
  from setFlags_announced [OF veh_flagged_facts(1,2) this] show ?thesis by auto
qed

end
