(* ===== verification/Owners.thy ===== *)
theory Owners
  imports Registry
begin

text \<open>
  Owners and the citizen's self-service on them
  (\<open>services/registry/internal/api/owners.go\<close>).
\<close>

section \<open>Statements\<close>

definition scanOwner :: "owner_row \<Rightarrow> owner" where
  "scanOwner r = \<lparr>oo_id = o_id r, oo_user_id = o_user_id r, oo_full_name = o_full_name r,
     oo_national_id = o_national_id r, oo_email = o_email r, oo_phone = o_phone r, oo_created_at = o_created_at r\<rparr>"

record owner_req =
  oq_user_id :: "uuid option"
  oq_full_name :: string
  oq_national_id :: "string option"
  oq_email :: "string option"
  oq_phone :: "string option"

definition owner_row_of :: "surroundings \<Rightarrow> uuid \<Rightarrow> string \<Rightarrow> owner_req \<Rightarrow> owner_row" where
  "owner_row_of sur oid ten q =
     \<lparr>o_id = oid, o_tenant = ten, o_user_id = oq_user_id q, o_full_name = oq_full_name q,
      o_national_id = oq_national_id q, o_email = oq_email q, o_phone = oq_phone q, o_created_at = db_now sur\<rparr>"

definition same_account :: "owner_row \<Rightarrow> owner_row \<Rightarrow> bool" where
  "same_account x y \<longleftrightarrow> o_user_id x \<noteq> None \<and> o_user_id x = o_user_id y \<and> o_tenant x = o_tenant y"

definition insert_owner :: "session \<Rightarrow> owner_row \<Rightarrow> db \<Rightarrow> sqlerr + uuid \<times> db" where
  "insert_owner s r d =
     (if \<not> user_exists (o_user_id r) d then Inl ForeignKeyViolation
      else case insert_row o_tenant s (\<lambda>old new. o_id old = o_id new \<or> same_account old new) r (owners d) of
             Inl e \<Rightarrow> Inl e
           | Inr rows \<Rightarrow> Inr (o_id r, d\<lparr>owners := rows\<rparr>))"

definition owner_seen :: "session \<Rightarrow> uuid \<Rightarrow> db \<Rightarrow> owner_row option" where
  "owner_seen s oid d = row_seen o_tenant s (\<lambda>r. o_id r = oid) (owners d)"

definition owner_of_user :: "session \<Rightarrow> uuid \<Rightarrow> db \<Rightarrow> owner_row option" where
  "owner_of_user s user d = row_seen o_tenant s (\<lambda>r. o_user_id r = Some user) (owners d)"

section \<open>Administration\<close>

definition createOwner :: "registry_api \<Rightarrow> surroundings \<Rightarrow> claims \<Rightarrow> owner_req option \<Rightarrow> registry_handler" where
  "createOwner a sur c body =
     bind (read_json body) (\<lambda>q.
     andthen (guard (TrimSpace (oq_full_name q) \<noteq> []) (Err 400 ''missing'')) (
     andthen (WithTenant (Some c)) (
     bind (exec (insert_owner (session_of (ra_pool a) (c_tenant c)) (owner_row_of sur (new_uuid sur 0) (c_tenant c) q))) (\<lambda>oid.
     andthen (audit_Emit (ra_audit a) ''registry'' (Some c) ''owner.create'' ''owner'' oid) (
     ret (Json 201 (CreatedId oid)))))))"

definition owners_listed :: "registry_api \<Rightarrow> session \<Rightarrow> string \<Rightarrow> db \<Rightarrow> owner list" where
  "owners_listed a s q d =
     (let pat = ''%'' @ q @ ''%'';
          hit = (\<lambda>r. q = [] \<or> ilike (Some (o_full_name r)) pat \<or> ilike (o_email r) pat \<or> ilike (o_national_id r) pat)
      in map scanOwner (take 100 (sort_key (ra_strxfrm a \<circ> o_full_name) (filter hit (rows_seen o_tenant s (owners d))))))"

definition listOwners :: "registry_api \<Rightarrow> claims \<Rightarrow> string \<Rightarrow> registry_handler" where
  "listOwners a c q_param =
     andthen (WithTenant (Some c)) (
     bind (exec (query (owners_listed a (session_of (ra_pool a) (c_tenant c)) (TrimSpace q_param)))) (\<lambda>items.
     ret (Json 200 (OwnerItems items))))"

definition getOwner :: "registry_api \<Rightarrow> claims \<Rightarrow> uuid option \<Rightarrow> registry_handler" where
  "getOwner a c ident =
     (case ident of
        None \<Rightarrow> stop (write_err ErrBadRequest)
      | Some oid \<Rightarrow>
          andthen (WithTenant (Some c)) (
          bind (exec_or (no_rows_or (write_err ErrNotFound) Internal)
                  (query_row (owner_seen (session_of (ra_pool a) (c_tenant c)) oid))) (\<lambda>r.
          ret (Json 200 (OneOwner (scanOwner r))))))"

record owner_patch =
  op_full_name :: "string option"
  op_email :: "string option"
  op_phone :: "string option"

definition patch_owner :: "owner_patch \<Rightarrow> owner_row \<Rightarrow> owner_row" where
  "patch_owner q r =
     r\<lparr>o_full_name := (case op_full_name q of None \<Rightarrow> o_full_name r | Some n \<Rightarrow> n),
       o_email := or_else (op_email q) (o_email r), o_phone := or_else (op_phone q) (o_phone r)\<rparr>"

definition update_owner :: "session \<Rightarrow> uuid \<Rightarrow> (owner_row \<Rightarrow> owner_row) \<Rightarrow> db \<Rightarrow> db" where
  "update_owner s oid f d = d\<lparr>owners := update_rows o_tenant s (\<lambda>r. o_id r = oid) f (owners d)\<rparr>"

definition updateOwner :: "registry_api \<Rightarrow> claims \<Rightarrow> uuid option \<Rightarrow> owner_patch option \<Rightarrow> registry_handler" where
  "updateOwner a c ident body =
     (case ident of
        None \<Rightarrow> stop (write_err ErrBadRequest)
      | Some oid \<Rightarrow>
          bind (read_json body) (\<lambda>q.
          andthen (WithTenant (Some c)) (
          andthen (exec (change (update_owner (session_of (ra_pool a) (c_tenant c)) oid (patch_owner q)))) (
          andthen (audit_Emit (ra_audit a) ''registry'' (Some c) ''owner.update'' ''owner'' oid) (
          ret (Status 204))))))"

definition give_vehicle :: "time \<Rightarrow> uuid \<Rightarrow> vehicle_row \<Rightarrow> vehicle_row" where
  "give_vehicle now oid v = v\<lparr>v_owner_id := Some oid, v_updated_at := now\<rparr>"

definition link_tx :: "session \<Rightarrow> surroundings \<Rightarrow> uuid \<Rightarrow> uuid \<Rightarrow> (registry_body, unit) handler" where
  "link_tx s sur oid vid =
     andthen (exec_or (no_rows_or (write_err ErrNotFound) Internal) (query_row (vehicle_seen s vid))) (
     exec (update_vehicle_fk s vid (Some oid) (give_vehicle (db_now sur) oid)))"

definition linkVehicle :: "registry_api \<Rightarrow> surroundings \<Rightarrow> claims \<Rightarrow> uuid option \<Rightarrow> uuid option \<Rightarrow> registry_handler" where
  "linkVehicle a sur c own veh =
     (case own of
        None \<Rightarrow> stop (write_err ErrBadRequest)
      | Some oid \<Rightarrow>
     (case veh of
        None \<Rightarrow> stop (write_err ErrBadRequest)
      | Some vid \<Rightarrow>
          andthen (WithTenant (Some c)) (
          andthen (in_tx Internal (link_tx (session_of (ra_pool a) (c_tenant c)) sur oid vid)) (
          andthen (audit_Emit (ra_audit a) ''registry'' (Some c) ''vehicle.transfer'' ''vehicle'' vid) (
          ret (Status 204))))))"

section \<open>Citizen self-service\<close>

record claim_req =
  kq_full_name :: string
  kq_national_id :: "string option"
  kq_email :: "string option"
  kq_phone :: "string option"

definition refresh_owner :: "claim_req \<Rightarrow> owner_row \<Rightarrow> owner_row" where
  "refresh_owner q r =
     r\<lparr>o_full_name := kq_full_name q, o_national_id := or_else (kq_national_id q) (o_national_id r),
       o_email := or_else (kq_email q) (o_email r), o_phone := or_else (kq_phone q) (o_phone r)\<rparr>"

definition claim_row :: "surroundings \<Rightarrow> uuid \<Rightarrow> string \<Rightarrow> uuid \<Rightarrow> claim_req \<Rightarrow> owner_row" where
  "claim_row sur oid ten user q =
     owner_row_of sur oid ten \<lparr>oq_user_id = Some user, oq_full_name = kq_full_name q,
       oq_national_id = kq_national_id q, oq_email = kq_email q, oq_phone = kq_phone q\<rparr>"

text \<open>
  The upsert on \<open>(tenant_id, user_id)\<close>: the account's row is refreshed where there is one, and
  inserted otherwise.
\<close>

definition upsert_owner :: "session \<Rightarrow> surroundings \<Rightarrow> uuid \<Rightarrow> string \<Rightarrow> uuid \<Rightarrow> claim_req \<Rightarrow> db \<Rightarrow> sqlerr + uuid \<times> db" where
  "upsert_owner s sur oid ten user q d =
     (if \<not> sees s ten then Inl RlsViolation
      else case find (\<lambda>r. o_tenant r = ten \<and> o_user_id r = Some user) (owners d) of
             Some r \<Rightarrow> Inr (o_id r, d\<lparr>owners := map (\<lambda>x. if o_tenant x = ten \<and> o_user_id x = Some user
                                                       then refresh_owner q x else x) (owners d)\<rparr>)
           | None \<Rightarrow> insert_owner s (claim_row sur oid ten user q) d)"

definition selfClaimOwner :: "registry_api \<Rightarrow> surroundings \<Rightarrow> claims \<Rightarrow> claim_req option \<Rightarrow> registry_handler" where
  "selfClaimOwner a sur c body =
     bind (read_json body) (\<lambda>q.
     andthen (guard (TrimSpace (kq_full_name q) \<noteq> []) (Err 400 ''missing'')) (
     case c_subject c of
       None \<Rightarrow> stop (write_err ErrUnauthorized)
     | Some user \<Rightarrow>
         andthen (WithTenant (Some c)) (
         bind (exec (upsert_owner (session_of (ra_pool a) (c_tenant c)) sur (new_uuid sur 0) (c_tenant c) user q)) (\<lambda>oid.
         andthen (audit_Emit (ra_audit a) ''registry'' (Some c) ''owner.self_claim'' ''owner'' oid) (
         ret (Json 200 (CreatedId oid)))))))"

definition getMyOwner :: "registry_api \<Rightarrow> claims \<Rightarrow> registry_handler" where
  "getMyOwner a c =
     andthen (WithTenant (Some c)) (
     bind (exec_or (no_rows_or (write_err ErrNotFound) Internal)
             (subject_param c (\<lambda>user. query_row (owner_of_user (session_of (ra_pool a) (c_tenant c)) user)))) (\<lambda>r.
     ret (Json 200 (OneOwner (scanOwner r)))))"

definition vehicles_of :: "registry_api \<Rightarrow> session \<Rightarrow> uuid \<Rightarrow> db \<Rightarrow> vehicle_row list" where
  "vehicles_of a s user d =
     sort_key (ra_strxfrm a \<circ> v_plate)
       (filter (\<lambda>v. case v_owner_id v of
                      None \<Rightarrow> False
                    | Some oid \<Rightarrow> list_ex (\<lambda>r. o_id r = oid \<and> o_user_id r = Some user) (rows_seen o_tenant s (owners d)))
         (rows_seen v_tenant s (vehicles d)))"

definition myVehicles :: "registry_api \<Rightarrow> surroundings \<Rightarrow> claims \<Rightarrow> registry_handler" where
  "myVehicles a sur c =
     andthen (WithTenant (Some c)) (
     bind (exec (subject_param c (\<lambda>user. query (vehicles_of a (session_of (ra_pool a) (c_tenant c)) user)))) (\<lambda>rows.
     ret (Json 200 (VehicleItems (map (\<lambda>v. (scanVehicle (db_now sur) v)\<lparr>vo_is_wanted := False\<rparr>) rows)))))"

section \<open>Runs\<close>

lemma insert_owner_Inr:
  "insert_owner s r d = Inr (x, d') \<longleftrightarrow> x = o_id r \<and> user_exists (o_user_id r) d \<and> sees s (o_tenant r)
     \<and> (\<forall>old\<in>set (owners d). \<not> (o_id old = o_id r \<or> same_account old r)) \<and> d' = d\<lparr>owners := owners d @ [r]\<rparr>"
  by (auto simp: insert_owner_def insert_row_def list_ex_iff)

lemma sw_selfClaimOwner: "stops_with refusal (selfClaimOwner a sur c body)"
  unfolding selfClaimOwner_def by (intro db_sw_steps) simp_all

lemma claim_run:
  assumes "selfClaimOwner a sur c body w = (Inr r, w')"
  obtains q user oid where "body = Some q" "TrimSpace (kq_full_name q) \<noteq> []" "c_subject c = Some user"
    "upsert_owner (session_of (ra_pool a) (c_tenant c)) sur (new_uuid sur 0) (c_tenant c) user q (w_db w) = Inr (oid, w_db w')"
    "r = Json 200 (CreatedId oid)"
proof -
  from assms obtain q where q: "body = Some q" "TrimSpace (kq_full_name q) \<noteq> []" and
    rest: "(case c_subject c of
       None \<Rightarrow> (stop (write_err ErrUnauthorized) :: registry_handler)
     | Some user \<Rightarrow>
         andthen (WithTenant (Some c)) (
         bind (exec (upsert_owner (session_of (ra_pool a) (c_tenant c)) sur (new_uuid sur 0) (c_tenant c) user q)) (\<lambda>oid.
         andthen (audit_Emit (ra_audit a) ''registry'' (Some c) ''owner.self_claim'' ''owner'' oid) (
         ret (Json 200 (CreatedId oid)))))) w = (Inr r, w')"
    unfolding selfClaimOwner_def by (elim bindE andthenE) (rule that; simp)
  from rest obtain user where user: "c_subject c = Some user" by (cases "c_subject c") auto
  from rest [unfolded user option.case] obtain x w1 oid w2 y w3 where
    conn: "(WithTenant (Some c) :: (registry_body, unit) handler) w = (Inr x, w1)" and
    up: "(exec (upsert_owner (session_of (ra_pool a) (c_tenant c)) sur (new_uuid sur 0) (c_tenant c) user q) :: (registry_body, uuid) handler) w1 = (Inr oid, w2)" and
    au: "(audit_Emit (ra_audit a) ''registry'' (Some c) ''owner.self_claim'' ''owner'' oid :: (registry_body, unit) handler) w2 = (Inr y, w3)" and
    r: "r = Json 200 (CreatedId oid)" "w' = w3"
    by (elim bindE andthenE) simp
  from conn have "w_db w1 = w_db w" by (elim WithTenantE) simp
  moreover from au have "w_db w3 = w_db w2" by (elim audit_EmitE) simp
  ultimately show thesis using that [OF q user _ r(1)] exec_db [OF up] r(2) by simp
qed

section \<open>Properties\<close>

text \<open>
  A citizen's profile is the citizen's own: an answer 200 to the self-claim means the answered id
  is that of an owner row of the caller's account and tenant carrying the name of the request,
  and every row of another account or tenant is as it was. Where the account had a profile no row
  was added.
\<close>

theorem selfClaimOwner_own_profile:
  assumes "finish (selfClaimOwner a sur c body) w = (r, w')" and "status_of r = 200"
  shows "\<exists>q user oid row. body = Some q \<and> c_subject c = Some user \<and> r = Json 200 (CreatedId oid)
    \<and> row \<in> set (owners (w_db w')) \<and> o_id row = oid \<and> o_user_id row = Some user \<and> o_tenant row = c_tenant c
    \<and> o_full_name row = kq_full_name q
    \<and> filter (\<lambda>x. \<not> (o_tenant x = c_tenant c \<and> o_user_id x = Some user)) (owners (w_db w'))
        = filter (\<lambda>x. \<not> (o_tenant x = c_tenant c \<and> o_user_id x = Some user)) (owners (w_db w))
    \<and> ((\<exists>x\<in>set (owners (w_db w)). o_tenant x = c_tenant c \<and> o_user_id x = Some user)
        \<longrightarrow> length (owners (w_db w')) = length (owners (w_db w)))"
  using assms(1)
proof (cases rule: finish_cases)
  case stopped
  with stops_withD [OF sw_selfClaimOwner stopped] assms(2) show ?thesis by (simp add: refusal_def)
next
  case ended
  then obtain q user oid where q: "body = Some q" "c_subject c = Some user" "r = Json 200 (CreatedId oid)" and
    up: "upsert_owner (session_of (ra_pool a) (c_tenant c)) sur (new_uuid sur 0) (c_tenant c) user q (w_db w) = Inr (oid, w_db w')"
    by (rule claim_run) blast
  let ?mine = "\<lambda>x. o_tenant x = c_tenant c \<and> o_user_id x = Some user"
  have "\<exists>row. row \<in> set (owners (w_db w')) \<and> o_id row = oid \<and> ?mine row \<and> o_full_name row = kq_full_name q
    \<and> filter (\<lambda>x. \<not> ?mine x) (owners (w_db w')) = filter (\<lambda>x. \<not> ?mine x) (owners (w_db w))
    \<and> ((\<exists>x\<in>set (owners (w_db w)). ?mine x) \<longrightarrow> length (owners (w_db w')) = length (owners (w_db w)))"
  proof (cases "find ?mine (owners (w_db w))")
    case None
    with up have "insert_owner (session_of (ra_pool a) (c_tenant c)) (claim_row sur (new_uuid sur 0) (c_tenant c) user q) (w_db w) = Inr (oid, w_db w')"
      by (simp add: upsert_owner_def split: if_splits)
    then have ins: "oid = new_uuid sur 0" "owners (w_db w') = owners (w_db w) @ [claim_row sur (new_uuid sur 0) (c_tenant c) user q]"
      by (auto simp: insert_owner_Inr claim_row_def owner_row_of_def)
    from None have "\<not> (\<exists>x\<in>set (owners (w_db w)). ?mine x)" by (auto simp: find_None_iff)
    with ins show ?thesis
      by (intro exI [of _ "claim_row sur (new_uuid sur 0) (c_tenant c) user q"]) (auto simp: claim_row_def owner_row_of_def)
  next
    case (Some x)
    then have x: "x \<in> set (owners (w_db w))" "?mine x" by (auto dest: find_Some_in)
    from up Some have oid: "oid = o_id x"
      and whole: "w_db w' = (w_db w)\<lparr>owners := map (\<lambda>x. if ?mine x then refresh_owner q x else x) (owners (w_db w))\<rparr>"
      by (simp_all add: upsert_owner_def split: if_splits)
    have db: "owners (w_db w') = map (\<lambda>x. if ?mine x then refresh_owner q x else x) (owners (w_db w))"
      by (simp add: whole)
    have others: "filter (\<lambda>x. \<not> ?mine x) (owners (w_db w')) = filter (\<lambda>x. \<not> ?mine x) (owners (w_db w))"
      unfolding db by (rule filter_map_if_disjoint) (auto simp: refresh_owner_def)
    have "refresh_owner q x \<in> set (owners (w_db w'))" using x by (auto simp: db)
    moreover have "o_id (refresh_owner q x) = oid \<and> ?mine (refresh_owner q x) \<and> o_full_name (refresh_owner q x) = kq_full_name q"
      using x by (simp add: oid refresh_owner_def)
    moreover have "length (owners (w_db w')) = length (owners (w_db w))" by (simp add: db)
    ultimately show ?thesis using others by blast
  qed
  with q show ?thesis by blast
qed

definition own_api :: registry_api where
  "own_api = \<lparr>ra_pool = SubjectToRls, ra_audit = [], ra_rx = (\<lambda>pat. Some (\<lambda>plate. True)), ra_strxfrm = map of_char\<rparr>"

definition own_claims :: claims where
  "own_claims = \<lparr>c_tenant = ''cm'', c_role = ''citizen'', c_permissions = [''owners:self''], c_device = [],
     c_subject = Some 3, c_issued_at = 0, c_expires_at = 0, c_jti = None\<rparr>"

definition own_req :: claim_req where
  "own_req = \<lparr>kq_full_name = ''Ada'', kq_national_id = None, kq_email = None, kq_phone = None\<rparr>"

definition own_db :: db where
  "own_db = empty_db\<lparr>users := [\<lparr>u_id = 3, u_tenant = ''cm'', u_email = ''a@b'', u_phone = None, u_password_hash = [],
     u_full_name = ''A'', u_is_active = True\<rparr>]\<rparr>"

definition own_claimed :: "registry_body response \<times> dbworld" where
  "own_claimed = finish (selfClaimOwner own_api \<lparr>go_now = 0, db_now = 0, new_uuid = (\<lambda>k. 50 + k)\<rparr> own_claims (Some own_req)) (world_of own_db)"

theorem selfClaimOwner_own_profile_witness:
  "\<exists>row\<in>set (owners (w_db (snd own_claimed))). o_user_id row = Some 3"
proof -
  have run: "finish (selfClaimOwner own_api \<lparr>go_now = 0, db_now = 0, new_uuid = (\<lambda>k. 50 + k)\<rparr> own_claims (Some own_req)) (world_of own_db)
      = (fst own_claimed, snd own_claimed)" by (simp add: own_claimed_def)
  have "status_of (fst own_claimed) = 200" by code_simp
  moreover have "c_subject own_claims = Some 3" by (simp add: own_claims_def)
  ultimately show ?thesis using selfClaimOwner_own_profile [OF run] by metis
qed

text \<open>
  A warrant stays secret: the vehicles a citizen is shown are vehicles the session sees whose
  owner row is the caller's, all of them and in the collation's order, and none is shown as wanted.
\<close>

theorem myVehicles_own_and_not_wanted:
  assumes "finish (myVehicles a sur c) w = (Json 200 (VehicleItems items), w')"
  shows "\<exists>user rows. c_subject c = Some user \<and> items = map (\<lambda>v. (scanVehicle (db_now sur) v)\<lparr>vo_is_wanted := False\<rparr>) rows
    \<and> sorted (map (ra_strxfrm a \<circ> v_plate) rows)
    \<and> (\<forall>v. v \<in> set rows \<longleftrightarrow> v \<in> set (vehicles (w_db w)) \<and> sees (session_of (ra_pool a) (c_tenant c)) (v_tenant v)
         \<and> (\<exists>own\<in>set (owners (w_db w)). sees (session_of (ra_pool a) (c_tenant c)) (o_tenant own)
               \<and> v_owner_id v = Some (o_id own) \<and> o_user_id own = Some user))
    \<and> (\<forall>it\<in>set items. \<not> vo_is_wanted it)"
proof -
  let ?s = "session_of (ra_pool a) (c_tenant c)"
  from assms have run: "myVehicles a sur c w = (Inr (Json 200 (VehicleItems items)), w')"
  proof (cases rule: finish_cases)
    case stopped
    have "stops_with refusal (myVehicles a sur c)"
      unfolding myVehicles_def by (intro db_sw_steps) simp_all
    from stops_withD [OF this stopped] show ?thesis by simp
  qed
  from run obtain x w1 rows w2 where
    conn: "(WithTenant (Some c) :: (registry_body, unit) handler) w = (Inr x, w1)" and
    q: "(exec (subject_param c (\<lambda>user. query (vehicles_of a ?s user))) :: (registry_body, vehicle_row list) handler) w1 = (Inr rows, w2)" and
    items: "items = map (\<lambda>v. (scanVehicle (db_now sur) v)\<lparr>vo_is_wanted := False\<rparr>) rows"
    unfolding myVehicles_def by (elim bindE andthenE) simp
  from conn have "w_db w1 = w_db w" by (elim WithTenantE) simp
  with exec_db [OF q] obtain user where user: "c_subject c = Some user" and rows: "rows = vehicles_of a ?s user (w_db w)"
    by (auto simp: subject_param_Inr)
  have "sorted (map (ra_strxfrm a \<circ> v_plate) rows)" by (simp add: rows vehicles_of_def)
  moreover have "v \<in> set rows \<longleftrightarrow> v \<in> set (vehicles (w_db w)) \<and> sees ?s (v_tenant v)
         \<and> (\<exists>own\<in>set (owners (w_db w)). sees ?s (o_tenant own) \<and> v_owner_id v = Some (o_id own) \<and> o_user_id own = Some user)" for v
    unfolding rows vehicles_of_def by (auto simp: set_rows_seen list_ex_iff split: option.splits)
  moreover have "\<forall>it\<in>set items. \<not> vo_is_wanted it" by (auto simp: items)
  ultimately show ?thesis using user items by blast
qed

definition own_wanted :: dbworld where
  "own_wanted = world_of (own_db\<lparr>owners := [\<lparr>o_id = 5, o_tenant = ''cm'', o_user_id = Some 3, o_full_name = ''Ada'', o_national_id = None,
     o_email = None, o_phone = None, o_created_at = 0\<rparr>],
     vehicles := [(vehicle_row_of \<lparr>go_now = 0, db_now = 0, new_uuid = id\<rparr> 7 ''cm'' \<lparr>vq_plate = ''AB'', vq_vin = None, vq_make = None,
       vq_model = None, vq_year = None, vq_color = None, vq_category = None, vq_emission_class = None, vq_owner_id = Some 5,
       vq_registration_expires_at = None, vq_insurance_expires_at = None, vq_inspection_expires_at = None,
       vq_tax_paid_through = None\<rparr>)\<lparr>v_is_wanted := True\<rparr>]\<rparr>)"

definition own_listed :: "registry_body response \<times> dbworld" where
  "own_listed = finish (myVehicles own_api \<lparr>go_now = 0, db_now = 0, new_uuid = id\<rparr> own_claims) own_wanted"

theorem myVehicles_own_and_not_wanted_witness:
  "\<exists>it. fst own_listed = Json 200 (VehicleItems [it]) \<and> \<not> vo_is_wanted it \<and> v_is_wanted (hd (vehicles (w_db own_wanted)))"
proof -
  have "(case fst own_listed of Json n (VehicleItems items) \<Rightarrow> n = 200 \<and> length items = 1 | _ \<Rightarrow> False)" by code_simp
  then obtain it where it: "fst own_listed = Json 200 (VehicleItems [it])"
    by (auto split: response.splits registry_body.splits simp: length_Suc_conv)
  then have "finish (myVehicles own_api \<lparr>go_now = 0, db_now = 0, new_uuid = id\<rparr> own_claims) own_wanted = (Json 200 (VehicleItems [it]), snd own_listed)"
    by (simp add: own_listed_def prod_eq_iff)
  from myVehicles_own_and_not_wanted [OF this] it show ?thesis by (auto simp: own_wanted_def world_of_def)
qed

end
