(* ===== verification/Transfers.thy ===== *)
theory Transfers
  imports Owners
begin

text \<open>
  Citizen-to-citizen ownership transfer (\<open>services/registry/internal/api/transfers.go\<close>): the
  seller starts a transfer and gets a code, the buyer accepts with the code, the seller may
  cancel. \<open>rnd i\<close> is what \<open>crypto/rand\<close> puts in the buffer of the i-th attempt at a code.
\<close>

section \<open>Codes\<close>

definition transferCodeAlphabet :: string where
  "transferCodeAlphabet = ''ABCDEFGHJKLMNPQRSTUVWXYZ23456789''"

definition transferCodeLen :: nat where "transferCodeLen = 6"

definition transferCodeRetries :: nat where "transferCodeRetries = 5"

definition randomCode :: "(nat \<Rightarrow> 8 word) \<Rightarrow> string" where
  "randomCode buf =
     map (\<lambda>i. transferCodeAlphabet ! (unat (buf i) mod length transferCodeAlphabet)) [0..<transferCodeLen]"

definition isUniqueViolation :: "sqlerr \<Rightarrow> bool" where
  "isUniqueViolation e \<longleftrightarrow> e = UniqueViolation"

section \<open>Statements\<close>

definition transfer_row_of :: "surroundings \<Rightarrow> uuid \<Rightarrow> string \<Rightarrow> uuid \<Rightarrow> uuid \<Rightarrow> string \<Rightarrow> string \<Rightarrow> transfer_row" where
  "transfer_row_of sur tid ten vid own contact code =
     \<lparr>vt_id = tid, vt_tenant = ten, vt_vehicle_id = vid, vt_from_owner = own, vt_to_owner = None,
      vt_to_contact = contact, vt_code = code, vt_status = TPending, vt_created_at = db_now sur,
      vt_expires_at = db_now sur + days 7, vt_accepted_at = None\<rparr>"

text \<open>The two partial unique indexes of \<open>0009_vehicle_transfers.up.sql\<close> and the primary key.\<close>

definition transfer_clash :: "transfer_row \<Rightarrow> transfer_row \<Rightarrow> bool" where
  "transfer_clash x y \<longleftrightarrow> vt_id x = vt_id y
     \<or> (vt_status x = TPending \<and> vt_status y = TPending \<and> vt_tenant x = vt_tenant y
        \<and> (vt_vehicle_id x = vt_vehicle_id y \<or> vt_code x = vt_code y))"

definition insert_transfer :: "session \<Rightarrow> transfer_row \<Rightarrow> db \<Rightarrow> sqlerr + transfer_row \<times> db" where
  "insert_transfer s r d =
     (if \<not> list_ex (\<lambda>v. v_id v = vt_vehicle_id r) (vehicles d) \<or> \<not> list_ex (\<lambda>x. o_id x = vt_from_owner r) (owners d)
      then Inl ForeignKeyViolation
      else case insert_row vt_tenant s transfer_clash r (transfers d) of
             Inl e \<Rightarrow> Inl e
           | Inr rows \<Rightarrow> Inr (r, d\<lparr>transfers := rows\<rparr>))"

text \<open>The caller's vehicle, with the row of the caller as its owner.\<close>

definition owned_vehicle :: "session \<Rightarrow> uuid \<Rightarrow> uuid \<Rightarrow> db \<Rightarrow> (uuid \<times> vehicle_row) option" where
  "owned_vehicle s vid user d =
     (case vehicle_seen s vid d of
        None \<Rightarrow> None
      | Some v \<Rightarrow>
          (case v_owner_id v of
             None \<Rightarrow> None
           | Some oid \<Rightarrow> map_option (\<lambda>r. (o_id r, v))
               (row_seen o_tenant s (\<lambda>r. o_id r = oid \<and> o_user_id r = Some user) (owners d))))"

definition flagged :: "vehicle_row \<Rightarrow> bool" where
  "flagged v \<longleftrightarrow> v_is_stolen v \<or> v_is_seized v \<or> v_is_wanted v"

definition open_transfer :: "session \<Rightarrow> string \<Rightarrow> uuid \<Rightarrow> db \<Rightarrow> transfer_row option" where
  "open_transfer s ten vid d =
     row_seen vt_tenant s (\<lambda>r. vt_tenant r = ten \<and> vt_vehicle_id r = vid \<and> vt_status r = TPending) (transfers d)"

section \<open>\<open>POST /v1/citizens/me/vehicles/{vid}/transfer\<close>\<close>

fun try_codes :: "(nat \<Rightarrow> db \<Rightarrow> sqlerr + transfer_row \<times> db) \<Rightarrow> nat list \<Rightarrow> (registry_body, transfer_row) handler" where
  "try_codes ins [] = stop Internal"
| "try_codes ins (i # is) =
     bind (in_savepoint Internal (ins i)) (\<lambda>res.
     case res of
       Inr r \<Rightarrow> ret r
     | Inl e \<Rightarrow> if \<not> isUniqueViolation e then stop Internal else try_codes ins is)"

definition start_tx ::
    "session \<Rightarrow> surroundings \<Rightarrow> (nat \<Rightarrow> nat \<Rightarrow> 8 word) \<Rightarrow> claims \<Rightarrow> uuid \<Rightarrow> string \<Rightarrow> (registry_body, transfer_row) handler" where
  "start_tx s sur rnd c vid contact =
     bind (exec_or (no_rows_or (write_err ErrForbidden) Internal)
             (subject_param c (\<lambda>user. query_row (owned_vehicle s vid user)))) (\<lambda>(oid, v).
     andthen (guard (\<not> flagged v) (Err 409 ''not_transferable'')) (
     bind (exec (query (open_transfer s (c_tenant c) vid))) (\<lambda>existing.
     andthen (guard (existing = None) (Err 409 ''transfer_open'')) (
     try_codes (\<lambda>i. insert_transfer s (transfer_row_of sur (new_uuid sur i) (c_tenant c) vid oid contact (randomCode (rnd i))))
       [0..<transferCodeRetries]))))"

definition startTransfer ::
    "registry_api \<Rightarrow> surroundings \<Rightarrow> (nat \<Rightarrow> nat \<Rightarrow> 8 word) \<Rightarrow> claims \<Rightarrow> uuid option \<Rightarrow> string option \<Rightarrow> registry_handler" where
  "startTransfer a sur rnd c veh body =
     (case veh of
        None \<Rightarrow> stop (write_err ErrBadRequest)
      | Some vid \<Rightarrow>
          bind (read_json body) (\<lambda>contact.
          andthen (guard (TrimSpace contact \<noteq> []) (Err 400 ''missing'')) (
          andthen (WithTenant (Some c)) (
          bind (in_tx Internal (start_tx (session_of (ra_pool a) (c_tenant c)) sur rnd c vid contact)) (\<lambda>r.
          andthen (audit_Emit (ra_audit a) ''registry'' (Some c) ''vehicle.transfer.start'' ''vehicle'' vid) (
          ret (Json 201 (TransferStarted (vt_id r) (vt_code r) (vt_expires_at r)))))))))"

section \<open>\<open>POST /v1/citizens/me/transfers/accept\<close>\<close>

definition pending_with_code :: "session \<Rightarrow> string \<Rightarrow> db \<Rightarrow> transfer_row option" where
  "pending_with_code s code d = row_seen vt_tenant s (\<lambda>r. vt_code r = code \<and> vt_status r = TPending) (transfers d)"

definition set_transfer :: "session \<Rightarrow> uuid \<Rightarrow> (transfer_row \<Rightarrow> transfer_row) \<Rightarrow> db \<Rightarrow> db" where
  "set_transfer s tid f d = d\<lparr>transfers := update_rows vt_tenant s (\<lambda>r. vt_id r = tid) f (transfers d)\<rparr>"

definition accept_row :: "time \<Rightarrow> uuid \<Rightarrow> transfer_row \<Rightarrow> transfer_row" where
  "accept_row now buyer r = r\<lparr>vt_status := TAccepted, vt_to_owner := Some buyer, vt_accepted_at := Some now\<rparr>"

text \<open>
  The code cannot be used any more: the row gets a terminal status, the transaction is
  committed, the request is refused. Errors of the two statements are dropped.
\<close>

definition retire :: "session \<Rightarrow> uuid \<Rightarrow> transfer_status \<Rightarrow> registry_body response \<Rightarrow> (registry_body, 'a) handler" where
  "retire s tid st answer =
     bind (exec_try (change (set_transfer s tid (\<lambda>r. r\<lparr>vt_status := st\<rparr>)))) (\<lambda>_.
     bind (attempt (tx_commit ())) (\<lambda>_.
     stop answer))"

definition find_offer :: "session \<Rightarrow> claims \<Rightarrow> string \<Rightarrow> (registry_body, owner_row \<times> transfer_row) handler" where
  "find_offer s c code =
     bind (exec_or (no_rows_or (Err 412 ''owner_required'') Internal)
             (subject_param c (\<lambda>user. query_row (owner_of_user s user)))) (\<lambda>buyer.
     bind (exec_or (no_rows_or (write_err ErrNotFound) Internal) (query_row (pending_with_code s code))) (\<lambda>t.
     ret (buyer, t)))"

definition transferred_event :: "surroundings \<Rightarrow> reqctx \<Rightarrow> claims \<Rightarrow> string \<Rightarrow> owner_row \<Rightarrow> transfer_row \<Rightarrow> envelope" where
  "transferred_event sur ctx c plate buyer t =
     EnvelopeFromContext sur ctx (new_uuid sur 0) ''registry'' (c_tenant c) TypeVehicleTransferred 1
       (VehicleTransferred \<lparr>vtp_vehicle_id = vt_vehicle_id t, vtp_plate = plate,
          vtp_from_owner = vt_from_owner t, vtp_to_owner = o_id buyer\<rparr>)"

definition move_title ::
    "session \<Rightarrow> surroundings \<Rightarrow> reqctx \<Rightarrow> claims \<Rightarrow> owner_row \<Rightarrow> transfer_row \<Rightarrow> (registry_body, unit) handler" where
  "move_title s sur ctx c buyer t =
     andthen (exec (update_vehicle_fk s (vt_vehicle_id t) (Some (o_id buyer)) (give_vehicle (db_now sur) (o_id buyer)))) (
     andthen (exec (change (set_transfer s (vt_id t) (accept_row (db_now sur) (o_id buyer))))) (
     bind (exec_try (query_row (vehicle_seen s (vt_vehicle_id t)))) (\<lambda>res.
     let plate = (case res of Inr v \<Rightarrow> v_plate v | Inl _ \<Rightarrow> []) in
     WriteOutbox Internal s sur (transferred_event sur ctx c plate buyer t))))"

definition accept_tx ::
    "session \<Rightarrow> surroundings \<Rightarrow> reqctx \<Rightarrow> claims \<Rightarrow> string \<Rightarrow> (registry_body, transfer_row) handler" where
  "accept_tx s sur ctx c code =
     bind (find_offer s c code) (\<lambda>(buyer, t).
     if go_now sur > vt_expires_at t then retire s (vt_id t) TExpired (Err 410 ''expired'')
     else
       andthen (guard (o_id buyer \<noteq> vt_from_owner t) (Err 400 ''self_transfer'')) (
       bind (exec (query_row (vehicle_seen s (vt_vehicle_id t)))) (\<lambda>v.
       if flagged v then retire s (vt_id t) TCancelled (Err 409 ''not_transferable'')
       else andthen (move_title s sur ctx c buyer t) (ret t))))"

definition acceptTransfer :: "registry_api \<Rightarrow> surroundings \<Rightarrow> reqctx \<Rightarrow> claims \<Rightarrow> string option \<Rightarrow> registry_handler" where
  "acceptTransfer a sur ctx c body =
     bind (read_json body) (\<lambda>raw.
     let code = ToUpper (TrimSpace raw) in
     andthen (guard (code \<noteq> []) (Err 400 ''missing'')) (
     andthen (WithTenant (Some c)) (
     bind (in_tx Internal (accept_tx (session_of (ra_pool a) (c_tenant c)) sur ctx c code)) (\<lambda>t.
     andthen (audit_Emit (ra_audit a) ''registry'' (Some c) ''vehicle.transfer.accept'' ''vehicle'' (vt_vehicle_id t)) (
     ret (Json 200 (TransferAccepted (vt_vehicle_id t))))))))"

section \<open>\<open>POST /v1/citizens/me/transfers/{id}/cancel\<close>\<close>

definition cancellable :: "session \<Rightarrow> uuid \<Rightarrow> uuid \<Rightarrow> db \<Rightarrow> transfer_row \<Rightarrow> bool" where
  "cancellable s tid user d r \<longleftrightarrow> vt_id r = tid \<and> vt_status r = TPending
     \<and> list_ex (\<lambda>x. o_id x = vt_from_owner r \<and> o_user_id x = Some user) (rows_seen o_tenant s (owners d))"

definition cancel_rows :: "session \<Rightarrow> uuid \<Rightarrow> uuid \<Rightarrow> db \<Rightarrow> sqlerr + nat \<times> db" where
  "cancel_rows s tid user d =
     Inr (length (filter (cancellable s tid user d) (rows_seen vt_tenant s (transfers d))),
          d\<lparr>transfers := update_rows vt_tenant s (cancellable s tid user d) (\<lambda>r. r\<lparr>vt_status := TCancelled\<rparr>) (transfers d)\<rparr>)"

definition cancelTransfer :: "registry_api \<Rightarrow> claims \<Rightarrow> uuid option \<Rightarrow> registry_handler" where
  "cancelTransfer a c ident =
     (case ident of
        None \<Rightarrow> stop (write_err ErrBadRequest)
      | Some tid \<Rightarrow>
          andthen (WithTenant (Some c)) (
          bind (exec (subject_param c (cancel_rows (session_of (ra_pool a) (c_tenant c)) tid))) (\<lambda>n.
          andthen (guard (n \<noteq> 0) (write_err ErrNotFound)) (
          ret (Status 204)))))"

section \<open>\<open>GET /v1/citizens/me/transfers\<close>\<close>

definition transfer_item_of :: "transfer_row \<Rightarrow> vehicle_row \<Rightarrow> transfer_item" where
  "transfer_item_of r v =
     \<lparr>ti_id = vt_id r, ti_vehicle_id = vt_vehicle_id r, ti_plate = v_plate v,
      ti_code = (if vt_status r \<noteq> TPending then [] else vt_code r), ti_to_contact = vt_to_contact r,
      ti_status = vt_status r, ti_created_at = vt_created_at r, ti_expires_at = vt_expires_at r,
      ti_accepted_at = vt_accepted_at r\<rparr>"

definition transfers_of :: "session \<Rightarrow> uuid \<Rightarrow> db \<Rightarrow> transfer_item list" where
  "transfers_of s user d =
     take 50 (sort_key (\<lambda>it. - ti_created_at it)
       (List.map_filter (\<lambda>r. if list_ex (\<lambda>x. o_id x = vt_from_owner r \<and> o_user_id x = Some user) (rows_seen o_tenant s (owners d))
                             then map_option (transfer_item_of r) (vehicle_seen s (vt_vehicle_id r) d) else None)
         (rows_seen vt_tenant s (transfers d))))"

definition listMyTransfers :: "registry_api \<Rightarrow> claims \<Rightarrow> registry_handler" where
  "listMyTransfers a c =
     andthen (WithTenant (Some c)) (
     bind (exec (subject_param c (\<lambda>user. query (transfers_of (session_of (ra_pool a) (c_tenant c)) user)))) (\<lambda>items.
     ret (Json 200 (TransferItems items))))"

section \<open>Frame conditions\<close>

lemma subject_query_row_Inr:
  "subject_param c (\<lambda>u. query_row (f u)) d = Inr (x, d') \<longleftrightarrow> (\<exists>u. c_subject c = Some u \<and> f u d = Some x \<and> d' = d)"
  by (auto simp: subject_param_Inr)

lemma insert_transfer_Inr:
  "insert_transfer s r d = Inr (x, d') \<longleftrightarrow>
     x = r \<and> sees s (vt_tenant r) \<and> (\<forall>old\<in>set (transfers d). \<not> transfer_clash old r)
     \<and> (\<exists>v\<in>set (vehicles d). v_id v = vt_vehicle_id r) \<and> (\<exists>own\<in>set (owners d). o_id own = vt_from_owner r)
     \<and> d' = d\<lparr>transfers := transfers d @ [r]\<rparr>"
  by (auto simp: insert_transfer_def insert_row_def list_ex_iff)

lemma tx_try_codes: "keeps same_tx (try_codes ins is)"
  by (induction "is") (auto intro!: tx_steps tx_in_savepoint)

lemma tx_start_tx: "keeps same_tx (start_tx s sur rnd c vid contact)"
  unfolding start_tx_def by (intro tx_steps tx_try_codes)

lemma rd_find_offer: "keeps same_db (find_offer s c code)"
  unfolding find_offer_def by (intro rd_steps frame_intros)

lemma tx_move_title: "keeps same_tx (move_title s sur ctx c buyer t)"
  unfolding move_title_def by (intro db_tx_steps)

lemma sw_try_codes: "stops_with refusal (try_codes ins is)"
  by (induction "is") (auto intro!: sw_steps)

lemma sw_startTransfer: "stops_with refusal (startTransfer a sur rnd c veh body)"
  unfolding startTransfer_def start_tx_def
  by (intro db_sw_steps sw_try_codes) (simp_all add: refusal_no_rows)

lemma sw_retire: "refusal answer \<Longrightarrow> stops_with refusal (retire s tid st answer)"
  unfolding retire_def by (intro sw_steps) (auto simp: stops_with_def attempt_def split: prod.splits)

lemma sw_acceptTransfer: "stops_with refusal (acceptTransfer a sur ctx c body)"
  unfolding acceptTransfer_def accept_tx_def find_offer_def move_title_def
  by (intro db_sw_steps sw_retire) (simp_all add: refusal_no_rows)

lemma at_startTransfer: "atomic (startTransfer a sur rnd c veh body)"
  unfolding startTransfer_def
  by (intro at_option at_stop at_bind at_andthen db_rd_steps at_last at_in_tx tx_start_tx sw_steps sw_audit_Emit)

section \<open>Accepting\<close>

lemma retire_outcome:
  assumes run: "retire s tid st answer w = (res, w')" and snap: "w_snap w = Some d" "w_db w = d"
  shows "res = Inl answer \<and> w_snap w' = None \<and> (w_db w' = d \<or> w_db w' = set_transfer s tid (\<lambda>r. r\<lparr>vt_status := st\<rparr>) d)"
proof -
  let ?upd = "exec_try (change (set_transfer s tid (\<lambda>r. r\<lparr>vt_status := st\<rparr>))) :: (registry_body, sqlerr + unit) handler"
  obtain r1 w1 where step: "?upd w = (r1, w1)" by fastforce
  from exec_try_quiet [OF step] snap have s1: "w_snap w1 = Some d" by simp
  from step have "w_db w1 = d \<or> w_db w1 = set_transfer s tid (\<lambda>r. r\<lparr>vt_status := st\<rparr>) d" and "\<exists>x. r1 = Inr x"
    by (cases rule: exec_try_cases; use snap in auto)+
  with run step s1 show ?thesis
    by (auto simp: retire_def bind_def attempt_def stop_def tx_commit_def Let_def rolled_back_def split: prod.splits if_splits)
qed

lemma vehicle_seen_given:
  "vehicle_seen s vid d = Some v \<Longrightarrow> vehicle_seen s vid (update_vehicle s vid (give_vehicle now own) d) = Some (give_vehicle now own v)"
proof -
  have "find (\<lambda>r. sees s (v_tenant r) \<and> v_id r = vid) rows = Some v \<Longrightarrow>
    find (\<lambda>r. sees s (v_tenant r) \<and> v_id r = vid)
      (map (\<lambda>r. if sees s (v_tenant r) \<and> v_id r = vid then give_vehicle now own r else r) rows) = Some (give_vehicle now own v)" for rows
    by (induction rows) (auto simp: give_vehicle_def)
  then show "vehicle_seen s vid d = Some v \<Longrightarrow> ?thesis"
    by (simp add: vehicle_seen_def row_seen_def update_vehicle_def update_rows_def)
qed

lemma set_transfer_fields [simp]:
  "vehicles (set_transfer s tid f d) = vehicles d" "outbox (set_transfer s tid f d) = outbox d"
  "owners (set_transfer s tid f d) = owners d" "transfers (update_vehicle s vid g d) = transfers d"
  "outbox (update_vehicle s vid g d) = outbox d" "owners (update_vehicle s vid g d) = owners d"
  by (simp_all add: set_transfer_def update_vehicle_def)

lemma move_title_run:
  assumes "move_title s sur ctx c buyer t w = (Inr u, w')" and snap: "w_snap w = Some d0"
    and v: "vehicle_seen s (vt_vehicle_id t) (w_db w) = Some v"
  obtains n where "w_db w' = (set_transfer s (vt_id t) (accept_row (db_now sur) (o_id buyer))
        (update_vehicle s (vt_vehicle_id t) (give_vehicle (db_now sur) (o_id buyer)) (w_db w)))
        \<lparr>outbox := outbox (w_db w) @ [outbox_row_of sur n (transferred_event sur ctx c (v_plate v) buyer t)]\<rparr>"
proof -
  from assms(1) obtain w1 w2 w3 res u1 u2 where
    give: "(exec (update_vehicle_fk s (vt_vehicle_id t) (Some (o_id buyer)) (give_vehicle (db_now sur) (o_id buyer))) :: (registry_body, unit) handler) w = (Inr u1, w1)" and
    mark: "(exec (change (set_transfer s (vt_id t) (accept_row (db_now sur) (o_id buyer)))) :: (registry_body, unit) handler) w1 = (Inr u2, w2)" and
    look: "(exec_try (query_row (vehicle_seen s (vt_vehicle_id t))) :: (registry_body, sqlerr + vehicle_row) handler) w2 = (Inr res, w3)" and
    out: "WriteOutbox (Internal :: registry_body response) s sur
           (transferred_event sur ctx c (case res of Inr v \<Rightarrow> v_plate v | Inl _ \<Rightarrow> []) buyer t) w3 = (Inr u, w')"
    unfolding move_title_def Let_def by (elim bindE andthenE) (rule that)
  from exec_db [OF give] have db1: "w_db w1 = update_vehicle s (vt_vehicle_id t) (give_vehicle (db_now sur) (o_id buyer)) (w_db w)"
    by (simp add: update_vehicle_fk_def split: if_splits)
  from exec_change_db [OF mark] have db2: "w_db w2 = set_transfer s (vt_id t) (accept_row (db_now sur) (o_id buyer)) (w_db w1)" .
  have snap2: "w_snap w2 \<noteq> None"
    using keepsD [OF tx_exec_or give] keepsD [OF tx_exec_or mark] snap by (simp add: same_tx_def)
  have seen2: "vehicle_seen s (vt_vehicle_id t) (w_db w2) = Some (give_vehicle (db_now sur) (o_id buyer) v)"
    using vehicle_seen_given [OF v, of "db_now sur" "o_id buyer"] by (simp add: db2 db1 vehicle_seen_def)
  from out have alive: "\<not> w_aborted w3" by (rule WriteOutboxE)
  from look have "res = Inr (give_vehicle (db_now sur) (o_id buyer) v) \<and> w_db w3 = w_db w2"
    by (cases rule: exec_try_cases) (use seen2 snap2 alive in \<open>auto simp: query_row_def\<close>)
  with out obtain n where
    "w_db w' = (w_db w2)\<lparr>outbox := outbox (w_db w2) @ [outbox_row_of sur n (transferred_event sur ctx c (v_plate v) buyer t)]\<rparr>"
    by (elim WriteOutbox_db) (simp add: that give_vehicle_def)
  then show thesis by (intro that) (simp add: db2 db1)
qed

lemma find_offer_run:
  assumes "find_offer s c code w = (Inr (buyer, t), w')"
  shows "(\<exists>user. c_subject c = Some user \<and> owner_of_user s user (w_db w) = Some buyer)
    \<and> pending_with_code s code (w_db w) = Some t \<and> w_db w' = w_db w \<and> w_snap w' = w_snap w"
proof -
  from assms obtain x y w1 w2 where
    own: "exec_or (no_rows_or (Err 412 ''owner_required'') (Internal :: registry_body response))
             (subject_param c (\<lambda>user. query_row (owner_of_user s user))) w = (Inr x, w1)" and
    tr: "exec_or (no_rows_or (write_err ErrNotFound) (Internal :: registry_body response)) (query_row (pending_with_code s code)) w1 = (Inr y, w2)" and
    same: "(x, y) = (buyer, t)" "w' = w2"
    unfolding find_offer_def by (elim bindE) auto
  from keepsD [OF rd_find_offer assms] exec_db [OF own] exec_query_row_db [OF tr] same show ?thesis
    by (auto simp: subject_query_row_Inr same_db_def)
qed

definition offer_of :: "session \<Rightarrow> claims \<Rightarrow> string \<Rightarrow> db \<Rightarrow> owner_row \<Rightarrow> transfer_row \<Rightarrow> bool" where
  "offer_of s c code d buyer t \<longleftrightarrow>
     (\<exists>user. c_subject c = Some user \<and> owner_of_user s user d = Some buyer) \<and> pending_with_code s code d = Some t"

definition retired :: "session \<Rightarrow> time \<Rightarrow> transfer_row \<Rightarrow> db \<Rightarrow> registry_body response \<Rightarrow> db \<Rightarrow> bool" where
  "retired s now t d r d' \<longleftrightarrow>
     (now > vt_expires_at t \<and> r = Err 410 ''expired'' \<and> d' = set_transfer s (vt_id t) (\<lambda>r. r\<lparr>vt_status := TExpired\<rparr>) d)
     \<or> ((\<exists>v. vehicle_seen s (vt_vehicle_id t) d = Some v \<and> flagged v)
         \<and> r = Err 409 ''not_transferable'' \<and> d' = set_transfer s (vt_id t) (\<lambda>r. r\<lparr>vt_status := TCancelled\<rparr>) d)"

lemma bind_outcome:
  assumes "bind m f w = (res, w')"
  obtains (stopped) r where "m w = (Inl r, w')" "res = Inl r" | (went_on) x w1 where "m w = (Inr x, w1)" "f x w1 = (res, w')"
  using assms by (auto simp: bind_def split: prod.splits sum.splits)

lemma guard_bind:
  "andthen (guard ok r) m w = (if ok then m w else (Inl r, w))"
  by (simp add: andthen_def bind_def guard_def ret_def stop_def)

lemma accept_tx_outcome:
  assumes run: "accept_tx s sur ctx c code w = (res, w')" and snap: "w_snap w = Some d" "w_db w = d"
  obtains (moved) buyer t v n where "res = Inr t" "offer_of s c code d buyer t" "go_now sur \<le> vt_expires_at t"
      "o_id buyer \<noteq> vt_from_owner t" "vehicle_seen s (vt_vehicle_id t) d = Some v" "\<not> flagged v" "w_snap w' = Some d"
      "w_db w' = (set_transfer s (vt_id t) (accept_row (db_now sur) (o_id buyer))
          (update_vehicle s (vt_vehicle_id t) (give_vehicle (db_now sur) (o_id buyer)) d))
          \<lparr>outbox := outbox d @ [outbox_row_of sur n (transferred_event sur ctx c (v_plate v) buyer t)]\<rparr>"
  | (gone) r buyer t where "res = Inl r" "w_snap w' = None" "offer_of s c code d buyer t"
      "w_db w' = d \<or> retired s (go_now sur) t d r (w_db w')"
  | (refused) r where "res = Inl r" "w_snap w' = Some d"
  using run unfolding accept_tx_def
proof (cases rule: bind_outcome)
  case (stopped r)
  with keepsD [OF rd_find_offer stopped(1)] snap show ?thesis by (intro refused) (simp_all add: same_db_def)
next
  case (went_on bt w1)
  obtain buyer t where bt: "bt = (buyer, t)" by fastforce
  from find_offer_run [OF went_on(1) [unfolded bt]] snap have offer: "offer_of s c code d buyer t"
    and w1: "w_db w1 = d" "w_snap w1 = Some d" by (auto simp: offer_of_def)
  note rest = went_on(2) [unfolded bt prod.case]
  show ?thesis
  proof (cases "go_now sur > vt_expires_at t")
    case True
    from rest True have "retire s (vt_id t) TExpired (Err 410 ''expired'') w1 = (res, w')" by simp
    from retire_outcome [OF this w1(2,1)] True offer show ?thesis
      by (intro gone [of "Err 410 ''expired''" buyer t]) (auto simp: retired_def)
  next
    case live: False
    show ?thesis
    proof (cases "o_id buyer = vt_from_owner t")
      case True
      with rest live w1 show ?thesis by (intro refused) (auto simp: guard_bind)
    next
      case other: False
      from rest live other have "bind (exec (query_row (vehicle_seen s (vt_vehicle_id t)))) (\<lambda>v.
         if flagged v then retire s (vt_id t) TCancelled (Err 409 ''not_transferable'')
         else andthen (move_title s sur ctx c buyer t) (ret t)) w1 = (res, w')" by (simp add: guard_bind)
      then show ?thesis
      proof (cases rule: bind_outcome)
        case (stopped r)
        from keepsD [OF tx_exec_or stopped(1)] stopped(2) w1 show ?thesis by (intro refused) (simp_all add: same_tx_def)
      next
        case (went_on v w2)
        from exec_query_row_db [OF went_on(1)] keepsD [OF tx_exec_or went_on(1)] w1
        have v: "vehicle_seen s (vt_vehicle_id t) d = Some v" and w2: "w_db w2 = d" "w_snap w2 = Some d"
          by (simp_all add: same_tx_def)
        show ?thesis
        proof (cases "flagged v")
          case True
          with went_on(2) have "retire s (vt_id t) TCancelled (Err 409 ''not_transferable'') w2 = (res, w')" by simp
          from retire_outcome [OF this w2(2,1)] True offer v show ?thesis
            by (intro gone [of "Err 409 ''not_transferable''" buyer t]) (auto simp: retired_def)
        next
          case False
          with went_on(2) have tail: "andthen (move_title s sur ctx c buyer t) (ret t) w2 = (res, w')" by simp
          have "keeps same_tx (andthen (move_title s sur ctx c buyer t) (ret t))"
            by (intro tx_steps tx_move_title)
          from keepsD [OF this tail] w2 have snap': "w_snap w' = Some d" by (simp add: same_tx_def)
          show ?thesis
          proof (cases res)
            case (Inl r)
            with snap' show ?thesis by (intro refused) simp_all
          next
            case (Inr y)
            from tail [unfolded Inr] obtain u where mv: "move_title s sur ctx c buyer t w2 = (Inr u, w')" and y: "y = t"
              by (elim andthenE) simp
            from mv w2(2) v [folded w2(1)] obtain n where "w_db w' = (set_transfer s (vt_id t) (accept_row (db_now sur) (o_id buyer))
                (update_vehicle s (vt_vehicle_id t) (give_vehicle (db_now sur) (o_id buyer)) d))
                \<lparr>outbox := outbox d @ [outbox_row_of sur n (transferred_event sur ctx c (v_plate v) buyer t)]\<rparr>"
              by (rule move_title_run) (simp_all add: w2)
            with Inr y offer live other v False snap' show ?thesis by (intro moved [of t buyer v n]) simp_all
          qed
        qed
      qed
    qed
  qed
qed

lemma accept_in_tx_outcome:
  assumes run: "in_tx Internal (accept_tx s sur ctx c code) w = (res, w')" and idle: "w_snap w = None"
  obtains (moved) buyer t v n where "res = Inr t" "offer_of s c code (w_db w) buyer t" "go_now sur \<le> vt_expires_at t"
      "o_id buyer \<noteq> vt_from_owner t" "vehicle_seen s (vt_vehicle_id t) (w_db w) = Some v" "\<not> flagged v" "w_snap w' = None"
      "w_db w' = (set_transfer s (vt_id t) (accept_row (db_now sur) (o_id buyer))
          (update_vehicle s (vt_vehicle_id t) (give_vehicle (db_now sur) (o_id buyer)) (w_db w)))
          \<lparr>outbox := outbox (w_db w) @ [outbox_row_of sur n (transferred_event sur ctx c (v_plate v) buyer t)]\<rparr>"
  | (gone) r buyer t where "res = Inl r" "w_snap w' = None" "offer_of s c code (w_db w) buyer t"
      "w_db w' = w_db w \<or> retired s (go_now sur) t (w_db w) r (w_db w')"
  | (refused) r where "res = Inl r" "w_snap w' = None" "w_db w' = w_db w"
proof -
  let ?body = "accept_tx s sur ctx c code"
  let ?w0 = "w\<lparr>w_faults := tl (w_faults w)\<rparr>"
  let ?w1 = "?w0\<lparr>w_snap := Some (w_db w), w_save := None, w_aborted := False\<rparr>"
  show thesis
  proof (cases "w_faults w \<noteq> [] \<and> hd (w_faults w)")
    case True
    with run idle show thesis
      by (intro refused) (auto simp: in_tx_def defer_rollback_def andthen_def bind_def tx_begin_def Let_def rolled_back_def)
  next
    case False
    then have begun: "tx_begin (Internal :: registry_body response) w = (Inr (), ?w1)" by (auto simp: tx_begin_def Let_def)
    obtain bres w2 where body: "?body ?w1 = (bres, w2)" by fastforce
    have snap1: "w_snap ?w1 = Some (w_db w)" "w_db ?w1 = w_db w" by simp_all
    from body snap1 show thesis
    proof (cases rule: accept_tx_outcome)
      case (moved buyer t v n)
      show thesis
      proof (cases "w_aborted w2 \<or> (w_faults w2 \<noteq> [] \<and> hd (w_faults w2))")
        case True
        with run begun body moved show thesis
          by (intro refused) (auto simp: in_tx_def defer_rollback_def andthen_def bind_def tx_commit_def Let_def rolled_back_def)
      next
        case False
        with run begun body moved show thesis
          by (intro that(1) [of t buyer v n]) (auto simp: in_tx_def defer_rollback_def andthen_def bind_def tx_commit_def Let_def rolled_back_def ret_def)
      qed
    next
      case (gone r buyer t)
      with run begun body show thesis
        by (intro that(2) [of r buyer t]) (auto simp: in_tx_def defer_rollback_def andthen_def bind_def rolled_back_def)
    next
      case (refused r)
      with run begun body show thesis
        by (intro that(3) [of r]) (auto simp: in_tx_def defer_rollback_def andthen_def bind_def rolled_back_def)
    qed
  qed
qed

lemma accept_answers:
  fixes w w' :: dbworld
  assumes run: "finish (acceptTransfer a sur ctx c body) w = (r, w')" and idle: "w_snap w = None"
  defines "s \<equiv> session_of (ra_pool a) (c_tenant c)"
  obtains (moved) raw buyer t v n where "body = Some raw" "r = Json 200 (TransferAccepted (vt_vehicle_id t))"
      "offer_of s c (ToUpper (TrimSpace raw)) (w_db w) buyer t" "go_now sur \<le> vt_expires_at t"
      "o_id buyer \<noteq> vt_from_owner t" "vehicle_seen s (vt_vehicle_id t) (w_db w) = Some v" "\<not> flagged v"
      "w_db w' = (set_transfer s (vt_id t) (accept_row (db_now sur) (o_id buyer))
          (update_vehicle s (vt_vehicle_id t) (give_vehicle (db_now sur) (o_id buyer)) (w_db w)))
          \<lparr>outbox := outbox (w_db w) @ [outbox_row_of sur n (transferred_event sur ctx c (v_plate v) buyer t)]\<rparr>"
  | (gone) raw buyer t where "body = Some raw" "refusal r"
      "offer_of s c (ToUpper (TrimSpace raw)) (w_db w) buyer t" "retired s (go_now sur) t (w_db w) r (w_db w')"
  | (refused) "refusal r" "w_db w' = w_db w"
proof -
  from run obtain res where run: "acceptTransfer a sur ctx c body w = (res, w')" and r: "res = Inr r \<or> res = Inl r"
    by (auto simp: finish_def split: prod.splits sum.splits)
  have sw: "refusal e" if "res = Inl e" for e
    using stops_withD [OF sw_acceptTransfer] run that by blast
  show thesis
  proof (cases body)
    case None
    with run r show thesis
      by (intro refused) (auto simp: acceptTransfer_def read_json_def bind_def stop_def)
  next
    case (Some raw)
    let ?code = "ToUpper (TrimSpace raw)"
    let ?pre = "andthen (guard (?code \<noteq> []) (Err 400 ''missing'' :: registry_body response)) (WithTenant (Some c))"
    let ?tx = "in_tx (Internal :: registry_body response) (accept_tx s sur ctx c ?code)"
    have eq: "acceptTransfer a sur ctx c body w = bind ?pre (\<lambda>_. bind ?tx (\<lambda>t.
       andthen (audit_Emit (ra_audit a) ''registry'' (Some c) ''vehicle.transfer.accept'' ''vehicle'' (vt_vehicle_id t)) (
       ret (Json 200 (TransferAccepted (vt_vehicle_id t)))))) w"
      by (simp add: acceptTransfer_def Some read_json_def Let_def s_def andthen_def bind_def ret_def guard_def stop_def split: prod.split sum.split)
    from run [unfolded eq] show thesis
    proof (cases rule: bind_outcome)
      case (stopped e)
      have "keeps same_db ?pre" by (intro rd_steps rd_WithTenant)
      from keepsD [OF this stopped(1)] sw [OF stopped(2)] stopped(2) r show thesis
        by (intro refused) (auto simp: same_db_def)
    next
      case (went_on x w1)
      have "keeps same_db ?pre" by (intro rd_steps rd_WithTenant)
      from keepsD [OF this went_on(1)] idle have w1: "w_db w1 = w_db w" "w_snap w1 = None" by (simp_all add: same_db_def)
      obtain res2 w2 where tx: "?tx w1 = (res2, w2)" by fastforce
      from tx w1(2) show thesis
      proof (cases rule: accept_in_tx_outcome)
        case (moved buyer t v n)
        from went_on(2) tx moved(1) have "res = Inr (Json 200 (TransferAccepted (vt_vehicle_id t)))" and "w_db w' = w_db w2"
          by (auto simp: bind_def andthen_def audit_Emit_def emit_def ret_def split: if_splits)
        with moved r w1 Some show thesis by (intro that(1) [of raw t buyer v n]) auto
      next
        case (gone e buyer t)
        from went_on(2) tx gone(1) have "res = Inl e" and "w' = w2" by (auto simp: bind_def)
        with gone(3,4) w1 r sw Some show thesis
          by (cases "w_db w2 = w_db w") (auto intro: that(2,3))
      next
        case (refused e)
        from went_on(2) tx refused(1) have "res = Inl e" and "w' = w2" by (auto simp: bind_def)
        with refused w1 r sw show thesis by (intro that(3)) auto
      qed
    qed
  qed
qed

section \<open>Starting\<close>

lemma try_codes_run:
  assumes "try_codes ins is w = (Inr r, w')"
  obtains i where "i \<in> set is" "ins i (w_db w) = Inr (r, w_db w')"
proof -
  have "\<exists>i\<in>set is. ins i (w_db w) = Inr (r, w_db w')"
    using assms
  proof (induction "is" arbitrary: w)
    case (Cons i "is")
    from Cons.prems obtain res w1 where sp: "in_savepoint (Internal :: registry_body response) (ins i) w = (Inr res, w1)" and
      rest: "(case res of Inr r \<Rightarrow> ret r | Inl e \<Rightarrow> if \<not> isUniqueViolation e then stop Internal else try_codes ins is) w1 = (Inr r, w')"
      by (auto elim: bindE)
    from sp show ?case
    proof (cases rule: in_savepoint_outcome)
      case (ok x)
      with rest show ?thesis by auto
    next
      case (failed e)
      with rest Cons.IH [of w1] show ?thesis by (auto split: if_splits)
    qed simp
  qed simp
  with that show thesis by blast
qed

lemma start_tx_run:
  assumes "start_tx s sur rnd c vid contact w = (Inr r, w')"
  obtains user oid v i where "c_subject c = Some user" "owned_vehicle s vid user (w_db w) = Some (oid, v)" "\<not> flagged v"
    "open_transfer s (c_tenant c) vid (w_db w) = None"
    "r = transfer_row_of sur (new_uuid sur i) (c_tenant c) vid oid contact (randomCode (rnd i))"
    "insert_transfer s r (w_db w) = Inr (r, w_db w')"
proof -
  from assms obtain oid v w1 w2 existing where
    own: "exec_or (no_rows_or (write_err ErrForbidden) (Internal :: registry_body response))
             (subject_param c (\<lambda>user. query_row (owned_vehicle s vid user))) w = (Inr (oid, v), w1)" and
    flag: "\<not> flagged v" and
    old: "(exec (query (open_transfer s (c_tenant c) vid)) :: (registry_body, transfer_row option) handler) w1 = (Inr existing, w2)" and
    none: "existing = None" and
    tries: "try_codes (\<lambda>i. insert_transfer s (transfer_row_of sur (new_uuid sur i) (c_tenant c) vid oid contact (randomCode (rnd i))))
       [0..<transferCodeRetries] w2 = (Inr r, w')"
    unfolding start_tx_def by (elim bindE andthenE) (auto split: prod.splits elim!: andthenE bindE)
  from exec_db [OF own] exec_query_db [OF old] none obtain user where
    "c_subject c = Some user" "owned_vehicle s vid user (w_db w) = Some (oid, v)" "w_db w2 = w_db w"
    "open_transfer s (c_tenant c) vid (w_db w) = None"
    by (auto simp: subject_query_row_Inr)
  moreover from tries obtain i where "insert_transfer s (transfer_row_of sur (new_uuid sur i) (c_tenant c) vid oid contact (randomCode (rnd i))) (w_db w2) = Inr (r, w_db w')"
    by (rule try_codes_run)
  ultimately show thesis using flag that by (simp add: insert_transfer_Inr) 
qed

lemma start_run:
  assumes "startTransfer a sur rnd c veh body w = (Inr r, w')" and "w_snap w = None"
  obtains vid contact t w1 w2 where "start_tx (session_of (ra_pool a) (c_tenant c)) sur rnd c vid contact w1 = (Inr t, w2)"
    "veh = Some vid" "body = Some contact" "TrimSpace contact \<noteq> []" "w_db w1 = w_db w" "w_db w' = w_db w2"
    "r = Json 201 (TransferStarted (vt_id t) (vt_code t) (vt_expires_at t))"
  using assms unfolding startTransfer_def
  by (cases veh; simp)
    (elim bindE andthenE WithTenantE audit_EmitE, elim in_txE [OF _ _ tx_start_tx],
      simp, rule that, assumption, simp_all)

section \<open>The life of a transfer\<close>

text \<open>
  The two unique indexes as an invariant of the table, and what may happen to a row: nothing,
  or one step from pending to a terminal status.
\<close>

definition pending :: "transfer_row \<Rightarrow> bool" where
  "pending x \<longleftrightarrow> vt_status x = TPending"

definition transfers_sound :: "transfer_row list \<Rightarrow> bool" where
  "transfers_sound rows \<longleftrightarrow> distinct (map vt_id rows)
     \<and> (\<forall>x\<in>set rows. \<forall>y\<in>set rows. pending x \<and> pending y \<and> vt_tenant x = vt_tenant y
          \<and> (vt_vehicle_id x = vt_vehicle_id y \<or> vt_code x = vt_code y) \<longrightarrow> x = y)"

definition same_offer :: "transfer_row \<Rightarrow> transfer_row \<Rightarrow> bool" where
  "same_offer x y \<longleftrightarrow> vt_id y = vt_id x \<and> vt_tenant y = vt_tenant x \<and> vt_vehicle_id y = vt_vehicle_id x
     \<and> vt_from_owner y = vt_from_owner x \<and> vt_to_contact y = vt_to_contact x \<and> vt_code y = vt_code x
     \<and> vt_created_at y = vt_created_at x \<and> vt_expires_at y = vt_expires_at x"

definition advances :: "transfer_row \<Rightarrow> transfer_row \<Rightarrow> bool" where
  "advances x y \<longleftrightarrow> y = x \<or> (pending x \<and> \<not> pending y \<and> same_offer x y)"

definition lifecycle :: "transfer_row list \<Rightarrow> transfer_row list \<Rightarrow> bool" where
  "lifecycle rows rows' \<longleftrightarrow> (\<exists>old added. rows' = old @ added \<and> list_all2 advances rows old)"

lemma advances_refl: "advances x x"
  by (simp add: advances_def)

lemma advances_trans: "advances x y \<Longrightarrow> advances y z \<Longrightarrow> advances x z"
  by (auto simp: advances_def same_offer_def)

lemma lifecycle_refl: "lifecycle rows rows"
  unfolding lifecycle_def by (intro exI [of _ rows] exI [of _ "[]"]) (simp add: list_all2_refl advances_refl)

lemma lifecycle_added: "lifecycle rows (rows @ added)"
  unfolding lifecycle_def by (intro exI [of _ rows] exI [of _ added]) (simp add: list_all2_refl advances_refl)

lemma lifecycle_trans:
  assumes "lifecycle xs ys" and "lifecycle ys zs"
  shows "lifecycle xs zs"
proof -
  from assms(1) obtain old added where ys: "ys = old @ added" "list_all2 advances xs old"
    unfolding lifecycle_def by blast
  from assms(2) obtain old' added' where zs: "zs = old' @ added'" "list_all2 advances (old @ added) old'"
    unfolding lifecycle_def ys by blast
  from zs(2) obtain o1 o2 where o: "old' = o1 @ o2" "list_all2 advances old o1" by (auto simp: list_all2_append1)
  from list_all2_trans [OF advances_trans ys(2) o(2)] have "list_all2 advances xs o1" .
  then show ?thesis unfolding lifecycle_def by (intro exI [of _ o1] exI [of _ "o2 @ added'"]) (simp add: zs o)
qed

text \<open>Closing pending rows, whichever and however, keeps both; the indexes do not mind which rows are closed.\<close>

lemma close_rows_sound:
  assumes sound: "transfers_sound rows"
    and closes: "\<And>x. \<not> pending (f x) \<and> same_offer x (f x)"
  shows "transfers_sound (update_rows vt_tenant s P f rows)"
proof -
  let ?upd = "\<lambda>x. if sees s (vt_tenant x) \<and> P x then f x else x"
  have upd: "update_rows vt_tenant s P f rows = map ?upd rows" by (simp add: update_rows_def)
  have ids: "map vt_id (map ?upd rows) = map vt_id rows" using closes by (simp add: same_offer_def)
  have unchanged: "x \<in> set rows" if "x \<in> set (map ?upd rows)" "pending x" for x
    using that closes by (auto split: if_splits)
  show ?thesis
    unfolding transfers_sound_def upd ids using sound unchanged unfolding transfers_sound_def by blast
qed

lemma close_rows:
  assumes sound: "transfers_sound rows"
    and open_only: "\<And>x. x \<in> set rows \<Longrightarrow> P x \<Longrightarrow> pending x"
    and closes: "\<And>x. \<not> pending (f x) \<and> same_offer x (f x)"
  shows "transfers_sound (update_rows vt_tenant s P f rows) \<and> lifecycle rows (update_rows vt_tenant s P f rows)"
proof
  show "transfers_sound (update_rows vt_tenant s P f rows)"
    by (rule close_rows_sound [OF sound closes])
  have "list_all2 advances rows (update_rows vt_tenant s P f rows)"
    unfolding update_rows_def list_all2_map2 list_all2_same using open_only closes by (auto simp: advances_def)
  then show "lifecycle rows (update_rows vt_tenant s P f rows)"
    unfolding lifecycle_def by (intro exI [of _ "update_rows vt_tenant s P f rows"] exI [of _ "[]"]) simp
qed

lemma close_one:
  assumes sound: "transfers_sound (transfers d)" and t: "t \<in> set (transfers d)" "pending t"
    and closes: "\<And>x. \<not> pending (f x) \<and> same_offer x (f x)"
  shows "transfers_sound (transfers (set_transfer s (vt_id t) f d)) \<and> lifecycle (transfers d) (transfers (set_transfer s (vt_id t) f d))"
proof -
  from sound have "distinct (map vt_id (transfers d))" by (simp add: transfers_sound_def)
  with t have "\<And>x. x \<in> set (transfers d) \<Longrightarrow> vt_id x = vt_id t \<Longrightarrow> pending x" by (metis distinct_map inj_onD)
  from close_rows [OF sound this closes] show ?thesis by (simp add: set_transfer_def)
qed

lemma insert_transfer_sound:
  assumes "transfers_sound (transfers d)" and "insert_transfer s r d = Inr (x, d')"
  shows "transfers_sound (transfers d') \<and> lifecycle (transfers d) (transfers d')"
  using assms by (auto simp: insert_transfer_Inr transfers_sound_def transfer_clash_def pending_def lifecycle_added)

lemma cancel_rows_sound:
  assumes "transfers_sound (transfers d)" and "cancel_rows s tid user d = Inr (n, d')"
  shows "transfers_sound (transfers d') \<and> lifecycle (transfers d) (transfers d')"
proof -
  from assms(2) have d': "d' = d\<lparr>transfers := update_rows vt_tenant s (cancellable s tid user d) (\<lambda>r. r\<lparr>vt_status := TCancelled\<rparr>) (transfers d)\<rparr>"
    by (simp add: cancel_rows_def)
  have "transfers_sound (update_rows vt_tenant s (cancellable s tid user d) (\<lambda>r. r\<lparr>vt_status := TCancelled\<rparr>) (transfers d))
      \<and> lifecycle (transfers d) (update_rows vt_tenant s (cancellable s tid user d) (\<lambda>r. r\<lparr>vt_status := TCancelled\<rparr>) (transfers d))"
    by (rule close_rows [OF assms(1)]) (auto simp: cancellable_def pending_def same_offer_def)
  then show ?thesis by (simp add: d')
qed

lemma accept_sound:
  assumes "finish (acceptTransfer a sur ctx c body) w = (r, w')" and "w_snap w = None" and sound: "transfers_sound (transfers (w_db w))"
  shows "transfers_sound (transfers (w_db w')) \<and> lifecycle (transfers (w_db w)) (transfers (w_db w'))"
  using assms(1,2)
proof (cases rule: accept_answers)
  case (moved raw buyer t v n)
  then have t: "t \<in> set (transfers (w_db w))" "pending t"
    by (auto simp: offer_of_def pending_with_code_def pending_def dest!: row_seen_SomeD)
  have "transfers (w_db w') = transfers (set_transfer (session_of (ra_pool a) (c_tenant c)) (vt_id t) (accept_row (db_now sur) (o_id buyer)) (w_db w))"
    using moved by (simp add: set_transfer_def)
  with close_one [OF sound t, of "accept_row (db_now sur) (o_id buyer)"] show ?thesis
    by (simp add: accept_row_def pending_def same_offer_def)
next
  case (gone raw buyer t)
  then have t: "t \<in> set (transfers (w_db w))" "pending t"
    by (auto simp: offer_of_def pending_with_code_def pending_def dest!: row_seen_SomeD)
  from gone(4) obtain st where "st \<noteq> TPending" and
    "w_db w' = set_transfer (session_of (ra_pool a) (c_tenant c)) (vt_id t) (\<lambda>r. r\<lparr>vt_status := st\<rparr>) (w_db w)"
    by (auto simp: retired_def)
  with close_one [OF sound t, of "\<lambda>r. r\<lparr>vt_status := st\<rparr>"] show ?thesis
    by (simp add: pending_def same_offer_def)
next
  case refused
  with sound show ?thesis by (simp add: lifecycle_refl)
qed

section \<open>Properties\<close>

text \<open>C16
  A title moves only by a live offer for a clean vehicle: an answer 200 to the buyer means the
  buyer has an owner profile, the code (trimmed, in capitals) is that of a pending transfer the
  session sees, which has not expired and was not made by the buyer, and the vehicle carries no
  flag. The whole effect is that the vehicle belongs to the buyer, the transfer is accepted and
  one event naming seller, buyer and plate was written.
\<close>

theorem acceptTransfer_moves_title:
  assumes "finish (acceptTransfer a sur ctx c body) w = (r, w')" and "status_of r = 200" and "w_snap w = None"
  shows "\<exists>raw user buyer t v n. body = Some raw \<and> c_subject c = Some user
    \<and> owner_of_user (session_of (ra_pool a) (c_tenant c)) user (w_db w) = Some buyer
    \<and> pending_with_code (session_of (ra_pool a) (c_tenant c)) (ToUpper (TrimSpace raw)) (w_db w) = Some t
    \<and> go_now sur \<le> vt_expires_at t \<and> o_id buyer \<noteq> vt_from_owner t
    \<and> vehicle_seen (session_of (ra_pool a) (c_tenant c)) (vt_vehicle_id t) (w_db w) = Some v \<and> \<not> flagged v
    \<and> r = Json 200 (TransferAccepted (vt_vehicle_id t))
    \<and> w_db w' = (w_db w)\<lparr>
        vehicles := update_rows v_tenant (session_of (ra_pool a) (c_tenant c)) (\<lambda>x. v_id x = vt_vehicle_id t)
          (\<lambda>x. x\<lparr>v_owner_id := Some (o_id buyer), v_updated_at := db_now sur\<rparr>) (vehicles (w_db w)),
        transfers := update_rows vt_tenant (session_of (ra_pool a) (c_tenant c)) (\<lambda>x. vt_id x = vt_id t)
          (\<lambda>x. x\<lparr>vt_status := TAccepted, vt_to_owner := Some (o_id buyer), vt_accepted_at := Some (db_now sur)\<rparr>) (transfers (w_db w)),
        outbox := outbox (w_db w) @ [outbox_row_of sur n (transferred_event sur ctx c (v_plate v) buyer t)]\<rparr>"
  using assms(1,3)
proof (cases rule: accept_answers)
  case (moved raw buyer t v n)
  then show ?thesis
    unfolding offer_of_def set_transfer_def update_vehicle_def accept_row_def [abs_def] give_vehicle_def [abs_def] by auto
next
  case gone
  with assms(2) show ?thesis by (simp add: refusal_def)
next
  case refused
  with assms(2) show ?thesis by (simp add: refusal_def)
qed

definition reg_api :: registry_api where
  "reg_api = \<lparr>ra_pool = SubjectToRls, ra_audit = [], ra_rx = (\<lambda>pat. Some (\<lambda>plate. length plate \<ge> 2)), ra_strxfrm = map of_char\<rparr>"

definition reg_sur :: surroundings where
  "reg_sur = \<lparr>go_now = 1000, db_now = 1000, new_uuid = (\<lambda>k. 500 + k)\<rparr>"

definition reg_citizen :: "uuid \<Rightarrow> claims" where
  "reg_citizen u = \<lparr>c_tenant = ''cm'', c_role = ''citizen'', c_permissions = [''owners:self''], c_device = [],
     c_subject = Some u, c_issued_at = 0, c_expires_at = 0, c_jti = None\<rparr>"

definition reg_owner :: "uuid \<Rightarrow> uuid \<Rightarrow> owner_row" where
  "reg_owner i u = \<lparr>o_id = i, o_tenant = ''cm'', o_user_id = Some u, o_full_name = ''Ada'', o_national_id = None,
     o_email = None, o_phone = None, o_created_at = 0\<rparr>"

definition reg_vehicle :: vehicle_row where
  "reg_vehicle = vehicle_row_of reg_sur 7 ''cm'' \<lparr>vq_plate = ''AB12'', vq_vin = None, vq_make = None, vq_model = None, vq_year = None,
     vq_color = None, vq_category = None, vq_emission_class = None, vq_owner_id = Some 21, vq_registration_expires_at = None,
     vq_insurance_expires_at = None, vq_inspection_expires_at = None, vq_tax_paid_through = None\<rparr>"

definition reg_offer :: transfer_row where
  "reg_offer = transfer_row_of reg_sur 60 ''cm'' 7 21 ''bob'' ''ABCDEF''"

definition reg_db :: db where
  "reg_db = empty_db\<lparr>tenants := [(''cm'', [])], owners := [reg_owner 21 1, reg_owner 22 2], vehicles := [reg_vehicle]\<rparr>"

definition reg_ctx :: reqctx where
  "reg_ctx = \<lparr>ctx_claims = Some (reg_citizen 2), ctx_trace = []\<rparr>"

definition reg_offered :: dbworld where
  "reg_offered = world_of (reg_db\<lparr>transfers := [reg_offer]\<rparr>)"

definition reg_accepted :: "registry_body response \<times> dbworld" where
  "reg_accepted = finish (acceptTransfer reg_api reg_sur reg_ctx (reg_citizen 2) (Some '' abcdef '')) reg_offered"

lemma reg_accepted_status: "status_of (fst reg_accepted) = 200"
  by code_simp

theorem acceptTransfer_moves_title_witness:
  "\<exists>t v. pending_with_code (TenantSession ''cm'') ''ABCDEF'' (w_db reg_offered) = Some t
     \<and> vehicle_seen (TenantSession ''cm'') (vt_vehicle_id t) (w_db reg_offered) = Some v \<and> \<not> flagged v"
proof -
  have run: "finish (acceptTransfer reg_api reg_sur reg_ctx (reg_citizen 2) (Some '' abcdef '')) reg_offered = (fst reg_accepted, snd reg_accepted)"
    by (simp add: reg_accepted_def)
  have idle: "w_snap reg_offered = None" by (simp add: reg_offered_def world_of_def)
  have s: "session_of (ra_pool reg_api) (c_tenant (reg_citizen 2)) = TenantSession ''cm''"
    by (simp add: reg_api_def reg_citizen_def)
  have "ToUpper (TrimSpace '' abcdef '') = ''ABCDEF''" by code_simp
  with acceptTransfer_moves_title [OF run reg_accepted_status idle] show ?thesis
    unfolding s by auto
qed

text \<open>
  A refused buyer loses nothing and gains nothing: an answer of 400 and above leaves the
  database as it was, except that an expired code is retired with 410, and the code of a vehicle
  flagged since the offer with 409. Such an offer is gone, the vehicle stays with its owner.
\<close>

theorem acceptTransfer_refusals:
  assumes "finish (acceptTransfer a sur ctx c body) w = (r, w')" and "refusal r" and "w_snap w = None"
  shows "w_db w' = w_db w
    \<or> (\<exists>raw t st. body = Some raw
        \<and> pending_with_code (session_of (ra_pool a) (c_tenant c)) (ToUpper (TrimSpace raw)) (w_db w) = Some t
        \<and> (r = Err 410 ''expired'' \<and> st = TExpired \<and> go_now sur > vt_expires_at t
           \<or> r = Err 409 ''not_transferable'' \<and> st = TCancelled
             \<and> (\<exists>v. vehicle_seen (session_of (ra_pool a) (c_tenant c)) (vt_vehicle_id t) (w_db w) = Some v \<and> flagged v))
        \<and> w_db w' = (w_db w)\<lparr>transfers := update_rows vt_tenant (session_of (ra_pool a) (c_tenant c))
             (\<lambda>x. vt_id x = vt_id t) (\<lambda>x. x\<lparr>vt_status := st\<rparr>) (transfers (w_db w))\<rparr>)"
  using assms(1,3)
proof (cases rule: accept_answers)
  case (moved raw buyer t v n)
  with assms(2) show ?thesis by simp
next
  case (gone raw buyer t)
  then show ?thesis unfolding offer_of_def retired_def set_transfer_def by blast
next
  case refused
  then show ?thesis by simp
qed

definition reg_late :: surroundings where
  "reg_late = reg_sur\<lparr>go_now := days 8\<rparr>"

definition reg_expired :: "registry_body response \<times> dbworld" where
  "reg_expired = finish (acceptTransfer reg_api reg_late reg_ctx (reg_citizen 2) (Some ''ABCDEF'')) reg_offered"

theorem acceptTransfer_refusals_witness:
  "fst reg_expired = Err 410 ''expired'' \<and> vehicles (w_db (snd reg_expired)) = vehicles (w_db reg_offered)"
proof -
  have run: "finish (acceptTransfer reg_api reg_late reg_ctx (reg_citizen 2) (Some ''ABCDEF'')) reg_offered = (fst reg_expired, snd reg_expired)"
    by (simp add: reg_expired_def)
  have answer: "fst reg_expired = Err 410 ''expired''" by code_simp
  then have "refusal (fst reg_expired)" by simp
  moreover have "w_snap reg_offered = None" by (simp add: reg_offered_def world_of_def)
  ultimately have "vehicles (w_db (snd reg_expired)) = vehicles (w_db reg_offered)"
    using acceptTransfer_refusals [OF run] by auto
  with answer show ?thesis by simp
qed

lemma randomCode_shape:
  "length (randomCode buf) = 6 \<and> set (randomCode buf) \<subseteq> set transferCodeAlphabet"
proof
  show "length (randomCode buf) = 6" by (simp add: randomCode_def transferCodeLen_def)
  have "0 < length transferCodeAlphabet" by (simp add: transferCodeAlphabet_def)
  then have "transferCodeAlphabet ! (n mod length transferCodeAlphabet) \<in> set transferCodeAlphabet" for n
    by (intro nth_mem mod_less_divisor)
  then show "set (randomCode buf) \<subseteq> set transferCodeAlphabet" by (auto simp: randomCode_def)
qed

text \<open>
  Only the owner of a clean vehicle can offer it, once at a time: an answer 201 means the caller
  owns the vehicle through an owner row of the session, the vehicle carries no flag and had no
  pending transfer. The whole effect is one new pending row, valid for seven days, whose code is
  six letters of the alphabet that no other pending transfer of the tenant has.
\<close>

theorem startTransfer_offers:
  assumes "finish (startTransfer a sur rnd c veh body) w = (r, w')" and "status_of r = 201" and "w_snap w = None"
  shows "\<exists>vid contact user oid v t. veh = Some vid \<and> body = Some contact \<and> TrimSpace contact \<noteq> []
    \<and> c_subject c = Some user \<and> owned_vehicle (session_of (ra_pool a) (c_tenant c)) vid user (w_db w) = Some (oid, v)
    \<and> \<not> flagged v \<and> open_transfer (session_of (ra_pool a) (c_tenant c)) (c_tenant c) vid (w_db w) = None
    \<and> r = Json 201 (TransferStarted (vt_id t) (vt_code t) (db_now sur + days 7))
    \<and> vt_vehicle_id t = vid \<and> vt_from_owner t = oid \<and> vt_status t = TPending \<and> vt_expires_at t = db_now sur + days 7
    \<and> length (vt_code t) = 6 \<and> set (vt_code t) \<subseteq> set transferCodeAlphabet
    \<and> (\<forall>x\<in>set (transfers (w_db w)). vt_status x = TPending \<and> vt_tenant x = c_tenant c \<longrightarrow> vt_code x \<noteq> vt_code t \<and> vt_vehicle_id x \<noteq> vid)
    \<and> w_db w' = (w_db w)\<lparr>transfers := transfers (w_db w) @ [t]\<rparr>"
  using assms(1)
proof (cases rule: finish_cases)
  case stopped
  with stops_withD [OF sw_startTransfer stopped] assms(2) show ?thesis by (simp add: refusal_def)
next
  case ended
  then obtain vid contact t w1 w2 where
    tx: "start_tx (session_of (ra_pool a) (c_tenant c)) sur rnd c vid contact w1 = (Inr t, w2)" and
    inp: "veh = Some vid" "body = Some contact" "TrimSpace contact \<noteq> []" and dbs: "w_db w1 = w_db w" "w_db w' = w_db w2" and
    r: "r = Json 201 (TransferStarted (vt_id t) (vt_code t) (vt_expires_at t))"
    by (rule start_run [OF _ assms(3)])
  from tx obtain user oid v i where own: "c_subject c = Some user"
    "owned_vehicle (session_of (ra_pool a) (c_tenant c)) vid user (w_db w1) = Some (oid, v)" "\<not> flagged v"
    "open_transfer (session_of (ra_pool a) (c_tenant c)) (c_tenant c) vid (w_db w1) = None" and
    t: "t = transfer_row_of sur (new_uuid sur i) (c_tenant c) vid oid contact (randomCode (rnd i))" and
    ins: "insert_transfer (session_of (ra_pool a) (c_tenant c)) t (w_db w1) = Inr (t, w_db w2)"
    by (rule start_tx_run)
  from ins have new: "\<forall>x\<in>set (transfers (w_db w)). \<not> transfer_clash x t"
    and db: "w_db w' = (w_db w)\<lparr>transfers := transfers (w_db w) @ [t]\<rparr>"
    by (simp_all add: insert_transfer_Inr dbs)
  have fields: "vt_tenant t = c_tenant c" "vt_vehicle_id t = vid" "vt_from_owner t = oid" "vt_status t = TPending"
    "vt_expires_at t = db_now sur + days 7" "vt_code t = randomCode (rnd i)"
    by (simp_all add: t transfer_row_of_def)
  with new have free: "\<forall>x\<in>set (transfers (w_db w)). vt_status x = TPending \<and> vt_tenant x = c_tenant c \<longrightarrow> vt_code x \<noteq> vt_code t \<and> vt_vehicle_id x \<noteq> vid"
    by (auto simp: transfer_clash_def)
  show ?thesis
    using inp own r fields randomCode_shape [of "rnd i"] free db unfolding dbs by metis
qed

definition reg_started :: "registry_body response \<times> dbworld" where
  "reg_started = finish (startTransfer reg_api reg_sur (\<lambda>i k. of_nat k) (reg_citizen 1) (Some 7) (Some ''bob'')) (world_of reg_db)"

lemma reg_started_status: "status_of (fst reg_started) = 201"
  by code_simp

theorem startTransfer_offers_witness:
  "\<exists>t. transfers (w_db (snd reg_started)) = [t] \<and> vt_vehicle_id t = 7 \<and> vt_from_owner t = 21"
proof -
  have run: "finish (startTransfer reg_api reg_sur (\<lambda>i k. of_nat k) (reg_citizen 1) (Some 7) (Some ''bob'')) (world_of reg_db)
      = (fst reg_started, snd reg_started)"
    by (simp add: reg_started_def)
  have idle: "w_snap (world_of reg_db) = None" and none: "transfers (w_db (world_of reg_db)) = []"
    by (simp_all add: world_of_def reg_db_def empty_db_def)
  have own: "fst (the (owned_vehicle (session_of (ra_pool reg_api) (c_tenant (reg_citizen 1))) 7 1 (w_db (world_of reg_db)))) = 21"
    and sub: "c_subject (reg_citizen 1) = Some 1"
    by (code_simp, simp add: reg_citizen_def)
  from startTransfer_offers [OF run reg_started_status idle] obtain vid user oid v t where
    "7 = vid" "Some 1 = Some user" "owned_vehicle (session_of (ra_pool reg_api) (c_tenant (reg_citizen 1))) vid user (w_db (world_of reg_db)) = Some (oid, v)"
    "vt_vehicle_id t = vid" "vt_from_owner t = oid" "w_db (snd reg_started) = (w_db (world_of reg_db))\<lparr>transfers := transfers (w_db (world_of reg_db)) @ [t]\<rparr>"
    by (auto simp: sub simp del: One_nat_def)
  with own none show ?thesis by auto
qed

text \<open>
  No code leaks from a list: whatever transfers the database holds, \<open>listMyTransfers\<close> answers
  with transfers the caller started, at most 50, and shows the code of pending ones only.
\<close>

theorem listMyTransfers_hides_spent_codes:
  assumes "finish (listMyTransfers a c) w = (Json 200 (TransferItems items), w')"
  shows "length items \<le> 50 \<and> (\<forall>it\<in>set items. (ti_code it \<noteq> [] \<longrightarrow> ti_status it = TPending)
    \<and> (\<exists>r\<in>set (transfers (w_db w)). vt_id r = ti_id it \<and> vt_status r = ti_status it
         \<and> (\<exists>user own. c_subject c = Some user \<and> own \<in> set (owners (w_db w)) \<and> o_id own = vt_from_owner r \<and> o_user_id own = Some user)))"
proof -
  let ?s = "session_of (ra_pool a) (c_tenant c)"
  from assms have run: "listMyTransfers a c w = (Inr (Json 200 (TransferItems items)), w')"
  proof (cases rule: finish_cases)
    case stopped
    have "stops_with refusal (listMyTransfers a c)"
      unfolding listMyTransfers_def by (intro db_sw_steps) simp_all
    from stops_withD [OF this stopped] show ?thesis by simp
  qed
  from run obtain x w1 rows w2 where
    conn: "(WithTenant (Some c) :: (registry_body, unit) handler) w = (Inr x, w1)" and
    q: "(exec (subject_param c (\<lambda>user. query (transfers_of ?s user))) :: (registry_body, transfer_item list) handler) w1 = (Inr rows, w2)" and
    items: "items = rows"
    unfolding listMyTransfers_def by (elim bindE andthenE) simp
  from conn have "w_db w1 = w_db w" by (elim WithTenantE) simp
  with exec_db [OF q] items obtain user where user: "c_subject c = Some user" and rows: "items = transfers_of ?s user (w_db w)"
    by (auto simp: subject_param_Inr)
  have "length items \<le> 50" by (simp add: rows transfers_of_def)
  moreover have "(ti_code it \<noteq> [] \<longrightarrow> ti_status it = TPending)
    \<and> (\<exists>r\<in>set (transfers (w_db w)). vt_id r = ti_id it \<and> vt_status r = ti_status it
         \<and> (\<exists>own. own \<in> set (owners (w_db w)) \<and> o_id own = vt_from_owner r \<and> o_user_id own = Some user))" if "it \<in> set items" for it
  proof -
    from that obtain r v where "r \<in> set (transfers (w_db w))" "it = transfer_item_of r v"
      "\<exists>own. own \<in> set (owners (w_db w)) \<and> o_id own = vt_from_owner r \<and> o_user_id own = Some user"
      unfolding rows transfers_of_def
      by (fastforce simp: set_map_filter set_rows_seen list_ex_iff dest!: in_set_takeD split: if_splits)
    then show ?thesis by (auto simp: transfer_item_of_def)
  qed
  ultimately show ?thesis using user by blast
qed

definition reg_listed :: "registry_body response \<times> dbworld" where
  "reg_listed = finish (listMyTransfers reg_api (reg_citizen 1)) (snd reg_accepted)"

theorem listMyTransfers_hides_spent_codes_witness:
  "\<exists>items. fst reg_listed = Json 200 (TransferItems items) \<and> length items = 1 \<and> (\<forall>it\<in>set items. ti_code it = [])"
proof -
  have "(case fst reg_listed of Json n (TransferItems items) \<Rightarrow> n = 200 \<and> length items = 1 \<and> list_all (\<lambda>it. ti_status it \<noteq> TPending) items | _ \<Rightarrow> False)"
    by code_simp
  then obtain items where items: "fst reg_listed = Json 200 (TransferItems items)" "length items = 1" "list_all (\<lambda>it. ti_status it \<noteq> TPending) items"
    by (auto split: response.splits registry_body.splits)
  have "finish (listMyTransfers reg_api (reg_citizen 1)) (snd reg_accepted) = (Json 200 (TransferItems items), snd reg_listed)"
    using items(1) by (simp add: reg_listed_def prod_eq_iff)
  from listMyTransfers_hides_spent_codes [OF this] items show ?thesis by (auto simp: list_all_iff)
qed

end
