(* ===== verification/RegistryMux.thy ===== *)
theory RegistryMux
  imports Transfers
begin

text \<open>
  The HTTP surface of the registry (\<open>New\<close> in \<open>services/registry/internal/api/api.go\<close>): its
  routes with their permissions, and the service as a transition system whose steps are
  requests. The invariants of the tables and the isolation of tenants are proved for it.
\<close>

section \<open>Routes\<close>

datatype registry_route =
    GetVehicles string string
  | PostVehicle "vehicle_req option"
  | GetVehicle "uuid option"
  | PatchVehicle "uuid option" "vehicle_patch option"
  | GetByPlate string
  | PostFlags "uuid option" "flags_req option"
  | PostOwner "owner_req option"
  | GetOwners string
  | GetOwner "uuid option"
  | PatchOwner "uuid option" "owner_patch option"
  | PostLink "uuid option" "uuid option"
  | PostMyOwner "claim_req option"
  | GetMyOwner
  | GetMyVehicles
  | PostTransfer "uuid option" "string option"
  | GetTransfers
  | PostTransferCancel "uuid option"
  | PostTransferAccept "string option"

fun registry_permission :: "registry_route \<Rightarrow> string option" where
  "registry_permission (GetVehicles _ _) = Some ''registry:read''"
| "registry_permission (PostVehicle _) = Some ''registry:write''"
| "registry_permission (GetVehicle _) = Some ''registry:read''"
| "registry_permission (PatchVehicle _ _) = Some ''registry:write''"
| "registry_permission (GetByPlate _) = Some ''registry:read''"
| "registry_permission (PostFlags _ _) = Some ''registry:write''"
| "registry_permission (PostOwner _) = Some ''registry:write''"
| "registry_permission (GetOwners _) = Some ''registry:read''"
| "registry_permission (GetOwner _) = Some ''registry:read''"
| "registry_permission (PatchOwner _ _) = Some ''registry:write''"
| "registry_permission (PostLink _ _) = Some ''registry:write''"
| "registry_permission (PostMyOwner _) = Some ''owners:self''"
| "registry_permission GetMyOwner = None"
| "registry_permission GetMyVehicles = None"
| "registry_permission (PostTransfer _ _) = None"
| "registry_permission GetTransfers = None"
| "registry_permission (PostTransferCancel _) = None"
| "registry_permission (PostTransferAccept _) = None"

fun registry_serve ::
    "registry_api \<Rightarrow> surroundings \<Rightarrow> (nat \<Rightarrow> nat \<Rightarrow> 8 word) \<Rightarrow> string \<Rightarrow> claims \<Rightarrow> registry_route \<Rightarrow> registry_handler" where
  "registry_serve a sur rnd tr c (GetVehicles q fl) = list_vehicles a sur c q fl"
| "registry_serve a sur rnd tr c (PostVehicle body) = create a sur \<lparr>ctx_claims = Some c, ctx_trace = tr\<rparr> c body"
| "registry_serve a sur rnd tr c (GetVehicle ident) = get_vehicle a sur c ident"
| "registry_serve a sur rnd tr c (PatchVehicle ident body) = update a sur c ident body"
| "registry_serve a sur rnd tr c (GetByPlate plate) = byPlate a sur c plate"
| "registry_serve a sur rnd tr c (PostFlags ident body) = setFlags a sur \<lparr>ctx_claims = Some c, ctx_trace = tr\<rparr> c ident body"
| "registry_serve a sur rnd tr c (PostOwner body) = createOwner a sur c body"
| "registry_serve a sur rnd tr c (GetOwners q) = listOwners a c q"
| "registry_serve a sur rnd tr c (GetOwner ident) = getOwner a c ident"
| "registry_serve a sur rnd tr c (PatchOwner ident body) = updateOwner a c ident body"
| "registry_serve a sur rnd tr c (PostLink own veh) = linkVehicle a sur c own veh"
| "registry_serve a sur rnd tr c (PostMyOwner body) = selfClaimOwner a sur c body"
| "registry_serve a sur rnd tr c GetMyOwner = getMyOwner a c"
| "registry_serve a sur rnd tr c GetMyVehicles = myVehicles a sur c"
| "registry_serve a sur rnd tr c (PostTransfer veh body) = startTransfer a sur rnd c veh body"
| "registry_serve a sur rnd tr c GetTransfers = listMyTransfers a c"
| "registry_serve a sur rnd tr c (PostTransferCancel ident) = cancelTransfer a c ident"
| "registry_serve a sur rnd tr c (PostTransferAccept body) = acceptTransfer a sur \<lparr>ctx_claims = Some c, ctx_trace = tr\<rparr> c body"

definition registry_mux ::
    "jwt_parser \<Rightarrow> issuer \<Rightarrow> registry_api \<Rightarrow> surroundings \<Rightarrow> (nat \<Rightarrow> nat \<Rightarrow> 8 word) \<Rightarrow> string \<Rightarrow> headers \<Rightarrow> registry_route \<Rightarrow> registry_handler" where
  "registry_mux jwt i a sur rnd tr h route =
     Middleware jwt i h (\<lambda>c.
       case registry_permission route of
         None \<Rightarrow> registry_serve a sur rnd tr c route
       | Some p \<Rightarrow> RequirePermission p (Some c) (registry_serve a sur rnd tr c route))"

text \<open>A request is refused before its handler with nothing done, or its handler runs with admitted claims.\<close>

lemma registry_mux_cases:
  obtains (denied) r where "refusal r" "registry_mux jwt i a sur rnd tr h route = stop r"
  | (served) c where "admitted jwt i h c" "set_option (registry_permission route) \<subseteq> set (c_permissions c)"
      "registry_mux jwt i a sur rnd tr h route = registry_serve a sur rnd tr c route"
proof (cases rule: Middleware_cases [of jwt i h "\<lambda>c. case registry_permission route of None \<Rightarrow> registry_serve a sur rnd tr c route
       | Some p \<Rightarrow> RequirePermission p (Some c) (registry_serve a sur rnd tr c route)"])
  case (denied r)
  then show thesis by (intro that(1)) (auto simp: registry_mux_def)
next
  case (admitted c)
  show thesis
  proof (cases "registry_permission route")
    case None
    with admitted show thesis by (intro that(2)) (simp_all add: registry_mux_def)
  next
    case (Some p)
    then show thesis
    proof (cases rule: RequirePermission_cases [of p "Some c" "registry_serve a sur rnd tr c route"])
      case (denied r)
      with admitted Some show thesis by (intro that(1)) (auto simp: registry_mux_def)
    next
      case (granted c')
      with admitted Some show thesis by (intro that(2) [of c]) (simp_all add: registry_mux_def)
    qed
  qed
qed

section \<open>Isolation of the statements\<close>

lemma outside_vehicles [frame_intros]:
  assumes "\<And>v. v_tenant (f v) = v_tenant v"
  shows "keeps_outside t (change (update_vehicle (TenantSession t) vid f))"
    and "keeps_outside t (update_vehicle_fk (TenantSession t) vid oid f)"
  using others_update [of v_tenant f t, OF assms]
  by (auto simp: fixed_def update_vehicle_fk_def update_vehicle_def outside_def split: if_splits)

lemma outside_insert_vehicle [frame_intros]: "keeps_outside t (insert_vehicle (TenantSession t) v)"
  by (auto simp: fixed_def insert_vehicle_def outside_def others_insert split: if_splits sum.splits)

lemma outside_owners [frame_intros]:
  "keeps_outside t (insert_owner (TenantSession t) r)"
  "(\<And>x. o_tenant (f x) = o_tenant x) \<Longrightarrow> keeps_outside t (change (update_owner (TenantSession t) oid f))"
  by (auto simp: fixed_def insert_owner_def update_owner_def outside_def others_insert others_update split: if_splits sum.splits)

lemma outside_upsert [frame_intros]: "keeps_outside t (upsert_owner (TenantSession t) sur oid ten user q)"
proof -
  have "others o_tenant t (map (\<lambda>x. if o_tenant x = t \<and> o_user_id x = Some user then refresh_owner q x else x) rows)
      = others o_tenant t rows" for rows
    unfolding others_def by (rule filter_map_if_disjoint) (auto simp: refresh_owner_def)
  moreover have "outside t d' = outside t d" if "insert_owner (TenantSession t) (claim_row sur oid ten user q) d = Inr (x, d')" for d x d'
    using outside_owners(1) that unfolding fixed_def by blast
  ultimately show ?thesis
    by (auto simp: fixed_def upsert_owner_def outside_def split: if_splits option.splits)
qed

lemma outside_insert_transfer [frame_intros]: "keeps_outside t (insert_transfer (TenantSession t) r)"
  by (auto simp: fixed_def insert_transfer_Inr outside_def others_def)

lemma outside_set_transfer [frame_intros]:
  "(\<And>x. vt_tenant (f x) = vt_tenant x) \<Longrightarrow> keeps_outside t (change (set_transfer (TenantSession t) tid f))"
  by (rule fixed_change) (simp add: set_transfer_def outside_def others_update)

lemma outside_cancel_rows [frame_intros]: "keeps_outside t (cancel_rows (TenantSession t) tid user)"
  by (auto simp: fixed_def cancel_rows_def outside_def others_update)

section \<open>Isolation of the handlers\<close>

lemma pin_attempt_commit: "keeps (pinned g) (attempt (tx_commit k))"
  by (intro pin.r_attempt pin_commit)

lemma iso_retire: "keeps (isolated t) (retire (TenantSession t) tid st answer)"
  unfolding retire_def by (intro pin_steps pin_attempt_commit frame_intros) simp

lemma pin_find_offer: "keeps (pinned g) (find_offer s c code)"
proof -
  have "fixed g (subject_param c (\<lambda>user. query_row (owner_of_user s user)))"
    by (auto simp: fixed_def subject_param_Inr)
  then show ?thesis unfolding find_offer_def by (intro pin_steps frame_intros)
qed

lemma iso_move_title: "keeps (isolated t) (move_title (TenantSession t) sur ctx c buyer tr)"
  unfolding move_title_def by (intro db_iso_steps frame_intros) (simp_all add: give_vehicle_def accept_row_def)

lemma iso_try_codes: "(\<And>i. keeps_outside t (ins i)) \<Longrightarrow> keeps (isolated t) (try_codes ins is)"
  by (induction "is") (auto intro!: pin_steps pin_in_savepoint)

lemma iso_registry_serve:
  assumes "ra_pool a = SubjectToRls"
  shows "keeps (isolated (c_tenant c)) (registry_serve a sur rnd tr c route)"
proof (cases route)
  case (PostTransfer veh body)
  have "keeps_outside (c_tenant c) (subject_param c (\<lambda>user. query_row (owned_vehicle (TenantSession (c_tenant c)) vid user)))" for vid
    by (intro frame_intros)
  then show ?thesis
    unfolding PostTransfer registry_serve.simps startTransfer_def start_tx_def assms session_of.simps
    by (intro db_iso_steps iso_try_codes frame_intros)
next
  case (PostTransferAccept body)
  then show ?thesis
    unfolding PostTransferAccept registry_serve.simps acceptTransfer_def accept_tx_def assms session_of.simps
    by (intro db_iso_steps iso_retire iso_move_title pin_find_offer frame_intros)
qed (simp_all only: registry_serve.simps list_vehicles_def create_def create_tx_def validatePlate_def plateRegexFor_def get_vehicle_def
    update_def byPlate_def setFlags_def flags_tx_def createOwner_def listOwners_def getOwner_def updateOwner_def linkVehicle_def link_tx_def
    selfClaimOwner_def getMyOwner_def myVehicles_def listMyTransfers_def cancelTransfer_def assms session_of.simps,
    (intro db_iso_steps frame_intros; simp add: flag_vehicle_def patch_vehicle_def patch_owner_def give_vehicle_def)+)

section \<open>The keys of the tables\<close>

definition vehicle_clash :: "vehicle_row \<Rightarrow> vehicle_row \<Rightarrow> bool" where
  "vehicle_clash old new \<longleftrightarrow> v_id old = v_id new \<or> (v_tenant old = v_tenant new \<and> v_plate old = v_plate new)"

definition owner_clash :: "owner_row \<Rightarrow> owner_row \<Rightarrow> bool" where
  "owner_clash old new \<longleftrightarrow> o_id old = o_id new \<or> same_account old new"

definition registry_keys :: "db \<Rightarrow> bool" where
  "registry_keys d \<longleftrightarrow> unique_by vehicle_clash (vehicles d) \<and> unique_by owner_clash (owners d) \<and> transfers_sound (transfers d)"

lemma keys_outbox: "registry_keys d \<Longrightarrow> registry_keys (d\<lparr>outbox := rows\<rparr>)"
  by (simp add: registry_keys_def)

lemma keys_insert_vehicle: "preserved registry_keys (insert_vehicle s v)"
proof -
  have "unique_by vehicle_clash rows'" if "unique_by vehicle_clash rows" "insert_row v_tenant s
      (\<lambda>old new. v_id old = v_id new \<or> (v_tenant old = v_tenant new \<and> v_plate old = v_plate new)) v rows = Inr rows'" for rows rows'
    using unique_by_insert [of vehicle_clash rows v_tenant s v rows'] that by (simp add: vehicle_clash_def [abs_def])
  then show ?thesis
    by (auto simp: preserved_def insert_vehicle_def registry_keys_def split: if_splits sum.splits)
qed

lemma keys_update_vehicle:
  assumes "\<And>v. v_id (f v) = v_id v \<and> v_tenant (f v) = v_tenant v \<and> v_plate (f v) = v_plate v"
  shows "preserved registry_keys (change (update_vehicle s vid f))"
    and "preserved registry_keys (update_vehicle_fk s vid oid f)"
proof -
  have "unique_by vehicle_clash (update_rows v_tenant s P f rows) = unique_by vehicle_clash rows" for P rows
    by (rule unique_by_update) (simp_all add: vehicle_clash_def assms)
  then show "preserved registry_keys (change (update_vehicle s vid f))"
    and "preserved registry_keys (update_vehicle_fk s vid oid f)"
    by (auto simp: preserved_def update_vehicle_fk_def update_vehicle_def registry_keys_def split: if_splits)
qed

lemma keys_insert_owner: "preserved registry_keys (insert_owner s r)"
proof -
  have "unique_by owner_clash rows'" if "unique_by owner_clash rows" "insert_row o_tenant s
      (\<lambda>old new. o_id old = o_id new \<or> same_account old new) r rows = Inr rows'" for rows rows'
    using unique_by_insert [of owner_clash rows o_tenant s r rows'] that by (simp add: owner_clash_def [abs_def])
  then show ?thesis
    by (auto simp: preserved_def insert_owner_def registry_keys_def split: if_splits sum.splits)
qed

lemma keys_update_owner: "preserved registry_keys (change (update_owner s oid (patch_owner q)))"
proof -
  have "unique_by owner_clash (update_rows o_tenant s P (patch_owner q) rows) = unique_by owner_clash rows" for P rows
    by (rule unique_by_update) (simp_all add: owner_clash_def same_account_def patch_owner_def)
  then show ?thesis by (simp add: preserved_def update_owner_def registry_keys_def)
qed

lemma keys_upsert_owner: "preserved registry_keys (upsert_owner s sur oid ten user q)"
proof -
  have "unique_by owner_clash (map (\<lambda>x. if o_tenant x = ten \<and> o_user_id x = Some user then refresh_owner q x else x) rows)
      = unique_by owner_clash rows" for rows
    by (rule unique_by_map) (simp add: owner_clash_def same_account_def refresh_owner_def)
  then have refresh: "registry_keys (d\<lparr>owners := map (\<lambda>x. if o_tenant x = ten \<and> o_user_id x = Some user then refresh_owner q x else x) (owners d)\<rparr>)"
    if "registry_keys d" for d using that by (simp add: registry_keys_def)
  show ?thesis
    unfolding preserved_def
  proof (intro allI impI)
    fix d x d'
    assume keys: "registry_keys d" and run: "upsert_owner s sur oid ten user q d = Inr (x, d')"
    show "registry_keys d'"
    proof (cases "find (\<lambda>r. o_tenant r = ten \<and> o_user_id r = Some user) (owners d)")
      case None
      with run have "insert_owner s (claim_row sur oid ten user q) d = Inr (x, d')"
        by (simp add: upsert_owner_def split: if_splits)
      with keys_insert_owner keys show ?thesis unfolding preserved_def by blast
    next
      case (Some r)
      with run refresh [OF keys] show ?thesis by (auto simp: upsert_owner_def split: if_splits)
    qed
  qed
qed

lemma keys_transfers:
  "registry_keys d \<Longrightarrow> transfers_sound rows \<Longrightarrow> registry_keys (d\<lparr>transfers := rows\<rparr>)"
  by (simp add: registry_keys_def)

lemma keys_insert_transfer: "preserved registry_keys (insert_transfer s r)"
  unfolding preserved_def
proof (intro allI impI)
  fix d x d'
  assume keys: "registry_keys d" and ins: "insert_transfer s r d = Inr (x, d')"
  from ins have d': "d' = d\<lparr>transfers := transfers d @ [r]\<rparr>" by (simp add: insert_transfer_Inr)
  from keys insert_transfer_sound [OF _ ins] have "transfers_sound (transfers d @ [r])"
    by (simp add: registry_keys_def d')
  with keys show "registry_keys d'" unfolding d' by (rule keys_transfers)
qed

lemma keys_set_transfer:
  assumes "\<And>x. \<not> pending (f x) \<and> same_offer x (f x)"
  shows "preserved registry_keys (change (set_transfer s tid f))"
  unfolding set_transfer_def
  by (rule preserved_change) (simp add: registry_keys_def close_rows_sound [OF _ assms])

lemma keys_cancel_rows: "preserved registry_keys (cancel_rows s tid user)"
  unfolding preserved_def cancel_rows_def
  by (auto intro!: keys_transfers close_rows_sound simp: registry_keys_def pending_def same_offer_def)

lemma iv_attempt_commit: "keeps (kept q) (attempt (tx_commit k))"
  by (intro iv.r_attempt iv_commit)

lemma keys_retire: "st \<noteq> TPending \<Longrightarrow> keeps (kept registry_keys) (retire s tid st answer)"
  unfolding retire_def by (intro iv_steps iv_attempt_commit keys_set_transfer) (simp add: pending_def same_offer_def)

lemma iv_find_offer: "keeps (kept q) (find_offer s c code)"
  unfolding find_offer_def by (intro iv_steps frame_intros)

lemma keys_move_title: "keeps (kept registry_keys) (move_title s sur ctx c buyer t)"
  unfolding move_title_def
  by (intro db_iv_steps iv_WriteOutbox keys_outbox keys_set_transfer keys_update_vehicle frame_intros)
    (simp_all add: pending_def same_offer_def accept_row_def give_vehicle_def)

lemma keys_try_codes: "(\<And>i. preserved registry_keys (ins i)) \<Longrightarrow> keeps (kept registry_keys) (try_codes ins is)"
  by (induction "is") (auto intro!: iv_steps)

lemma keys_registry_serve: "keeps (kept registry_keys) (registry_serve a sur rnd tr c route)"
proof (cases route)
  case (PostTransfer veh body)
  then show ?thesis
    unfolding PostTransfer registry_serve.simps startTransfer_def start_tx_def
    by (intro db_iv_steps keys_try_codes keys_insert_transfer frame_intros)
next
  case (PostTransferAccept body)
  then show ?thesis
    unfolding PostTransferAccept registry_serve.simps acceptTransfer_def accept_tx_def
    by (intro db_iv_steps keys_retire keys_move_title iv_find_offer frame_intros) simp_all
qed (simp_all only: registry_serve.simps list_vehicles_def create_def create_tx_def validatePlate_def plateRegexFor_def get_vehicle_def
    update_def byPlate_def setFlags_def flags_tx_def createOwner_def listOwners_def getOwner_def updateOwner_def linkVehicle_def link_tx_def
    selfClaimOwner_def getMyOwner_def myVehicles_def listMyTransfers_def cancelTransfer_def,
    (intro db_iv_steps iv_WriteOutbox keys_outbox keys_insert_vehicle keys_update_vehicle keys_insert_owner keys_update_owner
      keys_upsert_owner keys_cancel_rows frame_intros; simp add: flag_vehicle_def patch_vehicle_def give_vehicle_def)+)

section \<open>The service as a transition system\<close>

inductive registry_step :: "jwt_parser \<Rightarrow> issuer \<Rightarrow> registry_api \<Rightarrow> db \<Rightarrow> db \<Rightarrow> bool" for jwt i a where
  request: "finish (registry_mux jwt i a sur rnd tr h route) w = (r, w') \<Longrightarrow> w_snap w = None \<Longrightarrow>
     registry_step jwt i a (w_db w) (w_db w')"

inductive registry_reachable :: "jwt_parser \<Rightarrow> issuer \<Rightarrow> registry_api \<Rightarrow> db \<Rightarrow> db \<Rightarrow> bool" for jwt i a d0 where
  start: "registry_reachable jwt i a d0 d0"
| step: "registry_reachable jwt i a d0 d \<Longrightarrow> registry_step jwt i a d d' \<Longrightarrow> registry_reachable jwt i a d0 d'"

inductive_cases registry_stepE: "registry_step jwt i a d d'"

fun on_transfers :: "registry_route \<Rightarrow> bool" where
  "on_transfers (PostTransfer _ _) = True"
| "on_transfers (PostTransferCancel _) = True"
| "on_transfers (PostTransferAccept _) = True"
| "on_transfers _ = False"

lemma transfers_fixed [frame_intros]:
  "fixed transfers (change (update_vehicle s vid f))" "fixed transfers (update_vehicle_fk s vid new_owner f)"
  "fixed transfers (insert_vehicle s v)" "fixed transfers (insert_owner s r)" "fixed transfers (change (update_owner s oid g))"
  by (auto simp: fixed_def update_vehicle_fk_def update_vehicle_def insert_vehicle_def insert_owner_def update_owner_def
      split: if_splits sum.splits)

lemma transfers_fixed_upsert [frame_intros]: "fixed transfers (upsert_owner s sur oid ten user q)"
  by (auto simp: fixed_def upsert_owner_def insert_owner_def split: if_splits sum.splits option.splits)

lemma transfers_untouched:
  assumes "\<not> on_transfers route"
  shows "keeps (pinned transfers) (registry_serve a sur rnd tr c route)"
proof -
  have out: "keeps (pinned transfers) (WriteOutbox k s sur env)" for k :: "registry_body response" and s sur env
    by (rule pin_WriteOutbox) simp
  have subj: "fixed transfers (subject_param c f)" if "\<And>u. fixed transfers (f u)" for f :: "uuid \<Rightarrow> db \<Rightarrow> sqlerr + 'x \<times> db"
    using that unfolding fixed_def subject_param_Inr by blast
  show ?thesis
    using assms
    by (cases route) (simp_all only: on_transfers.simps not_True_eq_False registry_serve.simps list_vehicles_def create_def create_tx_def
        validatePlate_def plateRegexFor_def get_vehicle_def update_def byPlate_def setFlags_def flags_tx_def createOwner_def listOwners_def
        getOwner_def updateOwner_def linkVehicle_def link_tx_def selfClaimOwner_def getMyOwner_def myVehicles_def listMyTransfers_def,
        (intro db_pin_steps out subj frame_intros)+)
qed

text \<open>Outside a transaction a statement on the transfers is a step of their life.\<close>

definition live_step :: "dbworld \<Rightarrow> dbworld \<Rightarrow> bool" where
  "live_step w w' \<longleftrightarrow> (transfers_sound (transfers (w_db w)) \<longrightarrow>
     transfers_sound (transfers (w_db w')) \<and> lifecycle (transfers (w_db w)) (transfers (w_db w')))"

interpretation live: frame live_step
proof unfold_locales
  show "live_step w w" for w by (simp add: live_step_def lifecycle_refl)
  show "live_step u w" if "live_step u v" "live_step v w" for u v w
    using that lifecycle_trans unfolding live_step_def by blast
qed

lemma live_exec_or:
  fixes f :: "db \<Rightarrow> sqlerr + 'a \<times> db"
  assumes "\<And>d x d'. transfers_sound (transfers d) \<Longrightarrow> f d = Inr (x, d') \<Longrightarrow> transfers_sound (transfers d') \<and> lifecycle (transfers d) (transfers d')"
  shows "keeps live_step (exec_or k f :: (db, effect, 'r, 'a) act)"
proof (rule keepsI)
  fix w :: dbworld
  obtain res :: "'r + 'a" and w' where run: "exec_or k f w = (res, w')" by fastforce
  from run have "live_step w w'"
  proof (cases rule: exec_or_outcome)
    case (ok x)
    from assms [OF _ ok(2)] show ?thesis by (simp add: live_step_def)
  next
    case (failed e)
    then show ?thesis by (simp add: live_step_def lifecycle_refl)
  qed
  with run show "live_step w (snd ((exec_or k f :: (db, effect, 'r, 'a) act) w))" by simp
qed

lemma live_cancelTransfer: "keeps live_step (cancelTransfer a c ident)"
proof -
  have "keeps live_step (exec (subject_param c (cancel_rows s tid)) :: (registry_body, nat) handler)" for s tid
    by (rule live_exec_or) (auto simp: subject_param_Inr dest: cancel_rows_sound)
  moreover have "keeps live_step (WithTenant (Some c) :: (registry_body, unit) handler)"
    unfolding WithTenant_def by (intro live.r_control live_exec_or) (simp add: lifecycle_refl)
  ultimately show ?thesis
    unfolding cancelTransfer_def by (intro live.r_control)
qed

lemma step_lifecycle:
  assumes "registry_step jwt i a d d'" and "registry_keys d"
  shows "registry_keys d' \<and> lifecycle (transfers d) (transfers d')"
  using assms(1)
proof (rule registry_stepE)
  fix sur rnd tr h route and w w' :: dbworld and r
  assume d: "d = w_db w" "d' = w_db w'" and run: "finish (registry_mux jwt i a sur rnd tr h route) w = (r, w')" and idle: "w_snap w = None"
  show ?thesis
  proof (cases rule: registry_mux_cases [of jwt i a sur rnd tr h route])
    case (denied e)
    with run assms(2) show ?thesis unfolding d by (auto simp: finish_def stop_def lifecycle_refl)
  next
    case (served c)
    note run = run [unfolded served(3)]
    have keys: "registry_keys (w_db w')"
      by (rule kept_finish [OF keys_registry_serve run idle]) (use assms(2) d in simp)
    have "lifecycle (transfers (w_db w)) (transfers (w_db w'))"
    proof (cases "on_transfers route")
      case False
      from pinned_finish [OF transfers_untouched [OF this] run idle] show ?thesis by (simp add: lifecycle_refl)
    next
      case True
      have sound: "transfers_sound (transfers (w_db w))" using assms(2) by (simp add: registry_keys_def d)
      from True consider (start) veh body where "route = PostTransfer veh body" | (cancel) ident where "route = PostTransferCancel ident"
        | (accept) body where "route = PostTransferAccept body" by (cases route) auto
      then show ?thesis
      proof cases
        case accept
        with accept_sound [OF _ idle sound] run show ?thesis by simp
      next
        case start
        with run have "finish (startTransfer a sur rnd c veh body) w = (r, w')" by simp
        then show ?thesis
        proof (cases rule: finish_cases)
          case stopped
          from atomicD [OF at_startTransfer idle stopped] show ?thesis by (simp add: lifecycle_refl)
        next
          case ended
          then obtain vid contact t w1 w2 where "start_tx (session_of (ra_pool a) (c_tenant c)) sur rnd c vid contact w1 = (Inr t, w2)"
            "w_db w1 = w_db w" "w_db w' = w_db w2" by (rule start_run [OF _ idle])
          then show ?thesis by (elim start_tx_run) (auto simp: insert_transfer_Inr lifecycle_added)
        qed
      next
        case cancel
        have "lifecycle (transfers (w_db w)) (transfers (w_db w'))" if "cancelTransfer a c ident w = (res, w')" for res
          using keepsD [OF live_cancelTransfer that] sound by (simp add: live_step_def)
        with run cancel show ?thesis by (auto elim: finish_cases)
      qed
    qed
    with keys show ?thesis unfolding d by simp
  qed
qed

section \<open>Properties\<close>

text \<open>C17
  The life of a transfer: in every state the registry reaches by requests, in any order and with
  any faults, no two vehicles of a tenant share a plate, no account has two owner profiles, no
  vehicle has two pending transfers and no two pending transfers of a tenant share a code; and
  every transfer there was is still there, unchanged or moved once from pending to a terminal
  status with everything it was made with kept.
\<close>

theorem registry_transfer_lifecycle:
  assumes "registry_reachable jwt i a d0 d" and "registry_keys d0"
  shows "registry_keys d \<and> lifecycle (transfers d0) (transfers d)"
  using assms
proof (induction rule: registry_reachable.induct)
  case start
  then show ?case by (simp add: lifecycle_refl)
next
  case (step d d')
  with step_lifecycle [OF step.hyps(2)] lifecycle_trans show ?case by blast
qed

definition reg_issuer :: issuer where
  "reg_issuer = \<lparr>Secret = ''k'', AccessTTL = 1, RefreshTTL = 1\<rparr>"

definition reg_jwt :: jwt_parser where
  "reg_jwt kf tok = (if tok = ''one'' then Some (reg_citizen 1) else if tok = ''two'' then Some (reg_citizen 2) else None)"

definition reg_bearer :: "string \<Rightarrow> headers" where
  "reg_bearer tok = \<lparr>h_authorization = ''Bearer '' @ tok, h_tenant = []\<rparr>"

definition reg_mux_started :: "registry_body response \<times> dbworld" where
  "reg_mux_started = finish (registry_mux reg_jwt reg_issuer reg_api reg_sur (\<lambda>i k. of_nat k) [] (reg_bearer ''one'')
     (PostTransfer (Some 7) (Some ''bob''))) (world_of reg_db)"

lemma reg_mux_started_facts:
  "finish (registry_mux reg_jwt reg_issuer reg_api reg_sur (\<lambda>i k. of_nat k) [] (reg_bearer ''one'') (PostTransfer (Some 7) (Some ''bob'')))
     (world_of reg_db) = (fst reg_mux_started, snd reg_mux_started)"
  "length (transfers (w_db (snd reg_mux_started))) = 1" "status_of (fst reg_mux_started) = 201"
  by (simp add: reg_mux_started_def) code_simp+

theorem registry_transfer_lifecycle_witness:
  "registry_keys (w_db (snd reg_mux_started)) \<and> lifecycle [] (transfers (w_db (snd reg_mux_started)))"
proof -
  from registry_step.request [OF reg_mux_started_facts(1)]
  have "registry_step reg_jwt reg_issuer reg_api reg_db (w_db (snd reg_mux_started))"
    by (simp add: world_of_def)
  then have "registry_reachable reg_jwt reg_issuer reg_api reg_db (w_db (snd reg_mux_started))"
    by (rule registry_reachable.step [OF registry_reachable.start])
  moreover have "registry_keys reg_db" and "transfers reg_db = []"
    by (simp_all add: registry_keys_def reg_db_def empty_db_def transfers_sound_def unique_by_def owner_clash_def same_account_def reg_owner_def)
  ultimately show ?thesis using registry_transfer_lifecycle by metis
qed

text \<open>
  Tenants of the registry do not touch each other: with a pool subject to row-level security a
  request, whatever it asks and whatever fails, changes nothing outside the tenant of the claims
  its token carries; without an accepted token it changes nothing at all.
\<close>

theorem registry_requests_stay_in_tenant:
  assumes "finish (registry_mux jwt i a sur rnd tr h route) w = (r, w')" and "w_snap w = None" and "ra_pool a = SubjectToRls"
  shows "w_db w' = w_db w \<or> (\<exists>c. admitted jwt i h c \<and> outside (c_tenant c) (w_db w') = outside (c_tenant c) (w_db w))"
proof (cases rule: registry_mux_cases [of jwt i a sur rnd tr h route])
  case (denied e)
  with assms(1) show ?thesis by (auto simp: finish_def stop_def)
next
  case (served c)
  from pinned_finish [OF iso_registry_serve [OF assms(3)] assms(1) [unfolded served(3)] assms(2)] served(1) show ?thesis by blast
qed

theorem registry_requests_stay_in_tenant_witness:
  "outside ''cm'' (w_db (snd reg_mux_started)) = outside ''cm'' (w_db (world_of reg_db))"
proof -
  have "c_tenant c = ''cm''" if "admitted reg_jwt reg_issuer (reg_bearer ''one'') c" for c
    using that by (auto simp: admitted_def Parse_def reg_jwt_def reg_citizen_def split: if_splits)
  moreover have "w_snap (world_of reg_db) = None" by (simp add: world_of_def)
  moreover have "ra_pool reg_api = SubjectToRls" by (simp add: reg_api_def)
  ultimately show ?thesis using registry_requests_stay_in_tenant [OF reg_mux_started_facts(1)] by metis
qed

text \<open>
  Every route is behind its permission: an answer below 400 means the request carried a token
  the issuer accepts, for the tenant of its header if there is one, and the token holds the
  permission the route asks for.
\<close>

theorem registry_routes_need_permission:
  assumes "finish (registry_mux jwt i a sur rnd tr h route) w = (r, w')" and "status_of r < 400"
  shows "\<exists>c. admitted jwt i h c \<and> set_option (registry_permission route) \<subseteq> set (c_permissions c)"
proof (cases rule: registry_mux_cases [of jwt i a sur rnd tr h route])
  case (denied e)
  with assms show ?thesis by (auto simp: finish_def stop_def refusal_def)
next
  case (served c)
  then show ?thesis by blast
qed

theorem registry_routes_need_permission_witness:
  "\<exists>c. admitted reg_jwt reg_issuer (reg_bearer ''one'') c"
  using registry_routes_need_permission [OF reg_mux_started_facts(1)] reg_mux_started_facts(3) by auto

end
