(* ===== verification/Demerit.thy ===== *)
theory Demerit
  imports Schema
begin

text \<open>
  The demerit engine of the license service (\<open>services/license/internal/demerit/engine.go\<close>): a
  fine with a driver's license adds the points of its offence to the ledger of that license, the
  points of the license become the ledger's total over the policy window, and a total at the
  threshold opens a suspension. \<open>eg_months_ago\<close>, the subtraction of an interval of months from
  a timestamp in Postgres, is a parameter.
\<close>

section \<open>Licenses, suspensions and the ledger\<close>

definition license_exists :: "uuid \<Rightarrow> db \<Rightarrow> bool" where
  "license_exists lid d = list_ex (\<lambda>l. l_id l = lid) (licenses d)"

definition license_seen :: "session \<Rightarrow> uuid \<Rightarrow> db \<Rightarrow> license_row option" where
  "license_seen s lid d = row_seen l_tenant s (\<lambda>l. l_id l = lid) (licenses d)"

definition update_license :: "session \<Rightarrow> uuid \<Rightarrow> (license_row \<Rightarrow> license_row) \<Rightarrow> db \<Rightarrow> db" where
  "update_license s lid f d = d\<lparr>licenses := update_rows l_tenant s (\<lambda>l. l_id l = lid) f (licenses d)\<rparr>"

text \<open>A suspension without an end never satisfies \<open>ends_at > now()\<close>.\<close>

definition active_suspension :: "time \<Rightarrow> suspension_row \<Rightarrow> bool" where
  "active_suspension now r \<longleftrightarrow> ds_lifted_at r = None \<and> (case ds_ends_at r of None \<Rightarrow> False | Some e \<Rightarrow> now < e)"

definition active_suspensions :: "session \<Rightarrow> uuid \<Rightarrow> time \<Rightarrow> db \<Rightarrow> suspension_row list" where
  "active_suspensions s lid now d =
     filter (\<lambda>r. ds_license_id r = lid \<and> active_suspension now r) (rows_seen ds_tenant s (suspensions d))"

definition trigger_kinds :: "string list" where
  "trigger_kinds = [''demerit'', ''court'', ''medical'', ''administrative'']"

definition insert_suspension :: "session \<Rightarrow> suspension_row \<Rightarrow> db \<Rightarrow> sqlerr + uuid \<times> db" where
  "insert_suspension s r d =
     (if ds_trigger_kind r \<notin> set trigger_kinds then Inl CheckViolation
      else if \<not> license_exists (ds_license_id r) d \<or> \<not> user_exists (ds_created_by r) d then Inl ForeignKeyViolation
      else case insert_row ds_tenant s (\<lambda>old new. ds_id old = ds_id new) r (suspensions d) of
             Inl e \<Rightarrow> Inl e
           | Inr rows \<Rightarrow> Inr (ds_id r, d\<lparr>suspensions := rows\<rparr>))"

definition insert_demerit :: "session \<Rightarrow> demerit_row \<Rightarrow> db \<Rightarrow> sqlerr + unit \<times> db" where
  "insert_demerit s r d =
     (if \<not> license_exists (de_license_id r) d then Inl ForeignKeyViolation
      else case insert_row de_tenant s (\<lambda>old new. de_id old = de_id new) r (demerits d) of
             Inl e \<Rightarrow> Inl e
           | Inr rows \<Rightarrow> Inr ((), d\<lparr>demerits := rows\<rparr>))"

section \<open>The engine\<close>

record engine =
  eg_pool :: dbrole
  eg_audit :: string
  eg_months_ago :: "time \<Rightarrow> int \<Rightarrow> time"

text \<open>
  The points of an offence in the country pack of a tenant; an offence the pack does not list
  has none.
\<close>

definition pack_points :: "string \<Rightarrow> string \<Rightarrow> db \<Rightarrow> int" where
  "pack_points ten code d =
     (case map_of (packs d) ten of
        None \<Rightarrow> 0
      | Some offs \<Rightarrow> (case map_of offs code of None \<Rightarrow> 0 | Some p \<Rightarrow> p))"

definition fine_points :: "session \<Rightarrow> string \<Rightarrow> uuid \<Rightarrow> db \<Rightarrow> (uuid option \<times> string \<times> int) option" where
  "fine_points s ten fid d =
     map_option (\<lambda>f. (f_driver_license_id f, f_offence_code f, pack_points (f_tenant f) (f_offence_code f) d))
       (row_seen f_tenant s (\<lambda>f. f_id f = fid \<and> f_tenant f = ten) (fines d))"

definition ledger_row :: "surroundings \<Rightarrow> int \<Rightarrow> string \<Rightarrow> uuid \<Rightarrow> uuid \<Rightarrow> string \<Rightarrow> int \<Rightarrow> demerit_row" where
  "ledger_row sur n ten lid fid code points =
     \<lparr>de_id = n, de_tenant = ten, de_license_id = lid, de_delta = points, de_reason = ''fine:'' @ code,
      de_source = ''fine'', de_source_id = Some fid, de_occurred_at = db_now sur\<rparr>"

text \<open>
  The policy of the tenant. The error of the lookup is dropped, which leaves zeros, and a zero
  threshold means the defaults.
\<close>

definition limits :: "sqlerr + demerit_policy_row \<Rightarrow> int \<times> int \<times> int" where
  "limits res =
     (let (threshold, window, months) =
        (case res of Inl _ \<Rightarrow> (0, 0, 0) | Inr p \<Rightarrow> (dp_threshold_points p, dp_window_months p, dp_suspension_months p))
      in if threshold = 0 then (12, 24, 6) else (threshold, window, months))"

definition policy_row :: "session \<Rightarrow> string \<Rightarrow> db \<Rightarrow> demerit_policy_row option" where
  "policy_row s ten d = row_seen dp_tenant s (\<lambda>p. dp_tenant p = ten) (demerit_policies d)"

definition ledger_total :: "session \<Rightarrow> uuid \<Rightarrow> time \<Rightarrow> db \<Rightarrow> int" where
  "ledger_total s lid since d =
     sum_list (map de_delta (filter (\<lambda>r. de_license_id r = lid \<and> since < de_occurred_at r) (rows_seen de_tenant s (demerits d))))"

text \<open>An \<open>INT\<close> column holds 32 bits.\<close>

definition set_points :: "session \<Rightarrow> uuid \<Rightarrow> int \<Rightarrow> db \<Rightarrow> sqlerr + unit \<times> db" where
  "set_points s lid tot d =
     (if - (2 ^ 31) \<le> tot \<and> tot < 2 ^ 31 then Inr ((), update_license s lid (\<lambda>l. l\<lparr>l_points := tot\<rparr>) d)
      else Inl SqlFault)"

text \<open>
  \<open>suspStart.Add(time.Duration(suspMonths) * 30 * 24 * time.Hour)\<close>: a \<open>time.Duration\<close> is a 64-bit
  number of nanoseconds and the product wraps around; Postgres keeps microseconds.
\<close>

definition suspension_length :: "int \<Rightarrow> int" where
  "suspension_length months = sint (word_of_int months * 30 * 24 * 3600000000000 :: 64 word)"

definition suspension_end :: "time \<Rightarrow> int \<Rightarrow> time" where
  "suspension_end start months = start + suspension_length months div 1000"

definition auto_suspension :: "surroundings \<Rightarrow> string \<Rightarrow> uuid \<Rightarrow> int \<Rightarrow> suspension_row" where
  "auto_suspension sur ten lid months =
     \<lparr>ds_id = new_uuid sur 0, ds_tenant = ten, ds_license_id = lid, ds_reason = ''demerit threshold reached'',
      ds_trigger_kind = ''demerit'', ds_starts_at = go_now sur, ds_ends_at = Some (suspension_end (go_now sur) months),
      ds_lifted_at = None, ds_created_by = None\<rparr>"

definition suspend_until :: "date option \<Rightarrow> license_row \<Rightarrow> license_row" where
  "suspend_until until l = l\<lparr>l_is_suspended := True, l_suspended_until := until\<rparr>"

type_synonym 'a demerit_job = "(db, effect, goerr option, 'a) act"

abbreviation stmt :: "(db \<Rightarrow> sqlerr + 'a \<times> db) \<Rightarrow> 'a demerit_job" where
  "stmt f \<equiv> exec_or (\<lambda>_. Some PlainError) f"

definition auto_suspend :: "session \<Rightarrow> surroundings \<Rightarrow> string \<Rightarrow> uuid \<Rightarrow> int \<Rightarrow> int \<Rightarrow> int \<Rightarrow> bool demerit_job" where
  "auto_suspend s sur ten lid threshold months tot =
     (if tot \<ge> threshold then
        bind (exec_try (query (\<lambda>d. length (active_suspensions s lid (db_now sur) d)))) (\<lambda>res.
        if (case res of Inl _ \<Rightarrow> 0 | Inr n \<Rightarrow> n) = 0 then
          andthen (stmt (insert_suspension s (auto_suspension sur ten lid months))) (
          andthen (stmt (change (update_license s lid (suspend_until (Some (date_of (suspension_end (go_now sur) months))))))) (
          ret True))
        else ret False)
      else ret False)"

definition demerit_event :: "surroundings \<Rightarrow> string \<Rightarrow> uuid \<Rightarrow> uuid \<Rightarrow> string \<Rightarrow> int \<Rightarrow> int \<Rightarrow> envelope" where
  "demerit_event sur ten lid fid code points tot =
     NewEnvelope sur (new_uuid sur 1) ''license'' ten TypeLicenseDemerit 1
       (LicenseDemerit \<lparr>ldp_license_id = lid, ldp_delta = points, ldp_reason = ''fine:'' @ code,
          ldp_source = ''fine'', ldp_source_id = fid, ldp_new_total = tot\<rparr>)"

definition suspended_event :: "surroundings \<Rightarrow> string \<Rightarrow> uuid \<Rightarrow> int \<Rightarrow> envelope" where
  "suspended_event sur ten lid months =
     NewEnvelope sur (new_uuid sur 2) ''license'' ten TypeLicenseSuspended 1
       (LicenseSuspended \<lparr>lsp_license_id = lid, lsp_reason = ''demerit threshold reached'', lsp_trigger_kind = ''demerit'',
          lsp_starts_at = RFC3339 (go_now sur), lsp_ends_at = RFC3339 (suspension_end (go_now sur) months)\<rparr>)"

text \<open>What follows once the policy is known: the cached points, the suspension, the events.\<close>

definition settle ::
    "engine \<Rightarrow> session \<Rightarrow> surroundings \<Rightarrow> string \<Rightarrow> uuid \<Rightarrow> uuid \<Rightarrow> string \<Rightarrow> int \<Rightarrow> int \<times> int \<times> int \<Rightarrow> uuid demerit_job" where
  "settle eng s sur ten fid lid code points lims =
     (case lims of (threshold, window, months) \<Rightarrow>
     bind (stmt (query (ledger_total s lid (eg_months_ago eng (db_now sur) window)))) (\<lambda>tot.
     andthen (stmt (set_points s lid tot)) (
     bind (auto_suspend s sur ten lid threshold months tot) (\<lambda>suspended.
     andthen (WriteOutbox (Some PlainError) s sur (demerit_event sur ten lid fid code points tot)) (
     andthen (if suspended then WriteOutbox (Some PlainError) s sur (suspended_event sur ten lid months) else ret ()) (
     ret lid))))))"

definition book_points :: "engine \<Rightarrow> session \<Rightarrow> surroundings \<Rightarrow> string \<Rightarrow> uuid \<Rightarrow> uuid \<Rightarrow> string \<Rightarrow> int \<Rightarrow> uuid demerit_job" where
  "book_points eng s sur ten fid lid code points =
     bind (nextval ''driver_demerit_events'') (\<lambda>n.
     andthen (stmt (insert_demerit s (ledger_row sur n ten lid fid code points))) (
     bind (exec_try (query_row (policy_row s ten))) (\<lambda>pol.
     settle eng s sur ten fid lid code points (limits pol))))"

text \<open>A fine id that is no UUID (\<open>None\<close>) makes the first statement fail.\<close>

definition apply_tx :: "engine \<Rightarrow> session \<Rightarrow> surroundings \<Rightarrow> string \<Rightarrow> uuid option \<Rightarrow> uuid demerit_job" where
  "apply_tx eng s sur ten fine_id =
     (case fine_id of
        None \<Rightarrow> stop (Some PlainError)
      | Some fid \<Rightarrow>
          bind (exec_or (no_rows_or None (Some PlainError)) (query_row (fine_points s ten fid))) (\<lambda>(license, code, points).
          case license of
            None \<Rightarrow> stop None
          | Some lid \<Rightarrow> if points = 0 then stop None else book_points eng s sur ten fid lid code points))"

text \<open>
  \<open>SET LOCAL row_security = off\<close> runs before the transaction begins, where it has no effect: the
  engine's session is that of its pool.
\<close>

definition applyForFine :: "engine \<Rightarrow> surroundings \<Rightarrow> string \<Rightarrow> uuid option \<Rightarrow> goerr option demerit_job" where
  "applyForFine eng sur ten fine_id =
     andthen (stmt (query (\<lambda>_. ()))) (
     bind (in_tx (Some PlainError) (apply_tx eng (session_of (eg_pool eng) []) sur ten fine_id)) (\<lambda>lid.
     andthen (audit_Emit (eg_audit eng) ''license'' None ''license.demerit'' ''license'' lid) (
     ret None)))"

text \<open>
  What the bus delivers: the payload struct itself, a decoded JSON object with the id in its
  \<open>fine_id\<close> field (\<open>None\<close>: absent or no UUID), or anything else.
\<close>

datatype raw_data = Struct payload | JsonObject "uuid option" | OtherRaw

fun decodeFineIssued :: "raw_data \<Rightarrow> goerr + uuid option" where
  "decodeFineIssued (Struct (FineIssued p)) = Inr (Some (fip_fine_id p))"
| "decodeFineIssued (JsonObject fid) = Inr fid"
| "decodeFineIssued _ = Inl PlainError"

definition onFineIssued :: "engine \<Rightarrow> surroundings \<Rightarrow> string \<Rightarrow> raw_data \<Rightarrow> goerr option demerit_job" where
  "onFineIssued eng sur ten raw =
     (case decodeFineIssued raw of Inl e \<Rightarrow> stop (Some e) | Inr fid \<Rightarrow> applyForFine eng sur ten fid)"

section \<open>What a run does\<close>

text \<open>
  The specification: the ledger grows by one row, the license's points become the total over the
  window, and it is suspended when the total is at the threshold and no suspension is active. The
  events say the same.
\<close>

definition policy_limits :: "session \<Rightarrow> string \<Rightarrow> db \<Rightarrow> int \<times> int \<times> int" where
  "policy_limits s ten d = limits (case policy_row s ten d of None \<Rightarrow> Inl NoRows | Some p \<Rightarrow> Inr p)"

definition settled ::
    "engine \<Rightarrow> session \<Rightarrow> surroundings \<Rightarrow> string \<Rightarrow> uuid \<Rightarrow> uuid \<Rightarrow> string \<Rightarrow> int \<Rightarrow> int \<times> int \<times> int \<Rightarrow> db \<Rightarrow> db \<Rightarrow> bool" where
  "settled eng s sur ten fid lid code points lims d d' \<longleftrightarrow>
     (\<exists>ns. case lims of (threshold, window, months) \<Rightarrow>
        let tot = ledger_total s lid (eg_months_ago eng (db_now sur) window) d;
            suspend = (threshold \<le> tot \<and> active_suspensions s lid (db_now sur) d = []);
            mark = (\<lambda>l. if suspend then suspend_until (Some (date_of (suspension_end (go_now sur) months))) l else l);
            events = demerit_event sur ten lid fid code points tot
              # (if suspend then [suspended_event sur ten lid months] else [])
        in length ns = length events
           \<and> d' = d\<lparr>licenses := update_rows l_tenant s (\<lambda>l. l_id l = lid) (\<lambda>l. mark (l\<lparr>l_points := tot\<rparr>)) (licenses d),
                    suspensions := suspensions d @ (if suspend then [auto_suspension sur ten lid months] else []),
                    outbox := outbox d @ map2 (outbox_row_of sur) ns events\<rparr>)"

definition booked :: "engine \<Rightarrow> session \<Rightarrow> surroundings \<Rightarrow> string \<Rightarrow> uuid \<Rightarrow> uuid \<Rightarrow> string \<Rightarrow> int \<Rightarrow> db \<Rightarrow> db \<Rightarrow> bool" where
  "booked eng s sur ten fid lid code points d d' \<longleftrightarrow> license_exists lid d \<and> sees s ten \<and>
     (\<exists>n. settled eng s sur ten fid lid code points (policy_limits s ten d)
            (d\<lparr>demerits := demerits d @ [ledger_row sur n ten lid fid code points]\<rparr>) d')"

definition demerit_outcome :: "engine \<Rightarrow> session \<Rightarrow> surroundings \<Rightarrow> string \<Rightarrow> uuid \<Rightarrow> db \<Rightarrow> db \<Rightarrow> bool" where
  "demerit_outcome eng s sur ten fid d d' \<longleftrightarrow>
     (case fine_points s ten fid d of
        Some (Some lid, code, points) \<Rightarrow> if points = 0 then d' = d else booked eng s sur ten fid lid code points d d'
      | _ \<Rightarrow> d' = d)"

lemma insert_suspension_Inr:
  "insert_suspension s r d = Inr (x, d') \<longleftrightarrow>
     ds_trigger_kind r \<in> set trigger_kinds \<and> license_exists (ds_license_id r) d \<and> user_exists (ds_created_by r) d
     \<and> sees s (ds_tenant r) \<and> (\<forall>old\<in>set (suspensions d). ds_id old \<noteq> ds_id r)
     \<and> x = ds_id r \<and> d' = d\<lparr>suspensions := suspensions d @ [r]\<rparr>"
  by (auto simp: insert_suspension_def insert_row_def list_ex_iff)

lemma insert_demerit_Inr:
  "insert_demerit s r d = Inr (x, d') \<longleftrightarrow>
     license_exists (de_license_id r) d \<and> sees s (de_tenant r) \<and> (\<forall>old\<in>set (demerits d). de_id old \<noteq> de_id r)
     \<and> d' = d\<lparr>demerits := demerits d @ [r]\<rparr>"
  by (auto simp: insert_demerit_def insert_row_def list_ex_iff)

lemma set_points_Inr:
  "set_points s lid tot d = Inr (x, d') \<Longrightarrow> d' = update_license s lid (\<lambda>l. l\<lparr>l_points := tot\<rparr>) d"
  by (auto simp: set_points_def split: if_splits)

lemma auto_suspend_run:
  assumes run: "auto_suspend s sur ten lid threshold months tot w = (Inr b, w1)"
    and tx: "w_snap w \<noteq> None" and alive: "\<not> w_aborted w1"
  shows "b = (threshold \<le> tot \<and> active_suspensions s lid (db_now sur) (w_db w) = [])
    \<and> w_db w1 = (if b then (update_license s lid (suspend_until (Some (date_of (suspension_end (go_now sur) months)))) (w_db w))
                        \<lparr>suspensions := suspensions (w_db w) @ [auto_suspension sur ten lid months]\<rparr> else w_db w)"
proof (cases "threshold \<le> tot")
  case False
  with run show ?thesis by (simp add: auto_suspend_def)
next
  case True
  from run True obtain res w2 where
    count: "(exec_try (query (\<lambda>d. length (active_suspensions s lid (db_now sur) d))) :: (sqlerr + nat) demerit_job) w = (Inr res, w2)" and
    rest: "(if (case res of Inl _ \<Rightarrow> 0 | Inr n \<Rightarrow> n) = 0 then
        andthen (stmt (insert_suspension s (auto_suspension sur ten lid months)))
          (andthen (stmt (change (update_license s lid (suspend_until (Some (date_of (suspension_end (go_now sur) months)))))))
          (ret True)) else ret False) w2 = (Inr b, w1)"
    by (auto simp: auto_suspend_def elim!: bindE)
  have alive2: "\<not> w_aborted w2"
    using rest alive by (auto split: if_splits elim!: andthenE exec_orE)
  from try_query_settled [OF count tx alive2] have res: "res = Inr (length (active_suspensions s lid (db_now sur) (w_db w)))"
    and db2: "w_db w2 = w_db w" by simp_all
  show ?thesis
  proof (cases "active_suspensions s lid (db_now sur) (w_db w) = []")
    case none: True
    with rest res have b: "b = True" and
      "\<exists>x w3. stmt (insert_suspension s (auto_suspension sur ten lid months)) w2 = (Inr x, w3)
        \<and> w_db w1 = update_license s lid (suspend_until (Some (date_of (suspension_end (go_now sur) months)))) (w_db w3)"
      by (auto elim!: andthenE dest!: exec_change_db)
    then obtain x w3 where ins: "stmt (insert_suspension s (auto_suspension sur ten lid months)) w2 = (Inr x, w3)"
      and db1: "w_db w1 = update_license s lid (suspend_until (Some (date_of (suspension_end (go_now sur) months)))) (w_db w3)" by blast
    from exec_db [OF ins] have "w_db w3 = (w_db w)\<lparr>suspensions := suspensions (w_db w) @ [auto_suspension sur ten lid months]\<rparr>"
      by (simp add: insert_suspension_Inr db2)
    with b none True show ?thesis by (simp add: db1 update_license_def)
  next
    case False
    with rest res db2 show ?thesis by simp
  qed
qed

lemma tx_auto_suspend: "keeps same_tx (auto_suspend s sur ten lid threshold months tot)"
  unfolding auto_suspend_def by (intro db_tx_steps)

lemma update_rows_twice:
  assumes "\<And>r. ten (f r) = ten r" and "\<And>r. P (f r) = P r"
  shows "update_rows ten s P g (update_rows ten s P f rows) = update_rows ten s P (\<lambda>r. g (f r)) rows"
  using assms by (simp add: update_rows_def)

lemma written_events:
  assumes "w_db w7 = (w_db w6)\<lparr>outbox := outbox (w_db w6) @ [outbox_row_of sur k1 env]\<rparr>"
    and "(if b then WriteOutbox k s sur env2 else ret ()) w7 = (Inr u, w')"
  shows "\<exists>ns. length ns = (if b then 2 else 1)
    \<and> w_db w' = (w_db w6)\<lparr>outbox := outbox (w_db w6) @ map2 (outbox_row_of sur) ns (env # (if b then [env2] else []))\<rparr>"
proof (cases b)
  case True
  with assms(2) obtain k2 where "w_db w' = (w_db w7)\<lparr>outbox := outbox (w_db w7) @ [outbox_row_of sur k2 env2]\<rparr>"
    by (auto elim: WriteOutbox_db)
  with True assms(1) show ?thesis by (intro exI [of _ "[k1, k2]"]) simp
next
  case False
  with assms show ?thesis by (intro exI [of _ "[k1]"]) simp
qed

lemma settle_run:
  assumes run: "settle eng s sur ten fid lid code points (threshold, window, months) w = (Inr x, w')" and tx: "w_snap w \<noteq> None"
  shows "x = lid \<and> settled eng s sur ten fid lid code points (threshold, window, months) (w_db w) (w_db w')"
proof -
  let ?d = "w_db w"
  from run obtain tot w4 u5 w5 b w6 u7 w7 u8 where
    tot: "stmt (query (ledger_total s lid (eg_months_ago eng (db_now sur) window))) w = (Inr tot, w4)" and
    pts: "stmt (set_points s lid tot) w4 = (Inr u5, w5)" and
    auto_run: "auto_suspend s sur ten lid threshold months tot w5 = (Inr b, w6)" and
    ev1: "WriteOutbox (Some PlainError) s sur (demerit_event sur ten lid fid code points tot) w6 = (Inr u7, w7)" and
    ev2: "(if b then WriteOutbox (Some PlainError) s sur (suspended_event sur ten lid months) else ret ()) w7 = (Inr u8, w')" and
    x: "x = lid"
    unfolding settle_def prod.case by (elim bindE andthenE) (rule that; simp)
  from exec_query_db [OF tot] have t: "tot = ledger_total s lid (eg_months_ago eng (db_now sur) window) ?d"
    and db4: "w_db w4 = ?d" by simp_all
  from exec_db [OF pts] have db5: "w_db w5 = update_license s lid (\<lambda>l. l\<lparr>l_points := tot\<rparr>) ?d"
    using set_points_Inr by (simp add: db4)
  from tot pts tx have tx5: "w_snap w5 \<noteq> None" by (auto elim!: exec_orE)
  from ev1 have "\<not> w_aborted w6" by (elim WriteOutboxE)
  from auto_suspend_run [OF auto_run tx5 this] have
    b: "b = (threshold \<le> tot \<and> active_suspensions s lid (db_now sur) ?d = [])" and
    db6: "w_db w6 = (if b then (update_license s lid (suspend_until (Some (date_of (suspension_end (go_now sur) months)))) (w_db w5))
            \<lparr>suspensions := suspensions ?d @ [auto_suspension sur ten lid months]\<rparr> else w_db w5)"
    by (auto simp: db5 update_license_def active_suspensions_def)
  from ev1 obtain k1 where db7: "w_db w7 = (w_db w6)\<lparr>outbox := outbox (w_db w6) @ [outbox_row_of sur k1 (demerit_event sur ten lid fid code points tot)]\<rparr>"
    by (rule WriteOutbox_db)
  have "\<exists>ns. length ns = (if b then 2 else 1) \<and> w_db w' = (w_db w6)\<lparr>outbox := outbox (w_db w6) @ map2 (outbox_row_of sur) ns
      (demerit_event sur ten lid fid code points tot # (if b then [suspended_event sur ten lid months] else []))\<rparr>"
    by (rule written_events [OF db7 ev2])
  then obtain ns where ns: "length ns = (if b then 2 else 1)" and
    db': "w_db w' = (w_db w6)\<lparr>outbox := outbox (w_db w6) @ map2 (outbox_row_of sur) ns
      (demerit_event sur ten lid fid code points tot # (if b then [suspended_event sur ten lid months] else []))\<rparr>" by blast
  have "settled eng s sur ten fid lid code points (threshold, window, months) ?d (w_db w')"
    unfolding settled_def prod.case Let_def t [symmetric] b [symmetric]
    by (rule exI [of _ ns]) (simp add: ns db' db6 db5 update_license_def update_rows_twice suspend_until_def)
  with x show ?thesis by simp
qed

lemma tx_settle: "keeps same_tx (settle eng s sur ten fid lid code points lims)"
  unfolding settle_def by (intro db_tx_steps tx_auto_suspend)

lemma settle_alive:
  assumes "settle eng s sur ten fid lid code points lims w = (Inr x, w')"
  shows "\<not> w_aborted w"
  using assms by (auto simp: settle_def split: prod.splits elim!: bindE exec_orE)

lemma book_points_run:
  assumes run: "book_points eng s sur ten fid lid code points w = (Inr x, w')" and tx: "w_snap w \<noteq> None"
  shows "x = lid \<and> booked eng s sur ten fid lid code points (w_db w) (w_db w')"
proof -
  let ?d = "w_db w"
  from run obtain n w1 w2 u res w3 where
    "(nextval ''driver_demerit_events'' :: int demerit_job) w = (Inr n, w1)" and
    ins: "stmt (insert_demerit s (ledger_row sur n ten lid fid code points)) w1 = (Inr u, w2)" and
    pol: "(exec_try (query_row (policy_row s ten)) :: (sqlerr + demerit_policy_row) demerit_job) w2 = (Inr res, w3)" and
    rest: "settle eng s sur ten fid lid code points (limits res) w3 = (Inr x, w')"
    unfolding book_points_def by (elim bindE andthenE) (rule that; simp)
  then have w1: "w_db w1 = ?d" "w_snap w1 = w_snap w" by (auto elim!: nextvalE)
  from exec_db [OF ins] have db2: "w_db w2 = ?d\<lparr>demerits := demerits ?d @ [ledger_row sur n ten lid fid code points]\<rparr>"
    and ok: "license_exists lid ?d" "sees s ten"
    by (simp_all add: insert_demerit_Inr w1) (simp_all add: ledger_row_def)
  from ins w1 tx have tx2: "w_snap w2 \<noteq> None" by (auto elim!: exec_orE)
  obtain threshold window months where lim: "limits res = (threshold, window, months)" by (cases "limits res")
  from try_row_settled [OF pol tx2 settle_alive [OF rest]] have lim': "policy_limits s ten ?d = (threshold, window, months)"
    and w3: "w_db w3 = w_db w2" "w_snap w3 = w_snap w2"
    using lim by (auto simp: policy_limits_def policy_row_def db2)
  from w3 tx2 have tx3: "w_snap w3 \<noteq> None" by simp
  from settle_run [OF rest [unfolded lim] tx3] have x: "x = lid"
    and "settled eng s sur ten fid lid code points (threshold, window, months) (w_db w2) (w_db w')"
    by (simp_all add: w3)
  then show ?thesis
    using ok unfolding booked_def lim' db2 by blast
qed

section \<open>The engine refines its specification\<close>

lemma tx_apply_tx: "keeps same_tx (apply_tx eng s sur ten fine_id)"
  unfolding apply_tx_def book_points_def by (intro db_tx_steps tx_settle)

lemma book_points_stops: "stops_with (\<lambda>r. r = Some PlainError) (book_points eng s sur ten fid lid code points)"
  unfolding book_points_def settle_def auto_suspend_def by (intro db_sw_steps refl)

lemma row_missing:
  "exec_or (no_rows_or None (Some PlainError)) (query_row f) w = (Inl None, w1) \<Longrightarrow> f (w_db w) = None"
  by (auto simp: exec_or_def exec_try_def Let_def bind_def stop_def ret_def no_rows_or_def query_row_def
      split: if_splits option.splits)

lemma apply_tx_run:
  assumes run: "apply_tx eng s sur ten (Some fid) w = (res, w')" and tx: "w_snap w \<noteq> None"
  shows "case res of
      Inr lid \<Rightarrow> \<exists>code points. fine_points s ten fid (w_db w) = Some (Some lid, code, points) \<and> points \<noteq> 0
        \<and> booked eng s sur ten fid lid code points (w_db w) (w_db w')
    | Inl e \<Rightarrow> e = None \<longrightarrow> (case fine_points s ten fid (w_db w) of Some (Some lid, code, points) \<Rightarrow> points = 0 | _ \<Rightarrow> True)"
proof -
  obtain q w1 where q: "exec_or (no_rows_or None (Some PlainError)) (query_row (fine_points s ten fid)) w = (q, w1)" by fastforce
  from run q have rest: "(case q of Inl r \<Rightarrow> (Inl r, w1) | Inr (license, code, points) \<Rightarrow>
      (case license of None \<Rightarrow> stop None
       | Some lid \<Rightarrow> if points = 0 then stop None else book_points eng s sur ten fid lid code points) w1) = (res, w')"
    by (simp add: apply_tx_def bind_def split: sum.splits prod.splits)
  from q show ?thesis
  proof (cases rule: exec_or_outcome)
    case (ok x)
    obtain license code points where x: "x = (license, code, points)" by (cases x) auto
    from ok have seen: "fine_points s ten fid (w_db w) = Some (license, code, points)" and
      db1: "w_db w1 = w_db w" "w_snap w1 = w_snap w" by (simp_all add: x)
    have booked: "lid' = lid \<and> booked eng s sur ten fid lid code points (w_db w) (w_db w')"
      if "book_points eng s sur ten fid lid code points w1 = (Inr lid', w')" for lid lid'
      using book_points_run [OF that] tx db1 by simp
    have failed: "e = Some PlainError" if "book_points eng s sur ten fid lid code points w1 = (Inl e, w')" for lid e
      using book_points_stops that by (rule stops_withD)
    show ?thesis
      using rest ok(1) seen x booked failed
      by (cases license; cases "points = 0"; cases res) (auto simp: stop_def dest!: failed)
  next
    case (failed e)
    then show ?thesis
      using rest q by (auto dest!: row_missing split: option.splits)
  qed
qed

lemma apply_tx_nil:
  assumes run: "in_tx (Some PlainError) (apply_tx eng s sur ten (Some fid)) w = (Inl None, w')"
  shows "case fine_points s ten fid (w_db w) of Some (Some lid, code, points) \<Rightarrow> points = 0 | _ \<Rightarrow> True"
proof -
  obtain b w1 wb where body: "apply_tx eng s sur ten (Some fid) w1 = (b, wb)" and w1: "w_db w1 = w_db w" "w_snap w1 \<noteq> None"
    and "b = Inl None"
    using run by (auto simp: in_tx_def defer_rollback_def andthen_def bind_def tx_begin_def tx_commit_def ret_def Let_def
        split: prod.splits sum.splits if_splits)
  with apply_tx_run [OF body w1(2)] w1(1) show ?thesis by simp
qed

lemma applyForFine_spec:
  assumes run: "finish (applyForFine eng sur ten (Some fid)) w = (res, w')" and idle: "w_snap w = None"
  shows "case res of
      Some e \<Rightarrow> w_db w' = w_db w
    | None \<Rightarrow> demerit_outcome eng (session_of (eg_pool eng) []) sur ten fid (w_db w) (w_db w')"
proof -
  let ?s = "session_of (eg_pool eng) []"
  obtain q w1 where q: "stmt (query (\<lambda>_. ())) w = (q, w1)" by fastforce
  from q have w1: "w_db w1 = w_db w" "w_snap w1 = w_snap w" by (cases rule: exec_or_outcome; simp)+
  obtain r w2 where tx: "in_tx (Some PlainError) (apply_tx eng ?s sur ten (Some fid)) w1 = (r, w2)" by fastforce
  from w1 idle have idle1: "w_snap w1 = None" by simp
  have same: "w_db w' = w_db w2 \<and> res = (case r of Inl e \<Rightarrow> e | Inr _ \<Rightarrow> None)" if "q = Inr ()"
    using run q tx that
    by (auto simp: applyForFine_def finish_def andthen_def bind_def audit_Emit_def emit_def ret_def split: sum.splits if_splits)
  show ?thesis
  proof (cases q)
    case (Inl e)
    from q Inl have "e = Some PlainError" by (cases rule: exec_or_outcome) auto
    with run q Inl have "res = Some PlainError" "w' = w1"
      by (auto simp: applyForFine_def finish_def andthen_def bind_def)
    with w1 show ?thesis by simp
  next
    case (Inr u)
    from tx idle1 tx_apply_tx show ?thesis
    proof (cases rule: in_tx_cases)
      case (committed lid wa wb)
      from apply_tx_run [OF committed(2)] committed Inr same w1 show ?thesis
        by (auto simp: demerit_outcome_def)
    next
      case (rolledback e)
      show ?thesis
      proof (cases e)
        case None
        with tx rolledback have "case fine_points ?s ten fid (w_db w1) of Some (Some lid, code, points) \<Rightarrow> points = 0 | _ \<Rightarrow> True"
          by (intro apply_tx_nil) simp
        with None rolledback Inr same w1 show ?thesis
          by (auto simp: demerit_outcome_def split: option.splits)
      qed (use rolledback Inr same w1 in simp)
    qed
  qed
qed

text \<open>C18
  The engine refines its specification, whatever fails: a run that returns an error leaves the
  database as it was, and a run that returns \<open>nil\<close> did exactly what \<open>demerit_outcome\<close> says. A
  fine that is not there, has no driver's license or an offence without points changes nothing;
  for any other the ledger gets one row, the points of the license become the ledger's total over
  the policy window, a suspension is opened if and only if that total reaches the threshold and
  none is active, and one or two events are written.
\<close>

theorem applyForFine_refines:
  assumes run: "finish (applyForFine eng sur ten (Some fid)) w = (res, w')" and idle: "w_snap w = None"
  shows "case res of
      Some e \<Rightarrow> w_db w' = w_db w
    | None \<Rightarrow> demerit_outcome eng (session_of (eg_pool eng) []) sur ten fid (w_db w) (w_db w')"
  using run idle by (rule applyForFine_spec)

text \<open>One driver with eight points on the ledger and a fine worth five.\<close>

definition demo_clock :: surroundings where
  "demo_clock = \<lparr>go_now = days 1000, db_now = days 1000, new_uuid = (\<lambda>n. 900 + n)\<rparr>"

definition demo_engine :: engine where
  "demo_engine = \<lparr>eg_pool = BypassesRls, eg_audit = [], eg_months_ago = (\<lambda>t m. t - days (30 * m))\<rparr>"

definition demo_driver :: license_row where
  "demo_driver = \<lparr>l_id = 7, l_tenant = ''no'', l_user_id = Some 3, l_number = ''DL-1'', l_full_name = ''Kari'',
     l_classes = [''B''], l_date_of_birth = None, l_issued_at = Some 0, l_expires_at = Some 9000, l_points = 8,
     l_is_suspended = False, l_suspended_until = None\<rparr>"

definition demo_speeding :: fine_row where
  "demo_speeding = \<lparr>f_id = 1, f_tenant = ''no'', f_vehicle_id = None, f_plate = ''EL12345'', f_driver_user_id = Some 3,
     f_driver_license_id = Some 7, f_offence_code = ''SPEED'', f_amount = 50000, f_currency = ''NOK'', f_status = Issued,
     f_issued_by = 5, f_issued_at = days 1000, f_device_id = ''d'', f_geo_lat = 0, f_geo_lng = 0, f_geo_accuracy = 0,
     f_due_at = days 1014, f_paid_at = None, f_stage = 0, f_notes = None\<rparr>"

definition demo_ledger :: dbworld where
  "demo_ledger = world_of (empty_db\<lparr>packs := [(''no'', [(''SPEED'', 5)])], licenses := [demo_driver], fines := [demo_speeding],
     demerits := [\<lparr>de_id = 0, de_tenant = ''no'', de_license_id = 7, de_delta = 8, de_reason = ''fine:RED'', de_source = ''fine'',
       de_source_id = Some 2, de_occurred_at = days 900\<rparr>]\<rparr>)"

theorem applyForFine_refines_witness:
  "fst (finish (applyForFine demo_engine demo_clock ''no'' (Some 1)) demo_ledger) = None
   \<and> demerit_outcome demo_engine BypassRls demo_clock ''no'' 1 (w_db demo_ledger)
       (w_db (snd (finish (applyForFine demo_engine demo_clock ''no'' (Some 1)) demo_ledger)))"
proof -
  let ?run = "finish (applyForFine demo_engine demo_clock ''no'' (Some 1)) demo_ledger"
  have ok: "fst ?run = None" by code_simp
  have idle: "w_snap demo_ledger = None" by (simp add: demo_ledger_def world_of_def)
  from applyForFine_refines [OF prod.collapse [symmetric] idle, of demo_engine demo_clock "''no''" 1] ok
  show ?thesis by (simp add: demo_engine_def)
qed

text \<open>The five points bring the driver to thirteen: suspended for 180 days.\<close>

lemma threshold_suspends:
  "(let d = w_db (snd (finish (applyForFine demo_engine demo_clock ''no'' (Some 1)) demo_ledger))
    in (map l_points (licenses d), map l_is_suspended (licenses d), map ds_ends_at (suspensions d), length (outbox d)))
   = ([13], [True], [Some (days 1180)], 2)"
  by code_simp

text \<open>
  The bus delivers at least once, and the engine does not recognise a fine it has booked: the same
  event delivered again books the points again.
\<close>

lemma redelivery_books_twice:
  "(let w1 = snd (finish (applyForFine demo_engine demo_clock ''no'' (Some 1)) demo_ledger);
        d = w_db (snd (finish (applyForFine demo_engine demo_clock ''no'' (Some 1)) w1))
    in (map l_points (licenses d), map de_source_id (demerits d))) = ([18], [Some 2, Some 1, Some 1])"
  by code_simp

section \<open>Length of a suspension\<close>

text \<open>
  An automatic suspension over at most 3558 months of policy lasts exactly thirty days per month:
  up to there the 64-bit duration does not overflow.
\<close>

theorem suspension_end_exact:
  assumes "0 \<le> months" and "months \<le> 3558"
  shows "suspension_end start months = start + days (30 * months)"
proof -
  have "word_of_int months * 30 * 24 * 3600000000000 = (word_of_int (months * 2592000000000000) :: 64 word)"
    by simp
  then have "suspension_length months = signed_take_bit 63 (months * 2592000000000000)"
    unfolding suspension_length_def by (simp only: sint_sbintrunc') simp
  also have "\<dots> = months * 2592000000000000"
    using assms by (intro signed_take_bit_int_eq_self) auto
  finally have "suspension_length months = months * 2592000000000000" .
  then show ?thesis by (simp add: suspension_end_def days_eq)
qed

theorem suspension_end_exact_witness: "suspension_end 0 3558 = 9222336000000000000 div 1000 \<and> suspension_end 5 6 = 5 + days 180"
  using suspension_end_exact [of 3558 0] suspension_end_exact [of 6 5] by (simp add: days_eq)

text \<open>The bound is tight: one month more and the suspension ends before it starts.\<close>

lemma suspension_end_wraps: "suspension_end start 3559 < start"
  by (simp add: suspension_end_def suspension_length_def sint_sbintrunc')

end
