(* ===== verification/Base64.thy ===== *)
theory Base64
  imports Prelude
begin

text \<open>
  The part of Go's \<open>encoding/base64\<close> the services use. A byte string is a text, each character
  a byte. An encoding is its alphabet (the URL one or the standard one) and whether it pads;
  \<open>RawURLEncoding\<close> does not, \<open>StdEncoding\<close> does. Decoding skips carriage returns and newlines,
  accepts any unused bits in the last digit, and answers \<open>None\<close> for a \<open>CorruptInputError\<close>.
\<close>

section \<open>Digits\<close>

record encoding =
  url_alphabet :: bool
  padded :: bool

definition RawURLEncoding :: encoding where
  "RawURLEncoding = \<lparr>url_alphabet = True, padded = False\<rparr>"

definition StdEncoding :: encoding where
  "StdEncoding = \<lparr>url_alphabet = False, padded = True\<rparr>"

definition code_of :: "char \<Rightarrow> nat" where
  "code_of c = of_char c"

definition digit :: "bool \<Rightarrow> nat \<Rightarrow> char" where
  "digit url n =
     (if n < 26 then char_of (65 + n)
      else if n < 52 then char_of (71 + n)
      else if n < 62 then char_of (n - 4)
      else if n = 62 then (if url then CHR ''-'' else CHR ''+'')
      else (if url then CHR ''_'' else CHR ''/''))"

definition digit_value :: "bool \<Rightarrow> char \<Rightarrow> nat option" where
  "digit_value url c =
     (let n = code_of c in
      if 65 \<le> n \<and> n \<le> 90 then Some (n - 65)
      else if 97 \<le> n \<and> n \<le> 122 then Some (n - 71)
      else if 48 \<le> n \<and> n \<le> 57 then Some (n + 4)
      else if c = (if url then CHR ''-'' else CHR ''+'') then Some 62
      else if c = (if url then CHR ''_'' else CHR ''/'') then Some 63
      else None)"

section \<open>Encoding and decoding\<close>

fun encode_bytes :: "bool \<Rightarrow> nat list \<Rightarrow> string" where
  "encode_bytes url [] = []"
| "encode_bytes url [x] = [digit url (x div 4), digit url (x mod 4 * 16)]"
| "encode_bytes url [x, y] = [digit url (x div 4), digit url (x mod 4 * 16 + y div 16), digit url (y mod 16 * 4)]"
| "encode_bytes url (x # y # z # r) =
     digit url (x div 4) # digit url (x mod 4 * 16 + y div 16) # digit url (y mod 16 * 4 + z div 64)
       # digit url (z mod 64) # encode_bytes url r"

text \<open>\<open>EncodeToString\<close> of an encoding without padding.\<close>

definition EncodeToString :: "encoding \<Rightarrow> string \<Rightarrow> string" where
  "EncodeToString enc s = encode_bytes (url_alphabet enc) (map code_of s)"

text \<open>One quantum of digits gives one, two or three bytes.\<close>

fun quantum :: "bool \<Rightarrow> string \<Rightarrow> nat list option" where
  "quantum url [a, b] =
     (case (digit_value url a, digit_value url b) of
        (Some i, Some j) \<Rightarrow> Some [(i * 4 + j div 16) mod 256]
      | _ \<Rightarrow> None)"
| "quantum url [a, b, c] =
     (case (digit_value url a, digit_value url b, digit_value url c) of
        (Some i, Some j, Some k) \<Rightarrow> Some [(i * 4 + j div 16) mod 256, (j mod 16 * 16 + k div 4) mod 256]
      | _ \<Rightarrow> None)"
| "quantum url [a, b, c, e] =
     (case (digit_value url a, digit_value url b, digit_value url c, digit_value url e) of
        (Some i, Some j, Some k, Some l) \<Rightarrow>
          Some [(i * 4 + j div 16) mod 256, (j mod 16 * 16 + k div 4) mod 256, (k mod 4 * 64 + l) mod 256]
      | _ \<Rightarrow> None)"
| "quantum url _ = None"

fun decode_digits :: "encoding \<Rightarrow> string \<Rightarrow> nat list option" where
  "decode_digits enc [] = Some []"
| "decode_digits enc (a # b # c # e # r) =
     (if padded enc \<and> e = CHR ''='' \<and> c = CHR ''='' then (if r = [] then quantum (url_alphabet enc) [a, b] else None)
      else if padded enc \<and> e = CHR ''='' then (if r = [] then quantum (url_alphabet enc) [a, b, c] else None)
      else case quantum (url_alphabet enc) [a, b, c, e] of
             None \<Rightarrow> None
           | Some bs \<Rightarrow> map_option (\<lambda>cs. bs @ cs) (decode_digits enc r))"
| "decode_digits enc rest = (if padded enc then None else quantum (url_alphabet enc) rest)"

definition DecodeString :: "encoding \<Rightarrow> string \<Rightarrow> string option" where
  "DecodeString enc s =
     map_option (map char_of) (decode_digits enc (filter (\<lambda>c. c \<noteq> CHR 0x0A \<and> c \<noteq> CHR 0x0D) s))"

section \<open>What is encoded decodes\<close>

lemma code_of_char [simp]: "n < 256 \<Longrightarrow> code_of (char_of n) = n"
  by (simp add: code_of_def)

lemma code_of_less [simp]: "code_of c < 256"
  by (simp add: code_of_def)

lemma code_of_inject: "code_of c = code_of c' \<longleftrightarrow> c = c'"
  by (simp add: code_of_def)

lemma code_of_digit:
  assumes "n < 64"
  shows "code_of (digit url n) =
    (if n < 26 then 65 + n else if n < 52 then 71 + n else if n < 62 then n - 4
     else if n = 62 then (if url then 45 else 43) else (if url then 95 else 47))"
  using assms by (simp add: digit_def) (simp add: code_of_def)

lemma digit_value_digit [simp]:
  assumes "n < 64"
  shows "digit_value url (digit url n) = Some n"
proof -
  have special: "c = CHR ''-'' \<longleftrightarrow> code_of c = 45" "c = CHR ''+'' \<longleftrightarrow> code_of c = 43"
    "c = CHR ''_'' \<longleftrightarrow> code_of c = 95" "c = CHR ''/'' \<longleftrightarrow> code_of c = 47" for c
    using code_of_inject [of c "CHR ''-''"] code_of_inject [of c "CHR ''+''"]
      code_of_inject [of c "CHR ''_''"] code_of_inject [of c "CHR ''/''"] by (simp_all add: code_of_def)
  show ?thesis
    unfolding digit_value_def Let_def using assms
    by (cases url) (simp_all add: special code_of_digit, linarith+)
qed

lemma digit_clean [simp]:
  assumes "n < 64"
  shows "digit url n \<noteq> CHR 0x0A" "digit url n \<noteq> CHR 0x0D" "digit url n \<noteq> CHR ''.''"
proof -
  have "code_of (digit url n) \<notin> {10, 13, 46}"
    using assms by (auto simp: code_of_digit)
  then show "digit url n \<noteq> CHR 0x0A" "digit url n \<noteq> CHR 0x0D" "digit url n \<noteq> CHR ''.''"
    by (auto simp: code_of_def)
qed

lemma unpack:
  fixes a b m :: nat
  assumes "b < m"
  shows "(a * m + b) div m = a" and "(a * m + b) mod m = b"
  using assms by simp_all

lemma sextet_less [simp]:
  fixes x y :: nat
  assumes "x < 256"
  shows "x div 4 < 64" "x mod 4 * 16 < 64" "x mod 64 < 64" "x mod 16 * 4 < 64"
    "y < 256 \<Longrightarrow> y mod 4 * 16 + x div 16 < 64" "y < 256 \<Longrightarrow> y mod 16 * 4 + x div 64 < 64"
proof -
  have "y mod 4 < 4" "y mod 16 < 16" "x mod 4 < 4" "x mod 16 < 16" "x div 16 < 16" "x div 64 < 4"
    using assms by (auto simp: less_mult_imp_div_less)
  then show "x mod 4 * 16 < 64" "x mod 16 * 4 < 64" "y mod 4 * 16 + x div 16 < 64" "y mod 16 * 4 + x div 64 < 64"
    by linarith+
  show "x div 4 < 64" "x mod 64 < 64"
    using assms by (auto simp: less_mult_imp_div_less)
qed

definition is_digit :: "bool \<Rightarrow> char \<Rightarrow> bool" where
  "is_digit url c \<longleftrightarrow> (\<exists>n<64. c = digit url n)"

lemma is_digitI [simp]: "n < 64 \<Longrightarrow> is_digit url (digit url n)"
  by (auto simp: is_digit_def)

lemma encode_bytes_digits:
  assumes "\<forall>x\<in>set xs. x < 256"
  shows "\<forall>c\<in>set (encode_bytes url xs). is_digit url c"
  using assms by (induction url xs rule: encode_bytes.induct) simp_all

lemma encoded_clean:
  assumes "\<forall>x\<in>set xs. x < 256" and "c \<in> set (encode_bytes url xs)"
  shows "c \<noteq> CHR 0x0A" "c \<noteq> CHR 0x0D" "c \<noteq> CHR ''.''"
  using encode_bytes_digits [OF assms(1), of url] assms(2) unfolding is_digit_def
  by (metis digit_clean)+

lemma byte_split:
  fixes x y z :: nat
  shows "x < 256 \<Longrightarrow> y < 256 \<Longrightarrow> (x div 4 * 4 + (x mod 4 * 16 + y div 16) div 16) mod 256 = x"
    and "y < 256 \<Longrightarrow> z < 256 \<Longrightarrow> ((x mod 4 * 16 + y div 16) mod 16 * 16 + (y mod 16 * 4 + z div 64) div 4) mod 256 = y"
    and "z < 256 \<Longrightarrow> ((y mod 16 * 4 + z div 64) mod 4 * 64 + z mod 64) mod 256 = z"
    and "x < 256 \<Longrightarrow> (x div 4 * 4 + x mod 4 * 16 div 16) mod 256 = x"
    and "y < 256 \<Longrightarrow> ((x mod 4 * 16 + y div 16) mod 16 * 16 + y mod 16 * 4 div 4) mod 256 = y"
proof -
  have join: "(x mod 4 * 16 + y div 16) div 16 = x mod 4" "(x mod 4 * 16 + y div 16) mod 16 = y div 16" if "y < 256"
    using that by (simp_all add: unpack less_mult_imp_div_less)
  have join': "(y mod 16 * 4 + z div 64) div 4 = y mod 16" "(y mod 16 * 4 + z div 64) mod 4 = z div 64" if "z < 256"
    using that by (simp_all add: unpack less_mult_imp_div_less)
  show "x < 256 \<Longrightarrow> y < 256 \<Longrightarrow> (x div 4 * 4 + (x mod 4 * 16 + y div 16) div 16) mod 256 = x"
    by (simp only: join) simp
  show "y < 256 \<Longrightarrow> z < 256 \<Longrightarrow> ((x mod 4 * 16 + y div 16) mod 16 * 16 + (y mod 16 * 4 + z div 64) div 4) mod 256 = y"
    by (simp only: join join') simp
  show "z < 256 \<Longrightarrow> ((y mod 16 * 4 + z div 64) mod 4 * 64 + z mod 64) mod 256 = z"
    by (simp only: join') simp
  show "x < 256 \<Longrightarrow> (x div 4 * 4 + x mod 4 * 16 div 16) mod 256 = x" by simp
  show "y < 256 \<Longrightarrow> ((x mod 4 * 16 + y div 16) mod 16 * 16 + y mod 16 * 4 div 4) mod 256 = y"
    by (simp only: join) simp
qed

lemma decode_encode_digits:
  assumes "\<forall>x\<in>set xs. x < 256" and "\<not> padded enc"
  shows "decode_digits enc (encode_bytes (url_alphabet enc) xs) = Some xs"
  using assms
proof (induction "url_alphabet enc" xs rule: encode_bytes.induct)
  case (2 x)
  then show ?case by (simp add: byte_split)
next
  case (3 x y)
  then show ?case by (simp add: byte_split less_mult_imp_div_less)
next
  case (4 x y z r)
  then show ?case by (simp add: byte_split less_mult_imp_div_less)
qed simp

lemma filter_encoded:
  assumes "\<forall>x\<in>set xs. x < 256"
  shows "filter (\<lambda>c. c \<noteq> CHR 0x0A \<and> c \<noteq> CHR 0x0D) (encode_bytes url xs) = encode_bytes url xs"
  by (rule filter_True) (use encoded_clean [OF assms] in blast)

lemma encoded_no_dot: "CHR ''.'' \<notin> set (EncodeToString enc s)"
  using encoded_clean(3) [of "map code_of s" "CHR ''.''" "url_alphabet enc"] by (auto simp: EncodeToString_def)

text \<open>\<open>DecodeString\<close> is a left inverse of an encoder without padding, for every byte string.\<close>

lemma DecodeString_EncodeToString:
  assumes "\<not> padded enc"
  shows "DecodeString enc (EncodeToString enc s) = Some s"
proof -
  have bytes: "\<forall>x\<in>set (map code_of s). x < 256" by simp
  have "map (char_of \<circ> code_of) s = s"
    by (rule map_idI) (simp add: code_of_def)
  then show ?thesis
    by (simp add: DecodeString_def EncodeToString_def filter_encoded [OF bytes] decode_encode_digits [OF bytes assms])
qed

end
