(* ===== verification/LicenseToken.thy ===== *)
theory LicenseToken
  imports Base64
begin

text \<open>
  The signed bundle a driver shows an officer (\<open>services/license/internal/api/verify.go\<close>):
  version tag, body and signature, separated by dots. HMAC-SHA256 and the JSON codec of the
  bundle are parameters. The license id travels as text; \<open>None\<close> is a text that is no UUID.
\<close>

section \<open>Bundles\<close>

record verify_bundle =
  vb_v :: int
  vb_lid :: "uuid option"
  vb_tid :: string
  vb_number :: string
  vb_iat :: int
  vb_exp :: int

record token_scheme =
  ts_marshal :: "verify_bundle \<Rightarrow> string"
  ts_unmarshal :: "string \<Rightarrow> verify_bundle option"
  ts_hmac :: "string \<Rightarrow> string \<Rightarrow> string"

datatype token_error = InvalidFormat | BadBase64 | SignatureMismatch | BadJson | TokenExpired

text \<open>\<open>Unix()\<close> of a time.\<close>

definition unix :: "time \<Rightarrow> int" where
  "unix t = t div 1000000"

definition signBundle :: "token_scheme \<Rightarrow> string \<Rightarrow> verify_bundle \<Rightarrow> string" where
  "signBundle ts secret b =
     (let body = ts_marshal ts b; sig = ts_hmac ts secret body
      in ''n1.'' @ EncodeToString RawURLEncoding body @ ''.'' @ EncodeToString RawURLEncoding sig)"

text \<open>The loop of \<open>splitN\<close>: the finished parts, the part being read, the rest of the text.\<close>

fun split_loop :: "char \<Rightarrow> nat \<Rightarrow> string list \<Rightarrow> string \<Rightarrow> string \<Rightarrow> string list" where
  "split_loop sep n out cur [] = out @ [cur]"
| "split_loop sep n out cur (c # cs) =
     (if length out < n - 1
      then if c = sep then split_loop sep n (out @ [cur]) [] cs else split_loop sep n out (cur @ [c]) cs
      else out @ [cur @ c # cs])"

definition splitN :: "string \<Rightarrow> char \<Rightarrow> nat \<Rightarrow> string list" where
  "splitN s sep n = split_loop sep n [] [] s"

definition verifyBundleString :: "token_scheme \<Rightarrow> string \<Rightarrow> time \<Rightarrow> string \<Rightarrow> token_error + verify_bundle" where
  "verifyBundleString ts secret now tok =
     (case splitN tok CHR ''.'' 3 of
        [tag, e1, e2] \<Rightarrow>
          if tag \<noteq> ''n1'' then Inl InvalidFormat
          else (case DecodeString RawURLEncoding e1 of None \<Rightarrow> Inl BadBase64
          | Some body \<Rightarrow> (case DecodeString RawURLEncoding e2 of None \<Rightarrow> Inl BadBase64
          | Some sig \<Rightarrow>
              if ts_hmac ts secret body \<noteq> sig then Inl SignatureMismatch
              else (case ts_unmarshal ts body of None \<Rightarrow> Inl BadJson
              | Some b \<Rightarrow> if unix now > vb_exp b then Inl TokenExpired else Inr b)))
      | _ \<Rightarrow> Inl InvalidFormat)"

section \<open>Splitting\<close>

lemma split_loop_word: "sep \<notin> set s \<Longrightarrow> split_loop sep n out cur s = out @ [cur @ s]"
  by (induction s arbitrary: cur) auto

lemma split_loop_part:
  "sep \<notin> set s \<Longrightarrow> length out < n - 1 \<Longrightarrow>
     split_loop sep n out cur (s @ sep # t) = split_loop sep n (out @ [cur @ s]) [] t"
  by (induction s arbitrary: cur) auto

lemma split_loop_full: "\<not> length out < n - 1 \<Longrightarrow> split_loop sep n out cur t = out @ [cur @ t]"
  by (cases t) auto

lemma splitN_3: "sep \<notin> set a \<Longrightarrow> sep \<notin> set b \<Longrightarrow> splitN (a @ sep # b @ sep # c) sep 3 = [a, b, c]"
  by (simp add: splitN_def split_loop_part split_loop_full)

text \<open>
  The parts are the text between the separators, and there are at most \<open>n\<close> of them: put together
  again they give the text.
\<close>

fun join :: "char \<Rightarrow> string list \<Rightarrow> string" where
  "join sep [] = []"
| "join sep [p] = p"
| "join sep (p # q # ps) = p @ sep # join sep (q # ps)"

lemma join_snoc: "join sep (ps @ [p, q]) = join sep (ps @ [p]) @ sep # q"
  by (induction sep ps rule: join.induct) simp_all

lemma join_last: "join sep (ps @ [p @ q]) = join sep (ps @ [p]) @ q"
  by (induction sep ps rule: join.induct) simp_all

lemma join_split_loop: "join sep (split_loop sep n out cur s) = join sep (out @ [cur]) @ s"
  by (induction sep n out cur s rule: split_loop.induct) (simp_all add: join_snoc join_last)

lemma join_splitN: "join sep (splitN s sep n) = s"
  by (simp add: splitN_def join_split_loop)

lemma split_loop_clean:
  "p \<in> set (butlast (split_loop sep n out cur s)) \<Longrightarrow> sep \<notin> set cur \<Longrightarrow> p \<in> set out \<or> sep \<notin> set p"
proof (induction sep n out cur s rule: split_loop.induct)
  case (2 sep n out cur c cs)
  then show ?case by (cases "length out < n - 1"; cases "c = sep") auto
qed simp

lemma splitN_clean: "p \<in> set (butlast (splitN s sep n)) \<Longrightarrow> sep \<notin> set p"
  by (auto simp: splitN_def dest: split_loop_clean)

section \<open>Signing and verifying\<close>

text \<open>A signed bundle verifies, to the second of its expiry, when the JSON codec reads back what it wrote.\<close>

lemma bundle_verifies:
  assumes "ts_unmarshal ts (ts_marshal ts b) = Some b"
  shows "verifyBundleString ts secret now (signBundle ts secret b) =
    (if unix now \<le> vb_exp b then Inr b else Inl TokenExpired)"
proof -
  have dec: "DecodeString RawURLEncoding (EncodeToString RawURLEncoding s) = Some s" for s
    by (rule DecodeString_EncodeToString) (simp add: RawURLEncoding_def)
  have "splitN (signBundle ts secret b) CHR ''.'' 3 = [''n1'', EncodeToString RawURLEncoding (ts_marshal ts b),
      EncodeToString RawURLEncoding (ts_hmac ts secret (ts_marshal ts b))]"
    using splitN_3 [of "CHR ''.''" "''n1''"] by (simp add: signBundle_def Let_def encoded_no_dot)
  with assms show ?thesis by (simp add: verifyBundleString_def dec)
qed

text \<open>
  The converse: an accepted token has the version tag, a body and a signature that is the keyed
  digest of exactly that body, and its bundle has not expired.
\<close>

lemma verified_token:
  assumes "verifyBundleString ts secret now tok = Inr b"
  obtains e1 e2 body where "tok = ''n1.'' @ e1 @ ''.'' @ e2" and "CHR ''.'' \<notin> set e1"
    and "DecodeString RawURLEncoding e1 = Some body"
    and "DecodeString RawURLEncoding e2 = Some (ts_hmac ts secret body)"
    and "ts_unmarshal ts body = Some b" and "unix now \<le> vb_exp b"
proof -
  from assms obtain e1 e2 body where parts: "splitN tok CHR ''.'' 3 = [''n1'', e1, e2]"
    and rest: "DecodeString RawURLEncoding e1 = Some body"
    "DecodeString RawURLEncoding e2 = Some (ts_hmac ts secret body)"
    "ts_unmarshal ts body = Some b" "unix now \<le> vb_exp b"
    by (auto simp: verifyBundleString_def split: list.splits option.splits if_splits)
  from join_splitN [of "CHR ''.''" tok 3] parts have tok: "tok = ''n1.'' @ e1 @ ''.'' @ e2" by simp
  have clean: "CHR ''.'' \<notin> set e1"
    by (rule splitN_clean [of _ tok _ 3]) (simp add: parts)
  from tok clean rest show thesis by (rule that)
qed

end
