(* ===== verification/License.thy ===== *)
theory License
  imports Demerit LicenseToken
begin

text \<open>
  The driver license service (\<open>services/license/internal/api\<close>): licenses, endorsements,
  suspensions, standing, violations and biometric references (\<open>api.go\<close>), field verification
  (\<open>verify.go\<close>) and the citizen's own license (\<open>me.go\<close>).

  Parameters: the casts of a text to \<open>date\<close> and \<open>timestamptz\<close> in Postgres (\<open>None\<close>: the text
  is rejected), the subtraction of months from a timestamp, SHA-256, and the HMAC and the JSON
  codec of a verification bundle.
\<close>

section \<open>Configuration and answers\<close>

record license_api =
  la_pool :: dbrole
  la_audit :: string
  la_secret :: string
  la_date :: "string \<Rightarrow> date option"
  la_timestamptz :: "string \<Rightarrow> time option"
  la_months_ago :: "time \<Rightarrow> int \<Rightarrow> time"
  la_sha256 :: "string \<Rightarrow> string"
  la_tokens :: token_scheme

record license =
  li_id :: uuid
  li_user_id :: "uuid option"
  li_license_number :: string
  li_full_name :: string
  li_classes :: "string list"
  li_issued_at :: "date option"
  li_expires_at :: "date option"
  li_points :: int
  li_is_suspended :: bool
  li_suspended_until :: "date option"

record endorsement_item =
  ei_id :: uuid
  ei_code :: string
  ei_description :: string
  ei_issued_at :: date
  ei_expires_at :: "date option"

record violation_item =
  vi_id :: uuid
  vi_fine_id :: "uuid option"
  vi_offence_code :: string
  vi_points :: int
  vi_occurred_at :: time
  vi_recorded_at :: time

record suspension_item =
  si_id :: uuid
  si_reason :: string
  si_starts_at :: time
  si_ends_at :: time
  si_lifted_at :: "time option"
  si_trigger_kind :: string

record demerit_entry =
  dm_occurred_at :: time
  dm_delta :: int
  dm_reason :: string
  dm_source :: string
  dm_new_total :: int

datatype license_body =
    OneLicense license
  | LicenseItems "license list"
  | NewId uuid
  | EndorsementItems "endorsement_item list"
  | ActiveSuspension suspension_item
  | Standing license string int int
  | ViolationItems "violation_item list"
  | MyLicense license string int "demerit_entry list" "suspension_item list"
  | Token string time

type_synonym 'a license_step = "(license_body, 'a) handler"
type_synonym license_handler = "(license_body, license_body response) handler"

definition scanLicense :: "license_row \<Rightarrow> license" where
  "scanLicense l =
     \<lparr>li_id = l_id l, li_user_id = l_user_id l, li_license_number = l_number l, li_full_name = l_full_name l,
      li_classes = l_classes l, li_issued_at = l_issued_at l, li_expires_at = l_expires_at l, li_points = l_points l,
      li_is_suspended = l_is_suspended l, li_suspended_until = l_suspended_until l\<rparr>"

text \<open>The scan of a query by id, with \<open>writeIfNotFound\<close> on its error.\<close>

definition writeIfNotFound :: "sqlerr \<Rightarrow> license_body response" where
  "writeIfNotFound e = no_rows_or (write_err ErrNotFound) Internal e"

text \<open>A nullable text under a cast: NULL stays NULL.\<close>

definition cast :: "(string \<Rightarrow> 'a option) \<Rightarrow> string option \<Rightarrow> 'a option option" where
  "cast f x = (case x of None \<Rightarrow> Some None | Some s \<Rightarrow> map_option Some (f s))"

definition deref :: "string option \<Rightarrow> string" where
  "deref s = (case s of None \<Rightarrow> [] | Some x \<Rightarrow> x)"

section \<open>\<open>POST /v1/licenses\<close>\<close>

record license_req =
  lq_user_id :: "uuid option"
  lq_license_number :: string
  lq_full_name :: string
  lq_date_of_birth :: "string option"
  lq_classes :: "string list option"
  lq_issued_at :: "string option"
  lq_expires_at :: "string option"

definition license_clash :: "license_row \<Rightarrow> license_row \<Rightarrow> bool" where
  "license_clash old new \<longleftrightarrow> l_id old = l_id new \<or> (l_tenant old = l_tenant new \<and> l_number old = l_number new)"

text \<open>
  An omitted list of classes is sent as NULL, which the column does not take: its default applies
  only to an insert that leaves the column out.
\<close>

definition license_row_of :: "license_api \<Rightarrow> uuid \<Rightarrow> string \<Rightarrow> license_req \<Rightarrow> license_row option" where
  "license_row_of a lid ten q =
     (case (cast (la_date a) (lq_date_of_birth q), lq_classes q, cast (la_date a) (lq_issued_at q), cast (la_date a) (lq_expires_at q)) of
        (Some dob, Some cls, Some iss, Some expires) \<Rightarrow>
          Some \<lparr>l_id = lid, l_tenant = ten, l_user_id = lq_user_id q, l_number = lq_license_number q,
                l_full_name = lq_full_name q, l_classes = cls, l_date_of_birth = dob, l_issued_at = iss,
                l_expires_at = expires, l_points = 0, l_is_suspended = False, l_suspended_until = None\<rparr>
      | _ \<Rightarrow> None)"

definition insert_license :: "license_api \<Rightarrow> session \<Rightarrow> uuid \<Rightarrow> string \<Rightarrow> license_req \<Rightarrow> db \<Rightarrow> sqlerr + uuid \<times> db" where
  "insert_license a s lid ten q d =
     (case license_row_of a lid ten q of
        None \<Rightarrow> Inl SqlFault
      | Some l \<Rightarrow>
          if \<not> user_exists (l_user_id l) d then Inl ForeignKeyViolation
          else (case insert_row l_tenant s license_clash l (licenses d) of
                  Inl e \<Rightarrow> Inl e
                | Inr rows \<Rightarrow> Inr (lid, d\<lparr>licenses := rows\<rparr>)))"

definition create_license_tx :: "license_api \<Rightarrow> session \<Rightarrow> surroundings \<Rightarrow> reqctx \<Rightarrow> claims \<Rightarrow> license_req \<Rightarrow> uuid license_step" where
  "create_license_tx a s sur ctx c q =
     bind (exec (insert_license a s (new_uuid sur 0) (c_tenant c) q)) (\<lambda>lid.
     andthen (WriteOutbox Internal s sur
       (EnvelopeFromContext sur ctx (new_uuid sur 1) ''license'' (c_tenant c) TypeLicenseIssued 1
         (LicenseIssued lid (lq_license_number q) (lq_user_id q) (case lq_classes q of None \<Rightarrow> [] | Some cls \<Rightarrow> cls)))) (
     ret lid))"

definition create_license :: "license_api \<Rightarrow> surroundings \<Rightarrow> reqctx \<Rightarrow> claims \<Rightarrow> license_req option \<Rightarrow> license_handler" where
  "create_license a sur ctx c body =
     bind (read_json body) (\<lambda>q.
     andthen (guard (lq_license_number q \<noteq> [] \<and> lq_full_name q \<noteq> []) (Err 400 ''missing_fields'')) (
     andthen (WithTenant (Some c)) (
     bind (in_tx Internal (create_license_tx a (session_of (la_pool a) (c_tenant c)) sur ctx c q)) (\<lambda>lid.
     andthen (audit_Emit (la_audit a) ''license'' (Some c) ''license.create'' ''driver_license'' lid) (
     ret (Json 201 (NewId lid)))))))"

section \<open>\<open>GET /v1/licenses/{id}\<close> and \<open>GET /v1/licenses\<close>\<close>

definition get_license :: "license_api \<Rightarrow> claims \<Rightarrow> uuid option \<Rightarrow> license_handler" where
  "get_license a c ident =
     (case ident of
        None \<Rightarrow> stop (write_err ErrBadRequest)
      | Some lid \<Rightarrow>
          andthen (WithTenant (Some c)) (
          bind (exec_or writeIfNotFound (query_row (license_seen (session_of (la_pool a) (c_tenant c)) lid))) (\<lambda>l.
          ret (Json 200 (OneLicense (scanLicense l))))))"

text \<open>\<open>ORDER BY suspended_until DESC NULLS LAST LIMIT 200\<close>.\<close>

definition suspended_licenses :: "session \<Rightarrow> db \<Rightarrow> license list" where
  "suspended_licenses s d =
     (let rows = filter l_is_suspended (rows_seen l_tenant s (licenses d))
      in map scanLicense (take 200
           (sort_key (\<lambda>l. - the (l_suspended_until l)) (filter (\<lambda>l. l_suspended_until l \<noteq> None) rows)
            @ filter (\<lambda>l. l_suspended_until l = None) rows)))"

definition list_licenses :: "license_api \<Rightarrow> claims \<Rightarrow> string \<Rightarrow> string \<Rightarrow> license_handler" where
  "list_licenses a c num suspended =
     andthen (WithTenant (Some c)) (
     if num \<noteq> [] then
       bind (exec_or writeIfNotFound
               (query_row (\<lambda>d. row_seen l_tenant (session_of (la_pool a) (c_tenant c)) (\<lambda>l. l_number l = num) (licenses d)))) (\<lambda>l.
       ret (Json 200 (OneLicense (scanLicense l))))
     else if suspended = ''true'' then
       bind (exec (query (suspended_licenses (session_of (la_pool a) (c_tenant c))))) (\<lambda>items.
       ret (Json 200 (LicenseItems items)))
     else ret (Json 200 (LicenseItems [])))"

section \<open>\<open>PATCH /v1/licenses/{id}\<close>\<close>

record license_patch =
  lp_full_name :: "string option"
  lp_classes :: "string list option"
  lp_expires_at :: "string option"

definition patch_license :: "license_patch \<Rightarrow> date option \<Rightarrow> license_row \<Rightarrow> license_row" where
  "patch_license q expires l =
     l\<lparr>l_full_name := (case lp_full_name q of None \<Rightarrow> l_full_name l | Some n \<Rightarrow> n),
       l_classes := (case lp_classes q of None \<Rightarrow> l_classes l | Some cls \<Rightarrow> cls),
       l_expires_at := or_else expires (l_expires_at l)\<rparr>"

definition update_license_row :: "license_api \<Rightarrow> session \<Rightarrow> uuid \<Rightarrow> license_patch \<Rightarrow> db \<Rightarrow> sqlerr + unit \<times> db" where
  "update_license_row a s lid q d =
     (case cast (la_date a) (lp_expires_at q) of
        None \<Rightarrow> Inl SqlFault
      | Some expires \<Rightarrow> Inr ((), update_license s lid (patch_license q expires) d))"

definition patch_license_handler :: "license_api \<Rightarrow> claims \<Rightarrow> uuid option \<Rightarrow> license_patch option \<Rightarrow> license_handler" where
  "patch_license_handler a c ident body =
     (case ident of
        None \<Rightarrow> stop (write_err ErrBadRequest)
      | Some lid \<Rightarrow>
          bind (read_json body) (\<lambda>q.
          andthen (WithTenant (Some c)) (
          andthen (exec (update_license_row a (session_of (la_pool a) (c_tenant c)) lid q)) (
          andthen (audit_Emit (la_audit a) ''license'' (Some c) ''license.update'' ''driver_license'' lid) (
          ret (Status 204))))))"

section \<open>Endorsements\<close>

record endorsement_req =
  eq_code :: string
  eq_description :: string
  eq_issued_at :: string
  eq_expires_at :: "string option"

definition insert_endorsement ::
    "license_api \<Rightarrow> session \<Rightarrow> uuid \<Rightarrow> string \<Rightarrow> uuid \<Rightarrow> endorsement_req \<Rightarrow> db \<Rightarrow> sqlerr + uuid \<times> db" where
  "insert_endorsement a s eid ten lid q d =
     (case (la_date a (eq_issued_at q), cast (la_date a) (eq_expires_at q)) of
        (Some iss, Some expires) \<Rightarrow>
          if \<not> license_exists lid d then Inl ForeignKeyViolation
          else (case insert_row en_tenant s (\<lambda>old new. en_id old = en_id new)
                  \<lparr>en_id = eid, en_tenant = ten, en_license_id = lid, en_code = eq_code q,
                   en_description = eq_description q, en_issued_at = iss, en_expires_at = expires\<rparr> (endorsements d) of
                  Inl e \<Rightarrow> Inl e
                | Inr rows \<Rightarrow> Inr (eid, d\<lparr>endorsements := rows\<rparr>))
      | _ \<Rightarrow> Inl SqlFault)"

definition addEndorsement :: "license_api \<Rightarrow> surroundings \<Rightarrow> claims \<Rightarrow> uuid option \<Rightarrow> endorsement_req option \<Rightarrow> license_handler" where
  "addEndorsement a sur c ident body =
     (case ident of
        None \<Rightarrow> stop (write_err ErrBadRequest)
      | Some lid \<Rightarrow>
          bind (read_json body) (\<lambda>q.
          andthen (guard (eq_code q \<noteq> [] \<and> eq_issued_at q \<noteq> []) (Err 400 ''missing_fields'')) (
          andthen (WithTenant (Some c)) (
          bind (exec (insert_endorsement a (session_of (la_pool a) (c_tenant c)) (new_uuid sur 0) (c_tenant c) lid q)) (\<lambda>eid.
          andthen (audit_Emit (la_audit a) ''license'' (Some c) ''license.endorsement.add'' ''driver_license'' lid) (
          ret (Json 201 (NewId eid))))))))"

definition endorsement_item_of :: "endorsement_row \<Rightarrow> endorsement_item" where
  "endorsement_item_of r =
     \<lparr>ei_id = en_id r, ei_code = en_code r, ei_description = en_description r, ei_issued_at = en_issued_at r,
      ei_expires_at = en_expires_at r\<rparr>"

definition endorsements_of :: "session \<Rightarrow> uuid \<Rightarrow> db \<Rightarrow> endorsement_item list" where
  "endorsements_of s lid d =
     map endorsement_item_of (sort_key (\<lambda>r. - en_issued_at r)
       (filter (\<lambda>r. en_license_id r = lid) (rows_seen en_tenant s (endorsements d))))"

definition listEndorsements :: "license_api \<Rightarrow> claims \<Rightarrow> uuid option \<Rightarrow> license_handler" where
  "listEndorsements a c ident =
     (case ident of
        None \<Rightarrow> stop (write_err ErrBadRequest)
      | Some lid \<Rightarrow>
          andthen (WithTenant (Some c)) (
          bind (exec (query (endorsements_of (session_of (la_pool a) (c_tenant c)) lid))) (\<lambda>items.
          ret (Json 200 (EndorsementItems items)))))"

section \<open>Suspensions\<close>

record suspension_req =
  sq_reason :: string
  sq_trigger_kind :: string
  sq_starts_at :: "string option"
  sq_ends_at :: "string option"

definition suspension_row_of ::
    "license_api \<Rightarrow> surroundings \<Rightarrow> string \<Rightarrow> uuid \<Rightarrow> uuid \<Rightarrow> suspension_req \<Rightarrow> suspension_row option" where
  "suspension_row_of a sur ten lid user q =
     (case (cast (la_timestamptz a) (sq_starts_at q), cast (la_timestamptz a) (sq_ends_at q)) of
        (Some starts, Some ends) \<Rightarrow>
          Some \<lparr>ds_id = new_uuid sur 0, ds_tenant = ten, ds_license_id = lid, ds_reason = sq_reason q,
                ds_trigger_kind = sq_trigger_kind q, ds_starts_at = (case starts of None \<Rightarrow> db_now sur | Some t \<Rightarrow> t),
                ds_ends_at = ends, ds_lifted_at = None, ds_created_by = Some user\<rparr>
      | _ \<Rightarrow> None)"

definition insert_ordered_suspension ::
    "license_api \<Rightarrow> session \<Rightarrow> surroundings \<Rightarrow> string \<Rightarrow> uuid \<Rightarrow> suspension_req \<Rightarrow> uuid \<Rightarrow> db \<Rightarrow> sqlerr + uuid \<times> db" where
  "insert_ordered_suspension a s sur ten lid q user d =
     (case suspension_row_of a sur ten lid user q of None \<Rightarrow> Inl SqlFault | Some r \<Rightarrow> insert_suspension s r d)"

definition flag_suspended :: "license_api \<Rightarrow> session \<Rightarrow> uuid \<Rightarrow> suspension_req \<Rightarrow> db \<Rightarrow> sqlerr + unit \<times> db" where
  "flag_suspended a s lid q d =
     (case cast (la_date a) (sq_ends_at q) of
        None \<Rightarrow> Inl SqlFault
      | Some until \<Rightarrow> Inr ((), update_license s lid (\<lambda>l. suspend_until (or_else until (l_suspended_until l)) l) d))"

definition add_suspension_tx ::
    "license_api \<Rightarrow> session \<Rightarrow> surroundings \<Rightarrow> reqctx \<Rightarrow> claims \<Rightarrow> uuid \<Rightarrow> suspension_req \<Rightarrow> uuid license_step" where
  "add_suspension_tx a s sur ctx c lid q =
     bind (exec (subject_param c (insert_ordered_suspension a s sur (c_tenant c) lid q))) (\<lambda>sid.
     andthen (exec (flag_suspended a s lid q)) (
     andthen (WriteOutbox Internal s sur
       (EnvelopeFromContext sur ctx (new_uuid sur 1) ''license'' (c_tenant c) TypeLicenseSuspended 1
         (LicenseSuspended \<lparr>lsp_license_id = lid, lsp_reason = sq_reason q, lsp_trigger_kind = sq_trigger_kind q,
            lsp_starts_at = Text (deref (sq_starts_at q)), lsp_ends_at = Text (deref (sq_ends_at q))\<rparr>))) (
     ret sid)))"

definition addSuspension ::
    "license_api \<Rightarrow> surroundings \<Rightarrow> reqctx \<Rightarrow> claims \<Rightarrow> uuid option \<Rightarrow> suspension_req option \<Rightarrow> license_handler" where
  "addSuspension a sur ctx c ident body =
     (case ident of
        None \<Rightarrow> stop (write_err ErrBadRequest)
      | Some lid \<Rightarrow>
          bind (read_json body) (\<lambda>q.
          andthen (guard (sq_reason q \<noteq> [] \<and> sq_trigger_kind q \<noteq> []) (Err 400 ''missing_fields'')) (
          andthen (WithTenant (Some c)) (
          bind (in_tx Internal (add_suspension_tx a (session_of (la_pool a) (c_tenant c)) sur ctx c lid q)) (\<lambda>sid.
          andthen (audit_Emit (la_audit a) ''license'' (Some c) ''license.suspend'' ''driver_license'' lid) (
          ret (Json 201 (NewId sid))))))))"

definition suspension_item_of :: "suspension_row \<Rightarrow> suspension_item" where
  "suspension_item_of r =
     \<lparr>si_id = ds_id r, si_reason = ds_reason r, si_starts_at = ds_starts_at r, si_ends_at = the (ds_ends_at r),
      si_lifted_at = ds_lifted_at r, si_trigger_kind = ds_trigger_kind r\<rparr>"

definition latest_active :: "session \<Rightarrow> uuid \<Rightarrow> time \<Rightarrow> db \<Rightarrow> suspension_row option" where
  "latest_active s lid now d =
     (case sort_key (\<lambda>r. - ds_starts_at r) (active_suspensions s lid now d) of [] \<Rightarrow> None | r # _ \<Rightarrow> Some r)"

definition activeSuspension :: "license_api \<Rightarrow> surroundings \<Rightarrow> claims \<Rightarrow> uuid option \<Rightarrow> license_handler" where
  "activeSuspension a sur c ident =
     (case ident of
        None \<Rightarrow> stop (write_err ErrBadRequest)
      | Some lid \<Rightarrow>
          andthen (WithTenant (Some c)) (
          bind (exec_or (no_rows_or (write_err ErrNotFound) Internal)
                  (query_row (latest_active (session_of (la_pool a) (c_tenant c)) lid (db_now sur)))) (\<lambda>r.
          ret (Json 200 (ActiveSuspension (suspension_item_of r))))))"

definition lift_row :: "session \<Rightarrow> uuid \<Rightarrow> uuid \<Rightarrow> time \<Rightarrow> db \<Rightarrow> db" where
  "lift_row s sid lid now d =
     d\<lparr>suspensions := update_rows ds_tenant s (\<lambda>r. ds_id r = sid \<and> ds_license_id r = lid \<and> ds_lifted_at r = None)
          (\<lambda>r. r\<lparr>ds_lifted_at := Some now\<rparr>) (suspensions d)\<rparr>"

text \<open>Here a suspension without an end counts.\<close>

definition still_suspended :: "session \<Rightarrow> uuid \<Rightarrow> time \<Rightarrow> db \<Rightarrow> bool" where
  "still_suspended s lid now d =
     list_ex (\<lambda>r. ds_license_id r = lid \<and> ds_lifted_at r = None \<and> (case ds_ends_at r of None \<Rightarrow> True | Some e \<Rightarrow> now < e))
       (rows_seen ds_tenant s (suspensions d))"

definition clear_flag :: "session \<Rightarrow> uuid \<Rightarrow> time \<Rightarrow> db \<Rightarrow> db" where
  "clear_flag s lid now d =
     (if still_suspended s lid now d then d
      else update_license s lid (\<lambda>l. l\<lparr>l_is_suspended := False, l_suspended_until := None\<rparr>) d)"

definition lift_tx :: "session \<Rightarrow> surroundings \<Rightarrow> reqctx \<Rightarrow> claims \<Rightarrow> uuid \<Rightarrow> uuid \<Rightarrow> unit license_step" where
  "lift_tx s sur ctx c lid sid =
     andthen (exec (change (lift_row s sid lid (db_now sur)))) (
     andthen (exec (change (clear_flag s lid (db_now sur)))) (
     WriteOutbox Internal s sur
       (EnvelopeFromContext sur ctx (new_uuid sur 0) ''license'' (c_tenant c) TypeLicenseReinstated 1 (LicenseReinstated lid sid))))"

definition liftSuspension :: "license_api \<Rightarrow> surroundings \<Rightarrow> reqctx \<Rightarrow> claims \<Rightarrow> uuid option \<Rightarrow> uuid option \<Rightarrow> license_handler" where
  "liftSuspension a sur ctx c ident sident =
     (case ident of
        None \<Rightarrow> stop (write_err ErrBadRequest)
      | Some lid \<Rightarrow>
     (case sident of
        None \<Rightarrow> stop (write_err ErrBadRequest)
      | Some sid \<Rightarrow>
          andthen (WithTenant (Some c)) (
          andthen (in_tx Internal (lift_tx (session_of (la_pool a) (c_tenant c)) sur ctx c lid sid)) (
          andthen (audit_Emit (la_audit a) ''license'' (Some c) ''license.reinstate'' ''driver_license'' lid) (
          ret (Status 204))))))"

section \<open>Standing and violations\<close>

text \<open>The view \<open>v_driver_standing\<close>.\<close>

definition standing_of :: "date \<Rightarrow> license_row \<Rightarrow> string" where
  "standing_of today l =
     (if l_is_suspended l \<or> (case l_suspended_until l of None \<Rightarrow> False | Some d \<Rightarrow> today < d) then ''suspended''
      else if (case l_expires_at l of None \<Rightarrow> True | Some d \<Rightarrow> d < today) then ''expired''
      else if l_points l \<ge> 12 then ''at_risk''
      else if (case l_expires_at l of None \<Rightarrow> False | Some d \<Rightarrow> d < today + 60) then ''expiring_soon''
      else ''good'')"

definition recent_violations :: "license_api \<Rightarrow> session \<Rightarrow> time \<Rightarrow> license_row \<Rightarrow> db \<Rightarrow> int" where
  "recent_violations a s now l d =
     int (length (filter (\<lambda>v. dv_license_id v = l_id l \<and> la_months_ago a now 24 < dv_occurred_at v)
       (rows_seen dv_tenant s (violations d))))"

definition standing_row :: "license_api \<Rightarrow> session \<Rightarrow> time \<Rightarrow> uuid \<Rightarrow> db \<Rightarrow> (string \<times> int) option" where
  "standing_row a s now lid d =
     map_option (\<lambda>l. (standing_of (date_of now) l, recent_violations a s now l d)) (license_seen s lid d)"

definition standing :: "license_api \<Rightarrow> surroundings \<Rightarrow> claims \<Rightarrow> uuid option \<Rightarrow> license_handler" where
  "standing a sur c ident =
     (case ident of
        None \<Rightarrow> stop (write_err ErrBadRequest)
      | Some lid \<Rightarrow>
          andthen (WithTenant (Some c)) (
          bind (exec_or writeIfNotFound (query_row (license_seen (session_of (la_pool a) (c_tenant c)) lid))) (\<lambda>l.
          bind (exec (query_row (standing_row a (session_of (la_pool a) (c_tenant c)) (db_now sur) lid))) (\<lambda>(st, recent).
          bind (exec_try (query_row (policy_row (session_of (la_pool a) (c_tenant c)) (c_tenant c)))) (\<lambda>pol.
          ret (Json 200 (Standing (scanLicense l) st recent
            (case pol of Inl _ \<Rightarrow> 0 | Inr p \<Rightarrow> dp_threshold_points p))))))))"

definition violation_item_of :: "violation_row \<Rightarrow> violation_item" where
  "violation_item_of r =
     \<lparr>vi_id = dv_id r, vi_fine_id = dv_fine_id r, vi_offence_code = dv_offence_code r, vi_points = dv_points r,
      vi_occurred_at = dv_occurred_at r, vi_recorded_at = dv_recorded_at r\<rparr>"

definition violations_of :: "session \<Rightarrow> uuid \<Rightarrow> db \<Rightarrow> violation_item list" where
  "violations_of s lid d =
     map violation_item_of (sort_key (\<lambda>r. - dv_occurred_at r)
       (filter (\<lambda>r. dv_license_id r = lid) (rows_seen dv_tenant s (violations d))))"

definition list_violations :: "license_api \<Rightarrow> claims \<Rightarrow> uuid option \<Rightarrow> license_handler" where
  "list_violations a c ident =
     (case ident of
        None \<Rightarrow> stop (write_err ErrBadRequest)
      | Some lid \<Rightarrow>
          andthen (WithTenant (Some c)) (
          bind (exec (query (violations_of (session_of (la_pool a) (c_tenant c)) lid))) (\<lambda>items.
          ret (Json 200 (ViolationItems items)))))"

section \<open>Biometrics\<close>

record biometric_req =
  bq_template_kid :: string
  bq_algo :: string
  bq_template_b64 :: string

text \<open>
  One row per license. The key is the license alone: where the row of the license belongs to a
  tenant the session does not see, the update of the conflicting row is refused.
\<close>

definition upsert_biometric :: "session \<Rightarrow> time \<Rightarrow> uuid \<Rightarrow> string \<Rightarrow> string \<Rightarrow> string \<Rightarrow> string \<Rightarrow> db \<Rightarrow> sqlerr + unit \<times> db" where
  "upsert_biometric s now lid ten kid hash algo d =
     (if \<not> sees s ten then Inl RlsViolation
      else if \<not> license_exists lid d then Inl ForeignKeyViolation
      else case find (\<lambda>r. db_license_id r = lid) (biometrics d) of
             None \<Rightarrow> Inr ((), d\<lparr>biometrics := biometrics d @ [\<lparr>db_license_id = lid, db_tenant = ten, db_template_kid = kid,
                       db_template_hash = hash, db_algo = algo, db_enrolled_at = now\<rparr>]\<rparr>)
           | Some old \<Rightarrow>
               if sees s (db_tenant old)
               then Inr ((), d\<lparr>biometrics := update_rows db_tenant s (\<lambda>r. db_license_id r = lid)
                      (\<lambda>r. r\<lparr>db_template_kid := kid, db_template_hash := hash, db_algo := algo, db_enrolled_at := now\<rparr>) (biometrics d)\<rparr>)
               else Inl RlsViolation)"

definition registerBiometric :: "license_api \<Rightarrow> surroundings \<Rightarrow> claims \<Rightarrow> uuid option \<Rightarrow> biometric_req option \<Rightarrow> license_handler" where
  "registerBiometric a sur c ident body =
     (case ident of
        None \<Rightarrow> stop (write_err ErrBadRequest)
      | Some lid \<Rightarrow>
          bind (read_json body) (\<lambda>q.
          andthen (guard (bq_template_kid q \<noteq> [] \<and> bq_algo q \<noteq> [] \<and> bq_template_b64 q \<noteq> []) (Err 400 ''missing_fields'')) (
          case DecodeString StdEncoding (bq_template_b64 q) of
            None \<Rightarrow> stop (Err 400 ''bad_b64'')
          | Some template \<Rightarrow>
              andthen (WithTenant (Some c)) (
              andthen (exec (upsert_biometric (session_of (la_pool a) (c_tenant c)) (db_now sur) lid (c_tenant c)
                        (bq_template_kid q) (la_sha256 a template) (bq_algo q))) (
              andthen (audit_Emit (la_audit a) ''license'' (Some c) ''license.biometric.register'' ''driver_license'' lid) (
              ret (Status 204)))))))"

end
