(* ===== verification/LicenseSelf.thy ===== *)
theory LicenseSelf
  imports License
begin

text \<open>
  Field verification (\<open>services/license/internal/api/verify.go\<close>) and the citizen's own license
  (\<open>me.go\<close>). A citizen gets a token for the own license only; an officer of the same tenant
  exchanges the token for the standing of that license.
\<close>

section \<open>Issuing and verifying tokens\<close>

text \<open>
  \<open>owner.String() != c.Subject\<close>, where the lookup's error is dropped and leaves no owner.
\<close>

definition holds_license :: "claims \<Rightarrow> sqlerr + uuid option \<Rightarrow> bool" where
  "holds_license c res = (case res of Inr (Some u) \<Rightarrow> c_subject c = Some u | _ \<Rightarrow> False)"

definition bundle_for :: "surroundings \<Rightarrow> claims \<Rightarrow> uuid \<Rightarrow> string \<Rightarrow> verify_bundle" where
  "bundle_for sur c lid num =
     \<lparr>vb_v = 1, vb_lid = Some lid, vb_tid = c_tenant c, vb_number = num, vb_iat = unix (go_now sur),
      vb_exp = unix (go_now sur + minutes 5)\<rparr>"

definition issueVerifyToken :: "license_api \<Rightarrow> surroundings \<Rightarrow> claims \<Rightarrow> uuid option \<Rightarrow> license_handler" where
  "issueVerifyToken a sur c ident =
     (case ident of
        None \<Rightarrow> stop (write_err ErrBadRequest)
      | Some lid \<Rightarrow>
          andthen (WithTenant (Some c)) (
          andthen (if c_role c = ''citizen'' then
                     bind (exec_try (query_row (\<lambda>d. map_option l_user_id (license_seen (session_of (la_pool a) (c_tenant c)) lid d)))) (\<lambda>res.
                     guard (holds_license c res) (write_err ErrForbidden))
                   else ret ()) (
          bind (exec_or (\<lambda>_. write_err ErrNotFound)
                  (query_row (\<lambda>d. map_option l_number (license_seen (session_of (la_pool a) (c_tenant c)) lid d)))) (\<lambda>num.
          let b = bundle_for sur c lid num
          in ret (Json 200 (Token (signBundle (la_tokens a) (la_secret a) b) (seconds (vb_exp b))))))))"

text \<open>An id that is no UUID is looked up as the nil UUID. The error of the view's lookup is dropped.\<close>

definition verify :: "license_api \<Rightarrow> surroundings \<Rightarrow> claims \<Rightarrow> string option \<Rightarrow> license_handler" where
  "verify a sur c body =
     bind (read_json body) (\<lambda>tok.
     case verifyBundleString (la_tokens a) (la_secret a) (go_now sur) tok of
       Inl _ \<Rightarrow> stop (Err 400 ''bad_token'')
     | Inr b \<Rightarrow>
         andthen (guard (vb_tid b = c_tenant c) (write_err ErrForbidden)) (
         andthen (WithTenant (Some c)) (
         let lid = (case vb_lid b of None \<Rightarrow> 0 | Some u \<Rightarrow> u) in
         bind (exec_or writeIfNotFound (query_row (license_seen (session_of (la_pool a) (c_tenant c)) lid))) (\<lambda>l.
         bind (exec_try (query_row (standing_row a (session_of (la_pool a) (c_tenant c)) (db_now sur) lid))) (\<lambda>st.
         andthen (audit_Emit (la_audit a) ''license'' (Some c) ''license.verify'' ''driver_license'' lid) (
         ret (Json 200 (Standing (scanLicense l) (case st of Inl _ \<Rightarrow> [] | Inr (t, _) \<Rightarrow> t)
                (case st of Inl _ \<Rightarrow> 0 | Inr (_, n) \<Rightarrow> n) 0))))))))"

section \<open>\<open>GET /v1/citizens/me/license\<close>\<close>

definition demerit_entry_of :: "demerit_row \<Rightarrow> demerit_entry" where
  "demerit_entry_of r =
     \<lparr>dm_occurred_at = de_occurred_at r, dm_delta = de_delta r, dm_reason = de_reason r, dm_source = de_source r,
      dm_new_total = 0\<rparr>"

definition last_demerits :: "session \<Rightarrow> uuid \<Rightarrow> db \<Rightarrow> demerit_entry list" where
  "last_demerits s lid d =
     map demerit_entry_of (take 50 (sort_key (\<lambda>r. - de_occurred_at r)
       (filter (\<lambda>r. de_license_id r = lid) (rows_seen de_tenant s (demerits d)))))"

text \<open>The loop from the last index down to the first, which tags each event with the sum so far.\<close>

fun tag_totals :: "nat \<Rightarrow> int \<Rightarrow> demerit_entry list \<Rightarrow> demerit_entry list" where
  "tag_totals 0 running xs = xs"
| "tag_totals (Suc i) running xs =
     (let running' = running + dm_delta (xs ! i)
      in tag_totals i running' (xs[i := (xs ! i)\<lparr>dm_new_total := running'\<rparr>]))"

definition running_totals :: "demerit_entry list \<Rightarrow> demerit_entry list" where
  "running_totals xs = tag_totals (length xs) 0 xs"

definition last_suspensions :: "session \<Rightarrow> uuid \<Rightarrow> db \<Rightarrow> suspension_row list" where
  "last_suspensions s lid d =
     take 10 (sort_key (\<lambda>r. - ds_starts_at r) (filter (\<lambda>r. ds_license_id r = lid) (rows_seen ds_tenant s (suspensions d))))"

text \<open>The end of a suspension is scanned into a \<open>time.Time\<close>, which does not take NULL.\<close>

definition myLicense :: "license_api \<Rightarrow> surroundings \<Rightarrow> claims \<Rightarrow> license_handler" where
  "myLicense a sur c =
     (let s = session_of (la_pool a) (c_tenant c) in
      andthen (WithTenant (Some c)) (
      bind (exec_or (no_rows_or (write_err ErrNotFound) Internal)
              (subject_param c (\<lambda>user. query_row (\<lambda>d. row_seen l_tenant s (\<lambda>l. l_user_id l = Some user) (licenses d))))) (\<lambda>l.
      bind (exec_try (query_row (standing_row a s (db_now sur) (l_id l)))) (\<lambda>res.
      andthen (guard (case res of Inl e \<Rightarrow> e = NoRows | Inr _ \<Rightarrow> True) Internal) (
      let st = (case res of Inl _ \<Rightarrow> [] | Inr (t, _) \<Rightarrow> t);
          recent = (case res of Inl _ \<Rightarrow> 0 | Inr (_, n) \<Rightarrow> n);
          st = (if st = [] then ''good'' else st) in
      bind (exec (query (last_demerits s (l_id l)))) (\<lambda>events.
      bind (exec (query (last_suspensions s (l_id l)))) (\<lambda>rows.
      andthen (guard (list_all (\<lambda>r. ds_ends_at r \<noteq> None) rows) Internal) (
      ret (Json 200 (MyLicense (scanLicense l) st recent (running_totals events) (map suspension_item_of rows)))))))))))"

section \<open>Running totals\<close>

text \<open>
  The reference: the events are newest first, and the total of an event is the sum of its own
  delta and those of the older events, which follow it in the list.
\<close>

fun totals :: "demerit_entry list \<Rightarrow> demerit_entry list" where
  "totals [] = []"
| "totals (e # es) = e\<lparr>dm_new_total := sum_list (map dm_delta (e # es))\<rparr> # totals es"

lemma length_totals [simp]: "length (totals es) = length es"
  by (induction es) simp_all

lemma map_delta_totals [simp]: "map dm_delta (totals es) = map dm_delta es"
  by (induction es) simp_all

lemma tag_totals_suffix:
  "running = sum_list (map dm_delta done) \<Longrightarrow>
   tag_totals (length xs) running (xs @ totals done) = totals (xs @ done)"
proof (induction xs arbitrary: running "done" rule: rev_induct)
  case (snoc x xs)
  have "tag_totals (length (xs @ [x])) running ((xs @ [x]) @ totals done)
      = tag_totals (length xs) (running + dm_delta x) (xs @ (x\<lparr>dm_new_total := running + dm_delta x\<rparr> # totals done))"
    by (simp add: nth_append list_update_append Let_def)
  also have "\<dots> = tag_totals (length xs) (running + dm_delta x) (xs @ totals (x # done))"
    using snoc.prems by (simp add: add.commute)
  also have "\<dots> = totals (xs @ x # done)"
    using snoc.prems by (intro snoc.IH) simp
  finally show ?case by simp
qed simp

lemma new_totals: "map dm_new_total (totals es) = map (\<lambda>i. sum_list (map dm_delta (drop i es))) [0..<length es]"
proof (induction es)
  case (Cons e es)
  then show ?case by (simp add: upt_conv_Cons map_Suc_upt [symmetric] o_def del: upt_Suc)
qed simp

text \<open>
  The running totals of the citizen's demerit history, computed by the loop that walks the list
  from its last element to its first, are those of the reference definition, for every list: the
  event at index i shows the sum of its own points and of those of all events after it, the older
  ones, and nothing else of an event changes.
\<close>

theorem running_totals_reference:
  "running_totals es = totals es
   \<and> map dm_new_total (running_totals es) = map (\<lambda>i. sum_list (map dm_delta (drop i es))) [0..<length es]"
proof -
  have "running_totals es = totals es"
    using tag_totals_suffix [of 0 "[]" es] by (simp add: running_totals_def)
  then show ?thesis by (simp add: new_totals)
qed

text \<open>The totals cover the fifty events shown, not the ledger: with more, the newest total is short.\<close>

lemma totals_of_a_page:
  "length (last_demerits s lid d) \<le> 50"
  by (simp add: last_demerits_def)

section \<open>Tokens in the field\<close>

lemma issueVerifyToken_run:
  assumes run: "finish (issueVerifyToken a sur c ident) w = (Json 200 (Token tok until), w')"
  obtains lid l where "ident = Some lid" "license_seen (session_of (la_pool a) (c_tenant c)) lid (w_db w) = Some l"
    "c_role c = ''citizen'' \<longrightarrow> l_user_id l \<noteq> None \<and> l_user_id l = c_subject c"
    "tok = signBundle (la_tokens a) (la_secret a) (bundle_for sur c lid (l_number l))"
    "until = seconds (unix (go_now sur + minutes 5))" "w_db w' = w_db w"
proof -
  let ?s = "session_of (la_pool a) (c_tenant c)"
  have "stops_with refusal (issueVerifyToken a sur c ident)"
    unfolding issueVerifyToken_def by (intro db_sw_steps) simp_all
  from finish_accepted [OF run this] have ended: "issueVerifyToken a sur c ident w = (Inr (Json 200 (Token tok until)), w')" by simp
  then obtain lid where ident: "ident = Some lid" by (cases ident) (auto simp: issueVerifyToken_def)
  from ended obtain w1 u w2 num w3 where
    "(WithTenant (Some c) :: unit license_step) w = (Inr u, w1)" and
    own: "(if c_role c = ''citizen'' then bind (exec_try (query_row (\<lambda>d. map_option l_user_id (license_seen ?s lid d)))) (\<lambda>res.
        guard (holds_license c res) (write_err ErrForbidden)) else ret () :: unit license_step) w1 = (Inr (), w2)" and
    num: "(exec_or (\<lambda>_. write_err ErrNotFound) (query_row (\<lambda>d. map_option l_number (license_seen ?s lid d))) :: string license_step) w2 = (Inr num, w3)" and
    fin: "(let b = bundle_for sur c lid num in ret (Json 200 (Token (signBundle (la_tokens a) (la_secret a) b) (seconds (vb_exp b))))) w3
        = (Inr (Json 200 (Token tok until)) :: license_body response + license_body response, w')"
    unfolding issueVerifyToken_def ident option.case by (elim bindE andthenE) (rule that; simp)
  then have db1: "w_db w1 = w_db w" by (elim WithTenantE) simp
  have "w_db w2 = w_db w1 \<and> (c_role c = ''citizen'' \<longrightarrow> (\<exists>l. license_seen ?s lid (w_db w1) = Some l \<and> l_user_id l \<noteq> None \<and> l_user_id l = c_subject c))"
    using own by (auto simp: holds_license_def split: if_splits sum.splits option.splits elim!: bindE exec_try_cases)
  moreover from exec_query_row_db [OF num] obtain l where "license_seen ?s lid (w_db w2) = Some l" "num = l_number l"
    and "w_db w3 = w_db w2" by auto
  moreover from fin have "tok = signBundle (la_tokens a) (la_secret a) (bundle_for sur c lid num)"
    and "until = seconds (unix (go_now sur + minutes 5))" and "w' = w3"
    by (simp_all add: Let_def bundle_for_def)
  ultimately show thesis
    using db1 ident by (intro that [of lid l]) (auto, metis)
qed


text \<open>
  A codec that reads back the bundles of one caller at one time: the license id in unary, a comma,
  the number.
\<close>

definition demo_citizen :: claims where
  "demo_citizen = \<lparr>c_tenant = ''no'', c_role = ''citizen'', c_permissions = [], c_device = [], c_subject = Some 3,
     c_issued_at = 0, c_expires_at = days 2000, c_jti = None\<rparr>"

definition unary_scheme :: token_scheme where
  "unary_scheme = \<lparr>ts_marshal = (\<lambda>b. replicate (the (vb_lid b)) CHR ''x'' @ CHR '','' # vb_number b),
     ts_unmarshal = (\<lambda>s. Some (bundle_for demo_clock demo_citizen (length (takeWhile (\<lambda>c. c = CHR ''x'') s))
       (tl (dropWhile (\<lambda>c. c = CHR ''x'') s)))),
     ts_hmac = (\<lambda>secret body. rev secret @ body)\<rparr>"

definition demo_license_api :: license_api where
  "demo_license_api = \<lparr>la_pool = SubjectToRls, la_audit = [], la_secret = ''key'', la_date = (\<lambda>_. None), la_timestamptz = (\<lambda>_. None),
     la_months_ago = (\<lambda>t m. t - days (30 * m)), la_sha256 = (\<lambda>s. s), la_tokens = unary_scheme\<rparr>"

lemma unary_codec:
  "ts_unmarshal unary_scheme (ts_marshal unary_scheme (bundle_for demo_clock demo_citizen lid num)) = Some (bundle_for demo_clock demo_citizen lid num)"
proof -
  have "takeWhile (\<lambda>c. c = CHR ''x'') (replicate n CHR ''x'' @ CHR '','' # num) = replicate n CHR ''x''"
    "dropWhile (\<lambda>c. c = CHR ''x'') (replicate n CHR ''x'' @ CHR '','' # num) = CHR '','' # num" for n
    by (induction n) simp_all
  then show ?thesis by (simp add: unary_scheme_def) (simp add: bundle_for_def)
qed


text \<open>
  An officer is shown a license only against a token that carries the digest, keyed with the
  service's secret, of exactly the bundle it contains, that has not expired and that was made for
  the officer's own tenant; what is shown is the license the bundle names, as the officer's tenant
  sees it. Verifying changes nothing in the database.
\<close>

theorem verify_needs_signed_token:
  assumes run: "finish (verify a sur c (Some tok)) w = (Json 200 (Standing l st recent n), w')"
  shows "\<exists>e1 e2 body b row. tok = ''n1.'' @ e1 @ ''.'' @ e2
    \<and> DecodeString RawURLEncoding e1 = Some body
    \<and> DecodeString RawURLEncoding e2 = Some (ts_hmac (la_tokens a) (la_secret a) body)
    \<and> ts_unmarshal (la_tokens a) body = Some b \<and> unix (go_now sur) \<le> vb_exp b \<and> vb_tid b = c_tenant c
    \<and> license_seen (session_of (la_pool a) (c_tenant c)) (case vb_lid b of None \<Rightarrow> 0 | Some u \<Rightarrow> u) (w_db w) = Some row
    \<and> l = scanLicense row \<and> w_db w' = w_db w"
proof -
  let ?s = "session_of (la_pool a) (c_tenant c)"
  have "stops_with refusal (verify a sur c (Some tok))"
    unfolding verify_def writeIfNotFound_def by (intro db_sw_steps) simp_all
  from finish_accepted [OF run this] have ended: "verify a sur c (Some tok) w = (Inr (Json 200 (Standing l st recent n)), w')" by simp
  then obtain b where b: "verifyBundleString (la_tokens a) (la_secret a) (go_now sur) tok = Inr b"
    by (auto simp: verify_def elim!: bindE split: sum.splits)
  have read: "bind (read_json (Some x)) f = f x" for x and f :: "string \<Rightarrow> license_handler"
    by (rule ext) (simp add: read_json_def bind_def ret_def)
  from ended obtain x w0 w1 u row w2 res w3 w4 where tid: "(guard (vb_tid b = c_tenant c) (write_err ErrForbidden) :: unit license_step) w = (Inr x, w0)" and
    "(WithTenant (Some c) :: unit license_step) w0 = (Inr u, w1)" and
    row: "(exec_or writeIfNotFound (query_row (license_seen ?s (case vb_lid b of None \<Rightarrow> 0 | Some u \<Rightarrow> u))) :: license_row license_step) w1 = (Inr row, w2)" and
    st: "(exec_try (query_row (standing_row a ?s (db_now sur) (case vb_lid b of None \<Rightarrow> 0 | Some u \<Rightarrow> u))) :: (sqlerr + string \<times> int) license_step) w2 = (Inr res, w3)" and
    "(audit_Emit (la_audit a) ''license'' (Some c) ''license.verify'' ''driver_license'' (case vb_lid b of None \<Rightarrow> 0 | Some u \<Rightarrow> u) :: unit license_step) w3 = (Inr (), w4)" and
    fin: "ret (Json 200 (Standing (scanLicense row) (case res of Inl _ \<Rightarrow> [] | Inr (t, _) \<Rightarrow> t) (case res of Inl _ \<Rightarrow> 0 | Inr (_, n) \<Rightarrow> n) 0)) w4
      = (Inr (Json 200 (Standing l st recent n)) :: license_body response + license_body response, w')"
    unfolding verify_def read b sum.case Let_def by (elim bindE andthenE) (rule that; simp)
  moreover from this have "l = scanLicense row" "w_db w' = w_db w3" by (auto elim!: audit_EmitE)
  moreover from tid have "vb_tid b = c_tenant c" "w0 = w" by simp_all
  moreover from calculation have "w_db w1 = w_db w" by (elim WithTenantE) simp
  moreover from st have "w_db w3 = w_db w2" by (cases rule: exec_try_cases) auto
  moreover from exec_query_row_db [OF row] have "license_seen ?s (case vb_lid b of None \<Rightarrow> 0 | Some u \<Rightarrow> u) (w_db w1) = Some row"
    and "w_db w2 = w_db w1" by simp_all
  ultimately show ?thesis
    using verified_token [OF b] by metis
qed

definition demo_token :: string where
  "demo_token = signBundle unary_scheme ''key'' (bundle_for demo_clock demo_citizen 7 ''DL-1'')"

theorem verify_needs_signed_token_witness:
  "fst (finish (verify demo_license_api demo_clock demo_citizen (Some demo_token)) demo_ledger)
     = Json 200 (Standing (scanLicense demo_driver) ''good'' 0 0)
   \<and> (\<exists>e1 e2 body. demo_token = ''n1.'' @ e1 @ ''.'' @ e2 \<and> DecodeString RawURLEncoding e2 = Some (ts_hmac unary_scheme ''key'' body))"
proof -
  let ?run = "finish (verify demo_license_api demo_clock demo_citizen (Some demo_token)) demo_ledger"
  have ok: "fst ?run = Json 200 (Standing (scanLicense demo_driver) ''good'' 0 0)" by code_simp
  then have "?run = (Json 200 (Standing (scanLicense demo_driver) ''good'' 0 0), snd ?run)" by (metis prod.collapse)
  from verify_needs_signed_token [OF this] ok show ?thesis
    by (auto simp: demo_license_api_def)
qed

end
