(* ===== verification/LicenseMux.thy ===== *)
theory LicenseMux
  imports LicenseSelf
begin

text \<open>
  The HTTP surface of the license service (\<open>New\<close> in \<open>services/license/internal/api/api.go\<close>), and
  the service with its demerit engine as a transition system. Proved for it: tenants do not touch
  each other, and an open suspension always shows on its license.
\<close>

section \<open>Routes\<close>

datatype license_route =
    PostLicense "license_req option"
  | GetLicenses string string
  | GetLicense "uuid option"
  | PatchLicense "uuid option" "license_patch option"
  | PostEndorsement "uuid option" "endorsement_req option"
  | GetEndorsements "uuid option"
  | PostSuspension "uuid option" "suspension_req option"
  | GetActiveSuspension "uuid option"
  | PostLift "uuid option" "uuid option"
  | GetStanding "uuid option"
  | GetViolations "uuid option"
  | PostBiometric "uuid option" "biometric_req option"
  | PostVerify "string option"
  | PostIssueToken "uuid option"
  | GetMyLicense

fun license_permission :: "license_route \<Rightarrow> string option" where
  "license_permission (PostLicense _) = Some ''license:write''"
| "license_permission (GetLicenses _ _) = Some ''license:read''"
| "license_permission (GetLicense _) = Some ''license:read''"
| "license_permission (PatchLicense _ _) = Some ''license:write''"
| "license_permission (PostEndorsement _ _) = Some ''license:write''"
| "license_permission (GetEndorsements _) = Some ''license:read''"
| "license_permission (PostSuspension _ _) = Some ''license:write''"
| "license_permission (GetActiveSuspension _) = Some ''license:read''"
| "license_permission (PostLift _ _) = Some ''license:write''"
| "license_permission (GetStanding _) = None"
| "license_permission (GetViolations _) = None"
| "license_permission (PostBiometric _ _) = Some ''license:write''"
| "license_permission (PostVerify _) = None"
| "license_permission (PostIssueToken _) = None"
| "license_permission GetMyLicense = None"

fun license_serve :: "license_api \<Rightarrow> surroundings \<Rightarrow> string \<Rightarrow> claims \<Rightarrow> license_route \<Rightarrow> license_handler" where
  "license_serve a sur tr c (PostLicense body) = create_license a sur \<lparr>ctx_claims = Some c, ctx_trace = tr\<rparr> c body"
| "license_serve a sur tr c (GetLicenses num susp) = list_licenses a c num susp"
| "license_serve a sur tr c (GetLicense ident) = get_license a c ident"
| "license_serve a sur tr c (PatchLicense ident body) = patch_license_handler a c ident body"
| "license_serve a sur tr c (PostEndorsement ident body) = addEndorsement a sur c ident body"
| "license_serve a sur tr c (GetEndorsements ident) = listEndorsements a c ident"
| "license_serve a sur tr c (PostSuspension ident body) = addSuspension a sur \<lparr>ctx_claims = Some c, ctx_trace = tr\<rparr> c ident body"
| "license_serve a sur tr c (GetActiveSuspension ident) = activeSuspension a sur c ident"
| "license_serve a sur tr c (PostLift ident sident) = liftSuspension a sur \<lparr>ctx_claims = Some c, ctx_trace = tr\<rparr> c ident sident"
| "license_serve a sur tr c (GetStanding ident) = standing a sur c ident"
| "license_serve a sur tr c (GetViolations ident) = list_violations a c ident"
| "license_serve a sur tr c (PostBiometric ident body) = registerBiometric a sur c ident body"
| "license_serve a sur tr c (PostVerify body) = verify a sur c body"
| "license_serve a sur tr c (PostIssueToken ident) = issueVerifyToken a sur c ident"
| "license_serve a sur tr c GetMyLicense = myLicense a sur c"

definition license_mux ::
    "jwt_parser \<Rightarrow> issuer \<Rightarrow> license_api \<Rightarrow> surroundings \<Rightarrow> string \<Rightarrow> headers \<Rightarrow> license_route \<Rightarrow> license_handler" where
  "license_mux jwt i a sur tr h route =
     Middleware jwt i h (\<lambda>c.
       case license_permission route of
         None \<Rightarrow> license_serve a sur tr c route
       | Some p \<Rightarrow> RequirePermission p (Some c) (license_serve a sur tr c route))"

lemma license_mux_cases:
  obtains (denied) r where "refusal r" "license_mux jwt i a sur tr h route = stop r"
  | (served) c where "admitted jwt i h c" "set_option (license_permission route) \<subseteq> set (c_permissions c)"
      "license_mux jwt i a sur tr h route = license_serve a sur tr c route"
proof (cases rule: Middleware_cases [of jwt i h "\<lambda>c. case license_permission route of None \<Rightarrow> license_serve a sur tr c route
       | Some p \<Rightarrow> RequirePermission p (Some c) (license_serve a sur tr c route)"])
  case (denied r)
  then show thesis by (intro that(1)) (auto simp: license_mux_def)
next
  case (admitted c)
  show thesis
  proof (cases "license_permission route")
    case None
    with admitted show thesis by (intro that(2)) (simp_all add: license_mux_def)
  next
    case (Some p)
    then show thesis
    proof (cases rule: RequirePermission_cases [of p "Some c" "license_serve a sur tr c route"])
      case (denied r)
      with admitted Some show thesis by (intro that(1)) (auto simp: license_mux_def)
    next
      case (granted c')
      with admitted Some show thesis by (intro that(2) [of c]) (simp_all add: license_mux_def)
    qed
  qed
qed

section \<open>Isolation\<close>

lemma outside_update_license:
  "(\<And>l. l_tenant (f l) = l_tenant l) \<Longrightarrow> outside t (update_license (TenantSession t) lid f d) = outside t d"
  by (simp add: update_license_def outside_def others_update)

lemma insert_license_Inr:
  assumes "insert_license a s lid ten q d = Inr (x, d')"
  obtains l rows where "license_row_of a lid ten q = Some l" "insert_row l_tenant s license_clash l (licenses d) = Inr rows"
    "x = lid" "d' = d\<lparr>licenses := rows\<rparr>"
  using assms unfolding insert_license_def by (simp split: option.splits if_splits sum.splits)

lemma outside_insert_license [frame_intros]: "keeps_outside t (insert_license a (TenantSession t) lid ten q)"
  unfolding fixed_def by (auto simp: outside_def others_insert elim!: insert_license_Inr)

lemma insert_endorsement_Inr:
  assumes "insert_endorsement a s eid ten lid e d = Inr (x, d')"
  obtains r rows where "insert_row en_tenant s (\<lambda>old new. en_id old = en_id new) r (endorsements d) = Inr rows"
    "d' = d\<lparr>endorsements := rows\<rparr>"
  using assms unfolding insert_endorsement_def by (simp split: option.splits if_splits sum.splits)

lemma outside_insert_endorsement [frame_intros]: "keeps_outside t (insert_endorsement a (TenantSession t) eid ten lid e)"
  unfolding fixed_def by (auto simp: outside_def others_insert elim!: insert_endorsement_Inr)

lemma outside_insert_suspension [frame_intros]: "keeps_outside t (insert_ordered_suspension a (TenantSession t) sur ten lid sq user)"
proof -
  have "outside t d' = outside t d" if "insert_suspension (TenantSession t) r d = Inr (x, d')" for r d x d'
    using that by (auto simp: insert_suspension_Inr outside_def others_def)
  then show ?thesis by (auto simp: fixed_def insert_ordered_suspension_def split: option.splits)
qed

lemma outside_license_updates [frame_intros]:
  "keeps_outside t (update_license_row a (TenantSession t) lid p)"
  "keeps_outside t (flag_suspended a (TenantSession t) lid sq)"
  "keeps_outside t (change (clear_flag (TenantSession t) lid now))"
  by (auto simp: fixed_def update_license_row_def flag_suspended_def clear_flag_def outside_update_license
      patch_license_def suspend_until_def split: option.splits)

lemma outside_lift_row [frame_intros]: "keeps_outside t (change (lift_row (TenantSession t) sid lid now))"
  by (rule fixed_change) (simp add: lift_row_def outside_def others_update)

lemma outside_upsert_biometric [frame_intros]: "keeps_outside t (upsert_biometric (TenantSession t) now lid ten kid hash algo)"
  by (auto simp: fixed_def upsert_biometric_def outside_def others_update split: if_splits option.splits)
    (auto simp: others_def)

lemmas license_handlers = create_license_def create_license_tx_def list_licenses_def get_license_def patch_license_handler_def
  addEndorsement_def listEndorsements_def addSuspension_def add_suspension_tx_def activeSuspension_def liftSuspension_def lift_tx_def
  standing_def list_violations_def registerBiometric_def verify_def issueVerifyToken_def myLicense_def Let_def

lemma iso_license_serve:
  assumes "la_pool a = SubjectToRls"
  shows "keeps (isolated (c_tenant c)) (license_serve a sur tr c route)"
  by (cases route; simp only: license_serve.simps license_handlers assms session_of.simps)
    (intro db_iso_steps frame_intros)+

text \<open>
  Tenants of the license service do not touch each other: with a pool subject to row-level
  security a request, whatever it asks and whatever fails, changes nothing outside the tenant of
  the claims its token carries; without an accepted token, or without the permission of its
  route, it changes nothing at all.
\<close>

theorem license_requests_stay_in_tenant:
  assumes "finish (license_mux jwt i a sur tr h route) w = (r, w')" and "w_snap w = None" and "la_pool a = SubjectToRls"
  shows "w_db w' = w_db w
    \<or> (\<exists>c. admitted jwt i h c \<and> set_option (license_permission route) \<subseteq> set (c_permissions c)
          \<and> outside (c_tenant c) (w_db w') = outside (c_tenant c) (w_db w))"
proof (cases rule: license_mux_cases [of jwt i a sur tr h route])
  case (denied e)
  with assms(1) show ?thesis by (auto simp: finish_def stop_def)
next
  case (served c)
  from pinned_finish [OF iso_license_serve [OF assms(3)] assms(1) [unfolded served(3)] assms(2)] served(1,2) show ?thesis by blast
qed

text \<open>An officer of the same tenant suspends the driver of the demerit engine's example.\<close>

definition demo_registrar :: claims where
  "demo_registrar = \<lparr>c_tenant = ''no'', c_role = ''admin'', c_permissions = [''license:write''], c_device = [], c_subject = Some 3,
     c_issued_at = 0, c_expires_at = days 2000, c_jti = None\<rparr>"

definition lic_issuer :: issuer where
  "lic_issuer = \<lparr>Secret = ''k'', AccessTTL = 1, RefreshTTL = 1\<rparr>"

definition lic_jwt :: jwt_parser where
  "lic_jwt kf tok = (if tok = ''t'' then Some demo_registrar else None)"

definition lic_bearer :: headers where
  "lic_bearer = \<lparr>h_authorization = ''Bearer t'', h_tenant = []\<rparr>"

definition court_order :: suspension_req where
  "court_order = \<lparr>sq_reason = ''ban'', sq_trigger_kind = ''court'', sq_starts_at = None, sq_ends_at = None\<rparr>"

definition demo_staff :: dbworld where
  "demo_staff = demo_ledger\<lparr>w_db := (w_db demo_ledger)\<lparr>users := [\<lparr>u_id = 3, u_tenant = ''no'', u_email = ''a'', u_phone = None,
     u_password_hash = [], u_full_name = ''Kari'', u_is_active = True\<rparr>]\<rparr>\<rparr>"

definition demo_banned :: "license_body response \<times> dbworld" where
  "demo_banned = finish (license_mux lic_jwt lic_issuer demo_license_api demo_clock [] lic_bearer (PostSuspension (Some 7) (Some court_order))) demo_staff"

lemma demo_banned_run:
  "finish (license_mux lic_jwt lic_issuer demo_license_api demo_clock [] lic_bearer (PostSuspension (Some 7) (Some court_order))) demo_staff
     = (fst demo_banned, snd demo_banned)"
  by (simp add: demo_banned_def)

lemma demo_banned_facts:
  "status_of (fst demo_banned) = 201" "map ds_id (suspensions (w_db (snd demo_banned))) = [900]"
  "w_snap demo_staff = None"
  by code_simp+

theorem license_requests_stay_in_tenant_witness:
  "status_of (fst demo_banned) = 201 \<and> outside ''no'' (w_db (snd demo_banned)) = outside ''no'' (w_db demo_staff)"
proof -
  have "c_tenant c = ''no''" if "admitted lic_jwt lic_issuer lic_bearer c" for c
    using that by (auto simp: admitted_def Parse_def lic_jwt_def demo_registrar_def split: if_splits)
  moreover have "la_pool demo_license_api = SubjectToRls" by (simp add: demo_license_api_def)
  ultimately show ?thesis
    using license_requests_stay_in_tenant [OF demo_banned_run demo_banned_facts(3)] demo_banned_facts(1) by metis
qed

section \<open>Open suspensions show on the license\<close>

text \<open>
  A suspension is open until it is lifted or its end, if it has one, has passed. The invariant:
  every suspension is of a license there is, and while it is open the license, where it belongs to
  the tenant of the suspension, carries the flag. Time only closes suspensions.
\<close>

definition open_at :: "time \<Rightarrow> suspension_row \<Rightarrow> bool" where
  "open_at now r \<longleftrightarrow> ds_lifted_at r = None \<and> (case ds_ends_at r of None \<Rightarrow> True | Some e \<Rightarrow> now < e)"

definition flags_sound :: "time \<Rightarrow> db \<Rightarrow> bool" where
  "flags_sound now d \<longleftrightarrow> (\<forall>r\<in>set (suspensions d). license_exists (ds_license_id r) d
     \<and> (open_at now r \<longrightarrow> (\<forall>l\<in>set (licenses d). l_id l = ds_license_id r \<and> l_tenant l = ds_tenant r \<longrightarrow> l_is_suspended l)))"

lemma flags_later: "flags_sound now d \<Longrightarrow> now \<le> now' \<Longrightarrow> flags_sound now' d"
  by (auto simp: flags_sound_def open_at_def split: option.splits)

lemma flags_other_tables:
  "suspensions d' = suspensions d \<Longrightarrow> licenses d' = licenses d \<Longrightarrow> flags_sound now d' = flags_sound now d"
  by (simp add: flags_sound_def license_exists_def)

lemma license_exists_update [simp]:
  assumes "\<And>l. l_id (f l) = l_id l"
  shows "license_exists x (update_license s lid f d) = license_exists x d"
proof -
  have "license_exists x e \<longleftrightarrow> x \<in> set (map l_id (licenses e))" for e
    by (auto simp: license_exists_def list_ex_iff)
  then show ?thesis by (simp add: update_license_def map_update_rows [of l_id f, OF assms] del: set_map)
qed

lemma flags_update_license:
  assumes "flags_sound now d" and "\<And>l. l_id (f l) = l_id l \<and> l_tenant (f l) = l_tenant l"
    and "\<And>l. l_is_suspended l \<Longrightarrow> l_is_suspended (f l)"
  shows "flags_sound now (update_license s lid f d)"
proof -
  have "suspensions (update_license s lid f d) = suspensions d" by (simp add: update_license_def)
  moreover have "l_is_suspended l" if "r \<in> set (suspensions d)" "open_at now r" "l \<in> set (licenses (update_license s lid f d))"
    "l_id l = ds_license_id r" "l_tenant l = ds_tenant r" for r l
    using that assms unfolding flags_sound_def
    by (auto simp: update_license_def elim!: update_rowsE)
  ultimately show ?thesis
    using assms(1,2) by (simp add: flags_sound_def)
qed

lemma flags_insert_license: "preserved (flags_sound now) (insert_license a s lid ten q)"
  unfolding preserved_def
proof (intro allI impI)
  fix d x d'
  assume sound: "flags_sound now d" and ins: "insert_license a s lid ten q d = Inr (x, d')"
  from ins obtain l rows where l: "license_row_of a lid ten q = Some l" and
    row: "insert_row l_tenant s license_clash l (licenses d) = Inr rows" and d': "d' = d\<lparr>licenses := rows\<rparr>"
    by (rule insert_license_Inr)
  from row have rows: "rows = licenses d @ [l]" and "\<forall>old\<in>set (licenses d). l_id old \<noteq> l_id l"
    by (auto simp: insert_row_Inr license_clash_def)
  with sound show "flags_sound now d'"
    by (auto simp: flags_sound_def license_exists_def list_ex_iff d')
qed

lemma flags_updates [frame_intros]:
  "preserved (flags_sound now) (update_license_row a s lid p)"
  "preserved (flags_sound now) (insert_endorsement a s eid ten lid e)"
  "preserved (flags_sound now) (upsert_biometric s t lid ten kid hash algo)"
proof -
  show "preserved (flags_sound now) (update_license_row a s lid p)"
    unfolding preserved_def update_license_row_def by (auto simp: patch_license_def split: option.splits intro!: flags_update_license)
  show "preserved (flags_sound now) (insert_endorsement a s eid ten lid e)"
    unfolding preserved_def by (auto simp: flags_sound_def license_exists_def elim!: insert_endorsement_Inr)
  have "\<exists>rows. d' = d\<lparr>biometrics := rows\<rparr>" if "upsert_biometric s t lid ten kid hash algo d = Inr (x, d')" for d x d'
    using that by (auto simp: upsert_biometric_def split: if_splits option.splits)
  then show "preserved (flags_sound now) (upsert_biometric s t lid ten kid hash algo)"
    unfolding preserved_def by (fastforce simp: flags_sound_def license_exists_def)
qed

lemma flags_lift_row: "flags_sound now d \<Longrightarrow> flags_sound now (lift_row s sid lid t d)"
  by (auto simp: flags_sound_def lift_row_def license_exists_def open_at_def elim!: update_rowsE)

lemma flags_clear_flag:
  assumes "flags_sound now d"
  shows "flags_sound now (clear_flag s lid now d)"
proof (cases "still_suspended s lid now d")
  case True
  with assms show ?thesis by (simp add: clear_flag_def)
next
  case False
  let ?f = "\<lambda>l. l\<lparr>l_is_suspended := False, l_suspended_until := None\<rparr>"
  have closed: "\<not> open_at now r" if "r \<in> set (suspensions d)" "ds_license_id r = lid" "sees s (ds_tenant r)" for r
    using False that by (auto simp: still_suspended_def open_at_def list_ex_iff table_simps)
  have "l_is_suspended l" if "r \<in> set (suspensions d)" "open_at now r" "l \<in> set (licenses (update_license s lid ?f d))"
    "l_id l = ds_license_id r" "l_tenant l = ds_tenant r" for r l
    using that assms closed unfolding flags_sound_def
    by (auto simp: update_license_def elim!: update_rowsE)
  moreover have "suspensions (update_license s lid ?f d) = suspensions d" by (simp add: update_license_def)
  ultimately show ?thesis
    using assms False by (simp add: flags_sound_def clear_flag_def)
qed

text \<open>A suspension and the flag of its license, both set: the effect of the two ways to suspend.\<close>

lemma flags_suspended:
  assumes "flags_sound now d" and "license_exists (ds_license_id r) d" and "sees s (ds_tenant r)"
    and "\<And>l. l_id (f l) = l_id l \<and> l_tenant (f l) = l_tenant l" and "\<And>l. l_is_suspended (f l)"
  shows "flags_sound now ((update_license s (ds_license_id r) f d)\<lparr>suspensions := suspensions d @ [r]\<rparr>)"
proof -
  let ?d = "update_license s (ds_license_id r) f d"
  have old: "flags_sound now ?d" using assms by (intro flags_update_license) auto
  have susp: "suspensions ?d = suspensions d" by (simp add: update_license_def)
  have "l_is_suspended l" if "l \<in> set (licenses ?d)" "l_id l = ds_license_id r" "l_tenant l = ds_tenant r" for l
    using that assms(3,4,5) by (auto simp: update_license_def elim!: update_rowsE)
  moreover have "license_exists (ds_license_id r) ?d" using assms(2,4) by simp
  ultimately show ?thesis
    using old susp by (auto simp: flags_sound_def license_exists_def)
qed

text \<open>Suspending by hand: the transaction, and the handler around it.\<close>

lemma tx_add_suspension: "keeps same_tx (add_suspension_tx a s sur ctx c lid q)"
  unfolding add_suspension_tx_def by (intro db_tx_steps)

lemma add_suspension_run:
  assumes run: "add_suspension_tx a s sur ctx c lid q w = (Inr sid, w')"
  obtains r until n env where "insert_suspension s r (w_db w) = Inr (sid, (w_db w)\<lparr>suspensions := suspensions (w_db w) @ [r]\<rparr>)"
    "ds_license_id r = lid"
    "w_db w' = (update_license s lid (\<lambda>l. suspend_until (or_else until (l_suspended_until l)) l) (w_db w))
       \<lparr>suspensions := suspensions (w_db w) @ [r], outbox := outbox (w_db w) @ [outbox_row_of sur n env]\<rparr>"
proof -
  from run obtain w1 u2 w2 env w3 where
    ins: "(exec (subject_param c (insert_ordered_suspension a s sur (c_tenant c) lid q)) :: uuid license_step) w = (Inr sid, w1)" and
    flag: "(exec (flag_suspended a s lid q) :: unit license_step) w1 = (Inr u2, w2)" and
    out: "(WriteOutbox Internal s sur env :: unit license_step) w2 = (Inr (), w3)" and w3: "w' = w3"
    unfolding add_suspension_tx_def by (elim bindE andthenE) (rule that; simp)
  from exec_db [OF ins] obtain user r where r: "suspension_row_of a sur (c_tenant c) lid user q = Some r"
    and insr: "insert_suspension s r (w_db w) = Inr (sid, w_db w1)"
    by (auto simp: subject_param_Inr insert_ordered_suspension_def split: option.splits)
  have lid: "ds_license_id r = lid"
    using r by (auto simp: suspension_row_of_def split: option.splits)
  from insr have db1: "w_db w1 = (w_db w)\<lparr>suspensions := suspensions (w_db w) @ [r]\<rparr>" by (simp add: insert_suspension_Inr)
  from exec_db [OF flag] obtain until where
    db2: "w_db w2 = update_license s lid (\<lambda>l. suspend_until (or_else until (l_suspended_until l)) l) (w_db w1)"
    by (cases "cast (la_date a) (sq_ends_at q)") (simp_all add: flag_suspended_def eq_commute [of _ "w_db w2"])
  from out obtain n where db3: "w_db w3 = (w_db w2)\<lparr>outbox := outbox (w_db w2) @ [outbox_row_of sur n env]\<rparr>"
    by (rule WriteOutbox_db)
  show thesis
    using insr lid by (intro that [where r = r and until = until and n = n and env = env]) (simp_all add: db1 w3 db3 db2 update_license_def)
qed

lemma flags_add_suspension:
  assumes run: "finish (addSuspension a sur ctx c ident body) w = (r, w')" and idle: "w_snap w = None"
    and sound: "flags_sound now (w_db w)"
  shows "flags_sound now (w_db w')"
proof -
  let ?s = "session_of (la_pool a) (c_tenant c)"
  let ?tx = "\<lambda>lid q. in_tx Internal (add_suspension_tx a ?s sur ctx c lid q) :: uuid license_step"
  have tx: "keeps (kept_alone (flags_sound now)) (?tx lid q)" for lid q
  proof (rule kept_alone_tx [OF tx_add_suspension])
    fix w w' :: dbworld and sid
    assume "add_suspension_tx a ?s sur ctx c lid q w = (Inr sid, w')" and sound: "flags_sound now (w_db w)"
    then obtain r until n env where ins: "insert_suspension ?s r (w_db w) = Inr (sid, (w_db w)\<lparr>suspensions := suspensions (w_db w) @ [r]\<rparr>)"
      and lid: "ds_license_id r = lid" and
      db: "w_db w' = (update_license ?s lid (\<lambda>l. suspend_until (or_else until (l_suspended_until l)) l) (w_db w))
       \<lparr>suspensions := suspensions (w_db w) @ [r], outbox := outbox (w_db w) @ [outbox_row_of sur n env]\<rparr>"
      by (elim add_suspension_run)
    have "flags_sound now ((update_license ?s (ds_license_id r) (\<lambda>l. suspend_until (or_else until (l_suspended_until l)) l) (w_db w))
       \<lparr>suspensions := suspensions (w_db w) @ [r]\<rparr>)"
      using ins sound by (intro flags_suspended) (simp_all add: insert_suspension_Inr suspend_until_def)
    then show "flags_sound now (w_db w')"
      by (simp add: db lid flags_sound_def license_exists_def)
  qed
  have "keeps (kept_alone (flags_sound now)) (addSuspension a sur ctx c ident body)"
    unfolding addSuspension_def by (intro ka.r_control tx ka_quiet db_rd_steps)
  from kept_alone_finish [OF this run idle sound] show ?thesis .
qed

text \<open>The other requests keep the invariant step by step, the engine by its specification.\<close>

fun suspends :: "license_route \<Rightarrow> bool" where
  "suspends (PostSuspension _ _) = True"
| "suspends _ = False"

lemma flags_license_serve:
  assumes "\<not> suspends route"
  shows "keeps (kept (flags_sound (db_now sur))) (license_serve a sur tr c route)"
proof -
  have out: "keeps (kept (flags_sound (db_now sur))) (WriteOutbox k s sur env)" for k :: "license_body response" and s env
    by (rule iv_WriteOutbox) (simp add: flags_sound_def license_exists_def)
  have lift: "preserved (flags_sound (db_now sur)) (change (lift_row s sid lid (db_now sur)))"
    "preserved (flags_sound (db_now sur)) (change (clear_flag s lid (db_now sur)))" for s sid lid
    by (rule preserved_change, erule flags_lift_row flags_clear_flag)+
  show ?thesis
    using assms
    by (cases route; simp only: suspends.simps not_True_eq_False license_serve.simps license_handlers)
      (intro db_iv_steps out lift flags_insert_license frame_intros)+
qed

lemma flags_booked:
  assumes "booked eng s sur ten fid lid code points d d'" and sound: "flags_sound now d"
  shows "flags_sound now d'"
proof -
  obtain threshold window months where "policy_limits s ten d = (threshold, window, months)" by (cases "policy_limits s ten d")
  with assms(1) obtain n tot suspend obs where ok: "license_exists lid d" "sees s ten" and d': "d' = d\<lparr>demerits := demerits d @ [ledger_row sur n ten lid fid code points],
      licenses := update_rows l_tenant s (\<lambda>l. l_id l = lid) (\<lambda>l. if suspend
        then suspend_until (Some (date_of (suspension_end (go_now sur) months))) (l\<lparr>l_points := tot\<rparr>) else l\<lparr>l_points := tot\<rparr>) (licenses d),
      suspensions := suspensions d @ (if suspend then [auto_suspension sur ten lid months] else []),
      outbox := obs\<rparr>"
    unfolding booked_def settled_def Let_def by auto
  show ?thesis
  proof (cases suspend)
    case False
    have "flags_sound now (update_license s lid (\<lambda>l. l\<lparr>l_points := tot\<rparr>) d)"
      using sound by (rule flags_update_license) simp_all
    with False show ?thesis by (simp add: d' flags_sound_def license_exists_def update_license_def)
  next
    case True
    have "flags_sound now ((update_license s (ds_license_id (auto_suspension sur ten lid months))
        (\<lambda>l. suspend_until (Some (date_of (suspension_end (go_now sur) months))) (l\<lparr>l_points := tot\<rparr>)) d)
        \<lparr>suspensions := suspensions d @ [auto_suspension sur ten lid months]\<rparr>)"
      by (rule flags_suspended) (use sound ok in \<open>simp_all add: auto_suspension_def suspend_until_def\<close>)
    with True show ?thesis
      by (simp add: d' flags_sound_def license_exists_def update_license_def auto_suspension_def)
  qed
qed

lemma flags_engine:
  assumes run: "finish (onFineIssued eng sur ten raw) w = (res, w')" and idle: "w_snap w = None" and sound: "flags_sound now (w_db w)"
  shows "flags_sound now (w_db w')"
proof (cases "\<exists>fid. decodeFineIssued raw = Inr (Some fid)")
  case True
  then obtain fid where "decodeFineIssued raw = Inr (Some fid)" by blast
  with run have "finish (applyForFine eng sur ten (Some fid)) w = (res, w')" by (simp add: onFineIssued_def)
  from applyForFine_spec [OF this idle] show ?thesis
    using sound flags_booked
    by (auto simp: demerit_outcome_def split: option.splits if_splits)
next
  case False
  have "keeps (kept_alone (flags_sound now)) (applyForFine eng sur ten None)"
    unfolding applyForFine_def
    by (intro ka.r_control ka_quiet [OF rd_exec_or] frame_intros kept_alone_tx tx_apply_tx ka_quiet [OF rd_audit_Emit])
      (simp add: apply_tx_def)
  moreover have "keeps (kept_alone (flags_sound now)) (stop e :: goerr option demerit_job)" for e
    by (rule ka.r_stop)
  ultimately have "keeps (kept_alone (flags_sound now)) (onFineIssued eng sur ten raw)"
    using False unfolding onFineIssued_def by (auto split: sum.split)
  from kept_alone_finish [OF this run idle sound] show ?thesis .
qed

section \<open>The service as a transition system\<close>

text \<open>
  A state is the clock of the database and its contents. A step is one request, or one delivery
  to the demerit engine, at a time not before the clock; any of its statements may fail.
\<close>

inductive license_step :: "jwt_parser \<Rightarrow> issuer \<Rightarrow> license_api \<Rightarrow> engine \<Rightarrow> time \<times> db \<Rightarrow> time \<times> db \<Rightarrow> bool" for jwt i a eng where
  request: "finish (license_mux jwt i a sur tr h route) w = (r, w') \<Longrightarrow> w_snap w = None \<Longrightarrow> now \<le> db_now sur \<Longrightarrow>
     license_step jwt i a eng (now, w_db w) (db_now sur, w_db w')"
| delivery: "finish (onFineIssued eng sur ten raw) w = (res, w') \<Longrightarrow> w_snap w = None \<Longrightarrow> now \<le> db_now sur \<Longrightarrow>
     license_step jwt i a eng (now, w_db w) (db_now sur, w_db w')"

inductive license_reachable :: "jwt_parser \<Rightarrow> issuer \<Rightarrow> license_api \<Rightarrow> engine \<Rightarrow> time \<times> db \<Rightarrow> time \<times> db \<Rightarrow> bool" for jwt i a eng st0 where
  start: "license_reachable jwt i a eng st0 st0"
| step: "license_reachable jwt i a eng st0 st \<Longrightarrow> license_step jwt i a eng st st' \<Longrightarrow> license_reachable jwt i a eng st0 st'"

inductive_cases license_stepE: "license_step jwt i a eng st st'"

lemma step_flags:
  assumes "license_step jwt i a eng st st'" and "flags_sound (fst st) (snd st)"
  shows "flags_sound (fst st') (snd st')"
  using assms(1)
proof (rule license_stepE)
  fix sur tr h route and w w' :: dbworld and r now
  assume st: "st = (now, w_db w)" "st' = (db_now sur, w_db w')" and run: "finish (license_mux jwt i a sur tr h route) w = (r, w')"
    and idle: "w_snap w = None" and "now \<le> db_now sur"
  with assms(2) have sound: "flags_sound (db_now sur) (w_db w)" using flags_later by simp
  have "flags_sound (db_now sur) (w_db w')"
  proof (cases rule: license_mux_cases [of jwt i a sur tr h route])
    case (denied e)
    with run sound show ?thesis by (auto simp: finish_def stop_def)
  next
    case (served c)
    note run = run [unfolded served(3)]
    show ?thesis
    proof (cases "suspends route")
      case False
      from kept_finish [OF flags_license_serve [OF this] run idle sound] show ?thesis .
    next
      case True
      then obtain ident body where "route = PostSuspension ident body" by (cases route) auto
      with run flags_add_suspension [OF _ idle sound] show ?thesis by simp
    qed
  qed
  then show ?thesis by (simp add: st)
next
  fix sur ten raw and w w' :: dbworld and res now
  assume st: "st = (now, w_db w)" "st' = (db_now sur, w_db w')" and run: "finish (onFineIssued eng sur ten raw) w = (res, w')"
    and idle: "w_snap w = None" and "now \<le> db_now sur"
  with assms(2) have "flags_sound (db_now sur) (w_db w)" using flags_later by simp
  from flags_engine [OF run idle this] show ?thesis by (simp add: st)
qed



end
