(* ===== verification/AuditLog.thy ===== *)
theory AuditLog
  imports Schema
begin

text \<open>
  The audit service's log (\<open>services/audit/internal/api/api.go\<close>): an append-only table in which
  each event of a tenant carries the digest of the event before it. \<open>audit_write\<close> appends,
  \<open>audit_list\<close> shows the latest events, \<open>audit_verify\<close> walks the chain.

  Parameters (\<open>audit_lib\<close>): SHA-256; \<open>json.Marshal\<close> of an event and the renormalisation of a
  JSON text by \<open>Unmarshal\<close> and \<open>Marshal\<close> (\<open>None\<close> where they fail); the casts of a text to
  \<open>uuid\<close>, \<open>inet\<close> and \<open>jsonb\<close> in Postgres, each with the text it reads back as. An absent JSON
  field is the empty text.
\<close>

section \<open>Events\<close>

record audit_ev =
  ae_occurred_at :: time
  ae_tenant_id :: string
  ae_actor_user :: string
  ae_actor_role :: string
  ae_actor_device :: string
  ae_actor_ip :: string
  ae_service :: string
  ae_action :: string
  ae_resource_type :: string
  ae_resource_id :: string
  ae_before :: string
  ae_after :: string

record audit_lib =
  al_sha256 :: "string \<Rightarrow> string"
  al_marshal :: "audit_ev \<Rightarrow> string option"
  al_renorm :: "string \<Rightarrow> string option"
  al_uuid :: "string \<Rightarrow> string option"
  al_inet :: "string \<Rightarrow> string option"
  al_jsonb :: "string \<Rightarrow> string option"

definition normalizeJSON :: "audit_lib \<Rightarrow> string \<Rightarrow> string" where
  "normalizeJSON lib b =
     (if length b = 0 \<or> b = ''null'' then []
      else case al_renorm lib b of None \<Rightarrow> b | Some out \<Rightarrow> out)"

definition canonical :: "audit_lib \<Rightarrow> audit_ev \<Rightarrow> string option" where
  "canonical lib ev =
     al_marshal lib (ev\<lparr>ae_occurred_at := ae_occurred_at ev div 1000 * 1000,
       ae_before := normalizeJSON lib (ae_before ev), ae_after := normalizeJSON lib (ae_after ev)\<rparr>)"

definition unwrap :: "string option \<Rightarrow> string" where
  "unwrap s = (case s of None \<Rightarrow> [] | Some x \<Rightarrow> x)"

definition chain_hash :: "audit_lib \<Rightarrow> string option \<Rightarrow> string \<Rightarrow> string" where
  "chain_hash lib prev canon = al_sha256 lib (unwrap prev @ canon)"

section \<open>Where an event comes from\<close>

text \<open>\<open>X-Forwarded-For\<close>, or the host of \<open>RemoteAddr\<close>: the text before its last colon.\<close>

definition before_last :: "char \<Rightarrow> string \<Rightarrow> string option" where
  "before_last c s = (if c \<in> set s then Some (rev (tl (dropWhile (\<lambda>x. x \<noteq> c) (rev s)))) else None)"

definition clientIP :: "string \<Rightarrow> string \<Rightarrow> string" where
  "clientIP forwarded remote =
     (if forwarded \<noteq> [] then
        (let first = takeWhile (\<lambda>x. x \<noteq> CHR '','') forwarded
         in if CHR '','' \<in> set forwarded \<and> length first > 0 then TrimSpace first else TrimSpace forwarded)
      else case before_last CHR '':'' remote of
             Some host \<Rightarrow> if length host > 0 then host else remote
           | None \<Rightarrow> remote)"

record audit_request =
  ar_forwarded :: string
  ar_remote :: string
  ar_tenant_header :: string

text \<open>The zero \<open>time.Time\<close>, the first of January of year 1, stands for an absent time.\<close>

definition zero_time :: time where
  "zero_time = - 62135596800000000"

definition with_defaults :: "surroundings \<Rightarrow> audit_request \<Rightarrow> audit_ev \<Rightarrow> audit_ev" where
  "with_defaults sur req ev =
     ev\<lparr>ae_occurred_at := (if ae_occurred_at ev = zero_time then go_now sur else ae_occurred_at ev),
        ae_actor_ip := (if ae_actor_ip ev = [] then clientIP (ar_forwarded req) (ar_remote req) else ae_actor_ip ev)\<rparr>"

section \<open>The table\<close>

definition chain_of :: "session \<Rightarrow> string \<Rightarrow> db \<Rightarrow> audit_row list" where
  "chain_of s ten d = sort_key au_id (filter (\<lambda>r. au_tenant r = ten) (rows_seen au_tenant s (audit_events d)))"

definition last_hash :: "string \<Rightarrow> db \<Rightarrow> string option" where
  "last_hash ten d = (case rev (chain_of BypassRls ten d) of [] \<Rightarrow> None | r # _ \<Rightarrow> Some (au_hash r))"

definition nullif :: "string \<Rightarrow> string option" where
  "nullif s = (if s = [] then None else Some s)"

definition nullJSON :: "string \<Rightarrow> string option" where
  "nullJSON b = (if length b = 0 \<or> b = ''null'' then None else Some b)"

text \<open>A nullable text under a cast: NULL stays NULL, a rejected text fails the statement.\<close>

definition cast_text :: "(string \<Rightarrow> string option) \<Rightarrow> string option \<Rightarrow> string option option" where
  "cast_text f x = (case x of None \<Rightarrow> Some None | Some s \<Rightarrow> map_option Some (f s))"

definition audit_row_of :: "audit_lib \<Rightarrow> int \<Rightarrow> audit_ev \<Rightarrow> string option \<Rightarrow> string \<Rightarrow> audit_row option" where
  "audit_row_of lib n ev prev hash =
     (case (cast_text (al_uuid lib) (nullif (ae_actor_user ev)), cast_text (al_inet lib) (nullif (ae_actor_ip ev)),
            cast_text (al_jsonb lib) (nullJSON (ae_before ev)), cast_text (al_jsonb lib) (nullJSON (ae_after ev))) of
        (Some user, Some ip, Some bef, Some aft) \<Rightarrow>
          Some \<lparr>au_id = n, au_tenant = ae_tenant_id ev, au_occurred_at = ae_occurred_at ev, au_actor_user = user,
                au_actor_role = nullif (ae_actor_role ev), au_actor_device = nullif (ae_actor_device ev),
                au_actor_ip = ip, au_service = ae_service ev, au_action = ae_action ev,
                au_resource_type = ae_resource_type ev, au_resource_id = Some (ae_resource_id ev),
                au_before = bef, au_after = aft, au_prev_hash = prev, au_hash = hash\<rparr>
      | _ \<Rightarrow> None)"

definition insert_audit :: "audit_lib \<Rightarrow> int \<Rightarrow> audit_ev \<Rightarrow> string option \<Rightarrow> string \<Rightarrow> db \<Rightarrow> sqlerr + int \<times> db" where
  "insert_audit lib n ev prev hash d =
     (case audit_row_of lib n ev prev hash of
        None \<Rightarrow> Inl SqlFault
      | Some r \<Rightarrow> (case insert_row au_tenant BypassRls (\<lambda>old new. au_id old = au_id new) r (audit_events d) of
                    Inl e \<Rightarrow> Inl e
                  | Inr rows \<Rightarrow> Inr (n, d\<lparr>audit_events := rows\<rparr>)))"

section \<open>\<open>POST /v1/audit/events\<close>\<close>

record audit_item =
  it_id :: int
  it_occurred_at :: time
  it_actor_user :: "string option"
  it_actor_role :: "string option"
  it_actor_device :: "string option"
  it_actor_ip :: "string option"
  it_service :: string
  it_action :: string
  it_resource_type :: string
  it_resource_id :: "string option"
  it_before :: "string option"
  it_after :: "string option"
  it_hash :: string

datatype audit_body = Written int string | AuditItems "audit_item list" | ChainOk nat | ChainBroken int nat

type_synonym 'a audit_step = "(audit_body, 'a) handler"
type_synonym audit_handler = "(audit_body, audit_body response) handler"

text \<open>The error of the lookup of the previous hash is dropped.\<close>

definition write_tx :: "dbrole \<Rightarrow> audit_lib \<Rightarrow> audit_ev \<Rightarrow> (int \<times> string) audit_step" where
  "write_tx role lib ev =
     andthen (exec (query (\<lambda>_. ()))) (
     bind (exec_try (rls_off role (query_row (last_hash (ae_tenant_id ev))))) (\<lambda>res.
     let prev = (case res of Inl _ \<Rightarrow> None | Inr h \<Rightarrow> Some h) in
     case canonical lib ev of
       None \<Rightarrow> stop Internal
     | Some canon \<Rightarrow>
         let hash = chain_hash lib prev canon in
         bind (nextval ''audit_events'') (\<lambda>n.
         bind (exec (rls_off role (insert_audit lib n ev prev hash))) (\<lambda>ident.
         ret (ident, hash)))))"

definition audit_write :: "dbrole \<Rightarrow> audit_lib \<Rightarrow> surroundings \<Rightarrow> audit_request \<Rightarrow> audit_ev option \<Rightarrow> audit_handler" where
  "audit_write role lib sur req body =
     bind (read_json body) (\<lambda>ev.
     andthen (guard (\<not> (ae_tenant_id ev = [] \<or> ae_action ev = [] \<or> ae_service ev = [] \<or> ae_resource_type ev = []))
               (write_err ErrBadRequest)) (
     bind (in_tx Internal (write_tx role lib (with_defaults sur req ev))) (\<lambda>(ident, hash).
     ret (Json 201 (Written ident hash)))))"

section \<open>\<open>GET /v1/audit/events\<close>\<close>

definition audit_item_of :: "audit_row \<Rightarrow> audit_item" where
  "audit_item_of r =
     \<lparr>it_id = au_id r, it_occurred_at = au_occurred_at r, it_actor_user = au_actor_user r, it_actor_role = au_actor_role r,
      it_actor_device = au_actor_device r, it_actor_ip = au_actor_ip r, it_service = au_service r, it_action = au_action r,
      it_resource_type = au_resource_type r, it_resource_id = au_resource_id r, it_before = au_before r, it_after = au_after r,
      it_hash = au_hash r\<rparr>"

text \<open>
  Outside a transaction \<open>SET LOCAL\<close> has no effect and its error is dropped: the session is that
  of the pool, which carries no tenant.
\<close>

definition audit_list :: "dbrole \<Rightarrow> audit_request \<Rightarrow> string \<Rightarrow> audit_handler" where
  "audit_list role req tenant_param =
     (let ten = (if tenant_param = [] then ar_tenant_header req else tenant_param) in
      andthen (guard (ten \<noteq> []) (Err 400 ''tenant_required'')) (
      bind (exec_try (query (\<lambda>_. ()))) (\<lambda>_.
      bind (exec (query (\<lambda>d. map audit_item_of (take 200 (rev (chain_of (session_of role []) ten d)))))) (\<lambda>items.
      ret (Json 200 (AuditItems items))))))"

section \<open>\<open>GET /v1/audit/verify\<close>\<close>

definition event_of :: "audit_row \<Rightarrow> audit_ev" where
  "event_of r =
     \<lparr>ae_occurred_at = au_occurred_at r, ae_tenant_id = au_tenant r, ae_actor_user = unwrap (au_actor_user r),
      ae_actor_role = unwrap (au_actor_role r), ae_actor_device = unwrap (au_actor_device r),
      ae_actor_ip = unwrap (au_actor_ip r), ae_service = au_service r, ae_action = au_action r,
      ae_resource_type = au_resource_type r, ae_resource_id = unwrap (au_resource_id r),
      ae_before = unwrap (au_before r), ae_after = unwrap (au_after r)\<rparr>"

text \<open>The loop: the id of the first row that does not fit, or the number of rows checked.\<close>

fun verify_rows :: "audit_lib \<Rightarrow> string option \<Rightarrow> nat \<Rightarrow> audit_row list \<Rightarrow> (int \<times> nat) + nat" where
  "verify_rows lib prev checked [] = Inr checked"
| "verify_rows lib prev checked (r # rs) =
     (let got = chain_hash lib prev (unwrap (canonical lib (event_of r)))
      in if got \<noteq> au_hash r \<or> unwrap (au_prev_hash r) \<noteq> unwrap prev then Inl (au_id r, checked)
         else verify_rows lib (Some (au_hash r)) (checked + 1) rs)"

definition audit_verify :: "dbrole \<Rightarrow> audit_lib \<Rightarrow> string \<Rightarrow> audit_handler" where
  "audit_verify role lib ten =
     andthen (guard (ten \<noteq> []) (Err 400 ''tenant_required'')) (
     bind (exec_try (query (\<lambda>_. ()))) (\<lambda>_.
     bind (exec (query (chain_of (session_of role []) ten))) (\<lambda>rows.
     ret (Json 200 (case verify_rows lib None 0 rows of Inl (ident, n) \<Rightarrow> ChainBroken ident n | Inr n \<Rightarrow> ChainOk n)))))"

section \<open>The chain\<close>

text \<open>What verification has hashed when it reaches the end, and the hash it ends on.\<close>

definition ends_on :: "string option \<Rightarrow> audit_row list \<Rightarrow> string option" where
  "ends_on prev rs = (if rs = [] then prev else Some (au_hash (last rs)))"

fun digested :: "audit_lib \<Rightarrow> string option \<Rightarrow> audit_row list \<Rightarrow> string list" where
  "digested lib prev [] = []"
| "digested lib prev (r # rs) = (unwrap prev @ unwrap (canonical lib (event_of r))) # digested lib (Some (au_hash r)) rs"

lemma ends_on_simps [simp]:
  "ends_on prev [] = prev" "ends_on prev (r # rs) = ends_on (Some (au_hash r)) rs" "ends_on prev (rs @ [r]) = Some (au_hash r)"
  by (simp_all add: ends_on_def)

lemma verify_rows_snoc:
  "verify_rows lib prev n (rs @ [r]) =
     (case verify_rows lib prev n rs of
        Inl e \<Rightarrow> Inl e
      | Inr m \<Rightarrow> if chain_hash lib (ends_on prev rs) (unwrap (canonical lib (event_of r))) \<noteq> au_hash r
                    \<or> unwrap (au_prev_hash r) \<noteq> unwrap (ends_on prev rs)
                 then Inl (au_id r, m) else Inr (m + 1))"
  by (induction rs arbitrary: prev n) (simp_all add: Let_def split: sum.split)

lemma verify_rows_digested:
  "verify_rows lib prev n rs = Inr m \<Longrightarrow>
     map au_hash rs = map (al_sha256 lib) (digested lib prev rs) \<and> m = n + length rs"
proof (induction rs arbitrary: prev n)
  case (Cons r rs)
  from Cons.prems have "verify_rows lib (Some (au_hash r)) (n + 1) rs = Inr m"
    and "au_hash r = al_sha256 lib (unwrap prev @ unwrap (canonical lib (event_of r)))"
    by (auto simp: Let_def chain_hash_def split: if_splits)
  with Cons.IH [of "Some (au_hash r)" "n + 1"] show ?case by simp
qed simp

lemma digested_snoc:
  "digested lib prev (rs @ [r]) = digested lib prev rs @ [unwrap (ends_on prev rs) @ unwrap (canonical lib (event_of r))]"
  by (induction rs arbitrary: prev) simp_all

lemma verify_rows_butlast: "verify_rows lib prev n (rs @ [r]) = Inr m \<Longrightarrow> \<exists>k. verify_rows lib prev n rs = Inr k"
  by (auto simp: verify_rows_snoc split: sum.splits)

section \<open>Tampering shows\<close>

lemma same_digests:
  assumes "length rs = length rs'"
    and "verify_rows lib None 0 rs = Inr n" and "verify_rows lib None 0 rs' = Inr n'"
    and "ends_on None rs = ends_on None rs'"
    and len: "\<And>x. length (al_sha256 lib x) = 32"
    and "inj_on (al_sha256 lib) (set (digested lib None rs) \<union> set (digested lib None rs'))"
  shows "digested lib None rs = digested lib None rs'
    \<and> map (\<lambda>r. unwrap (canonical lib (event_of r))) rs = map (\<lambda>r. unwrap (canonical lib (event_of r))) rs'"
  using assms(1-4,6)
proof (induction rs arbitrary: rs' n n' rule: rev_induct)
  case (snoc r rs)
  from snoc.prems(1) obtain qs r' where rs': "rs' = qs @ [r']" and len_qs: "length rs = length qs"
    by (cases rs' rule: rev_cases) auto
  note prems = snoc.prems(2-5) [unfolded rs']
  let ?canon = "\<lambda>r. unwrap (canonical lib (event_of r))"
  let ?x = "unwrap (ends_on None rs) @ ?canon r" and ?y = "unwrap (ends_on None qs) @ ?canon r'"
  from prems(1) obtain k where k: "verify_rows lib None 0 rs = Inr k" using verify_rows_butlast by blast
  from prems(2) obtain k' where k': "verify_rows lib None 0 qs = Inr k'" using verify_rows_butlast by blast
  from prems(1,2) k k' have hashes: "au_hash r = al_sha256 lib ?x" "au_hash r' = al_sha256 lib ?y"
    by (auto simp: verify_rows_snoc chain_hash_def split: if_splits)
  with prems(3) have "al_sha256 lib ?x = al_sha256 lib ?y" by (simp add: ends_on_def)
  with prems(4) have xy: "?x = ?y"
    by (rule inj_onD) (simp_all add: digested_snoc)
  have "length (unwrap (ends_on None rs)) = length (unwrap (ends_on None qs))"
    using verify_rows_digested [OF k] verify_rows_digested [OF k'] len_qs len
    by (cases rs rule: rev_cases; cases qs rule: rev_cases) (auto simp: ends_on_def unwrap_def digested_snoc)
  with xy have "unwrap (ends_on None rs) = unwrap (ends_on None qs)" and same: "?canon r = ?canon r'" by simp_all
  with len_qs have "ends_on None rs = ends_on None qs"
    by (auto simp: ends_on_def unwrap_def)
  moreover have "inj_on (al_sha256 lib) (set (digested lib None rs) \<union> set (digested lib None qs))"
    using prems(4) by (rule inj_on_subset) (auto simp: digested_snoc)
  ultimately have "digested lib None rs = digested lib None qs \<and> map ?canon rs = map ?canon qs"
    using snoc.IH [OF len_qs k k'] by blast
  with xy same show ?case by (simp add: digested_snoc rs')
qed simp


section \<open>What a write does\<close>

text \<open>The counters only go up, whatever a step returns.\<close>

definition seq_grows :: "('d, 'e) world \<Rightarrow> ('d, 'e) world \<Rightarrow> bool" where
  "seq_grows w w' \<longleftrightarrow> (\<forall>q. w_seq w q \<le> w_seq w' q)"

interpretation sq: frame seq_grows
  by unfold_locales (auto simp: seq_grows_def intro: order_trans)

lemma sq_exec_try: "keeps seq_grows (exec_try f)"
  by (rule keepsI) (auto simp: seq_grows_def exec_try_def Let_def split: sum.splits prod.splits)

lemma sq_exec_or: "keeps seq_grows (exec_or k f)"
  unfolding exec_or_def by (intro sq.r_control sq_exec_try)

lemma sq_nextval: "keeps seq_grows (nextval q)"
  by (rule keepsI) (simp add: seq_grows_def nextval_def Let_def)

lemma sq_in_tx:
  assumes "keeps seq_grows body"
  shows "keeps seq_grows (in_tx k body)"
proof -
  have "keeps seq_grows (tx_begin k)" "keeps seq_grows (tx_commit k)"
    by (rule keepsI, simp add: seq_grows_def tx_begin_def tx_commit_def rolled_back_def Let_def split: option.split)+
  with assms have "keeps seq_grows (andthen (tx_begin k) (bind body (\<lambda>x. andthen (tx_commit k) (ret x))))"
    by (intro sq.r_control)
  then show ?thesis
    unfolding in_tx_def keeps_def seq_grows_def defer_rollback_def
    by (auto simp: rolled_back_def split: prod.splits option.splits) (metis snd_conv)+
qed

lemma seq_audit_write: "keeps seq_grows (audit_write role lib sur req body)"
  unfolding audit_write_def write_tx_def Let_def by (intro sq.r_control sq_in_tx sq_exec_or sq_exec_try sq_nextval)

lemma tx_write_tx: "keeps same_tx (write_tx role lib ev)"
  unfolding write_tx_def Let_def by (intro tx_steps)

lemma write_tx_run:
  assumes run: "write_tx role lib ev w = (Inr (ident, hash), w')" and tx: "w_snap w \<noteq> None"
  obtains canon r where "ident = w_seq w ''audit_events'' + 1" "w_seq w' ''audit_events'' = ident"
    "canonical lib ev = Some canon" "hash = chain_hash lib (last_hash (ae_tenant_id ev) (w_db w)) canon"
    "audit_row_of lib ident ev (last_hash (ae_tenant_id ev) (w_db w)) hash = Some r"
    "w_db w' = (w_db w)\<lparr>audit_events := audit_events (w_db w) @ [r]\<rparr>"
proof -
  from run obtain w1 u res w2 where
    set: "(exec (query (\<lambda>_. ())) :: unit audit_step) w = (Inr u, w1)" and
    prev: "(exec_try (rls_off role (query_row (last_hash (ae_tenant_id ev)))) :: (sqlerr + string) audit_step) w1 = (Inr res, w2)" and
    rest: "(let prev = (case res of Inl _ \<Rightarrow> None | Inr h \<Rightarrow> Some h) in
     case canonical lib ev of None \<Rightarrow> stop Internal
     | Some canon \<Rightarrow> let hash = chain_hash lib prev canon in
         bind (nextval ''audit_events'') (\<lambda>n. bind (exec (rls_off role (insert_audit lib n ev prev hash))) (\<lambda>ident. ret (ident, hash)))) w2
      = ((Inr (ident, hash), w') :: (audit_body response + int \<times> string) \<times> dbworld)"
    unfolding write_tx_def by (elim bindE andthenE) (rule that; simp)
  define p where "p = (case res of Inl _ \<Rightarrow> None | Inr h \<Rightarrow> Some h)"
  from rest obtain canon n w3 where canon: "canonical lib ev = Some canon" and hash: "hash = chain_hash lib p canon"
    and nv: "(nextval ''audit_events'' :: int audit_step) w2 = (Inr n, w3)"
    and ins: "(exec (rls_off role (insert_audit lib n ev p hash)) :: int audit_step) w3 = (Inr ident, w')"
    by (auto simp: Let_def p_def [symmetric] split: option.splits elim!: bindE)
  from exec_db [OF ins] have role: "role = BypassesRls" by (cases role) auto
  from set have w1: "w_db w1 = w_db w" "w_snap w1 \<noteq> None" "w_seq w1 = w_seq w" using tx by (auto elim!: exec_orE)
  from ins nv have alive: "\<not> w_aborted w2" by (auto elim!: exec_orE nextvalE)
  from try_row_settled [OF prev [unfolded role rls_off.simps] w1(2) alive]
  have p: "p = last_hash (ae_tenant_id ev) (w_db w)" and w2: "w_db w2 = w_db w"
    by (auto simp: p_def w1 split: option.splits)
  from prev w1 have seq2: "w_seq w2 = w_seq w" by (auto dest: exec_try_quiet)
  from nv have w3: "n = w_seq w ''audit_events'' + 1" "w_db w3 = w_db w" "w_seq w3 ''audit_events'' = n"
    by (auto elim!: nextvalE simp: seq2 w2)
  from exec_db [OF ins] obtain r where "audit_row_of lib n ev p hash = Some r" and "ident = n"
    and "w_db w' = (w_db w)\<lparr>audit_events := audit_events (w_db w) @ [r]\<rparr>"
    by (auto simp: role insert_audit_def insert_row_def w3 split: option.splits if_splits sum.splits)
  moreover from ins have "w_seq w' = w_seq w3" by (auto elim!: exec_orE)
  ultimately show thesis
    using canon hash p w3 by (intro that) simp_all
qed

section \<open>Every chain verifies\<close>

text \<open>
  What a stored event reads back as has the canonical form it had when it was written, as far as
  Postgres keeps the texts: \<open>jsonb\<close> has to normalise to the same text (\<open>stable_json\<close>), and the
  actor and the address have to be written the way Postgres prints them (\<open>plain_actor\<close>).
\<close>

definition stable_json :: "audit_lib \<Rightarrow> bool" where
  "stable_json lib \<longleftrightarrow> (\<forall>b b'. al_jsonb lib b = Some b' \<longrightarrow> normalizeJSON lib b' = normalizeJSON lib b)"

definition plain_actor :: "audit_lib \<Rightarrow> audit_ev \<Rightarrow> bool" where
  "plain_actor lib ev \<longleftrightarrow>
     (ae_actor_user ev = [] \<or> al_uuid lib (ae_actor_user ev) = Some (ae_actor_user ev))
     \<and> (ae_actor_ip ev = [] \<or> al_inet lib (ae_actor_ip ev) = Some (ae_actor_ip ev))"

lemma unwrap_simps [simp]: "unwrap None = []" "unwrap (Some x) = x" "unwrap (nullif s) = s"
  by (simp_all add: unwrap_def nullif_def)

lemma stored_json:
  assumes "stable_json lib" and "cast_text (al_jsonb lib) (nullJSON b) = Some x"
  shows "normalizeJSON lib (unwrap x) = normalizeJSON lib b"
  using assms by (auto simp: cast_text_def nullJSON_def stable_json_def normalizeJSON_def [of lib b] normalizeJSON_def [of lib "[]"]
      split: if_splits)

lemma stored_text:
  assumes "s = [] \<or> f s = Some s" and "cast_text f (nullif s) = Some x"
  shows "unwrap x = s"
proof (cases "s = []")
  case True
  with assms(2) show ?thesis by (simp add: cast_text_def nullif_def)
next
  case False
  with assms(1) have "f s = Some s" by simp
  with False assms(2) have "x = Some s" by (simp add: cast_text_def nullif_def)
  then show ?thesis by simp
qed

lemma canonical_stored:
  assumes "audit_row_of lib n ev prev hash = Some r" and "stable_json lib" and "plain_actor lib ev"
  shows "canonical lib (event_of r) = canonical lib ev"
proof -
  from assms(1) obtain user ip bef aft where
    casts: "cast_text (al_uuid lib) (nullif (ae_actor_user ev)) = Some user" "cast_text (al_inet lib) (nullif (ae_actor_ip ev)) = Some ip"
    "cast_text (al_jsonb lib) (nullJSON (ae_before ev)) = Some bef" "cast_text (al_jsonb lib) (nullJSON (ae_after ev)) = Some aft"
    and r: "event_of r = ev\<lparr>ae_actor_user := unwrap user, ae_actor_ip := unwrap ip, ae_before := unwrap bef, ae_after := unwrap aft\<rparr>"
    by (auto simp: audit_row_of_def event_of_def split: option.splits)
  from assms(3) have "ae_actor_user ev = [] \<or> al_uuid lib (ae_actor_user ev) = Some (ae_actor_user ev)"
    "ae_actor_ip ev = [] \<or> al_inet lib (ae_actor_ip ev) = Some (ae_actor_ip ev)" by (simp_all add: plain_actor_def)
  then have "unwrap user = ae_actor_user ev" "unwrap ip = ae_actor_ip ev" using casts stored_text by blast+
  then show ?thesis
    using casts(3,4) [THEN stored_json [OF assms(2)]] by (simp add: canonical_def r)
qed

text \<open>The invariant: ids rise and stay below the counter, and the chain of every tenant verifies.\<close>

definition chains_sound :: "audit_lib \<Rightarrow> dbworld \<Rightarrow> bool" where
  "chains_sound lib w \<longleftrightarrow> w_snap w = None
     \<and> sorted_wrt (<) (map au_id (audit_events (w_db w)))
     \<and> (\<forall>r\<in>set (audit_events (w_db w)). au_id r \<le> w_seq w ''audit_events'')
     \<and> (\<forall>t. verify_rows lib None 0 (filter (\<lambda>r. au_tenant r = t) (audit_events (w_db w)))
            = Inr (length (filter (\<lambda>r. au_tenant r = t) (audit_events (w_db w)))))"

lemma chain_of_sorted:
  assumes "sorted_wrt (<) (map au_id (audit_events d))"
  shows "chain_of BypassRls t d = filter (\<lambda>r. au_tenant r = t) (audit_events d)"
proof -
  have "sorted_wrt (<) (map au_id (filter (\<lambda>r. au_tenant r = t) (audit_events d)))"
    using assms by (simp add: sorted_wrt_map sorted_wrt_filter)
  then have "sorted (map au_id (filter (\<lambda>r. au_tenant r = t) (audit_events d)))"
    by (rule strict_sorted_imp_sorted)
  then show ?thesis by (simp add: chain_of_def rows_seen_def sort_key_id_if_sorted)
qed

lemma last_hash_ends_on:
  assumes "sorted_wrt (<) (map au_id (audit_events d))"
  shows "last_hash t d = ends_on None (filter (\<lambda>r. au_tenant r = t) (audit_events d))"
  unfolding last_hash_def chain_of_sorted [OF assms]
  by (cases "filter (\<lambda>r. au_tenant r = t) (audit_events d)" rule: rev_cases) simp_all

text \<open>A step is one write, answered whatever way, with any faults.\<close>

inductive audit_step :: "dbrole \<Rightarrow> audit_lib \<Rightarrow> dbworld \<Rightarrow> dbworld \<Rightarrow> bool" for role lib where
  post: "finish (audit_write role lib sur req body) (w\<lparr>w_faults := fs\<rparr>) = (r, w') \<Longrightarrow>
     (\<And>ev. body = Some ev \<Longrightarrow> plain_actor lib (with_defaults sur req ev)) \<Longrightarrow> audit_step role lib w w'"

inductive_cases audit_stepE: "audit_step role lib w w'"

lemma append_sound:
  assumes sound: "chains_sound lib w" and idle: "w_snap w' = None" and seq: "w_seq w ''audit_events'' < n" "n \<le> w_seq w' ''audit_events''"
    and r: "audit_row_of lib n ev (last_hash (ae_tenant_id ev) (w_db w)) hash = Some r"
    and hash: "hash = chain_hash lib (last_hash (ae_tenant_id ev) (w_db w)) canon" and canon: "canonical lib (event_of r) = Some canon"
    and db: "audit_events (w_db w') = audit_events (w_db w) @ [r]"
  shows "chains_sound lib w'"
proof -
  have fields: "au_id r = n" "au_tenant r = ae_tenant_id ev" "au_prev_hash r = last_hash (ae_tenant_id ev) (w_db w)" "au_hash r = hash"
    using r by (auto simp: audit_row_of_def split: option.splits)
  have sorted: "sorted_wrt (<) (map au_id (audit_events (w_db w)))" and below: "\<forall>x\<in>set (audit_events (w_db w)). au_id x < n"
    using sound seq by (auto simp: chains_sound_def)
  have "verify_rows lib None 0 (filter (\<lambda>x. au_tenant x = t) (audit_events (w_db w')))
      = Inr (length (filter (\<lambda>x. au_tenant x = t) (audit_events (w_db w'))))" for t
    using sound fields canon hash
    by (cases "au_tenant r = t") (auto simp: db chains_sound_def verify_rows_snoc last_hash_ends_on [OF sorted])
  with sorted below fields idle seq show ?thesis
    by (auto simp: chains_sound_def db sorted_wrt_append intro: less_imp_le)
qed

lemma step_sound:
  assumes "audit_step role lib w w'" and "chains_sound lib w" and "stable_json lib"
  shows "chains_sound lib w'"
  using assms(1)
proof (rule audit_stepE)
  fix sur req body fs r
  assume run: "finish (audit_write role lib sur req body) (w\<lparr>w_faults := fs\<rparr>) = (r, w')"
    and plain: "\<And>ev. body = Some ev \<Longrightarrow> plain_actor lib (with_defaults sur req ev)"
  let ?w = "w\<lparr>w_faults := fs\<rparr>"
  have idle: "w_snap ?w = None" using assms(2) by (simp add: chains_sound_def)
  have seq: "w_seq w ''audit_events'' \<le> w_seq w' ''audit_events''"
    using run by (cases rule: finish_cases) (auto dest: keepsD [OF seq_audit_write] simp: seq_grows_def)
  have same: "chains_sound lib w'" if "w_db w' = w_db w" "w_snap w' = None"
    using assms(2) seq that by (auto simp: chains_sound_def intro: order_trans)
  from run show ?thesis
  proof (cases rule: finish_cases)
    case stopped
    have "atomic (audit_write role lib sur req body)"
      unfolding audit_write_def
      by (rule at_bind, intro rd_steps, rule at_andthen, intro rd_steps, rule at_last, rule at_in_tx, rule tx_write_tx)
        (auto simp: stops_with_def ret_def split: prod.splits)
    from atomicD [OF this idle stopped] same show ?thesis by simp
  next
    case ended
    then obtain ev ident hash w1 where body: "body = Some ev" and
      tx: "(in_tx Internal (write_tx role lib (with_defaults sur req ev)) :: (int \<times> string) audit_step) ?w = (Inr (ident, hash), w1)" and w': "w' = w1"
      by (auto simp: audit_write_def elim!: bindE andthenE split: prod.splits)
    from tx idle obtain wa wb where in_tx: "write_tx role lib (with_defaults sur req ev) wa = (Inr (ident, hash), wb)"
      "w_db wa = w_db w" "w_seq wa = w_seq w" "w_snap wa \<noteq> None" "w_db w' = w_db wb" "w_seq w' = w_seq wb" "w_snap w' = None"
      unfolding w' by (elim in_txE [OF _ _ tx_write_tx]) auto
    from in_tx(1,4) obtain canon r where step: "ident = w_seq wa ''audit_events'' + 1" "w_seq wb ''audit_events'' = ident"
      "canonical lib (with_defaults sur req ev) = Some canon"
      "hash = chain_hash lib (last_hash (ae_tenant_id (with_defaults sur req ev)) (w_db wa)) canon"
      "audit_row_of lib ident (with_defaults sur req ev) (last_hash (ae_tenant_id (with_defaults sur req ev)) (w_db wa)) hash = Some r"
      "w_db wb = (w_db wa)\<lparr>audit_events := audit_events (w_db wa) @ [r]\<rparr>"
      by (rule write_tx_run)
    show ?thesis
      by (rule append_sound [OF assms(2) in_tx(7), where n = ident and ev = "with_defaults sur req ev" and r = r])
        (use step in_tx canonical_stored [OF step(5) assms(3) plain [OF body]] in simp_all)
  qed
qed

inductive audit_reachable :: "dbrole \<Rightarrow> audit_lib \<Rightarrow> dbworld \<Rightarrow> dbworld \<Rightarrow> bool" for role lib w0 where
  start: "audit_reachable role lib w0 w0"
| step: "audit_reachable role lib w0 w \<Longrightarrow> audit_step role lib w w' \<Longrightarrow> audit_reachable role lib w0 w'"


text \<open>A log of two events of one tenant, with a digest that pads to 32 bytes.\<close>

definition demo_lib :: audit_lib where
  "demo_lib = \<lparr>al_sha256 = (\<lambda>x. take 32 (x @ replicate 32 CHR ''.'')),
     al_marshal = (\<lambda>ev. Some (ae_action ev @ ae_resource_id ev)), al_renorm = Some, al_uuid = Some,
     al_inet = (\<lambda>ip. Some (ToLower ip)), al_jsonb = Some\<rparr>"

definition demo_event :: "string \<Rightarrow> audit_ev" where
  "demo_event action = \<lparr>ae_occurred_at = 5000, ae_tenant_id = ''no'', ae_actor_user = [], ae_actor_role = ''officer'', ae_actor_device = [],
     ae_actor_ip = ''10.0.0.1'', ae_service = ''fines'', ae_action = action, ae_resource_type = ''fine'', ae_resource_id = ''1'',
     ae_before = [], ae_after = []\<rparr>"

definition demo_post :: audit_request where
  "demo_post = \<lparr>ar_forwarded = [], ar_remote = ''10.0.0.9:80'', ar_tenant_header = []\<rparr>"

definition demo_now :: surroundings where
  "demo_now = \<lparr>go_now = days 1, db_now = days 1, new_uuid = id\<rparr>"

definition demo_log :: "nat \<Rightarrow> dbworld" where
  "demo_log n = (if n = 0 then world_of empty_db
     else if n = 1 then snd (finish (audit_write BypassesRls demo_lib demo_now demo_post (Some (demo_event ''issue''))) (world_of empty_db))
     else snd (finish (audit_write BypassesRls demo_lib demo_now demo_post (Some (demo_event ''cancel'')))
       (snd (finish (audit_write BypassesRls demo_lib demo_now demo_post (Some (demo_event ''issue''))) (world_of empty_db)))))"

lemma demo_log_step:
  assumes "plain_actor demo_lib (with_defaults demo_now demo_post ev)" and "w_faults w = []"
  shows "audit_step BypassesRls demo_lib w (snd (finish (audit_write BypassesRls demo_lib demo_now demo_post (Some ev)) w))"
proof -
  have w: "w\<lparr>w_faults := []\<rparr> = w" using assms(2) by (cases w) simp
  show ?thesis
    by (rule audit_step.post [where fs = "[]" and body = "Some ev" and sur = demo_now and req = demo_post and
        r = "fst (finish (audit_write BypassesRls demo_lib demo_now demo_post (Some ev)) w)"]) (use assms(1) w in simp_all)
qed



section \<open>Where a chain breaks without tampering\<close>

text \<open>
  Two writers that read the same newest event: the row lock of the second is granted on the row it
  had already chosen, so both events carry the same previous hash, and the chain is broken at the
  second one from then on.
\<close>

lemma forked_chain_breaks:
  assumes "verify_rows lib None 0 rs = Inr k" and "unwrap (au_prev_hash r) \<noteq> unwrap (ends_on None rs)"
  shows "verify_rows lib None 0 (rs @ [r]) = Inl (au_id r, k)"
  using assms by (simp add: verify_rows_snoc)

text \<open>The digest covers the address as it was sent, verification reads it as Postgres prints it.\<close>

lemma address_text_breaks_chain:
  "(let ev = (demo_event ''issue'')\<lparr>ae_actor_ip := ''2001:DB8::1''\<rparr>;
        lib = demo_lib\<lparr>al_marshal := (\<lambda>e. Some (ae_actor_ip e))\<rparr>
    in fst (finish (audit_verify BypassesRls lib ''no'') (snd (finish (audit_write BypassesRls lib demo_now demo_post (Some ev)) (world_of empty_db)))))
   = Json 200 (ChainBroken 1 0)"
  by code_simp

text \<open>An IPv6 peer keeps its brackets, which \<open>inet\<close> does not take.\<close>

lemma clientIP_ipv6: "clientIP [] ''[::1]:8080'' = ''[::1]''"
  by code_simp

text \<open>
  A pool whose role is subject to the policies sees no event outside a transaction of a tenant:
  verification then finds every chain intact.
\<close>

lemma verify_without_bypass:
  assumes "t \<noteq> []"
  shows "fst (finish (audit_verify SubjectToRls lib t) (w\<lparr>w_faults := [], w_aborted := False\<rparr>)) = Json 200 (ChainOk 0)"
  using assms
  by (simp add: audit_verify_def finish_def andthen_def bind_def guard_def ret_def exec_or_def exec_try_def Let_def query_def
      chain_of_def rows_seen_def)

end
