(* ===== verification/AuthService.thy ===== *)
theory AuthService
  imports Schema Base64
begin

text \<open>
  The auth service (\<open>services/auth/internal/api/api.go\<close>, \<open>tokens.go\<close>): login, refresh, logout,
  the caller's own data, and the creation of users. It works across tenants: inside its
  transactions it switches row-level security off, which needs a role that bypasses it.

  Parameters: bcrypt (\<open>packages/go-common/auth/password.go\<close>), SHA-256, the JWT library and the 32
  random bytes of a refresh token. Logging is not modelled. The email column is \<open>CITEXT\<close>:
  compared without case.
\<close>

section \<open>Configuration and answers\<close>

record auth_api =
  aa_pool :: dbrole
  aa_default_tenant :: string
  aa_bootstrap_key :: string
  aa_issuer :: issuer
  aa_sign :: jwt_signer
  aa_parse :: jwt_parser
  aa_sha256 :: "string \<Rightarrow> string"
  aa_hash_password :: "string \<Rightarrow> string option"
  aa_check_password :: "string \<Rightarrow> string \<Rightarrow> bool"

record tenant_config =
  tc_name :: string
  tc_country_code :: string
  tc_locale :: string
  tc_currency :: string
  tc_plate_regex :: string

record me_resp =
  me_id :: "uuid option"
  me_tenant :: string
  me_email :: string
  me_full_name :: string
  me_role :: string
  me_permissions :: "string list"
  me_tenant_config :: tenant_config

record token_resp =
  tr_access_token :: string
  tr_refresh_token :: string
  tr_expires_at :: time
  tr_user :: me_resp

datatype auth_body = LoggedIn token_resp | Refreshed string time | Me me_resp | UserId uuid

type_synonym 'a auth_step = "(auth_body, 'a) handler"
type_synonym auth_handler = "(auth_body, auth_body response) handler"

record auth_request =
  aq_headers :: headers
  aq_bootstrap :: string

section \<open>Refresh tokens\<close>

text \<open>\<open>hex.EncodeToString\<close>.\<close>

definition hex_digit :: "nat \<Rightarrow> char" where
  "hex_digit n = (if n < 10 then char_of (48 + n) else char_of (87 + n))"

definition hex :: "string \<Rightarrow> string" where
  "hex s = concat (map (\<lambda>c. [hex_digit (code_of c div 16), hex_digit (code_of c mod 16)]) s)"

definition hashToken :: "auth_api \<Rightarrow> string \<Rightarrow> string" where
  "hashToken a t = hex (aa_sha256 a t)"

definition newRefreshToken :: "auth_api \<Rightarrow> string \<Rightarrow> string \<times> string" where
  "newRefreshToken a rnd = (let token = EncodeToString RawURLEncoding rnd in (token, hashToken a token))"

section \<open>Roles and permissions\<close>

definition pickPrimary :: "string list \<Rightarrow> string" where
  "pickPrimary rs =
     (case find (\<lambda>p. list_ex (\<lambda>r. r = p) rs) [''admin'', ''court'', ''customs'', ''officer'', ''citizen''] of
        Some p \<Rightarrow> p
      | None \<Rightarrow> hd rs)"

definition roles_of :: "string \<Rightarrow> uuid \<Rightarrow> db \<Rightarrow> string list" where
  "roles_of ten uid d = map (\<lambda>(_, _, role). role) (filter (\<lambda>(t, u, _). t = ten \<and> u = uid) (user_roles d))"

definition permissions_of :: "string \<Rightarrow> string list \<Rightarrow> db \<Rightarrow> string list" where
  "permissions_of ten rs d = remdups (map (\<lambda>(_, _, p). p) (filter (\<lambda>(t, role, _). t = ten \<and> role \<in> set rs) (role_permissions d)))"

definition loadRoleAndPerms :: "dbrole \<Rightarrow> string \<Rightarrow> uuid \<Rightarrow> (string \<times> string list) auth_step" where
  "loadRoleAndPerms role ten uid =
     bind (exec (rls_off role (query (roles_of ten uid)))) (\<lambda>rs.
     if length rs = 0 then ret (''citizen'', [])
     else
       bind (exec (rls_off role (query (permissions_of ten rs)))) (\<lambda>perms.
       ret (pickPrimary rs, perms)))"

definition empty_config :: tenant_config where
  "empty_config = \<lparr>tc_name = [], tc_country_code = [], tc_locale = [], tc_currency = [], tc_plate_regex = []\<rparr>"

definition config_of :: "string \<Rightarrow> db \<Rightarrow> tenant_config option" where
  "config_of ten d =
     (case (map_of (tenants d) ten, map_of (tenant_details d) ten) of
        (Some regex, Some (name, country, locale, currency)) \<Rightarrow>
          Some \<lparr>tc_name = name, tc_country_code = country, tc_locale = locale, tc_currency = currency, tc_plate_regex = regex\<rparr>
      | _ \<Rightarrow> None)"

text \<open>Its callers only log the error and go on with the empty configuration.\<close>

definition loadTenantConfig :: "string \<Rightarrow> tenant_config auth_step" where
  "loadTenantConfig ten =
     bind (exec_try (query (\<lambda>_. ()))) (\<lambda>set.
     case set of
       Inl _ \<Rightarrow> ret empty_config
     | Inr _ \<Rightarrow>
         bind (exec_try (query_row (config_of ten))) (\<lambda>res.
         ret (case res of Inl _ \<Rightarrow> empty_config | Inr tc \<Rightarrow> tc)))"

section \<open>\<open>POST /v1/auth/login\<close>\<close>

record login_req =
  lr_email :: string
  lr_password :: string
  lr_tenant :: string

definition login_tenant :: "auth_api \<Rightarrow> auth_request \<Rightarrow> login_req \<Rightarrow> string" where
  "login_tenant a req q =
     (if lr_tenant q \<noteq> [] then lr_tenant q
      else if h_tenant (aq_headers req) \<noteq> [] then h_tenant (aq_headers req)
      else aa_default_tenant a)"

definition user_by_email :: "string \<Rightarrow> string \<Rightarrow> db \<Rightarrow> user_row option" where
  "user_by_email ten email d = find (\<lambda>u. u_tenant u = ten \<and> ToLower (u_email u) = ToLower email) (users d)"

definition access_claims :: "string \<Rightarrow> string \<Rightarrow> string list \<Rightarrow> claims" where
  "access_claims ten role perms =
     \<lparr>c_tenant = ten, c_role = role, c_permissions = perms, c_device = [], c_subject = None, c_issued_at = 0,
      c_expires_at = 0, c_jti = None\<rparr>"

definition insert_refresh :: "refresh_row \<Rightarrow> db \<Rightarrow> sqlerr + unit \<times> db" where
  "insert_refresh r d =
     (if \<not> list_ex (\<lambda>u. u_id u = rt_user_id r) (users d) then Inl ForeignKeyViolation
      else (case insert_row rt_tenant BypassRls (\<lambda>old new. rt_id old = rt_id new) r (refresh_tokens d) of
              Inl e \<Rightarrow> Inl e
            | Inr rows \<Rightarrow> Inr ((), d\<lparr>refresh_tokens := rows\<rparr>)))"

definition refresh_row_of :: "auth_api \<Rightarrow> surroundings \<Rightarrow> string \<Rightarrow> uuid \<Rightarrow> string \<Rightarrow> refresh_row" where
  "refresh_row_of a sur ten uid hash =
     \<lparr>rt_id = new_uuid sur 1, rt_tenant = ten, rt_user_id = uid, rt_token_hash = hash,
      rt_expires_at = go_now sur + RefreshTTL (aa_issuer a), rt_revoked_at = None\<rparr>"

text \<open>What the transaction hands over: the tokens, the user, the role and the permissions.\<close>

definition login_tx ::
    "auth_api \<Rightarrow> surroundings \<Rightarrow> string \<Rightarrow> string \<Rightarrow> login_req \<Rightarrow> (string \<times> string \<times> user_row \<times> string \<times> string list) auth_step" where
  "login_tx a sur rnd ten q =
     andthen (exec (query (\<lambda>_. ()))) (
     bind (exec_or (no_rows_or (write_err ErrUnauthorized) Internal)
             (rls_off (aa_pool a) (query_row (user_by_email ten (lr_email q))))) (\<lambda>u.
     andthen (guard (u_is_active u) (write_err ErrUnauthorized)) (
     andthen (guard (aa_check_password a (u_password_hash u) (lr_password q)) (write_err ErrUnauthorized)) (
     bind (loadRoleAndPerms (aa_pool a) ten (u_id u)) (\<lambda>(role, perms).
     case Sign (aa_sign a) (aa_issuer a) (go_now sur) (new_uuid sur 0) (u_id u) (access_claims ten role perms) of
       None \<Rightarrow> stop Internal
     | Some access \<Rightarrow>
         (case newRefreshToken a rnd of (refresh, hash) \<Rightarrow>
          andthen (exec (rls_off (aa_pool a) (insert_refresh (refresh_row_of a sur ten (u_id u) hash)))) (
          ret (access, refresh, u, role, perms))))))))"

definition handleLogin :: "auth_api \<Rightarrow> surroundings \<Rightarrow> string \<Rightarrow> auth_request \<Rightarrow> login_req option \<Rightarrow> auth_handler" where
  "handleLogin a sur rnd req body =
     bind (read_json body) (\<lambda>q.
     let ten = login_tenant a req q in
     bind (in_tx Internal (login_tx a sur rnd ten q)) (\<lambda>(access, refresh, u, role, perms).
     bind (loadTenantConfig ten) (\<lambda>tcfg.
     ret (Json 200 (LoggedIn \<lparr>tr_access_token = access, tr_refresh_token = refresh,
       tr_expires_at = go_now sur + AccessTTL (aa_issuer a),
       tr_user = \<lparr>me_id = Some (u_id u), me_tenant = ten, me_email = lr_email q, me_full_name = u_full_name u,
         me_role = role, me_permissions = perms, me_tenant_config = tcfg\<rparr>\<rparr>)))))"

section \<open>\<open>POST /v1/auth/refresh\<close> and \<open>POST /v1/auth/logout\<close>\<close>

definition token_row :: "string \<Rightarrow> db \<Rightarrow> refresh_row option" where
  "token_row hash d = find (\<lambda>r. rt_token_hash r = hash) (refresh_tokens d)"

definition refresh_tx :: "auth_api \<Rightarrow> surroundings \<Rightarrow> string \<Rightarrow> (refresh_row \<times> string \<times> string list) auth_step" where
  "refresh_tx a sur hash =
     andthen (exec (query (\<lambda>_. ()))) (
     bind (exec_or (no_rows_or (write_err ErrUnauthorized) Internal) (rls_off (aa_pool a) (query_row (token_row hash)))) (\<lambda>r.
     andthen (guard (rt_revoked_at r = None) (write_err ErrUnauthorized)) (
     andthen (guard (\<not> go_now sur > rt_expires_at r) (write_err ErrUnauthorized)) (
     bind (loadRoleAndPerms (aa_pool a) (rt_tenant r) (rt_user_id r)) (\<lambda>(role, perms).
     ret (r, role, perms))))))"

definition handleRefresh :: "auth_api \<Rightarrow> surroundings \<Rightarrow> string option \<Rightarrow> auth_handler" where
  "handleRefresh a sur body =
     bind (read_json body) (\<lambda>tok.
     bind (in_tx Internal (refresh_tx a sur (hashToken a tok))) (\<lambda>(r, role, perms).
     case Sign (aa_sign a) (aa_issuer a) (go_now sur) (new_uuid sur 0) (rt_user_id r) (access_claims (rt_tenant r) role perms) of
       None \<Rightarrow> stop Internal
     | Some access \<Rightarrow> ret (Json 200 (Refreshed access (go_now sur + AccessTTL (aa_issuer a))))))"

text \<open>A statement of its own on the pool, with the session the pool has; its error is dropped.\<close>

definition revoke :: "session \<Rightarrow> time \<Rightarrow> string \<Rightarrow> db \<Rightarrow> db" where
  "revoke s now hash d =
     d\<lparr>refresh_tokens := update_rows rt_tenant s (\<lambda>r. rt_token_hash r = hash) (\<lambda>r. r\<lparr>rt_revoked_at := Some now\<rparr>) (refresh_tokens d)\<rparr>"

definition handleLogout :: "auth_api \<Rightarrow> surroundings \<Rightarrow> string option \<Rightarrow> auth_handler" where
  "handleLogout a sur body =
     bind (read_json body) (\<lambda>tok.
     bind (exec_try (change (revoke (session_of (aa_pool a) []) (db_now sur) (hashToken a tok)))) (\<lambda>_.
     ret (Status 204)))"

section \<open>\<open>GET /v1/auth/me\<close>\<close>

definition handleMe :: "auth_api \<Rightarrow> auth_request \<Rightarrow> auth_handler" where
  "handleMe a req =
     (let tok = BearerToken (aq_headers req) in
      if tok = [] then stop (write_err ErrUnauthorized)
      else case Parse (aa_parse a) (aa_issuer a) tok of
             None \<Rightarrow> stop (write_err ErrUnauthorized)
           | Some c \<Rightarrow>
               bind (loadTenantConfig (c_tenant c)) (\<lambda>tcfg.
               ret (Json 200 (Me \<lparr>me_id = c_subject c, me_tenant = c_tenant c, me_email = [], me_full_name = [],
                 me_role = c_role c, me_permissions = c_permissions c, me_tenant_config = tcfg\<rparr>))))"

section \<open>\<open>POST /v1/admin/users\<close>\<close>

text \<open>The accumulator of the constant-time comparison is a byte.\<close>

definition byte :: "char \<Rightarrow> 8 word" where
  "byte c = of_nat (code_of c)"

definition subtleEq :: "string \<Rightarrow> string \<Rightarrow> bool" where
  "subtleEq a b \<longleftrightarrow> length a = length b \<and> foldl (\<lambda>v (x, y). or v (xor (byte x) (byte y))) 0 (zip a b) = 0"

definition adminAuthorized :: "auth_api \<Rightarrow> auth_request \<Rightarrow> bool" where
  "adminAuthorized a req \<longleftrightarrow>
     (aa_bootstrap_key a \<noteq> [] \<and> length (aq_bootstrap req) = length (aa_bootstrap_key a)
        \<and> subtleEq (aq_bootstrap req) (aa_bootstrap_key a))
     \<or> (let tok = BearerToken (aq_headers req) in
        tok \<noteq> [] \<and> (case Parse (aa_parse a) (aa_issuer a) tok of None \<Rightarrow> False | Some c \<Rightarrow> c_role c = ''admin''))"

record user_req =
  ur_email :: string
  ur_password :: string
  ur_full_name :: string
  ur_roles :: "string list"

definition upsert_user :: "uuid \<Rightarrow> string \<Rightarrow> string \<Rightarrow> user_req \<Rightarrow> db \<Rightarrow> sqlerr + uuid \<times> db" where
  "upsert_user uid ten hash q d =
     (case user_by_email ten (ur_email q) d of
        Some u \<Rightarrow> Inr (u_id u, d\<lparr>users := map (\<lambda>r. if u_tenant r = ten \<and> ToLower (u_email r) = ToLower (ur_email q)
                        then r\<lparr>u_password_hash := hash\<rparr> else r) (users d)\<rparr>)
      | None \<Rightarrow>
          if map_of (tenants d) ten = None then Inl ForeignKeyViolation
          else (case insert_row u_tenant BypassRls (\<lambda>old new. u_id old = u_id new)
                  \<lparr>u_id = uid, u_tenant = ten, u_email = ur_email q, u_phone = None, u_password_hash = hash,
                   u_full_name = ur_full_name q, u_is_active = True\<rparr> (users d) of
                  Inl e \<Rightarrow> Inl e
                | Inr rows \<Rightarrow> Inr (uid, d\<lparr>users := rows\<rparr>)))"

definition grant_role :: "string \<Rightarrow> uuid \<Rightarrow> string \<Rightarrow> db \<Rightarrow> sqlerr + unit \<times> db" where
  "grant_role ten uid role d =
     (if (ten, uid, role) \<in> set (user_roles d) then Inr ((), d)
      else if (ten, role) \<notin> set (roles d) then Inl ForeignKeyViolation
      else Inr ((), d\<lparr>user_roles := user_roles d @ [(ten, uid, role)]\<rparr>))"

definition create_user_tx :: "auth_api \<Rightarrow> surroundings \<Rightarrow> string \<Rightarrow> string \<Rightarrow> user_req \<Rightarrow> uuid auth_step" where
  "create_user_tx a sur ten hash q =
     andthen (exec (query (\<lambda>_. ()))) (
     bind (exec (rls_off (aa_pool a) (upsert_user (new_uuid sur 0) ten hash q))) (\<lambda>uid.
     andthen (for_each (\<lambda>role. exec (rls_off (aa_pool a) (grant_role ten uid role))) (ur_roles q)) (
     ret uid)))"

definition handleAdminCreateUser :: "auth_api \<Rightarrow> surroundings \<Rightarrow> auth_request \<Rightarrow> user_req option \<Rightarrow> auth_handler" where
  "handleAdminCreateUser a sur req body =
     andthen (guard (adminAuthorized a req) (write_err ErrUnauthorized)) (
     bind (read_json body) (\<lambda>q.
     let ten = (if h_tenant (aq_headers req) = [] then aa_default_tenant a else h_tenant (aq_headers req)) in
     case aa_hash_password a (ur_password q) of
       None \<Rightarrow> stop Internal
     | Some hash \<Rightarrow>
         bind (in_tx Internal (create_user_tx a sur ten hash q)) (\<lambda>uid.
         ret (Json 201 (UserId uid)))))"

section \<open>Routes\<close>

datatype auth_route =
    PostLogin "login_req option"
  | PostRefresh "string option"
  | PostLogout "string option"
  | GetMe
  | PostUser "user_req option"

fun auth_mux :: "auth_api \<Rightarrow> surroundings \<Rightarrow> string \<Rightarrow> auth_request \<Rightarrow> auth_route \<Rightarrow> auth_handler" where
  "auth_mux a sur rnd req (PostLogin body) = handleLogin a sur rnd req body"
| "auth_mux a sur rnd req (PostRefresh body) = handleRefresh a sur body"
| "auth_mux a sur rnd req (PostLogout body) = handleLogout a sur body"
| "auth_mux a sur rnd req GetMe = handleMe a req"
| "auth_mux a sur rnd req (PostUser body) = handleAdminCreateUser a sur req body"

section \<open>What a token grants\<close>

lemma roles_of_iff: "r \<in> set (roles_of ten uid d) \<longleftrightarrow> (ten, uid, r) \<in> set (user_roles d)"
  by (force simp: roles_of_def)

lemma permissions_of_iff: "p \<in> set (permissions_of ten rs d) \<longleftrightarrow> (\<exists>r\<in>set rs. (ten, r, p) \<in> set (role_permissions d))"
  by (force simp: permissions_of_def)

lemma pickPrimary_in:
  assumes "rs \<noteq> []"
  shows "pickPrimary rs \<in> set rs"
proof (cases "find (\<lambda>p. list_ex (\<lambda>r. r = p) rs) [''admin'', ''court'', ''customs'', ''officer'', ''citizen'']")
  case None
  with assms show ?thesis by (simp only: pickPrimary_def) simp
next
  case (Some p)
  then have "list_ex (\<lambda>r. r = p) rs" unfolding find_Some_iff by blast
  with Some show ?thesis by (simp only: pickPrimary_def) (auto simp: list_ex_iff)
qed

text \<open>The role and the permissions are those the tables give the user, \<open>citizen\<close> with none otherwise.\<close>

definition granted :: "string \<Rightarrow> uuid \<Rightarrow> db \<Rightarrow> string \<Rightarrow> string list \<Rightarrow> bool" where
  "granted ten uid d role perms \<longleftrightarrow>
     (if \<exists>r. (ten, uid, r) \<in> set (user_roles d) then (ten, uid, role) \<in> set (user_roles d) else role = ''citizen'')
     \<and> set perms = {p. \<exists>r. (ten, uid, r) \<in> set (user_roles d) \<and> (ten, r, p) \<in> set (role_permissions d)}"

lemma loadRoleAndPerms_run:
  assumes "(loadRoleAndPerms role ten uid :: (string \<times> string list) auth_step) w = (Inr (pr, perms), w')"
  shows "granted ten uid (w_db w) pr perms \<and> w_db w' = w_db w"
proof -
  from assms obtain rs w1 where rs: "(exec (rls_off role (query (roles_of ten uid))) :: string list auth_step) w = (Inr rs, w1)" and
    rest: "(if length rs = 0 then ret (''citizen'', [])
       else bind (exec (rls_off role (query (permissions_of ten rs)))) (\<lambda>perms. ret (pickPrimary rs, perms)) :: (string \<times> string list) auth_step) w1
       = (Inr (pr, perms), w')"
    unfolding loadRoleAndPerms_def by (elim bindE) (rule that; simp)
  from exec_db [OF rs] have eq: "rs = roles_of ten uid (w_db w)" "w_db w1 = w_db w" by (simp_all add: rls_off_Inr)
  show ?thesis
  proof (cases "rs = []")
    case True
    with rest have "pr = ''citizen''" "perms = []" "w_db w' = w_db w1" by simp_all
    with True eq roles_of_iff [of _ ten uid "w_db w"] show ?thesis by (auto simp: granted_def)
  next
    case False
    with rest have "pr = pickPrimary rs" "perms = permissions_of ten rs (w_db w1)" "w_db w' = w_db w1"
      by (auto simp: rls_off_Inr elim!: bindE dest!: exec_db)
    moreover have "(ten, uid, pickPrimary rs) \<in> set (user_roles (w_db w))"
      using pickPrimary_in [OF False] by (simp add: eq(1) roles_of_iff)
    moreover have "set (permissions_of ten rs (w_db w)) = {p. \<exists>r. (ten, uid, r) \<in> set (user_roles (w_db w)) \<and> (ten, r, p) \<in> set (role_permissions (w_db w))}"
      by (simp add: set_eq_iff eq(1) roles_of_iff permissions_of_iff Bex_def)
    ultimately show ?thesis
      using eq by (auto simp: granted_def)
  qed
qed

lemma rd_loadRoleAndPerms: "keeps same_db (loadRoleAndPerms role ten uid)"
  unfolding loadRoleAndPerms_def by (intro rd_steps frame_intros)

lemma tx_loadRoleAndPerms: "keeps same_tx (loadRoleAndPerms role ten uid)"
  unfolding loadRoleAndPerms_def by (intro tx_steps)

lemma rd_loadTenantConfig: "keeps same_db (loadTenantConfig ten)"
  unfolding loadTenantConfig_def by (intro rd_steps)

lemma sw_loadRoleAndPerms: "P Internal \<Longrightarrow> stops_with P (loadRoleAndPerms role ten uid)"
  unfolding loadRoleAndPerms_def by (intro sw_steps)

lemma sw_loadTenantConfig: "stops_with P (loadTenantConfig ten)"
  unfolding loadTenantConfig_def by (intro sw_steps)

lemmas auth_tx_steps = db_tx_steps tx_loadRoleAndPerms
lemmas auth_rd_steps = db_rd_steps rd_loadRoleAndPerms rd_loadTenantConfig
lemmas auth_sw_steps = sw_steps sw_loadRoleAndPerms sw_loadTenantConfig

section \<open>Login\<close>

lemma tx_login_tx: "keeps same_tx (login_tx a sur rnd ten q)"
  unfolding login_tx_def by (intro auth_tx_steps)

lemma insert_refresh_Inr:
  "insert_refresh r d = Inr (u, d') \<Longrightarrow> d' = d\<lparr>refresh_tokens := refresh_tokens d @ [r]\<rparr>"
  unfolding insert_refresh_def by (auto simp: insert_row_Inr split: if_splits sum.splits)

lemma user_by_emailD:
  assumes "user_by_email ten email d = Some u"
  shows "u \<in> set (users d)" and "u_tenant u = ten" and "ToLower (u_email u) = ToLower email"
  using assms unfolding user_by_email_def find_Some_iff by auto

lemma login_tx_run:
  assumes run: "login_tx a sur rnd ten q w = (Inr (access, refresh, u, role, perms), w')"
  shows "user_by_email ten (lr_email q) (w_db w) = Some u" and "u_is_active u"
    and "aa_check_password a (u_password_hash u) (lr_password q)"
    and "granted ten (u_id u) (w_db w) role perms"
    and "Sign (aa_sign a) (aa_issuer a) (go_now sur) (new_uuid sur 0) (u_id u) (access_claims ten role perms) = Some access"
    and "refresh = EncodeToString RawURLEncoding rnd"
    and "w_db w' = (w_db w)\<lparr>refresh_tokens := refresh_tokens (w_db w) @ [refresh_row_of a sur ten (u_id u) (hashToken a refresh)]\<rparr>"
proof -
  from run obtain w1 v w2 rp w3 where
    set: "(exec (query (\<lambda>_. ())) :: unit auth_step) w = (Inr (), w1)" and
    user: "(exec_or (no_rows_or (write_err ErrUnauthorized) Internal) (rls_off (aa_pool a) (query_row (user_by_email ten (lr_email q)))) :: user_row auth_step) w1
      = (Inr v, w2)" and
    ok: "u_is_active v" "aa_check_password a (u_password_hash v) (lr_password q)" and
    load: "(loadRoleAndPerms (aa_pool a) ten (u_id v) :: (string \<times> string list) auth_step) w2 = (Inr rp, w3)" and
    rest: "((case rp of (r, p) \<Rightarrow> (case Sign (aa_sign a) (aa_issuer a) (go_now sur) (new_uuid sur 0) (u_id v) (access_claims ten r p) of
       None \<Rightarrow> stop Internal
     | Some access \<Rightarrow>
         (case newRefreshToken a rnd of (refresh, hash) \<Rightarrow>
          andthen (exec (rls_off (aa_pool a) (insert_refresh (refresh_row_of a sur ten (u_id v) hash)))) (
          ret (access, refresh, v, r, p))))) :: (string \<times> string \<times> user_row \<times> string \<times> string list) auth_step) w3
      = (Inr (access, refresh, u, role, perms), w')"
    unfolding login_tx_def by (elim bindE andthenE) (rule that; simp)
  obtain r p where rp: "rp = (r, p)" by (cases rp)
  from exec_db [OF set] have "w_db w1 = w_db w" by simp
  moreover from exec_db [OF user] have "user_by_email ten (lr_email q) (w_db w1) = Some v" "w_db w2 = w_db w1"
    by (auto simp: rls_off_Inr)
  moreover note loadRoleAndPerms_run [OF load [unfolded rp]]
  moreover from rest [unfolded rp] have "v = u" "r = role" "p = perms" "refresh = EncodeToString RawURLEncoding rnd"
    "Sign (aa_sign a) (aa_issuer a) (go_now sur) (new_uuid sur 0) (u_id u) (access_claims ten role perms) = Some access"
    "w_db w' = (w_db w3)\<lparr>refresh_tokens := refresh_tokens (w_db w3) @ [refresh_row_of a sur ten (u_id u) (hashToken a refresh)]\<rparr>"
    by (auto simp: newRefreshToken_def Let_def rls_off_Inr split: option.splits elim!: andthenE dest!: exec_db insert_refresh_Inr)
  ultimately show "user_by_email ten (lr_email q) (w_db w) = Some u" "u_is_active u"
    "aa_check_password a (u_password_hash u) (lr_password q)" "granted ten (u_id u) (w_db w) role perms"
    "Sign (aa_sign a) (aa_issuer a) (go_now sur) (new_uuid sur 0) (u_id u) (access_claims ten role perms) = Some access"
    "refresh = EncodeToString RawURLEncoding rnd"
    "w_db w' = (w_db w)\<lparr>refresh_tokens := refresh_tokens (w_db w) @ [refresh_row_of a sur ten (u_id u) (hashToken a refresh)]\<rparr>"
    using ok by simp_all
qed

lemma sw_handleLogin: "stops_with refusal (handleLogin a sur rnd req body)"
  unfolding handleLogin_def login_tx_def Let_def
  by (intro auth_sw_steps; simp)

text \<open>C23
  A login is answered below 400 only for an active user of the tenant asked for, found by the
  e-mail sent (compared without case) and with a password that matches the stored hash. The access
  token is signed over that user and tenant, with the role and exactly the permissions the tables
  grant; the answer repeats them. The only change to the database is one new refresh token, stored
  as its digest and expiring after \<open>RefreshTTL\<close>. A refused login changes nothing.
\<close>

theorem handleLogin_authenticates:
  assumes run: "finish (handleLogin a sur rnd req body) w = (r, w')" and idle: "w_snap w = None"
  shows "if refusal r then w_db w' = w_db w
    else \<exists>q u access refresh role perms tcfg. body = Some q \<and> u \<in> set (users (w_db w)) \<and> u_tenant u = login_tenant a req q
      \<and> ToLower (u_email u) = ToLower (lr_email q) \<and> u_is_active u \<and> aa_check_password a (u_password_hash u) (lr_password q)
      \<and> granted (u_tenant u) (u_id u) (w_db w) role perms
      \<and> Sign (aa_sign a) (aa_issuer a) (go_now sur) (new_uuid sur 0) (u_id u) (access_claims (u_tenant u) role perms) = Some access
      \<and> refresh = EncodeToString RawURLEncoding rnd
      \<and> r = Json 200 (LoggedIn \<lparr>tr_access_token = access, tr_refresh_token = refresh,
          tr_expires_at = go_now sur + AccessTTL (aa_issuer a),
          tr_user = \<lparr>me_id = Some (u_id u), me_tenant = u_tenant u, me_email = lr_email q, me_full_name = u_full_name u,
            me_role = role, me_permissions = perms, me_tenant_config = tcfg\<rparr>\<rparr>)
      \<and> w_db w' = (w_db w)\<lparr>refresh_tokens := refresh_tokens (w_db w)
          @ [refresh_row_of a sur (u_tenant u) (u_id u) (hashToken a refresh)]\<rparr>"
  using run
proof (cases rule: finish_cases)
  case stopped
  have "atomic (handleLogin a sur rnd req body)"
    unfolding handleLogin_def
    by (rule at_bind, intro rd_steps, rule at_let, rule at_last, rule at_in_tx, rule tx_login_tx)
      (auto intro!: sw_steps sw_loadTenantConfig split: prod.splits)
  from atomicD [OF this idle stopped] stops_withD [OF sw_handleLogin stopped] show ?thesis by simp
next
  case ended
  then obtain q t w1 where q: "body = Some q" and
    tx: "(in_tx Internal (login_tx a sur rnd (login_tenant a req q) q) :: (string \<times> string \<times> user_row \<times> string \<times> string list) auth_step) w
      = (Inr t, w1)" and
    rest: "((case t of (access, refresh, u, role, perms) \<Rightarrow> bind (loadTenantConfig (login_tenant a req q)) (\<lambda>tcfg.
     ret (Json 200 (LoggedIn \<lparr>tr_access_token = access, tr_refresh_token = refresh,
       tr_expires_at = go_now sur + AccessTTL (aa_issuer a),
       tr_user = \<lparr>me_id = Some (u_id u), me_tenant = login_tenant a req q, me_email = lr_email q, me_full_name = u_full_name u,
         me_role = role, me_permissions = perms, me_tenant_config = tcfg\<rparr>\<rparr>)))) :: auth_handler) w1 = (Inr r, w')"
    unfolding handleLogin_def Let_def by (elim bindE) (rule that; simp)
  obtain access refresh u role perms where t: "t = (access, refresh, u, role, perms)" by (cases t)
  from rest [unfolded t prod.case] obtain tcfg w2 where
    cfg: "(loadTenantConfig (login_tenant a req q) :: tenant_config auth_step) w1 = (Inr tcfg, w2)" and
    fin: "w' = w2" and
    r: "r = Json 200 (LoggedIn \<lparr>tr_access_token = access, tr_refresh_token = refresh,
          tr_expires_at = go_now sur + AccessTTL (aa_issuer a),
          tr_user = \<lparr>me_id = Some (u_id u), me_tenant = login_tenant a req q, me_email = lr_email q, me_full_name = u_full_name u,
            me_role = role, me_permissions = perms, me_tenant_config = tcfg\<rparr>\<rparr>)"
    by (elim bindE) (rule that; simp)
  from tx [unfolded t] obtain wa wb where body: "login_tx a sur rnd (login_tenant a req q) q wa = (Inr (access, refresh, u, role, perms), wb)"
    "w_db wa = w_db w" "w_db w1 = w_db wb"
    using idle by (elim in_txE [OF _ _ tx_login_tx]) auto
  from keepsD [OF rd_loadTenantConfig cfg] fin have "w_db w' = w_db w1" by (simp add: same_db_def)
  with q r body(2,3) login_tx_run [OF body(1)] user_by_emailD [OF login_tx_run(1) [OF body(1)]] show ?thesis
    by auto
qed

text \<open>An officer with one permission; bcrypt and the JWT library are stand-ins.\<close>

definition demo_auth :: auth_api where
  "demo_auth = \<lparr>aa_pool = BypassesRls, aa_default_tenant = ''no'', aa_bootstrap_key = ''key'',
     aa_issuer = \<lparr>Secret = ''s'', AccessTTL = minutes 15, RefreshTTL = days 30\<rparr>,
     aa_sign = (\<lambda>alg key c. Some (c_tenant c @ '':'' @ c_role c)), aa_parse = (\<lambda>kf tok. None),
     aa_sha256 = rev, aa_hash_password = (\<lambda>pw. Some (''#'' @ pw)), aa_check_password = (\<lambda>h pw. h = ''#'' @ pw)\<rparr>"

definition demo_auth_db :: db where
  "demo_auth_db = empty_db\<lparr>tenants := [(''no'', ''^[A-Z]+$'')], tenant_details := [(''no'', ''Norge'', ''NO'', ''nb'', ''NOK'')],
     users := [\<lparr>u_id = 4, u_tenant = ''no'', u_email = ''Ola@Politi.no'', u_phone = None, u_password_hash = ''#pw'',
       u_full_name = ''Ola'', u_is_active = True\<rparr>],
     roles := [(''no'', ''officer'')], role_permissions := [(''no'', ''officer'', ''fines:create'')],
     user_roles := [(''no'', 4, ''officer'')]\<rparr>"

definition demo_auth_now :: surroundings where
  "demo_auth_now = \<lparr>go_now = days 10, db_now = days 10, new_uuid = (\<lambda>k. 50 + k)\<rparr>"

definition demo_post_login :: auth_request where
  "demo_post_login = \<lparr>aq_headers = \<lparr>h_authorization = [], h_tenant = []\<rparr>, aq_bootstrap = []\<rparr>"

definition demo_credentials :: login_req where
  "demo_credentials = \<lparr>lr_email = ''ola@politi.no'', lr_password = ''pw'', lr_tenant = []\<rparr>"

definition demo_login :: "auth_body response \<times> dbworld" where
  "demo_login = finish (handleLogin demo_auth demo_auth_now ''abc'' demo_post_login (Some demo_credentials)) (world_of demo_auth_db)"

theorem handleLogin_authenticates_witness:
  "\<not> refusal (fst demo_login) \<and> (\<exists>u\<in>set (users demo_auth_db). u_is_active u \<and> u_password_hash u = ''#pw''
     \<and> map rt_user_id (refresh_tokens (w_db (snd demo_login))) = [u_id u])"
proof -
  have run: "finish (handleLogin demo_auth demo_auth_now ''abc'' demo_post_login (Some demo_credentials)) (world_of demo_auth_db)
      = (fst demo_login, snd demo_login)"
    by (simp add: demo_login_def)
  have ok: "\<not> refusal (fst demo_login)" by code_simp
  have "w_snap (world_of demo_auth_db) = None" and db: "w_db (world_of demo_auth_db) = demo_auth_db"
    by (simp_all add: world_of_def)
  from handleLogin_authenticates [OF run this(1)] ok db obtain u refresh where
    "u \<in> set (users demo_auth_db)" "u_is_active u" "aa_check_password demo_auth (u_password_hash u) (lr_password demo_credentials)"
    "w_db (snd demo_login) = demo_auth_db\<lparr>refresh_tokens := refresh_tokens demo_auth_db
       @ [refresh_row_of demo_auth demo_auth_now (u_tenant u) (u_id u) (hashToken demo_auth refresh)]\<rparr>"
    by auto
  with ok show ?thesis
    by (auto simp: demo_auth_def demo_credentials_def demo_auth_db_def empty_db_def refresh_row_of_def)
qed

section \<open>A revoked token stays revoked\<close>

definition revoked_for_good :: "string \<Rightarrow> db \<Rightarrow> bool" where
  "revoked_for_good hash d \<longleftrightarrow> (\<forall>r\<in>set (refresh_tokens d). rt_token_hash r = hash \<longrightarrow> rt_revoked_at r \<noteq> None)"

lemma revoked_insert_refresh:
  "rt_token_hash r \<noteq> hash \<Longrightarrow> preserved (revoked_for_good hash) (insert_refresh r)"
  by (auto simp: preserved_def revoked_for_good_def dest!: insert_refresh_Inr)

lemma revoked_revoke [frame_intros]: "preserved (revoked_for_good hash) (change (revoke s now h))"
  by (rule preserved_change) (auto simp: revoked_for_good_def revoke_def elim!: update_rowsE)

lemma revoked_other_tables [frame_intros]:
  "preserved (revoked_for_good hash) (upsert_user uid ten h q)" "preserved (revoked_for_good hash) (grant_role ten uid role)"
  by (auto simp: preserved_def revoked_for_good_def upsert_user_def grant_role_def split: option.splits if_splits sum.splits)

lemma iv_loadRoleAndPerms: "keeps (kept q) (loadRoleAndPerms role ten uid)"
  unfolding loadRoleAndPerms_def by (intro db_iv_steps frame_intros)

lemma iv_loadTenantConfig: "keeps (kept q) (loadTenantConfig ten)"
  unfolding loadTenantConfig_def by (intro db_iv_steps frame_intros)

lemmas auth_handlers = handleLogin_def login_tx_def newRefreshToken_def handleRefresh_def refresh_tx_def handleLogout_def
  handleMe_def handleAdminCreateUser_def create_user_tx_def Let_def

lemma revoked_auth_mux:
  assumes "hashToken a (EncodeToString RawURLEncoding rnd) \<noteq> hash"
  shows "keeps (kept (revoked_for_good hash)) (auth_mux a sur rnd req route)"
proof -
  have new: "preserved (revoked_for_good hash) (insert_refresh (refresh_row_of a sur ten uid (hashToken a (EncodeToString RawURLEncoding rnd))))" for ten uid
    using assms by (intro revoked_insert_refresh) (simp add: refresh_row_of_def)
  show ?thesis
    by (cases route; simp only: auth_mux.simps auth_handlers prod.case)
      (intro db_iv_steps iv_loadRoleAndPerms iv_loadTenantConfig new frame_intros)+
qed

text \<open>
  Requests in any order, with any faults; the random bytes drawn for the tokens issued meanwhile
  do not give the digest of the one in question again.
\<close>

inductive auth_reachable :: "auth_api \<Rightarrow> string \<Rightarrow> db \<Rightarrow> db \<Rightarrow> bool" for a tok d0 where
  start: "auth_reachable a tok d0 d0"
| step: "auth_reachable a tok d0 (w_db w) \<Longrightarrow> finish (auth_mux a sur rnd req route) w = (r, w') \<Longrightarrow> w_snap w = None \<Longrightarrow>
     hashToken a (EncodeToString RawURLEncoding rnd) \<noteq> hashToken a tok \<Longrightarrow> auth_reachable a tok d0 (w_db w')"

lemma revoked_reachable:
  assumes "auth_reachable a tok d0 d" and "revoked_for_good (hashToken a tok) d0"
  shows "revoked_for_good (hashToken a tok) d"
  using assms
proof induction
  case (step w sur rnd req route r w')
  then show ?case using kept_finish [OF revoked_auth_mux step.hyps(2,3)] by blast
qed

section \<open>Refresh and logout\<close>

lemma tx_refresh_tx: "keeps same_tx (refresh_tx a sur hash)"
  unfolding refresh_tx_def by (intro auth_tx_steps)

lemma rd_refresh_tx: "keeps same_db (refresh_tx a sur hash)"
  unfolding refresh_tx_def by (intro auth_rd_steps frame_intros)

lemma sw_handleRefresh: "stops_with refusal (handleRefresh a sur body)"
  unfolding handleRefresh_def refresh_tx_def by (intro auth_sw_steps; simp)

lemma refresh_tx_run:
  assumes run: "refresh_tx a sur hash w = (Inr (row, role, perms), w')"
  shows "token_row hash (w_db w) = Some row" and "rt_revoked_at row = None" and "go_now sur \<le> rt_expires_at row"
    and "granted (rt_tenant row) (rt_user_id row) (w_db w) role perms"
proof -
  from run obtain w1 v w2 rp w3 where
    set: "(exec (query (\<lambda>_. ())) :: unit auth_step) w = (Inr (), w1)" and
    tok: "(exec_or (no_rows_or (write_err ErrUnauthorized) Internal) (rls_off (aa_pool a) (query_row (token_row hash))) :: refresh_row auth_step) w1
      = (Inr v, w2)" and
    ok: "rt_revoked_at v = None" "\<not> go_now sur > rt_expires_at v" and
    load: "(loadRoleAndPerms (aa_pool a) (rt_tenant v) (rt_user_id v) :: (string \<times> string list) auth_step) w2 = (Inr rp, w3)" and
    rest: "((case rp of (role, perms) \<Rightarrow> ret (v, role, perms)) :: (refresh_row \<times> string \<times> string list) auth_step) w3 = (Inr (row, role, perms), w')"
    unfolding refresh_tx_def by (elim bindE andthenE) (rule that; simp)
  have v: "v = row" "rp = (role, perms)" using rest by (auto split: prod.splits)
  from exec_db [OF set] have "w_db w1 = w_db w" by simp
  moreover from exec_db [OF tok] have "token_row hash (w_db w1) = Some v" "w_db w2 = w_db w1" by (auto simp: rls_off_Inr)
  moreover note loadRoleAndPerms_run [OF load [unfolded v(2)]]
  ultimately show "token_row hash (w_db w) = Some row" "rt_revoked_at row = None" "go_now sur \<le> rt_expires_at row"
    "granted (rt_tenant row) (rt_user_id row) (w_db w) role perms"
    using ok v(1) by simp_all
qed

lemma rd_in_tx_finish:
  assumes "finish (handleRefresh a sur body) w = (r, w')" and "w_snap w = None"
  shows "w_db w' = w_db w"
proof -
  have "keeps (pinned id) (handleRefresh a sur body)"
    unfolding handleRefresh_def refresh_tx_def loadRoleAndPerms_def by (intro pin_steps frame_intros)
  from pinned_finish [OF this assms] show ?thesis by simp
qed

text \<open>What a refresh that is not refused rests on.\<close>

lemma handleRefresh_live:
  assumes run: "finish (handleRefresh a sur body) w = (r, w')" and idle: "w_snap w = None" and ok: "\<not> refusal r"
  shows "\<exists>tok row role perms access. body = Some tok \<and> row \<in> set (refresh_tokens (w_db w)) \<and> rt_token_hash row = hashToken a tok
    \<and> rt_revoked_at row = None \<and> go_now sur \<le> rt_expires_at row
    \<and> granted (rt_tenant row) (rt_user_id row) (w_db w) role perms
    \<and> Sign (aa_sign a) (aa_issuer a) (go_now sur) (new_uuid sur 0) (rt_user_id row) (access_claims (rt_tenant row) role perms) = Some access
    \<and> r = Json 200 (Refreshed access (go_now sur + AccessTTL (aa_issuer a)))"
proof -
  from finish_accepted [OF run sw_handleRefresh ok] obtain tok t w1 where tok: "body = Some tok" and
    tx: "(in_tx Internal (refresh_tx a sur (hashToken a tok)) :: (refresh_row \<times> string \<times> string list) auth_step) w = (Inr t, w1)" and
    rest: "((case t of (r, role, perms) \<Rightarrow>
     case Sign (aa_sign a) (aa_issuer a) (go_now sur) (new_uuid sur 0) (rt_user_id r) (access_claims (rt_tenant r) role perms) of
       None \<Rightarrow> stop Internal
     | Some access \<Rightarrow> ret (Json 200 (Refreshed access (go_now sur + AccessTTL (aa_issuer a))))) :: auth_handler) w1 = (Inr r, w')"
    unfolding handleRefresh_def by (elim bindE) (rule that; simp)
  obtain row role perms where t: "t = (row, role, perms)" by (cases t)
  from tx [unfolded t] obtain wa wb where body: "refresh_tx a sur (hashToken a tok) wa = (Inr (row, role, perms), wb)" "w_db wa = w_db w"
    using idle by (elim in_txE [OF _ _ tx_refresh_tx]) auto
  from refresh_tx_run [OF body(1)] body(2) have "row \<in> set (refresh_tokens (w_db w))" "rt_token_hash row = hashToken a tok"
    by (auto simp: token_row_def dest: find_Some_in)
  with tok refresh_tx_run [OF body(1)] body(2) rest [unfolded t prod.case] show ?thesis
    by (auto split: option.splits)
qed

text \<open>C24
  A logout is final: once the service has revoked a refresh token, then whatever requests follow, in
  any order and with any faults, refreshing with that token is refused and changes nothing. The
  logout itself changes nothing else: only the rows with the digest of the token get their
  \<open>revoked_at\<close>.
\<close>

theorem logged_out_token_never_refreshes:
  assumes out: "finish (handleLogout a sur (Some tok)) w = (r, w1)" and "aa_pool a = BypassesRls" and "healthy w"
    and later: "auth_reachable a tok (w_db w1) (w_db w2)"
    and again: "finish (handleRefresh a sur2 (Some tok)) w2 = (r2, w3)" and idle: "w_snap w2 = None"
  shows "r = Status 204 \<and> w_db w1 = (w_db w)\<lparr>refresh_tokens := map (\<lambda>x. if rt_token_hash x = hashToken a tok
      then x\<lparr>rt_revoked_at := Some (db_now sur)\<rparr> else x) (refresh_tokens (w_db w))\<rparr>
    \<and> refusal r2 \<and> w_db w3 = w_db w2"
proof -
  from out assms(2,3) have eq: "r = Status 204" "w_db w1 = revoke BypassRls (db_now sur) (hashToken a tok) (w_db w)"
    by (auto simp: handleLogout_def finish_def bind_def read_json_def ret_def exec_try_def Let_def change_def healthy_def)
  then have "revoked_for_good (hashToken a tok) (w_db w1)"
    by (auto simp: revoked_for_good_def revoke_def elim!: update_rowsE)
  from revoked_reachable [OF later this] have gone: "revoked_for_good (hashToken a tok) (w_db w2)" .
  have "refusal r2"
  proof (rule ccontr)
    assume "\<not> refusal r2"
    from handleRefresh_live [OF again idle this] gone show False by (auto simp: revoked_for_good_def)
  qed
  with eq rd_in_tx_finish [OF again idle] show ?thesis by (simp add: revoke_def update_rows_def)
qed

definition demo_token :: string where
  "demo_token = EncodeToString RawURLEncoding ''abc''"

definition demo_logout :: "auth_body response \<times> dbworld" where
  "demo_logout = finish (handleLogout demo_auth demo_auth_now (Some demo_token)) (snd demo_login)"

theorem logged_out_token_never_refreshes_witness:
  "status_of (fst (finish (handleRefresh demo_auth demo_auth_now (Some demo_token)) (snd demo_login))) = 200
    \<and> refusal (fst (finish (handleRefresh demo_auth demo_auth_now (Some demo_token)) (snd demo_logout)))"
proof -
  have before: "status_of (fst (finish (handleRefresh demo_auth demo_auth_now (Some demo_token)) (snd demo_login))) = 200"
    by code_simp
  have "healthy (snd demo_login)" and idle: "w_snap (snd demo_logout) = None" by code_simp+
  moreover have "aa_pool demo_auth = BypassesRls" by (simp add: demo_auth_def)
  moreover have "finish (handleLogout demo_auth demo_auth_now (Some demo_token)) (snd demo_login) = (fst demo_logout, snd demo_logout)"
    by (simp add: demo_logout_def)
  ultimately have "refusal (fst (finish (handleRefresh demo_auth demo_auth_now (Some demo_token)) (snd demo_logout)))"
    using logged_out_token_never_refreshes [OF _ _ _ auth_reachable.start prod.collapse [symmetric] idle] by blast
  with before show ?thesis by simp
qed

section \<open>Who may create users\<close>

lemma word_or_zero: "or (x :: 8 word) y = 0 \<longleftrightarrow> x = 0 \<and> y = 0"
  by (metis or.comm_neutral or.left_neutral or_eq_0_iff)

lemma word_xor_zero: "xor (x :: 8 word) y = 0 \<longleftrightarrow> x = y"
  by (metis xor.assoc xor.left_neutral xor.right_neutral xor_self_eq)

lemma byte_inj: "byte x = byte y \<longleftrightarrow> x = y"
proof -
  have "unat (byte c) = code_of c" for c
    by (simp add: byte_def unat_of_nat code_of_def take_bit_nat_def [symmetric] of_char_def)
  then show ?thesis by (metis code_of_inject)
qed

lemma subtleEq_fold:
  "foldl (\<lambda>v (x, y). or v (xor (byte x) (byte y))) v ps = 0 \<longleftrightarrow> v = 0 \<and> (\<forall>(x, y)\<in>set ps. x = y)"
  by (induction ps arbitrary: v) (auto simp: word_or_zero word_xor_zero byte_inj)

text \<open>The constant-time comparison is equality.\<close>

lemma subtleEq_iff: "subtleEq a b \<longleftrightarrow> a = b"
proof -
  have "length a = length b \<Longrightarrow> (\<forall>(x, y)\<in>set (zip a b). x = y) \<longleftrightarrow> a = b"
    by (induction a b rule: list_induct2) auto
  then show ?thesis by (auto simp: subtleEq_def subtleEq_fold)
qed

lemma sw_handleAdminCreateUser: "stops_with refusal (handleAdminCreateUser a sur req body)"
  unfolding handleAdminCreateUser_def create_user_tx_def Let_def by (intro auth_sw_steps; simp)

text \<open>Users are created for the holder of the bootstrap key, where one is set, or of an admin's token.\<close>

lemma handleAdminCreateUser_authorized:
  assumes "finish (handleAdminCreateUser a sur req body) w = (r, w')" and "\<not> refusal r"
  shows "(aa_bootstrap_key a \<noteq> [] \<and> aq_bootstrap req = aa_bootstrap_key a)
    \<or> (\<exists>c. BearerToken (aq_headers req) \<noteq> [] \<and> Parse (aa_parse a) (aa_issuer a) (BearerToken (aq_headers req)) = Some c \<and> c_role c = ''admin'')"
proof -
  from finish_accepted [OF assms(1) sw_handleAdminCreateUser assms(2)] have "adminAuthorized a req"
    by (auto simp: handleAdminCreateUser_def elim!: andthenE)
  then show ?thesis
    by (auto simp: adminAuthorized_def subtleEq_iff Let_def split: option.splits)
qed

section \<open>What the guards leave open\<close>

text \<open>The tenant is the one of the request's header: the admin of one tenant sets the password of another's user.\<close>

definition demo_foreign_admin :: auth_api where
  "demo_foreign_admin = demo_auth\<lparr>aa_parse := (\<lambda>kf tok. Some \<lparr>c_tenant = ''se'', c_role = ''admin'', c_permissions = [], c_device = [],
     c_subject = Some 9, c_issued_at = 0, c_expires_at = days 20, c_jti = None\<rparr>)\<rparr>"

lemma admin_of_another_tenant_sets_password:
  "map u_password_hash (users (w_db (snd (finish (handleAdminCreateUser demo_foreign_admin demo_auth_now
       \<lparr>aq_headers = \<lparr>h_authorization = ''Bearer t'', h_tenant = ''no''\<rparr>, aq_bootstrap = []\<rparr>
       (Some \<lparr>ur_email = ''ola@politi.no'', ur_password = ''mine'', ur_full_name = [], ur_roles = []\<rparr>)) (world_of demo_auth_db)))))
   = [''#mine'']"
  by code_simp

text \<open>A user who was deactivated after the login keeps refreshing.\<close>

lemma inactive_user_refreshes:
  "let w = snd demo_login; w' = w\<lparr>w_db := (w_db w)\<lparr>users := map (u_is_active_update (\<lambda>_. False)) (users (w_db w))\<rparr>\<rparr>
   in status_of (fst (finish (handleRefresh demo_auth demo_auth_now (Some demo_token)) w')) = 200"
  by code_simp

text \<open>
  The statement of a logout runs on the pool: where the policies apply to it, it has no tenant and
  revokes nothing, and the answer is 204 all the same, as it is when the statement fails.
\<close>

lemma logout_without_bypass:
  assumes "aa_pool a = SubjectToRls"
  shows "finish (handleLogout a sur (Some tok)) w = (Status 204, w') \<Longrightarrow> w_db w' = w_db w"
proof -
  have "revoke (TenantSession []) now hash d = d" for now hash d
    unfolding revoke_def by (subst update_rows_nothing) simp_all
  with assms show "finish (handleLogout a sur (Some tok)) w = (Status 204, w') \<Longrightarrow> w_db w' = w_db w"
    by (auto simp: handleLogout_def finish_def bind_def read_json_def ret_def exec_try_def Let_def change_def split: if_splits)
qed

end
