(* ===== verification/Queues.thy ===== *)
theory Queues
  imports Schema
begin

text \<open>
  Work queues whose jobs have a bounded number of attempts: the ANPR pipeline's \<open>anpr_jobs\<close> and the
  connectors' \<open>retry_jobs\<close>. A tick takes one queued job and either takes it off the queue or puts it
  back with one more attempt used up. The locale shows once that no queue keeps its workers busy for
  ever.
\<close>

section \<open>Steps outside a transaction\<close>

lemma ka_exec_try:
  fixes f :: "'d \<Rightarrow> sqlerr + 'a \<times> 'd"
  assumes "preserved q f"
  shows "keeps (kept_alone q) (exec_try f :: ('d, 'e, 'r, sqlerr + 'a) act)"
proof (rule keepsI)
  fix w :: "('d, 'e) world"
  obtain res :: "'r + sqlerr + 'a" and w' where run: "exec_try f w = (res, w')" by fastforce
  from run have "kept_alone q w w'"
    by (cases rule: exec_try_cases) (use assms in \<open>auto simp: kept_alone_def preserved_def\<close>)
  with run show "kept_alone q w (snd ((exec_try f :: ('d, 'e, 'r, sqlerr + 'a) act) w))" by simp
qed

lemma ka_exec_or: "preserved q f \<Longrightarrow> keeps (kept_alone q) (exec_or k f)"
  unfolding exec_or_def by (intro ka.r_control ka_exec_try)

lemma ka_in_tx:
  assumes "keeps same_tx body" and "keeps (kept q) body"
  shows "keeps (kept_alone q) (in_tx k body)"
proof (rule keepsI)
  fix w
  obtain res w' where run: "in_tx k body w = (res, w')" by fastforce
  have "kept_alone q w w'"
    unfolding kept_alone_def
  proof (intro impI)
    assume w: "w_snap w = None \<and> q (w_db w)"
    from run w[THEN conjunct1] assms(1) show "w_snap w' = None \<and> q (w_db w')"
    proof (cases rule: in_tx_cases)
      case (committed x w1 w2)
      from keepsD [OF assms(2) committed(2)] committed w show ?thesis by (auto simp: kept_def held_def)
    qed (use w in simp)
  qed
  with run show "kept_alone q w (snd (in_tx k body w))" by simp
qed

lemma kept_aloneD:
  assumes "keeps (kept_alone q) m" and "m w = (res, w')" and "w_snap w = None" and "q (w_db w)"
  shows "w_snap w' = None \<and> q (w_db w')"
  using keepsD [OF assms(1,2)] assms(3,4) by (simp add: kept_alone_def)

lemmas ka_steps = ka.r_control ka_exec_try ka_exec_or ka_in_tx

section \<open>Attempts left\<close>

text \<open>What the queued jobs of a table may still be tried, in total.\<close>

definition credit :: "('j \<Rightarrow> bool) \<Rightarrow> ('j \<Rightarrow> int) \<Rightarrow> ('j \<Rightarrow> int) \<Rightarrow> 'j list \<Rightarrow> nat" where
  "credit queued used allowed jobs = sum_list (map (\<lambda>j. if queued j then nat (allowed j - used j) else 0) jobs)"

lemma credit_Nil [simp]: "credit queued used allowed [] = 0"
  by (simp add: credit_def)

lemma credit_append [simp]:
  "credit queued used allowed (xs @ ys) = credit queued used allowed xs + credit queued used allowed ys"
  by (simp add: credit_def)

lemma credit_Cons [simp]:
  "credit queued used allowed (j # js)
     = (if queued j then nat (allowed j - used j) else 0) + credit queued used allowed js"
  by (simp add: credit_def)

lemma credit_le: "(\<And>j. j \<in> set js \<Longrightarrow> queued j \<Longrightarrow> nat (allowed j - used j) \<le> m) \<Longrightarrow> credit queued used allowed js \<le> m * length js"
  by (induction js) (auto intro: add_mono trans_le_add2)

text \<open>Updating the one row with a given key.\<close>

lemma distinct_key_split:
  assumes "distinct (map key rows)" and "r \<in> set rows"
  shows "\<exists>xs ys. rows = xs @ r # ys \<and> map (\<lambda>x. if key x = key r then f x else x) rows = xs @ f r # ys"
proof -
  from split_list [OF assms(2)] obtain xs ys where rows: "rows = xs @ r # ys" by blast
  with assms(1) have "key r \<notin> key ` set xs" "key r \<notin> key ` set ys" by auto
  then have "\<forall>x\<in>set xs \<union> set ys. key x \<noteq> key r" by (auto simp: image_iff)
  then have "map (\<lambda>x. if key x = key r then f x else x) rows = xs @ f r # ys"
    by (auto simp: rows intro!: map_idI)
  with rows show ?thesis by blast
qed

section \<open>The contract of a worker\<close>

locale bounded_retry =
  fixes jobs :: "'d \<Rightarrow> 'j list"
    and queued :: "'j \<Rightarrow> bool"
    and used :: "'j \<Rightarrow> int"
    and allowed :: "'j \<Rightarrow> int"
    and ok :: "'d \<Rightarrow> bool"
    and takes :: "'d \<Rightarrow> 'd \<Rightarrow> bool"
  assumes within: "ok d \<Longrightarrow> j \<in> set (jobs d) \<Longrightarrow> queued j \<Longrightarrow> used j < allowed j"
    and taken: "ok d \<Longrightarrow> takes d d' \<Longrightarrow> ok d' \<and> (\<exists>xs j j' ys. jobs d = xs @ j # ys \<and> jobs d' = xs @ j' # ys
      \<and> queued j \<and> (queued j' \<longrightarrow> used j' = used j + 1 \<and> allowed j' = allowed j))"
begin

lemma take_spends:
  assumes "ok d" and "takes d d'"
  shows "credit queued used allowed (jobs d') < credit queued used allowed (jobs d)"
proof -
  from taken [OF assms] obtain xs j j' ys where rows: "jobs d = xs @ j # ys" "jobs d' = xs @ j' # ys"
    and j: "queued j" "queued j' \<longrightarrow> used j' = used j + 1 \<and> allowed j' = allowed j" by blast
  from within [OF assms(1), of j] rows(1) j(1) have "used j < allowed j" by simp
  with j rows show ?thesis by auto
qed

lemma takes_bounded:
  assumes "ok d" and "(takes ^^ n) d d'"
  shows "ok d' \<and> n + credit queued used allowed (jobs d') \<le> credit queued used allowed (jobs d)"
  using assms(2)
proof (induction n arbitrary: d')
  case 0
  with assms(1) show ?case by simp
next
  case (Suc n)
  then obtain d1 where "(takes ^^ n) d d1" "takes d1 d'" by auto
  with Suc.IH take_spends taken show ?case by fastforce
qed

lemma takes_terminate: "wfP (\<lambda>d' d. ok d \<and> takes d d')"
  by (rule wfp_if_convertible_to_nat [where f = "\<lambda>d. credit queued used allowed (jobs d)"])
    (use take_spends in blast)

end

end
