(* ===== verification/Anpr.thy ===== *)
theory Anpr
  imports Queues
begin

text \<open>
  The asynchronous plate recognition pipeline of the ANPR gateway
  (\<open>services/anpr-gateway/internal/pipeline/pipeline.go\<close>, \<open>normalize/normalize.go\<close>): a worker claims
  one queued job per tick, normalises its plate, looks for a recent scan of the same plate and for
  the vehicle, and writes the scan with its events. A job that fails is tried again, five times at
  most.

  \<open>rx\<close> is \<open>regexp.Compile\<close> with \<open>MatchString\<close>; \<open>None\<close> stands for a pattern that does not compile.
  Plates are ASCII text.
\<close>

section \<open>Normalising a plate\<close>

definition stripSeparators :: "string \<Rightarrow> string" where
  "stripSeparators s = filter (\<lambda>c. c \<noteq> CHR '' '' \<and> c \<noteq> CHR 0x09 \<and> c \<noteq> CHR ''.'' \<and> c \<noteq> CHR ''_'') s"

definition ReplaceAll :: "char \<Rightarrow> char \<Rightarrow> string \<Rightarrow> string" where
  "ReplaceAll a b s = map (\<lambda>c. if c = a then b else c) s"

text \<open>The letters an OCR engine takes for digits, in the order they are tried.\<close>

definition confusions :: "(char \<times> char) list" where
  "confusions = [(CHR ''O'', CHR ''0''), (CHR ''I'', CHR ''1''), (CHR ''B'', CHR ''8''), (CHR ''S'', CHR ''5''), (CHR ''Z'', CHR ''2'')]"

text \<open>The plate, and whether the error is nil.\<close>

definition Normalize :: "(string \<Rightarrow> string \<Rightarrow> bool option) \<Rightarrow> string \<Rightarrow> string \<Rightarrow> string \<times> bool" where
  "Normalize rx raw pat =
     (if raw = [] then ([], False)
      else
        let s = stripSeparators (ToUpper (TrimSpace raw)) in
        if pat = [] then (s, True)
        else (case rx pat s of
                None \<Rightarrow> (s, True)
              | Some True \<Rightarrow> (s, True)
              | Some False \<Rightarrow>
                  (case find (\<lambda>(a, b). rx pat (ReplaceAll a b s) = Some True) confusions of
                     Some (a, b) \<Rightarrow> (ReplaceAll a b s, True)
                   | None \<Rightarrow> (s, False))))"

section \<open>The worker\<close>

record anpr_worker =
  aw_pool :: dbrole
  aw_rx :: "string \<Rightarrow> string \<Rightarrow> bool option"

definition dedupWindow :: time where
  "dedupWindow = seconds 60"

definition maxAttempts :: int where
  "maxAttempts = 5"

text \<open>
  The errors of a tick are logged and dropped: \<open>stop ()\<close> is the early return. \<open>SET LOCAL\<close> outside a
  transaction has no effect, so the session is that of the pool, without a tenant.
\<close>

type_synonym 'a tick_step = "(db, effect, unit, 'a) act"
type_synonym 'a anpr_job = "(db, effect, goerr, 'a) act"

definition aw_session :: "anpr_worker \<Rightarrow> session" where
  "aw_session w = session_of (aw_pool w) []"

definition next_queued :: "session \<Rightarrow> db \<Rightarrow> anpr_job_row option" where
  "next_queued s d =
     (case sort_key aj_enqueued_at (filter (\<lambda>j. aj_status j = JQueued) (rows_seen aj_tenant s (anpr_jobs d))) of
        [] \<Rightarrow> None | j # _ \<Rightarrow> Some j)"

definition update_job :: "session \<Rightarrow> uuid \<Rightarrow> (anpr_job_row \<Rightarrow> anpr_job_row) \<Rightarrow> db \<Rightarrow> db" where
  "update_job s jid f d = d\<lparr>anpr_jobs := update_rows aj_tenant s (\<lambda>j. aj_id j = jid) f (anpr_jobs d)\<rparr>"

definition mark_processing :: "anpr_job_row \<Rightarrow> anpr_job_row" where
  "mark_processing j = j\<lparr>aj_status := JProcessing, aj_attempts := aj_attempts j + 1\<rparr>"

definition claim_tx :: "anpr_worker \<Rightarrow> anpr_job_row tick_step" where
  "claim_tx w =
     bind (exec_or (\<lambda>_. ()) (query_row (next_queued (aw_session w)))) (\<lambda>j.
     andthen (exec_or (\<lambda>_. ()) (change (update_job (aw_session w) (aj_id j) mark_processing))) (
     ret j))"

text \<open>What the claimed row gives the worker: absent coordinates are read as zero.\<close>

definition coalesce0 :: "float64 option \<Rightarrow> float64" where
  "coalesce0 x = (case x of None \<Rightarrow> 0 | Some v \<Rightarrow> v)"

definition recent_scan :: "session \<Rightarrow> string \<Rightarrow> string \<Rightarrow> time \<Rightarrow> db \<Rightarrow> uuid option" where
  "recent_scan s ten plate t d =
     map_option as_id (find (\<lambda>r. as_tenant r = ten \<and> as_plate_read r = plate
       \<and> t - dedupWindow \<le> as_captured_at r \<and> as_captured_at r \<le> t + dedupWindow) (rows_seen as_tenant s (anpr_scans d)))"

definition match_vehicle :: "session \<Rightarrow> string \<Rightarrow> string \<Rightarrow> db \<Rightarrow> vehicle_row option" where
  "match_vehicle s ten plate d = row_seen v_tenant s (\<lambda>v. v_tenant v = ten \<and> v_plate v = plate) (vehicles d)"

definition scan_row_of :: "surroundings \<Rightarrow> anpr_job_row \<Rightarrow> string \<Rightarrow> uuid option \<Rightarrow> anpr_scan_row" where
  "scan_row_of sur j plate vid =
     \<lparr>as_id = new_uuid sur 0, as_tenant = aj_tenant j, as_plate_read = plate, as_confidence = aj_confidence j,
      as_source = aj_source j, as_source_id = aj_source_id j, as_captured_at = aj_captured_at j,
      as_geo_lat = Some (coalesce0 (aj_geo_lat j)), as_geo_lng = Some (coalesce0 (aj_geo_lng j)),
      as_image_s3_key = aj_image_s3_key j, as_matched_vehicle_id = vid\<rparr>"

definition vehicle_exists :: "uuid option \<Rightarrow> db \<Rightarrow> bool" where
  "vehicle_exists vid d = (case vid of None \<Rightarrow> True | Some v \<Rightarrow> list_ex (\<lambda>r. v_id r = v) (vehicles d))"

definition insert_scan :: "session \<Rightarrow> anpr_scan_row \<Rightarrow> db \<Rightarrow> sqlerr + uuid \<times> db" where
  "insert_scan s r d =
     (if map_of (tenants d) (as_tenant r) = None \<or> \<not> vehicle_exists (as_matched_vehicle_id r) d then Inl ForeignKeyViolation
      else case insert_row as_tenant s (\<lambda>old new. as_id old = as_id new) r (anpr_scans d) of
             Inl e \<Rightarrow> Inl e
           | Inr rows \<Rightarrow> Inr (as_id r, d\<lparr>anpr_scans := rows\<rparr>))"

definition mark_processed :: "surroundings \<Rightarrow> job_status \<Rightarrow> string \<Rightarrow> uuid \<Rightarrow> anpr_job_row \<Rightarrow> anpr_job_row" where
  "mark_processed sur st plate sid j =
     j\<lparr>aj_status := st, aj_normalized_plate := Some plate, aj_scan_id := Some sid,
       aj_processed_at := Some (db_now sur), aj_failed_with := None\<rparr>"

definition scan_payload :: "anpr_job_row \<Rightarrow> string \<Rightarrow> uuid \<Rightarrow> uuid option \<Rightarrow> anpr_scan_payload" where
  "scan_payload j plate sid vid =
     \<lparr>asp_scan_id = sid, asp_plate = plate, asp_confidence = aj_confidence j, asp_source = aj_source j,
      asp_geo_lat = coalesce0 (aj_geo_lat j), asp_geo_lng = coalesce0 (aj_geo_lng j), asp_matched_vehicle_id = vid\<rparr>"

definition scan_event :: "surroundings \<Rightarrow> nat \<Rightarrow> string \<Rightarrow> anpr_job_row \<Rightarrow> string \<Rightarrow> uuid \<Rightarrow> uuid option \<Rightarrow> envelope" where
  "scan_event sur k ty j plate sid vid =
     NewEnvelope sur (new_uuid sur k) ''anpr-gateway'' (aj_tenant j) ty 1 (AnprScan (scan_payload j plate sid vid))"

definition alert_event :: "surroundings \<Rightarrow> anpr_job_row \<Rightarrow> string \<Rightarrow> uuid \<Rightarrow> vehicle_row \<Rightarrow> envelope" where
  "alert_event sur j plate sid v =
     NewEnvelope sur (new_uuid sur 3) ''anpr-gateway'' (aj_tenant j) TypeAnprAlert 1
       (AnprAlert \<lparr>aap_scan_id = sid, aap_plate = plate, aap_vehicle_id = v_id v,
          aap_is_stolen = v_is_stolen v, aap_is_seized = v_is_seized v, aap_is_wanted = v_is_wanted v\<rparr>)"

text \<open>The errors of the two lookups are dropped: no duplicate, no vehicle.\<close>

definition process_tx :: "anpr_worker \<Rightarrow> surroundings \<Rightarrow> anpr_job_row \<Rightarrow> string \<Rightarrow> unit anpr_job" where
  "process_tx w sur j plate =
     bind (exec_try (query_row (recent_scan (aw_session w) (aj_tenant j) plate (aj_captured_at j)))) (\<lambda>dup.
     bind (exec_try (query_row (match_vehicle (aw_session w) (aj_tenant j) plate))) (\<lambda>res.
     let vehicle = (case res of Inl _ \<Rightarrow> None | Inr v \<Rightarrow> Some v);
         vid = map_option v_id vehicle;
         endStatus = (case dup of Inl _ \<Rightarrow> JDone | Inr _ \<Rightarrow> JDuplicate) in
     bind (exec_job (insert_scan (aw_session w) (scan_row_of sur j plate vid))) (\<lambda>sid.
     andthen (exec_job (change (update_job (aw_session w) (aj_id j) (mark_processed sur endStatus plate sid)))) (
     andthen (WriteOutbox PlainError (aw_session w) sur (scan_event sur 1 TypeAnprScan j plate sid vid)) (
     case vehicle of
       None \<Rightarrow> ret ()
     | Some v \<Rightarrow>
         andthen (WriteOutbox PlainError (aw_session w) sur (scan_event sur 2 TypeAnprMatched j plate sid vid)) (
         if v_is_stolen v \<or> v_is_seized v \<or> v_is_wanted v
         then WriteOutbox PlainError (aw_session w) sur (alert_event sur j plate sid v)
         else ret ()))))))"

definition process :: "anpr_worker \<Rightarrow> surroundings \<Rightarrow> anpr_job_row \<Rightarrow> unit anpr_job" where
  "process w sur j =
     andthen (exec_job (query (\<lambda>_. ()))) (
     bind (exec_try (query_row (\<lambda>d. map_of (tenants d) (aj_tenant j)))) (\<lambda>res.
     let pat = (case res of Inl _ \<Rightarrow> [] | Inr p \<Rightarrow> p);
         plate = fst (Normalize (aw_rx w) (aj_raw_plate j) pat) in
     in_tx PlainError (process_tx w sur j plate)))"

definition mark_failed :: "int \<Rightarrow> goerr \<Rightarrow> anpr_job_row \<Rightarrow> anpr_job_row" where
  "mark_failed attempts e j =
     j\<lparr>aj_status := (if attempts \<ge> maxAttempts then JFailed else JQueued), aj_failed_with := Some e\<rparr>"

definition anpr_fail :: "anpr_worker \<Rightarrow> uuid \<Rightarrow> int \<Rightarrow> goerr \<Rightarrow> unit tick_step" where
  "anpr_fail w jid attempts e =
     bind (exec_try (query (\<lambda>_. ()))) (\<lambda>_.
     bind (exec_try (change (update_job (aw_session w) jid (mark_failed attempts e)))) (\<lambda>_.
     ret ()))"

definition anpr_tick :: "anpr_worker \<Rightarrow> surroundings \<Rightarrow> unit tick_step" where
  "anpr_tick w sur =
     andthen (exec_or (\<lambda>_. ()) (query (\<lambda>_. ()))) (
     bind (in_tx () (claim_tx w)) (\<lambda>j.
     bind (attempt (process w sur j)) (\<lambda>res.
     case res of
       Inl e \<Rightarrow> anpr_fail w (aj_id j) (aj_attempts j + 1) e
     | Inr _ \<Rightarrow> ret ())))"

section \<open>What normalising gives\<close>

lemma find_confusion:
  "find P confusions = Some (a, b) \<Longrightarrow> (a, b) \<in> set confusions \<and> P (a, b)"
  by (drule find_Some_in) simp

lemma Normalize_cases:
  assumes "Normalize rx raw pat = (p, ok)" and "raw \<noteq> []"
  obtains (as_read) "p = stripSeparators (ToUpper (TrimSpace raw))" "ok \<longleftrightarrow> pat = [] \<or> rx pat p \<noteq> Some False"
  | (corrected) a b where "(a, b) \<in> set confusions" "p = ReplaceAll a b (stripSeparators (ToUpper (TrimSpace raw)))"
      "ok" "pat \<noteq> []" "rx pat p = Some True" "rx pat (stripSeparators (ToUpper (TrimSpace raw))) = Some False"
proof -
  let ?s = "stripSeparators (ToUpper (TrimSpace raw))"
  show thesis
  proof (cases "pat \<noteq> [] \<and> rx pat ?s = Some False")
    case False
    then have "Normalize rx raw pat = (?s, True)" using assms(2)
      by (auto simp: Normalize_def Let_def split: option.splits bool.splits)
    with False assms(1) show thesis by (intro as_read) auto
  next
    case wrong: True
    show thesis
    proof (cases "find (\<lambda>(a, b). rx pat (ReplaceAll a b ?s) = Some True) confusions")
      case None
      with wrong assms show thesis by (intro as_read) (auto simp: Normalize_def)
    next
      case (Some ab)
      obtain a b where ab: "ab = (a, b)" by (cases ab)
      from find_confusion [OF Some [unfolded ab]] have "(a, b) \<in> set confusions" "rx pat (ReplaceAll a b ?s) = Some True" by simp_all
      with wrong assms Some ab show thesis by (intro corrected [of a b]) (auto simp: Normalize_def)
    qed
  qed
qed

section \<open>The queue\<close>

definition queue_ok :: "db \<Rightarrow> bool" where
  "queue_ok d \<longleftrightarrow> distinct (map aj_id (anpr_jobs d))
     \<and> (\<forall>j\<in>set (anpr_jobs d). 0 \<le> aj_attempts j \<and> (aj_status j = JQueued \<longrightarrow> aj_attempts j < maxAttempts))"

lemma next_queuedD:
  assumes "next_queued s d = Some j"
  shows "j \<in> set (anpr_jobs d)" and "sees s (aj_tenant j)" and "aj_status j = JQueued"
proof -
  from assms have "j \<in> set (sort_key aj_enqueued_at (filter (\<lambda>j. aj_status j = JQueued) (rows_seen aj_tenant s (anpr_jobs d))))"
    unfolding next_queued_def by (cases "sort_key aj_enqueued_at (filter (\<lambda>j. aj_status j = JQueued) (rows_seen aj_tenant s (anpr_jobs d)))") simp_all
  then show "j \<in> set (anpr_jobs d)" "sees s (aj_tenant j)" "aj_status j = JQueued"
    by (auto simp: table_simps)
qed

text \<open>An update of a job that is seen, by its id, changes that row alone.\<close>

lemma update_job_split:
  assumes "distinct (map aj_id (anpr_jobs d))" and "j \<in> set (anpr_jobs d)" and "sees s (aj_tenant j)"
  obtains xs ys where "anpr_jobs d = xs @ j # ys" "\<And>f. anpr_jobs (update_job s (aj_id j) f d) = xs @ f j # ys"
proof -
  from split_list [OF assms(2)] obtain xs ys where rows: "anpr_jobs d = xs @ j # ys" by blast
  with assms(1) have "\<forall>x\<in>set xs \<union> set ys. aj_id x \<noteq> aj_id j" by (auto simp: image_iff)
  then have "anpr_jobs (update_job s (aj_id j) f d) = xs @ f j # ys" for f
    using assms(3) by (auto simp: update_job_def update_rows_def rows intro!: map_idI)
  with rows show thesis by (rule that)
qed

lemma update_job_twice:
  assumes "\<And>j. aj_id (f j) = aj_id j \<and> aj_tenant (f j) = aj_tenant j"
  shows "update_job s jid g (update_job s jid f d) = update_job s jid (\<lambda>j. g (f j)) d"
  using assms by (auto simp: update_job_def update_rows_def)

section \<open>What a tick does\<close>

lemma tx_claim_tx: "keeps same_tx (claim_tx w)"
  unfolding claim_tx_def by (intro tx_steps)

lemma tx_process_tx: "keeps same_tx (process_tx w sur j plate)"
  unfolding process_tx_def by (intro db_tx_steps)

text \<open>The events of a scan.\<close>

definition scan_events :: "surroundings \<Rightarrow> anpr_job_row \<Rightarrow> string \<Rightarrow> vehicle_row option \<Rightarrow> envelope list" where
  "scan_events sur j plate vehicle =
     scan_event sur 1 TypeAnprScan j plate (new_uuid sur 0) (map_option v_id vehicle) #
     (case vehicle of None \<Rightarrow> []
      | Some v \<Rightarrow> scan_event sur 2 TypeAnprMatched j plate (new_uuid sur 0) (Some (v_id v)) #
          (if v_is_stolen v \<or> v_is_seized v \<or> v_is_wanted v then [alert_event sur j plate (new_uuid sur 0) v] else []))"

text \<open>What processing a job under a plate comes to.\<close>

definition scanned :: "anpr_worker \<Rightarrow> surroundings \<Rightarrow> anpr_job_row \<Rightarrow> string \<Rightarrow> db \<Rightarrow> db \<Rightarrow> bool" where
  "scanned w sur j plate d d' \<longleftrightarrow>
     (let s = aw_session w; vehicle = match_vehicle s (aj_tenant j) plate d;
          st = (if recent_scan s (aj_tenant j) plate (aj_captured_at j) d = None then JDone else JDuplicate)
      in \<exists>obs. map ob_body obs = map Some (scan_events sur j plate vehicle)
           \<and> d' = (update_job s (aj_id j) (mark_processed sur st plate (new_uuid sur 0)) d)
               \<lparr>anpr_scans := anpr_scans d @ [scan_row_of sur j plate (map_option v_id vehicle)], outbox := outbox d @ obs\<rparr>)"

lemma exec_try_alive: "exec_try f v = (res, v') \<Longrightarrow> \<not> w_aborted v' \<Longrightarrow> \<not> w_aborted v"
  by (cases rule: exec_try_cases) auto

lemma WriteOutbox_row:
  assumes "WriteOutbox k s sur env w = (Inr u, w')"
  obtains r where "ob_body r = Some env" "w_db w' = (w_db w)\<lparr>outbox := outbox (w_db w) @ [r]\<rparr>"
proof -
  from assms obtain n where db: "w_db w' = (w_db w)\<lparr>outbox := outbox (w_db w) @ [outbox_row_of sur n env]\<rparr>" by (rule WriteOutbox_db)
  show thesis by (rule that [OF _ db]) (simp add: outbox_row_of_def)
qed

lemma insert_scan_Inr:
  "insert_scan s r d = Inr (x, d') \<Longrightarrow> x = as_id r \<and> d' = d\<lparr>anpr_scans := anpr_scans d @ [r]\<rparr>"
  unfolding insert_scan_def by (auto simp: insert_row_Inr split: if_splits sum.splits)

lemma process_tx_run:
  assumes run: "process_tx w sur j plate v = (Inr (), v')" and tx: "w_snap v \<noteq> None"
  shows "scanned w sur j plate (w_db v) (w_db v')"
proof -
  let ?s = "aw_session w" and ?d = "w_db v"
  from run obtain dup v1 res v2 sid v3 v4 v5 where
    dup: "(exec_try (query_row (recent_scan ?s (aj_tenant j) plate (aj_captured_at j))) :: (sqlerr + uuid) anpr_job) v = (Inr dup, v1)" and
    veh: "(exec_try (query_row (match_vehicle ?s (aj_tenant j) plate)) :: (sqlerr + vehicle_row) anpr_job) v1 = (Inr res, v2)" and
    ins: "(exec_job (insert_scan ?s (scan_row_of sur j plate (map_option v_id (case res of Inl _ \<Rightarrow> None | Inr x \<Rightarrow> Some x)))) :: uuid anpr_job) v2 = (Inr sid, v3)" and
    upd: "(exec_job (change (update_job ?s (aj_id j) (mark_processed sur (case dup of Inl _ \<Rightarrow> JDone | Inr _ \<Rightarrow> JDuplicate) plate sid))) :: unit anpr_job) v3
      = (Inr (), v4)" and
    out: "(WriteOutbox PlainError ?s sur (scan_event sur 1 TypeAnprScan j plate sid (map_option v_id (case res of Inl _ \<Rightarrow> None | Inr x \<Rightarrow> Some x))) :: unit anpr_job) v4
      = (Inr (), v5)" and
    rest: "((case (case res of Inl _ \<Rightarrow> None | Inr x \<Rightarrow> Some x) of
       None \<Rightarrow> ret ()
     | Some x \<Rightarrow>
         andthen (WriteOutbox PlainError ?s sur (scan_event sur 2 TypeAnprMatched j plate sid (map_option v_id (case res of Inl _ \<Rightarrow> None | Inr x \<Rightarrow> Some x)))) (
         if v_is_stolen x \<or> v_is_seized x \<or> v_is_wanted x
         then WriteOutbox PlainError ?s sur (alert_event sur j plate sid x)
         else ret ())) :: unit anpr_job) v5 = (Inr (), v')"
    unfolding process_tx_def Let_def by (elim bindE andthenE) (rule that; simp)
  from ins have alive: "\<not> w_aborted v2" by (elim exec_orE)
  from try_row_settled [OF dup tx exec_try_alive [OF veh alive]]
  have st: "(case dup of Inl _ \<Rightarrow> JDone | Inr _ \<Rightarrow> JDuplicate) = (if recent_scan ?s (aj_tenant j) plate (aj_captured_at j) ?d = None then JDone else JDuplicate)"
    and v1: "w_db v1 = ?d" "w_snap v1 \<noteq> None" using tx by (auto split: option.splits)
  from try_row_settled [OF veh v1(2) alive]
  have vehicle: "(case res of Inl _ \<Rightarrow> None | Inr x \<Rightarrow> Some x) = match_vehicle ?s (aj_tenant j) plate ?d"
    and v2: "w_db v2 = ?d" by (auto simp: v1(1) split: option.splits)
  let ?v = "match_vehicle ?s (aj_tenant j) plate ?d"
  from insert_scan_Inr [OF exec_db [OF ins]] have sid: "sid = new_uuid sur 0"
    and v3: "w_db v3 = ?d\<lparr>anpr_scans := anpr_scans ?d @ [scan_row_of sur j plate (map_option v_id ?v)]\<rparr>"
    by (simp_all add: v2 vehicle scan_row_of_def)
  note events = rest [unfolded vehicle sid]
  from out obtain r1 where r1: "ob_body r1 = Some (scan_event sur 1 TypeAnprScan j plate (new_uuid sur 0) (map_option v_id ?v))"
    and v5: "w_db v5 = (w_db v4)\<lparr>outbox := outbox (w_db v4) @ [r1]\<rparr>"
    unfolding vehicle sid by (rule WriteOutbox_row)
  have "\<exists>obs. w_db v' = (w_db v4)\<lparr>outbox := outbox (w_db v4) @ obs\<rparr> \<and> map ob_body obs = map Some (scan_events sur j plate ?v)"
  proof (cases ?v)
    case None
    with events v5 r1 show ?thesis by (intro exI [of _ "[r1]"]) (simp add: scan_events_def)
  next
    case (Some x)
    with events obtain v6 where
      out2: "(WriteOutbox PlainError ?s sur (scan_event sur 2 TypeAnprMatched j plate (new_uuid sur 0) (map_option v_id ?v)) :: unit anpr_job) v5 = (Inr (), v6)" and
      rest2: "((if v_is_stolen x \<or> v_is_seized x \<or> v_is_wanted x then WriteOutbox PlainError ?s sur (alert_event sur j plate (new_uuid sur 0) x)
         else ret ()) :: unit anpr_job) v6 = (Inr (), v')"
      by (auto elim!: andthenE)
    from out2 obtain r2 where r2: "ob_body r2 = Some (scan_event sur 2 TypeAnprMatched j plate (new_uuid sur 0) (map_option v_id ?v))"
      and v6: "w_db v6 = (w_db v5)\<lparr>outbox := outbox (w_db v5) @ [r2]\<rparr>" by (rule WriteOutbox_row)
    show ?thesis
    proof (cases "v_is_stolen x \<or> v_is_seized x \<or> v_is_wanted x")
      case True
      with rest2 have "(WriteOutbox PlainError ?s sur (alert_event sur j plate (new_uuid sur 0) x) :: unit anpr_job) v6 = (Inr (), v')" by simp
      then obtain r3 where "ob_body r3 = Some (alert_event sur j plate (new_uuid sur 0) x)"
        "w_db v' = (w_db v6)\<lparr>outbox := outbox (w_db v6) @ [r3]\<rparr>" by (rule WriteOutbox_row)
      with True Some v5 v6 r1 r2 show ?thesis by (intro exI [of _ "[r1, r2, r3]"]) (simp add: scan_events_def)
    next
      case False
      with rest2 Some v5 v6 r1 r2 show ?thesis by (intro exI [of _ "[r1, r2]"]) (simp add: scan_events_def)
    qed
  qed
  moreover from exec_change_db [OF upd] have "w_db v4 = update_job ?s (aj_id j) (mark_processed sur
      (if recent_scan ?s (aj_tenant j) plate (aj_captured_at j) ?d = None then JDone else JDuplicate) plate (new_uuid sur 0)) (w_db v3)"
    by (simp only: st sid)
  ultimately show ?thesis
    unfolding scanned_def Let_def by (auto simp: v3 update_job_def)
qed

lemma process_outcome:
  fixes v v' :: dbworld and res :: "goerr + unit"
  assumes run: "process w sur j v = (res, v')" and idle: "w_snap v = None"
  shows "w_snap v' = None \<and> (case res of
      Inl e \<Rightarrow> w_db v' = w_db v
    | Inr _ \<Rightarrow> \<exists>pat. (pat = [] \<or> map_of (tenants (w_db v)) (aj_tenant j) = Some pat)
        \<and> scanned w sur j (fst (Normalize (aw_rx w) (aj_raw_plate j) pat)) (w_db v) (w_db v'))"
proof (cases res)
  case (Inl e)
  have "atomic (process w sur j)"
    unfolding process_def Let_def
    by (rule at_andthen, intro rd_steps, rule at_bind, intro rd_steps, rule at_in_tx, rule tx_process_tx)
  from atomicD [OF this idle run [unfolded Inl]] Inl show ?thesis by simp
next
  case (Inr u)
  from run [unfolded Inr] obtain v1 pres v2 where
    set: "(exec_job (query (\<lambda>_. ())) :: unit anpr_job) v = (Inr (), v1)" and
    pat: "(exec_try (query_row (\<lambda>d. map_of (tenants d) (aj_tenant j))) :: (sqlerr + string) anpr_job) v1 = (Inr pres, v2)" and
    tx: "(in_tx PlainError (process_tx w sur j (fst (Normalize (aw_rx w) (aj_raw_plate j) (case pres of Inl _ \<Rightarrow> [] | Inr p \<Rightarrow> p)))) :: unit anpr_job) v2
      = (Inr (), v')"
    unfolding process_def Let_def by (elim bindE andthenE) (rule that; simp)
  have v1: "w_db v1 = w_db v \<and> w_snap v1 = None"
    using keepsD [OF rd_exec_or [OF reads_query(1)] set] idle by (simp add: same_db_def)
  have v2: "w_db v2 = w_db v \<and> w_snap v2 = None"
    using keepsD [OF rd_exec_try [OF reads_query(2)] pat] v1 by (simp add: same_db_def)
  from pat v1 have "(case pres of Inl _ \<Rightarrow> [] | Inr p \<Rightarrow> p) = [] \<or> map_of (tenants (w_db v)) (aj_tenant j) = Some (case pres of Inl _ \<Rightarrow> [] | Inr p \<Rightarrow> p)"
    by (auto elim!: exec_try_cases split: sum.split)
  moreover from tx obtain va vb where
    body: "process_tx w sur j (fst (Normalize (aw_rx w) (aj_raw_plate j) (case pres of Inl _ \<Rightarrow> [] | Inr p \<Rightarrow> p))) va = (Inr (), vb)"
    "w_db va = w_db v2" "w_snap va \<noteq> None" "w_db v' = w_db vb" "w_snap v' = None"
    using v2 by (elim in_txE [OF _ _ tx_process_tx]) auto
  ultimately show ?thesis
    using process_tx_run [OF body(1,3)] v2 Inr by auto
qed

lemma anpr_fail_outcome:
  fixes v v' :: dbworld
  assumes run: "anpr_fail w jid attempts e v = (res, v')" and idle: "w_snap v = None"
  shows "w_snap v' = None \<and> (w_db v' = w_db v \<or> w_db v' = update_job (aw_session w) jid (mark_failed attempts e) (w_db v))"
proof -
  obtain r1 v1 where set: "(exec_try (query (\<lambda>_. ())) :: (sqlerr + unit) tick_step) v = (r1, v1)" by fastforce
  from keepsD [OF rd_exec_try [OF reads_query(1)] set] idle have v1: "w_db v1 = w_db v" "w_snap v1 = None" by (simp_all add: same_db_def)
  obtain r2 v2 where upd: "(exec_try (change (update_job (aw_session w) jid (mark_failed attempts e))) :: (sqlerr + unit) tick_step) v1 = (r2, v2)" by fastforce
  have "\<exists>x. r1 = Inr x" "\<exists>x. r2 = Inr x" using set upd by (auto elim!: exec_try_cases)
  with run set upd have "v' = v2" by (auto simp: anpr_fail_def bind_def ret_def)
  moreover from upd have "w_snap v2 = w_snap v1 \<and> (w_db v2 = w_db v1 \<or> w_db v2 = update_job (aw_session w) jid (mark_failed attempts e) (w_db v1))"
    by (cases rule: exec_try_cases) simp_all
  ultimately show ?thesis using v1 by simp
qed

lemma claim_outcome:
  fixes v v' :: dbworld
  assumes run: "(in_tx () (claim_tx w) :: anpr_job_row tick_step) v = (Inr j, v')" and idle: "w_snap v = None"
  shows "next_queued (aw_session w) (w_db v) = Some j \<and> w_db v' = update_job (aw_session w) (aj_id j) mark_processing (w_db v) \<and> w_snap v' = None"
proof -
  from run obtain va vb where
    "claim_tx w va = (Inr j, vb)" "w_db va = w_db v" "w_db v' = w_db vb" "w_snap v' = None"
    using idle by (elim in_txE [OF _ _ tx_claim_tx]) auto
  then show ?thesis
    by (auto simp: claim_tx_def elim!: bindE andthenE dest!: exec_query_row_db exec_change_db)
qed

text \<open>
  A tick, whatever fails: nothing, or the first queued job is claimed, and then it is scanned, or left
  in processing, or marked as failed.
\<close>

definition job_outcome :: "anpr_worker \<Rightarrow> surroundings \<Rightarrow> anpr_job_row \<Rightarrow> db \<Rightarrow> db \<Rightarrow> bool" where
  "job_outcome w sur j d d' \<longleftrightarrow>
     (let d1 = update_job (aw_session w) (aj_id j) mark_processing d in
        d' = d1
        \<or> (\<exists>e. d' = update_job (aw_session w) (aj_id j) (mark_failed (aj_attempts j + 1) e) d1)
        \<or> (\<exists>pat. (pat = [] \<or> map_of (tenants d) (aj_tenant j) = Some pat)
             \<and> scanned w sur j (fst (Normalize (aw_rx w) (aj_raw_plate j) pat)) d1 d'))"

lemma work_outcome:
  assumes run: "(bind (attempt (process w sur j)) (\<lambda>res.
       case res of Inl e \<Rightarrow> anpr_fail w (aj_id j) (aj_attempts j + 1) e | Inr _ \<Rightarrow> ret ()) :: unit tick_step) v = (res, v')"
    and idle: "w_snap v = None" and db: "w_db v = update_job (aw_session w) (aj_id j) mark_processing d"
  shows "job_outcome w sur j d (w_db v') \<and> w_snap v' = None"
proof -
  obtain pr :: "goerr + unit" and v1 where proc: "process w sur j v = (pr, v1)" by fastforce
  note out = process_outcome [OF proc idle]
  show ?thesis
  proof (cases pr)
    case (Inl e)
    with run proc have fail: "anpr_fail w (aj_id j) (aj_attempts j + 1) e v1 = (res, v')"
      by (simp add: bind_def attempt_def)
    from out Inl have "w_db v1 = w_db v" "w_snap v1 = None" by simp_all
    with anpr_fail_outcome [OF fail] db show ?thesis by (auto simp: job_outcome_def Let_def)
  next
    case ok: (Inr u)
    with run proc have "v' = v1" by (simp add: bind_def attempt_def ret_def)
    with out ok db show ?thesis by (auto simp: job_outcome_def Let_def update_job_def)
  qed
qed

lemma anpr_tick_outcome:
  assumes run: "anpr_tick w sur v = (res, v')" and idle: "w_snap v = None"
  shows "w_snap v' = None \<and> (w_db v' = w_db v
    \<or> (\<exists>j. next_queued (aw_session w) (w_db v) = Some j \<and> job_outcome w sur j (w_db v) (w_db v')))"
proof -
  obtain r1 v1 where set: "(exec_or (\<lambda>_. ()) (query (\<lambda>_. ())) :: unit tick_step) v = (r1, v1)" by fastforce
  from keepsD [OF rd_exec_or [OF reads_query(1)] set] idle have v1: "w_db v1 = w_db v" "w_snap v1 = None" by (simp_all add: same_db_def)
  obtain r2 v2 where claim: "(in_tx () (claim_tx w) :: anpr_job_row tick_step) v1 = (r2, v2)" by fastforce
  show ?thesis
  proof (cases r1)
    case (Inl u)
    with run set v1 show ?thesis by (auto simp: anpr_tick_def andthen_def bind_def)
  next
    case set_ok: (Inr u)
    show ?thesis
    proof (cases r2)
      case (Inl u)
      with run set set_ok claim in_tx_failed [OF claim [unfolded Inl] v1(2) tx_claim_tx] v1 show ?thesis
        by (auto simp: anpr_tick_def andthen_def bind_def)
    next
      case (Inr j)
      from claim_outcome [OF claim [unfolded Inr] v1(2)] v1 have j: "next_queued (aw_session w) (w_db v) = Some j"
        and v2: "w_db v2 = update_job (aw_session w) (aj_id j) mark_processing (w_db v)" "w_snap v2 = None" by simp_all
      from run set set_ok claim Inr have "(bind (attempt (process w sur j)) (\<lambda>res.
         case res of Inl e \<Rightarrow> anpr_fail w (aj_id j) (aj_attempts j + 1) e | Inr _ \<Rightarrow> ret ()) :: unit tick_step) v2 = (res, v')"
        by (simp only: anpr_tick_def andthen_ok [where m = "exec_or (\<lambda>_. ()) (query (\<lambda>_. ()))" and w = v, OF set [unfolded set_ok]]
            bind_ok [where m = "in_tx () (claim_tx w)", OF claim [unfolded Inr]])
      from work_outcome [OF this v2(2,1)] j show ?thesis by blast
    qed
  qed
qed

text \<open>Where nothing fails up to the claim, a queued job is taken.\<close>

lemma healthy_tick_claims:
  assumes "healthy v" and "w_snap v = None" and j: "next_queued (aw_session w) (w_db v) = Some j"
    and run: "anpr_tick w sur v = (res, v')"
  shows "job_outcome w sur j (w_db v) (w_db v')"
proof -
  let ?v = "v\<lparr>w_snap := Some (w_db v), w_save := None\<rparr>"
  let ?d = "update_job (aw_session w) (aj_id j) mark_processing (w_db v)"
  have "claim_tx w ?v = (Inr j, ?v\<lparr>w_db := ?d\<rparr>)"
    using assms(1) j
    by (simp add: claim_tx_def bind_ok [OF exec_query_row_ok] andthen_ok [OF exec_change_ok] ret_def)
  from in_tx_ok [where k = "()" and body = "claim_tx w" and x = j, OF assms(1,2) this] assms(1)
  have claim: "(in_tx () (claim_tx w) :: anpr_job_row tick_step) v = (Inr j, v\<lparr>w_db := ?d, w_snap := None, w_save := None\<rparr>)"
    by simp
  from run have "(bind (attempt (process w sur j)) (\<lambda>res.
       case res of Inl e \<Rightarrow> anpr_fail w (aj_id j) (aj_attempts j + 1) e | Inr _ \<Rightarrow> ret ()) :: unit tick_step)
       (v\<lparr>w_db := ?d, w_snap := None, w_save := None\<rparr>) = (res, v')"
    by (simp only: anpr_tick_def andthen_ok [where m = "exec_or (\<lambda>_. ()) (query (\<lambda>_. ()))" and w = v, OF exec_query_ok [OF assms(1)]]
        bind_ok [where m = "in_tx () (claim_tx w)", OF claim])
  from work_outcome [OF this] show ?thesis by simp
qed

section \<open>The queue drains\<close>

lemma job_outcome_rows:
  assumes ok: "queue_ok d" and j: "next_queued (aw_session w) d = Some j" and out: "job_outcome w sur j d d'"
  obtains xs ys j' where "anpr_jobs d = xs @ j # ys" "anpr_jobs d' = xs @ j' # ys" "aj_id j' = aj_id j" "aj_status j = JQueued"
    "aj_attempts j' = aj_attempts j + 1" "aj_status j' = JQueued \<longrightarrow> aj_attempts j' < maxAttempts"
proof -
  note seen = next_queuedD [OF j]
  from ok have "distinct (map aj_id (anpr_jobs d))" by (simp add: queue_ok_def)
  from update_job_split [OF this seen(1,2)] obtain xs ys where rows: "anpr_jobs d = xs @ j # ys"
    and upd: "\<And>f. anpr_jobs (update_job (aw_session w) (aj_id j) f d) = xs @ f j # ys" by blast
  have twice: "anpr_jobs (update_job (aw_session w) (aj_id j) f (update_job (aw_session w) (aj_id j) mark_processing d))
      = xs @ f (mark_processing j) # ys" for f
    by (subst update_job_twice) (simp_all add: mark_processing_def upd)
  from out have "\<exists>j'. anpr_jobs d' = xs @ j' # ys \<and> aj_id j' = aj_id j \<and> aj_attempts j' = aj_attempts j + 1
      \<and> (aj_status j' = JQueued \<longrightarrow> aj_attempts j' < maxAttempts)"
    unfolding job_outcome_def scanned_def Let_def
    by (elim disjE exE conjE) (auto simp: upd twice mark_processing_def mark_failed_def mark_processed_def)
  with rows seen(3) that show thesis by blast
qed

text \<open>A tick, with any faults, after which the jobs are not what they were.\<close>

inductive anpr_takes :: "anpr_worker \<Rightarrow> db \<Rightarrow> db \<Rightarrow> bool" for w where
  take: "anpr_tick w sur v = (res, v') \<Longrightarrow> w_snap v = None \<Longrightarrow> anpr_jobs (w_db v') \<noteq> anpr_jobs (w_db v) \<Longrightarrow>
     anpr_takes w (w_db v) (w_db v')"

inductive_cases anpr_takesE: "anpr_takes w d d'"

interpretation anpr: bounded_retry anpr_jobs "\<lambda>j. aj_status j = JQueued" aj_attempts "\<lambda>_. maxAttempts" queue_ok "anpr_takes w" for w
proof unfold_locales
  fix d j
  assume "queue_ok d" "j \<in> set (anpr_jobs d)" "aj_status j = JQueued"
  then show "aj_attempts j < maxAttempts" by (simp add: queue_ok_def)
next
  fix d d'
  assume ok: "queue_ok d" and "anpr_takes w d d'"
  then obtain sur v res v' where tick: "anpr_tick w sur v = (res, v')" "w_snap v = None" and d: "d = w_db v" "d' = w_db v'"
    and changed: "anpr_jobs d' \<noteq> anpr_jobs d" by (auto elim!: anpr_takesE)
  from anpr_tick_outcome [OF tick] changed d obtain j where j: "next_queued (aw_session w) d = Some j" and out: "job_outcome w sur j d d'" by auto
  from job_outcome_rows [OF ok j out] obtain xs ys j' where
    "anpr_jobs d = xs @ j # ys" "anpr_jobs d' = xs @ j' # ys" "aj_id j' = aj_id j" "aj_status j = JQueued"
    "aj_attempts j' = aj_attempts j + 1" "aj_status j' = JQueued \<longrightarrow> aj_attempts j' < maxAttempts" by blast
  with ok show "queue_ok d' \<and> (\<exists>xs j j' ys. anpr_jobs d = xs @ j # ys \<and> anpr_jobs d' = xs @ j' # ys \<and> aj_status j = JQueued
      \<and> (aj_status j' = JQueued \<longrightarrow> aj_attempts j' = aj_attempts j + 1 \<and> maxAttempts = maxAttempts))"
    by (auto simp: queue_ok_def)
qed

lemma match_after_claim [simp]:
  "match_vehicle s ten plate (update_job s' jid f d) = match_vehicle s ten plate d"
  "recent_scan s ten plate t (update_job s' jid f d) = recent_scan s ten plate t d"
  by (simp_all add: match_vehicle_def recent_scan_def update_job_def)


text \<open>A camera reads the plate of a stolen car, in small letters.\<close>

definition demo_anpr :: anpr_worker where
  "demo_anpr = \<lparr>aw_pool = BypassesRls, aw_rx = (\<lambda>pat s. Some (pat = s))\<rparr>"

definition demo_job :: "uuid \<Rightarrow> anpr_job_row" where
  "demo_job k = \<lparr>aj_id = k, aj_tenant = ''no'', aj_scan_id = None, aj_source = ''toll'', aj_source_id = None,
     aj_raw_plate = ''ab 1O'', aj_normalized_plate = None, aj_confidence = 0, aj_geo_lat = None, aj_geo_lng = None,
     aj_image_s3_key = None, aj_captured_at = days 3, aj_status = JQueued, aj_attempts = 0, aj_failed_with = None,
     aj_enqueued_at = days 3, aj_processed_at = None\<rparr>"

definition demo_car :: vehicle_row where
  "demo_car = \<lparr>v_id = 8, v_tenant = ''no'', v_plate = ''AB10'', v_vin = None, v_make = None, v_model = None, v_year = None,
     v_color = None, v_category = None, v_emission_class = None, v_owner_id = None, v_registration_expires_at = None,
     v_insurance_expires_at = None, v_inspection_expires_at = None, v_tax_paid_through = None, v_is_stolen = True,
     v_is_seized = False, v_is_wanted = False, v_updated_at = 0\<rparr>"

definition demo_toll :: dbworld where
  "demo_toll = world_of (empty_db\<lparr>tenants := [(''no'', ''AB10'')], vehicles := [demo_car], anpr_jobs := [demo_job 1]\<rparr>)"

definition demo_toll_now :: surroundings where
  "demo_toll_now = \<lparr>go_now = days 3, db_now = days 3, new_uuid = (\<lambda>k. 70 + k)\<rparr>"

definition demo_scan :: "(unit + unit) \<times> dbworld" where
  "demo_scan = anpr_tick demo_anpr demo_toll_now demo_toll"

lemma demo_scan_facts:
  "map (\<lambda>r. (as_plate_read r, as_matched_vehicle_id r)) (anpr_scans (w_db (snd demo_scan))) = [(''AB10'', Some 8)]"
  "map aj_status (anpr_jobs (w_db (snd demo_scan))) = [JDone]"
  "map (map_option env_type \<circ> ob_body) (outbox (w_db (snd demo_scan))) = [Some TypeAnprScan, Some TypeAnprMatched, Some TypeAnprAlert]"
  "anpr_scans (w_db demo_toll) = []" "w_snap demo_toll = None" "queue_ok (w_db demo_toll)"
  by code_simp+




section \<open>Jobs that are lost\<close>

text \<open>A job whose failure could not be written stays in processing, and no tick looks at it again.\<close>

lemma processing_is_forgotten:
  assumes "\<forall>j\<in>set (anpr_jobs d). aj_status j = JProcessing"
  shows "next_queued s d = None"
proof -
  have "filter (\<lambda>j. aj_status j = JQueued) (rows_seen aj_tenant s (anpr_jobs d)) = []"
    using assms by (auto simp: filter_empty_conv table_simps)
  then show ?thesis by (simp add: next_queued_def)
qed

text \<open>A lost connection after the claim.\<close>

lemma lost_connection_strands_job:
  "map aj_status (anpr_jobs (w_db (snd (anpr_tick demo_anpr demo_toll_now
     (demo_toll\<lparr>w_faults := [False, False, False, False, False, True, True, True]\<rparr>))))) = [JProcessing]"
  by code_simp

text \<open>Where the policies apply to the worker's role it sees no job of any tenant.\<close>

lemma worker_without_bypass: "next_queued (TenantSession []) d = None"
  by (simp add: next_queued_def rows_seen_def)

section \<open>Plates with a separator\<close>

text \<open>What \<open>Normalize\<close> answers holds no blank, whatever it corrects.\<close>

lemma Normalize_no_blank: "CHR '' '' \<notin> set (fst (Normalize rx raw pat))"
proof (cases "raw = []")
  case False
  obtain p ok where n: "Normalize rx raw pat = (p, ok)" by (cases "Normalize rx raw pat")
  have plain: "CHR '' '' \<notin> set (stripSeparators s)" for s by (simp add: stripSeparators_def)
  from n False show ?thesis
  proof (cases rule: Normalize_cases)
    case as_read
    with n plain show ?thesis by simp
  next
    case (corrected a b)
    then have "b \<noteq> CHR '' ''" by (auto simp: confusions_def)
    with corrected n plain show ?thesis by (auto simp: ReplaceAll_def)
  qed
qed (simp add: Normalize_def)

text \<open>
  The Norwegian pack (\<open>0012_country_pack_no\<close>) asks for a blank in every plate, and the registry accepts
  no other. No scan of such a plate is ever matched to its vehicle.
\<close>

lemma spaced_plates_never_match:
  assumes "\<forall>v\<in>set (vehicles d). v_tenant v = ten \<longrightarrow> CHR '' '' \<in> set (v_plate v)"
  shows "match_vehicle s ten (fst (Normalize rx raw pat)) d = None"
  using assms Normalize_no_blank [of rx raw pat] by (auto simp: match_vehicle_def row_seen_None_iff)

end
