(* ===== verification/Alerts.thy ===== *)
theory Alerts
  imports FinesIssue Anpr
begin

text \<open>
  The audit service's alerts: the consumer that turns \<open>anpr.alert\<close> events into rows of
  \<open>audit_alerts\<close> (\<open>services/audit/internal/anpralerts/consumer.go\<close>), and the endpoints that list and
  resolve them (\<open>internal/api/alerts.go\<close>). At most one alert of a kind is open per subject and day.
  The day of the session is taken in UTC.
\<close>

section \<open>The table\<close>

text \<open>The partial unique index: both open, and equal in tenant, kind, subject (not null) and day.\<close>

definition same_alert :: "alert_row \<Rightarrow> alert_row \<Rightarrow> bool" where
  "same_alert x y \<longleftrightarrow> aal_tenant x = aal_tenant y \<and> aal_kind x = aal_kind y \<and> aal_day x = aal_day y
     \<and> aal_subject_id x = aal_subject_id y \<and> aal_subject_id x \<noteq> None"

definition alert_clash :: "alert_row \<Rightarrow> alert_row \<Rightarrow> bool" where
  "alert_clash x y \<longleftrightarrow> aal_id x = aal_id y \<or> (aal_resolved_at x = None \<and> aal_resolved_at y = None \<and> same_alert x y)"

text \<open>\<open>INSERT \<dots> ON CONFLICT DO NOTHING\<close>.\<close>

definition insert_alert :: "session \<Rightarrow> alert_row \<Rightarrow> db \<Rightarrow> sqlerr + unit \<times> db" where
  "insert_alert s r d =
     (if \<not> sees s (aal_tenant r) then Inl RlsViolation
      else if list_ex (\<lambda>old. alert_clash old r) (audit_alerts d) then Inr ((), d)
      else if map_of (tenants d) (aal_tenant r) = None then Inl ForeignKeyViolation
      else Inr ((), d\<lparr>audit_alerts := audit_alerts d @ [r]\<rparr>))"

definition new_alert :: "surroundings \<Rightarrow> int \<Rightarrow> string \<Rightarrow> string \<Rightarrow> string \<Rightarrow> uuid \<Rightarrow> date \<Rightarrow> float32 option \<Rightarrow> alert_details \<Rightarrow> alert_row" where
  "new_alert sur n ten kind subject sid day severity details =
     \<lparr>aal_id = n, aal_tenant = ten, aal_kind = kind, aal_subject_kind = Some subject, aal_subject_id = Some sid, aal_day = day,
      aal_severity = severity, aal_details = details, aal_detected_at = db_now sur, aal_resolved_at = None,
      aal_resolved_by = None, aal_resolution = None\<rparr>"

section \<open>Alerts from the pipeline\<close>

definition AlertKind :: string where
  "AlertKind = ''anpr_match_flagged_vehicle''"

text \<open>
  An event of the alert's type carries the alert's payload. Data of another struct, which nothing in
  the repository writes under that type, is an error here; the JSON decoder would leave the fields it
  does not find empty.
\<close>

fun decode_alert :: "payload \<Rightarrow> goerr + anpr_alert_payload" where
  "decode_alert (AnprAlert p) = Inr p"
| "decode_alert _ = Inl PlainError"

definition alert_flags :: "anpr_alert_payload \<Rightarrow> string list" where
  "alert_flags p = (if aap_is_stolen p then [''stolen''] else []) @ (if aap_is_seized p then [''seized''] else [])
     @ (if aap_is_wanted p then [''wanted''] else [])"

text \<open>The number of flags as a \<open>float32\<close>: 0, 1, 2 or 3.\<close>

definition severity_of :: "nat \<Rightarrow> float32" where
  "severity_of n = (if n = 0 then 0 else if n = 1 then 0x3F800000 else if n = 2 then 0x40000000 else 0x40400000)"

definition handle_alert :: "dbrole \<Rightarrow> surroundings \<Rightarrow> envelope \<Rightarrow> unit job" where
  "handle_alert role sur env =
     (case decode_alert (env_data env) of
        Inl e \<Rightarrow> stop e
      | Inr p \<Rightarrow>
          let flags = alert_flags p; sev = severity_of (length flags) in
          if sev = 0 then ret ()
          else
            bind (nextval ''audit_alerts'') (\<lambda>n.
            exec_job (insert_alert (session_of role [])
              (new_alert sur n (env_tenant env) AlertKind ''vehicle'' (aap_vehicle_id p) (date_of (db_now sur)) (Some sev)
                (FlaggedVehicle (aap_scan_id p) (aap_plate p) flags)))))"

section \<open>The endpoints\<close>

record alert_out =
  ao_id :: int
  ao_kind :: string
  ao_subject_kind :: "string option"
  ao_subject_id :: "uuid option"
  ao_day :: date
  ao_severity :: "float32 option"
  ao_details :: alert_details
  ao_detected_at :: time
  ao_resolved_at :: "time option"
  ao_resolution :: "string option"

datatype alerts_body = AlertItems "alert_out list"

type_synonym 'a alerts_step = "(alerts_body, 'a) handler"
type_synonym alerts_handler = "(alerts_body, alerts_body response) handler"

definition alert_out_of :: "alert_row \<Rightarrow> alert_out" where
  "alert_out_of r =
     \<lparr>ao_id = aal_id r, ao_kind = aal_kind r, ao_subject_kind = aal_subject_kind r, ao_subject_id = aal_subject_id r, ao_day = aal_day r,
      ao_severity = aal_severity r, ao_details = aal_details r, ao_detected_at = aal_detected_at r,
      ao_resolved_at = aal_resolved_at r, ao_resolution = aal_resolution r\<rparr>"

definition alerts_of :: "session \<Rightarrow> string \<Rightarrow> bool \<Rightarrow> db \<Rightarrow> alert_row list" where
  "alerts_of s ten includeResolved d =
     take 200 (sort_key (\<lambda>r. - aal_detected_at r)
       (filter (\<lambda>r. aal_tenant r = ten \<and> (includeResolved \<or> aal_resolved_at r = None)) (rows_seen aal_tenant s (audit_alerts d))))"

definition listAlerts :: "dbrole \<Rightarrow> claims \<Rightarrow> string \<Rightarrow> alerts_handler" where
  "listAlerts role c include_resolved =
     bind (exec_try (query (\<lambda>_. ()))) (\<lambda>_.
     bind (exec (query (\<lambda>d. map alert_out_of (alerts_of (session_of role []) (c_tenant c) (include_resolved = ''1'') d)))) (\<lambda>items.
     ret (Json 200 (AlertItems items))))"

definition close_alert :: "surroundings \<Rightarrow> uuid \<Rightarrow> string \<Rightarrow> alert_row \<Rightarrow> alert_row" where
  "close_alert sur actor resolution r =
     r\<lparr>aal_resolved_at := Some (db_now sur), aal_resolved_by := Some actor,
       aal_resolution := (if resolution = [] then None else Some resolution)\<rparr>"

definition open_alert :: "int \<Rightarrow> string \<Rightarrow> alert_row \<Rightarrow> bool" where
  "open_alert n ten r \<longleftrightarrow> aal_id r = n \<and> aal_tenant r = ten \<and> aal_resolved_at r = None"

text \<open>\<open>UPDATE \<dots> RETURNING id\<close>.\<close>

definition resolve_row :: "surroundings \<Rightarrow> int \<Rightarrow> string \<Rightarrow> uuid \<Rightarrow> string \<Rightarrow> db \<Rightarrow> sqlerr + int \<times> db" where
  "resolve_row sur n ten actor resolution d =
     (if list_ex (open_alert n ten) (audit_alerts d)
      then Inr (n, d\<lparr>audit_alerts := update_rows aal_tenant BypassRls (open_alert n ten) (close_alert sur actor resolution) (audit_alerts d)\<rparr>)
      else Inl NoRows)"

text \<open>A body that does not parse is taken for an empty one; a subject that is no UUID becomes the nil UUID.\<close>

definition resolve_tx :: "dbrole \<Rightarrow> surroundings \<Rightarrow> claims \<Rightarrow> int \<Rightarrow> string option \<Rightarrow> unit alerts_step" where
  "resolve_tx role sur c n body =
     andthen (exec (query (\<lambda>_. ()))) (
     bind (exec_or (no_rows_or (write_err ErrNotFound) Internal)
       (rls_off role (resolve_row sur n (c_tenant c) (subject_or_nil c) (case body of None \<Rightarrow> [] | Some t \<Rightarrow> t)))) (\<lambda>_. ret ()))"

definition resolveAlert :: "dbrole \<Rightarrow> surroundings \<Rightarrow> claims \<Rightarrow> int option \<Rightarrow> string option \<Rightarrow> alerts_handler" where
  "resolveAlert role sur c ident body =
     (case ident of
        None \<Rightarrow> stop (write_err ErrBadRequest)
      | Some n \<Rightarrow>
          andthen (in_tx Internal (resolve_tx role sur c n body)) (
          ret (Status 204)))"

section \<open>One open alert per subject and day\<close>

definition alerts_unique :: "db \<Rightarrow> bool" where
  "alerts_unique d \<longleftrightarrow> unique_by alert_clash (audit_alerts d)"

lemma preserved_insert_alert: "preserved alerts_unique (insert_alert s r)"
  by (auto simp: preserved_def insert_alert_def alerts_unique_def unique_by_def sorted_wrt_append list_ex_iff split: if_splits)

lemma unique_by_antimono:
  assumes "unique_by clash rows" and "\<And>x y. clash' (f x) (f y) \<Longrightarrow> clash x y"
  shows "unique_by clash' (map f rows)"
  using assms unfolding unique_by_def sorted_wrt_map by (auto elim!: sorted_wrt_mono_rel [rotated])

lemma preserved_resolve_row: "preserved alerts_unique (resolve_row sur n ten actor resolution)"
proof -
  have "alert_clash x y"
    if "alert_clash (if P x then close_alert sur actor resolution x else x) (if P y then close_alert sur actor resolution y else y)" for P x y
    using that by (auto simp: alert_clash_def close_alert_def same_alert_def split: if_splits)
  then show ?thesis
    by (auto simp: preserved_def resolve_row_def alerts_unique_def update_rows_def split: if_splits
        intro!: unique_by_antimono [where clash = alert_clash])
qed

lemma iv_handle_alert: "keeps (kept alerts_unique) (handle_alert role sur env)"
  unfolding handle_alert_def Let_def by (intro iv_steps preserved_insert_alert)

lemma iv_resolveAlert: "keeps (kept alerts_unique) (resolveAlert role sur c ident body)"
  unfolding resolveAlert_def resolve_tx_def by (intro iv_steps frame_intros preserved_resolve_row)

lemma open_alert_unique:
  assumes "alerts_unique d" and "x \<in> set (audit_alerts d)" and "y \<in> set (audit_alerts d)"
    and "aal_resolved_at x = None" and "aal_resolved_at y = None" and "same_alert x y"
  shows "x = y"
  using assms unique_byD [of alert_clash "audit_alerts d" x y]
  by (auto simp: alerts_unique_def alert_clash_def same_alert_def)

end
