(* ===== verification/Rollup.thy ===== *)
theory Rollup
  imports Alerts
begin

text \<open>
  The officers' daily statistics (\<open>services/audit/internal/rollup/rollup.go\<close>, \<open>api/officers.go\<close>): a
  sweep counts the fines of the last fourteen days per tenant, officer and day, scores each day against
  the officer's days before it, and raises alerts for the outliers.

  \<open>float_lib\<close> is the floating-point arithmetic of Postgres: the z-score of a count against earlier
  ones (\<open>AVG\<close>, \<open>STDDEV_POP\<close>; \<open>None\<close> where the deviation is null or zero), a quotient of two counts,
  and the comparisons with the two thresholds. The session's time zone is UTC.
\<close>

section \<open>Counting\<close>

record float_lib =
  fl_z :: "int list \<Rightarrow> int \<Rightarrow> float32 option"
  fl_high_z :: "float32 \<Rightarrow> bool"
  fl_rate :: "int \<Rightarrow> int \<Rightarrow> float32"
  fl_high_rate :: "float32 \<Rightarrow> bool"

definition MinActivityForCancelRate :: int where
  "MinActivityForCancelRate = 5"

definition sweep_from :: "surroundings \<Rightarrow> date" where
  "sweep_from sur = date_of (go_now sur - days 14)"

definition fine_key :: "fine_row \<Rightarrow> string \<times> uuid \<times> date" where
  "fine_key f = (f_tenant f, f_issued_by f, date_of (f_issued_at f))"

definition stats_key :: "stats_row \<Rightarrow> string \<times> uuid \<times> date" where
  "stats_key r = (os_tenant r, os_officer r, os_day r)"

definition window_fines :: "session \<Rightarrow> date \<Rightarrow> db \<Rightarrow> fine_row list" where
  "window_fines s from d = filter (\<lambda>f. days from \<le> f_issued_at f) (rows_seen f_tenant s (fines d))"

definition group_stats :: "fine_row list \<Rightarrow> string \<times> uuid \<times> date \<Rightarrow> stats_row" where
  "group_stats fs k =
     (let g = filter (\<lambda>f. fine_key f = k) fs in
      case k of (ten, off, day) \<Rightarrow>
        \<lparr>os_tenant = ten, os_officer = off, os_day = day, os_fines_issued = int (length g),
         os_fines_cancelled = int (length (filter (\<lambda>f. f_status f = Cancelled) g)),
         os_fines_total = sum_list (map f_amount (filter (\<lambda>f. f_status f \<noteq> Cancelled) g)),
         os_unique_plates = int (length (remdups (map f_plate g))), os_anomaly_score = None\<rparr>)"

definition copy_counts :: "stats_row \<Rightarrow> stats_row \<Rightarrow> stats_row" where
  "copy_counts r old = old\<lparr>os_fines_issued := os_fines_issued r, os_fines_cancelled := os_fines_cancelled r,
     os_fines_total := os_fines_total r, os_unique_plates := os_unique_plates r\<rparr>"

definition upsert_stats :: "stats_row \<Rightarrow> stats_row list \<Rightarrow> stats_row list" where
  "upsert_stats r rows =
     (if list_ex (\<lambda>old. stats_key old = stats_key r) rows
      then map (\<lambda>old. if stats_key old = stats_key r then copy_counts r old else old) rows
      else rows @ [r])"

definition aggregated :: "session \<Rightarrow> date \<Rightarrow> db \<Rightarrow> stats_row list" where
  "aggregated s from d = (let fs = window_fines s from d in map (group_stats fs) (remdups (map fine_key fs)))"

definition aggregate_stmt :: "session \<Rightarrow> date \<Rightarrow> db \<Rightarrow> sqlerr + unit \<times> db" where
  "aggregate_stmt s from d =
     (if \<not> list_all (\<lambda>r. user_exists (Some (os_officer r)) d) (aggregated s from d) then Inl ForeignKeyViolation
      else Inr ((), d\<lparr>officer_stats := fold upsert_stats (aggregated s from d) (officer_stats d)\<rparr>))"

definition aggregate :: "dbrole \<Rightarrow> date \<Rightarrow> unit job" where
  "aggregate role from = exec_job (aggregate_stmt (session_of role []) from)"

section \<open>Scoring\<close>

text \<open>The fourteen rows before a row in the officer's days, as far as the baseline reaches back.\<close>

definition prior_days :: "date \<Rightarrow> stats_row list \<Rightarrow> stats_row \<Rightarrow> stats_row list" where
  "prior_days from rows r =
     (let before = sort_key os_day (filter (\<lambda>x. os_tenant x = os_tenant r \<and> os_officer x = os_officer r
            \<and> from - 14 \<le> os_day x \<and> os_day x < os_day r) rows)
      in drop (length before - 14) before)"

definition score_of :: "float_lib \<Rightarrow> date \<Rightarrow> stats_row list \<Rightarrow> stats_row \<Rightarrow> float32 option" where
  "score_of lib from rows r =
     (let prior = prior_days from rows r in
      if length prior < 3 then None else fl_z lib (map os_fines_issued prior) (os_fines_issued r))"

definition score_stmt :: "float_lib \<Rightarrow> session \<Rightarrow> date \<Rightarrow> db \<Rightarrow> db" where
  "score_stmt lib s from d =
     d\<lparr>officer_stats := update_rows os_tenant s (\<lambda>r. from \<le> os_day r)
        (\<lambda>r. r\<lparr>os_anomaly_score := score_of lib from (rows_seen os_tenant s (officer_stats d)) r\<rparr>) (officer_stats d)\<rparr>"

definition score :: "float_lib \<Rightarrow> dbrole \<Rightarrow> date \<Rightarrow> unit job" where
  "score lib role from = exec_job (change (score_stmt lib (session_of role []) from))"

section \<open>Alerts for outliers\<close>

text \<open>\<open>INSERT \<dots> SELECT \<dots> ON CONFLICT DO NOTHING\<close>: one statement; each candidate takes a number of the sequence.\<close>

fun insert_alerts :: "session \<Rightarrow> alert_row list \<Rightarrow> db \<Rightarrow> sqlerr + unit \<times> db" where
  "insert_alerts s [] d = Inr ((), d)"
| "insert_alerts s (r # rs) d = (case insert_alert s r d of Inl e \<Rightarrow> Inl e | Inr (_, d') \<Rightarrow> insert_alerts s rs d')"

definition nextvals :: "string \<Rightarrow> nat \<Rightarrow> int list job" where
  "nextvals sq k w = (Inr (map (\<lambda>i. w_seq w sq + 1 + int i) [0..<k]), w\<lparr>w_seq := (w_seq w)(sq := w_seq w sq + int k)\<rparr>)"

definition insert_select :: "session \<Rightarrow> (db \<Rightarrow> (int \<Rightarrow> alert_row) list) \<Rightarrow> unit job" where
  "insert_select s candidates w =
     (let cs = candidates (w_db w) in
      bind (nextvals ''audit_alerts'' (length cs)) (\<lambda>ns. exec_job (insert_alerts s (map2 (\<lambda>c n. c n) cs ns))) w)"

definition z_alerts :: "float_lib \<Rightarrow> session \<Rightarrow> surroundings \<Rightarrow> date \<Rightarrow> db \<Rightarrow> (int \<Rightarrow> alert_row) list" where
  "z_alerts lib s sur from d =
     List.map_filter (\<lambda>r. case os_anomaly_score r of
         None \<Rightarrow> None
       | Some z \<Rightarrow> if from \<le> os_day r \<and> fl_high_z lib z
           then Some (\<lambda>n. new_alert sur n (os_tenant r) ''officer_high_anomaly_z'' ''officer'' (os_officer r) (os_day r) (Some z)
                  (HighScore z (os_fines_issued r)))
           else None)
       (rows_seen os_tenant s (officer_stats d))"

definition rate_alerts :: "float_lib \<Rightarrow> session \<Rightarrow> surroundings \<Rightarrow> date \<Rightarrow> db \<Rightarrow> (int \<Rightarrow> alert_row) list" where
  "rate_alerts lib s sur from d =
     List.map_filter (\<lambda>r. let rate = fl_rate lib (os_fines_cancelled r) (os_fines_issued r) in
         if from \<le> os_day r \<and> os_fines_issued r \<ge> MinActivityForCancelRate \<and> fl_high_rate lib rate
         then Some (\<lambda>n. new_alert sur n (os_tenant r) ''officer_high_cancel_rate'' ''officer'' (os_officer r) (os_day r) (Some rate)
                (CancelRate (os_fines_issued r) (os_fines_cancelled r)))
         else None)
       (rows_seen os_tenant s (officer_stats d))"

definition detectAnomalies :: "float_lib \<Rightarrow> dbrole \<Rightarrow> surroundings \<Rightarrow> date \<Rightarrow> unit job" where
  "detectAnomalies lib role sur from =
     andthen (insert_select (session_of role []) (z_alerts lib (session_of role []) sur from)) (
     insert_select (session_of role []) (rate_alerts lib (session_of role []) sur from))"

definition RunOnce :: "float_lib \<Rightarrow> dbrole \<Rightarrow> surroundings \<Rightarrow> unit job" where
  "RunOnce lib role sur =
     andthen (aggregate role (sweep_from sur)) (
     andthen (score lib role (sweep_from sur)) (
     detectAnomalies lib role sur (sweep_from sur)))"

section \<open>The endpoints\<close>

record stats_item =
  si_officer :: uuid
  si_officer_name :: string
  si_day :: date
  si_fines_issued :: int
  si_fines_cancelled :: int
  si_fines_total :: money
  si_unique_plates :: int
  si_anomaly_score :: "float32 option"

datatype stats_body = StatsItems "stats_item list" int | Rebuilt

type_synonym stats_handler = "(stats_body, stats_body response) handler"

definition officer_name :: "session \<Rightarrow> uuid \<Rightarrow> db \<Rightarrow> string" where
  "officer_name s off d = (case row_seen u_tenant s (\<lambda>u. u_id u = off) (users d) of None \<Rightarrow> [] | Some u \<Rightarrow> u_full_name u)"

definition stats_item_of :: "string \<Rightarrow> stats_row \<Rightarrow> stats_item" where
  "stats_item_of name r =
     \<lparr>si_officer = os_officer r, si_officer_name = name, si_day = os_day r, si_fines_issued = os_fines_issued r,
      si_fines_cancelled = os_fines_cancelled r, si_fines_total = os_fines_total r, si_unique_plates = os_unique_plates r,
      si_anomaly_score = os_anomaly_score r\<rparr>"

text \<open>
  \<open>rank\<close> orders scores as Postgres orders \<open>REAL\<close> values: the highest score first, null last, and
  the latest day first among equals.
\<close>

definition recent_stats :: "session \<Rightarrow> string \<Rightarrow> time \<Rightarrow> db \<Rightarrow> stats_row list" where
  "recent_stats s ten now d =
     filter (\<lambda>r. os_tenant r = ten \<and> date_of now - 14 \<le> os_day r) (rows_seen os_tenant s (officer_stats d))"

definition officerStats :: "(float32 \<Rightarrow> int) \<Rightarrow> dbrole \<Rightarrow> surroundings \<Rightarrow> claims \<Rightarrow> stats_handler" where
  "officerStats rank role sur c =
     (let s = session_of role [] in
      bind (exec (query (\<lambda>d.
        map (\<lambda>r. stats_item_of (officer_name s (os_officer r) d) r)
          (let rows = sort_key (\<lambda>r. - os_day r) (recent_stats s (c_tenant c) (db_now sur) d)
           in sort_key (\<lambda>r. - rank (the (os_anomaly_score r))) (filter (\<lambda>r. os_anomaly_score r \<noteq> None) rows)
              @ filter (\<lambda>r. os_anomaly_score r = None) rows)))) (\<lambda>items.
      ret (Json 200 (StatsItems items 14))))"

definition myOfficerStats :: "dbrole \<Rightarrow> surroundings \<Rightarrow> claims \<Rightarrow> stats_handler" where
  "myOfficerStats role sur c =
     bind (exec (subject_param c (\<lambda>me. query (\<lambda>d.
       map (stats_item_of []) (sort_key (\<lambda>r. - os_day r)
         (filter (\<lambda>r. os_officer r = me) (recent_stats (session_of role []) (c_tenant c) (db_now sur) d))))))) (\<lambda>items.
     ret (Json 200 (StatsItems items 14)))"

text \<open>\<open>None\<close>: no job is wired.\<close>

definition rebuildStats :: "unit job option \<Rightarrow> stats_handler" where
  "rebuildStats rollup =
     (case rollup of
        None \<Rightarrow> stop (Err 503 ''no_rollup'')
      | Some run \<Rightarrow>
          bind (attempt run) (\<lambda>res.
          case res of Inl _ \<Rightarrow> stop (Err 500 ''rollup_failed'') | Inr _ \<Rightarrow> ret (Json 200 Rebuilt)))"

section \<open>What the upserts leave\<close>

definition stats_counts :: "stats_row \<Rightarrow> int \<times> int \<times> money \<times> int" where
  "stats_counts r = (os_fines_issued r, os_fines_cancelled r, os_fines_total r, os_unique_plates r)"

definition absorbed :: "stats_row \<Rightarrow> stats_row list \<Rightarrow> bool" where
  "absorbed r rows \<longleftrightarrow> (\<exists>x\<in>set rows. stats_key x = stats_key r) \<and> (\<forall>x\<in>set rows. stats_key x = stats_key r \<longrightarrow> stats_counts x = stats_counts r)"

lemma copy_counts_simps [simp]:
  "stats_key (copy_counts r x) = stats_key x" "stats_counts (copy_counts r x) = stats_counts r"
  by (simp_all add: stats_key_def copy_counts_def stats_counts_def)

lemma copy_counts_same: "stats_counts x = stats_counts r \<Longrightarrow> copy_counts r x = x"
  by (cases x) (auto simp: stats_counts_def copy_counts_def)

lemma stats_key_group [simp]: "stats_key (group_stats fs k) = k"
  by (cases k) (simp add: group_stats_def stats_key_def Let_def)

lemma upsert_absorbed: "absorbed r rows \<Longrightarrow> upsert_stats r rows = rows"
  by (auto simp: absorbed_def upsert_stats_def list_ex_iff copy_counts_same intro!: map_idI)

lemma upsert_absorbs: "absorbed r (upsert_stats r rows)"
proof (cases "list_ex (\<lambda>old. stats_key old = stats_key r) rows")
  case True
  then obtain x where "x \<in> set rows" "stats_key x = stats_key r" by (auto simp: list_ex_iff)
  then have "copy_counts r x \<in> set (upsert_stats r rows)" "stats_key (copy_counts r x) = stats_key r"
    using True by (auto simp: upsert_stats_def image_iff)
  moreover have "\<forall>y\<in>set (upsert_stats r rows). stats_key y = stats_key r \<longrightarrow> stats_counts y = stats_counts r"
    using True by (auto simp: upsert_stats_def)
  ultimately show ?thesis unfolding absorbed_def by blast
qed (auto simp: absorbed_def upsert_stats_def list_ex_iff)

lemma upsert_keeps: "absorbed r rows \<Longrightarrow> stats_key r' \<noteq> stats_key r \<Longrightarrow> absorbed r (upsert_stats r' rows)"
  by (auto simp: absorbed_def upsert_stats_def split: if_splits)

lemma fold_keeps: "absorbed r rows \<Longrightarrow> stats_key r \<notin> stats_key ` set rs \<Longrightarrow> absorbed r (fold upsert_stats rs rows)"
  by (induction rs arbitrary: rows) (auto intro!: upsert_keeps dest: not_sym)

lemma fold_absorbs: "distinct (map stats_key rs) \<Longrightarrow> r \<in> set rs \<Longrightarrow> absorbed r (fold upsert_stats rs rows)"
proof (induction rs arbitrary: rows)
  case (Cons x rs)
  show ?case
  proof (cases "r = x")
    case True
    with Cons.prems fold_keeps [OF upsert_absorbs, of x rs rows] show ?thesis by simp
  next
    case False
    with Cons show ?thesis by simp
  qed
qed simp

lemma fold_absorbed: "\<forall>r\<in>set rs. absorbed r rows \<Longrightarrow> fold upsert_stats rs rows = rows"
  by (induction rs) (auto simp: upsert_absorbed)

lemma aggregated_keys: "distinct (map stats_key (aggregated s from d))"
  by (simp add: aggregated_def Let_def comp_def)

text \<open>Scores do not touch the counts, and depend on them alone.\<close>

lemma absorbed_map:
  assumes "\<And>x. stats_key (f x) = stats_key x" and "\<And>x. stats_counts (f x) = stats_counts x"
  shows "absorbed r rows \<Longrightarrow> absorbed r (map f rows)"
  using assms by (auto simp: absorbed_def)

lemma rows_seen_map: "(\<And>r. ten (f r) = ten r) \<Longrightarrow> rows_seen ten s (map f rows) = map f (rows_seen ten s rows)"
  by (induction rows) (simp_all add: rows_seen_def)

lemma sort_key_of_map: "sort_key k (map f xs) = map f (sort_key (\<lambda>x. k (f x)) xs)"
proof -
  have "insort_key k (f x) (map f ys) = map f (insort_key (\<lambda>x. k (f x)) x ys)" for x ys by (induction ys) simp_all
  then show ?thesis by (induction xs) simp_all
qed

lemma prior_days_map:
  assumes "\<And>x. os_tenant (f x) = os_tenant x \<and> os_officer (f x) = os_officer x \<and> os_day (f x) = os_day x \<and> os_fines_issued (f x) = os_fines_issued x"
  shows "map os_fines_issued (prior_days from (map f rows) (f r)) = map os_fines_issued (prior_days from rows r)"
  using assms by (simp add: prior_days_def Let_def filter_map sort_key_of_map o_def drop_map)

section \<open>What a sweep does\<close>

definition alert_key :: "alert_row \<Rightarrow> string \<times> string \<times> uuid option \<times> date" where
  "alert_key r = (aal_tenant r, aal_kind r, aal_subject_id r, aal_day r)"

definition raised :: "string \<times> string \<times> uuid option \<times> date \<Rightarrow> db \<Rightarrow> bool" where
  "raised k d \<longleftrightarrow> (\<exists>x\<in>set (audit_alerts d). aal_resolved_at x = None \<and> alert_key x = k)"

text \<open>A candidate is a new open alert with a subject, under the number it is given.\<close>

definition candidate :: "session \<Rightarrow> (int \<Rightarrow> alert_row) \<Rightarrow> bool" where
  "candidate s c \<longleftrightarrow> (\<forall>n. aal_id (c n) = n \<and> aal_resolved_at (c n) = None \<and> aal_subject_id (c n) \<noteq> None \<and> sees s (aal_tenant (c n))
     \<and> alert_key (c n) = alert_key (c 0))"

lemma insert_alert_Inr:
  assumes "insert_alert s r d = Inr (u, d')"
  shows "sees s (aal_tenant r) \<and> (d' = d \<and> (\<exists>x\<in>set (audit_alerts d). alert_clash x r)
    \<or> d' = d\<lparr>audit_alerts := audit_alerts d @ [r]\<rparr> \<and> (\<forall>x\<in>set (audit_alerts d). \<not> alert_clash x r))"
  using assms by (auto simp: insert_alert_def list_ex_iff split: if_splits)

lemma insert_alerts_only: "insert_alerts s rs d = Inr (u, d') \<Longrightarrow> \<exists>rows. d' = d\<lparr>audit_alerts := rows\<rparr>"
proof (induction rs arbitrary: d)
  case Nil
  then show ?case by (intro exI [of _ "audit_alerts d"]) simp
next
  case (Cons r rs)
  then obtain d1 where d1: "insert_alert s r d = Inr ((), d1)" "insert_alerts s rs d1 = Inr (u, d')" by (auto split: sum.splits)
  have same: "\<exists>rows. d = d\<lparr>audit_alerts := rows\<rparr>" by (rule exI [of _ "audit_alerts d"]) simp
  from insert_alert_Inr [OF d1(1)] same obtain rows where "d1 = d\<lparr>audit_alerts := rows\<rparr>" by blast
  with Cons.IH [OF d1(2)] show ?case by auto
qed

lemma preserved_insert_alerts: "preserved alerts_unique (insert_alerts s rs)"
proof -
  have "insert_alerts s rs d = Inr (u, d') \<Longrightarrow> alerts_unique d \<Longrightarrow> alerts_unique d'" for d u d'
  proof (induction rs arbitrary: d)
    case (Cons r rs)
    then obtain d1 where d1: "insert_alert s r d = Inr ((), d1)" "insert_alerts s rs d1 = Inr (u, d')" by (auto split: sum.splits)
    from preserved_insert_alert d1(1) Cons.prems(2) have "alerts_unique d1" unfolding preserved_def by blast
    with Cons.IH [OF d1(2)] show ?case by simp
  qed simp
  then show ?thesis unfolding preserved_def by blast
qed

lemma raised_mono:
  assumes "insert_alerts s rs d = Inr (u, d')" and "raised k d"
  shows "raised k d'"
  using assms
proof (induction rs arbitrary: d)
  case (Cons r rs)
  then obtain d1 where d1: "insert_alert s r d = Inr ((), d1)" "insert_alerts s rs d1 = Inr (u, d')" by (auto split: sum.splits)
  from insert_alert_Inr [OF d1(1)] Cons.prems(2) have "raised k d1" by (auto simp: raised_def)
  with Cons.IH [OF d1(2)] show ?case by simp
qed simp

text \<open>With fresh numbers every candidate is raised afterwards, and the numbers stay below the sequence.\<close>

lemma insert_alerts_raises:
  assumes "insert_alerts s (map2 (\<lambda>c n. c n) cs [m + 1..m + int (length cs)]) d = Inr (u, d')" and "\<forall>c\<in>set cs. candidate s c"
    and "\<forall>x\<in>set (audit_alerts d). aal_id x \<le> m"
  shows "(\<forall>c\<in>set cs. raised (alert_key (c 0)) d') \<and> (\<forall>x\<in>set (audit_alerts d'). aal_id x \<le> m + int (length cs))"
  using assms
proof (induction cs arbitrary: d m)
  case (Cons c cs)
  have upto: "[m + 1..m + int (length (c # cs))] = (m + 1) # [(m + 1) + 1..(m + 1) + int (length cs)]"
    by (subst upto_rec1) (simp_all add: algebra_simps)
  from Cons.prems(1) obtain d1 where d1: "insert_alert s (c (m + 1)) d = Inr ((), d1)"
    "insert_alerts s (map2 (\<lambda>c n. c n) cs [(m + 1) + 1..(m + 1) + int (length cs)]) d1 = Inr (u, d')"
    unfolding upto by (auto split: sum.splits)
  from Cons.prems(2) have c: "aal_id (c (m + 1)) = m + 1" "aal_resolved_at (c (m + 1)) = None" "alert_key (c (m + 1)) = alert_key (c 0)"
    by (auto simp: candidate_def)
  from insert_alert_Inr [OF d1(1)] Cons.prems(3) c have "raised (alert_key (c 0)) d1" "\<forall>x\<in>set (audit_alerts d1). aal_id x \<le> m + 1"
    by (force simp: raised_def alert_clash_def same_alert_def alert_key_def)+
  with Cons.IH [OF d1(2)] Cons.prems(2) raised_mono [OF d1(2)] show ?case by (auto simp: algebra_simps)
qed simp

lemma insert_alert_raised:
  assumes "raised (alert_key (c 0)) d" and "candidate s c"
  shows "insert_alert s (c n) d = Inr ((), d)"
proof -
  from assms have "list_ex (\<lambda>old. alert_clash old (c n)) (audit_alerts d)"
    by (auto simp: raised_def candidate_def list_ex_iff alert_clash_def same_alert_def alert_key_def) (metis option.distinct(1))
  with assms(2) show ?thesis by (simp add: insert_alert_def candidate_def)
qed

lemma insert_alerts_raised:
  assumes "\<forall>c\<in>set cs. candidate s c \<and> raised (alert_key (c 0)) d"
  shows "insert_alerts s (map2 (\<lambda>c n. c n) cs ns) d = Inr ((), d)"
  using assms
proof (induction cs arbitrary: ns)
  case (Cons c cs)
  then show ?case by (cases ns) (simp_all add: insert_alert_raised)
qed simp

lemma nextvals_upto: "nextvals sq k w = (Inr [w_seq w sq + 1..w_seq w sq + int k], w\<lparr>w_seq := (w_seq w)(sq := w_seq w sq + int k)\<rparr>)"
proof -
  have "map (\<lambda>i. m + 1 + int i) [0..<k] = [m + 1..m + int k]" for m
    by (induction k) (simp_all add: upto_rec2 algebra_simps)
  then show ?thesis by (simp add: nextvals_def)
qed

text \<open>The numbers handed out so far.\<close>

definition alerts_numbered :: "dbworld \<Rightarrow> bool" where
  "alerts_numbered w \<longleftrightarrow> (\<forall>x\<in>set (audit_alerts (w_db w)). aal_id x \<le> w_seq w ''audit_alerts'')"

lemma insert_selectE:
  assumes "insert_select s cs w = (Inr u, w')"
  obtains rows where "insert_alerts s (map2 (\<lambda>c n. c n) (cs (w_db w))
      [w_seq w ''audit_alerts'' + 1..w_seq w ''audit_alerts'' + int (length (cs (w_db w)))]) (w_db w) = Inr ((), w_db w')"
    "w_db w' = (w_db w)\<lparr>audit_alerts := rows\<rparr>" "w_seq w' ''audit_alerts'' = w_seq w ''audit_alerts'' + int (length (cs (w_db w)))"
    "w_faults w = [] \<Longrightarrow> w_faults w' = []" "w_snap w' = w_snap w" "w_aborted w' = w_aborted w"
proof -
  let ?m = "w_seq w ''audit_alerts''" and ?n = "int (length (cs (w_db w)))"
  let ?w = "w\<lparr>w_seq := (w_seq w)(''audit_alerts'' := ?m + ?n)\<rparr>"
  from assms have run: "(exec_job (insert_alerts s (map2 (\<lambda>c n. c n) (cs (w_db w)) [?m + 1..?m + ?n])) :: unit job) ?w = (Inr u, w')"
    by (simp add: insert_select_def Let_def bind_def nextvals_upto)
  from exec_db [OF run] have ins: "insert_alerts s (map2 (\<lambda>c n. c n) (cs (w_db w)) [?m + 1..?m + ?n]) (w_db w) = Inr ((), w_db w')" by simp
  from insert_alerts_only [OF this] obtain rows where "w_db w' = (w_db w)\<lparr>audit_alerts := rows\<rparr>" by blast
  moreover from run have "w_seq w' = w_seq ?w" "w_snap w' = w_snap w" "w_aborted w' = w_aborted w" "w_faults w = [] \<longrightarrow> w_faults w' = []"
    by (auto simp: exec_or_def exec_try_def Let_def bind_def split: if_splits sum.splits prod.splits)
  ultimately show thesis using ins by (intro that) auto
qed

lemma insert_select_raises:
  assumes run: "insert_select s cs w = (Inr u, w')" and "\<forall>c\<in>set (cs (w_db w)). candidate s c" and "alerts_numbered w"
  shows "(\<forall>c\<in>set (cs (w_db w)). raised (alert_key (c 0)) (w_db w')) \<and> alerts_numbered w'"
  using run
proof (cases rule: insert_selectE)
  case (1 rows)
  from insert_alerts_raises [OF 1(1) assms(2)] assms(3) 1(3) show ?thesis by (auto simp: alerts_numbered_def)
qed

lemma insert_select_keeps_raised:
  assumes "insert_select s cs w = (Inr u, w')" and "raised k (w_db w)"
  shows "raised k (w_db w')"
  using assms(1) by (cases rule: insert_selectE) (use assms(2) raised_mono in blast)

lemma insert_select_raised:
  assumes "healthy w" and "\<forall>c\<in>set (cs (w_db w)). candidate s c \<and> raised (alert_key (c 0)) (w_db w)"
  obtains sq where "insert_select s cs w = (Inr (), w\<lparr>w_seq := sq\<rparr>)"
proof -
  have "(exec_job (insert_alerts s (map2 (\<lambda>c n. c n) (cs (w_db w)) ns)) :: unit job) (w\<lparr>w_seq := sq\<rparr>) = (Inr (), w\<lparr>w_seq := sq\<rparr>)" for ns sq
    using exec_or_ok [of "w\<lparr>w_seq := sq\<rparr>" "insert_alerts s (map2 (\<lambda>c n. c n) (cs (w_db w)) ns)" "()" "w_db w"] assms(1)
      insert_alerts_raised [OF assms(2)] by simp
  then show thesis by (intro that) (simp add: insert_select_def Let_def bind_def nextvals_upto)
qed

lemma insert_select_again:
  assumes "healthy w" and "\<forall>c\<in>set (cs (w_db w)). candidate s c" and "\<forall>k\<in>set (map (\<lambda>c. alert_key (c 0)) (cs (w_db w))). raised k (w_db w)"
  obtains sq where "insert_select s cs w = (Inr (), w\<lparr>w_seq := sq\<rparr>)"
  using insert_select_raised [OF assms(1), of cs s] assms(2,3) by auto

lemma candidate_new: "sees s ten \<Longrightarrow> candidate s (\<lambda>n. new_alert sur n ten kind subject sid day severity details)"
  by (simp add: candidate_def new_alert_def alert_key_def)

lemma alert_key_new: "alert_key (new_alert sur n ten kind subject sid day severity details) = (ten, kind, Some sid, day)"
  by (simp add: new_alert_def alert_key_def)

lemma map_of_map_filter: "map h (List.map_filter g xs) = List.map_filter (\<lambda>x. map_option h (g x)) xs"
  by (induction xs) (simp_all add: map_filter_simps split: option.split)

lemma z_alerts_candidates: "\<forall>c\<in>set (z_alerts lib s sur from d). candidate s c"
  unfolding z_alerts_def set_map_filter rows_seen_def
  by (auto split: option.splits if_splits intro: candidate_new)

lemma rate_alerts_candidates: "\<forall>c\<in>set (rate_alerts lib s sur from d). candidate s c"
  unfolding rate_alerts_def set_map_filter rows_seen_def Let_def
  by (auto split: if_splits intro: candidate_new)

text \<open>Which alerts are due depends on the statistics alone, not on the clock.\<close>

lemma z_alert_keys:
  assumes "officer_stats d' = officer_stats d"
  shows "map (\<lambda>c. alert_key (c 0)) (z_alerts lib s sur' from d') = map (\<lambda>c. alert_key (c 0)) (z_alerts lib s sur from d)"
  unfolding z_alerts_def map_of_map_filter assms
  by (rule arg_cong2 [where f = List.map_filter]) (auto simp: alert_key_new split: option.split)

lemma rate_alert_keys:
  assumes "officer_stats d' = officer_stats d"
  shows "map (\<lambda>c. alert_key (c 0)) (rate_alerts lib s sur' from d') = map (\<lambda>c. alert_key (c 0)) (rate_alerts lib s sur from d)"
  unfolding rate_alerts_def map_of_map_filter assms Let_def
  by (rule arg_cong2 [where f = List.map_filter]) (auto simp: alert_key_new)

lemma RunOnceE:
  assumes "RunOnce lib role sur w = (Inr u, w')"
  obtains d1 w1 w2 rows where "aggregate_stmt (session_of role []) (sweep_from sur) (w_db w) = Inr ((), d1)"
    "w_db w1 = score_stmt lib (session_of role []) (sweep_from sur) d1" "w_seq w1 = w_seq w" "w_snap w1 = w_snap w"
    "insert_select (session_of role []) (z_alerts lib (session_of role []) sur (sweep_from sur)) w1 = (Inr (), w2)"
    "insert_select (session_of role []) (rate_alerts lib (session_of role []) sur (sweep_from sur)) w2 = (Inr (), w')"
    "w_faults w = [] \<Longrightarrow> w_faults w1 = []" "w_aborted w1 = w_aborted w"
proof -
  let ?s = "session_of role []" and ?from = "sweep_from sur"
  from assms obtain wa w1 w2 where
    a: "(aggregate role ?from :: unit job) w = (Inr (), wa)" and b: "(score lib role ?from :: unit job) wa = (Inr (), w1)" and
    c: "insert_select ?s (z_alerts lib ?s sur ?from) w1 = (Inr (), w2)" and d: "insert_select ?s (rate_alerts lib ?s sur ?from) w2 = (Inr (), w')"
    unfolding RunOnce_def detectAnomalies_def by (elim andthenE) (rule that; simp)
  have step: "w_seq y = w_seq x \<and> w_snap y = w_snap x \<and> (w_faults x = [] \<longrightarrow> w_faults y = []) \<and> w_aborted y = w_aborted x"
    if "(exec_job f :: unit job) x = (Inr (), y)" for f x y
    using that by (auto simp: exec_or_def exec_try_def Let_def bind_def split: if_splits sum.splits prod.splits)
  show thesis
  proof (rule that [OF _ _ _ _ c d])
    from exec_db [OF a [unfolded aggregate_def]] show "aggregate_stmt ?s ?from (w_db w) = Inr ((), w_db wa)" .
    from exec_change_db [OF b [unfolded score_def]] show "w_db w1 = score_stmt lib ?s ?from (w_db wa)" .
  qed (use step [OF a [unfolded aggregate_def]] step [OF b [unfolded score_def]] in auto)
qed

lemma score_rows:
  "officer_stats (score_stmt lib s from d) =
     map (\<lambda>r. if sees s (os_tenant r) \<and> from \<le> os_day r
        then r\<lparr>os_anomaly_score := score_of lib from (rows_seen os_tenant s (officer_stats d)) r\<rparr> else r) (officer_stats d)"
  by (simp add: score_stmt_def update_rows_def)

lemma score_idem: "score_stmt lib s from (score_stmt lib s from d) = score_stmt lib s from d"
proof -
  let ?T = "officer_stats d"
  define f where "f r = (if sees s (os_tenant r) \<and> from \<le> os_day r
        then r\<lparr>os_anomaly_score := score_of lib from (rows_seen os_tenant s ?T) r\<rparr> else r)" for r
  have f: "os_tenant (f r) = os_tenant r \<and> os_officer (f r) = os_officer r \<and> os_day (f r) = os_day r \<and> os_fines_issued (f r) = os_fines_issued r" for r
    by (simp add: f_def)
  then have seen: "rows_seen os_tenant s (map f ?T) = map f (rows_seen os_tenant s ?T)"
    by (intro rows_seen_map) simp
  from prior_days_map [of f, OF f] have prior:
    "map os_fines_issued (prior_days from (map f rows) (f r)) = map os_fines_issued (prior_days from rows r)" for rows r .
  have "length (prior_days from (map f rows) (f r)) = length (prior_days from rows r)" for rows r
    using arg_cong [OF prior, of length] by simp
  with prior f have again: "score_of lib from (map f (rows_seen os_tenant s ?T)) (f r) = score_of lib from (rows_seen os_tenant s ?T) r" for r
    by (simp add: score_of_def Let_def)
  have "(f r)\<lparr>os_anomaly_score := score_of lib from (rows_seen os_tenant s (map f ?T)) (f r)\<rparr> = f r"
    if "sees s (os_tenant (f r)) \<and> from \<le> os_day (f r)" for r
    unfolding seen again using that f by (simp add: f_def)
  moreover have "officer_stats (score_stmt lib s from d) = map f ?T" unfolding score_rows f_def by simp
  ultimately have "officer_stats (score_stmt lib s from (score_stmt lib s from d)) = officer_stats (score_stmt lib s from d)"
    unfolding score_rows [of lib s "from" "score_stmt lib s from d"] by simp
  then show ?thesis by (simp add: score_stmt_def)
qed

lemma score_stmt_alerts: "score_stmt lib s from (d\<lparr>audit_alerts := rows\<rparr>) = (score_stmt lib s from d)\<lparr>audit_alerts := rows\<rparr>"
  by (simp add: score_stmt_def)

lemma aggregate_rows:
  assumes "aggregate_stmt s from d = Inr ((), d1)"
  shows "d1 = d\<lparr>officer_stats := fold upsert_stats (aggregated s from d) (officer_stats d)\<rparr>
    \<and> list_all (\<lambda>r. user_exists (Some (os_officer r)) d) (aggregated s from d)"
  using assms by (auto simp: aggregate_stmt_def split: if_splits)

text \<open>After a sweep every count is in the table.\<close>

lemma swept_absorbed:
  assumes "aggregate_stmt s from d = Inr ((), d1)" and "r \<in> set (aggregated s from d)"
  shows "absorbed r (officer_stats (score_stmt lib s from d1))"
proof -
  from assms(2) aggregate_rows [OF assms(1)] fold_absorbs [OF aggregated_keys] have "absorbed r (officer_stats d1)" by simp
  then show ?thesis
    unfolding score_rows by (rule absorbed_map [rotated -1]) (auto simp: stats_key_def stats_counts_def)
qed

lemma sweep_stats:
  assumes "RunOnce lib role sur w = (Inr u, w')" and "aggregate_stmt (session_of role []) (sweep_from sur) (w_db w) = Inr ((), d1)"
  obtains rows where "w_db w' = (score_stmt lib (session_of role []) (sweep_from sur) d1)\<lparr>audit_alerts := rows\<rparr>"
proof -
  from RunOnceE [OF assms(1)] obtain d2 w1 w2 where d2: "aggregate_stmt (session_of role []) (sweep_from sur) (w_db w) = Inr ((), d2)"
    and w1: "w_db w1 = score_stmt lib (session_of role []) (sweep_from sur) d2"
    and z: "insert_select (session_of role []) (z_alerts lib (session_of role []) sur (sweep_from sur)) w1 = (Inr (), w2)"
    and rate: "insert_select (session_of role []) (rate_alerts lib (session_of role []) sur (sweep_from sur)) w2 = (Inr (), w')" by metis
  from insert_selectE [OF z] obtain rows1 where "w_db w2 = (w_db w1)\<lparr>audit_alerts := rows1\<rparr>" by blast
  moreover from insert_selectE [OF rate] obtain rows2 where "w_db w' = (w_db w2)\<lparr>audit_alerts := rows2\<rparr>" by blast
  ultimately show thesis using w1 d2 assms(2) that by simp
qed

section \<open>The properties\<close>

text \<open>C33
  The statistics are exact. When a sweep succeeds, every fine issued on a day of its window has a row
  for its tenant, officer and day, and every such row counts precisely the fines of that tenant, officer
  and day in the whole table: how many were issued, how many of them are cancelled, the amount of
  the others, and the number of different plates.
\<close>

theorem sweep_counts_are_exact:
  assumes "RunOnce lib BypassesRls sur w = (Inr (), w')" and "f \<in> set (fines (w_db w))" and "sweep_from sur \<le> date_of (f_issued_at f)"
  defines "g \<equiv> filter (\<lambda>x. fine_key x = fine_key f) (fines (w_db w))"
  shows "(\<exists>r\<in>set (officer_stats (w_db w')). stats_key r = fine_key f)
    \<and> (\<forall>r\<in>set (officer_stats (w_db w')). stats_key r = fine_key f \<longrightarrow>
         os_fines_issued r = int (length g) \<and> os_fines_cancelled r = int (length (filter (\<lambda>x. f_status x = Cancelled) g))
         \<and> os_fines_total r = sum_list (map f_amount (filter (\<lambda>x. f_status x \<noteq> Cancelled) g))
         \<and> os_unique_plates r = int (card (f_plate ` set g)))"
proof -
  let ?from = "sweep_from sur" and ?fs = "window_fines BypassRls (sweep_from sur) (w_db w)"
  have in_window: "days ?from \<le> f_issued_at x" if "?from \<le> date_of (f_issued_at x)" for x
  proof -
    have "86400000000 * ?from \<le> 86400000000 * (f_issued_at x div 86400000000)" using that by (simp add: date_of_def)
    also have "\<dots> \<le> f_issued_at x" by simp
    finally show ?thesis by (simp add: days_eq)
  qed
  have "days ?from \<le> f_issued_at x" if "fine_key x = fine_key f" for x
    using that assms(3) by (intro in_window) (simp add: fine_key_def)
  then have g: "filter (\<lambda>x. fine_key x = fine_key f) ?fs = g"
    unfolding window_fines_def rows_seen_def g_def filter_filter sees.simps
    by (intro filter_cong [OF refl]) auto
  let ?r = "group_stats ?fs (fine_key f)"
  have "f \<in> set ?fs" using assms(2,3) in_window by (auto simp: window_fines_def rows_seen_def)
  then have r: "?r \<in> set (aggregated BypassRls ?from (w_db w))" by (auto simp: aggregated_def Let_def)
  from RunOnceE [OF assms(1)] obtain d1 where d1: "aggregate_stmt BypassRls ?from (w_db w) = Inr ((), d1)" by auto
  from sweep_stats [OF assms(1)] d1 obtain rows where "w_db w' = (score_stmt lib BypassRls ?from d1)\<lparr>audit_alerts := rows\<rparr>" by auto
  with swept_absorbed [OF d1 r, of lib] have "absorbed ?r (officer_stats (w_db w'))" by simp
  moreover have "os_fines_issued ?r = int (length g)" "os_fines_cancelled ?r = int (length (filter (\<lambda>x. f_status x = Cancelled) g))"
    "os_fines_total ?r = sum_list (map f_amount (filter (\<lambda>x. f_status x \<noteq> Cancelled) g))" "os_unique_plates ?r = int (card (f_plate ` set g))"
    using g by (simp_all add: group_stats_def Let_def fine_key_def [of f] length_remdups_card_conv del: filter_filter set_filter)
  ultimately show ?thesis
    unfolding absorbed_def stats_key_group stats_counts_def by simp
qed

text \<open>A station with one officer and seven fines of one day, three of them cancelled.\<close>

definition demo_ticket :: "uuid \<Rightarrow> string \<Rightarrow> fine_status \<Rightarrow> fine_row" where
  "demo_ticket k plate st = \<lparr>f_id = k, f_tenant = ''no'', f_vehicle_id = None, f_plate = plate, f_driver_user_id = None,
     f_driver_license_id = None, f_offence_code = ''X'', f_amount = 100, f_currency = ''EUR'', f_status = st, f_issued_by = 5,
     f_issued_at = days 20 + hours 3, f_device_id = [], f_geo_lat = 0, f_geo_lng = 0, f_geo_accuracy = 0, f_due_at = days 50,
     f_paid_at = None, f_stage = 0, f_notes = None\<rparr>"

definition demo_officer :: user_row where
  "demo_officer = \<lparr>u_id = 5, u_tenant = ''no'', u_email = ''o'', u_phone = None, u_password_hash = [], u_full_name = ''O'', u_is_active = True\<rparr>"

text \<open>Arithmetic good enough for the example: no scores, and a rate is the thousandths of the quotient.\<close>

definition demo_float :: float_lib where
  "demo_float = \<lparr>fl_z = (\<lambda>_ _. None), fl_high_z = (\<lambda>_. False), fl_rate = (\<lambda>c n. word_of_int (1000 * c div n)), fl_high_rate = (\<lambda>r. r > 300)\<rparr>"

definition demo_station_log :: dbworld where
  "demo_station_log = world_of (empty_db\<lparr>tenants := [(''no'', [])], users := [demo_officer],
     fines := map (\<lambda>k. demo_ticket k (if k < 3 then ''A'' else ''B'') (if k < 4 then Issued else Cancelled)) [0..<7]\<rparr>)"

definition demo_at_noon :: "int \<Rightarrow> surroundings" where
  "demo_at_noon n = \<lparr>go_now = days n + hours 12, db_now = days n + hours 12, new_uuid = (\<lambda>k. k)\<rparr>"

definition demo_swept :: "(goerr + unit) \<times> dbworld" where
  "demo_swept = RunOnce demo_float BypassesRls (demo_at_noon 21) demo_station_log"

lemma demo_swept_facts:
  "fst demo_swept = Inr ()" "map stats_key (officer_stats (w_db (snd demo_swept))) = [(''no'', 5, 20)]"
  "map (\<lambda>a. (aal_id a, aal_kind a)) (audit_alerts (w_db (snd demo_swept))) = [(1, ''officer_high_cancel_rate'')]"
  by code_simp+

theorem sweep_counts_are_exact_witness:
  "map stats_counts (officer_stats (w_db (snd demo_swept))) = [(7, 3, 400, 2)]"
proof -
  have run: "RunOnce demo_float BypassesRls (demo_at_noon 21) demo_station_log = (Inr (), snd demo_swept)"
    using demo_swept_facts(1) by (simp add: demo_swept_def prod_eq_iff)
  have f: "demo_ticket 0 ''A'' Issued \<in> set (fines (w_db demo_station_log))" by code_simp
  have "sweep_from (demo_at_noon 21) \<le> date_of (f_issued_at (demo_ticket 0 ''A'' Issued))" by code_simp
  note exact = sweep_counts_are_exact [OF run f this]
  have key: "fine_key (demo_ticket 0 ''A'' Issued) = (''no'', 5, 20)" by code_simp
  have g: "int (length (filter (\<lambda>x. fine_key x = (''no'', 5, 20)) (fines (w_db demo_station_log)))) = 7"
    "int (length (filter (\<lambda>x. f_status x = Cancelled) (filter (\<lambda>x. fine_key x = (''no'', 5, 20)) (fines (w_db demo_station_log))))) = 3"
    "sum_list (map f_amount (filter (\<lambda>x. f_status x \<noteq> Cancelled) (filter (\<lambda>x. fine_key x = (''no'', 5, 20)) (fines (w_db demo_station_log))))) = 400"
    "int (card (f_plate ` set (filter (\<lambda>x. fine_key x = (''no'', 5, 20)) (fines (w_db demo_station_log))))) = 2"
    by code_simp+
  from demo_swept_facts(2) obtain r where rows: "officer_stats (w_db (snd demo_swept)) = [r]" "stats_key r = (''no'', 5, 20)"
    by (cases "officer_stats (w_db (snd demo_swept))") auto
  with exact [unfolded key g] show ?thesis by (simp add: stats_counts_def)
qed

text \<open>
  A sweep may run at any time and any number of times. On a database without faults whose alerts
  carry numbers of the sequence, a second sweep of the same window, at whatever time of the day,
  succeeds and leaves the database exactly as the first one left it: no count, no score and no alert
  is added or changed.
\<close>

theorem sweeping_twice_is_sweeping_once:
  assumes "RunOnce lib role sur w = (Inr (), w1)" and "RunOnce lib role sur' w1 = (res, w2)" and "sweep_from sur' = sweep_from sur"
    and "healthy w" and "alerts_numbered w"
  shows "res = Inr () \<and> w_db w2 = w_db w1"
proof -
  let ?s = "session_of role []" and ?from = "sweep_from sur"
  from RunOnceE [OF assms(1)] obtain d1 v1 v2 where d1: "aggregate_stmt ?s ?from (w_db w) = Inr ((), d1)"
    and v1: "w_db v1 = score_stmt lib ?s ?from d1" "w_seq v1 = w_seq w" "w_snap v1 = w_snap w"
    and z: "insert_select ?s (z_alerts lib ?s sur ?from) v1 = (Inr (), v2)"
    and rate: "insert_select ?s (rate_alerts lib ?s sur ?from) v2 = (Inr (), w1)"
    and "w_faults w = [] \<Longrightarrow> w_faults v1 = []" "w_aborted v1 = w_aborted w" by metis
  with assms(4) have "healthy v1" by (simp add: healthy_def)
  from insert_selectE [OF z] this obtain rows1 where v2: "w_db v2 = (w_db v1)\<lparr>audit_alerts := rows1\<rparr>" "healthy v2"
    by (metis healthy_def)
  from insert_selectE [OF rate] this obtain rows2 where w1: "w_db w1 = (w_db v2)\<lparr>audit_alerts := rows2\<rparr>" "healthy w1"
    by (metis healthy_def)
  note agg = aggregate_rows [OF d1]
  have d1_alerts: "audit_alerts d1 = audit_alerts (w_db w)" using agg by simp
  have "alerts_numbered v1" using assms(5) v1 d1_alerts by (simp add: alerts_numbered_def score_stmt_def)
  note raised_z = insert_select_raises [OF z z_alerts_candidates this]
  note raised_rate = insert_select_raises [OF rate rate_alerts_candidates raised_z [THEN conjunct2]]
  have fines: "window_fines ?s ?from (w_db w1) = window_fines ?s ?from (w_db w)" "users (w_db w1) = users (w_db w)"
    using agg by (simp_all add: w1 v2 v1 score_stmt_def window_fines_def)
  then have same: "aggregated ?s ?from (w_db w1) = aggregated ?s ?from (w_db w)" by (simp add: aggregated_def)
  have "absorbed r (officer_stats (w_db w1))" if "r \<in> set (aggregated ?s ?from (w_db w))" for r
    using swept_absorbed [OF d1 that, of lib] by (simp add: w1 v2 v1)
  then have "fold upsert_stats (aggregated ?s ?from (w_db w1)) (officer_stats (w_db w1)) = officer_stats (w_db w1)"
    unfolding same by (intro fold_absorbed) simp
  moreover have "list_all (\<lambda>r. user_exists (Some (os_officer r)) (w_db w1)) (aggregated ?s ?from (w_db w1))"
    unfolding same using agg by (simp add: user_exists_def fines(2))
  ultimately have "aggregate_stmt ?s ?from (w_db w1) = Inr ((), w_db w1)" by (simp add: aggregate_stmt_def)
  from exec_or_ok [of w1 "aggregate_stmt ?s ?from" "()" "w_db w1", OF w1(2) this] have a: "(aggregate role ?from :: unit job) w1 = (Inr (), w1)" by (simp add: aggregate_def)
  have scored: "score_stmt lib ?s ?from (w_db w1) = w_db w1"
    by (simp add: w1 v2 v1 score_stmt_alerts score_idem)
  have b: "(score lib role ?from :: unit job) w1 = (Inr (), w1)" by (simp add: score_def exec_change_ok [OF w1(2)] scored)
  have stats: "officer_stats (w_db w1) = officer_stats (w_db v1)" "officer_stats (w_db w1) = officer_stats (w_db v2)" by (simp_all add: w1 v2)
  have "\<forall>k\<in>set (map (\<lambda>c. alert_key (c 0)) (z_alerts lib ?s sur' ?from (w_db w1))). raised k (w_db w1)"
    unfolding z_alert_keys [OF stats(1), where sur = sur] using raised_z insert_select_keeps_raised [OF rate] by auto
  from insert_select_again [where cs = "z_alerts lib ?s sur' ?from", OF w1(2) z_alerts_candidates this] obtain sq
    where c: "insert_select ?s (z_alerts lib ?s sur' ?from) w1 = (Inr (), w1\<lparr>w_seq := sq\<rparr>)" .
  have "\<forall>k\<in>set (map (\<lambda>c. alert_key (c 0)) (rate_alerts lib ?s sur' ?from (w_db (w1\<lparr>w_seq := sq\<rparr>)))). raised k (w_db (w1\<lparr>w_seq := sq\<rparr>))"
    using raised_rate unfolding world.select_convs world.update_convs by (simp add: rate_alert_keys [OF stats(2), where sur = sur] del: set_map) simp
  from insert_select_again [where cs = "rate_alerts lib ?s sur' ?from", OF _ rate_alerts_candidates this] w1(2) obtain sq'
    where d: "insert_select ?s (rate_alerts lib ?s sur' ?from) (w1\<lparr>w_seq := sq\<rparr>) = (Inr (), w1\<lparr>w_seq := sq\<rparr>\<lparr>w_seq := sq'\<rparr>)" by auto
  from assms(2) show ?thesis
    unfolding RunOnce_def detectAnomalies_def assms(3) by (auto simp: andthen_def bind_def a b c d)
qed

theorem sweeping_twice_is_sweeping_once_witness:
  "w_db (snd (RunOnce demo_float BypassesRls (demo_at_noon 21 \<lparr>db_now := days 21 + hours 20\<rparr>) (snd demo_swept))) = w_db (snd demo_swept)
     \<and> length (audit_alerts (w_db (snd demo_swept))) = 1"
proof -
  have run: "RunOnce demo_float BypassesRls (demo_at_noon 21) demo_station_log = (Inr (), snd demo_swept)"
    using demo_swept_facts(1) by (simp add: demo_swept_def prod_eq_iff)
  have start: "healthy demo_station_log" "alerts_numbered demo_station_log" by code_simp+
  have "length (audit_alerts (w_db (snd demo_swept))) = 1" using arg_cong [OF demo_swept_facts(3), of length] by simp
  with sweeping_twice_is_sweeping_once [OF run prod.collapse [symmetric] _ start, of "demo_at_noon 21 \<lparr>db_now := days 21 + hours 20\<rparr>"]
  show ?thesis by (simp add: sweep_from_def)
qed

section \<open>What the code does not do\<close>

text \<open>
  A resolved alert comes back with the next sweep although nothing has happened since: the day is
  still in the window and its numbers are the same.
\<close>

lemma resolved_alert_returns:
  "map (\<lambda>a. (aal_id a, aal_resolved_at a \<noteq> None)) (audit_alerts (w_db (snd (RunOnce demo_float BypassesRls (demo_at_noon 21)
     (snd (finish (resolveAlert BypassesRls (demo_at_noon 21)
        \<lparr>c_tenant = ''no'', c_role = ''admin'', c_permissions = [], c_device = [], c_subject = Some 1, c_issued_at = 0, c_expires_at = 0, c_jti = None\<rparr>
        (Some 1) (Some ''ok'')) (snd demo_swept))))))) = [(1, True), (2, False)]"
  by code_simp

end
