(* ===== verification/AlertLife.thy ===== *)
theory AlertLife
  imports Rollup
begin

text \<open>
  An alert from the scan or the sweep that raises it to its resolution: the parts that write
  \<open>audit_alerts\<close> together, and the way from the ANPR pipeline over the outbox to the table.
\<close>

section \<open>The writers together\<close>

lemma iv_nextvals: "keeps (kept q) (nextvals sq k)"
  by (rule keepsI) (simp add: nextvals_def kept_def held_def)

lemma iv_insert_select:
  assumes "\<And>rs. preserved q (insert_alerts s rs)"
  shows "keeps (kept q) (insert_select s cs)"
proof (rule keepsI)
  fix w :: dbworld
  have "keeps (kept q) (bind (nextvals ''audit_alerts'' (length (cs (w_db w))))
      (\<lambda>ns. exec_job (insert_alerts s (map2 (\<lambda>c n. c n) (cs (w_db w)) ns)) :: unit job))"
    by (intro iv_steps iv_nextvals assms)
  then show "kept q w (snd (insert_select s cs w))" by (simp add: insert_select_def Let_def keeps_def)
qed

lemma preserved_stats: "preserved alerts_unique (aggregate_stmt s from)"
  by (auto simp: preserved_def aggregate_stmt_def alerts_unique_def split: if_splits)

lemma iv_RunOnce: "keeps (kept alerts_unique) (RunOnce lib role sur)"
  unfolding RunOnce_def aggregate_def score_def detectAnomalies_def
  by (intro iv_steps iv_insert_select preserved_insert_alerts preserved_stats preserved_change)
    (simp add: alerts_unique_def score_stmt_def)

text \<open>A step of the alerts: an event, a sweep or a resolution, under any role and with any faults.\<close>

inductive alert_step :: "dbworld \<Rightarrow> dbworld \<Rightarrow> bool" where
  event: "handle_alert role sur env w = (res, w') \<Longrightarrow> alert_step w w'"
| sweep: "RunOnce lib role sur w = (res, w') \<Longrightarrow> alert_step w w'"
| resolve: "resolveAlert role sur c ident body w = (ans, w') \<Longrightarrow> alert_step w w'"

inductive_cases alert_stepE: "alert_step w w'"

lemma alert_step_keeps: "alert_step w w' \<Longrightarrow> held alerts_unique w \<Longrightarrow> held alerts_unique w'"
  by (elim alert_stepE)
    (use iv_handle_alert iv_RunOnce iv_resolveAlert in \<open>fastforce dest: keepsD simp: kept_def\<close>)+

lemma alert_steps_keep: "alert_step\<^sup>*\<^sup>* w w' \<Longrightarrow> held alerts_unique w \<Longrightarrow> held alerts_unique w'"
  by (induction rule: rtranclp_induct) (blast intro: alert_step_keeps)+

lemma alerts_unique_iff:
  "alerts_unique d \<longleftrightarrow> distinct (map aal_id (audit_alerts d)) \<and> (\<forall>x\<in>set (audit_alerts d). \<forall>y\<in>set (audit_alerts d).
     aal_resolved_at x = None \<and> aal_resolved_at y = None \<and> same_alert x y \<longrightarrow> x = y)"
proof
  assume u: "alerts_unique d"
  have "sorted_wrt (\<lambda>x y. aal_id x \<noteq> aal_id y) (audit_alerts d)"
    using u unfolding alerts_unique_def unique_by_def by (rule sorted_wrt_mono_rel [rotated]) (simp add: alert_clash_def)
  then have "distinct (map aal_id (audit_alerts d))" by (simp add: distinct_conv_nth sorted_wrt_iff_nth_less) (metis linorder_neqE_nat)
  with open_alert_unique [OF u] show "distinct (map aal_id (audit_alerts d)) \<and> (\<forall>x\<in>set (audit_alerts d). \<forall>y\<in>set (audit_alerts d).
     aal_resolved_at x = None \<and> aal_resolved_at y = None \<and> same_alert x y \<longrightarrow> x = y)" by blast
next
  assume "distinct (map aal_id (audit_alerts d)) \<and> (\<forall>x\<in>set (audit_alerts d). \<forall>y\<in>set (audit_alerts d).
     aal_resolved_at x = None \<and> aal_resolved_at y = None \<and> same_alert x y \<longrightarrow> x = y)"
  then show "alerts_unique d"
    unfolding alerts_unique_def unique_by_def sorted_wrt_iff_nth_less alert_clash_def
    by (auto simp: distinct_conv_nth) (metis less_irrefl nth_mem order.strict_trans)
qed

text \<open>C34
  Alerts do not pile up. Whatever events, sweeps and resolutions run against the table, in any order,
  under any database role and with any of their statements failing: no two alerts ever have the same
  number, and no two open alerts of a tenant share the kind, the subject and the day.
\<close>

theorem one_open_alert_a_day:
  assumes "alert_step\<^sup>*\<^sup>* w w'" and "w_snap w = None" and "alerts_unique (w_db w)"
  shows "distinct (map aal_id (audit_alerts (w_db w'))) \<and> (\<forall>x\<in>set (audit_alerts (w_db w')). \<forall>y\<in>set (audit_alerts (w_db w')).
     aal_resolved_at x = None \<and> aal_resolved_at y = None \<and> same_alert x y \<longrightarrow> x = y)"
proof -
  have "held alerts_unique w" using assms(2,3) by (simp add: held_def)
  from alert_steps_keep [OF assms(1) this] have "alerts_unique (w_db w')" by (simp add: held_def)
  then show ?thesis unfolding alerts_unique_iff .
qed

theorem one_open_alert_a_day_witness:
  "distinct (map aal_id (audit_alerts (w_db (snd (RunOnce demo_float BypassesRls (demo_at_noon 21) (snd demo_swept))))))"
proof -
  have "alert_step demo_station_log (snd demo_swept)"
    by (rule alert_step.sweep [where lib = demo_float and role = BypassesRls and sur = "demo_at_noon 21" and res = "fst demo_swept"])
      (simp add: demo_swept_def)
  moreover have "alert_step (snd demo_swept) (snd (RunOnce demo_float BypassesRls (demo_at_noon 21) (snd demo_swept)))"
    by (rule alert_step.sweep [OF prod.collapse [symmetric]])
  ultimately have "alert_step\<^sup>*\<^sup>* demo_station_log (snd (RunOnce demo_float BypassesRls (demo_at_noon 21) (snd demo_swept)))"
    by (meson rtranclp.rtrancl_into_rtrancl rtranclp.rtrancl_refl)
  moreover have "w_snap demo_station_log = None" "alerts_unique (w_db demo_station_log)"
    by (simp_all add: demo_station_log_def world_of_def alerts_unique_def empty_db_def)
  ultimately show ?thesis using one_open_alert_a_day by blast
qed

section \<open>From the camera to the alert\<close>

text \<open>The only event of a tick that speaks of an alert is that of a flagged vehicle.\<close>

lemma scan_events_alert:
  assumes "e \<in> set (scan_events sur j plate vehicle)" and "env_type e = TypeAnprAlert"
  obtains v where "vehicle = Some v" "e = alert_event sur j plate (new_uuid sur 0) v" "v_is_stolen v \<or> v_is_seized v \<or> v_is_wanted v"
  using assms by (auto simp: scan_events_def scan_event_def TypeAnprAlert_def TypeAnprScan_def TypeAnprMatched_def
      split: option.splits if_splits)

lemma severity_flags: "v_is_stolen v \<or> v_is_seized v \<or> v_is_wanted v \<Longrightarrow>
    severity_of (length (alert_flags \<lparr>aap_scan_id = sid, aap_plate = plate, aap_vehicle_id = vid,
      aap_is_stolen = v_is_stolen v, aap_is_seized = v_is_seized v, aap_is_wanted = v_is_wanted v\<rparr>)) \<noteq> 0"
  by (auto simp: severity_of_def alert_flags_def)

lemma tick_alert:
  assumes "anpr_tick w sur v = (res, v')" and "w_snap v = None"
    and "ob \<in> set (outbox (w_db v'))" and "ob \<notin> set (outbox (w_db v))" and "ob_body ob = Some env" and "env_type env = TypeAnprAlert"
  obtains j plate veh where "next_queued (aw_session w) (w_db v) = Some j" and "match_vehicle (aw_session w) (aj_tenant j) plate (w_db v) = Some veh"
    and "v_is_stolen veh \<or> v_is_seized veh \<or> v_is_wanted veh" and "env = alert_event sur j plate (new_uuid sur 0) veh"
proof -
  from anpr_tick_outcome [OF assms(1,2)] show thesis
  proof (elim conjE disjE exE)
    assume "w_db v' = w_db v"
    with assms(3,4) show thesis by simp
  next
    fix j
    assume j: "next_queued (aw_session w) (w_db v) = Some j" and out: "job_outcome w sur j (w_db v) (w_db v')"
    from out assms(3,4) obtain pat where
      "scanned w sur j (fst (Normalize (aw_rx w) (aj_raw_plate j) pat)) (update_job (aw_session w) (aj_id j) mark_processing (w_db v)) (w_db v')"
      unfolding job_outcome_def Let_def by (auto simp: update_job_def)
    moreover define plate where "plate = fst (Normalize (aw_rx w) (aj_raw_plate j) pat)"
    ultimately obtain obs where bodies: "map ob_body obs = map Some (scan_events sur j plate (match_vehicle (aw_session w) (aj_tenant j) plate (w_db v)))"
      and "outbox (w_db v') = outbox (w_db v) @ obs"
      unfolding scanned_def Let_def match_after_claim by (auto simp: update_job_def)
    with assms(3,4) have "ob \<in> set obs" by simp
    then have "ob_body ob \<in> set (map ob_body obs)" by (simp del: set_map add: set_map [of ob_body] )
    with bodies assms(5) have "env \<in> set (scan_events sur j plate (match_vehicle (aw_session w) (aj_tenant j) plate (w_db v)))" by auto
    from scan_events_alert [OF this assms(6)] j that show thesis by metis
  qed
qed

text \<open>C35
  A flagged vehicle that a camera reads is not lost on the way. An \<open>anpr.alert\<close> that a tick of the
  pipeline wrote to the outbox, handled by the audit service in a run without faults, leaves an open
  alert of that vehicle, in the tenant of the camera, for the day: raised now, or standing already.
  The vehicle is one of the tenant's that carried a flag when it was read.
\<close>

theorem flagged_vehicle_is_alerted:
  assumes "anpr_tick w sur v = (res, v')" and "w_snap v = None"
    and "ob \<in> set (outbox (w_db v'))" and "ob \<notin> set (outbox (w_db v))" and "ob_body ob = Some env" and "env_type env = TypeAnprAlert"
    and "healthy u" and "alerts_numbered u" and "map_of (tenants (w_db u)) (env_tenant env) \<noteq> None"
  shows "\<exists>u' veh x. handle_alert BypassesRls sur' env u = (Inr (), u')
    \<and> veh \<in> set (vehicles (w_db v)) \<and> v_tenant veh = env_tenant env \<and> (v_is_stolen veh \<or> v_is_seized veh \<or> v_is_wanted veh)
    \<and> x \<in> set (audit_alerts (w_db u')) \<and> aal_resolved_at x = None \<and> aal_tenant x = env_tenant env \<and> aal_kind x = AlertKind
    \<and> aal_subject_id x = Some (v_id veh) \<and> aal_day x = date_of (db_now sur')"
proof -
  from tick_alert [OF assms(1-6)] obtain j plate veh where
    match: "match_vehicle (aw_session w) (aj_tenant j) plate (w_db v) = Some veh"
    and flagged: "v_is_stolen veh \<or> v_is_seized veh \<or> v_is_wanted veh" and env: "env = alert_event sur j plate (new_uuid sur 0) veh" by blast
  from row_seen_SomeD [OF match [unfolded match_vehicle_def]] env
  have veh: "veh \<in> set (vehicles (w_db v))" "v_tenant veh = env_tenant env" by (simp_all add: alert_event_def)
  define p where "p = \<lparr>aap_scan_id = new_uuid sur 0, aap_plate = plate, aap_vehicle_id = v_id veh,
      aap_is_stolen = v_is_stolen veh, aap_is_seized = v_is_seized veh, aap_is_wanted = v_is_wanted veh\<rparr>"
  let ?n = "w_seq u ''audit_alerts'' + 1"
  define r where "r = new_alert sur' ?n (env_tenant env) AlertKind ''vehicle'' (v_id veh) (date_of (db_now sur'))
      (Some (severity_of (length (alert_flags p)))) (FlaggedVehicle (aap_scan_id p) (aap_plate p) (alert_flags p))"
  let ?u = "u\<lparr>w_seq := (w_seq u)(''audit_alerts'' := ?n)\<rparr>"
  have "handle_alert BypassesRls sur' env u = (exec_job (insert_alert BypassRls r) :: unit job) ?u"
    using severity_flags [OF flagged, of "new_uuid sur 0" plate "v_id veh"]
    by (simp add: handle_alert_def env alert_event_def p_def r_def bind_def nextval_def Let_def)
  moreover from assms(8) have fresh: "\<forall>x\<in>set (audit_alerts (w_db u)). aal_id x \<noteq> ?n" by (fastforce simp: alerts_numbered_def)
  obtain d where d: "insert_alert BypassRls r (w_db ?u) = Inr ((), d)" and raised: "raised (alert_key r) d"
  proof (cases "list_ex (\<lambda>old. alert_clash old r) (audit_alerts (w_db u))")
    case True
    moreover from True fresh have "raised (alert_key r) (w_db u)"
      by (fastforce simp: list_ex_iff alert_clash_def same_alert_def raised_def alert_key_def r_def new_alert_def)
    ultimately show thesis by (intro that [of "w_db u"]) (simp_all add: insert_alert_def)
  next
    case False
    with assms(9) show thesis
      by (intro that [of "(w_db u)\<lparr>audit_alerts := audit_alerts (w_db u) @ [r]\<rparr>"])
        (simp_all add: insert_alert_def raised_def r_def new_alert_def)
  qed
  ultimately have run: "handle_alert BypassesRls sur' env u = (Inr (), ?u\<lparr>w_db := d\<rparr>)"
    using exec_or_ok [of ?u "insert_alert BypassRls r" "()" d, OF _ d] assms(7) by simp
  from raised obtain x where "x \<in> set (audit_alerts d)" "aal_resolved_at x = None" "alert_key x = alert_key r" by (auto simp: raised_def)
  then have "x \<in> set (audit_alerts (w_db (?u\<lparr>w_db := d\<rparr>)))" "aal_resolved_at x = None" "aal_tenant x = env_tenant env" "aal_kind x = AlertKind"
    "aal_subject_id x = Some (v_id veh)" "aal_day x = date_of (db_now sur')" by (simp_all add: alert_key_def r_def new_alert_def)
  with run veh flagged show ?thesis by blast
qed

lemma demo_scan_alert:
  "\<exists>ob env. ob \<in> set (outbox (w_db (snd demo_scan))) \<and> ob_body ob = Some env \<and> env_type env = TypeAnprAlert \<and> env_tenant env = ''no''"
proof -
  have "list_ex (\<lambda>ob. case ob_body ob of None \<Rightarrow> False | Some env \<Rightarrow> env_type env = TypeAnprAlert \<and> env_tenant env = ''no'')
     (outbox (w_db (snd demo_scan)))" by code_simp
  then show ?thesis by (auto simp: list_ex_iff split: option.splits)
qed

theorem flagged_vehicle_is_alerted_witness:
  "\<exists>env u' x. env_type env = TypeAnprAlert
     \<and> handle_alert BypassesRls demo_toll_now env (world_of (empty_db\<lparr>tenants := [(''no'', [])]\<rparr>)) = (Inr (), u')
     \<and> x \<in> set (audit_alerts (w_db u')) \<and> aal_subject_id x = Some 8 \<and> aal_day x = 3"
proof -
  let ?u = "world_of (empty_db\<lparr>tenants := [(''no'', [])]\<rparr>)"
  from demo_scan_alert obtain ob env where ob: "ob \<in> set (outbox (w_db (snd demo_scan)))" "ob_body ob = Some env"
    "env_type env = TypeAnprAlert" "env_tenant env = ''no''" by blast
  have run: "anpr_tick demo_anpr demo_toll_now demo_toll = (fst demo_scan, snd demo_scan)" by (simp add: demo_scan_def)
  have u: "ob \<notin> set (outbox (w_db demo_toll))" "healthy ?u" "alerts_numbered ?u" "map_of (tenants (w_db ?u)) (env_tenant env) \<noteq> None"
    by (simp_all add: demo_toll_def world_of_def empty_db_def healthy_def alerts_numbered_def ob)
  from flagged_vehicle_is_alerted [OF run demo_scan_facts(5) ob(1) u(1) ob(2,3) u(2-4), of demo_toll_now]
  have "\<exists>u' veh x. handle_alert BypassesRls demo_toll_now env ?u = (Inr (), u') \<and> veh \<in> set (vehicles (w_db demo_toll))
    \<and> x \<in> set (audit_alerts (w_db u')) \<and> aal_subject_id x = Some (v_id veh) \<and> aal_day x = date_of (db_now demo_toll_now)" by blast
  moreover have "vehicles (w_db demo_toll) = [demo_car]" "v_id demo_car = 8" "date_of (db_now demo_toll_now) = 3" by code_simp+
  ultimately show ?thesis using ob(3) by auto
qed

section \<open>Resolving\<close>

text \<open>
  Resolving is exact. Without faults, resolving a number answers 204 exactly when the caller's tenant
  has an open alert of that number; that one row is closed with the actor and the resolution, and
  nothing else changes. Otherwise the answer is 404 and the database is as it was: an alert of another
  tenant, or one resolved already, is not found. In either case the list of open alerts does not show
  the number afterwards.
\<close>

theorem resolve_closes_one_open_alert:
  assumes "healthy w" and "w_snap w = None" and "alerts_unique (w_db w)"
    and "finish (resolveAlert BypassesRls sur c (Some n) body) w = (r, w')"
  shows "(if \<exists>x\<in>set (audit_alerts (w_db w)). open_alert n (c_tenant c) x
     then r = Status 204 \<and> (\<exists>xs x ys. audit_alerts (w_db w) = xs @ x # ys \<and> open_alert n (c_tenant c) x
       \<and> w_db w' = (w_db w)\<lparr>audit_alerts := xs @ close_alert sur (subject_or_nil c) (case body of None \<Rightarrow> [] | Some t \<Rightarrow> t) x # ys\<rparr>)
     else r = write_err ErrNotFound \<and> w_db w' = w_db w)
   \<and> (\<forall>a\<in>set (alerts_of BypassRls (c_tenant c) False (w_db w')). aal_id a \<noteq> n)"
proof -
  let ?d = "w_db w" and ?w = "w\<lparr>w_snap := Some (w_db w), w_save := None\<rparr>" and ?open = "open_alert n (c_tenant c)"
  define f where "f = resolve_row sur n (c_tenant c) (subject_or_nil c) (case body of None \<Rightarrow> [] | Some t \<Rightarrow> t)"
  have listed: "a \<in> set (audit_alerts d) \<and> aal_tenant a = c_tenant c \<and> aal_resolved_at a = None" if "a \<in> set (alerts_of BypassRls (c_tenant c) False d)" for a d
    using that unfolding alerts_of_def by (auto simp: table_simps dest: in_set_takeD)
  show ?thesis
  proof (cases "\<exists>x\<in>set (audit_alerts ?d). ?open x")
    case True
    then obtain x where x: "x \<in> set (audit_alerts ?d)" "?open x" by blast
    from assms(3) have "distinct (map aal_id (audit_alerts ?d))" by (simp add: alerts_unique_iff)
    from distinct_key_split [OF this x(1)] obtain xs ys where rows: "audit_alerts ?d = xs @ x # ys" by blast
    with \<open>distinct (map aal_id (audit_alerts ?d))\<close> have others: "\<forall>a\<in>set xs \<union> set ys. aal_id a \<noteq> aal_id x" by (auto simp: image_iff)
    define rows' where "rows' = xs @ close_alert sur (subject_or_nil c) (case body of None \<Rightarrow> [] | Some t \<Rightarrow> t) x # ys"
    have upd: "map (\<lambda>a. if ?open a then g a else a) zs = zs" if "set zs \<subseteq> set xs \<union> set ys" for g zs
      using others x(2) that by (intro map_idI) (auto simp: open_alert_def)
    have f: "f ?d = Inr (n, ?d\<lparr>audit_alerts := rows'\<rparr>)"
      using x upd [of xs] upd [of ys] by (auto simp: f_def resolve_row_def list_ex_iff update_rows_def rows rows'_def)
    then have f': "f (w_db ?w) = Inr (n, ?d\<lparr>audit_alerts := rows'\<rparr>)" by simp
    have "(resolve_tx BypassesRls sur c n body :: unit alerts_step) ?w = (Inr (), ?w\<lparr>w_db := ?d\<lparr>audit_alerts := rows'\<rparr>\<rparr>)"
      using assms(1)
      by (simp add: resolve_tx_def andthen_ok [OF exec_query_ok] bind_ok [where m = "exec_or (no_rows_or (write_err ErrNotFound) Internal) f", OF exec_or_ok [of ?w f n "?d\<lparr>audit_alerts := rows'\<rparr>", OF _ f']] ret_def flip: f_def)
    from in_tx_ok [where k = Internal and body = "resolve_tx BypassesRls sur c n body", OF assms(1,2) this] assms(1,4) have "r = Status 204" "w_db w' = ?d\<lparr>audit_alerts := rows'\<rparr>"
      by (auto simp: resolveAlert_def andthen_def bind_def finish_def ret_def)
    moreover from this have "aal_id a \<noteq> n" if "a \<in> set (alerts_of BypassRls (c_tenant c) False (w_db w'))" for a
      using listed [OF that] others x(2) by (auto simp: rows'_def open_alert_def close_alert_def)
    ultimately have "r = Status 204 \<and> (\<exists>xs x ys. audit_alerts ?d = xs @ x # ys \<and> ?open x
       \<and> w_db w' = ?d\<lparr>audit_alerts := xs @ close_alert sur (subject_or_nil c) (case body of None \<Rightarrow> [] | Some t \<Rightarrow> t) x # ys\<rparr>)
       \<and> (\<forall>a\<in>set (alerts_of BypassRls (c_tenant c) False (w_db w')). aal_id a \<noteq> n)"
      using rows x(2) unfolding rows'_def by blast
    with True show ?thesis by (simp only: if_True) blast
  next
    case False
    then have f: "f ?d = Inl NoRows" by (auto simp: f_def resolve_row_def list_ex_iff)
    have "(resolve_tx BypassesRls sur c n body :: unit alerts_step) ?w = (Inl (write_err ErrNotFound), ?w)"
      using assms(1) f
      by (cases w) (simp add: resolve_tx_def andthen_def query_def ret_def bind_def exec_or_def exec_try_def Let_def healthy_def
          no_rows_or_def stop_def flip: f_def)
    from in_tx_stopped [where k = Internal and body = "resolve_tx BypassesRls sur c n body" and d = ?d, OF assms(1,2) this] assms(4)
    have "r = write_err ErrNotFound" "w_db w' = ?d" by (auto simp: resolveAlert_def andthen_def bind_def finish_def)
    moreover from this False have "aal_id a \<noteq> n" if "a \<in> set (alerts_of BypassRls (c_tenant c) False (w_db w'))" for a
      using listed [OF that] by (auto simp: open_alert_def)
    ultimately show ?thesis using False by simp
  qed
qed

definition demo_auditor :: "string \<Rightarrow> claims" where
  "demo_auditor ten = \<lparr>c_tenant = ten, c_role = ''admin'', c_permissions = [], c_device = [], c_subject = Some 1,
     c_issued_at = 0, c_expires_at = 0, c_jti = None\<rparr>"

theorem resolve_closes_one_open_alert_witness:
  "fst (finish (resolveAlert BypassesRls (demo_at_noon 22) (demo_auditor ''no'') (Some 1) (Some ''ok'')) (snd demo_swept)) = Status 204
   \<and> fst (finish (resolveAlert BypassesRls (demo_at_noon 22) (demo_auditor ''se'') (Some 1) None) (snd demo_swept)) = write_err ErrNotFound"
proof -
  let ?w = "snd demo_swept"
  have w: "healthy ?w" "w_snap ?w = None" by code_simp+
  from demo_swept_facts(3) obtain x where rows: "audit_alerts (w_db ?w) = [x]" by (cases "audit_alerts (w_db ?w)") auto
  then have u: "alerts_unique (w_db ?w)" by (simp add: alerts_unique_def unique_by_def)
  have "list_ex (open_alert 1 ''no'') (audit_alerts (w_db ?w))" "\<not> list_ex (open_alert 1 ''se'') (audit_alerts (w_db ?w))" by code_simp+
  moreover have "c_tenant (demo_auditor t) = t" for t by (simp add: demo_auditor_def)
  ultimately show ?thesis
    using resolve_closes_one_open_alert [OF w u prod.collapse [symmetric], where sur = "demo_at_noon 22" and c = "demo_auditor ''no''" and n = 1 and body = "Some ''ok''"]
      resolve_closes_one_open_alert [OF w u prod.collapse [symmetric], where sur = "demo_at_noon 22" and c = "demo_auditor ''se''" and n = 1 and body = None]
    by (simp add: list_ex_iff)
qed

end
