(* ===== verification/AuditMux.thy ===== *)
theory AuditMux
  imports AuditLog AlertLife
begin

text \<open>
  The HTTP surface of the audit service (\<open>New\<close> in \<open>services/audit/internal/api/api.go\<close>): the routes of
  the log, of the officers' statistics and of the alerts behind one multiplexer. The log's routes are
  registered without the token middleware.
\<close>

section \<open>Routes\<close>

datatype audit_answer = OfLog audit_body | OfStats stats_body | OfAlerts alerts_body

type_synonym audit_service_handler = "(audit_answer, audit_answer response) handler"

text \<open>The handler of one group of routes as a handler of the service.\<close>

definition answers :: "('b \<Rightarrow> audit_answer) \<Rightarrow> ('b, 'b response) handler \<Rightarrow> audit_service_handler" where
  "answers f m w = (case m w of (res, w') \<Rightarrow> (map_sum (map_response f) (map_response f) res, w'))"

datatype audit_route =
    PostEvent audit_request "audit_ev option"
  | GetEvents audit_request string
  | GetVerify string
  | GetStats
  | PostRebuild
  | GetMyStats
  | GetAlerts string
  | PostResolve "int option" "string option"

record audit_api =
  ua_pool :: dbrole
  ua_lib :: audit_lib
  ua_rank :: "float32 \<Rightarrow> int"
  ua_rollup :: "unit job option"

fun audit_permission :: "audit_route \<Rightarrow> string option" where
  "audit_permission (PostEvent _ _) = None"
| "audit_permission (GetEvents _ _) = None"
| "audit_permission (GetVerify _) = None"
| "audit_permission GetStats = Some ''audit:read''"
| "audit_permission PostRebuild = Some ''audit:read''"
| "audit_permission GetMyStats = Some ''fines:create''"
| "audit_permission (GetAlerts _) = Some ''audit:read''"
| "audit_permission (PostResolve _ _) = Some ''audit:read''"

fun log_serve :: "audit_api \<Rightarrow> surroundings \<Rightarrow> audit_route \<Rightarrow> audit_service_handler" where
  "log_serve a sur (PostEvent req body) = answers OfLog (audit_write (ua_pool a) (ua_lib a) sur req body)"
| "log_serve a sur (GetEvents req ten) = answers OfLog (audit_list (ua_pool a) req ten)"
| "log_serve a sur (GetVerify ten) = answers OfLog (audit_verify (ua_pool a) (ua_lib a) ten)"
| "log_serve a sur _ = stop (Status 404)"

fun guarded_serve :: "audit_api \<Rightarrow> surroundings \<Rightarrow> claims \<Rightarrow> audit_route \<Rightarrow> audit_service_handler" where
  "guarded_serve a sur c GetStats = answers OfStats (officerStats (ua_rank a) (ua_pool a) sur c)"
| "guarded_serve a sur c PostRebuild = answers OfStats (rebuildStats (ua_rollup a))"
| "guarded_serve a sur c GetMyStats = answers OfStats (myOfficerStats (ua_pool a) sur c)"
| "guarded_serve a sur c (GetAlerts incl) = answers OfAlerts (listAlerts (ua_pool a) c incl)"
| "guarded_serve a sur c (PostResolve ident body) = answers OfAlerts (resolveAlert (ua_pool a) sur c ident body)"
| "guarded_serve a sur c _ = stop (Status 404)"

definition audit_mux :: "jwt_parser \<Rightarrow> issuer \<Rightarrow> audit_api \<Rightarrow> surroundings \<Rightarrow> headers \<Rightarrow> audit_route \<Rightarrow> audit_service_handler" where
  "audit_mux jwt i a sur h route =
     (case audit_permission route of
        None \<Rightarrow> log_serve a sur route
      | Some p \<Rightarrow> Middleware jwt i h (\<lambda>c. RequirePermission p (Some c) (guarded_serve a sur c route)))"

section \<open>Who is served\<close>

text \<open>Statistics and alerts: without an accepted token that holds the permission of the route, nothing happens.\<close>

lemma audit_mux_guards:
  assumes "audit_permission route = Some p" and "\<not> (\<exists>c. admitted jwt i h c \<and> p \<in> set (c_permissions c))"
  shows "\<exists>r. r \<in> {write_err ErrUnauthorized, write_err ErrForbidden} \<and> audit_mux jwt i a sur h route w = (Inl r, w)"
proof (cases rule: Middleware_cases [of jwt i h "\<lambda>c. RequirePermission p (Some c) (guarded_serve a sur c route)"])
  case (denied r)
  with assms(1) show ?thesis by (auto simp: audit_mux_def stop_def)
next
  case (admitted c)
  show ?thesis
  proof (cases rule: RequirePermission_cases [of p "Some c" "guarded_serve a sur c route"])
    case (denied r)
    with admitted assms(1) show ?thesis by (auto simp: audit_mux_def stop_def)
  next
    case (granted c')
    with admitted assms(2) show ?thesis by auto
  qed
qed

text \<open>The log: no header changes the answer, a caller without any token appends to and reads the log of any tenant.\<close>

lemma log_routes_are_open:
  assumes "audit_permission route = None"
  shows "audit_mux jwt i a sur h route = log_serve a sur route"
  using assms by (simp add: audit_mux_def)

section \<open>What the other routes leave of the log\<close>

lemma keeps_answers: "keeps R m \<Longrightarrow> keeps R (answers f m)"
  unfolding keeps_def answers_def by (metis (no_types, lifting) prod.case_eq_if snd_conv)

lemma fixed_resolve_row: "fixed audit_events (resolve_row sur n ten actor resolution)"
  by (auto simp: fixed_def resolve_row_def split: if_splits)

lemma fixed_rls_off_resolve: "fixed audit_events (rls_off role (resolve_row sur n ten actor resolution))"
  by (intro fixed_rls_off fixed_resolve_row)

lemma pin_guarded:
  assumes "\<And>run. ua_rollup a = Some run \<Longrightarrow> keeps (pinned audit_events) run"
  shows "keeps (pinned audit_events) (guarded_serve a sur c route)"
proof -
  have resolve: "keeps (pinned audit_events) (resolveAlert role sur c n body)" for role n body
    unfolding resolveAlert_def resolve_tx_def by (intro pin_steps fixed_rls_off_resolve frame_intros)
  have rebuild: "keeps (pinned audit_events) (rebuildStats (ua_rollup a))"
    using assms by (cases "ua_rollup a") (auto simp: rebuildStats_def intro!: pin_steps)
  show ?thesis
    by (cases route)
      (auto intro!: keeps_answers resolve rebuild pin_steps fixed_query
        simp: officerStats_def myOfficerStats_def listAlerts_def subject_param_def fixed_def Let_def split: option.split)
qed

text \<open>Apart from posting an event no route writes the log, given that the job behind a rebuild does not.\<close>

lemma log_is_kept:
  assumes "finish (audit_mux jwt i a sur h route) w = (r, w')" and "w_snap w = None" and "\<nexists>req body. route = PostEvent req body"
    and "\<And>run. ua_rollup a = Some run \<Longrightarrow> keeps (pinned audit_events) run"
  shows "audit_events (w_db w') = audit_events (w_db w)"
proof (rule pinned_finish [OF _ assms(1,2)])
  show "keeps (pinned audit_events) (audit_mux jwt i a sur h route)"
  proof (cases "audit_permission route")
    case None
    with assms(3) show ?thesis
      by (cases route) (auto simp: audit_mux_def audit_list_def audit_verify_def Let_def intro!: keeps_answers pin_steps frame_intros)
  next
    case (Some p)
    with pin_guarded [OF assms(4)] show ?thesis
      by (auto simp: audit_mux_def Middleware_def RequirePermission_def Let_def intro!: pin_steps split: option.split)
  qed
qed

end
