(* ===== verification/Connectors.thy ===== *)
theory Connectors
  imports Queues
begin

text \<open>
  What every integration with an outside provider uses (\<open>packages/go-common/connectors\<close>): the router
  that picks the provider of a tenant (\<open>router.go\<close>), the health record of a provider (\<open>health.go\<close>) and
  the retry queue (\<open>retry.go\<close>). Their statements run on a connection of the pool without a tenant;
  \<open>SET LOCAL\<close> outside a transaction has no effect. JSON details and error texts are not modelled.
\<close>

section \<open>The router\<close>

record 'p router =
  cr_default :: "'p option"
  cr_byTenant :: "string \<rightharpoonup> 'p"

definition NewRouter :: "'p router" where
  "NewRouter = \<lparr>cr_default = None, cr_byTenant = (\<lambda>_. None)\<rparr>"

definition SetDefault :: "'p \<Rightarrow> 'p router \<Rightarrow> 'p router" where
  "SetDefault p r = r\<lparr>cr_default := Some p\<rparr>"

definition Bind :: "string \<Rightarrow> 'p \<Rightarrow> 'p router \<Rightarrow> 'p router" where
  "Bind ten p r = r\<lparr>cr_byTenant := (cr_byTenant r)(ten \<mapsto> p)\<rparr>"

definition For :: "'p router \<Rightarrow> string \<Rightarrow> goerr + 'p" where
  "For r ten =
     (case cr_byTenant r ten of
        Some p \<Rightarrow> Inr p
      | None \<Rightarrow> (case cr_default r of Some p \<Rightarrow> Inr p | None \<Rightarrow> Inl PlainError))"

lemma For_Bind: "For (Bind t p r) ten = (if ten = t then Inr p else For r ten)"
  by (simp add: For_def Bind_def split: option.split)

lemma For_SetDefault: "For (SetDefault p r) ten = (case cr_byTenant r ten of Some q \<Rightarrow> Inr q | None \<Rightarrow> Inr p)"
  by (simp add: For_def SetDefault_def split: option.split)

lemma For_NewRouter: "For NewRouter ten = Inl PlainError"
  by (simp add: For_def NewRouter_def)

section \<open>Health of a provider\<close>

record adapter_info =
  ai_module :: string
  ai_provider :: string
  ai_region :: string

definition nullStr :: "string \<Rightarrow> string option" where
  "nullStr s = (if s = [] then None else Some s)"

definition same_provider :: "string \<Rightarrow> adapter_info \<Rightarrow> health_row \<Rightarrow> bool" where
  "same_provider ten i r \<longleftrightarrow> ph_tenant r = ten \<and> ph_module r = ai_module i \<and> ph_provider r = ai_provider i"

text \<open>\<open>INSERT \<dots> ON CONFLICT (tenant_id, module, provider) DO UPDATE\<close>.\<close>

definition upsert_health :: "session \<Rightarrow> string \<Rightarrow> adapter_info \<Rightarrow> health_row \<Rightarrow> (health_row \<Rightarrow> health_row) \<Rightarrow> db \<Rightarrow> sqlerr + unit \<times> db" where
  "upsert_health s ten i new upd d =
     (if \<not> sees s ten then Inl RlsViolation
      else if list_ex (same_provider ten i) (provider_health d)
      then Inr ((), d\<lparr>provider_health := update_rows ph_tenant s (same_provider ten i) upd (provider_health d)\<rparr>)
      else Inr ((), d\<lparr>provider_health := provider_health d @ [new]\<rparr>))"

definition health_ok_row :: "time \<Rightarrow> string \<Rightarrow> adapter_info \<Rightarrow> health_row" where
  "health_ok_row now ten i =
     \<lparr>ph_tenant = ten, ph_module = ai_module i, ph_provider = ai_provider i, ph_region = nullStr (ai_region i),
      ph_last_ok_at = Some now, ph_last_fail_at = None, ph_fail_streak = 0, ph_state = ''ok'', ph_updated_at = now\<rparr>"

definition health_fail_row :: "time \<Rightarrow> string \<Rightarrow> adapter_info \<Rightarrow> health_row" where
  "health_fail_row now ten i =
     \<lparr>ph_tenant = ten, ph_module = ai_module i, ph_provider = ai_provider i, ph_region = nullStr (ai_region i),
      ph_last_ok_at = None, ph_last_fail_at = Some now, ph_fail_streak = 1, ph_state = ''degraded'', ph_updated_at = now\<rparr>"

definition health_exec :: "(db \<Rightarrow> sqlerr + unit \<times> db) \<Rightarrow> (db, effect, 'r, sqlerr + unit) act" where
  "health_exec f =
     bind (exec_try (query (\<lambda>_. ()))) (\<lambda>set.
     case set of Inl e \<Rightarrow> ret (Inl e) | Inr _ \<Rightarrow> exec_try f)"

definition health_OK :: "dbrole \<Rightarrow> surroundings \<Rightarrow> string \<Rightarrow> adapter_info \<Rightarrow> (db, effect, 'r, sqlerr + unit) act" where
  "health_OK role sur ten i =
     health_exec (upsert_health (session_of role []) ten i (health_ok_row (db_now sur) ten i)
       (\<lambda>r. r\<lparr>ph_last_ok_at := Some (db_now sur), ph_fail_streak := 0, ph_state := ''ok'', ph_updated_at := db_now sur\<rparr>))"

definition health_Fail :: "dbrole \<Rightarrow> surroundings \<Rightarrow> string \<Rightarrow> adapter_info \<Rightarrow> (db, effect, 'r, sqlerr + unit) act" where
  "health_Fail role sur ten i =
     health_exec (upsert_health (session_of role []) ten i (health_fail_row (db_now sur) ten i)
       (\<lambda>r. r\<lparr>ph_last_fail_at := Some (db_now sur), ph_fail_streak := ph_fail_streak r + 1,
              ph_state := (if ph_fail_streak r + 1 \<ge> 5 then ''down'' else ''degraded''), ph_updated_at := db_now sur\<rparr>))"

text \<open>State, the two times (\<open>None\<close> stands for the zero time) and the streak.\<close>

definition health_Snapshot :: "dbrole \<Rightarrow> string \<Rightarrow> adapter_info \<Rightarrow> (db, effect, 'r, sqlerr + string \<times> time option \<times> time option \<times> int) act" where
  "health_Snapshot role ten i =
     bind (exec_try (query (\<lambda>_. ()))) (\<lambda>set.
     case set of
       Inl e \<Rightarrow> ret (Inl e)
     | Inr _ \<Rightarrow> exec_try (query_row (\<lambda>d.
         map_option (\<lambda>r. (ph_state r, ph_last_ok_at r, ph_last_fail_at r, ph_fail_streak r))
           (row_seen ph_tenant (session_of role []) (same_provider ten i) (provider_health d)))))"

section \<open>The retry queue\<close>

definition insert_retry :: "session \<Rightarrow> retry_row \<Rightarrow> db \<Rightarrow> sqlerr + uuid \<times> db" where
  "insert_retry s r d =
     (if map_of (tenants d) (rj_tenant r) = None then Inl ForeignKeyViolation
      else case insert_row rj_tenant s (\<lambda>old new. rj_id old = rj_id new) r (retry_jobs d) of
             Inl e \<Rightarrow> Inl e
           | Inr rows \<Rightarrow> Inr (rj_id r, d\<lparr>retry_jobs := rows\<rparr>))"

definition retry_row_of :: "surroundings \<Rightarrow> uuid \<Rightarrow> string \<Rightarrow> string \<Rightarrow> string \<Rightarrow> (uuid \<times> string) option \<Rightarrow> int \<Rightarrow> retry_row" where
  "retry_row_of sur jid ten module kind payload maxAttempts =
     \<lparr>rj_id = jid, rj_tenant = ten, rj_module = module, rj_kind = kind, rj_payload = payload, rj_status = RQueued,
      rj_attempts = 0, rj_max_attempts = (if maxAttempts \<le> 0 then 5 else maxAttempts), rj_next_run_at = db_now sur,
      rj_failed_with = None, rj_updated_at = db_now sur\<rparr>"

definition Enqueue :: "dbrole \<Rightarrow> surroundings \<Rightarrow> uuid \<Rightarrow> string \<Rightarrow> string \<Rightarrow> string \<Rightarrow> (uuid \<times> string) option \<Rightarrow> int
    \<Rightarrow> (db, effect, 'r, sqlerr + uuid) act" where
  "Enqueue role sur jid ten module kind payload maxAttempts =
     bind (exec_try (query (\<lambda>_. ()))) (\<lambda>set.
     case set of
       Inl e \<Rightarrow> ret (Inl e)
     | Inr _ \<Rightarrow> exec_try (insert_retry (session_of role []) (retry_row_of sur jid ten module kind payload maxAttempts)))"

definition due_job :: "session \<Rightarrow> string \<Rightarrow> time \<Rightarrow> db \<Rightarrow> retry_row option" where
  "due_job s module now d =
     (case sort_key rj_next_run_at (filter (\<lambda>j. rj_status j = RQueued \<and> rj_module j = module \<and> rj_next_run_at j \<le> now)
             (rows_seen rj_tenant s (retry_jobs d))) of
        [] \<Rightarrow> None | j # _ \<Rightarrow> Some j)"

definition update_retry :: "session \<Rightarrow> uuid \<Rightarrow> (retry_row \<Rightarrow> retry_row) \<Rightarrow> db \<Rightarrow> db" where
  "update_retry s jid f d = d\<lparr>retry_jobs := update_rows rj_tenant s (\<lambda>j. rj_id j = jid) f (retry_jobs d)\<rparr>"

definition mark_running :: "time \<Rightarrow> retry_row \<Rightarrow> retry_row" where
  "mark_running now j = j\<lparr>rj_status := RRunning, rj_updated_at := now\<rparr>"

text \<open>\<open>Claim\<close> returns a job, no job (\<open>stop None\<close>) or an error (\<open>stop (Some e)\<close>).\<close>

type_synonym 'a claim_step = "(db, effect, goerr option, 'a) act"

definition Claim :: "dbrole \<Rightarrow> surroundings \<Rightarrow> string \<Rightarrow> retry_row claim_step" where
  "Claim role sur module =
     andthen (exec_or (\<lambda>_. Some PlainError) (query (\<lambda>_. ()))) (
     in_tx (Some PlainError) (
       bind (exec_or (no_rows_or None (Some PlainError)) (query_row (due_job (session_of role []) module (db_now sur)))) (\<lambda>j.
       andthen (exec_or (\<lambda>_. Some PlainError) (change (update_retry (session_of role []) (rj_id j) (mark_running (db_now sur))))) (
       ret j))))"

definition backoffFor :: "int \<Rightarrow> time" where
  "backoffFor attempts =
     (if attempts = 1 then seconds 30
      else if attempts = 2 then minutes 2
      else if attempts = 3 then minutes 8
      else if attempts = 4 then minutes 30
      else hours 2)"

definition mark_done :: "time \<Rightarrow> retry_row \<Rightarrow> retry_row" where
  "mark_done now j = j\<lparr>rj_status := RDone, rj_failed_with := None, rj_updated_at := now\<rparr>"

definition reschedule :: "time \<Rightarrow> int \<Rightarrow> int \<Rightarrow> goerr \<Rightarrow> retry_row \<Rightarrow> retry_row" where
  "reschedule now attempts mx e j =
     j\<lparr>rj_status := (if attempts \<ge> mx then RDeadLetter else RQueued), rj_attempts := attempts,
       rj_next_run_at := now + backoffFor attempts, rj_failed_with := Some e, rj_updated_at := now\<rparr>"

definition attempts_of :: "session \<Rightarrow> uuid \<Rightarrow> db \<Rightarrow> (int \<times> int) option" where
  "attempts_of s jid d = map_option (\<lambda>j. (rj_attempts j, rj_max_attempts j)) (row_seen rj_tenant s (\<lambda>j. rj_id j = jid) (retry_jobs d))"

definition Done :: "dbrole \<Rightarrow> surroundings \<Rightarrow> uuid \<Rightarrow> goerr option \<Rightarrow> (db, effect, goerr, unit) act" where
  "Done role sur jid runErr =
     andthen (exec_job (query (\<lambda>_. ()))) (
     case runErr of
       None \<Rightarrow> exec_job (change (update_retry (session_of role []) jid (mark_done (db_now sur))))
     | Some e \<Rightarrow>
         bind (exec_job (query_row (attempts_of (session_of role []) jid))) (\<lambda>(attempts, mx).
         exec_job (change (update_retry (session_of role []) jid (reschedule (db_now sur) (attempts + 1) mx e)))))"

section \<open>Health follows the reports\<close>

text \<open>
  Reading the reports of a provider from the last one back: the streak is the number of failures
  since the last success, and the state follows from it.
\<close>

definition report :: "dbrole \<Rightarrow> string \<Rightarrow> adapter_info \<Rightarrow> surroundings \<times> bool \<Rightarrow> unit job" where
  "report role ten i rep =
     (case rep of (sur, ok) \<Rightarrow> bind (if ok then health_OK role sur ten i else health_Fail role sur ten i) (\<lambda>_. ret ()))"

definition streak_of :: "bool list \<Rightarrow> int" where
  "streak_of oks = int (length (takeWhile Not (rev oks)))"

definition state_of :: "int \<Rightarrow> string" where
  "state_of streak = (if streak = 0 then ''ok'' else if streak \<ge> 5 then ''down'' else ''degraded'')"

definition last_time :: "bool \<Rightarrow> (surroundings \<times> bool) list \<Rightarrow> time option" where
  "last_time b reps = (case filter (\<lambda>rep. snd rep = b) (rev reps) of [] \<Rightarrow> None | rep # _ \<Rightarrow> Some (db_now (fst rep)))"

lemma streak_of_snoc [simp]: "streak_of (oks @ [ok]) = (if ok then 0 else streak_of oks + 1)"
  by (simp add: streak_of_def)

lemma last_time_snoc [simp]: "last_time b (reps @ [(sur, ok)]) = (if ok = b then Some (db_now sur) else last_time b reps)"
  by (simp add: last_time_def)

text \<open>The row of a provider stands for the reports so far.\<close>

definition reflects :: "string \<Rightarrow> adapter_info \<Rightarrow> (surroundings \<times> bool) list \<Rightarrow> db \<Rightarrow> bool" where
  "reflects ten i reps d \<longleftrightarrow>
     (case find (same_provider ten i) (provider_health d) of
        None \<Rightarrow> reps = []
      | Some r \<Rightarrow> reps \<noteq> [] \<and> ph_fail_streak r = streak_of (map snd reps) \<and> ph_state r = state_of (ph_fail_streak r)
          \<and> ph_last_ok_at r = last_time True reps \<and> ph_last_fail_at r = last_time False reps)"

lemma find_update_same:
  assumes "\<And>r. same_provider ten i r \<Longrightarrow> same_provider ten i (f r)"
  shows "find (same_provider ten i) (update_rows ph_tenant BypassRls (same_provider ten i) f rows)
    = map_option f (find (same_provider ten i) rows)"
  by (induction rows) (use assms in \<open>auto simp: update_rows_def\<close>)

lemma find_snoc: "find P (xs @ [x]) = (case find P xs of None \<Rightarrow> (if P x then Some x else None) | Some y \<Rightarrow> Some y)"
  by (induction xs) auto

lemma streak_nonneg: "0 \<le> streak_of oks"
  by (simp add: streak_of_def)

lemma list_ex_find: "list_ex P xs \<longleftrightarrow> find P xs \<noteq> None"
  by (induction xs) auto

lemma same_provider_simps [simp]:
  "same_provider ten i (r\<lparr>ph_last_ok_at := a\<rparr>) = same_provider ten i r"
  "same_provider ten i (r\<lparr>ph_last_fail_at := a\<rparr>) = same_provider ten i r"
  "same_provider ten i (r\<lparr>ph_fail_streak := n\<rparr>) = same_provider ten i r"
  "same_provider ten i (r\<lparr>ph_state := st\<rparr>) = same_provider ten i r"
  "same_provider ten i (r\<lparr>ph_updated_at := t\<rparr>) = same_provider ten i r"
  "same_provider ten i (health_ok_row now ten i)" "same_provider ten i (health_fail_row now ten i)"
  by (simp_all add: same_provider_def health_ok_row_def health_fail_row_def)

lemma reflects_reported:
  assumes "reflects ten i reps d"
  obtains d' where
    "upsert_health BypassRls ten i (if ok then health_ok_row (db_now sur) ten i else health_fail_row (db_now sur) ten i)
       (if ok then (\<lambda>r. r\<lparr>ph_last_ok_at := Some (db_now sur), ph_fail_streak := 0, ph_state := ''ok'', ph_updated_at := db_now sur\<rparr>)
        else (\<lambda>r. r\<lparr>ph_last_fail_at := Some (db_now sur), ph_fail_streak := ph_fail_streak r + 1,
              ph_state := (if ph_fail_streak r + 1 \<ge> 5 then ''down'' else ''degraded''), ph_updated_at := db_now sur\<rparr>)) d = Inr ((), d')"
    and "reflects ten i (reps @ [(sur, ok)]) d'"
proof (cases "find (same_provider ten i) (provider_health d)")
  case None
  with assms have reps: "reps = []" by (simp add: reflects_def)
  show thesis
    by (rule that, simp add: upsert_health_def list_ex_find None)
      (simp add: None reflects_def find_snoc reps state_of_def streak_of_def last_time_def health_ok_row_def health_fail_row_def
        same_provider_def)
next
  case (Some r)
  with assms have r: "ph_fail_streak r = streak_of (map snd reps)" "ph_last_ok_at r = last_time True reps"
    "ph_last_fail_at r = last_time False reps" by (simp_all add: reflects_def)
  show thesis
    by (rule that, simp add: upsert_health_def list_ex_find Some)
      (use streak_nonneg [of "map snd reps"] in \<open>simp add: Some reflects_def find_update_same r state_of_def\<close>)
qed

lemma healthy_reports:
  assumes "healthy v" and "reflects ten i reps (w_db v)"
  shows "\<exists>d'. for_each (report BypassesRls ten i) later v = (Inr (), v\<lparr>w_db := d'\<rparr>) \<and> reflects ten i (reps @ later) d'"
  using assms
proof (induction later arbitrary: v reps)
  case Nil
  then show ?case by (intro exI [of _ "w_db v"]) (simp add: ret_def)
next
  case (Cons rep later)
  obtain sur ok where rep: "rep = (sur, ok)" by (cases rep)
  from reflects_reported [OF Cons.prems(2), of ok sur] obtain d1 where
    up: "upsert_health BypassRls ten i (if ok then health_ok_row (db_now sur) ten i else health_fail_row (db_now sur) ten i)
       (if ok then (\<lambda>r. r\<lparr>ph_last_ok_at := Some (db_now sur), ph_fail_streak := 0, ph_state := ''ok'', ph_updated_at := db_now sur\<rparr>)
        else (\<lambda>r. r\<lparr>ph_last_fail_at := Some (db_now sur), ph_fail_streak := ph_fail_streak r + 1,
              ph_state := (if ph_fail_streak r + 1 \<ge> 5 then ''down'' else ''degraded''), ph_updated_at := db_now sur\<rparr>)) (w_db v) = Inr ((), d1)"
    and d1: "reflects ten i (reps @ [(sur, ok)]) d1" by blast
  have "report BypassesRls ten i rep v = (Inr (), v\<lparr>w_db := d1\<rparr>)"
    using up Cons.prems(1)
    by (cases ok) (simp_all add: rep report_def health_OK_def health_Fail_def health_exec_def bind_def exec_try_def Let_def query_def ret_def healthy_def)
  moreover have "healthy (v\<lparr>w_db := d1\<rparr>)" "reflects ten i (reps @ [(sur, ok)]) (w_db (v\<lparr>w_db := d1\<rparr>))"
    using Cons.prems(1) d1 by (simp_all add: healthy_def)
  from Cons.IH [OF this] have
    "\<exists>d'. for_each (report BypassesRls ten i) later (v\<lparr>w_db := d1\<rparr>) = (Inr (), v\<lparr>w_db := d'\<rparr>) \<and> reflects ten i (reps @ rep # later) d'"
    by (simp add: rep)
  ultimately show ?case by (auto simp: andthen_def bind_def)
qed

section \<open>What the queue holds\<close>

text \<open>
  A job that waits or runs has an attempt left, a dead letter has none, a job that was tried in vain
  holds the last error, and no two jobs share an id. Every operation keeps this, whatever the job
  and however it ends.
\<close>

definition job_ok :: "retry_row \<Rightarrow> bool" where
  "job_ok j \<longleftrightarrow> 0 \<le> rj_attempts j \<and> 0 < rj_max_attempts j
     \<and> (rj_status j = RQueued \<or> rj_status j = RRunning \<longrightarrow> rj_attempts j < rj_max_attempts j)
     \<and> (rj_status j = RDeadLetter \<longrightarrow> rj_max_attempts j \<le> rj_attempts j)
     \<and> (rj_status j \<noteq> RDone \<and> 0 < rj_attempts j \<longrightarrow> rj_failed_with j \<noteq> None)
     \<and> rj_status j \<noteq> RFailed"

definition retry_ok :: "db \<Rightarrow> bool" where
  "retry_ok d \<longleftrightarrow> distinct (map rj_id (retry_jobs d)) \<and> (\<forall>j\<in>set (retry_jobs d). job_ok j)"

lemma retry_ok_jobs: "retry_jobs d' = retry_jobs d \<Longrightarrow> retry_ok d' = retry_ok d"
  by (simp add: retry_ok_def)

lemma insert_retry_Inr:
  "insert_retry s r d = Inr (x, d') \<Longrightarrow> x = rj_id r \<and> d' = d\<lparr>retry_jobs := retry_jobs d @ [r]\<rparr>
     \<and> sees s (rj_tenant r) \<and> (\<forall>old\<in>set (retry_jobs d). rj_id old \<noteq> rj_id r)"
  unfolding insert_retry_def by (auto simp: insert_row_Inr split: if_splits sum.splits)

lemma job_ok_row_of: "job_ok (retry_row_of sur jid ten module kind payload n)"
  by (simp add: job_ok_def retry_row_of_def)

lemma preserved_insert_retry: "preserved retry_ok (insert_retry s (retry_row_of sur jid ten module kind payload n))"
  by (fastforce simp: preserved_def retry_ok_def job_ok_row_of dest!: insert_retry_Inr)

text \<open>An update by id touches the rows of that id, which an invariant of the rows survives.\<close>

lemma retry_ok_update:
  assumes "retry_ok d" and "\<And>j. j \<in> set (retry_jobs d) \<Longrightarrow> rj_id j = jid \<Longrightarrow> job_ok j \<Longrightarrow> job_ok (f j) \<and> rj_id (f j) = rj_id j"
  shows "retry_ok (update_retry s jid f d)"
proof -
  have "map rj_id (update_rows rj_tenant s (\<lambda>j. rj_id j = jid) f (retry_jobs d)) = map rj_id (retry_jobs d)"
    using assms by (auto simp: update_rows_def retry_ok_def)
  with assms show ?thesis
    by (auto simp: retry_ok_def update_retry_def elim!: update_rowsE)
qed

lemma job_ok_marks:
  "job_ok j \<Longrightarrow> job_ok (mark_done now j) \<and> rj_id (mark_done now j) = rj_id j"
  "rj_status j = RQueued \<Longrightarrow> job_ok j \<Longrightarrow> job_ok (mark_running now j) \<and> rj_id (mark_running now j) = rj_id j"
  by (simp_all add: job_ok_def mark_done_def mark_running_def)

lemma job_ok_reschedule:
  assumes "0 \<le> rj_attempts j" and "0 < rj_max_attempts j"
  shows "job_ok (reschedule now (rj_attempts j + 1) (rj_max_attempts j) e j) \<and> rj_id (reschedule now n m e j) = rj_id j"
  using assms by (simp add: job_ok_def reschedule_def)

lemma due_jobD:
  assumes "due_job s module now d = Some j"
  shows "j \<in> set (retry_jobs d)" and "sees s (rj_tenant j)" and "rj_status j = RQueued" and "rj_module j = module" and "rj_next_run_at j \<le> now"
proof -
  let ?due = "filter (\<lambda>j. rj_status j = RQueued \<and> rj_module j = module \<and> rj_next_run_at j \<le> now) (rows_seen rj_tenant s (retry_jobs d))"
  from assms have "j \<in> set (sort_key rj_next_run_at ?due)"
    unfolding due_job_def by (cases "sort_key rj_next_run_at ?due") simp_all
  then show "j \<in> set (retry_jobs d)" "sees s (rj_tenant j)" "rj_status j = RQueued" "rj_module j = module" "rj_next_run_at j \<le> now"
    by (auto simp: table_simps)
qed

lemma update_retry_split:
  assumes "distinct (map rj_id (retry_jobs d))" and "j \<in> set (retry_jobs d)" and "sees s (rj_tenant j)"
  obtains xs ys where "retry_jobs d = xs @ j # ys" "\<And>f. retry_jobs (update_retry s (rj_id j) f d) = xs @ f j # ys"
    "row_seen rj_tenant s (\<lambda>r. rj_id r = rj_id j) (retry_jobs d) = Some j"
proof -
  from split_list [OF assms(2)] obtain xs ys where rows: "retry_jobs d = xs @ j # ys" by blast
  with assms(1) have "\<forall>x\<in>set xs \<union> set ys. rj_id x \<noteq> rj_id j" by (auto simp: image_iff)
  then have "retry_jobs (update_retry s (rj_id j) f d) = xs @ f j # ys" for f
    using assms(3) by (auto simp: update_retry_def update_rows_def rows intro!: map_idI)
  with rows row_seen_own [of rj_id, OF assms(1,2), where ten = rj_tenant, OF assms(3)] show thesis by (intro that)
qed

lemma tx_Claim_body:
  "keeps same_tx (bind (exec_or (no_rows_or None (Some PlainError)) (query_row (due_job s module now))) (\<lambda>j.
     andthen (exec_or (\<lambda>_. Some PlainError) (change (update_retry s (rj_id j) (mark_running now)))) (ret j)))"
  by (intro tx_steps)

text \<open>What a claim and the end of a job come to, whatever fails.\<close>

lemma Claim_outcome:
  fixes v v' :: dbworld
  assumes run: "Claim role sur module v = (res, v')" and idle: "w_snap v = None"
  shows "w_snap v' = None \<and> (case res of
      Inl _ \<Rightarrow> w_db v' = w_db v
    | Inr j \<Rightarrow> due_job (session_of role []) module (db_now sur) (w_db v) = Some j
        \<and> w_db v' = update_retry (session_of role []) (rj_id j) (mark_running (db_now sur)) (w_db v))"
proof (cases res)
  case (Inl r)
  have "atomic (Claim role sur module :: retry_row claim_step)"
    unfolding Claim_def by (rule at_andthen, intro rd_steps, rule at_in_tx, rule tx_Claim_body)
  from atomicD [OF this idle run [unfolded Inl]] Inl show ?thesis by simp
next
  case (Inr j)
  let ?s = "session_of role []"
  from run [unfolded Inr] obtain v1 where
    set: "(exec_or (\<lambda>_. Some PlainError) (query (\<lambda>_. ())) :: unit claim_step) v = (Inr (), v1)" and
    tx: "(in_tx (Some PlainError) (bind (exec_or (no_rows_or None (Some PlainError)) (query_row (due_job ?s module (db_now sur)))) (\<lambda>j.
       andthen (exec_or (\<lambda>_. Some PlainError) (change (update_retry ?s (rj_id j) (mark_running (db_now sur))))) (ret j))) :: retry_row claim_step) v1
      = (Inr j, v')"
    unfolding Claim_def by (elim andthenE) (rule that; simp)
  from keepsD [OF rd_exec_or [OF reads_query(1)] set] idle have v1: "w_db v1 = w_db v" "w_snap v1 = None" by (simp_all add: same_db_def)
  from tx obtain va vb where
    "(bind (exec_or (no_rows_or None (Some PlainError)) (query_row (due_job ?s module (db_now sur)))) (\<lambda>j.
       andthen (exec_or (\<lambda>_. Some PlainError) (change (update_retry ?s (rj_id j) (mark_running (db_now sur))))) (ret j)) :: retry_row claim_step) va
      = (Inr j, vb)" "w_db va = w_db v1" "w_db v' = w_db vb" "w_snap v' = None"
    using v1 by (elim in_txE [OF _ _ tx_Claim_body]) auto
  with Inr v1 show ?thesis
    by (auto elim!: bindE andthenE dest!: exec_query_row_db exec_change_db)
qed

lemma Done_outcome:
  fixes v v' :: dbworld
  assumes run: "Done role sur jid runErr v = (res, v')" and idle: "w_snap v = None"
  shows "w_snap v' = None \<and> (w_db v' = w_db v
    \<or> (runErr = None \<and> w_db v' = update_retry (session_of role []) jid (mark_done (db_now sur)) (w_db v))
    \<or> (\<exists>e j. runErr = Some e \<and> row_seen rj_tenant (session_of role []) (\<lambda>r. rj_id r = jid) (retry_jobs (w_db v)) = Some j
         \<and> w_db v' = update_retry (session_of role []) jid (reschedule (db_now sur) (rj_attempts j + 1) (rj_max_attempts j) e) (w_db v)))"
proof -
  let ?s = "session_of role []" and ?rest = "(case runErr of
       None \<Rightarrow> exec_job (change (update_retry (session_of role []) jid (mark_done (db_now sur))))
     | Some e \<Rightarrow>
         bind (exec_job (query_row (attempts_of (session_of role []) jid))) (\<lambda>(attempts, mx).
         exec_job (change (update_retry (session_of role []) jid (reschedule (db_now sur) (attempts + 1) mx e))))) :: unit job"
  obtain r1 v1 where set: "(exec_job (query (\<lambda>_. ())) :: unit job) v = (r1, v1)" by fastforce
  from keepsD [OF rd_exec_or [OF reads_query(1)] set] idle have v1: "w_db v1 = w_db v" "w_snap v1 = None" by (simp_all add: same_db_def)
  show ?thesis
  proof (cases r1)
    case (Inl e)
    with run set v1 show ?thesis by (auto simp: Done_def andthen_def bind_def)
  next
    case (Inr u)
    with run set have rest: "?rest v1 = (res, v')" by (simp add: Done_def andthen_def bind_def)
    show ?thesis
    proof (cases runErr)
      case None
      with rest have "(exec_job (change (update_retry ?s jid (mark_done (db_now sur)))) :: unit job) v1 = (res, v')" by simp
      then show ?thesis by (cases rule: exec_or_outcome) (use None v1 in auto)
    next
      case (Some e)
      obtain r2 v2 where row: "(exec_job (query_row (attempts_of ?s jid)) :: (int \<times> int) job) v1 = (r2, v2)" by fastforce
      from keepsD [OF rd_exec_or [OF reads_query(2)] row] v1 have v2: "w_db v2 = w_db v" "w_snap v2 = None" by (simp_all add: same_db_def)
      show ?thesis
      proof (cases r2)
        case (Inl e)
        with rest row Some v2 show ?thesis by (simp add: bind_def)
      next
        case (Inr am)
        with exec_query_row_db [OF row [unfolded Inr]] v1 obtain j where
          j: "row_seen rj_tenant ?s (\<lambda>r. rj_id r = jid) (retry_jobs (w_db v)) = Some j" "am = (rj_attempts j, rj_max_attempts j)"
          by (auto simp: attempts_of_def)
        with rest row Some Inr have
          "(exec_job (change (update_retry ?s jid (reschedule (db_now sur) (rj_attempts j + 1) (rj_max_attempts j) e))) :: unit job) v2 = (res, v')"
          by (simp add: bind_def)
        then show ?thesis by (cases rule: exec_or_outcome) (use Some j(1) v2 in auto)
      qed
    qed
  qed
qed

text \<open>Without faults a due job is taken.\<close>

lemma Claim_ok:
  assumes "healthy v" and "w_snap v = None" and "due_job (session_of role []) module (db_now sur) (w_db v) = Some j"
  shows "Claim role sur module v = (Inr j, v\<lparr>w_db := update_retry (session_of role []) (rj_id j) (mark_running (db_now sur)) (w_db v), w_save := None\<rparr>)"
proof -
  let ?s = "session_of role []" and ?d = "update_retry (session_of role []) (rj_id j) (mark_running (db_now sur)) (w_db v)"
  let ?body = "bind (exec_or (no_rows_or None (Some PlainError)) (query_row (due_job ?s module (db_now sur)))) (\<lambda>j.
       andthen (exec_or (\<lambda>_. Some PlainError) (change (update_retry ?s (rj_id j) (mark_running (db_now sur))))) (ret j)) :: retry_row claim_step"
  let ?v = "v\<lparr>w_snap := Some (w_db v), w_save := None\<rparr>"
  have "?body ?v = (Inr j, ?v\<lparr>w_db := ?d\<rparr>)"
    using assms(1,3) by (simp add: bind_ok [OF exec_query_row_ok] andthen_ok [OF exec_change_ok] ret_def)
  from in_tx_ok [where k = "Some PlainError" and body = ?body and x = j, OF assms(1,2) this] assms(1)
  have "in_tx (Some PlainError) ?body v = (Inr j, ?v\<lparr>w_db := ?d, w_snap := None, w_save := None\<rparr>)" by simp
  then show ?thesis
    using assms(2) unfolding Claim_def
    by (simp add: andthen_ok [where m = "exec_or (\<lambda>_. Some PlainError) (query (\<lambda>_. ()))" and w = v, OF exec_query_ok [OF assms(1)]])
qed

section \<open>A worker on the queue\<close>

text \<open>
  The shape the workers of the services share: claim, run, report the end. What \<open>tick\<close> is told of
  errors it logs and drops.
\<close>

type_synonym 'a drain_step = "(db, effect, unit, 'a) act"

definition drain :: "dbrole \<Rightarrow> string \<Rightarrow> (surroundings \<Rightarrow> retry_row \<Rightarrow> unit job) \<Rightarrow> surroundings \<Rightarrow> unit drain_step" where
  "drain role module run sur =
     bind (attempt (Claim role sur module)) (\<lambda>claim.
     case claim of
       Inl _ \<Rightarrow> ret ()
     | Inr j \<Rightarrow>
         bind (attempt (run sur j)) (\<lambda>res.
         bind (attempt (Done role sur (rj_id j) (case res of Inl e \<Rightarrow> Some e | Inr _ \<Rightarrow> None))) (\<lambda>_.
         ret ())))"

text \<open>A tick, with any faults, after which the queue is not what it was.\<close>

inductive retry_takes :: "(surroundings \<Rightarrow> unit drain_step) \<Rightarrow> db \<Rightarrow> db \<Rightarrow> bool" for tick where
  take: "tick sur v = (res, v') \<Longrightarrow> w_snap v = None \<Longrightarrow> retry_jobs (w_db v') \<noteq> retry_jobs (w_db v) \<Longrightarrow>
     retry_takes tick (w_db v) (w_db v')"

inductive_cases retry_takesE: "retry_takes tick d d'"

text \<open>The row a claimed job has become, and the queue around it.\<close>

definition job_went :: "time \<Rightarrow> string \<Rightarrow> retry_row \<Rightarrow> retry_row \<Rightarrow> bool" where
  "job_went now module j j' \<longleftrightarrow> rj_status j = RQueued \<and> rj_module j = module \<and> rj_next_run_at j \<le> now
     \<and> (j' = mark_running now j \<or> j' = mark_done now (mark_running now j)
        \<or> (\<exists>e. j' = reschedule now (rj_attempts j + 1) (rj_max_attempts j) e (mark_running now j)))"

lemma job_went_ok:
  assumes "job_went now module j j'" and "job_ok j"
  shows "job_ok j'" and "rj_id j' = rj_id j" and "rj_status j' = RQueued \<Longrightarrow> rj_attempts j' = rj_attempts j + 1"
    and "rj_max_attempts j' = rj_max_attempts j"
  using assms by (auto simp: job_went_def job_ok_def mark_running_def mark_done_def reschedule_def split: if_splits)

text \<open>
  The contract: \<open>tick\<close> is the shared shape around \<open>run\<close>, and \<open>run\<close> neither writes the queue nor
  leaves a transaction open.
\<close>

locale queue_worker =
  fixes role :: dbrole
    and module :: string
    and run :: "surroundings \<Rightarrow> retry_row \<Rightarrow> unit job"
    and tick :: "surroundings \<Rightarrow> unit drain_step"
  assumes tick_is: "tick sur = drain role module run sur"
    and run_keeps: "w_snap v = None \<Longrightarrow> run sur j v = (res, v') \<Longrightarrow> w_snap v' = None \<and> retry_jobs (w_db v') = retry_jobs (w_db v)"
begin

lemma claimed_outcome:
  assumes claim: "(Claim role sur module :: retry_row claim_step) v = (Inr j, v1)" and step: "tick sur v = (res, v')"
    and idle: "w_snap v = None" and ok: "retry_ok (w_db v)"
  shows "w_snap v' = None \<and> (\<exists>xs j' ys. retry_jobs (w_db v) = xs @ j # ys \<and> retry_jobs (w_db v') = xs @ j' # ys
    \<and> job_went (db_now sur) module j j' \<and> due_job (session_of role []) module (db_now sur) (w_db v) = Some j)"
proof -
  let ?s = "session_of role []"
  note claimed = Claim_outcome [OF claim idle]
  from claimed have j: "due_job ?s module (db_now sur) (w_db v) = Some j" and v1: "w_snap v1 = None"
    "w_db v1 = update_retry ?s (rj_id j) (mark_running (db_now sur)) (w_db v)" by simp_all
  note due = due_jobD [OF j]
  obtain r2 v2 where r2: "run sur j v1 = (r2, v2)" by fastforce
  obtain r3 v3 where r3: "Done role sur (rj_id j) (case r2 of Inl e \<Rightarrow> Some e | Inr _ \<Rightarrow> None) v2 = (r3, v3)" by fastforce
  from step claim r2 r3 have v': "v' = v3"
    unfolding tick_is drain_def by (auto simp: bind_def attempt_def ret_def)
  from run_keeps [OF v1(1) r2] have v2: "w_snap v2 = None" "retry_jobs (w_db v2) = retry_jobs (w_db v1)" by simp_all
  from ok have "distinct (map rj_id (retry_jobs (w_db v)))" by (simp add: retry_ok_def)
  from update_retry_split [OF this due(1,2)] obtain xs ys where rows: "retry_jobs (w_db v) = xs @ j # ys"
    and upd: "\<And>f. retry_jobs (update_retry ?s (rj_id j) f (w_db v)) = xs @ f j # ys" by blast
  let ?j = "mark_running (db_now sur) j"
  have running: "retry_jobs (w_db v2) = xs @ ?j # ys" using v2(2) v1(2) upd by simp
  with ok rows have "distinct (map rj_id (retry_jobs (w_db v2)))" by (simp add: retry_ok_def mark_running_def)
  moreover have "?j \<in> set (retry_jobs (w_db v2))" "sees ?s (rj_tenant ?j)" "rj_id ?j = rj_id j"
    using running due(2) by (simp_all add: mark_running_def)
  ultimately obtain xs2 ys2 where rows2: "retry_jobs (w_db v2) = xs2 @ ?j # ys2"
    and upd2: "\<And>f. retry_jobs (update_retry ?s (rj_id j) f (w_db v2)) = xs2 @ f ?j # ys2"
    and seen: "row_seen rj_tenant ?s (\<lambda>r. rj_id r = rj_id j) (retry_jobs (w_db v2)) = Some ?j"
    by (metis update_retry_split)
  have same: "xs2 = xs \<and> ys2 = ys"
    using \<open>distinct (map rj_id (retry_jobs (w_db v2)))\<close> running rows2
    by (metis append_Cons_eq_iff distinct_map list.set_map distinct_append not_distinct_conv_prefix distinct.simps(2) Un_iff set_append)
  from Done_outcome [OF r3 v2(1)] have "w_snap v3 = None" and
    "w_db v3 = w_db v2 \<or> (w_db v3 = update_retry ?s (rj_id j) (mark_done (db_now sur)) (w_db v2))
     \<or> (\<exists>e. w_db v3 = update_retry ?s (rj_id j) (reschedule (db_now sur) (rj_attempts j + 1) (rj_max_attempts j) e) (w_db v2))"
    by (auto simp: seen mark_running_def)
  moreover from this(2) have "\<exists>j'. retry_jobs (w_db v3) = xs @ j' # ys \<and> job_went (db_now sur) module j j'"
    using running same due by (auto simp: upd2 job_went_def)
  ultimately show ?thesis using rows v' j by blast
qed

lemma drain_outcome:
  assumes step: "tick sur v = (res, v')" and idle: "w_snap v = None" and ok: "retry_ok (w_db v)"
  shows "w_snap v' = None \<and> (retry_jobs (w_db v') = retry_jobs (w_db v)
    \<or> (\<exists>xs j j' ys. retry_jobs (w_db v) = xs @ j # ys \<and> retry_jobs (w_db v') = xs @ j' # ys \<and> job_went (db_now sur) module j j'
        \<and> due_job (session_of role []) module (db_now sur) (w_db v) = Some j))"
proof -
  obtain r1 v1 where claim: "(Claim role sur module :: retry_row claim_step) v = (r1, v1)" by fastforce
  show ?thesis
  proof (cases r1)
    case (Inl e)
    with step claim Claim_outcome [OF claim idle] show ?thesis
      unfolding tick_is drain_def by (auto simp: bind_def attempt_def ret_def)
  next
    case (Inr j)
    from claimed_outcome [OF claim [unfolded Inr] step idle ok] show ?thesis by blast
  qed
qed

text \<open>Without faults a due job is taken.\<close>

lemma progress:
  assumes "healthy v" and idle: "w_snap v = None" and "retry_ok (w_db v)"
    and "due_job (session_of role []) module (db_now sur) (w_db v) \<noteq> None"
  shows "retry_takes tick (w_db v) (w_db (snd (tick sur v)))"
proof -
  from assms(4) obtain j where "due_job (session_of role []) module (db_now sur) (w_db v) = Some j" by blast
  from Claim_ok [OF assms(1,2) this] have claim: "(Claim role sur module :: retry_row claim_step) v
    = (Inr j, v\<lparr>w_db := update_retry (session_of role []) (rj_id j) (mark_running (db_now sur)) (w_db v), w_save := None\<rparr>)" .
  obtain res v' where step: "tick sur v = (res, v')" by fastforce
  from claimed_outcome [OF claim step idle assms(3)] obtain xs j' ys where
    "retry_jobs (w_db v) = xs @ j # ys" "retry_jobs (w_db v') = xs @ j' # ys" "job_went (db_now sur) module j j'" by blast
  moreover from this(3) have "j' \<noteq> j"
    by (auto simp: job_went_def mark_running_def mark_done_def reschedule_def dest: arg_cong [where f = rj_status] arg_cong [where f = rj_attempts])
  ultimately have "retry_jobs (w_db v') \<noteq> retry_jobs (w_db v)" by simp
  with retry_takes.take [of tick, OF step idle] step show ?thesis by simp
qed

lemma tick_runs:
  assumes step: "tick sur v = (res, v')" and idle: "w_snap v = None"
  obtains (nothing) "w_db v' = w_db v"
  | (ran) j v1 r v2 where "due_job (session_of role []) module (db_now sur) (w_db v) = Some j" "w_snap v1 = None"
      "w_db v1 = update_retry (session_of role []) (rj_id j) (mark_running (db_now sur)) (w_db v)" "run sur j v1 = (r, v2)"
      "w_db v' = (w_db v2)\<lparr>retry_jobs := retry_jobs (w_db v')\<rparr>"
proof -
  obtain r1 v1 where claim: "(Claim role sur module :: retry_row claim_step) v = (r1, v1)" by fastforce
  note claimed = Claim_outcome [OF claim idle]
  show thesis
  proof (cases r1)
    case (Inl e)
    with step claim claimed have "w_db v' = w_db v"
      unfolding tick_is drain_def by (auto simp: bind_def attempt_def ret_def)
    then show thesis by (rule nothing)
  next
    case (Inr j)
    obtain r2 v2 where r2: "run sur j v1 = (r2, v2)" by fastforce
    obtain r3 v3 where r3: "Done role sur (rj_id j) (case r2 of Inl e \<Rightarrow> Some e | Inr _ \<Rightarrow> None) v2 = (r3, v3)" by fastforce
    from step claim Inr r2 r3 have "v' = v3"
      unfolding tick_is drain_def by (auto simp: bind_def attempt_def ret_def)
    moreover from run_keeps [OF _ r2] claimed Inr have "w_snap v2 = None" by simp
    from Done_outcome [OF r3 this] have "w_db v3 = (w_db v2)\<lparr>retry_jobs := retry_jobs (w_db v3)\<rparr>"
      by (auto simp: update_retry_def)
    ultimately show thesis using claimed Inr r2 by (intro ran [of j v1 r2 v2]) simp_all
  qed
qed

end

sublocale queue_worker < bounded_retry retry_jobs "\<lambda>j. rj_status j = RQueued" rj_attempts rj_max_attempts retry_ok "retry_takes tick"
proof unfold_locales
  fix d j
  assume "retry_ok d" "j \<in> set (retry_jobs d)" "rj_status j = RQueued"
  then show "rj_attempts j < rj_max_attempts j" by (auto simp: retry_ok_def job_ok_def)
next
  fix d d'
  assume ok: "retry_ok d" and "retry_takes tick d d'"
  then obtain sur v res v' where tick: "tick sur v = (res, v')" "w_snap v = None" and d: "d = w_db v" "d' = w_db v'"
    and changed: "retry_jobs d' \<noteq> retry_jobs d" by (auto elim!: retry_takesE)
  from drain_outcome [OF tick] ok changed d obtain xs j j' ys where
    rows: "retry_jobs d = xs @ j # ys" "retry_jobs d' = xs @ j' # ys" and went: "job_went (db_now sur) module j j'" by auto
  from ok rows(1) have "job_ok j" by (simp add: retry_ok_def)
  note j' = job_went_ok [OF went this]
  from went have "rj_status j = RQueued" by (simp add: job_went_def)
  moreover from ok rows j'(1,2) have "retry_ok d'" by (auto simp: retry_ok_def)
  ultimately show "retry_ok d' \<and> (\<exists>xs j j' ys. retry_jobs d = xs @ j # ys \<and> retry_jobs d' = xs @ j' # ys \<and> rj_status j = RQueued
      \<and> (rj_status j' = RQueued \<longrightarrow> rj_attempts j' = rj_attempts j + 1 \<and> rj_max_attempts j' = rj_max_attempts j))"
    using rows j'(3,4) by blast
qed

section \<open>The properties\<close>

text \<open>C28
  The health table tells the truth. After any sequence of successes and failures a provider was
  reported with, on a database that has no row of it and without faults, \<open>Snapshot\<close> answers exactly
  what the sequence says: the streak is the number of failures since the last success, the state is
  \<open>ok\<close> at streak 0, \<open>degraded\<close> below 5 and \<open>down\<close> from 5 on, and the two times are those of the last
  success and the last failure; a provider never reported has no row.
\<close>

theorem health_follows_reports:
  assumes "healthy v" and "find (same_provider ten i) (provider_health (w_db v)) = None"
  shows "\<exists>v'. for_each (report BypassesRls ten i) reps v = (Inr (), v')
    \<and> health_Snapshot BypassesRls ten i v' =
        (Inr (if reps = [] then Inl NoRows
              else Inr (state_of (streak_of (map snd reps)), last_time True reps, last_time False reps, streak_of (map snd reps))) :: goerr + _, v')"
proof -
  from assms(2) have "reflects ten i [] (w_db v)" by (simp add: reflects_def)
  from healthy_reports [OF assms(1) this] obtain d' where
    run: "for_each (report BypassesRls ten i) reps v = (Inr (), v\<lparr>w_db := d'\<rparr>)" and d': "reflects ten i reps d'" by auto
  have seen: "row_seen ph_tenant BypassRls P rows = find P rows" for P rows by (simp add: row_seen_def)
  have "w_faults v = []" "\<not> w_aborted v" using assms(1) by (simp_all add: healthy_def)
  then have "health_Snapshot BypassesRls ten i (v\<lparr>w_db := d'\<rparr>) = (Inr (case find (same_provider ten i) (provider_health d') of None \<Rightarrow> Inl NoRows
      | Some r \<Rightarrow> Inr (ph_state r, ph_last_ok_at r, ph_last_fail_at r, ph_fail_streak r)) :: goerr + _, v\<lparr>w_db := d'\<rparr>)"
    by (cases v) (simp add: health_Snapshot_def bind_def exec_try_def Let_def query_def query_row_def ret_def seen split: option.split)
  with d' have "health_Snapshot BypassesRls ten i (v\<lparr>w_db := d'\<rparr>) =
        (Inr (if reps = [] then Inl NoRows
              else Inr (state_of (streak_of (map snd reps)), last_time True reps, last_time False reps, streak_of (map snd reps))) :: goerr + _, v\<lparr>w_db := d'\<rparr>)"
    by (auto simp: reflects_def split: option.splits)
  with run show ?thesis by blast
qed

text \<open>Four failures, a success and one more failure.\<close>

definition demo_bureau :: adapter_info where
  "demo_bureau = \<lparr>ai_module = ''insurance'', ai_provider = ''bureau'', ai_region = []\<rparr>"

definition demo_at :: "nat \<Rightarrow> surroundings" where
  "demo_at n = \<lparr>go_now = days (int n), db_now = days (int n), new_uuid = (\<lambda>k. k)\<rparr>"

definition demo_reports :: "(surroundings \<times> bool) list" where
  "demo_reports = [(demo_at 1, False), (demo_at 2, False), (demo_at 3, False), (demo_at 4, False), (demo_at 5, True), (demo_at 6, False)]"

theorem health_follows_reports_witness:
  "\<exists>v'. for_each (report BypassesRls ''no'' demo_bureau) demo_reports (world_of empty_db) = (Inr (), v')
     \<and> health_Snapshot BypassesRls ''no'' demo_bureau v'
       = (Inr (Inr (''degraded'', Some (days 5), Some (days 6), 1)) :: goerr + _, v')"
proof -
  have start: "healthy (world_of empty_db)"
    "find (same_provider ''no'' demo_bureau) (provider_health (w_db (world_of empty_db))) = None" by code_simp+
  have facts: "state_of 1 = ''degraded''" "last_time True demo_reports = Some (days 5)"
    "last_time False demo_reports = Some (days 6)" "streak_of (map snd demo_reports) = 1" "demo_reports \<noteq> []" by code_simp+
  from health_follows_reports [OF start, of demo_reports] show ?thesis by (simp only: facts if_False)
qed

text \<open>The operations of the queue, with any faults.\<close>

inductive queue_step :: "dbrole \<Rightarrow> db \<Rightarrow> db \<Rightarrow> bool" for role where
  enqueued: "(Enqueue role sur jid ten module kind payload n :: (sqlerr + uuid) job) v = (ires, v') \<Longrightarrow> w_snap v = None \<Longrightarrow>
     queue_step role (w_db v) (w_db v')"
| claimed: "Claim role sur module v = (cres, v') \<Longrightarrow> w_snap v = None \<Longrightarrow> queue_step role (w_db v) (w_db v')"
| ended: "Done role sur jid runErr v = (dres, v') \<Longrightarrow> w_snap v = None \<Longrightarrow> queue_step role (w_db v) (w_db v')"

lemma retry_ok_step:
  assumes "queue_step role d d'" and "retry_ok d"
  shows "retry_ok d'"
  using assms
proof cases
  case (enqueued sur jid ten module kind payload n v res v')
  have "keeps (kept retry_ok) (Enqueue role sur jid ten module kind payload n :: (sqlerr + uuid) job)"
    unfolding Enqueue_def by (intro iv_steps frame_intros preserved_insert_retry)
  from keptD [OF this enqueued(3,4)] enqueued assms(2) show ?thesis by simp
next
  case (claimed sur module v res v')
  from Claim_outcome [OF claimed(3,4)] show ?thesis
  proof (cases res)
    case (Inr j)
    with Claim_outcome [OF claimed(3,4)] have j: "due_job (session_of role []) module (db_now sur) (w_db v) = Some j"
      and d': "w_db v' = update_retry (session_of role []) (rj_id j) (mark_running (db_now sur)) (w_db v)" by simp_all
    from due_jobD [OF j] assms(2) claimed(1) have only: "x = j" if "x \<in> set (retry_jobs (w_db v))" "rj_id x = rj_id j" for x
      using that by (auto simp: retry_ok_def distinct_map inj_on_def)
    from assms(2) claimed(1) due_jobD(3) [OF j] show ?thesis
      unfolding claimed(2) d' by (intro retry_ok_update) (use only job_ok_marks(2) [of j] in blast)+
  qed (use claimed assms(2) in simp)
next
  case (ended sur jid runErr v res v')
  let ?s = "session_of role []"
  from Done_outcome [OF ended(3,4)] consider "w_db v' = w_db v"
    | "w_db v' = update_retry ?s jid (mark_done (db_now sur)) (w_db v)"
    | e j where "row_seen rj_tenant ?s (\<lambda>r. rj_id r = jid) (retry_jobs (w_db v)) = Some j"
        "w_db v' = update_retry ?s jid (reschedule (db_now sur) (rj_attempts j + 1) (rj_max_attempts j) e) (w_db v)" by blast
  then show ?thesis
  proof cases
    case 2
    show ?thesis unfolding ended(2) 2 by (intro retry_ok_update) (use ended(1) assms(2) job_ok_marks in auto)
  next
    case (3 e j)
    from row_seen_SomeD [OF 3(1)] have j: "j \<in> set (retry_jobs (w_db v))" "rj_id j = jid" by simp_all
    with assms(2) ended(1) have only: "x = j" if "x \<in> set (retry_jobs (w_db v))" "rj_id x = jid" for x
      using that by (auto simp: retry_ok_def distinct_map inj_on_def)
    from j assms(2) ended(1) have "0 \<le> rj_attempts j" "0 < rj_max_attempts j" by (auto simp: retry_ok_def job_ok_def)
    note mended = job_ok_reschedule [OF this]
    show ?thesis unfolding ended(2) 3(2)
      by (intro retry_ok_update) (use ended(1) assms(2) only mended in blast)+
  qed (use ended assms(2) in simp)
qed

text \<open>C29
  The retry queue never holds a malformed job. Whatever jobs are enqueued (with any number of
  attempts asked for, zero and negative ones included), claimed and ended, in any order, by any
  worker and with any faults: ids are distinct, attempts are never negative, a queued or running job
  has an attempt left, a dead letter has used them all, every unfinished job that was tried holds an
  error, and no job is in the state \<open>failed\<close>.
\<close>

theorem retry_jobs_well_formed:
  assumes "(queue_step role)\<^sup>*\<^sup>* d d'" and "retry_jobs d = []"
  shows "distinct (map rj_id (retry_jobs d')) \<and> (\<forall>j\<in>set (retry_jobs d').
      0 \<le> rj_attempts j \<and> 0 < rj_max_attempts j
      \<and> (rj_status j = RQueued \<or> rj_status j = RRunning \<longrightarrow> rj_attempts j < rj_max_attempts j)
      \<and> (rj_status j = RDeadLetter \<longrightarrow> rj_max_attempts j \<le> rj_attempts j)
      \<and> (rj_status j \<noteq> RDone \<and> 0 < rj_attempts j \<longrightarrow> rj_failed_with j \<noteq> None) \<and> rj_status j \<noteq> RFailed)"
proof -
  from assms(2) have "retry_ok d" by (simp add: retry_ok_def)
  with assms(1) have "retry_ok d'" by (induction rule: rtranclp_induct) (auto dest: retry_ok_step)
  then show ?thesis by (auto simp: retry_ok_def job_ok_def)
qed

text \<open>A job with one attempt fails.\<close>

definition demo_queue :: dbworld where
  "demo_queue = world_of (empty_db\<lparr>tenants := [(''no'', [])]\<rparr>)"

definition demo_enqueued :: dbworld where
  "demo_enqueued = snd ((Enqueue BypassesRls (demo_at 1) 7 ''no'' ''insurance'' ''verify'' (Some (8, ''AB10'')) 1 :: (sqlerr + uuid) job) demo_queue)"

definition demo_claimed :: dbworld where
  "demo_claimed = snd (Claim BypassesRls (demo_at 2) ''insurance'' demo_enqueued)"

definition demo_ended :: dbworld where
  "demo_ended = snd (Done BypassesRls (demo_at 2) 7 (Some PlainError) demo_claimed)"

theorem retry_jobs_well_formed_witness:
  "map (\<lambda>j. (rj_id j, rj_status j, rj_max_attempts j \<le> rj_attempts j)) (retry_jobs (w_db demo_ended)) = [(7, RDeadLetter, True)]"
proof -
  have rows: "map (\<lambda>j. (rj_id j, rj_status j)) (retry_jobs (w_db demo_ended)) = [(7, RDeadLetter)]" by code_simp
  have idle: "w_snap demo_queue = None" "w_snap demo_enqueued = None" "w_snap demo_claimed = None" by code_simp+
  have "queue_step BypassesRls (w_db demo_queue) (w_db demo_enqueued)"
    unfolding demo_enqueued_def by (rule queue_step.enqueued) (rule surjective_pairing, rule idle)
  moreover have "queue_step BypassesRls (w_db demo_enqueued) (w_db demo_claimed)"
    unfolding demo_claimed_def by (rule queue_step.claimed) (rule surjective_pairing, rule idle)
  moreover have "queue_step BypassesRls (w_db demo_claimed) (w_db demo_ended)"
    unfolding demo_ended_def by (rule queue_step.ended) (rule surjective_pairing, rule idle)
  ultimately have steps: "(queue_step BypassesRls)\<^sup>*\<^sup>* (w_db demo_queue) (w_db demo_ended)" by simp
  have "retry_jobs (w_db demo_queue) = []" by code_simp
  from retry_jobs_well_formed [OF steps this] rows show ?thesis by auto
qed

end
