(* ===== verification/AnprApi.thy ===== *)
theory AnprApi
  imports Anpr Connectors "HOL-Library.Sublist"
begin

text \<open>
  The HTTP surface of the ANPR gateway (\<open>services/anpr-gateway/internal/api/api.go\<close>), which puts scans
  into the pipeline's queue one by one or in batches, reads their state back, and asks the recogniser
  for the plates in a picture; and what the OpenALPR adapter makes of the provider's answer
  (\<open>packages/go-common/contracts/anpr/openalpr.go\<close>).
\<close>

section \<open>Recognisers\<close>

text \<open>The pixel box of a plate; Go's \<open>int\<close> has 64 bits.\<close>

type_synonym goint = "64 word"

record bbox =
  bx_x :: goint
  bx_y :: goint
  bx_w :: goint
  bx_h :: goint

record anpr_read =
  rd_plate :: string
  rd_confidence :: float32
  rd_region :: string
  rd_bbox :: "bbox option"

record recognize_opts =
  rz_tenant :: string
  rz_country :: string
  rz_min_conf :: float32

record recognizer =
  rz_info :: adapter_info
  rz_recognize :: "8 word list \<Rightarrow> string \<Rightarrow> time \<Rightarrow> recognize_opts \<Rightarrow> goerr + anpr_read list"

definition anpr_DevStub :: recognizer where
  "anpr_DevStub = \<lparr>rz_info = \<lparr>ai_module = ''anpr'', ai_provider = ''dev-stub'', ai_region = []\<rparr>, rz_recognize = (\<lambda>_ _ _ _. Inr [])\<rparr>"

text \<open>One result of the provider's answer: the confidence in percent, and the corners.\<close>

record alpr_result =
  al_plate :: string
  al_confidence :: float64
  al_region :: string
  al_coordinates :: "(goint \<times> goint) list"

text \<open>The body of an answer as the decoder reads it: the results, and the error message.\<close>

type_synonym alpr_answer = "alpr_result list \<times> string"

fun widen :: "(goint \<times> goint) \<Rightarrow> goint \<times> goint \<times> goint \<times> goint \<Rightarrow> goint \<times> goint \<times> goint \<times> goint" where
  "widen (cx, cy) (minX, minY, maxX, maxY) =
     (if sint cx < sint minX then cx else minX, if sint cy < sint minY then cy else minY,
      if sint cx > sint maxX then cx else maxX, if sint cy > sint maxY then cy else maxY)"

definition coordsToBBox :: "(goint \<times> goint) list \<Rightarrow> bbox option" where
  "coordsToBBox coords =
     (case coords of
        [] \<Rightarrow> None
      | (x, y) # rest \<Rightarrow>
          (case fold widen rest (x, y, x, y) of
             (minX, minY, maxX, maxY) \<Rightarrow> Some \<lparr>bx_x = minX, bx_y = minY, bx_w = maxX - minX, bx_h = maxY - minY\<rparr>))"

text \<open>
  \<open>to_conf\<close> is the quotient by 100 in \<open>float32\<close>, \<open>rank\<close> the order of \<open>float32\<close> values. The answer of
  the provider is \<open>None\<close> where the request fails, else its status and its body, \<open>None\<close> where the body
  is no JSON of the shape.
\<close>

definition reads_of :: "(float64 \<Rightarrow> float32) \<Rightarrow> (float32 \<Rightarrow> int) \<Rightarrow> float32 \<Rightarrow> alpr_result list \<Rightarrow> anpr_read list" where
  "reads_of to_conf rank minConf results =
     sort_key (\<lambda>r. - rank (rd_confidence r))
       (List.map_filter (\<lambda>r. let conf = to_conf (al_confidence r) in
          if rank conf < rank minConf then None
          else Some \<lparr>rd_plate = al_plate r, rd_confidence = conf, rd_region = al_region r, rd_bbox = coordsToBBox (al_coordinates r)\<rparr>)
        results)"

definition openalpr_Recognize ::
    "(float64 \<Rightarrow> float32) \<Rightarrow> (float32 \<Rightarrow> int) \<Rightarrow> (nat \<times> alpr_answer option) option \<Rightarrow> recognize_opts \<Rightarrow> goerr + anpr_read list" where
  "openalpr_Recognize to_conf rank answer opts =
     (case answer of
        None \<Rightarrow> Inl PlainError
      | Some (status, body) \<Rightarrow>
          if status = 401 then Inl PlainError
          else if status \<ge> 400 then Inl PlainError
          else (case body of
                  None \<Rightarrow> Inl PlainError
                | Some (results, msg) \<Rightarrow>
                    if msg \<noteq> [] then Inl PlainError
                    else Inr (reads_of to_conf rank (rz_min_conf opts) results)))"

section \<open>The endpoints\<close>

text \<open>A scan as it is sent; \<open>None\<close> is the zero time.\<close>

record scan_in =
  sc_plate :: string
  sc_confidence :: float32
  sc_source :: string
  sc_source_id :: string
  sc_geo_lat :: float64
  sc_geo_lng :: float64
  sc_image_s3_key :: string
  sc_captured_at :: "time option"

record job_out =
  jo_id :: uuid
  jo_status :: job_status
  jo_normalized_plate :: "string option"
  jo_confidence :: float32
  jo_attempts :: int
  jo_failed_with :: "goerr option"
  jo_scan_id :: "uuid option"
  jo_matched_vehicle_id :: "uuid option"
  jo_enqueued_at :: time
  jo_processed_at :: "time option"

record scan_out =
  so_id :: uuid
  so_plate :: string
  so_confidence :: float32
  so_source :: string
  so_captured_at :: time
  so_geo_lat :: "float64 option"
  so_geo_lng :: "float64 option"
  so_matched_vehicle_id :: "uuid option"

datatype anpr_body =
    JobQueued uuid
  | JobsAccepted nat "uuid list"
  | JobState job_out
  | ScanItems "scan_out list"
  | PlateReads string "anpr_read list"
  | RecognizerHealth adapter_info "(string \<times> time option \<times> time option \<times> int) option"

type_synonym 'a anpr_step = "(anpr_body, 'a) handler"
type_synonym anpr_handler = "(anpr_body, anpr_body response) handler"

record anpr_api =
  ga_pool :: dbrole
  ga_recognizer :: recognizer
  ga_hm :: "dbrole option"

text \<open>Zero and minus zero.\<close>

definition nilIfZero :: "float64 \<Rightarrow> float64 option" where
  "nilIfZero f = (if f = 0 \<or> f = 0x8000000000000000 then None else Some f)"

definition insert_job :: "session \<Rightarrow> anpr_job_row \<Rightarrow> db \<Rightarrow> sqlerr + uuid \<times> db" where
  "insert_job s r d =
     (if map_of (tenants d) (aj_tenant r) = None then Inl ForeignKeyViolation
      else case insert_row aj_tenant s (\<lambda>old new. aj_id old = aj_id new) r (anpr_jobs d) of
             Inl e \<Rightarrow> Inl e
           | Inr rows \<Rightarrow> Inr (aj_id r, d\<lparr>anpr_jobs := rows\<rparr>))"

definition job_row_of :: "surroundings \<Rightarrow> string \<Rightarrow> nat \<Rightarrow> scan_in \<Rightarrow> anpr_job_row" where
  "job_row_of sur ten k it =
     \<lparr>aj_id = new_uuid sur k, aj_tenant = ten, aj_scan_id = None, aj_source = sc_source it, aj_source_id = nullStr (sc_source_id it),
      aj_raw_plate = sc_plate it, aj_normalized_plate = None, aj_confidence = sc_confidence it, aj_geo_lat = nilIfZero (sc_geo_lat it),
      aj_geo_lng = nilIfZero (sc_geo_lng it), aj_image_s3_key = nullStr (sc_image_s3_key it),
      aj_captured_at = (case sc_captured_at it of None \<Rightarrow> go_now sur | Some t \<Rightarrow> t), aj_status = JQueued, aj_attempts = 0,
      aj_failed_with = None, aj_enqueued_at = db_now sur, aj_processed_at = None\<rparr>"

definition enqueueOne :: "anpr_api \<Rightarrow> surroundings \<Rightarrow> claims option \<Rightarrow> nat \<Rightarrow> scan_in \<Rightarrow> uuid job" where
  "enqueueOne a sur cl k it =
     (case cl of
        None \<Rightarrow> stop ErrUnauthorized
      | Some c \<Rightarrow>
          andthen (guard (sc_plate it \<noteq> []) (HttpError 400 ''plate_required'')) (
          andthen (exec_job (query (\<lambda>_. ()))) (
          exec_job (insert_job (session_of (ga_pool a) (c_tenant c)) (job_row_of sur (c_tenant c) k it)))))"

definition enqueue :: "anpr_api \<Rightarrow> surroundings \<Rightarrow> claims \<Rightarrow> scan_in option \<Rightarrow> anpr_handler" where
  "enqueue a sur c body =
     bind (read_json body) (\<lambda>it.
     bind (attempt (enqueueOne a sur (Some c) 0 it)) (\<lambda>res.
     case res of
       Inl e \<Rightarrow> stop (write_err e)
     | Inr jid \<Rightarrow> ret (Json 202 (JobQueued jid))))"

text \<open>An item that fails is logged and left out.\<close>

fun enqueue_items :: "anpr_api \<Rightarrow> surroundings \<Rightarrow> claims \<Rightarrow> nat \<Rightarrow> scan_in list \<Rightarrow> uuid list anpr_step" where
  "enqueue_items a sur c k [] = ret []"
| "enqueue_items a sur c k (it # its) =
     bind (attempt (enqueueOne a sur (Some c) k it)) (\<lambda>res.
     bind (enqueue_items a sur c (Suc k) its) (\<lambda>ids.
     ret (case res of Inl _ \<Rightarrow> ids | Inr jid \<Rightarrow> jid # ids)))"

definition enqueueBatch :: "anpr_api \<Rightarrow> surroundings \<Rightarrow> claims \<Rightarrow> scan_in list option \<Rightarrow> anpr_handler" where
  "enqueueBatch a sur c body =
     bind (read_json body) (\<lambda>items.
     andthen (guard (\<not> (length items = 0 \<or> length items > 1000)) (Err 400 ''batch_size'')) (
     bind (enqueue_items a sur c 0 items) (\<lambda>ids.
     ret (Json 202 (JobsAccepted (length ids) ids)))))"

definition job_out_of :: "session \<Rightarrow> db \<Rightarrow> anpr_job_row \<Rightarrow> job_out" where
  "job_out_of s d j =
     \<lparr>jo_id = aj_id j, jo_status = aj_status j, jo_normalized_plate = aj_normalized_plate j, jo_confidence = aj_confidence j,
      jo_attempts = aj_attempts j, jo_failed_with = aj_failed_with j, jo_scan_id = aj_scan_id j,
      jo_matched_vehicle_id = Option.bind (aj_scan_id j) (\<lambda>sid.
        Option.bind (row_seen as_tenant s (\<lambda>r. as_id r = sid) (anpr_scans d)) as_matched_vehicle_id),
      jo_enqueued_at = aj_enqueued_at j, jo_processed_at = aj_processed_at j\<rparr>"

definition jobStatus :: "anpr_api \<Rightarrow> claims \<Rightarrow> uuid option \<Rightarrow> anpr_handler" where
  "jobStatus a c ident =
     (case ident of
        None \<Rightarrow> stop (write_err ErrBadRequest)
      | Some jid \<Rightarrow>
          let s = session_of (ga_pool a) (c_tenant c) in
          andthen (WithTenant (Some c)) (
          bind (exec_or (no_rows_or (write_err ErrNotFound) Internal)
            (query_row (\<lambda>d. map_option (job_out_of s d) (row_seen aj_tenant s (\<lambda>j. aj_id j = jid) (anpr_jobs d))))) (\<lambda>o'.
          ret (Json 200 (JobState o')))))"

definition scan_out_of :: "anpr_scan_row \<Rightarrow> scan_out" where
  "scan_out_of r =
     \<lparr>so_id = as_id r, so_plate = as_plate_read r, so_confidence = as_confidence r, so_source = as_source r,
      so_captured_at = as_captured_at r, so_geo_lat = as_geo_lat r, so_geo_lng = as_geo_lng r,
      so_matched_vehicle_id = as_matched_vehicle_id r\<rparr>"

definition listScans :: "anpr_api \<Rightarrow> claims \<Rightarrow> anpr_handler" where
  "listScans a c =
     andthen (WithTenant (Some c)) (
     bind (exec (query (\<lambda>d. map scan_out_of (take 100 (sort_key (\<lambda>r. - as_captured_at r)
       (rows_seen as_tenant (session_of (ga_pool a) (c_tenant c)) (anpr_scans d))))))) (\<lambda>items.
     ret (Json 200 (ScanItems items))))"

text \<open>
  A picture as the form delivers it: \<open>None\<close> is a body that is no form, then the file with its content
  type, the country, and the cutoff, \<open>None\<close> where it is absent or no number.
\<close>

record recognize_form =
  rf_image :: "(8 word list \<times> string) option"
  rf_country :: string
  rf_min_conf :: "float32 option"

definition recognizeMaxBytes :: nat where
  "recognizeMaxBytes = 8 * 1024 * 1024"

definition recognize :: "anpr_api \<Rightarrow> surroundings \<Rightarrow> claims \<Rightarrow> recognize_form option \<Rightarrow> anpr_handler" where
  "recognize a sur c form =
     (case form of
        None \<Rightarrow> stop (Err 400 ''bad_multipart'')
      | Some fm \<Rightarrow>
          (case rf_image fm of
             None \<Rightarrow> stop (Err 400 ''missing_image'')
           | Some (file, ctype) \<Rightarrow>
               let body = (if length file \<le> recognizeMaxBytes then file else take recognizeMaxBytes file);
                   info = rz_info (ga_recognizer a);
                   opts = \<lparr>rz_tenant = c_tenant c, rz_country = rf_country fm,
                           rz_min_conf = (case rf_min_conf fm of None \<Rightarrow> 0 | Some m \<Rightarrow> m)\<rparr> in
               andthen (guard (length body \<noteq> 0) (Err 400 ''empty_image'')) (
               case rz_recognize (ga_recognizer a) body (if ctype = [] then ''image/jpeg'' else ctype) (go_now sur) opts of
                 Inl _ \<Rightarrow>
                   andthen (case ga_hm a of None \<Rightarrow> ret () | Some role \<Rightarrow> bind (health_Fail role sur (c_tenant c) info) (\<lambda>_. ret ())) (
                   stop (Err 502 ''recognize_failed''))
               | Inr plates \<Rightarrow>
                   andthen (case ga_hm a of None \<Rightarrow> ret () | Some role \<Rightarrow> bind (health_OK role sur (c_tenant c) info) (\<lambda>_. ret ())) (
                   ret (Json 200 (PlateReads (ai_provider info) plates))))))"

definition anpr_health :: "anpr_api \<Rightarrow> claims \<Rightarrow> anpr_handler" where
  "anpr_health a c =
     (let info = rz_info (ga_recognizer a) in
      case ga_hm a of
        None \<Rightarrow> ret (Json 200 (RecognizerHealth info None))
      | Some role \<Rightarrow>
          bind (health_Snapshot role (c_tenant c) info) (\<lambda>res.
          ret (Json 200 (RecognizerHealth info (case res of Inl _ \<Rightarrow> None | Inr x \<Rightarrow> Some x)))))"

datatype anpr_route =
    PostScan "scan_in option"
  | PostScans "scan_in list option"
  | PostRecognize "recognize_form option"
  | GetJob "uuid option"
  | GetScans
  | GetAnprHealth

definition anpr_mux :: "jwt_parser \<Rightarrow> issuer \<Rightarrow> anpr_api \<Rightarrow> surroundings \<Rightarrow> headers \<Rightarrow> anpr_route \<Rightarrow> anpr_handler" where
  "anpr_mux jwt i a sur h route =
     Middleware jwt i h (\<lambda>c.
       case route of
         PostScan body \<Rightarrow> RequirePermission ''anpr:scan'' (Some c) (enqueue a sur c body)
       | PostScans body \<Rightarrow> RequirePermission ''anpr:scan'' (Some c) (enqueueBatch a sur c body)
       | PostRecognize form \<Rightarrow> RequirePermission ''anpr:scan'' (Some c) (recognize a sur c form)
       | GetJob ident \<Rightarrow> RequirePermission ''anpr:scan'' (Some c) (jobStatus a c ident)
       | GetScans \<Rightarrow> RequirePermission ''anpr:scan'' (Some c) (listScans a c)
       | GetAnprHealth \<Rightarrow> anpr_health a c)"

section \<open>What reaches the queue\<close>

lemma insert_job_Inr:
  "insert_job s r d = Inr (x, d') \<Longrightarrow> x = aj_id r \<and> d' = d\<lparr>anpr_jobs := anpr_jobs d @ [r]\<rparr> \<and> (\<forall>j\<in>set (anpr_jobs d). aj_id j \<noteq> aj_id r)"
  unfolding insert_job_def by (auto simp: insert_row_Inr split: if_splits sum.splits)

lemma enqueueOne_outcome:
  assumes run: "enqueueOne a sur (Some c) k it w = (res, w')"
  obtains (queued) "res = Inr (new_uuid sur k)" "sc_plate it \<noteq> []"
      "w_db w' = (w_db w)\<lparr>anpr_jobs := anpr_jobs (w_db w) @ [job_row_of sur (c_tenant c) k it]\<rparr>" "w_snap w' = w_snap w"
      "\<forall>j\<in>set (anpr_jobs (w_db w)). aj_id j \<noteq> new_uuid sur k"
  | (refused) e where "res = Inl e" "w_db w' = w_db w" "w_snap w' = w_snap w"
proof (cases "sc_plate it = []")
  case True
  with run show thesis by (intro refused) (auto simp: enqueueOne_def andthen_def bind_def guard_def stop_def)
next
  case False
  obtain r1 w1 where set: "(exec_job (query (\<lambda>_. ())) :: unit job) w = (r1, w1)" by fastforce
  from keepsD [OF rd_exec_or [OF reads_query(1)] set] have w1: "w_db w1 = w_db w" "w_snap w1 = w_snap w" by (simp_all add: same_db_def)
  let ?ins = "exec_job (insert_job (session_of (ga_pool a) (c_tenant c)) (job_row_of sur (c_tenant c) k it)) :: uuid job"
  show thesis
  proof (cases r1)
    case (Inl e)
    with run set False w1 show thesis by (intro refused [of e]) (auto simp: enqueueOne_def andthen_def bind_def guard_def ret_def)
  next
    case (Inr u)
    with run set False have ins: "?ins w1 = (res, w')" by (auto simp: enqueueOne_def andthen_def bind_def guard_def ret_def)
    then show thesis
    proof (cases rule: exec_or_outcome)
      case (ok x)
      from insert_job_Inr [OF ok(2)] ok w1 False show thesis by (intro queued) (auto simp: job_row_of_def)
    next
      case (failed e)
      with w1 show thesis by (intro refused [of PlainError]) auto
    qed
  qed
qed

lemma enqueue_items_outcome:
  assumes "enqueue_items a sur c k its w = (res, w')"
  shows "\<exists>rows. res = Inr (map aj_id rows) \<and> w_snap w' = w_snap w
    \<and> w_db w' = (w_db w)\<lparr>anpr_jobs := anpr_jobs (w_db w) @ rows\<rparr>
    \<and> subseq rows (map (\<lambda>(n, it). job_row_of sur (c_tenant c) n it) (filter (\<lambda>(n, it). sc_plate it \<noteq> []) (List.enumerate k its)))
    \<and> (distinct (map aj_id (anpr_jobs (w_db w))) \<longrightarrow> distinct (map aj_id (anpr_jobs (w_db w) @ rows)))"
  using assms
proof (induction its arbitrary: k w res w')
  case Nil
  then show ?case by (intro exI [of _ "[]"]) (auto simp: ret_def)
next
  case (Cons it its)
  obtain r1 w1 where one: "enqueueOne a sur (Some c) k it w = (r1, w1)" by fastforce
  obtain r2 w2 where rest: "enqueue_items a sur c (Suc k) its w1 = (r2, w2)" by fastforce
  from Cons.IH [OF rest] obtain rows where rows: "r2 = Inr (map aj_id rows)" "w_snap w2 = w_snap w1"
    "w_db w2 = (w_db w1)\<lparr>anpr_jobs := anpr_jobs (w_db w1) @ rows\<rparr>"
    "subseq rows (map (\<lambda>(n, it). job_row_of sur (c_tenant c) n it) (filter (\<lambda>(n, it). sc_plate it \<noteq> []) (List.enumerate (Suc k) its)))"
    "distinct (map aj_id (anpr_jobs (w_db w1))) \<longrightarrow> distinct (map aj_id (anpr_jobs (w_db w1) @ rows))" by blast
  from Cons.prems one rest rows(1) have out: "w' = w2" "res = Inr (case r1 of Inl _ \<Rightarrow> map aj_id rows | Inr jid \<Rightarrow> jid # map aj_id rows)"
    by (auto simp: bind_def attempt_def ret_def)
  from one show ?case
  proof (cases rule: enqueueOne_outcome)
    case queued
    let ?r = "job_row_of sur (c_tenant c) k it"
    have "aj_id ?r = new_uuid sur k" by (simp add: job_row_of_def)
    with queued rows out show ?thesis by (intro exI [of _ "?r # rows"]) (auto simp: image_iff)
  next
    case (refused e)
    with rows out show ?thesis by (intro exI [of _ rows]) (auto intro: list_emb_Cons)
  qed
qed

lemma enqueue_items_healthy:
  assumes "healthy w" and "map_of (tenants (w_db w)) (c_tenant c) \<noteq> None" and "c_tenant c \<noteq> []" and "inj (new_uuid sur)"
    and "\<forall>j\<in>set (anpr_jobs (w_db w)). \<forall>n\<ge>k. aj_id j \<noteq> new_uuid sur n"
  shows "\<exists>w'. enqueue_items a sur c k its w = (Inr (map aj_id (map (\<lambda>(n, it). job_row_of sur (c_tenant c) n it)
      (filter (\<lambda>(n, it). sc_plate it \<noteq> []) (List.enumerate k its)))), w')"
  using assms
proof (induction its arbitrary: k w)
  case Nil
  then show ?case by (simp add: ret_def)
next
  case (Cons it its)
  let ?s = "session_of (ga_pool a) (c_tenant c)" and ?r = "job_row_of sur (c_tenant c) k it"
  have sees: "sees ?s (c_tenant c)" using Cons.prems(3) by (cases "ga_pool a") simp_all
  show ?case
  proof (cases "sc_plate it = []")
    case True
    then have "enqueueOne a sur (Some c) k it w = (Inl (HttpError 400 ''plate_required''), w)"
      by (simp add: enqueueOne_def andthen_def bind_def guard_def stop_def)
    with True Cons.IH [OF Cons.prems(1-4), of "Suc k"] Cons.prems(5) show ?thesis
      by (force simp: bind_def attempt_def ret_def)
  next
    case False
    let ?d = "(w_db w)\<lparr>anpr_jobs := anpr_jobs (w_db w) @ [?r]\<rparr>"
    have "insert_job ?s ?r (w_db w) = Inr (new_uuid sur k, ?d)"
      using Cons.prems(2,5) sees by (auto simp: insert_job_def insert_row_def job_row_of_def list_ex_iff)
    from exec_or_ok [where k = "\<lambda>_. PlainError" and f = "insert_job ?s ?r", OF Cons.prems(1) this] False
    have one: "enqueueOne a sur (Some c) k it w = (Inr (new_uuid sur k), w\<lparr>w_db := ?d\<rparr>)"
      by (simp add: enqueueOne_def guard_def andthen_def bind_def ret_def exec_query_ok [OF Cons.prems(1)])
    have "aj_id ?r \<noteq> new_uuid sur n" if "n \<ge> Suc k" for n
      using injD [OF Cons.prems(4), of k n] that by (auto simp: job_row_of_def)
    then have "\<exists>w'. enqueue_items a sur c (Suc k) its (w\<lparr>w_db := ?d\<rparr>) = (Inr (map aj_id (map (\<lambda>(n, it). job_row_of sur (c_tenant c) n it)
      (filter (\<lambda>(n, it). sc_plate it \<noteq> []) (List.enumerate (Suc k) its)))), w')"
      using Cons.prems by (intro Cons.IH) auto
    with one False show ?thesis by (auto simp: bind_def attempt_def ret_def job_row_of_def)
  qed
qed

lemma job_row_queue_ok: "aj_attempts (job_row_of sur ten n it) = 0" "aj_status (job_row_of sur ten n it) = JQueued" "aj_tenant (job_row_of sur ten n it) = ten"
  by (simp_all add: job_row_of_def)

text \<open>C27
  A batch is taken between 1 and 1000 items, and nothing else touches the queue. Whatever fails on the
  way, an answer 202 reports exactly the rows that were appended to the queue, in the order of the
  batch: each is a fresh queued job of the caller's tenant made from an item with a plate, and the
  number it reports is their number. A refused batch leaves the database as it was. Without faults
  every item with a plate is taken. The queue stays one the pipeline drains.
\<close>

theorem accepted_scans_are_queued:
  assumes "finish (enqueueBatch a sur c body) w = (r, w')"
  shows "(r = Err 400 ''bad_json'' \<and> body = None \<and> w' = w)
    \<or> (\<exists>items. body = Some items \<and> length items \<notin> {1..1000} \<and> r = Err 400 ''batch_size'' \<and> w' = w)
    \<or> (\<exists>items rows. body = Some items \<and> length items \<in> {1..1000} \<and> r = Json 202 (JobsAccepted (length rows) (map aj_id rows))
        \<and> w_db w' = (w_db w)\<lparr>anpr_jobs := anpr_jobs (w_db w) @ rows\<rparr>
        \<and> subseq rows (map (\<lambda>(n, it). job_row_of sur (c_tenant c) n it) (filter (\<lambda>(n, it). sc_plate it \<noteq> []) (List.enumerate 0 items)))
        \<and> (queue_ok (w_db w) \<longrightarrow> queue_ok (w_db w'))
        \<and> (healthy w \<and> map_of (tenants (w_db w)) (c_tenant c) \<noteq> None \<and> c_tenant c \<noteq> [] \<and> inj (new_uuid sur)
             \<and> (\<forall>j\<in>set (anpr_jobs (w_db w)). aj_id j \<notin> range (new_uuid sur))
             \<longrightarrow> length rows = length (filter (\<lambda>it. sc_plate it \<noteq> []) items)))"
proof (cases body)
  case None
  with assms show ?thesis by (simp add: enqueueBatch_def read_json_def bind_def stop_def finish_def)
next
  case (Some items)
  show ?thesis
  proof (cases "length items \<in> {1..1000}")
    case False
    with Some assms show ?thesis
      by (auto simp: enqueueBatch_def read_json_def bind_def andthen_def guard_def ret_def stop_def finish_def Suc_le_eq split: if_splits)
  next
    case True
    let ?all = "map (\<lambda>(n, it). job_row_of sur (c_tenant c) n it) (filter (\<lambda>(n, it). sc_plate it \<noteq> []) (List.enumerate 0 items))"
    obtain ri w1 where run: "enqueue_items a sur c 0 items w = (ri, w1)" by fastforce
    from enqueue_items_outcome [OF run] obtain rows where rows: "ri = Inr (map aj_id rows)"
      "w_db w1 = (w_db w)\<lparr>anpr_jobs := anpr_jobs (w_db w) @ rows\<rparr>" "subseq rows ?all"
      "distinct (map aj_id (anpr_jobs (w_db w))) \<longrightarrow> distinct (map aj_id (anpr_jobs (w_db w) @ rows))" by blast
    from run rows(1) Some True assms have out: "w' = w1" "r = Json 202 (JobsAccepted (length rows) (map aj_id rows))"
      by (auto simp: enqueueBatch_def read_json_def bind_def andthen_def guard_def ret_def finish_def Suc_le_eq)
    have "set rows \<subseteq> set ?all" using list_emb_set [OF rows(3)] by blast
    then have "\<forall>j\<in>set rows. aj_attempts j = 0 \<and> aj_status j = JQueued" by (force simp: job_row_queue_ok)
    with rows(2,4) out have ok: "queue_ok (w_db w) \<longrightarrow> queue_ok (w_db w')" by (auto simp: queue_ok_def maxAttempts_def)
    have full: "length rows = length (filter (\<lambda>it. sc_plate it \<noteq> []) items)"
      if "healthy w" "map_of (tenants (w_db w)) (c_tenant c) \<noteq> None" "c_tenant c \<noteq> []" "inj (new_uuid sur)"
        "\<forall>j\<in>set (anpr_jobs (w_db w)). aj_id j \<notin> range (new_uuid sur)"
    proof -
      have fresh: "\<forall>j\<in>set (anpr_jobs (w_db w)). \<forall>n\<ge>0. aj_id j \<noteq> new_uuid sur n" using that(5) by blast
      from enqueue_items_healthy [OF that(1-4) fresh, of a items] run rows(1) have "map aj_id rows = map aj_id ?all" by auto
      then have "length rows = length ?all" by (metis length_map)
      also have "length (filter (\<lambda>(n, it). sc_plate it \<noteq> []) (List.enumerate k items)) = length (filter (\<lambda>it. sc_plate it \<noteq> []) items)" for k
        by (induction items arbitrary: k) simp_all
      then have "length ?all = length (filter (\<lambda>it. sc_plate it \<noteq> []) items)" by simp
      finally show ?thesis .
    qed
    with Some True rows out ok show ?thesis by blast
  qed
qed

definition demo_scan_in :: "string \<Rightarrow> scan_in" where
  "demo_scan_in plate = \<lparr>sc_plate = plate, sc_confidence = 0, sc_source = ''toll'', sc_source_id = [], sc_geo_lat = 0, sc_geo_lng = 0,
     sc_image_s3_key = [], sc_captured_at = None\<rparr>"

definition demo_gateway :: anpr_api where
  "demo_gateway = \<lparr>ga_pool = SubjectToRls, ga_recognizer = anpr_DevStub, ga_hm = None\<rparr>"

definition demo_scanner :: claims where
  "demo_scanner = \<lparr>c_tenant = ''no'', c_role = ''officer'', c_permissions = [''anpr:scan''], c_device = [], c_subject = Some 1,
     c_issued_at = 0, c_expires_at = 0, c_jti = None\<rparr>"

section \<open>The box of a plate\<close>

lemma fold_widen:
  assumes "fold widen rest (x0, y0, x1, y1) = (minX, minY, maxX, maxY)"
  shows "sint minX \<le> sint x0 \<and> sint minY \<le> sint y0 \<and> sint x1 \<le> sint maxX \<and> sint y1 \<le> sint maxY
    \<and> (\<forall>(cx, cy)\<in>set rest. sint minX \<le> sint cx \<and> sint cx \<le> sint maxX \<and> sint minY \<le> sint cy \<and> sint cy \<le> sint maxY)
    \<and> minX \<in> insert x0 (fst ` set rest) \<and> minY \<in> insert y0 (snd ` set rest)
    \<and> maxX \<in> insert x1 (fst ` set rest) \<and> maxY \<in> insert y1 (snd ` set rest)"
  using assms
proof (induction rest arbitrary: x0 y0 x1 y1)
  case (Cons c rest)
  obtain cx cy where c: "c = (cx, cy)" by (cases c)
  from Cons.prems c have "fold widen rest (widen (cx, cy) (x0, y0, x1, y1)) = (minX, minY, maxX, maxY)" by simp
  from Cons.IH [OF this [unfolded widen.simps]] show ?case
    unfolding c by (auto split: if_splits)
qed simp

text \<open>
  The box holds the plate. For the corners of a provider's answer, as long as no coordinate is larger
  than \<open>2 ^ 62\<close> in absolute value, so that the width and the height do not overflow Go's \<open>int\<close>, the box
  has non-negative sides, contains every corner, and is the smallest such: each side touches one. No
  corners give no box.
\<close>

theorem box_contains_the_corners:
  assumes "\<forall>(cx, cy)\<in>set coords. \<bar>sint cx\<bar> \<le> 2 ^ 62 - 1 \<and> \<bar>sint cy\<bar> \<le> 2 ^ 62 - 1"
  shows "case coordsToBBox coords of
      None \<Rightarrow> coords = []
    | Some b \<Rightarrow> 0 \<le> sint (bx_w b) \<and> 0 \<le> sint (bx_h b)
        \<and> (\<forall>(cx, cy)\<in>set coords. sint (bx_x b) \<le> sint cx \<and> sint cx \<le> sint (bx_x b) + sint (bx_w b)
              \<and> sint (bx_y b) \<le> sint cy \<and> sint cy \<le> sint (bx_y b) + sint (bx_h b))
        \<and> bx_x b \<in> fst ` set coords \<and> bx_y b \<in> snd ` set coords
        \<and> bx_x b + bx_w b \<in> fst ` set coords \<and> bx_y b + bx_h b \<in> snd ` set coords"
proof (cases coords)
  case Nil
  then show ?thesis by (simp add: coordsToBBox_def)
next
  case (Cons c rest)
  obtain x y where c: "c = (x, y)" by (cases c)
  obtain minX minY maxX maxY where run: "fold widen rest (x, y, x, y) = (minX, minY, maxX, maxY)" by (metis prod_cases4)
  note w = fold_widen [OF run]
  have small: "\<bar>sint z\<bar> \<le> 2 ^ 62 - 1" if "z \<in> fst ` set coords \<or> z \<in> snd ` set coords" for z
    using assms that by fastforce
  have ends: "minX \<in> fst ` set coords" "minY \<in> snd ` set coords" "maxX \<in> fst ` set coords" "maxY \<in> snd ` set coords"
    using w by (auto simp: Cons c)
  have diff: "sint (u - v) = sint u - sint v" if "\<bar>sint u\<bar> \<le> 2 ^ 62 - 1" "\<bar>sint v\<bar> \<le> 2 ^ 62 - 1" for u v :: goint
    using that by (subst sint_word_ariths(2)) (auto intro!: signed_take_bit_int_eq_self simp: abs_le_iff)
  have "sint (maxX - minX) = sint maxX - sint minX" "sint (maxY - minY) = sint maxY - sint minY"
    using small ends by (simp_all only: diff simp_thms)
  moreover have "coordsToBBox coords = Some \<lparr>bx_x = minX, bx_y = minY, bx_w = maxX - minX, bx_h = maxY - minY\<rparr>"
    by (simp add: coordsToBBox_def Cons c run)
  ultimately show ?thesis using w ends by (auto simp: Cons c)
qed

definition demo_corners :: "(goint \<times> goint) list" where
  "demo_corners = [(3, 9), (-2, 4)]"

theorem box_contains_the_corners_witness:
  "case coordsToBBox demo_corners of None \<Rightarrow> False | Some b \<Rightarrow> sint (bx_x b) \<le> -2 \<and> 3 \<le> sint (bx_x b) + sint (bx_w b)"
proof -
  have "\<forall>(cx, cy)\<in>set demo_corners. \<bar>sint cx\<bar> \<le> 2 ^ 62 - 1 \<and> \<bar>sint cy\<bar> \<le> 2 ^ 62 - 1" by (simp add: demo_corners_def)
  from box_contains_the_corners [OF this] show ?thesis by (cases "coordsToBBox demo_corners") (simp_all add: demo_corners_def)
qed

definition demo_idle_queue :: dbworld where
  "demo_idle_queue = world_of (empty_db\<lparr>tenants := [(''no'', ''AB10'')], vehicles := [demo_car]\<rparr>)"

definition demo_items :: "scan_in list" where
  "demo_items = [demo_scan_in ''ab 1O'', demo_scan_in []]"

definition demo_batch :: "anpr_body response \<times> dbworld" where
  "demo_batch = finish (enqueueBatch demo_gateway demo_toll_now demo_scanner (Some demo_items)) demo_idle_queue"

theorem accepted_scans_are_queued_witness:
  "\<exists>row. fst demo_batch = Json 202 (JobsAccepted 1 [aj_id row]) \<and> anpr_jobs (w_db (snd demo_batch)) = [row] \<and> queue_ok (w_db (snd demo_batch))"
proof -
  have w: "healthy demo_idle_queue" "map_of (tenants (w_db demo_idle_queue)) (c_tenant demo_scanner) \<noteq> None" "c_tenant demo_scanner \<noteq> []"
    "inj (new_uuid demo_toll_now)" "anpr_jobs (w_db demo_idle_queue) = []" "queue_ok (w_db demo_idle_queue)"
    by (simp_all add: demo_idle_queue_def healthy_def world_of_def empty_db_def demo_scanner_def demo_toll_now_def inj_on_def queue_ok_def)
  have one: "length (filter (\<lambda>it. sc_plate it \<noteq> []) demo_items) = 1" "length demo_items \<in> {1..1000}"
    by (simp_all add: demo_items_def demo_scan_in_def)
  have run: "finish (enqueueBatch demo_gateway demo_toll_now demo_scanner (Some demo_items)) demo_idle_queue = (fst demo_batch, snd demo_batch)"
    by (simp add: demo_batch_def)
  from accepted_scans_are_queued [OF run] show ?thesis
  proof (elim disjE exE conjE, goal_cases)
    case (3 items rows)
    from 3(1) have items: "items = demo_items" by simp
    from 3(7) w have "length rows = 1" unfolding items one(1) by simp
    moreover from 3(4) w(5) have "anpr_jobs (w_db (snd demo_batch)) = rows" by simp
    moreover from 3(6) w(6) have "queue_ok (w_db (snd demo_batch))" by simp
    moreover note 3(3)
    ultimately show ?thesis by (cases rows) auto
  qed (use one(2) in simp_all)
qed

end
