(* ===== verification/Insurance.thy ===== *)
theory Insurance
  imports Connectors Registry
begin

text \<open>
  The insurance service (\<open>services/insurance/internal/worker/worker.go\<close>, \<open>internal/api/api.go\<close>): the
  worker that drains the verify jobs of the retry queue, and the HTTP surface. The provider of a
  tenant is a parameter: what it answers at the moment it is asked. A panic is answered by the
  recovery middleware of the server with 500. Error texts are not modelled.
\<close>

section \<open>Providers\<close>

text \<open>\<open>None\<close> inside an answer: the provider has no record.\<close>

record 'rec verifier =
  vf_info :: adapter_info
  vf_byPlate :: "string \<Rightarrow> string \<Rightarrow> goerr + 'rec option"
  vf_byVIN :: "string \<Rightarrow> string \<Rightarrow> goerr + 'rec option"

record policy =
  po_provider :: string
  po_policy_number :: string
  po_starts_at :: time
  po_expires_at :: time
  po_is_active :: bool

definition insurance_DevStub :: "policy verifier" where
  "insurance_DevStub =
     \<lparr>vf_info = \<lparr>ai_module = ''insurance'', ai_provider = ''dev-stub'', ai_region = []\<rparr>,
      vf_byPlate = (\<lambda>_ _. Inr None), vf_byVIN = (\<lambda>_ _. Inr None)\<rparr>"

section \<open>The worker\<close>

record 'rec verify_svc =
  vs_pool :: dbrole
  vs_router :: "'rec verifier router"

definition vs_session :: "'rec verify_svc \<Rightarrow> session" where
  "vs_session w = session_of (vs_pool w) []"

definition vehicle_of_plate :: "session \<Rightarrow> string \<Rightarrow> string \<Rightarrow> db \<Rightarrow> uuid option" where
  "vehicle_of_plate s ten plate d = map_option v_id (row_seen v_tenant s (\<lambda>v. v_tenant v = ten \<and> v_plate v = plate) (vehicles d))"

definition insurance_row_of :: "surroundings \<Rightarrow> string \<Rightarrow> uuid \<Rightarrow> policy \<Rightarrow> insurance_row" where
  "insurance_row_of sur ten vid p =
     \<lparr>ir_id = new_uuid sur 0, ir_tenant = ten, ir_vehicle_id = vid, ir_provider = po_provider p,
      ir_policy_number = po_policy_number p, ir_starts_at = po_starts_at p, ir_expires_at = po_expires_at p,
      ir_is_active = po_is_active p\<rparr>"

definition insert_policy :: "session \<Rightarrow> insurance_row \<Rightarrow> db \<Rightarrow> sqlerr + unit \<times> db" where
  "insert_policy s r d =
     (if map_of (tenants d) (ir_tenant r) = None \<or> \<not> list_ex (\<lambda>v. v_id v = ir_vehicle_id r) (vehicles d) then Inl ForeignKeyViolation
      else case insert_row ir_tenant s (\<lambda>old new. ir_id old = ir_id new) r (insurance_records d) of
             Inl e \<Rightarrow> Inl e
           | Inr rows \<Rightarrow> Inr ((), d\<lparr>insurance_records := rows\<rparr>))"

definition set_insurance_expiry :: "time \<Rightarrow> vehicle_row \<Rightarrow> vehicle_row" where
  "set_insurance_expiry t v = v\<lparr>v_insurance_expires_at := Some t\<rparr>"

text \<open>A plate the registry does not know commits an empty transaction.\<close>

definition persistPolicy_tx :: "policy verify_svc \<Rightarrow> surroundings \<Rightarrow> string \<Rightarrow> string \<Rightarrow> policy \<Rightarrow> unit job" where
  "persistPolicy_tx w sur ten plate p =
     bind (exec_try (query_row (vehicle_of_plate (vs_session w) ten plate))) (\<lambda>res.
     case res of
       Inl e \<Rightarrow> if e = NoRows then ret () else stop PlainError
     | Inr vid \<Rightarrow>
         andthen (exec_job (insert_policy (vs_session w) (insurance_row_of sur ten vid p))) (
         exec_job (change (update_vehicle (vs_session w) vid (set_insurance_expiry (po_expires_at p))))))"

definition persistPolicy :: "policy verify_svc \<Rightarrow> surroundings \<Rightarrow> string \<Rightarrow> string \<Rightarrow> policy \<Rightarrow> unit job" where
  "persistPolicy w sur ten plate p = in_tx PlainError (persistPolicy_tx w sur ten plate p)"

definition insurance_run :: "policy verify_svc \<Rightarrow> surroundings \<Rightarrow> retry_row \<Rightarrow> unit job" where
  "insurance_run w sur j =
     (case For (vs_router w) (rj_tenant j) of
        Inl e \<Rightarrow> stop e
      | Inr prov \<Rightarrow>
          if rj_kind j = ''verify'' then
            (case rj_payload j of
               None \<Rightarrow> stop PlainError
             | Some (_, plate) \<Rightarrow>
                 (case vf_byPlate prov (rj_tenant j) plate of
                    Inl e \<Rightarrow> bind (health_Fail (vs_pool w) sur (rj_tenant j) (vf_info prov)) (\<lambda>_. stop e)
                  | Inr policy \<Rightarrow>
                      bind (health_OK (vs_pool w) sur (rj_tenant j) (vf_info prov)) (\<lambda>_.
                      case policy of
                        None \<Rightarrow> ret ()
                      | Some p \<Rightarrow> persistPolicy w sur (rj_tenant j) plate p)))
          else ret ())"

definition insurance_tick :: "policy verify_svc \<Rightarrow> surroundings \<Rightarrow> unit drain_step" where
  "insurance_tick w sur =
     bind (attempt (Claim (vs_pool w) sur ''insurance'')) (\<lambda>job.
     case job of
       Inl _ \<Rightarrow> ret ()
     | Inr j \<Rightarrow>
         bind (attempt (insurance_run w sur j)) (\<lambda>res.
         case res of
           Inl e \<Rightarrow> bind (attempt (Done (vs_pool w) sur (rj_id j) (Some e))) (\<lambda>_. ret ())
         | Inr _ \<Rightarrow> bind (attempt (Done (vs_pool w) sur (rj_id j) None)) (\<lambda>_. ret ())))"

section \<open>The HTTP surface\<close>

datatype 'rec verify_body =
    Verified string "'rec option"
  | Enqueued nat
  | ProviderHealth string string string int "time option" "time option"

type_synonym 'a insurance_step = "(policy verify_body, 'a) handler"
type_synonym insurance_handler = "(policy verify_body, policy verify_body response) handler"

text \<open>The statements of \<open>cachePolicy\<close> run one by one, outside a transaction; \<open>verify\<close> drops its error.\<close>

definition cachePolicy :: "policy verify_svc \<Rightarrow> surroundings \<Rightarrow> string \<Rightarrow> string \<Rightarrow> policy \<Rightarrow> unit job" where
  "cachePolicy a sur ten plate p =
     andthen (exec_job (query (\<lambda>_. ()))) (
     bind (exec_try (query_row (vehicle_of_plate (vs_session a) ten plate))) (\<lambda>res.
     case res of
       Inl e \<Rightarrow> if e = NoRows then ret () else stop PlainError
     | Inr vid \<Rightarrow>
         andthen (exec_job (insert_policy (vs_session a) (insurance_row_of sur ten vid p))) (
         exec_job (change (update_vehicle (vs_session a) vid (set_insurance_expiry (po_expires_at p)))))))"

definition insurance_verify :: "policy verify_svc \<Rightarrow> surroundings \<Rightarrow> claims \<Rightarrow> string \<Rightarrow> string \<Rightarrow> insurance_handler" where
  "insurance_verify a sur c plate vin =
     (if plate = [] \<and> vin = [] then stop (Err 400 ''missing'')
      else case For (vs_router a) (c_tenant c) of
        Inl _ \<Rightarrow> stop (Err 503 ''no_provider'')
      | Inr prov \<Rightarrow>
          (case (if plate \<noteq> [] then vf_byPlate prov (c_tenant c) plate else vf_byVIN prov (c_tenant c) vin) of
             Inl _ \<Rightarrow> bind (health_Fail (vs_pool a) sur (c_tenant c) (vf_info prov)) (\<lambda>_. stop (Err 502 ''provider_error''))
           | Inr policy \<Rightarrow>
               bind (health_OK (vs_pool a) sur (c_tenant c) (vf_info prov)) (\<lambda>_.
               andthen (case policy of
                          Some p \<Rightarrow> if plate \<noteq> [] then bind (attempt (cachePolicy a sur (c_tenant c) plate p)) (\<lambda>_. ret ()) else ret ()
                        | None \<Rightarrow> ret ()) (
               ret (Json 200 (Verified (ai_provider (vf_info prov)) policy))))))"

text \<open>The vehicles whose insurance has run out or is not known, in table order, 5000 at most.\<close>

definition uninsured :: "session \<Rightarrow> time \<Rightarrow> db \<Rightarrow> (uuid \<times> string) list" where
  "uninsured s now d =
     map (\<lambda>v. (v_id v, v_plate v)) (take 5000 (filter (\<lambda>v. case v_insurance_expires_at v of None \<Rightarrow> True | Some t \<Rightarrow> t < now)
       (rows_seen v_tenant s (vehicles d))))"

definition insurance_reconcile :: "policy verify_svc \<Rightarrow> surroundings \<Rightarrow> claims \<Rightarrow> insurance_handler" where
  "insurance_reconcile a sur c =
     andthen (WithTenant (Some c)) (
     bind (exec (query (uninsured (session_of (vs_pool a) (c_tenant c)) (db_now sur)))) (\<lambda>rows.
     andthen (for_each (\<lambda>(k, veh).
         bind (Enqueue (vs_pool a) sur (new_uuid sur k) (c_tenant c) ''insurance'' ''verify'' (Some veh) 5) (\<lambda>_. ret ()))
       (List.enumerate 0 rows)) (
     ret (Json 202 (Enqueued (length rows))))))"

text \<open>Without a provider \<open>Info\<close> is called on a nil interface. A failed snapshot reads as \<open>unknown\<close>.\<close>

definition insurance_healthz :: "policy verify_svc \<Rightarrow> claims \<Rightarrow> insurance_handler" where
  "insurance_healthz a c =
     (case For (vs_router a) (c_tenant c) of
        Inl _ \<Rightarrow> stop Internal
      | Inr prov \<Rightarrow>
          bind (health_Snapshot (vs_pool a) (c_tenant c) (vf_info prov)) (\<lambda>res.
          case (case res of Inl _ \<Rightarrow> (''unknown'', None, None, 0) | Inr x \<Rightarrow> x) of
            (state, lastOK, lastFail, streak) \<Rightarrow>
              ret (Json 200 (ProviderHealth (ai_provider (vf_info prov)) (ai_module (vf_info prov)) state streak lastOK lastFail))))"

definition insurance_webhook :: insurance_handler where
  "insurance_webhook = ret (Status 202)"

datatype verify_route = GetVerify string string | PostReconcile | GetProviderHealth | PostWebhook string

definition insurance_mux :: "jwt_parser \<Rightarrow> issuer \<Rightarrow> policy verify_svc \<Rightarrow> surroundings \<Rightarrow> headers \<Rightarrow> verify_route \<Rightarrow> insurance_handler" where
  "insurance_mux jwt i a sur h route =
     (case route of
        GetVerify plate vin \<Rightarrow> Middleware jwt i h (\<lambda>c. insurance_verify a sur c plate vin)
      | PostReconcile \<Rightarrow> Middleware jwt i h (\<lambda>c. RequirePermission ''registry:write'' (Some c) (insurance_reconcile a sur c))
      | GetProviderHealth \<Rightarrow> Middleware jwt i h (insurance_healthz a)
      | PostWebhook _ \<Rightarrow> insurance_webhook)"

section \<open>The worker keeps the contract of the queue\<close>

lemma preserved_persist [frame_intros]:
  "preserved (\<lambda>d. retry_jobs d = rows) (insert_policy s r)"
  "preserved (\<lambda>d. retry_jobs d = rows) (change (update_vehicle s vid f))"
  "preserved (\<lambda>d. retry_jobs d = rows) (upsert_health s ten i new upd)"
  by (auto simp: preserved_def insert_policy_def update_vehicle_def upsert_health_def split: if_splits sum.splits)

lemma tx_persistPolicy: "keeps same_tx (persistPolicy_tx w sur ten plate p)"
  unfolding persistPolicy_tx_def by (intro tx_steps)

lemma iv_persistPolicy: "keeps (kept (\<lambda>d. retry_jobs d = rows)) (persistPolicy_tx w sur ten plate p)"
  unfolding persistPolicy_tx_def by (intro iv_steps frame_intros)

lemma ka_health:
  "keeps (kept_alone (\<lambda>d. retry_jobs d = rows)) (health_OK role sur ten i)"
  "keeps (kept_alone (\<lambda>d. retry_jobs d = rows)) (health_Fail role sur ten i)"
  unfolding health_OK_def health_Fail_def health_exec_def by (intro ka_steps frame_intros)+

lemma ka_insurance_run: "keeps (kept_alone (\<lambda>d. retry_jobs d = rows)) (insurance_run w sur j)"
  unfolding insurance_run_def persistPolicy_def
  by (intro ka_steps ka_health tx_persistPolicy iv_persistPolicy)

interpretation ins: queue_worker "vs_pool w" "''insurance''" "insurance_run w" "insurance_tick w" for w
proof unfold_locales
  fix sur
  show "insurance_tick w sur = drain (vs_pool w) ''insurance'' (insurance_run w) sur"
    by (simp add: insurance_tick_def drain_def fun_eq_iff bind_def split: sum.split prod.split)
next
  fix v sur j res v'
  assume "w_snap v = None" "insurance_run w sur j v = (res, v')"
  with kept_aloneD [OF ka_insurance_run] show "w_snap v' = None \<and> retry_jobs (w_db v') = retry_jobs (w_db v)" by blast
qed

section \<open>What a verify job writes\<close>

lemma health_outcome:
  fixes v v' :: dbworld
  assumes "health_OK role sur ten i v = (res, v') \<or> health_Fail role sur ten i v = (res, v')" and "w_snap v = None"
  obtains x h where "res = Inr x" "w_snap v' = None" "w_db v' = (w_db v)\<lparr>provider_health := h\<rparr>"
proof -
  from assms(1) obtain new upd where run: "health_exec (upsert_health (session_of role []) ten i new upd) v = (res, v')"
    unfolding health_OK_def health_Fail_def by blast
  let ?q = "\<lambda>d. \<exists>h. d = (w_db v)\<lparr>provider_health := h\<rparr>"
  have "preserved ?q (upsert_health s ten i new upd)" for s
    by (auto simp: preserved_def upsert_health_def split: if_splits)
  then have "keeps (kept_alone ?q) (health_exec (upsert_health (session_of role []) ten i new upd))"
    unfolding health_exec_def by (intro ka_steps frame_intros)
  moreover have "?q (w_db v)" by (rule exI [of _ "provider_health (w_db v)"]) simp
  ultimately have "w_snap v' = None" "?q (w_db v')" using kept_aloneD run assms(2) by blast+
  moreover have "stops_with (\<lambda>_. False) (health_exec (upsert_health (session_of role []) ten i new upd))"
    unfolding health_exec_def by (intro sw_steps)
  with run have "\<exists>x. res = Inr x" by (cases res) (auto dest: stops_withD)
  ultimately show thesis using that by blast
qed

text \<open>The vehicle gets the record and the new date together, or neither.\<close>

definition insured_as :: "session \<Rightarrow> surroundings \<Rightarrow> string \<Rightarrow> vehicle_row \<Rightarrow> policy \<Rightarrow> db \<Rightarrow> db" where
  "insured_as s sur ten v p d =
     (update_vehicle s (v_id v) (set_insurance_expiry (po_expires_at p)) d)
       \<lparr>insurance_records := insurance_records d @ [insurance_row_of sur ten (v_id v) p]\<rparr>"

lemma persistPolicy_outcome:
  fixes v v' :: dbworld
  assumes run: "persistPolicy w sur ten plate p v = (res, v')" and idle: "w_snap v = None"
  shows "w_db v' = w_db v \<or> (\<exists>x\<in>set (vehicles (w_db v)). v_tenant x = ten \<and> v_plate x = plate
     \<and> w_db v' = insured_as (vs_session w) sur ten x p (w_db v))"
  using run [unfolded persistPolicy_def] idle tx_persistPolicy
proof (cases rule: in_tx_cases)
  case (committed u v1 v2)
  let ?s = "vs_session w"
  from committed(2) obtain r3 v3 where
    veh: "(exec_try (query_row (vehicle_of_plate ?s ten plate)) :: (sqlerr + uuid) job) v1 = (Inr r3, v3)" and
    rest: "((case r3 of Inl e \<Rightarrow> if e = NoRows then ret () else stop PlainError
       | Inr vid \<Rightarrow> andthen (exec_job (insert_policy ?s (insurance_row_of sur ten vid p)))
           (exec_job (change (update_vehicle ?s vid (set_insurance_expiry (po_expires_at p)))))) :: unit job) v3 = (Inr u, v2)"
    unfolding persistPolicy_tx_def by (elim bindE) (rule that; simp)
  from keepsD [OF rd_exec_try [OF reads_query(2)] veh] have v3: "w_db v3 = w_db v" using committed by (simp add: same_db_def)
  show ?thesis
  proof (cases r3)
    case (Inl e)
    with rest v3 committed show ?thesis by (auto split: if_splits)
  next
    case (Inr vid)
    from veh Inr have "vehicle_of_plate ?s ten plate (w_db v1) = Some vid"
      by (cases rule: exec_try_cases) auto
    with committed obtain x where x: "row_seen v_tenant ?s (\<lambda>v. v_tenant v = ten \<and> v_plate v = plate) (vehicles (w_db v)) = Some x" "vid = v_id x"
      by (auto simp: vehicle_of_plate_def)
    from rest Inr obtain v4 where ins: "(exec_job (insert_policy ?s (insurance_row_of sur ten vid p)) :: unit job) v3 = (Inr (), v4)"
      and upd: "(exec_job (change (update_vehicle ?s vid (set_insurance_expiry (po_expires_at p)))) :: unit job) v4 = (Inr (), v2)"
      by (auto elim!: andthenE)
    from exec_db [OF ins] v3 have "w_db v4 = (w_db v)\<lparr>insurance_records := insurance_records (w_db v) @ [insurance_row_of sur ten vid p]\<rparr>"
      by (auto simp: insert_policy_def insert_row_Inr split: if_splits sum.splits)
    with exec_change_db [OF upd] x(2) have "w_db v2 = insured_as ?s sur ten x p (w_db v)"
      by (simp add: insured_as_def update_vehicle_def)
    with row_seen_SomeD [OF x(1)] committed show ?thesis by auto
  qed
qed simp

lemma insurance_run_outcome:
  fixes v v' :: dbworld
  assumes run: "insurance_run w sur j v = (res, v')" and idle: "w_snap v = None"
  shows "\<exists>h. w_db v' = (w_db v)\<lparr>provider_health := h\<rparr>
    \<or> (\<exists>prov u plate p x. For (vs_router w) (rj_tenant j) = Inr prov \<and> rj_kind j = ''verify'' \<and> rj_payload j = Some (u, plate)
         \<and> vf_byPlate prov (rj_tenant j) plate = Inr (Some p) \<and> x \<in> set (vehicles (w_db v)) \<and> v_tenant x = rj_tenant j \<and> v_plate x = plate
         \<and> w_db v' = (insured_as (vs_session w) sur (rj_tenant j) x p (w_db v))\<lparr>provider_health := h\<rparr>)"
proof -
  have same: "\<exists>h. d = d\<lparr>provider_health := h\<rparr>" for d :: db by (rule exI [of _ "provider_health d"]) simp
  show ?thesis
  proof (cases "For (vs_router w) (rj_tenant j)")
    case (Inl e)
    with run have "v' = v" by (simp add: insurance_run_def stop_def)
    with same [of "w_db v"] show ?thesis by blast
  next
    case prov: (Inr prov)
    show ?thesis
    proof (cases "rj_kind j = ''verify'' \<and> rj_payload j \<noteq> None")
      case False
      with run prov have "v' = v" by (cases "rj_payload j") (auto simp: insurance_run_def stop_def ret_def split: if_splits)
      with same [of "w_db v"] show ?thesis by blast
    next
      case True
      then obtain u plate where job: "rj_kind j = ''verify''" "rj_payload j = Some (u, plate)" by auto
      show ?thesis
      proof (cases "vf_byPlate prov (rj_tenant j) plate")
        case (Inl e)
        obtain r1 v1 where fail: "(health_Fail (vs_pool w) sur (rj_tenant j) (vf_info prov) :: (sqlerr + unit) job) v = (r1, v1)" by fastforce
        from health_outcome [OF disjI2 [OF fail] idle] obtain x where "r1 = Inr x" and
          v1: "\<exists>h. w_db v1 = (w_db v)\<lparr>provider_health := h\<rparr>" by blast
        with run prov job Inl fail have "v' = v1" by (simp add: insurance_run_def bind_def stop_def)
        with v1 show ?thesis by blast
      next
        case (Inr policy)
        obtain r1 v1 where ok: "(health_OK (vs_pool w) sur (rj_tenant j) (vf_info prov) :: (sqlerr + unit) job) v = (r1, v1)" by fastforce
        from health_outcome [OF disjI1 [OF ok] idle] obtain x h where r1: "r1 = Inr x" and v1: "w_snap v1 = None"
          "w_db v1 = (w_db v)\<lparr>provider_health := h\<rparr>" by blast
        show ?thesis
        proof (cases policy)
          case None
          with run prov job Inr ok r1 have "v' = v1" by (simp add: insurance_run_def bind_def ret_def)
          with v1(2) show ?thesis by blast
        next
          case (Some p)
          with run prov job Inr ok r1 have "persistPolicy w sur (rj_tenant j) plate p v1 = (res, v')"
            by (simp add: insurance_run_def bind_def)
          from persistPolicy_outcome [OF this v1(1)] show ?thesis
          proof
            assume "w_db v' = w_db v1"
            with v1(2) show ?thesis by (intro exI [of _ h] disjI1) simp
          next
            assume "\<exists>x\<in>set (vehicles (w_db v1)). v_tenant x = rj_tenant j \<and> v_plate x = plate
              \<and> w_db v' = insured_as (vs_session w) sur (rj_tenant j) x p (w_db v1)"
            then obtain x where x: "x \<in> set (vehicles (w_db v1))" "v_tenant x = rj_tenant j" "v_plate x = plate"
              and v': "w_db v' = insured_as (vs_session w) sur (rj_tenant j) x p (w_db v1)" by blast
            have "w_db v' = (insured_as (vs_session w) sur (rj_tenant j) x p (w_db v))\<lparr>provider_health := h\<rparr>"
              unfolding v' v1(2) by (simp add: insured_as_def update_vehicle_def)
            moreover from x(1) have "x \<in> set (vehicles (w_db v))" by (simp add: v1(2))
            ultimately show ?thesis using prov job Inr Some x(2,3) by blast
          qed
        qed
      qed
    qed
  qed
qed

section \<open>The properties\<close>

text \<open>
  A verification lands as a whole or not at all. Whatever fails during a tick of the insurance
  worker, apart from the rows of the queue and of provider health either nothing changes, or this: the
  earliest due insurance job is a \<open>verify\<close> job of a plate, the provider bound to its tenant (or the
  default one) answered it with a policy, a vehicle of the tenant has that plate, and exactly that
  vehicle's insurance date becomes the expiry of the policy and one record of the policy was added
  for it.
\<close>

theorem insurance_tick_all_or_nothing:
  assumes "insurance_tick w sur v = (res, v')" and "w_snap v = None"
  shows "\<exists>h jobs. w_db v' = (w_db v)\<lparr>retry_jobs := jobs, provider_health := h\<rparr>
    \<or> (\<exists>j u plate prov p x. due_job (vs_session w) ''insurance'' (db_now sur) (w_db v) = Some j
         \<and> rj_kind j = ''verify'' \<and> rj_payload j = Some (u, plate) \<and> For (vs_router w) (rj_tenant j) = Inr prov
         \<and> vf_byPlate prov (rj_tenant j) plate = Inr (Some p)
         \<and> x \<in> set (vehicles (w_db v)) \<and> v_tenant x = rj_tenant j \<and> v_plate x = plate
         \<and> w_db v' = (update_vehicle (vs_session w) (v_id x) (set_insurance_expiry (po_expires_at p)) (w_db v))
             \<lparr>insurance_records := insurance_records (w_db v) @ [insurance_row_of sur (rj_tenant j) (v_id x) p],
              retry_jobs := jobs, provider_health := h\<rparr>)"
proof (cases rule: ins.tick_runs [OF assms, case_names nothing ran])
  case nothing
  then show ?thesis by (intro exI [of _ "retry_jobs (w_db v)"] exI [of _ "provider_health (w_db v)"] disjI1) simp
next
  case (ran j v1 r v2)
  obtain jobs where v1: "w_db v1 = (w_db v)\<lparr>retry_jobs := jobs\<rparr>" using ran(3) by (simp add: update_retry_def)
  from insurance_run_outcome [OF ran(4,2)] obtain h where
    "w_db v2 = (w_db v1)\<lparr>provider_health := h\<rparr>
     \<or> (\<exists>prov u plate p x. For (vs_router w) (rj_tenant j) = Inr prov \<and> rj_kind j = ''verify'' \<and> rj_payload j = Some (u, plate)
         \<and> vf_byPlate prov (rj_tenant j) plate = Inr (Some p) \<and> x \<in> set (vehicles (w_db v1)) \<and> v_tenant x = rj_tenant j \<and> v_plate x = plate
         \<and> w_db v2 = (insured_as (vs_session w) sur (rj_tenant j) x p (w_db v1))\<lparr>provider_health := h\<rparr>)" by blast
  then show ?thesis
  proof (elim disjE exE conjE)
    assume v2: "w_db v2 = (w_db v1)\<lparr>provider_health := h\<rparr>"
    have "w_db v' = (w_db v)\<lparr>retry_jobs := retry_jobs (w_db v'), provider_health := h\<rparr>"
      by (subst ran(5)) (simp add: v2 v1)
    then show ?thesis by blast
  next
    fix prov u plate p x
    assume job: "For (vs_router w) (rj_tenant j) = Inr prov" "rj_kind j = ''verify''" "rj_payload j = Some (u, plate)"
      "vf_byPlate prov (rj_tenant j) plate = Inr (Some p)" "x \<in> set (vehicles (w_db v1))" "v_tenant x = rj_tenant j" "v_plate x = plate"
      and v2: "w_db v2 = (insured_as (vs_session w) sur (rj_tenant j) x p (w_db v1))\<lparr>provider_health := h\<rparr>"
    have "w_db v' = (update_vehicle (vs_session w) (v_id x) (set_insurance_expiry (po_expires_at p)) (w_db v))
             \<lparr>insurance_records := insurance_records (w_db v) @ [insurance_row_of sur (rj_tenant j) (v_id x) p],
              retry_jobs := retry_jobs (w_db v'), provider_health := h\<rparr>"
      by (subst ran(5)) (simp add: v2 v1 insured_as_def update_vehicle_def)
    moreover have "x \<in> set (vehicles (w_db v))" using job(5) by (simp add: v1)
    ultimately show ?thesis using job ran(1) by (auto simp: vs_session_def)
  qed
qed

text \<open>The bureau knows one car; a verify job of it is due.\<close>

definition demo_policy :: policy where
  "demo_policy = \<lparr>po_provider = ''bureau'', po_policy_number = ''P1'', po_starts_at = days 1, po_expires_at = days 300, po_is_active = False\<rparr>"

definition demo_insurer :: "policy verify_svc" where
  "demo_insurer = \<lparr>vs_pool = BypassesRls,
     vs_router = Bind ''no'' \<lparr>vf_info = demo_bureau, vf_byPlate = (\<lambda>_ plate. Inr (if plate = ''AB10'' then Some demo_policy else None)),
       vf_byVIN = (\<lambda>_ _. Inl PlainError)\<rparr> NewRouter\<rparr>"

definition demo_vehicle :: "uuid \<Rightarrow> string \<Rightarrow> string \<Rightarrow> vehicle_row" where
  "demo_vehicle k ten plate = \<lparr>v_id = k, v_tenant = ten, v_plate = plate, v_vin = None, v_make = None, v_model = None, v_year = None,
     v_color = None, v_category = None, v_emission_class = None, v_owner_id = None, v_registration_expires_at = None,
     v_insurance_expires_at = None, v_inspection_expires_at = None, v_tax_paid_through = None, v_is_stolen = False,
     v_is_seized = False, v_is_wanted = False, v_updated_at = 0\<rparr>"

definition demo_due :: "string \<Rightarrow> dbworld" where
  "demo_due kind = world_of (empty_db\<lparr>tenants := [(''no'', [])], vehicles := [demo_vehicle 8 ''no'' ''AB10'', demo_vehicle 9 ''se'' ''CD20''],
     retry_jobs := [retry_row_of (demo_at 1) 7 ''no'' ''insurance'' kind (Some (8, ''AB10'')) 5]\<rparr>)"

definition demo_verified :: dbworld where
  "demo_verified = snd (insurance_tick demo_insurer (demo_at 2) (demo_due ''verify''))"

lemma demo_verified_facts:
  "map (\<lambda>v. (v_id v, v_insurance_expires_at v)) (vehicles (w_db demo_verified)) = [(8, Some (days 300)), (9, None)]"
  "map ir_vehicle_id (insurance_records (w_db demo_verified)) = [8]" "insurance_records (w_db (demo_due ''verify'')) = []"
  "map rj_status (retry_jobs (w_db demo_verified)) = [RDone]" "w_snap (demo_due ''verify'') = None"
  by code_simp+

theorem insurance_tick_all_or_nothing_witness:
  "\<exists>p. map (\<lambda>v. (v_id v, v_insurance_expires_at v)) (vehicles (w_db demo_verified)) = [(8, Some (days 300)), (9, None)]
     \<and> insurance_records (w_db demo_verified) = [insurance_row_of (demo_at 2) ''no'' 8 p]"
proof -
  have run: "insurance_tick demo_insurer (demo_at 2) (demo_due ''verify'') = (fst (insurance_tick demo_insurer (demo_at 2) (demo_due ''verify'')), demo_verified)"
    by (simp add: demo_verified_def)
  from insurance_tick_all_or_nothing [OF run demo_verified_facts(5)] show ?thesis
  proof (elim exE disjE conjE)
    fix h jobs
    assume "w_db demo_verified = (w_db (demo_due ''verify''))\<lparr>retry_jobs := jobs, provider_health := h\<rparr>"
    with demo_verified_facts(2,3) show ?thesis by simp
  next
    fix h jobs j p x
    assume j: "due_job (vs_session demo_insurer) ''insurance'' (db_now (demo_at 2)) (w_db (demo_due ''verify'')) = Some j"
      and db: "w_db demo_verified = (update_vehicle (vs_session demo_insurer) (v_id x) (set_insurance_expiry (po_expires_at p)) (w_db (demo_due ''verify'')))
             \<lparr>insurance_records := insurance_records (w_db (demo_due ''verify'')) @ [insurance_row_of (demo_at 2) (rj_tenant j) (v_id x) p],
              retry_jobs := jobs, provider_health := h\<rparr>"
    from j have ten: "rj_tenant j = ''no''" by (auto dest!: due_jobD(1) simp: demo_due_def world_of_def empty_db_def retry_row_of_def)
    from db have recs: "insurance_records (w_db demo_verified) = [insurance_row_of (demo_at 2) ''no'' (v_id x) p]"
      by (simp add: demo_verified_facts(3) ten)
    with demo_verified_facts(2) have "v_id x = 8" by (simp add: insurance_row_of_def)
    with recs demo_verified_facts(1) show ?thesis by auto
  qed
qed

section \<open>Reconciling\<close>

definition reconcile_jobs :: "dbrole \<Rightarrow> surroundings \<Rightarrow> string \<Rightarrow> string \<Rightarrow> nat \<Rightarrow> (uuid \<times> string) list \<Rightarrow> retry_row list" where
  "reconcile_jobs role sur ten module n rows =
     (if role = BypassesRls
      then map (\<lambda>(k, veh). retry_row_of sur (new_uuid sur k) ten module ''verify'' (Some veh) 5) (List.enumerate n rows)
      else [])"

text \<open>Enqueuing a list of vehicles, one statement each, the errors dropped.\<close>

lemma enqueue_all:
  fixes v :: dbworld
  assumes "healthy v" and "w_snap v = None" and "map_of (tenants (w_db v)) ten \<noteq> None" and "inj (new_uuid sur)"
    and "\<forall>j\<in>set (retry_jobs (w_db v)). \<forall>k\<ge>n. rj_id j \<noteq> new_uuid sur k"
  shows "(for_each (\<lambda>(k, veh). bind (Enqueue role sur (new_uuid sur k) ten module ''verify'' (Some veh) 5) (\<lambda>_. ret ()))
       (List.enumerate n rows) :: (db, effect, 'r, unit) act) v
     = (Inr (), v\<lparr>w_db := (w_db v)\<lparr>retry_jobs := retry_jobs (w_db v) @ reconcile_jobs role sur ten module n rows\<rparr>\<rparr>)"
  using assms
proof (induction rows arbitrary: v n)
  case Nil
  then show ?case by (simp add: reconcile_jobs_def ret_def)
next
  case (Cons veh rows)
  let ?row = "retry_row_of sur (new_uuid sur n) ten module ''verify'' (Some veh) 5"
  let ?v = "v\<lparr>w_db := (w_db v)\<lparr>retry_jobs := retry_jobs (w_db v) @ (if role = BypassesRls then [?row] else [])\<rparr>\<rparr>"
  from Cons.prems(1,2) have v: "w_faults v = []" "\<not> w_aborted v" "w_snap v = None" by (simp_all add: healthy_def)
  have row: "rj_tenant ?row = ten" "rj_id ?row = new_uuid sur n" by (simp_all add: retry_row_of_def)
  have first: "(bind (Enqueue role sur (new_uuid sur n) ten module ''verify'' (Some veh) 5) (\<lambda>_. ret ()) :: (db, effect, 'r, unit) act) v = (Inr (), ?v)"
  proof (cases role)
    case BypassesRls
    have "list_ex (\<lambda>old. rj_id old = rj_id ?row) (retry_jobs (w_db v)) = False"
      using Cons.prems(5) row by (auto simp: list_ex_iff)
    with BypassesRls v Cons.prems(3) row show ?thesis
      by (auto simp: Enqueue_def bind_def exec_try_def Let_def query_def insert_retry_def insert_row_def ret_def)
  next
    case SubjectToRls
    with v Cons.prems(3) row show ?thesis
      by (cases v) (auto simp: Enqueue_def bind_def exec_try_def Let_def query_def insert_retry_def insert_row_def ret_def)
  qed
  have "\<forall>j\<in>set (retry_jobs (w_db ?v)). \<forall>k\<ge>Suc n. rj_id j \<noteq> new_uuid sur k"
    using Cons.prems(4,5) row by (fastforce simp: inj_def)
  with Cons.prems have rest: "(for_each (\<lambda>(k, veh). bind (Enqueue role sur (new_uuid sur k) ten module ''verify'' (Some veh) 5) (\<lambda>_. ret ()))
       (List.enumerate (Suc n) rows) :: (db, effect, 'r, unit) act) ?v
     = (Inr (), ?v\<lparr>w_db := (w_db ?v)\<lparr>retry_jobs := retry_jobs (w_db ?v) @ reconcile_jobs role sur ten module (Suc n) rows\<rparr>\<rparr>)"
    by (intro Cons.IH) simp_all
  show ?case by (simp add: andthen_ok [where w = v and m = "bind (Enqueue role sur (new_uuid sur n) ten module ''verify'' (Some veh) 5) (\<lambda>_. ret ())", OF first] rest) (simp add: reconcile_jobs_def)
qed

text \<open>
  Reconciling asks for exactly the vehicles that need it. Without faults, with fresh ids, the answer
  counts the vehicles the session sees whose insurance has run out or is not known, 5000 at most, and
  the queue grows by one verify job of the insurance module per such vehicle, in that order, due at
  once and with five attempts, under the caller's tenant - where the pool's role bypasses the
  policies. Where it does not, no job is queued and the answer is the same.
\<close>

theorem reconcile_enqueues_the_uninsured:
  assumes "finish (insurance_reconcile a sur c) v = (r, v')" and "healthy v" and "w_snap v = None"
    and "map_of (tenants (w_db v)) (c_tenant c) \<noteq> None" and "inj (new_uuid sur)"
    and "\<forall>j\<in>set (retry_jobs (w_db v)). \<forall>k. rj_id j \<noteq> new_uuid sur k"
  defines "rows \<equiv> uninsured (session_of (vs_pool a) (c_tenant c)) (db_now sur) (w_db v)"
  shows "r = Json 202 (Enqueued (length rows))
    \<and> w_db v' = (w_db v)\<lparr>retry_jobs := retry_jobs (w_db v) @
         (if vs_pool a = BypassesRls
          then map (\<lambda>(k, veh). retry_row_of sur (new_uuid sur k) (c_tenant c) ''insurance'' ''verify'' (Some veh) 5) (List.enumerate 0 rows)
          else [])\<rparr>"
proof -
  have "insurance_reconcile a sur c v = (Inr (Json 202 (Enqueued (length rows))),
      v\<lparr>w_db := (w_db v)\<lparr>retry_jobs := retry_jobs (w_db v) @ reconcile_jobs (vs_pool a) sur (c_tenant c) ''insurance'' 0 rows\<rparr>\<rparr>)"
    using assms(6)
    by (simp add: insurance_reconcile_def WithTenant_def andthen_def bind_def exec_query_ok [OF assms(2)]
        enqueue_all [OF assms(2,3,4,5)] rows_def ret_def)
  with assms(1) show ?thesis by (auto simp: finish_def reconcile_jobs_def)
qed

text \<open>A pool that bypasses the policies queues the cars of every tenant, one that does not queues none.\<close>

definition demo_admin :: claims where
  "demo_admin = \<lparr>c_tenant = ''no'', c_role = ''admin'', c_permissions = [''registry:write''], c_device = [], c_subject = Some 1,
     c_issued_at = 0, c_expires_at = days 9, c_jti = None\<rparr>"

definition demo_registered :: dbworld where
  "demo_registered = world_of (empty_db\<lparr>tenants := [(''no'', [])], vehicles := [demo_vehicle 8 ''no'' ''AB10'', demo_vehicle 9 ''se'' ''CD20'']\<rparr>)"

definition demo_reconciled :: "policy verify_svc \<Rightarrow> policy verify_body response \<times> dbworld" where
  "demo_reconciled a = finish (insurance_reconcile a (demo_at 2) demo_admin) demo_registered"

lemma demo_uninsured:
  "uninsured BypassRls (days 2) (w_db demo_registered) = [(8, ''AB10''), (9, ''CD20'')]"
  "uninsured (TenantSession ''no'') (days 2) (w_db demo_registered) = [(8, ''AB10'')]"
  by code_simp+

theorem reconcile_enqueues_the_uninsured_witness:
  "fst (demo_reconciled demo_insurer) = Json 202 (Enqueued 2)
     \<and> map rj_payload (retry_jobs (w_db (snd (demo_reconciled demo_insurer)))) = [Some (8, ''AB10''), Some (9, ''CD20'')]
     \<and> fst (demo_reconciled (demo_insurer\<lparr>vs_pool := SubjectToRls\<rparr>)) = Json 202 (Enqueued 1)
     \<and> retry_jobs (w_db (snd (demo_reconciled (demo_insurer\<lparr>vs_pool := SubjectToRls\<rparr>)))) = []"
proof -
  have start: "healthy demo_registered" "w_snap demo_registered = None" "map_of (tenants (w_db demo_registered)) (c_tenant demo_admin) \<noteq> None"
    "retry_jobs (w_db demo_registered) = []" by code_simp+
  have "inj (new_uuid (demo_at 2))" by (simp add: demo_at_def)
  note both = reconcile_enqueues_the_uninsured [where c = demo_admin, OF _ start(1,2,3) this]
  have c: "c_tenant demo_admin = ''no''" "db_now (demo_at 2) = days 2" by (simp_all add: demo_admin_def demo_at_def)
  have "vs_pool demo_insurer = BypassesRls" by (simp add: demo_insurer_def)
  with both [OF prod.collapse [symmetric], of demo_insurer] start(4)
    both [OF prod.collapse [symmetric], of "demo_insurer\<lparr>vs_pool := SubjectToRls\<rparr>"]
  show ?thesis
    by (simp add: demo_reconciled_def c demo_uninsured retry_row_of_def)
qed

section \<open>What the code does not do\<close>

text \<open>The comment says a job of an unknown kind becomes a dead letter after backoff; it is done.\<close>

lemma unknown_kind_is_done:
  "map rj_status (retry_jobs (w_db (snd (insurance_tick demo_insurer (demo_at 2) (demo_due ''renew''))))) = [RDone]"
  by code_simp

text \<open>A job whose end could not be written stays running, and no tick takes it again.\<close>

lemma running_is_forgotten:
  assumes "\<forall>j\<in>set (retry_jobs d). rj_status j = RRunning"
  shows "due_job s module now d = None"
proof -
  have "filter (\<lambda>j. rj_status j = RQueued \<and> rj_module j = module \<and> rj_next_run_at j \<le> now) (rows_seen rj_tenant s (retry_jobs d)) = []"
    using assms by (auto simp: filter_empty_conv table_simps)
  then show ?thesis by (simp add: due_job_def)
qed

lemma lost_connection_leaves_running:
  "map rj_status (retry_jobs (w_db (snd (insurance_tick demo_insurer (demo_at 2)
     ((demo_due ''renew'')\<lparr>w_faults := [False, False, False, False, False, True]\<rparr>))))) = [RRunning]"
  by code_simp

text \<open>The policy is not in force; the vehicle counts as insured for 298 days.\<close>

lemma inactive_policy_insures:
  "map ir_is_active (insurance_records (w_db demo_verified)) = [False]
   \<and> map v_insurance_expires_at (filter (\<lambda>v. v_id v = 8) (vehicles (w_db demo_verified))) = [Some (days 300)]"
  by code_simp

text \<open>
  The online check is not atomic: where the second write fails, the record is there, the date is not,
  and the caller is told all is well.
\<close>

definition demo_half :: "policy verify_body response \<times> dbworld" where
  "demo_half = finish (insurance_verify demo_insurer (demo_at 2) demo_admin ''AB10'' [])
     (demo_registered\<lparr>w_faults := [False, False, False, False, False, True]\<rparr>)"

lemma online_check_is_not_atomic:
  "fst demo_half = Json 200 (Verified ''bureau'' (Some demo_policy))
   \<and> map ir_vehicle_id (insurance_records (w_db (snd demo_half))) = [8]
   \<and> map v_insurance_expires_at (vehicles (w_db (snd demo_half))) = [None, None]"
  by code_simp

text \<open>Without a provider the health page panics, while the check answers 503.\<close>

lemma health_without_provider:
  "finish (insurance_healthz \<lparr>vs_pool = role, vs_router = NewRouter\<rparr> c) v = (Internal, v)"
  "plate \<noteq> [] \<Longrightarrow> finish (insurance_verify \<lparr>vs_pool = role, vs_router = NewRouter\<rparr> sur c plate vin) v = (Err 503 ''no_provider'', v)"
  by (simp_all add: insurance_healthz_def insurance_verify_def For_NewRouter finish_def stop_def)

end
