(* ===== verification/Inspection.thy ===== *)
theory Inspection
  imports Insurance
begin

text \<open>
  The inspection service (\<open>services/inspection/internal/worker/worker.go\<close>, \<open>cmd/server/main.go\<close>): the
  twin of the insurance service, on the same retry queue under its own module. Both workers are shown
  to bring the shared queue to rest.
\<close>

section \<open>The worker\<close>

text \<open>The certificate's URL is a text, never null.\<close>

record inspection =
  xi_station :: string
  xi_performed_at :: time
  xi_expires_at :: time
  xi_result :: string
  xi_certificate_url :: string

definition inspection_DevStub :: "inspection verifier" where
  "inspection_DevStub =
     \<lparr>vf_info = \<lparr>ai_module = ''inspection'', ai_provider = ''dev-stub'', ai_region = []\<rparr>,
      vf_byPlate = (\<lambda>_ _. Inr None), vf_byVIN = (\<lambda>_ _. Inr None)\<rparr>"

definition record_row :: "surroundings \<Rightarrow> string \<Rightarrow> uuid \<Rightarrow> inspection \<Rightarrow> inspection_row" where
  "record_row sur ten vid rec =
     \<lparr>xr_id = new_uuid sur 0, xr_tenant = ten, xr_vehicle_id = vid, xr_station = xi_station rec,
      xr_performed_at = xi_performed_at rec, xr_expires_at = xi_expires_at rec, xr_result = xi_result rec,
      xr_certificate_url = Some (xi_certificate_url rec)\<rparr>"

definition insert_inspection :: "session \<Rightarrow> inspection_row \<Rightarrow> db \<Rightarrow> sqlerr + unit \<times> db" where
  "insert_inspection s r d =
     (if xr_result r \<notin> {''pass'', ''fail'', ''conditional''} then Inl CheckViolation
      else if map_of (tenants d) (xr_tenant r) = None \<or> \<not> list_ex (\<lambda>v. v_id v = xr_vehicle_id r) (vehicles d) then Inl ForeignKeyViolation
      else case insert_row xr_tenant s (\<lambda>old new. xr_id old = xr_id new) r (inspection_records d) of
             Inl e \<Rightarrow> Inl e
           | Inr rows \<Rightarrow> Inr ((), d\<lparr>inspection_records := rows\<rparr>))"

definition set_inspection_expiry :: "time \<Rightarrow> vehicle_row \<Rightarrow> vehicle_row" where
  "set_inspection_expiry t v = v\<lparr>v_inspection_expires_at := Some t\<rparr>"

definition persistInspection_tx :: "inspection verify_svc \<Rightarrow> surroundings \<Rightarrow> string \<Rightarrow> string \<Rightarrow> inspection \<Rightarrow> unit job" where
  "persistInspection_tx w sur ten plate rec =
     bind (exec_try (query_row (vehicle_of_plate (vs_session w) ten plate))) (\<lambda>res.
     case res of
       Inl e \<Rightarrow> if e = NoRows then ret () else stop PlainError
     | Inr vid \<Rightarrow>
         andthen (exec_job (insert_inspection (vs_session w) (record_row sur ten vid rec))) (
         exec_job (change (update_vehicle (vs_session w) vid (set_inspection_expiry (xi_expires_at rec))))))"

definition persistInspection :: "inspection verify_svc \<Rightarrow> surroundings \<Rightarrow> string \<Rightarrow> string \<Rightarrow> inspection \<Rightarrow> unit job" where
  "persistInspection w sur ten plate rec = in_tx PlainError (persistInspection_tx w sur ten plate rec)"

definition inspection_run :: "inspection verify_svc \<Rightarrow> surroundings \<Rightarrow> retry_row \<Rightarrow> unit job" where
  "inspection_run w sur j =
     (case For (vs_router w) (rj_tenant j) of
        Inl e \<Rightarrow> stop e
      | Inr prov \<Rightarrow>
          if rj_kind j = ''verify'' then
            (case rj_payload j of
               None \<Rightarrow> stop PlainError
             | Some (_, plate) \<Rightarrow>
                 (case vf_byPlate prov (rj_tenant j) plate of
                    Inl e \<Rightarrow> bind (health_Fail (vs_pool w) sur (rj_tenant j) (vf_info prov)) (\<lambda>_. stop e)
                  | Inr rec \<Rightarrow>
                      bind (health_OK (vs_pool w) sur (rj_tenant j) (vf_info prov)) (\<lambda>_.
                      case rec of
                        None \<Rightarrow> ret ()
                      | Some x \<Rightarrow> persistInspection w sur (rj_tenant j) plate x)))
          else ret ())"

definition inspection_tick :: "inspection verify_svc \<Rightarrow> surroundings \<Rightarrow> unit drain_step" where
  "inspection_tick w sur =
     bind (attempt (Claim (vs_pool w) sur ''inspection'')) (\<lambda>job.
     case job of
       Inl _ \<Rightarrow> ret ()
     | Inr j \<Rightarrow>
         bind (attempt (inspection_run w sur j)) (\<lambda>res.
         case res of
           Inl e \<Rightarrow> bind (attempt (Done (vs_pool w) sur (rj_id j) (Some e))) (\<lambda>_. ret ())
         | Inr _ \<Rightarrow> bind (attempt (Done (vs_pool w) sur (rj_id j) None)) (\<lambda>_. ret ())))"

section \<open>The HTTP surface\<close>

type_synonym inspection_handler = "(inspection verify_body, inspection verify_body response) handler"

definition cacheRecord :: "inspection verify_svc \<Rightarrow> surroundings \<Rightarrow> string \<Rightarrow> string \<Rightarrow> inspection \<Rightarrow> unit job" where
  "cacheRecord a sur ten plate rec =
     andthen (exec_job (query (\<lambda>_. ()))) (
     bind (exec_try (query_row (vehicle_of_plate (vs_session a) ten plate))) (\<lambda>res.
     case res of
       Inl e \<Rightarrow> if e = NoRows then ret () else stop PlainError
     | Inr vid \<Rightarrow>
         andthen (exec_job (insert_inspection (vs_session a) (record_row sur ten vid rec))) (
         exec_job (change (update_vehicle (vs_session a) vid (set_inspection_expiry (xi_expires_at rec)))))))"

definition verifyHandler :: "inspection verify_svc \<Rightarrow> surroundings \<Rightarrow> claims \<Rightarrow> string \<Rightarrow> inspection_handler" where
  "verifyHandler a sur c plate =
     (if plate = [] then stop (Err 400 ''missing'')
      else case For (vs_router a) (c_tenant c) of
        Inl _ \<Rightarrow> stop (Err 503 ''no_provider'')
      | Inr prov \<Rightarrow>
          (case vf_byPlate prov (c_tenant c) plate of
             Inl _ \<Rightarrow> bind (health_Fail (vs_pool a) sur (c_tenant c) (vf_info prov)) (\<lambda>_. stop (Err 502 ''provider_error''))
           | Inr rec \<Rightarrow>
               bind (health_OK (vs_pool a) sur (c_tenant c) (vf_info prov)) (\<lambda>_.
               andthen (case rec of
                          Some x \<Rightarrow> bind (attempt (cacheRecord a sur (c_tenant c) plate x)) (\<lambda>_. ret ())
                        | None \<Rightarrow> ret ()) (
               ret (Json 200 (Verified (ai_provider (vf_info prov)) rec))))))"

definition uninspected :: "session \<Rightarrow> time \<Rightarrow> db \<Rightarrow> (uuid \<times> string) list" where
  "uninspected s now d =
     map (\<lambda>v. (v_id v, v_plate v)) (take 5000 (filter (\<lambda>v. case v_inspection_expires_at v of None \<Rightarrow> True | Some t \<Rightarrow> t < now)
       (rows_seen v_tenant s (vehicles d))))"

definition reconcileHandler :: "inspection verify_svc \<Rightarrow> surroundings \<Rightarrow> claims \<Rightarrow> inspection_handler" where
  "reconcileHandler a sur c =
     andthen (WithTenant (Some c)) (
     bind (exec (query (uninspected (session_of (vs_pool a) (c_tenant c)) (db_now sur)))) (\<lambda>rows.
     andthen (for_each (\<lambda>(k, veh).
         bind (Enqueue (vs_pool a) sur (new_uuid sur k) (c_tenant c) ''inspection'' ''verify'' (Some veh) 5) (\<lambda>_. ret ()))
       (List.enumerate 0 rows)) (
     ret (Json 202 (Enqueued (length rows))))))"

definition healthHandler :: "inspection verify_svc \<Rightarrow> claims \<Rightarrow> inspection_handler" where
  "healthHandler a c =
     (case For (vs_router a) (c_tenant c) of
        Inl _ \<Rightarrow> stop Internal
      | Inr prov \<Rightarrow>
          bind (health_Snapshot (vs_pool a) (c_tenant c) (vf_info prov)) (\<lambda>res.
          case (case res of Inl _ \<Rightarrow> (''unknown'', None, None, 0) | Inr x \<Rightarrow> x) of
            (state, lastOK, lastFail, streak) \<Rightarrow>
              ret (Json 200 (ProviderHealth (ai_provider (vf_info prov)) (ai_module (vf_info prov)) state streak lastOK lastFail))))"

definition webhookHandler :: inspection_handler where
  "webhookHandler = ret (Status 202)"

text \<open>The routes are those of the insurance service; a VIN in the query is not looked at.\<close>

definition inspection_mux :: "jwt_parser \<Rightarrow> issuer \<Rightarrow> inspection verify_svc \<Rightarrow> surroundings \<Rightarrow> headers \<Rightarrow> verify_route \<Rightarrow> inspection_handler" where
  "inspection_mux jwt i a sur h route =
     (case route of
        GetVerify plate _ \<Rightarrow> Middleware jwt i h (\<lambda>c. verifyHandler a sur c plate)
      | PostReconcile \<Rightarrow> Middleware jwt i h (\<lambda>c. RequirePermission ''registry:write'' (Some c) (reconcileHandler a sur c))
      | GetProviderHealth \<Rightarrow> Middleware jwt i h (healthHandler a)
      | PostWebhook _ \<Rightarrow> webhookHandler)"

section \<open>The worker keeps the contract of the queue\<close>

lemma preserved_insert_inspection [frame_intros]: "preserved (\<lambda>d. retry_jobs d = rows) (insert_inspection s r)"
  by (auto simp: preserved_def insert_inspection_def split: if_splits sum.splits)

lemma tx_persistInspection: "keeps same_tx (persistInspection_tx w sur ten plate rec)"
  unfolding persistInspection_tx_def by (intro tx_steps)

lemma iv_persistInspection: "keeps (kept (\<lambda>d. retry_jobs d = rows)) (persistInspection_tx w sur ten plate rec)"
  unfolding persistInspection_tx_def by (intro iv_steps frame_intros)

lemma ka_inspection_run: "keeps (kept_alone (\<lambda>d. retry_jobs d = rows)) (inspection_run w sur j)"
  unfolding inspection_run_def persistInspection_def
  by (intro ka_steps ka_health tx_persistInspection iv_persistInspection)

interpretation insp: queue_worker "vs_pool w" "''inspection''" "inspection_run w" "inspection_tick w" for w
proof unfold_locales
  fix sur
  show "inspection_tick w sur = drain (vs_pool w) ''inspection'' (inspection_run w) sur"
    by (simp add: inspection_tick_def drain_def fun_eq_iff bind_def split: sum.split prod.split)
next
  fix v sur j res v'
  assume "w_snap v = None" "inspection_run w sur j v = (res, v')"
  with kept_aloneD [OF ka_inspection_run] show "w_snap v' = None \<and> retry_jobs (w_db v') = retry_jobs (w_db v)" by blast
qed

section \<open>Both workers on one queue\<close>

definition worker_takes :: "policy verify_svc \<Rightarrow> inspection verify_svc \<Rightarrow> db \<Rightarrow> db \<Rightarrow> bool" where
  "worker_takes a b d d' \<longleftrightarrow> retry_takes (insurance_tick a) d d' \<or> retry_takes (inspection_tick b) d d'"

interpretation both: bounded_retry retry_jobs "\<lambda>j. rj_status j = RQueued" rj_attempts rj_max_attempts retry_ok "worker_takes a b" for a b
  by unfold_locales (use ins.within ins.taken insp.taken in \<open>unfold worker_takes_def, blast+\<close>)

text \<open>C30
  The shared queue comes to rest. With the jobs there are, however many steps of either worker fail,
  the two workers together change the queue at most once per attempt its queued jobs have left, and
  the queue stays well-formed; and as long as a job of a module is due, a tick of its worker without
  faults takes one.
\<close>

theorem verify_jobs_come_to_rest:
  assumes "retry_ok d"
  shows "((worker_takes a b ^^ n) d d' \<longrightarrow>
      n \<le> sum_list (map (\<lambda>j. if rj_status j = RQueued then nat (rj_max_attempts j - rj_attempts j) else 0) (retry_jobs d)) \<and> retry_ok d')
    \<and> (healthy v \<and> w_snap v = None \<and> w_db v = d \<longrightarrow>
        (due_job (vs_session a) ''insurance'' (db_now sur) d \<noteq> None \<longrightarrow> worker_takes a b d (w_db (snd (insurance_tick a sur v))))
      \<and> (due_job (vs_session b) ''inspection'' (db_now sur) d \<noteq> None \<longrightarrow> worker_takes a b d (w_db (snd (inspection_tick b sur v)))))"
proof (intro conjI impI)
  assume "(worker_takes a b ^^ n) d d'"
  from both.takes_bounded [OF assms this]
  show "n \<le> sum_list (map (\<lambda>j. if rj_status j = RQueued then nat (rj_max_attempts j - rj_attempts j) else 0) (retry_jobs d))" "retry_ok d'"
    by (simp_all add: credit_def)
next
  assume v: "healthy v \<and> w_snap v = None \<and> w_db v = d"
  { assume "due_job (vs_session a) ''insurance'' (db_now sur) d \<noteq> None"
    with ins.progress [where v = v and sur = sur and w = a] v assms show "worker_takes a b d (w_db (snd (insurance_tick a sur v)))"
      by (auto simp: worker_takes_def vs_session_def) }
  assume "due_job (vs_session b) ''inspection'' (db_now sur) d \<noteq> None"
  with insp.progress [where v = v and sur = sur and w = b] v assms show "worker_takes a b d (w_db (snd (inspection_tick b sur v)))"
    by (auto simp: worker_takes_def vs_session_def)
qed

text \<open>A job with two attempts whose provider is out of order.\<close>

definition demo_station :: "inspection verify_svc" where
  "demo_station = \<lparr>vs_pool = BypassesRls, vs_router = SetDefault \<lparr>vf_info = \<lparr>ai_module = ''inspection'', ai_provider = ''tuv'', ai_region = []\<rparr>,
     vf_byPlate = (\<lambda>_ _. Inl PlainError), vf_byVIN = (\<lambda>_ _. Inl PlainError)\<rparr> NewRouter\<rparr>"

definition demo_waiting :: dbworld where
  "demo_waiting = world_of (empty_db\<lparr>tenants := [(''no'', [])], vehicles := [demo_vehicle 8 ''no'' ''AB10''],
     retry_jobs := [retry_row_of (demo_at 1) 7 ''no'' ''inspection'' ''verify'' (Some (8, ''AB10'')) 2]\<rparr>)"

definition demo_tried :: dbworld where
  "demo_tried = snd (inspection_tick demo_station (demo_at 2) demo_waiting)"

definition demo_given_up :: dbworld where
  "demo_given_up = snd (inspection_tick demo_station (demo_at 3) demo_tried)"

lemma demo_station_facts:
  "retry_ok (w_db demo_waiting)" "healthy demo_waiting" "w_snap demo_waiting = None"
  "due_job (vs_session demo_station) ''inspection'' (db_now (demo_at 2)) (w_db demo_waiting) \<noteq> None"
  "retry_ok (w_db demo_tried)" "healthy demo_tried" "w_snap demo_tried = None"
  "due_job (vs_session demo_station) ''inspection'' (db_now (demo_at 3)) (w_db demo_tried) \<noteq> None"
  "map rj_status (retry_jobs (w_db demo_given_up)) = [RDeadLetter]"
  by (code_simp)+

theorem verify_jobs_come_to_rest_witness:
  "worker_takes demo_insurer demo_station (w_db demo_waiting) (w_db demo_tried)
     \<and> worker_takes demo_insurer demo_station (w_db demo_tried) (w_db demo_given_up)
     \<and> map rj_status (retry_jobs (w_db demo_given_up)) = [RDeadLetter]"
proof -
  note facts = demo_station_facts
  from verify_jobs_come_to_rest [OF facts(1), where v = demo_waiting and a = demo_insurer and b = demo_station and sur = "demo_at 2"] facts(2,3,4)
  have "worker_takes demo_insurer demo_station (w_db demo_waiting) (w_db demo_tried)" by (simp add: demo_tried_def)
  moreover from verify_jobs_come_to_rest [OF facts(5), where v = demo_tried and a = demo_insurer and b = demo_station and sur = "demo_at 3"] facts(6,7,8)
  have "worker_takes demo_insurer demo_station (w_db demo_tried) (w_db demo_given_up)" by (simp add: demo_given_up_def)
  ultimately show ?thesis using facts(9) by blast
qed

section \<open>What the code does not do\<close>

text \<open>A car that failed its inspection counts as inspected until the date of the failed record.\<close>

lemma failed_inspection_counts:
  "map v_inspection_expires_at (vehicles (w_db (snd (inspection_tick
     (demo_station\<lparr>vs_router := SetDefault \<lparr>vf_info = \<lparr>ai_module = ''inspection'', ai_provider = ''tuv'', ai_region = []\<rparr>,
        vf_byPlate = (\<lambda>_ _. Inr (Some \<lparr>xi_station = ''S'', xi_performed_at = 0, xi_expires_at = days 300, xi_result = ''fail'', xi_certificate_url = []\<rparr>)),
        vf_byVIN = (\<lambda>_ _. Inl PlainError)\<rparr> NewRouter\<rparr>) (demo_at 2) demo_waiting)))) = [Some (days 300)]"
  by code_simp

end
