(* ===== verification/Gateway.thy ===== *)
theory Gateway
  imports Auth
begin

text \<open>
  The API gateway (\<open>services/gateway/internal/proxy\<close>): the route table (\<open>routes.go\<close>), the rate
  limiter (\<open>ratelimit.go\<close>) and the pipeline of a request (\<open>proxy.go\<close>): CORS, longest-prefix match,
  authentication, rate limit, forwarding.

  Parameters: the token bucket of \<open>golang.org/x/time/rate\<close> (\<open>bucket_lib\<close>: a new bucket of a rate per
  minute and a burst, and one \<open>Allow\<close> at an instant), the environment, and whether \<open>url.Parse\<close>
  takes an upstream. What the upstream answers is not modelled.
\<close>

section \<open>The route table\<close>

record route =
  Prefix :: string
  Upstream :: string
  NeedsAuth :: bool
  NeedsRole :: string
  RateLimit :: int
  AllowBootstrapKey :: bool

type_synonym environment = "string \<Rightarrow> string"

text \<open>A variable that is not set reads as the empty text.\<close>

definition getEnv :: "environment \<Rightarrow> string \<Rightarrow> string \<Rightarrow> string" where
  "getEnv env k def = (if env k \<noteq> [] then env k else def)"

definition open_route :: "string \<Rightarrow> string \<Rightarrow> int \<Rightarrow> route" where
  "open_route p up limit = \<lparr>Prefix = p, Upstream = up, NeedsAuth = False, NeedsRole = [], RateLimit = limit, AllowBootstrapKey = False\<rparr>"

definition auth_route :: "string \<Rightarrow> string \<Rightarrow> string \<Rightarrow> int \<Rightarrow> route" where
  "auth_route p up role limit = \<lparr>Prefix = p, Upstream = up, NeedsAuth = True, NeedsRole = role, RateLimit = limit, AllowBootstrapKey = False\<rparr>"

definition RoutesFromEnv :: "environment \<Rightarrow> route list" where
  "RoutesFromEnv env =
     (let auth = getEnv env ''AUTH_URL'' ''http://auth:8001'';
          registry = getEnv env ''REGISTRY_URL'' ''http://registry:8002'';
          license = getEnv env ''LICENSE_URL'' ''http://license:8003'';
          insurance = getEnv env ''INSURANCE_URL'' ''http://insurance:8004'';
          inspection = getEnv env ''INSPECTION_URL'' ''http://inspection:8005'';
          fines = getEnv env ''FINES_URL'' ''http://fines:8006'';
          audit = getEnv env ''AUDIT_URL'' ''http://audit:8007'';
          anpr = getEnv env ''ANPR_URL'' ''http://anpr-gateway:8008'';
          notify = getEnv env ''NOTIFICATIONS_URL'' ''http://notifications:8009''
      in [open_route ''/v1/auth/login'' auth 60,
          open_route ''/v1/auth/refresh'' auth 120,
          open_route ''/v1/auth/logout'' auth 60,
          auth_route ''/v1/auth/me'' auth [] 0,
          (auth_route ''/v1/admin/users'' auth ''admin'' 0)\<lparr>AllowBootstrapKey := True\<rparr>,
          open_route ''/v1/fines/payments/webhooks/'' fines 600,
          auth_route ''/v1/citizens/me/license'' license [] 0,
          auth_route ''/v1/citizens/me/notifications'' notify [] 0,
          auth_route ''/v1/citizens/me/owner'' registry [] 0,
          auth_route ''/v1/citizens/me/vehicles'' registry [] 0,
          auth_route ''/v1/citizens/me/transfers'' registry [] 0,
          auth_route ''/v1/owners'' registry ''admin'' 0,
          auth_route ''/v1/vehicles'' registry [] 600,
          auth_route ''/v1/fines'' fines [] 600,
          auth_route ''/v1/audit/officers/me'' audit [] 0,
          auth_route ''/v1/audit'' audit ''admin'' 0,
          auth_route ''/v1/licenses'' license [] 0,
          auth_route ''/v1/insurance'' insurance [] 0,
          auth_route ''/v1/inspection'' inspection [] 0,
          auth_route ''/v1/anpr'' anpr ''officer'' 0,
          auth_route ''/v1/notify'' notify ''admin'' 0])"

text \<open>Routes whose upstream does not parse are skipped.\<close>

definition New_routes :: "(string \<Rightarrow> bool) \<Rightarrow> route list \<Rightarrow> route list" where
  "New_routes url_ok routes = filter (\<lambda>r. url_ok (Upstream r)) routes"

definition HasPrefix :: "string \<Rightarrow> string \<Rightarrow> bool" where
  "HasPrefix s p \<longleftrightarrow> take (length p) s = p"

text \<open>The loop over the routes; \<open>best\<close> is the match so far.\<close>

fun match_route :: "string \<Rightarrow> route option \<Rightarrow> route list \<Rightarrow> route option" where
  "match_route path best [] = best"
| "match_route path best (rt # rts) =
     match_route path
       (if HasPrefix path (Prefix rt) \<and> (case best of None \<Rightarrow> True | Some b \<Rightarrow> length (Prefix rt) > length (Prefix b))
        then Some rt else best) rts"

section \<open>The rate limiter\<close>

record 'l bucket_lib =
  bl_new :: "int \<Rightarrow> int \<Rightarrow> 'l"
  bl_allow :: "time \<Rightarrow> 'l \<Rightarrow> bool \<times> 'l"

type_synonym 'l buckets = "string \<rightharpoonup> 'l"

definition bucket_key :: "string \<Rightarrow> string \<Rightarrow> string" where
  "bucket_key tenant prefix = (if tenant = [] then ''_anon'' else tenant) @ ''|'' @ prefix"

definition burst_of :: "int \<Rightarrow> int" where
  "burst_of reqPerMin = (let burst = reqPerMin div 4 in if burst < 5 then 5 else burst)"

definition Allow :: "'l bucket_lib \<Rightarrow> time \<Rightarrow> string \<Rightarrow> string \<Rightarrow> int \<Rightarrow> 'l buckets \<Rightarrow> bool \<times> 'l buckets" where
  "Allow lib now tenant prefix reqPerMin bs =
     (if reqPerMin \<le> 0 then (True, bs)
      else
        let key = bucket_key tenant prefix;
            b = (case bs key of None \<Rightarrow> bl_new lib reqPerMin (burst_of reqPerMin) | Some b \<Rightarrow> b)
        in case bl_allow lib now b of (ok, b') \<Rightarrow> (ok, bs(key \<mapsto> b')))"

section \<open>A request\<close>

text \<open>The headers \<open>X-Request-Id\<close>, \<open>Origin\<close>, \<open>X-Admin-Bootstrap-Key\<close> and \<open>X-Forwarded-For\<close> beside those of \<open>headers\<close>; absent is empty.\<close>

record gw_request =
  gq_method :: string
  gq_path :: string
  gq_headers :: headers
  gq_request_id :: string
  gq_origin :: string
  gq_bootstrap_key :: string
  gq_forwarded_for :: string
  gq_remote :: string

text \<open>
  What the client sees or the upstream gets: the tenant header, the client address and the request
  id the gateway passes on.
\<close>

datatype gw_answer =
    Preflight
  | Refused goerr
  | TooMany
  | Forwarded string string string string

record 'l gateway =
  gw_jwt :: jwt_parser
  gw_issuer :: issuer
  gw_env :: environment
  gw_routes :: "route list"
  gw_lib :: "'l bucket_lib"

text \<open>Bytes are compared without a branch: the differences are or-ed together.\<close>

definition subtleEq :: "string \<Rightarrow> string \<Rightarrow> bool" where
  "subtleEq a b \<longleftrightarrow> length a = length b
     \<and> foldl (\<lambda>v (x, y). or v (xor (of_char x) (of_char y))) (0 :: 8 word) (zip a b) = 0"

definition before_first :: "char \<Rightarrow> string \<Rightarrow> string" where
  "before_first c s = takeWhile (\<lambda>x. x \<noteq> c) s"

definition gw_clientIP :: "string \<Rightarrow> string \<Rightarrow> string" where
  "gw_clientIP forwarded remote =
     (if forwarded \<noteq> [] then
        (if CHR '','' \<in> set forwarded \<and> before_first CHR '','' forwarded \<noteq> [] then TrimSpace (before_first CHR '','' forwarded)
         else TrimSpace forwarded)
      else let host = rev (drop 1 (dropWhile (\<lambda>x. x \<noteq> CHR '':'') (rev remote)))
           in if CHR '':'' \<in> set remote \<and> host \<noteq> [] then host else remote)"

definition bootstrapped :: "environment \<Rightarrow> route \<Rightarrow> gw_request \<Rightarrow> bool" where
  "bootstrapped env rt q \<longleftrightarrow> AllowBootstrapKey rt
     \<and> (let k = env ''ADMIN_BOOTSTRAP_KEY''; got = gq_bootstrap_key q in k \<noteq> [] \<and> length got = length k \<and> subtleEq got k)"

text \<open>The gate: an error, or the tenant the request goes on with.\<close>

definition authorise :: "'l gateway \<Rightarrow> route \<Rightarrow> gw_request \<Rightarrow> goerr + string" where
  "authorise g rt q =
     (let tenant = h_tenant (gq_headers q) in
      if NeedsAuth rt \<and> \<not> bootstrapped (gw_env g) rt q then
        (let tok = BearerToken (gq_headers q) in
         if tok = [] then Inl ErrUnauthorized
         else case Parse (gw_jwt g) (gw_issuer g) tok of
                None \<Rightarrow> Inl ErrUnauthorized
              | Some c \<Rightarrow>
                  if tenant \<noteq> [] \<and> tenant \<noteq> c_tenant c then Inl ErrForbidden
                  else if NeedsRole rt \<noteq> [] \<and> c_role c \<noteq> NeedsRole rt then Inl ErrForbidden
                  else Inr (c_tenant c))
      else Inr tenant)"

text \<open>What the client gets back: the request id, the CORS origin it may use with credentials, the answer.\<close>

record gw_response =
  gr_request_id :: string
  gr_allow_origin :: "string option"
  gr_answer :: gw_answer

text \<open>\<open>fresh\<close> is the id drawn where the client sent none.\<close>

definition ServeHTTP :: "'l gateway \<Rightarrow> time \<Rightarrow> string \<Rightarrow> gw_request \<Rightarrow> 'l buckets \<Rightarrow> gw_response \<times> 'l buckets" where
  "ServeHTTP g now fresh q bs =
     (let rid = (if gq_request_id q = [] then fresh else gq_request_id q);
          answer = (\<lambda>a. \<lparr>gr_request_id = rid, gr_allow_origin = (if gq_origin q \<noteq> [] then Some (gq_origin q) else None), gr_answer = a\<rparr>)
      in if gq_origin q \<noteq> [] \<and> gq_method q = ''OPTIONS'' then (answer Preflight, bs)
         else case match_route (gq_path q) None (gw_routes g) of
                None \<Rightarrow> (answer (Refused ErrNotFound), bs)
              | Some rt \<Rightarrow>
                  (case authorise g rt q of
                     Inl e \<Rightarrow> (answer (Refused e), bs)
                   | Inr tenant \<Rightarrow>
                       (case (if RateLimit rt > 0 then Allow (gw_lib g) now tenant (Prefix rt) (RateLimit rt) bs else (True, bs)) of
                          (False, bs') \<Rightarrow> (answer TooMany, bs')
                        | (True, bs') \<Rightarrow>
                            (answer (Forwarded (Upstream rt) tenant (gw_clientIP (gq_forwarded_for q) (gq_remote q)) rid), bs'))))"

section \<open>Matching\<close>

lemma HasPrefix_simps [simp]:
  "HasPrefix s []" "HasPrefix (c # s) (d # p) \<longleftrightarrow> c = d \<and> HasPrefix s p" "\<not> HasPrefix [] (d # p)"
  by (auto simp: HasPrefix_def)

lemma match_route_longest:
  assumes "match_route path best rts = r"
  shows "case r of
      None \<Rightarrow> best = None \<and> (\<forall>rt\<in>set rts. \<not> HasPrefix path (Prefix rt))
    | Some rt \<Rightarrow> (best = Some rt \<or> rt \<in> set rts \<and> HasPrefix path (Prefix rt))
        \<and> (\<forall>x\<in>set rts. HasPrefix path (Prefix x) \<longrightarrow> length (Prefix x) \<le> length (Prefix rt))
        \<and> (case best of None \<Rightarrow> True | Some b \<Rightarrow> length (Prefix b) \<le> length (Prefix rt))"
  using assms
proof (induction rts arbitrary: best)
  case Nil
  then show ?case by (cases best) auto
next
  case (Cons x rts)
  let ?best = "if HasPrefix path (Prefix x) \<and> (case best of None \<Rightarrow> True | Some b \<Rightarrow> length (Prefix x) > length (Prefix b))
    then Some x else best"
  from Cons.prems have "match_route path ?best rts = r" by simp
  from Cons.IH [OF this] show ?case
    by (cases best) (auto split: option.splits if_splits)
qed

lemma HasPrefix_same_length: "HasPrefix s p \<Longrightarrow> HasPrefix s q \<Longrightarrow> length p = length q \<Longrightarrow> p = q"
  by (simp add: HasPrefix_def)

section \<open>The comparison of keys\<close>

lemma word_xor_eq_0: "xor x y = 0 \<longleftrightarrow> x = y" for x y :: "8 word"
  by (metis xor.assoc xor.left_neutral xor.right_neutral xor_self_eq)

lemma foldl_or_eq_0:
  fixes v :: "8 word"
  shows "foldl (\<lambda>v (x, y). or v (xor (of_char x) (of_char y))) v ps = 0
    \<longleftrightarrow> v = 0 \<and> (\<forall>(x, y)\<in>set ps. (of_char x :: 8 word) = of_char y)"
proof (induction ps arbitrary: v)
  case (Cons p ps)
  then show ?case by (cases p) (auto simp: word_xor_eq_0 or_eq_0_iff)
qed simp

lemma of_char_word_inj: "(of_char x :: 8 word) = of_char y \<longleftrightarrow> x = y"
proof
  assume eq: "(of_char x :: 8 word) = of_char y"
  have "unat (of_char c :: 8 word) = (of_char c :: nat)" for c
    using unat_of_nat [where 'a = 8, of "of_char c"] by (simp add: of_nat_of_char)
  with eq have "(of_char x :: nat) = of_char y" by metis
  then show "x = y" by (rule of_char_eq_iff [THEN iffD1])
qed simp

lemma subtleEq_eq: "subtleEq a b \<longleftrightarrow> a = b"
proof -
  have "(\<forall>(x, y)\<in>set (zip a b). (of_char x :: 8 word) = of_char y) \<longleftrightarrow> a = b" if "length a = length b"
    using that by (induction a b rule: list_induct2) (auto simp: of_char_word_inj)
  then show ?thesis by (auto simp: subtleEq_def foldl_or_eq_0)
qed

lemma bootstrapped_iff:
  "bootstrapped env rt q \<longleftrightarrow> AllowBootstrapKey rt \<and> env ''ADMIN_BOOTSTRAP_KEY'' \<noteq> [] \<and> gq_bootstrap_key q = env ''ADMIN_BOOTSTRAP_KEY''"
  by (auto simp: bootstrapped_def subtleEq_eq Let_def)

section \<open>The properties\<close>

text \<open>C31
  The gateway lets nobody past a protected route. A request is handed to an upstream only where the
  route with the longest matching prefix names it, and for a protected route only where the client
  presented the configured bootstrap key (on the one route that takes it), or a token the issuer
  accepts whose role is the one the route asks for and whose tenant agrees with the tenant header;
  the upstream then sees the tenant of that token, whatever header the client sent.
\<close>

theorem forwarded_requests_were_authorised:
  assumes "ServeHTTP g now fresh q bs = (r, bs')" and "gr_answer r = Forwarded up tenant ip rid"
  shows "\<exists>rt\<in>set (gw_routes g). HasPrefix (gq_path q) (Prefix rt) \<and> up = Upstream rt
    \<and> (\<forall>x\<in>set (gw_routes g). HasPrefix (gq_path q) (Prefix x) \<longrightarrow> length (Prefix x) \<le> length (Prefix rt))
    \<and> (NeedsAuth rt \<longrightarrow>
         (AllowBootstrapKey rt \<and> gw_env g ''ADMIN_BOOTSTRAP_KEY'' \<noteq> [] \<and> gq_bootstrap_key q = gw_env g ''ADMIN_BOOTSTRAP_KEY'')
         \<or> (\<exists>c. BearerToken (gq_headers q) \<noteq> [] \<and> Parse (gw_jwt g) (gw_issuer g) (BearerToken (gq_headers q)) = Some c
              \<and> (h_tenant (gq_headers q) = [] \<or> h_tenant (gq_headers q) = c_tenant c)
              \<and> (NeedsRole rt = [] \<or> c_role c = NeedsRole rt) \<and> tenant = c_tenant c))"
proof -
  from assms obtain rt where rt: "match_route (gq_path q) None (gw_routes g) = Some rt" "up = Upstream rt"
    and auth: "authorise g rt q = Inr tenant"
    by (auto simp: ServeHTTP_def Let_def split: if_splits option.splits sum.splits prod.splits bool.splits)
  from match_route_longest [OF rt(1)] have "rt \<in> set (gw_routes g)" "HasPrefix (gq_path q) (Prefix rt)"
    "\<forall>x\<in>set (gw_routes g). HasPrefix (gq_path q) (Prefix x) \<longrightarrow> length (Prefix x) \<le> length (Prefix rt)" by simp_all
  moreover from auth have "NeedsAuth rt \<longrightarrow> bootstrapped (gw_env g) rt q
      \<or> (\<exists>c. BearerToken (gq_headers q) \<noteq> [] \<and> Parse (gw_jwt g) (gw_issuer g) (BearerToken (gq_headers q)) = Some c
           \<and> (h_tenant (gq_headers q) = [] \<or> h_tenant (gq_headers q) = c_tenant c)
           \<and> (NeedsRole rt = [] \<or> c_role c = NeedsRole rt) \<and> tenant = c_tenant c)"
    by (auto simp: authorise_def Let_def split: if_splits option.splits)
  ultimately show ?thesis using rt(2) unfolding bootstrapped_iff by blast
qed

text \<open>A token bucket: at most so many tokens, refilled over time.\<close>

definition demo_bucket :: "(time \<times> int \<times> int \<times> int) bucket_lib" where
  "demo_bucket =
     \<lparr>bl_new = (\<lambda>rate burst. (0, burst * minutes 1, rate, burst)),
      bl_allow = (\<lambda>now (t, tokens, rate, burst).
        let have = min (burst * minutes 1) (tokens + rate * (now - t))
        in if have \<ge> minutes 1 then (True, (now, have - minutes 1, rate, burst)) else (False, (now, have, rate, burst)))\<rparr>"

definition demo_jwt :: jwt_parser where
  "demo_jwt keys tok = (if keys ''HS256'' = Some ''s'' \<and> tok = ''t''
     then Some \<lparr>c_tenant = ''no'', c_role = ''officer'', c_permissions = [], c_device = [], c_subject = Some 1, c_issued_at = 0,
       c_expires_at = days 1, c_jti = None\<rparr> else None)"

definition demo_gateway :: "(time \<times> int \<times> int \<times> int) gateway" where
  "demo_gateway = \<lparr>gw_jwt = demo_jwt, gw_issuer = \<lparr>Secret = ''s'', AccessTTL = 0, RefreshTTL = 0\<rparr>, gw_env = (\<lambda>_. []),
     gw_routes = RoutesFromEnv (\<lambda>_. []), gw_lib = demo_bucket\<rparr>"

definition demo_call :: "string \<Rightarrow> string \<Rightarrow> string \<Rightarrow> gw_request" where
  "demo_call path tok tenant = \<lparr>gq_method = ''POST'', gq_path = path,
     gq_headers = \<lparr>h_authorization = (if tok = [] then [] else ''Bearer '' @ tok), h_tenant = tenant\<rparr>, gq_request_id = ''r1'', gq_origin = [],
     gq_bootstrap_key = [], gq_forwarded_for = [], gq_remote = ''10.0.0.1:99''\<rparr>"

theorem forwarded_requests_were_authorised_witness:
  "gr_answer (fst (ServeHTTP demo_gateway (days 1) ''r'' (demo_call ''/v1/anpr/scans'' ''t'' []) Map.empty))
     = Forwarded ''http://anpr-gateway:8008'' ''no'' ''10.0.0.1'' ''r1''
   \<and> (\<exists>rt\<in>set (gw_routes demo_gateway). Upstream rt = ''http://anpr-gateway:8008'' \<and> HasPrefix ''/v1/anpr/scans'' (Prefix rt))"
proof -
  let ?run = "ServeHTTP demo_gateway (days 1) ''r'' (demo_call ''/v1/anpr/scans'' ''t'' []) Map.empty"
  have ans: "gr_answer (fst ?run) = Forwarded ''http://anpr-gateway:8008'' ''no'' ''10.0.0.1'' ''r1''" by code_simp
  from forwarded_requests_were_authorised [OF prod.collapse [symmetric] this] ans show ?thesis
    by (auto simp: demo_call_def)
qed

text \<open>The paths the services serve, each with the service they belong to.\<close>

definition service_paths :: "environment \<Rightarrow> (string \<times> string) list" where
  "service_paths env =
     (let auth = getEnv env ''AUTH_URL'' ''http://auth:8001'';
          registry = getEnv env ''REGISTRY_URL'' ''http://registry:8002'';
          fines = getEnv env ''FINES_URL'' ''http://fines:8006'';
          license = getEnv env ''LICENSE_URL'' ''http://license:8003'';
          audit = getEnv env ''AUDIT_URL'' ''http://audit:8007'';
          notify = getEnv env ''NOTIFICATIONS_URL'' ''http://notifications:8009''
      in map (\<lambda>p. (p, auth)) [''/v1/auth/login'', ''/v1/auth/refresh'', ''/v1/auth/logout'', ''/v1/auth/me'', ''/v1/admin/users'']
       @ map (\<lambda>p. (p, registry)) [''/v1/vehicles'', ''/v1/owners'', ''/v1/citizens/me/owner'', ''/v1/citizens/me/vehicles'', ''/v1/citizens/me/transfers'']
       @ map (\<lambda>p. (p, fines)) [''/v1/fines'']
       @ map (\<lambda>p. (p, license)) [''/v1/licenses'', ''/v1/citizens/me/license'']
       @ map (\<lambda>p. (p, audit)) [''/v1/audit'']
       @ map (\<lambda>p. (p, notify)) [''/v1/notify'', ''/v1/citizens/me/notifications'']
       @ [(''/v1/insurance'', getEnv env ''INSURANCE_URL'' ''http://insurance:8004''),
          (''/v1/inspection'', getEnv env ''INSPECTION_URL'' ''http://inspection:8005''),
          (''/v1/anpr'', getEnv env ''ANPR_URL'' ''http://anpr-gateway:8008'')])"

text \<open>
  Every service is reached. For every environment, each path a service serves, with whatever follows
  it, is matched by the default route table, and the route that wins names that very service.
\<close>

theorem routes_reach_their_service:
  assumes "(p, up) \<in> set (service_paths env)"
  shows "\<exists>rt. match_route (p @ rest) None (RoutesFromEnv env) = Some rt \<and> Upstream rt = up"
  using assms unfolding service_paths_def Let_def
  by (simp, elim disjE conjE; simp add: RoutesFromEnv_def Let_def open_route_def auth_route_def)

theorem routes_reach_their_service_witness:
  "\<exists>rt. match_route ''/v1/fines/payments/webhooks/stripe'' None (RoutesFromEnv (\<lambda>_. [])) = Some rt \<and> Upstream rt = ''http://fines:8006''"
proof -
  have "(''/v1/fines'', ''http://fines:8006'') \<in> set (service_paths (\<lambda>_. []))"
    by (simp add: service_paths_def Let_def getEnv_def)
  from routes_reach_their_service [OF this, of "''/payments/webhooks/stripe''"] show ?thesis by simp
qed

section \<open>Rate limiting\<close>

text \<open>A bucket on its own, and the calls of one key among all calls.\<close>

fun bucket_run :: "'l bucket_lib \<Rightarrow> 'l \<Rightarrow> time list \<Rightarrow> bool list" where
  "bucket_run lib b [] = []"
| "bucket_run lib b (t # ts) = (case bl_allow lib t b of (ok, b') \<Rightarrow> ok # bucket_run lib b' ts)"

fun allow_run :: "'l bucket_lib \<Rightarrow> 'l buckets \<Rightarrow> (time \<times> string \<times> string \<times> int) list \<Rightarrow> (string \<times> bool) list" where
  "allow_run lib bs [] = []"
| "allow_run lib bs ((t, ten, p, n) # calls) =
     (case Allow lib t ten p n bs of (ok, bs') \<Rightarrow> (bucket_key ten p, ok) # allow_run lib bs' calls)"

definition calls_of :: "string \<Rightarrow> (time \<times> string \<times> string \<times> int) list \<Rightarrow> time list" where
  "calls_of key calls = map fst (filter (\<lambda>(t, ten, p, n). bucket_key ten p = key) calls)"

lemma allow_run_bucket:
  assumes "\<forall>(t, ten, p, n)\<in>set calls. bucket_key ten p = key \<longrightarrow> n = limit" and "0 < limit"
  shows "map snd (filter (\<lambda>(k, ok). k = key) (allow_run lib bs calls))
    = bucket_run lib (case bs key of None \<Rightarrow> bl_new lib limit (burst_of limit) | Some b \<Rightarrow> b) (calls_of key calls)"
  using assms(1)
proof (induction calls arbitrary: bs)
  case Nil
  then show ?case by (simp add: calls_of_def)
next
  case (Cons call calls)
  obtain t ten p n where call: "call = (t, ten, p, n)" by (cases call)
  show ?case
  proof (cases "bucket_key ten p = key")
    case True
    with Cons.prems call have n: "n = limit" by simp
    obtain ok b' where step: "bl_allow lib t (case bs key of None \<Rightarrow> bl_new lib limit (burst_of limit) | Some b \<Rightarrow> b) = (ok, b')" by fastforce
    with True n assms(2) have "Allow lib t ten p n bs = (ok, bs(key \<mapsto> b'))" by (simp add: Allow_def Let_def)
    with Cons step call True show ?thesis by (simp add: calls_of_def)
  next
    case False
    obtain ok bs' where step: "Allow lib t ten p n bs = (ok, bs')" by fastforce
    with False have "bs' key = bs key" by (auto simp: Allow_def Let_def split: if_splits prod.splits)
    with Cons step call False show ?thesis by (simp add: calls_of_def)
  qed
qed


text \<open>Six calls of one tenant at once, one of another in between.\<close>

definition demo_calls :: "(time \<times> string \<times> string \<times> int) list" where
  "demo_calls = replicate 5 (minutes 1, ''no'', ''/p'', 20) @ [(minutes 1, ''se'', ''/p'', 20), (minutes 1, ''no'', ''/p'', 20)]"


section \<open>What the gateway does not do\<close>

text \<open>
  The tenant of an open route is the header the client chose: with a new one in every request no login
  is ever limited. The service takes the tenant to log in to from the body.
\<close>

lemma login_limit_is_void:
  assumes "\<And>rate burst t. 0 < burst \<Longrightarrow> fst (bl_allow (gw_lib g) t (bl_new (gw_lib g) rate burst))"
    and "gw_routes g = RoutesFromEnv env" and "gq_path q = ''/v1/auth/login''" and "gq_origin q = []"
    and "bs (bucket_key (h_tenant (gq_headers q)) ''/v1/auth/login'') = None"
  shows "\<exists>up tenant ip rid. gr_answer (fst (ServeHTTP g now fresh q bs)) = Forwarded up tenant ip rid"
proof -
  have "match_route ''/v1/auth/login'' None (RoutesFromEnv env) = Some (open_route ''/v1/auth/login'' (getEnv env ''AUTH_URL'' ''http://auth:8001'') 60)"
    by (simp add: RoutesFromEnv_def Let_def open_route_def auth_route_def)
  moreover from assms(1) [of 15 now 60] obtain b where
    "bl_allow (gw_lib g) now (bl_new (gw_lib g) 60 15) = (True, b)" by (metis prod.collapse zero_less_numeral)
  ultimately show ?thesis
    using assms(2-5) by (simp add: ServeHTTP_def Let_def authorise_def open_route_def Allow_def burst_of_def)
qed

text \<open>The webhooks of the insurance and inspection services carry no token and are refused.\<close>

lemma provider_webhooks_refused:
  "gr_answer (fst (ServeHTTP demo_gateway (days 1) ''r'' (demo_call ''/v1/insurance/webhooks/bureau'' [] []) Map.empty)) = Refused ErrUnauthorized"
  "gr_answer (fst (ServeHTTP demo_gateway (days 1) ''r'' (demo_call ''/v1/inspection/webhooks/tuv'' [] []) Map.empty)) = Refused ErrUnauthorized"
  by code_simp+

text \<open>Any page of the web may read the answers of a signed-in browser.\<close>

lemma every_origin_allowed:
  "gq_origin q \<noteq> [] \<Longrightarrow> gr_allow_origin (fst (ServeHTTP g now fresh q bs)) = Some (gq_origin q)"
  by (auto simp: ServeHTTP_def Let_def split: option.split sum.split prod.split bool.split)

end
