(* ===== verification/Texts.thy ===== *)
theory Texts
  imports Prelude
begin

text \<open>Numbers as texts: \<open>%d\<close> of \<open>fmt\<close>, and \<open>strconv.Atoi\<close> for the way back.\<close>

fun nat_text :: "nat \<Rightarrow> string" where
  "nat_text n = (if n < 10 then [char_of (48 + n)] else nat_text (n div 10) @ [char_of (48 + n mod 10)])"

declare nat_text.simps [simp del]

definition int_text :: "int \<Rightarrow> string" where
  "int_text i = (if i < 0 then ''-'' @ nat_text (nat (- i)) else nat_text (nat i))"

definition nl :: string where
  "nl = [CHR 0x0A]"

definition digit_of :: "char \<Rightarrow> nat option" where
  "digit_of c = (let n = of_char c in if 48 \<le> n \<and> n \<le> 57 then Some (n - 48) else None)"

fun digits_value :: "nat \<Rightarrow> string \<Rightarrow> nat option" where
  "digits_value acc [] = Some acc"
| "digits_value acc (c # cs) = (case digit_of c of None \<Rightarrow> None | Some k \<Rightarrow> digits_value (10 * acc + k) cs)"

text \<open>An optional sign, then digits only; a value outside of 64 bits is an error.\<close>

definition Atoi :: "string \<Rightarrow> int option" where
  "Atoi s =
     (case s of
        [] \<Rightarrow> None
      | c # cs \<Rightarrow>
          let rest = (if c = CHR ''-'' \<or> c = CHR ''+'' then cs else s) in
          if rest = [] then None
          else case digits_value 0 rest of
                 None \<Rightarrow> None
               | Some n \<Rightarrow>
                   let v = (if c = CHR ''-'' then - int n else int n) in
                   if - (2 ^ 63) \<le> v \<and> v < 2 ^ 63 then Some v else None)"

lemma digit_of_char: "k < 10 \<Longrightarrow> digit_of (char_of (48 + k)) = Some k"
  by (simp add: digit_of_def Let_def)

lemma digits_value_snoc:
  "digits_value acc (cs @ [char_of (48 + k)]) = map_option (\<lambda>n. 10 * n + k) (digits_value acc cs)" if "k < 10"
  by (induction acc cs rule: digits_value.induct) (simp_all add: digit_of_char [OF that] split: option.split)

lemma digits_value_nat_text: "digits_value 0 (nat_text n) = Some n"
proof (induction n rule: nat_text.induct)
  case (1 n)
  show ?case
  proof (cases "n < 10")
    case True
    then show ?thesis by (subst nat_text.simps) (simp add: digit_of_char)
  next
    case False
    then show ?thesis by (subst nat_text.simps) (simp add: digits_value_snoc 1)
  qed
qed

lemma nat_text_digits: "c \<in> set (nat_text n) \<Longrightarrow> digit_of c \<noteq> None"
proof (induction n rule: nat_text.induct)
  case (1 n)
  then show ?case by (cases "n < 10") (auto simp: nat_text.simps [of n] digit_of_char)
qed

lemma nat_text_not_empty [simp]: "nat_text n \<noteq> []"
  by (subst nat_text.simps) simp

lemma Atoi_int_text:
  assumes "- (2 ^ 63) \<le> i" and "i < 2 ^ 63"
  shows "Atoi (int_text i) = Some i"
proof (cases "i < 0")
  case True
  with assms show ?thesis by (simp add: Atoi_def int_text_def digits_value_nat_text Let_def)
next
  case False
  obtain c cs where t: "nat_text (nat i) = c # cs" by (cases "nat_text (nat i)") auto
  with nat_text_digits [of c "nat i"] have "digit_of c \<noteq> None" by simp
  then have "c \<noteq> CHR ''-'' \<and> c \<noteq> CHR ''+''" by (auto simp: digit_of_def)
  with False assms t digits_value_nat_text [of "nat i"] show ?thesis by (simp add: Atoi_def int_text_def Let_def)
qed

end
