(* ===== verification/Notifications.thy ===== *)
theory Notifications
  imports Schema Texts "HOL-Library.Sublist"
begin

text \<open>
  The notifications service: the consumer that turns events of the outbox into messages
  (\<open>services/notifications/internal/consumer/consumer.go\<close>, \<open>renderers.go\<close>). The endpoints are in
  \<open>NotifyApi\<close>.

  The data of an event is of the struct its type names: nothing in the repository writes an event
  otherwise, and the model answers such an event with an error, where the JSON decoder would leave
  the fields it does not find empty.
  Amounts are \<open>NUMERIC(12,2)\<close> in cents. \<open>nt_rfc3339\<close> writes a time as text. The text of an error is
  not modelled.
\<close>

section \<open>Texts\<close>

definition amount_text :: "money \<Rightarrow> string" where
  "amount_text m =
     (if m < 0 then ''-'' else []) @ nat_text (nat (\<bar>m\<bar> div 100)) @ ''.''
       @ nat_text (nat (\<bar>m\<bar> mod 100 div 10)) @ nat_text (nat (\<bar>m\<bar> mod 10))"

definition hex_digit :: "nat \<Rightarrow> char" where
  "hex_digit n = char_of (if n < 10 then 48 + n else 87 + n)"

text \<open>The first eight characters of a UUID's text: its upper 32 bits in hexadecimal.\<close>

definition uuid_prefix :: "uuid \<Rightarrow> string" where
  "uuid_prefix u = map (\<lambda>k. hex_digit (u div 16 ^ (31 - k) mod 16)) [0..<8]"

section \<open>Contacts\<close>

record recipient =
  rc_channel :: string
  rc_address :: string
  rc_name :: string

definition coalesce :: "string option \<Rightarrow> string option \<Rightarrow> string" where
  "coalesce x y = (case x of Some s \<Rightarrow> s | None \<Rightarrow> (case y of Some s \<Rightarrow> s | None \<Rightarrow> []))"

text \<open>E-mail address, phone and name; the account of a person counts before the owner's record.\<close>

definition contact_of :: "user_row option \<Rightarrow> owner_row option \<Rightarrow> string \<times> string \<times> string" where
  "contact_of u ow =
     (coalesce (map_option u_email u) (Option.bind ow o_email),
      coalesce (Option.bind u u_phone) (Option.bind ow o_phone),
      coalesce (map_option u_full_name u) (map_option o_full_name ow))"

definition user_seen :: "session \<Rightarrow> uuid option \<Rightarrow> db \<Rightarrow> user_row option" where
  "user_seen s uid d = Option.bind uid (\<lambda>u. row_seen u_tenant s (\<lambda>r. u_id r = u) (users d))"

definition contact_of_vehicle :: "session \<Rightarrow> string \<Rightarrow> uuid \<Rightarrow> db \<Rightarrow> (string \<times> string \<times> string) option" where
  "contact_of_vehicle s ten vid d =
     map_option (\<lambda>v.
       let ow = Option.bind (v_owner_id v) (\<lambda>k. row_seen o_tenant s (\<lambda>r. o_id r = k) (owners d))
       in contact_of (user_seen s (Option.bind ow o_user_id) d) ow)
     (row_seen v_tenant s (\<lambda>v. v_id v = vid \<and> v_tenant v = ten) (vehicles d))"

definition contact_of_license :: "session \<Rightarrow> string \<Rightarrow> uuid \<Rightarrow> db \<Rightarrow> (string \<times> string \<times> string) option" where
  "contact_of_license s ten lid d =
     map_option (\<lambda>l.
       let u = user_seen s (l_user_id l) d
       in (coalesce (map_option u_email u) None, coalesce (Option.bind u u_phone) None, coalesce (map_option u_full_name u) (Some (l_full_name l))))
     (row_seen l_tenant s (\<lambda>l. l_id l = lid \<and> l_tenant l = ten) (licenses d))"

definition contact_of_owner :: "session \<Rightarrow> string \<Rightarrow> uuid \<Rightarrow> db \<Rightarrow> (string \<times> string \<times> string) option" where
  "contact_of_owner s ten oid d =
     map_option (\<lambda>ow. contact_of (user_seen s (o_user_id ow) d) (Some ow))
     (row_seen o_tenant s (\<lambda>ow. o_id ow = oid \<and> o_tenant ow = ten) (owners d))"

text \<open>The preferred channel: e-mail, else SMS, else nobody can be reached.\<close>

definition reach :: "string \<times> string \<times> string \<Rightarrow> recipient option" where
  "reach c =
     (case c of (email, phone, name) \<Rightarrow>
        if email \<noteq> [] then Some \<lparr>rc_channel = ''email'', rc_address = email, rc_name = name\<rparr>
        else if phone \<noteq> [] then Some \<lparr>rc_channel = ''sms'', rc_address = phone, rc_name = name\<rparr>
        else None)"

definition resolve_contact :: "(db \<Rightarrow> (string \<times> string \<times> string) option) \<Rightarrow> recipient option job" where
  "resolve_contact f =
     bind (exec_try (query_row f)) (\<lambda>res.
     case res of
       Inl e \<Rightarrow> if e = NoRows then ret None else stop PlainError
     | Inr c \<Rightarrow> ret (reach c))"

definition resolveByVehicle :: "session \<Rightarrow> string \<Rightarrow> uuid option \<Rightarrow> recipient option job" where
  "resolveByVehicle s ten vid = (case vid of None \<Rightarrow> ret None | Some v \<Rightarrow> resolve_contact (contact_of_vehicle s ten v))"

definition resolveByLicense :: "session \<Rightarrow> string \<Rightarrow> uuid \<Rightarrow> recipient option job" where
  "resolveByLicense s ten lid = resolve_contact (contact_of_license s ten lid)"

section \<open>Renderers\<close>

datatype renderer =
    fineIssuedRenderer | finePaidRenderer | fineCancelledRenderer | fineEscalatedRenderer
  | licenseSuspendedRenderer | licenseReinstatedRenderer | licenseDemeritRenderer | vehicleTransferredRenderer

definition renderers :: "(string \<times> renderer) list" where
  "renderers =
     [(TypeFineIssued, fineIssuedRenderer), (TypeFinePaid, finePaidRenderer), (TypeFineCancelled, fineCancelledRenderer),
      (TypeFineEscalated, fineEscalatedRenderer), (TypeLicenseSuspended, licenseSuspendedRenderer),
      (TypeLicenseReinstated, licenseReinstatedRenderer), (TypeLicenseDemerit, licenseDemeritRenderer),
      (TypeVehicleTransferred, vehicleTransferredRenderer)]"

fun template :: "renderer \<Rightarrow> string" where
  "template fineIssuedRenderer = ''fine.issued.v1''"
| "template finePaidRenderer = ''fine.paid.v1''"
| "template fineCancelledRenderer = ''fine.cancelled.v1''"
| "template fineEscalatedRenderer = ''fine.escalated.v1''"
| "template licenseSuspendedRenderer = ''license.suspended.v1''"
| "template licenseReinstatedRenderer = ''license.reinstated.v1''"
| "template licenseDemeritRenderer = ''license.demerit.v1''"
| "template vehicleTransferredRenderer = ''vehicle.transferred.v1''"

text \<open>The vehicle of a fine, \<open>None\<close> where there is none; the error of the lookup is dropped.\<close>

definition vehicle_of_fine :: "session \<Rightarrow> string \<Rightarrow> uuid \<Rightarrow> db \<Rightarrow> uuid option option" where
  "vehicle_of_fine s ten fid d = map_option f_vehicle_id (row_seen f_tenant s (\<lambda>f. f_id f = fid \<and> f_tenant f = ten) (fines d))"

definition resolveByFine :: "session \<Rightarrow> string \<Rightarrow> uuid \<Rightarrow> recipient option job" where
  "resolveByFine s ten fid =
     bind (exec_try (query_row (vehicle_of_fine s ten fid))) (\<lambda>res.
     resolveByVehicle s ten (case res of Inl _ \<Rightarrow> None | Inr vid \<Rightarrow> vid))"

definition resolve_recipient :: "session \<Rightarrow> string \<Rightarrow> renderer \<Rightarrow> payload \<Rightarrow> recipient option job" where
  "resolve_recipient s ten r data =
     (case r of
        fineIssuedRenderer \<Rightarrow> (case data of FineIssued p \<Rightarrow> resolveByVehicle s ten (fip_vehicle_id p) | _ \<Rightarrow> stop PlainError)
      | finePaidRenderer \<Rightarrow> (case data of FinePaid p \<Rightarrow> resolveByFine s ten (fpp_fine_id p) | _ \<Rightarrow> stop PlainError)
      | fineCancelledRenderer \<Rightarrow> (case data of FineCancelled fid _ \<Rightarrow> resolveByFine s ten fid | _ \<Rightarrow> stop PlainError)
      | fineEscalatedRenderer \<Rightarrow> (case data of FineEscalated p \<Rightarrow> resolveByFine s ten (fep_fine_id p) | _ \<Rightarrow> stop PlainError)
      | licenseSuspendedRenderer \<Rightarrow> (case data of LicenseSuspended p \<Rightarrow> resolveByLicense s ten (lsp_license_id p) | _ \<Rightarrow> stop PlainError)
      | licenseReinstatedRenderer \<Rightarrow> (case data of LicenseReinstated lid _ \<Rightarrow> resolveByLicense s ten lid | _ \<Rightarrow> stop PlainError)
      | licenseDemeritRenderer \<Rightarrow> (case data of LicenseDemerit p \<Rightarrow> resolveByLicense s ten (ldp_license_id p) | _ \<Rightarrow> stop PlainError)
      | vehicleTransferredRenderer \<Rightarrow> (case data of VehicleTransferred p \<Rightarrow> resolve_contact (contact_of_owner s ten (vtp_to_owner p)) | _ \<Rightarrow> stop PlainError))"

fun stamp_text :: "(time \<Rightarrow> string) \<Rightarrow> stamp \<Rightarrow> string" where
  "stamp_text rfc (Text s) = s"
| "stamp_text rfc (RFC3339 t) = rfc t"

definition letter :: "string \<Rightarrow> string list \<Rightarrow> string" where
  "letter name parts = ''Hello '' @ name @ '','' @ nl @ nl @ concat parts @ nl @ nl @ ''NADITOS''"

text \<open>Subject and body, one definition per renderer.\<close>

definition fine_issued_text :: "fine_issued_payload \<Rightarrow> string \<Rightarrow> string \<times> string" where
  "fine_issued_text p name =
     (''Traffic fine issued for '' @ fip_plate p,
      letter name [''A fine of '', amount_text (fip_amount p), '' '', fip_currency p, '' has been issued for vehicle '', fip_plate p, nl,
        ''Offence code: '', fip_offence_code p, nl, nl,
        ''You can pay or dispute it via the citizen portal.''])"

definition fine_paid_text :: "fine_paid_payload \<Rightarrow> string \<Rightarrow> string \<times> string" where
  "fine_paid_text p name =
     (''Payment received'',
      letter name [''Your payment of '', amount_text (fpp_amount p), '' '', fpp_currency p, '' for fine '', uuid_prefix (fpp_fine_id p), '' has been recorded.''])"

definition license_suspended_text :: "(time \<Rightarrow> string) \<Rightarrow> license_suspended_payload \<Rightarrow> string \<Rightarrow> string \<times> string" where
  "license_suspended_text rfc p name =
     (''License suspended'',
      letter name [''Your driver license has been suspended.'', nl, ''Reason: '', lsp_reason p, nl,
        ''Effective: '', stamp_text rfc (lsp_starts_at p), nl, ''Until: '', stamp_text rfc (lsp_ends_at p)])"

definition fine_cancelled_text :: "string \<Rightarrow> string \<Rightarrow> string \<times> string" where
  "fine_cancelled_text reason name =
     (''Fine cancelled'',
      letter name [''A traffic fine on your vehicle has been cancelled.'', nl, ''Reason: '', reason, nl, nl,
        ''You no longer owe this amount and no demerit points apply.''])"

definition fine_escalated_text :: "fine_escalated_payload \<Rightarrow> string \<Rightarrow> string \<times> string" where
  "fine_escalated_text p name =
     (''Action required on outstanding fine'',
      letter name [''Your unpaid fine has moved to escalation stage '', int_text (fep_to_stage p), '' ('', fep_action p, '').'', nl,
        ''Reference: '', uuid_prefix (fep_fine_id p), nl, nl,
        ''Please pay or dispute via the citizen portal to avoid further action.''])"

definition license_reinstated_text :: "string \<Rightarrow> string \<times> string" where
  "license_reinstated_text name =
     (''Driver license reinstated'',
      letter name [''Good news '', [CHR 0xE2, CHR 0x80, CHR 0x94], '' your driver license has been reinstated and is valid for use immediately.''])"

definition license_demerit_text :: "license_demerit_payload \<Rightarrow> string \<Rightarrow> string \<times> string" where
  "license_demerit_text p name =
     (let remaining = (if 12 - ldp_new_total p < 0 then 0 else 12 - ldp_new_total p) in
      (''Demerit points: +'' @ int_text (ldp_delta p) @ '' (now '' @ int_text (ldp_new_total p) @ '')'',
       letter name [int_text (ldp_delta p), '' demerit point(s) were added to your driver license.'', nl,
         ''Reason: '', ldp_reason p, nl, ''New total: '', int_text (ldp_new_total p), nl,
         ''Points until suspension: '', int_text remaining, nl, nl,
         ''View your full demerit history in the citizen portal.'']))"

definition vehicle_transferred_text :: "vehicle_transferred_payload \<Rightarrow> string \<Rightarrow> string \<times> string" where
  "vehicle_transferred_text p name =
     (''Vehicle ownership transferred to you'',
      letter name [''Vehicle '', vtp_plate p, '' has been transferred to your account.'', nl,
        ''You're now responsible for its insurance, inspection, and any future fines.'', nl, nl,
        ''View it in your citizen portal under My vehicles.''])"

definition render :: "(time \<Rightarrow> string) \<Rightarrow> renderer \<Rightarrow> payload \<Rightarrow> string \<Rightarrow> string \<times> string" where
  "render rfc r data name =
     (case r of
        fineIssuedRenderer \<Rightarrow> (case data of FineIssued p \<Rightarrow> fine_issued_text p name | _ \<Rightarrow> ([], []))
      | finePaidRenderer \<Rightarrow> (case data of FinePaid p \<Rightarrow> fine_paid_text p name | _ \<Rightarrow> ([], []))
      | licenseSuspendedRenderer \<Rightarrow> (case data of LicenseSuspended p \<Rightarrow> license_suspended_text rfc p name | _ \<Rightarrow> ([], []))
      | fineCancelledRenderer \<Rightarrow> (case data of FineCancelled fid reason \<Rightarrow> fine_cancelled_text reason name | _ \<Rightarrow> ([], []))
      | fineEscalatedRenderer \<Rightarrow> (case data of FineEscalated p \<Rightarrow> fine_escalated_text p name | _ \<Rightarrow> ([], []))
      | licenseReinstatedRenderer \<Rightarrow> license_reinstated_text name
      | licenseDemeritRenderer \<Rightarrow> (case data of LicenseDemerit p \<Rightarrow> license_demerit_text p name | _ \<Rightarrow> ([], []))
      | vehicleTransferredRenderer \<Rightarrow> (case data of VehicleTransferred p \<Rightarrow> vehicle_transferred_text p name | _ \<Rightarrow> ([], [])))"

section \<open>Sending\<close>

record message =
  ms_tenant :: string
  ms_channel :: string
  ms_to :: string
  ms_subject :: string
  ms_body :: string
  ms_template :: string

text \<open>The provider: its name, and the receipt or the error it answers a message with.\<close>

record sender =
  sn_provider :: string
  sn_send :: "message \<Rightarrow> goerr + string"

record notifier =
  nt_pool :: dbrole
  nt_sender :: sender
  nt_rfc3339 :: "time \<Rightarrow> string"

definition notify_DevStub :: "string \<Rightarrow> sender" where
  "notify_DevStub receipt = \<lparr>sn_provider = ''dev-stub'', sn_send = (\<lambda>_. Inr receipt)\<rparr>"

text \<open>A message that was taken is out; no rollback brings it back.\<close>

definition Send :: "sender \<Rightarrow> message \<Rightarrow> (db, effect, 'r, goerr + string) act" where
  "Send sn m =
     (case sn_send sn m of
        Inl e \<Rightarrow> ret (Inl e)
      | Inr receipt \<Rightarrow> andthen (emit (MessageSent (ms_tenant m) (ms_channel m) (ms_to m) (if ms_template m = [] then None else Some (ms_template m))))
          (ret (Inr receipt)))"

definition notification_channels :: "string list" where
  "notification_channels = [''sms'', ''email'', ''push'']"

definition insert_notification :: "session \<Rightarrow> notification_row \<Rightarrow> db \<Rightarrow> sqlerr + uuid \<times> db" where
  "insert_notification s r d =
     (if nr_channel r \<notin> set notification_channels then Inl CheckViolation
      else if map_of (tenants d) (nr_tenant r) = None then Inl ForeignKeyViolation
      else case insert_row nr_tenant s (\<lambda>old new. nr_id old = nr_id new) r (notification_records d) of
             Inl e \<Rightarrow> Inl e
           | Inr rows \<Rightarrow> Inr (nr_id r, d\<lparr>notification_records := rows\<rparr>))"

definition new_notification ::
    "surroundings \<Rightarrow> uuid \<Rightarrow> string \<Rightarrow> int option \<Rightarrow> string \<Rightarrow> string \<Rightarrow> string option \<Rightarrow> string \<Rightarrow> string option \<Rightarrow> notification_status \<Rightarrow> notification_row" where
  "new_notification sur nid ten ev channel to' subject body tmpl st =
     \<lparr>nr_id = nid, nr_tenant = ten, nr_related_event = ev, nr_channel = channel, nr_recipient = to', nr_subject = subject,
      nr_body = body, nr_template = tmpl, nr_status = st, nr_provider = None, nr_provider_ref = None, nr_attempts = 0,
      nr_failed_with = None, nr_created_at = db_now sur, nr_sent_at = None\<rparr>"

definition mark_send_failed :: "goerr \<Rightarrow> notification_row \<Rightarrow> notification_row" where
  "mark_send_failed e r = r\<lparr>nr_status := NFailed, nr_failed_with := Some e, nr_attempts := nr_attempts r + 1\<rparr>"

definition mark_sent :: "surroundings \<Rightarrow> string \<Rightarrow> string \<Rightarrow> notification_row \<Rightarrow> notification_row" where
  "mark_sent sur prov receipt r =
     r\<lparr>nr_status := NSent, nr_sent_at := Some (db_now sur), nr_provider := Some prov, nr_provider_ref := Some receipt,
       nr_attempts := nr_attempts r + 1\<rparr>"

definition update_notification :: "session \<Rightarrow> uuid \<Rightarrow> (notification_row \<Rightarrow> notification_row) \<Rightarrow> db \<Rightarrow> db" where
  "update_notification s nid f d =
     d\<lparr>notification_records := update_rows nr_tenant s (\<lambda>r. nr_id r = nid) f (notification_records d)\<rparr>"

section \<open>The consumer\<close>

definition nt_session :: "notifier \<Rightarrow> session" where
  "nt_session n = session_of (nt_pool n) []"

definition send_rendered :: "notifier \<Rightarrow> surroundings \<Rightarrow> nat \<Rightarrow> int \<Rightarrow> envelope \<Rightarrow> renderer \<Rightarrow> recipient \<Rightarrow> unit job" where
  "send_rendered n sur k eid env r rec =
     (case render (nt_rfc3339 n) r (env_data env) (rc_name rec) of (subject, body) \<Rightarrow>
        bind (exec_job (insert_notification (nt_session n) (new_notification sur (new_uuid sur k) (env_tenant env) (Some eid)
          (rc_channel rec) (rc_address rec) (Some subject) body (Some (template r)) NPending))) (\<lambda>nid.
        bind (Send (nt_sender n) \<lparr>ms_tenant = env_tenant env, ms_channel = rc_channel rec, ms_to = rc_address rec, ms_subject = subject,
          ms_body = body, ms_template = template r\<rparr>) (\<lambda>res.
        case res of
          Inl e \<Rightarrow> exec_job (change (update_notification (nt_session n) nid (mark_send_failed e)))
        | Inr receipt \<Rightarrow>
            exec_job (change (update_notification (nt_session n) nid (mark_sent sur (sn_provider (nt_sender n)) receipt))))))"

definition handleEvent :: "notifier \<Rightarrow> surroundings \<Rightarrow> nat \<Rightarrow> int \<Rightarrow> envelope \<Rightarrow> unit job" where
  "handleEvent n sur k eid env =
     (case map_of renderers (env_type env) of
        None \<Rightarrow> ret ()
      | Some r \<Rightarrow>
          bind (resolve_recipient (nt_session n) (env_tenant env) r (env_data env)) (\<lambda>rec.
          case rec of
            None \<Rightarrow>
              bind (exec_job (insert_notification (nt_session n) (new_notification sur (new_uuid sur k) (env_tenant env) (Some eid)
                ''email'' [] None ''(no recipient resolvable)'' (Some (template r)) NSuppressed))) (\<lambda>_. ret ())
          | Some rcp \<Rightarrow> send_rendered n sur k eid env r rcp))"

definition handleEventInTx :: "notifier \<Rightarrow> surroundings \<Rightarrow> nat \<Rightarrow> int \<Rightarrow> envelope \<Rightarrow> unit job" where
  "handleEventInTx n sur k eid env = in_tx PlainError (handleEvent n sur k eid env)"

text \<open>The table of offsets is closed to every session the policies apply to.\<close>

definition notify_consumer :: string where
  "notify_consumer = ''notifications''"

definition read_offset :: "session \<Rightarrow> db \<Rightarrow> int option" where
  "read_offset s d = (if s = BypassRls then map_of (consumer_offsets d) notify_consumer else None)"

definition create_offset :: "session \<Rightarrow> db \<Rightarrow> sqlerr + unit \<times> db" where
  "create_offset s d =
     (if s \<noteq> BypassRls then Inl RlsViolation
      else if map_of (consumer_offsets d) notify_consumer \<noteq> None then Inr ((), d)
      else Inr ((), d\<lparr>consumer_offsets := consumer_offsets d @ [(notify_consumer, 0)]\<rparr>))"

definition move_offset :: "session \<Rightarrow> int \<Rightarrow> db \<Rightarrow> db" where
  "move_offset s n d =
     (if s = BypassRls then d\<lparr>consumer_offsets := map (\<lambda>(k, v). if k = notify_consumer then (k, n) else (k, v)) (consumer_offsets d)\<rparr> else d)"

definition pending_events :: "session \<Rightarrow> int \<Rightarrow> db \<Rightarrow> outbox_row list" where
  "pending_events s lastID d = take 50 (sort_key ob_id (filter (\<lambda>r. ob_id r > lastID) (rows_seen ob_tenant s (outbox d))))"

fun handle_batch :: "notifier \<Rightarrow> surroundings \<Rightarrow> nat \<Rightarrow> outbox_row list \<Rightarrow> unit job" where
  "handle_batch n sur k [] = ret ()"
| "handle_batch n sur k (p # ps) =
     andthen (case ob_body p of
                None \<Rightarrow> ret ()
              | Some env \<Rightarrow> bind (attempt (handleEventInTx n sur k (ob_id p) env)) (\<lambda>_. ret ()))
     (handle_batch n sur (Suc k) ps)"

definition notify_offset :: "notifier \<Rightarrow> int job" where
  "notify_offset n =
     bind (exec_try (query_row (read_offset (nt_session n)))) (\<lambda>res.
     case res of
       Inr lastID \<Rightarrow> ret lastID
     | Inl e \<Rightarrow> if e = NoRows then andthen (exec_job (create_offset (nt_session n))) (ret 0) else stop PlainError)"

definition notify_tick :: "notifier \<Rightarrow> surroundings \<Rightarrow> unit job" where
  "notify_tick n sur =
     bind (notify_offset n) (\<lambda>lastID.
     bind (exec_job (query (pending_events (nt_session n) lastID))) (\<lambda>batch.
     if batch = [] then ret ()
     else
       andthen (handle_batch n sur 0 batch) (
       exec_job (change (move_offset (nt_session n) (ob_id (last batch)))))))"

section \<open>Who is told what\<close>

text \<open>
  What an event comes to, as a function of the database: \<open>addressee\<close> is the person reached, an error
  where the data is refused; \<open>notice\<close> is the record of the event, if it has one.
\<close>

definition vehicle_addressee :: "session \<Rightarrow> string \<Rightarrow> uuid option \<Rightarrow> db \<Rightarrow> recipient option" where
  "vehicle_addressee s ten vid d = Option.bind vid (\<lambda>v. Option.bind (contact_of_vehicle s ten v d) reach)"

definition fine_addressee :: "session \<Rightarrow> string \<Rightarrow> uuid \<Rightarrow> db \<Rightarrow> recipient option" where
  "fine_addressee s ten fid d = vehicle_addressee s ten (case vehicle_of_fine s ten fid d of None \<Rightarrow> None | Some vid \<Rightarrow> vid) d"

definition addressee :: "session \<Rightarrow> string \<Rightarrow> renderer \<Rightarrow> payload \<Rightarrow> db \<Rightarrow> recipient option option" where
  "addressee s ten r data d =
     (case r of
        fineIssuedRenderer \<Rightarrow> (case data of FineIssued p \<Rightarrow> Some (vehicle_addressee s ten (fip_vehicle_id p) d) | _ \<Rightarrow> None)
      | finePaidRenderer \<Rightarrow> (case data of FinePaid p \<Rightarrow> Some (fine_addressee s ten (fpp_fine_id p) d) | _ \<Rightarrow> None)
      | fineCancelledRenderer \<Rightarrow> (case data of FineCancelled fid _ \<Rightarrow> Some (fine_addressee s ten fid d) | _ \<Rightarrow> None)
      | fineEscalatedRenderer \<Rightarrow> (case data of FineEscalated p \<Rightarrow> Some (fine_addressee s ten (fep_fine_id p) d) | _ \<Rightarrow> None)
      | licenseSuspendedRenderer \<Rightarrow> (case data of LicenseSuspended p \<Rightarrow> Some (Option.bind (contact_of_license s ten (lsp_license_id p) d) reach) | _ \<Rightarrow> None)
      | licenseReinstatedRenderer \<Rightarrow> (case data of LicenseReinstated lid _ \<Rightarrow> Some (Option.bind (contact_of_license s ten lid d) reach) | _ \<Rightarrow> None)
      | licenseDemeritRenderer \<Rightarrow> (case data of LicenseDemerit p \<Rightarrow> Some (Option.bind (contact_of_license s ten (ldp_license_id p) d) reach) | _ \<Rightarrow> None)
      | vehicleTransferredRenderer \<Rightarrow> (case data of VehicleTransferred p \<Rightarrow> Some (Option.bind (contact_of_owner s ten (vtp_to_owner p) d) reach) | _ \<Rightarrow> None))"

definition message_of :: "notifier \<Rightarrow> envelope \<Rightarrow> renderer \<Rightarrow> recipient \<Rightarrow> message" where
  "message_of n env r rcp =
     (case render (nt_rfc3339 n) r (env_data env) (rc_name rcp) of (subject, body) \<Rightarrow>
        \<lparr>ms_tenant = env_tenant env, ms_channel = rc_channel rcp, ms_to = rc_address rcp, ms_subject = subject, ms_body = body,
         ms_template = template r\<rparr>)"

definition sent_row :: "notifier \<Rightarrow> surroundings \<Rightarrow> nat \<Rightarrow> int \<Rightarrow> envelope \<Rightarrow> renderer \<Rightarrow> recipient \<Rightarrow> notification_row" where
  "sent_row n sur k eid env r rcp =
     (let m = message_of n env r rcp;
          row = new_notification sur (new_uuid sur k) (env_tenant env) (Some eid) (ms_channel m) (ms_to m) (Some (ms_subject m)) (ms_body m)
            (Some (template r)) NPending
      in case sn_send (nt_sender n) m of
           Inl e \<Rightarrow> mark_send_failed e row
         | Inr receipt \<Rightarrow> mark_sent sur (sn_provider (nt_sender n)) receipt row)"

definition suppressed_row :: "surroundings \<Rightarrow> nat \<Rightarrow> int \<Rightarrow> envelope \<Rightarrow> renderer \<Rightarrow> notification_row" where
  "suppressed_row sur k eid env r =
     new_notification sur (new_uuid sur k) (env_tenant env) (Some eid) ''email'' [] None ''(no recipient resolvable)''
       (Some (template r)) NSuppressed"

definition notice :: "notifier \<Rightarrow> surroundings \<Rightarrow> nat \<Rightarrow> int \<Rightarrow> envelope \<Rightarrow> db \<Rightarrow> notification_row list" where
  "notice n sur k eid env d =
     (case map_of renderers (env_type env) of
        None \<Rightarrow> []
      | Some r \<Rightarrow>
          (case addressee (nt_session n) (env_tenant env) r (env_data env) d of
             None \<Rightarrow> []
           | Some None \<Rightarrow> [suppressed_row sur k eid env r]
           | Some (Some rcp) \<Rightarrow> [sent_row n sur k eid env r rcp]))"

definition row_notice :: "notifier \<Rightarrow> surroundings \<Rightarrow> db \<Rightarrow> nat \<Rightarrow> outbox_row \<Rightarrow> notification_row list" where
  "row_notice n sur d k p = (case ob_body p of None \<Rightarrow> [] | Some env \<Rightarrow> notice n sur k (ob_id p) env d)"

lemma addressee_apart [simp]:
  "addressee s ten r data (d\<lparr>notification_records := x\<rparr>) = addressee s ten r data d"
  "addressee s ten r data (d\<lparr>consumer_offsets := y\<rparr>) = addressee s ten r data d"
  by (simp_all add: addressee_def vehicle_addressee_def fine_addressee_def contact_of_vehicle_def contact_of_license_def
      contact_of_owner_def vehicle_of_fine_def user_seen_def cong: renderer.case_cong payload.case_cong)

lemma row_notice_apart [simp]:
  "row_notice n sur (d\<lparr>notification_records := x\<rparr>) = row_notice n sur d"
  "row_notice n sur (d\<lparr>consumer_offsets := y\<rparr>) = row_notice n sur d"
  by (simp_all add: row_notice_def notice_def fun_eq_iff cong: option.case_cong)

lemma notice_row_fields [simp]:
  "nr_related_event (sent_row n sur k eid env r rcp) = Some eid" "nr_related_event (suppressed_row sur k eid env r) = Some eid"
  "nr_id (sent_row n sur k eid env r rcp) = new_uuid sur k" "nr_id (suppressed_row sur k eid env r) = new_uuid sur k"
  "nr_tenant (sent_row n sur k eid env r rcp) = env_tenant env" "nr_tenant (suppressed_row sur k eid env r) = env_tenant env"
  "nr_channel (sent_row n sur k eid env r rcp) = rc_channel rcp" "nr_recipient (sent_row n sur k eid env r rcp) = rc_address rcp"
  by (simp_all add: suppressed_row_def sent_row_def new_notification_def mark_send_failed_def mark_sent_def message_of_def Let_def
      split: sum.split prod.split)

lemma row_notice_fields:
  assumes "r \<in> set (row_notice n sur d k p)"
  shows "nr_related_event r = Some (ob_id p) \<and> nr_id r = new_uuid sur k \<and> (\<exists>env. ob_body p = Some env \<and> nr_tenant r = env_tenant env)"
proof (cases "ob_body p")
  case None
  with assms show ?thesis by (simp add: row_notice_def)
next
  case (Some env)
  with assms have "r \<in> set (notice n sur k (ob_id p) env d)" by (simp add: row_notice_def)
  with Some show ?thesis by (auto simp: notice_def split: option.splits)
qed

lemma length_row_notice: "length (row_notice n sur d k p) \<le> 1"
  by (simp add: row_notice_def notice_def split: option.split)

section \<open>What handling an event does\<close>

lemma resolve_contact_run:
  assumes "resolve_contact f w = (Inr rec, w')"
  shows "rec = Option.bind (f (w_db w)) reach \<and> w_db w' = w_db w \<and> w_snap w' = w_snap w"
proof -
  from assms obtain res w1 where q: "(exec_try (query_row f) :: (sqlerr + _) job) w = (Inr res, w1)"
    and rest: "((case res of Inl e \<Rightarrow> if e = NoRows then ret None else stop PlainError | Inr c \<Rightarrow> ret (reach c)) :: recipient option job) w1 = (Inr rec, w')"
    unfolding resolve_contact_def by (elim bindE)
  from q show ?thesis
    by (cases rule: exec_try_cases) (use rest in \<open>auto simp: query_row_def split: option.splits if_splits\<close>)
qed

lemma resolveByVehicle_run:
  assumes "resolveByVehicle s ten vid w = (Inr rec, w')"
  shows "rec = vehicle_addressee s ten vid (w_db w) \<and> w_db w' = w_db w \<and> w_snap w' = w_snap w"
  using assms resolve_contact_run by (cases vid) (auto simp: resolveByVehicle_def vehicle_addressee_def)

lemma exec_try_still_aborted: "exec_try f w = (res, w') \<Longrightarrow> w_aborted w \<Longrightarrow> w_aborted w'"
  by (auto simp: exec_try_def Let_def)

lemma resolve_still_aborted:
  assumes "resolveByVehicle s ten vid w = (Inr rec, w')" and "w_aborted w"
  shows "w_aborted w'"
proof (cases vid)
  case None
  with assms show ?thesis by (simp add: resolveByVehicle_def)
next
  case (Some v)
  from assms(1) obtain res w1 where q: "(exec_try (query_row (contact_of_vehicle s ten v)) :: (sqlerr + _) job) w = (Inr res, w1)"
    and rest: "((case res of Inl e \<Rightarrow> if e = NoRows then ret None else stop PlainError | Inr c \<Rightarrow> ret (reach c)) :: recipient option job) w1 = (Inr rec, w')"
    unfolding resolveByVehicle_def resolve_contact_def Some option.case by (elim bindE)
  from exec_try_still_aborted [OF q assms(2)] rest show ?thesis by (auto split: sum.splits if_splits)
qed

lemma resolveByFine_run:
  assumes "resolveByFine s ten fid w = (Inr rec, w')" and "w_snap w \<noteq> None" and "\<not> w_aborted w'"
  shows "rec = fine_addressee s ten fid (w_db w) \<and> w_db w' = w_db w \<and> w_snap w' = w_snap w"
proof -
  from assms(1) obtain res w1 where q: "(exec_try (query_row (vehicle_of_fine s ten fid)) :: (sqlerr + _) job) w = (Inr res, w1)"
    and rest: "resolveByVehicle s ten (case res of Inl _ \<Rightarrow> None | Inr vid \<Rightarrow> vid) w1 = (Inr rec, w')"
    unfolding resolveByFine_def by (elim bindE)
  from resolve_still_aborted [OF rest] assms(3) have alive: "\<not> w_aborted w1" by blast
  from try_row_settled [OF q assms(2) alive] resolveByVehicle_run [OF rest] show ?thesis
    by (auto simp: fine_addressee_def split: option.splits)
qed

lemma resolve_recipient_run:
  assumes "resolve_recipient s ten r data w = (Inr rec, w')" and "w_snap w \<noteq> None" and "\<not> w_aborted w'"
  shows "addressee s ten r data (w_db w) = Some rec \<and> w_db w' = w_db w \<and> w_snap w' = w_snap w"
  using assms
  by (cases r; cases data)
    (auto simp: resolve_recipient_def addressee_def resolveByLicense_def dest!: resolveByVehicle_run resolveByFine_run resolve_contact_run)

lemma insert_notification_Inr:
  "insert_notification s r d = Inr (x, d') \<Longrightarrow> x = nr_id r \<and> d' = d\<lparr>notification_records := notification_records d @ [r]\<rparr>
     \<and> sees s (nr_tenant r) \<and> (\<forall>y\<in>set (notification_records d). nr_id y \<noteq> nr_id r)"
  unfolding insert_notification_def by (auto simp: insert_row_Inr split: if_splits sum.splits)

lemma update_last_notification:
  assumes "\<forall>y\<in>set rows. nr_id y \<noteq> nr_id r" and "sees s (nr_tenant r)"
  shows "update_notification s (nr_id r) f (d\<lparr>notification_records := rows @ [r]\<rparr>) = d\<lparr>notification_records := rows @ [f r]\<rparr>"
proof -
  have "map (\<lambda>y. if sees s (nr_tenant y) \<and> nr_id y = nr_id r then f y else y) rows = rows"
    using assms(1) by (intro map_idI) auto
  with assms(2) show ?thesis by (simp add: update_notification_def update_rows_def)
qed

lemma SendE:
  assumes "Send sn m w = (Inr res, w')"
  shows "res = sn_send sn m \<and> w_db w' = w_db w \<and> w_snap w' = w_snap w"
  using assms by (auto simp: Send_def andthen_def bind_def emit_def ret_def split: sum.splits)

lemma send_rendered_run:
  assumes "send_rendered n sur k eid env r rcp w = (Inr u, w')"
  shows "w_db w' = (w_db w)\<lparr>notification_records := notification_records (w_db w) @ [sent_row n sur k eid env r rcp]\<rparr>"
proof -
  let ?m = "message_of n env r rcp"
  define row where "row = new_notification sur (new_uuid sur k) (env_tenant env) (Some eid) (ms_channel ?m) (ms_to ?m) (Some (ms_subject ?m)) (ms_body ?m)
      (Some (template r)) NPending"
  obtain subject body where rendered: "render (nt_rfc3339 n) r (env_data env) (rc_name rcp) = (subject, body)" by fastforce
  from assms rendered obtain nid w1 res w2 where
    ins: "(exec_job (insert_notification (nt_session n) row) :: uuid job) w = (Inr nid, w1)" and
    snd: "(Send (nt_sender n) ?m :: (goerr + string) job) w1 = (Inr res, w2)" and
    upd: "((case res of Inl e \<Rightarrow> exec_job (change (update_notification (nt_session n) nid (mark_send_failed e)))
        | Inr receipt \<Rightarrow> exec_job (change (update_notification (nt_session n) nid (mark_sent sur (sn_provider (nt_sender n)) receipt)))) :: unit job) w2 = (Inr u, w')"
    unfolding send_rendered_def by (auto simp: message_of_def row_def elim!: bindE)
  from insert_notification_Inr [OF exec_db [OF ins]] have nid: "nid = nr_id row" "sees (nt_session n) (nr_tenant row)"
    "\<forall>y\<in>set (notification_records (w_db w)). nr_id y \<noteq> nr_id row"
    and w1: "w_db w1 = (w_db w)\<lparr>notification_records := notification_records (w_db w) @ [row]\<rparr>" by simp_all
  from SendE [OF snd] have res: "res = sn_send (nt_sender n) ?m" and w2: "w_db w2 = w_db w1" by simp_all
  note last_row = update_last_notification [OF nid(3,2)]
  show ?thesis
  proof (cases res)
    case (Inl e)
    with upd exec_change_db have "w_db w' = update_notification (nt_session n) nid (mark_send_failed e) (w_db w2)" by fastforce
    with Inl res show ?thesis by (simp add: w2 w1 nid(1) last_row sent_row_def Let_def flip: row_def)
  next
    case (Inr receipt)
    with upd exec_change_db have "w_db w' = update_notification (nt_session n) nid (mark_sent sur (sn_provider (nt_sender n)) receipt) (w_db w2)" by fastforce
    with Inr res show ?thesis by (simp add: w2 w1 nid(1) last_row sent_row_def Let_def flip: row_def)
  qed
qed

lemma handleEvent_run:
  assumes run: "handleEvent n sur k eid env w = (Inr u, w')" and tx: "w_snap w \<noteq> None"
  shows "w_db w' = (w_db w)\<lparr>notification_records := notification_records (w_db w) @ notice n sur k eid env (w_db w)\<rparr>"
proof (cases "map_of renderers (env_type env)")
  case None
  with run show ?thesis by (simp add: handleEvent_def notice_def)
next
  case (Some r)
  let ?s = "nt_session n"
  from run Some obtain rec w1 where res: "resolve_recipient ?s (env_tenant env) r (env_data env) w = (Inr rec, w1)"
    and rest: "((case rec of
            None \<Rightarrow> bind (exec_job (insert_notification ?s (suppressed_row sur k eid env r))) (\<lambda>_. ret ())
          | Some rcp \<Rightarrow> send_rendered n sur k eid env r rcp) :: unit job) w1 = (Inr u, w')"
    unfolding handleEvent_def suppressed_row_def by simp (elim bindE)
  have alive: "\<not> w_aborted w1"
  proof (cases rec)
    case None
    with rest show ?thesis by (auto elim!: bindE exec_orE)
  next
    case (Some rcp)
    with rest show ?thesis by (auto simp: send_rendered_def elim!: bindE exec_orE split: prod.splits)
  qed
  from resolve_recipient_run [OF res tx alive] have spec: "addressee ?s (env_tenant env) r (env_data env) (w_db w) = Some rec"
    and w1: "w_db w1 = w_db w" by simp_all
  show ?thesis
  proof (cases rec)
    case None
    with rest obtain nid w2 where ins: "(exec_job (insert_notification ?s (suppressed_row sur k eid env r)) :: uuid job) w1 = (Inr nid, w2)" "w' = w2"
      by (auto elim!: bindE)
    from insert_notification_Inr [OF exec_db [OF ins(1)]] ins(2) Some None spec w1 show ?thesis by (simp add: notice_def)
  next
    case rcp: (Some rcp)
    with rest have "send_rendered n sur k eid env r rcp w1 = (Inr u, w')" by simp
    from send_rendered_run [OF this] Some rcp spec w1 show ?thesis by (simp add: notice_def)
  qed
qed

lemma tx_resolve: "keeps same_tx (resolve_recipient s ten r data)"
  unfolding resolve_recipient_def resolveByVehicle_def resolveByLicense_def resolveByFine_def resolve_contact_def
  by (cases r; cases data; simp only: renderer.case payload.case; intro tx_steps)

lemma tx_handleEvent: "keeps same_tx (handleEvent n sur k eid env)"
  unfolding handleEvent_def send_rendered_def Send_def by (intro tx_steps tx_resolve)

text \<open>An event in its own transaction: recorded as a whole, or not at all.\<close>

lemma handleEventInTx_outcome:
  assumes "handleEventInTx n sur k eid env w = (res, w')" and "w_snap w = None"
  shows "w_snap w' = None \<and> (\<exists>rs. subseq rs (notice n sur k eid env (w_db w))
    \<and> w_db w' = (w_db w)\<lparr>notification_records := notification_records (w_db w) @ rs\<rparr>)"
  using assms(1) [unfolded handleEventInTx_def] assms(2) tx_handleEvent
proof (cases rule: in_tx_cases)
  case (committed u w1 w2)
  then have "w_snap w1 \<noteq> None" by simp
  from handleEvent_run [OF committed(2) this] committed show ?thesis
    by (intro conjI exI [of _ "notice n sur k eid env (w_db w)"]) simp_all
next
  case (rolledback r)
  then show ?thesis by (intro conjI exI [of _ "[]"]) simp_all
qed

definition batch_notices :: "notifier \<Rightarrow> surroundings \<Rightarrow> db \<Rightarrow> nat \<Rightarrow> outbox_row list \<Rightarrow> notification_row list" where
  "batch_notices n sur d k ps = concat (map (\<lambda>(i, p). row_notice n sur d i p) (List.enumerate k ps))"

lemma batch_notices_simps [simp]:
  "batch_notices n sur d k [] = []"
  "batch_notices n sur d k (p # ps) = row_notice n sur d k p @ batch_notices n sur d (Suc k) ps"
  "batch_notices n sur (d\<lparr>notification_records := x\<rparr>) k ps = batch_notices n sur d k ps"
  "batch_notices n sur (d\<lparr>consumer_offsets := y\<rparr>) k ps = batch_notices n sur d k ps"
  by (simp_all add: batch_notices_def)

lemma handle_batch_outcome:
  assumes "handle_batch n sur k ps w = (res, w')" and "w_snap w = None"
  shows "res = Inr () \<and> w_snap w' = None \<and> (\<exists>rs. subseq rs (batch_notices n sur (w_db w) k ps)
    \<and> w_db w' = (w_db w)\<lparr>notification_records := notification_records (w_db w) @ rs\<rparr>)"
  using assms
proof (induction ps arbitrary: k w)
  case Nil
  then show ?case by (auto simp: ret_def intro: exI [of _ "[]"])
next
  case (Cons p ps)
  obtain w1 where first: "((case ob_body p of None \<Rightarrow> ret ()
      | Some env \<Rightarrow> bind (attempt (handleEventInTx n sur k (ob_id p) env)) (\<lambda>_. ret ())) :: unit job) w = (Inr (), w1)"
    by (cases "ob_body p"; cases "handleEventInTx n sur k (ob_id p) (the (ob_body p)) w") (auto simp: ret_def bind_def attempt_def)
  have one: "w_snap w1 = None \<and> (\<exists>rs. subseq rs (row_notice n sur (w_db w) k p)
    \<and> w_db w1 = (w_db w)\<lparr>notification_records := notification_records (w_db w) @ rs\<rparr>)"
  proof (cases "ob_body p")
    case None
    with first Cons.prems(2) show ?thesis by (auto simp: row_notice_def intro: exI [of _ "[]"])
  next
    case (Some env)
    with first obtain r1 where "handleEventInTx n sur k (ob_id p) env w = (r1, w1)"
      by (auto simp: ret_def bind_def attempt_def split: prod.splits)
    from handleEventInTx_outcome [OF this Cons.prems(2)] Some show ?thesis by (simp add: row_notice_def)
  qed
  then obtain rs where rs: "subseq rs (row_notice n sur (w_db w) k p)"
    and w1: "w_db w1 = (w_db w)\<lparr>notification_records := notification_records (w_db w) @ rs\<rparr>" by blast
  from Cons.prems(1) first have "handle_batch n sur (Suc k) ps w1 = (res, w')" by (simp add: andthen_def bind_def)
  from Cons.IH [OF this] one w1 obtain rs2 where rest: "res = Inr ()" "w_snap w' = None" "subseq rs2 (batch_notices n sur (w_db w) (Suc k) ps)"
    "w_db w' = (w_db w)\<lparr>notification_records := (notification_records (w_db w) @ rs) @ rs2\<rparr>" by auto
  from list_emb_append_mono [OF rs rest(3)] rest show ?case by (intro conjI exI [of _ "rs @ rs2"]) simp_all
qed

section \<open>Without faults\<close>

lemma exec_try_row_ok:
  assumes "healthy w"
  shows "exec_try (query_row f) w = (Inr (case f (w_db w) of None \<Rightarrow> Inl NoRows | Some x \<Rightarrow> Inr x), w)"
  using assms by (cases w) (auto simp: exec_try_def query_row_def healthy_def Let_def split: option.split)

lemma resolve_contact_ok: "healthy w \<Longrightarrow> resolve_contact f w = (Inr (Option.bind (f (w_db w)) reach), w)"
  by (simp add: resolve_contact_def bind_def exec_try_row_ok ret_def split: option.split)

lemma resolveByVehicle_ok: "healthy w \<Longrightarrow> resolveByVehicle s ten vid w = (Inr (vehicle_addressee s ten vid (w_db w)), w)"
  by (cases vid) (simp_all add: resolveByVehicle_def vehicle_addressee_def resolve_contact_ok ret_def)

lemma resolveByFine_ok: "healthy w \<Longrightarrow> resolveByFine s ten fid w = (Inr (fine_addressee s ten fid (w_db w)), w)"
  by (simp add: resolveByFine_def bind_def exec_try_row_ok resolveByVehicle_ok fine_addressee_def split: option.split)

lemma resolve_recipient_ok:
  "healthy w \<Longrightarrow> resolve_recipient s ten r data w
     = (case addressee s ten r data (w_db w) of None \<Rightarrow> Inl PlainError | Some rec \<Rightarrow> Inr rec, w)"
  by (cases r; cases data)
    (simp_all add: resolve_recipient_def addressee_def resolveByLicense_def resolveByVehicle_ok resolveByFine_ok resolve_contact_ok stop_def)

lemma reach_channel: "reach c = Some rcp \<Longrightarrow> rc_channel rcp \<in> {''email'', ''sms''}"
  by (auto simp: reach_def split: prod.splits if_splits)

lemma addressee_channel: "addressee s ten r data d = Some (Some rcp) \<Longrightarrow> rc_channel rcp \<in> {''email'', ''sms''}"
  by (cases r; cases data)
    (auto simp: addressee_def vehicle_addressee_def fine_addressee_def Option.bind_eq_Some_conv dest: reach_channel)

lemma insert_notification_ok:
  assumes "nr_channel r \<in> {''email'', ''sms''}" and "map_of (tenants d) (nr_tenant r) \<noteq> None"
    and "\<forall>y\<in>set (notification_records d). nr_id y \<noteq> nr_id r"
  shows "insert_notification BypassRls r d = Inr (nr_id r, d\<lparr>notification_records := notification_records d @ [r]\<rparr>)"
  using assms by (auto simp: insert_notification_def notification_channels_def insert_row_def list_ex_iff)

lemma Send_ok: "\<exists>l. Send sn m w = (Inr (sn_send sn m), w\<lparr>w_log := l\<rparr>)"
proof (cases "sn_send sn m")
  case (Inl e)
  then show ?thesis by (intro exI [of _ "w_log w"]) (simp add: Send_def ret_def)
next
  case (Inr receipt)
  then show ?thesis by (auto simp: Send_def andthen_def bind_def emit_def ret_def)
qed

lemma send_rendered_ok:
  assumes "healthy w" and "nt_session n = BypassRls" and "rc_channel rcp \<in> {''email'', ''sms''}"
    and "map_of (tenants (w_db w)) (env_tenant env) \<noteq> None" and "\<forall>y\<in>set (notification_records (w_db w)). nr_id y \<noteq> new_uuid sur k"
  shows "\<exists>w'. send_rendered n sur k eid env r rcp w = (Inr (), w') \<and> healthy w'"
proof -
  obtain subject body where rendered: "render (nt_rfc3339 n) r (env_data env) (rc_name rcp) = (subject, body)" by fastforce
  define row where "row = new_notification sur (new_uuid sur k) (env_tenant env) (Some eid) (rc_channel rcp) (rc_address rcp) (Some subject) body
      (Some (template r)) NPending"
  have row: "nr_channel row = rc_channel rcp" "nr_tenant row = env_tenant env" "nr_id row = new_uuid sur k"
    by (simp_all add: row_def new_notification_def)
  have "insert_notification BypassRls row (w_db w) = Inr (nr_id row, (w_db w)\<lparr>notification_records := notification_records (w_db w) @ [row]\<rparr>)"
    by (rule insert_notification_ok) (use assms row in simp_all)
  from exec_or_ok [where k = "\<lambda>_. PlainError" and f = "insert_notification BypassRls row", OF assms(1) this]
  obtain w1 where ins: "(exec_job (insert_notification (nt_session n) row) :: uuid job) w = (Inr (nr_id row), w1)" "healthy w1"
    using assms(1,2) by simp
  define m where "m = \<lparr>ms_tenant = env_tenant env, ms_channel = rc_channel rcp, ms_to = rc_address rcp, ms_subject = subject,
          ms_body = body, ms_template = template r\<rparr>"
  from Send_ok [of "nt_sender n" m w1] obtain l where "(Send (nt_sender n) m :: (goerr + string) job) w1 = (Inr (sn_send (nt_sender n) m), w1\<lparr>w_log := l\<rparr>)"
    by blast
  with ins show ?thesis
    by (simp add: send_rendered_def rendered bind_def exec_change_ok flip: row_def m_def split: sum.split)
qed

lemma handleEvent_ok:
  assumes "healthy w" and "nt_session n = BypassRls"
    and "map_of (tenants (w_db w)) (env_tenant env) \<noteq> None" and "\<forall>y\<in>set (notification_records (w_db w)). nr_id y \<noteq> new_uuid sur k"
  shows "\<exists>res w'. handleEvent n sur k eid env w = (res, w') \<and> healthy w' \<and> (res = Inr () \<or> notice n sur k eid env (w_db w) = [])"
proof (cases "map_of renderers (env_type env)")
  case None
  with assms(1) show ?thesis by (simp add: handleEvent_def ret_def)
next
  case (Some r)
  note step = resolve_recipient_ok [OF assms(1), of "nt_session n" "env_tenant env" r "env_data env"]
  show ?thesis
  proof (cases "addressee (nt_session n) (env_tenant env) r (env_data env) (w_db w)")
    case None
    with Some step assms(1) show ?thesis by (simp add: handleEvent_def bind_def notice_def)
  next
    case spec: (Some rec)
    show ?thesis
    proof (cases rec)
      case None
      define row where "row = new_notification sur (new_uuid sur k) (env_tenant env) (Some eid) ''email'' [] None ''(no recipient resolvable)''
          (Some (template r)) NSuppressed"
      have "insert_notification BypassRls row (w_db w) = Inr (nr_id row, (w_db w)\<lparr>notification_records := notification_records (w_db w) @ [row]\<rparr>)"
        by (rule insert_notification_ok) (use assms in \<open>simp_all add: row_def new_notification_def\<close>)
      from exec_or_ok [where k = "\<lambda>_. PlainError" and f = "insert_notification BypassRls row", OF assms(1) this] Some step spec None assms(1,2)
      show ?thesis by (simp add: handleEvent_def bind_def ret_def flip: row_def)
    next
      case rcp: (Some rcp)
      from addressee_channel [of "nt_session n" "env_tenant env" r "env_data env" "w_db w" rcp] spec rcp have "rc_channel rcp \<in> {''email'', ''sms''}" by simp
      from send_rendered_ok [OF assms(1,2) this assms(3,4), of eid r] obtain w' where "send_rendered n sur k eid env r rcp w = (Inr (), w')" "healthy w'"
        by blast
      with Some step spec rcp show ?thesis by (simp add: handleEvent_def bind_def)
    qed
  qed
qed

lemma handleEventInTx_ok:
  assumes "healthy w" and "w_snap w = None" and "nt_session n = BypassRls"
    and "map_of (tenants (w_db w)) (env_tenant env) \<noteq> None" and "\<forall>y\<in>set (notification_records (w_db w)). nr_id y \<noteq> new_uuid sur k"
  shows "\<exists>res w'. handleEventInTx n sur k eid env w = (res, w') \<and> healthy w' \<and> w_snap w' = None
    \<and> w_db w' = (w_db w)\<lparr>notification_records := notification_records (w_db w) @ notice n sur k eid env (w_db w)\<rparr>"
proof -
  let ?w = "w\<lparr>w_snap := Some (w_db w), w_save := None\<rparr>"
  have "healthy ?w" "w_db ?w = w_db w" using assms(1) by simp_all
  from handleEvent_ok [of ?w n env sur k eid] this assms(3-5) obtain res w2 where
    run: "handleEvent n sur k eid env ?w = (res, w2)" "healthy w2" "res = Inr () \<or> notice n sur k eid env (w_db w) = []" by auto
  from keepsD [OF tx_handleEvent run(1)] have snap: "w_snap w2 = Some (w_db w)" by (simp add: same_tx_def)
  show ?thesis
  proof (cases res)
    case (Inl e)
    from in_tx_stopped [where k = PlainError and body = "handleEvent n sur k eid env", OF assms(1,2) run(1) [unfolded Inl] snap] Inl run
    show ?thesis by (simp add: handleEventInTx_def healthy_def)
  next
    case (Inr u)
    from in_tx_ok [where k = PlainError and body = "handleEvent n sur k eid env", OF assms(1,2) run(1) [unfolded Inr] run(2)]
      handleEvent_run [OF run(1) [unfolded Inr]] run(2)
    show ?thesis by (simp add: handleEventInTx_def)
  qed
qed

lemma handle_batch_ok:
  assumes "healthy w" and "w_snap w = None" and "nt_session n = BypassRls" and "inj (new_uuid sur)"
    and "\<forall>p\<in>set ps. \<forall>env. ob_body p = Some env \<longrightarrow> map_of (tenants (w_db w)) (env_tenant env) \<noteq> None"
    and "\<forall>y\<in>set (notification_records (w_db w)). \<forall>i\<ge>k. nr_id y \<noteq> new_uuid sur i"
  shows "\<exists>w'. handle_batch n sur k ps w = (Inr (), w') \<and> healthy w'
    \<and> w_db w' = (w_db w)\<lparr>notification_records := notification_records (w_db w) @ batch_notices n sur (w_db w) k ps\<rparr>"
  using assms
proof (induction ps arbitrary: k w)
  case Nil
  then show ?case by (auto simp: ret_def)
next
  case (Cons p ps)
  let ?d = "(w_db w)\<lparr>notification_records := notification_records (w_db w) @ row_notice n sur (w_db w) k p\<rparr>"
  obtain w1 where first: "((case ob_body p of None \<Rightarrow> ret ()
      | Some env \<Rightarrow> bind (attempt (handleEventInTx n sur k (ob_id p) env)) (\<lambda>_. ret ())) :: unit job) w = (Inr (), w1)"
    and w1: "healthy w1" "w_snap w1 = None" "w_db w1 = ?d"
  proof (cases "ob_body p")
    case None
    with Cons.prems show thesis by (intro that [of w]) (simp_all add: ret_def row_notice_def)
  next
    case (Some env)
    from handleEventInTx_ok [OF Cons.prems(1-3), of env sur k "ob_id p"] Cons.prems(5,6) Some obtain res w1 where
      "handleEventInTx n sur k (ob_id p) env w = (res, w1)" "healthy w1" "w_snap w1 = None" "w_db w1 = ?d"
      by (auto simp: row_notice_def)
    with Some show thesis by (intro that [of w1]) (simp_all add: bind_def attempt_def ret_def)
  qed
  have "nr_id y \<noteq> new_uuid sur i" if "y \<in> set (row_notice n sur (w_db w) k p)" "Suc k \<le> i" for y i
    using row_notice_fields [OF that(1)] injD [OF Cons.prems(4), of k i] that(2) by auto
  then have fresh: "\<forall>y\<in>set (notification_records (w_db w1)). \<forall>i\<ge>Suc k. nr_id y \<noteq> new_uuid sur i"
    using Cons.prems(6) w1(3) by auto
  from Cons.IH [OF w1(1,2) Cons.prems(3,4) _ fresh] Cons.prems(5) w1(3) obtain w2 where
    "handle_batch n sur (Suc k) ps w1 = (Inr (), w2)" "healthy w2"
    "w_db w2 = ?d\<lparr>notification_records := notification_records ?d @ batch_notices n sur ?d (Suc k) ps\<rparr>" by auto
  with first show ?case by (intro exI [of _ w2]) (simp add: andthen_def bind_def)
qed

section \<open>A tick\<close>

definition notify_position :: "db \<Rightarrow> int" where
  "notify_position d = (case map_of (consumer_offsets d) notify_consumer of None \<Rightarrow> 0 | Some m \<Rightarrow> m)"

definition due_events :: "notifier \<Rightarrow> db \<Rightarrow> outbox_row list" where
  "due_events n d = pending_events (nt_session n) (notify_position d) d"

definition due_notices :: "notifier \<Rightarrow> surroundings \<Rightarrow> db \<Rightarrow> notification_row list" where
  "due_notices n sur d = batch_notices n sur d 0 (due_events n d)"

lemma map_of_moved:
  "map_of (map (\<lambda>(k, v). if k = key then (k, m) else (k, v)) xs) nm = (if nm = key then map_option (\<lambda>_. m) (map_of xs key) else map_of xs nm)"
  for xs :: "('a \<times> 'b) list"
  by (induction xs) auto

lemma position_simps [simp]:
  "notify_position (d\<lparr>notification_records := x\<rparr>) = notify_position d"
  "due_events n (d\<lparr>notification_records := x\<rparr>) = due_events n d"
  "pending_events s m (d\<lparr>consumer_offsets := y\<rparr>) = pending_events s m d"
  by (simp_all add: notify_position_def due_events_def pending_events_def)

text \<open>Reading the offset, or creating it, whatever fails.\<close>

lemma notify_offset_outcome:
  assumes "notify_offset n w = (res, w')"
  obtains (failed) e where "res = Inl e" "w_db w' = w_db w" "w_snap w' = w_snap w"
  | (found) "res = Inr (notify_position (w_db w))" "nt_session n = BypassRls" "w_db w' = w_db w" "w_snap w' = w_snap w"
      "map_of (consumer_offsets (w_db w)) notify_consumer \<noteq> None"
  | (created) "res = Inr (notify_position (w_db w))" "nt_session n = BypassRls" "w_snap w' = w_snap w"
      "map_of (consumer_offsets (w_db w)) notify_consumer = None"
      "w_db w' = (w_db w)\<lparr>consumer_offsets := consumer_offsets (w_db w) @ [(notify_consumer, 0)]\<rparr>"
proof -
  obtain r1 w1 where q: "(exec_try (query_row (read_offset (nt_session n))) :: (sqlerr + int) job) w = (r1, w1)" by fastforce
  from exec_try_quiet [OF q] have quiet: "w_snap w1 = w_snap w" by simp
  from q show thesis
  proof (cases rule: exec_try_cases)
    case (ok m d)
    with assms q have "res = Inr m" "w' = w1" by (auto simp: notify_offset_def bind_def ret_def)
    with ok quiet show thesis by (intro found) (auto simp: read_offset_def notify_position_def split: if_splits)
  next
    case norows
    obtain r2 w2 where ins: "(exec_job (create_offset (nt_session n)) :: unit job) w1 = (r2, w2)" by fastforce
    from norows have db1: "w_db w1 = w_db w" by simp
    from ins show thesis
    proof (cases rule: exec_or_outcome)
      case (failed e)
      with assms q norows(1) ins quiet db1 show thesis by (intro that(1) [of PlainError]) (auto simp: notify_offset_def bind_def andthen_def)
    next
      case (ok x)
      with assms q norows(1) ins have out: "res = Inr 0" "w' = w2" by (auto simp: notify_offset_def bind_def andthen_def ret_def)
      from ok(2) have s: "nt_session n = BypassRls" by (simp add: create_offset_def split: if_splits)
      with norows have none: "map_of (consumer_offsets (w_db w)) notify_consumer = None"
        by (auto simp: query_row_def read_offset_def split: option.splits)
      then have "notify_position (w_db w) = 0" by (simp add: notify_position_def)
      moreover from ok(2) have "w_db w2 = (w_db w)\<lparr>consumer_offsets := consumer_offsets (w_db w) @ [(notify_consumer, 0)]\<rparr>"
        by (simp add: create_offset_def s db1 none)
      ultimately show thesis using out s none ok(4) quiet by (intro created) simp_all
    qed
  next
    case (failed e)
    with assms q have "res = Inl PlainError" "w' = w1" by (auto simp: notify_offset_def bind_def stop_def)
    with failed quiet show thesis by (intro that(1) [of PlainError]) simp_all
  qed
qed

lemma notify_offset_ok:
  assumes "healthy w" and "nt_session n = BypassRls"
  shows "\<exists>m w'. notify_offset n w = (Inr m, w') \<and> healthy w'"
proof (cases "map_of (consumer_offsets (w_db w)) notify_consumer")
  case None
  then have "create_offset BypassRls (w_db w) = Inr ((), (w_db w)\<lparr>consumer_offsets := consumer_offsets (w_db w) @ [(notify_consumer, 0)]\<rparr>)"
    by (simp add: create_offset_def)
  from exec_or_ok [where k = "\<lambda>_. PlainError" and f = "create_offset BypassRls", OF assms(1) this] None assms show ?thesis
    by (simp add: notify_offset_def bind_def andthen_def exec_try_row_ok read_offset_def ret_def)
next
  case (Some m)
  with assms show ?thesis by (simp add: notify_offset_def bind_def exec_try_row_ok read_offset_def ret_def)
qed

lemma position_after_creation: "map_of (consumer_offsets d) notify_consumer = None \<Longrightarrow>
    notify_position (d\<lparr>consumer_offsets := consumer_offsets d @ [(notify_consumer, 0)]\<rparr>) = notify_position d"
  by (simp add: notify_position_def map_add_def)

text \<open>
  The consumer follows the outbox. Whatever fails during a tick: the records it adds are a subsequence
  of those the next fifty events call for, in their order, one at most per event (the message to the
  owner of the vehicle or the holder of the licence, sent or failed, or a suppressed one where nobody
  can be reached), and nothing else in the database changes but the consumer's offset. A tick that ends
  without an error has moved the offset to the last of these events, also past those it could not
  handle; one that fails leaves the offset where it was. Without faults, for known tenants and with
  fresh identifiers, every event called for is recorded.
\<close>

theorem notifications_follow_the_outbox:
  assumes run: "notify_tick n sur w = (res, w')" and idle: "w_snap w = None"
  shows "\<exists>rs offs. w_db w' = (w_db w)\<lparr>notification_records := notification_records (w_db w) @ rs, consumer_offsets := offs\<rparr>
    \<and> subseq rs (due_notices n sur (w_db w))
    \<and> notify_position (w_db w') = (if res = Inr () \<and> due_events n (w_db w) \<noteq> [] then ob_id (last (due_events n (w_db w))) else notify_position (w_db w))
    \<and> (healthy w \<and> nt_pool n = BypassesRls \<and> inj (new_uuid sur)
         \<and> (\<forall>p\<in>set (outbox (w_db w)). \<forall>env. ob_body p = Some env \<longrightarrow> map_of (tenants (w_db w)) (env_tenant env) \<noteq> None)
         \<and> (\<forall>y\<in>set (notification_records (w_db w)). nr_id y \<notin> range (new_uuid sur))
         \<longrightarrow> res = Inr () \<and> rs = due_notices n sur (w_db w))"
proof -
  let ?d = "w_db w" and ?b = "due_events n (w_db w)"
  let ?fine = "healthy w \<and> nt_pool n = BypassesRls"
  let ?cond = "healthy w \<and> nt_pool n = BypassesRls \<and> inj (new_uuid sur)
    \<and> (\<forall>p\<in>set (outbox ?d). \<forall>env. ob_body p = Some env \<longrightarrow> map_of (tenants ?d) (env_tenant env) \<noteq> None)
    \<and> (\<forall>y\<in>set (notification_records ?d). nr_id y \<notin> range (new_uuid sur))"
  obtain r1 w1 where pos: "notify_offset n w = (r1, w1)" by fastforce
  have same: "?d = ?d\<lparr>consumer_offsets := consumer_offsets ?d\<rparr>" by simp
  obtain offs where w1: "w_snap w1 = None" "w_db w1 = ?d\<lparr>consumer_offsets := offs\<rparr>"
    and kept: "notify_position (?d\<lparr>consumer_offsets := offs\<rparr>) = notify_position ?d"
    and found: "\<And>m. r1 = Inr m \<Longrightarrow> nt_session n = BypassRls \<and> m = notify_position ?d \<and> map_of offs notify_consumer \<noteq> None"
    using pos
  proof (cases rule: notify_offset_outcome)
    case (failed e)
    with idle same show thesis by (intro that [of "consumer_offsets ?d"]) simp_all
  next
    case found
    with idle same show thesis by (intro that [of "consumer_offsets ?d"]) simp_all
  next
    case created
    from position_after_creation [OF created(4)] created idle show thesis
      by (intro that [of "consumer_offsets ?d @ [(notify_consumer, 0)]"]) simp_all
  qed
  have fine1: "(\<exists>m. r1 = Inr m) \<and> healthy w1" if ?fine
    using notify_offset_ok [of w n] that pos by (auto simp: nt_session_def)
  show ?thesis
  proof (cases r1)
    case (Inl e)
    with run pos have "res = Inl e" "w' = w1" by (auto simp: notify_tick_def bind_def)
    with w1 kept fine1 Inl show ?thesis by (intro exI [of _ "[]"] exI [of _ offs]) auto
  next
    case first: (Inr m)
    from found [OF first] have s: "nt_session n = BypassRls" and m: "m = notify_position ?d" and there: "map_of offs notify_consumer \<noteq> None" by auto
    obtain r2 w2 where q: "(exec_job (query (pending_events (nt_session n) m)) :: outbox_row list job) w1 = (r2, w2)" by fastforce
    from q show ?thesis
    proof (cases rule: exec_or_outcome)
      case (failed e)
      with run pos first q have "res = Inl PlainError" "w' = w2" by (auto simp: notify_tick_def bind_def)
      moreover have "\<not> ?fine" using fine1 failed(1) exec_query_ok [where k = "\<lambda>_. PlainError" and f = "pending_events (nt_session n) m" and w = w1] q by auto
      ultimately show ?thesis using failed w1 kept by (intro exI [of _ "[]"] exI [of _ offs]) auto
    next
      case (ok batch)
      then have batch: "batch = ?b" and w2: "w_db w2 = w_db w1" "w_snap w2 = None"
        using m w1 by (auto simp: due_events_def)
      have fine2: "healthy w2" if ?fine
        using fine1 [OF that] exec_query_ok [where k = "\<lambda>_. PlainError" and f = "pending_events (nt_session n) m" and w = w1] q by auto
      show ?thesis
      proof (cases "?b = []")
        case True
        with run pos first q ok(1) batch have "res = Inr ()" "w' = w2" by (auto simp: notify_tick_def bind_def ret_def)
        with True w1 w2 kept show ?thesis by (intro exI [of _ "[]"] exI [of _ offs]) (simp add: due_notices_def)
      next
        case False
        obtain r3 w3 where loop: "handle_batch n sur 0 batch w2 = (r3, w3)" by fastforce
        from handle_batch_outcome [OF loop w2(2)] w2 w1 batch obtain rs where r3: "r3 = Inr ()" and rs: "subseq rs (due_notices n sur ?d)"
          and w3: "w_db w3 = ?d\<lparr>consumer_offsets := offs, notification_records := notification_records ?d @ rs\<rparr>"
          by (auto simp: due_notices_def)
        have full: "healthy w3 \<and> rs = due_notices n sur ?d"
          if cond: ?cond
        proof -
          have "\<forall>p\<in>set batch. \<forall>env. ob_body p = Some env \<longrightarrow> map_of (tenants (w_db w2)) (env_tenant env) \<noteq> None"
            using cond w2 w1 by (auto simp: batch due_events_def pending_events_def table_simps dest!: in_set_takeD)
          moreover have "\<forall>y\<in>set (notification_records (w_db w2)). \<forall>i\<ge>0. nr_id y \<noteq> new_uuid sur i"
            using cond w2 w1 by auto
          ultimately obtain w4 where "handle_batch n sur 0 batch w2 = (Inr (), w4)" "healthy w4"
            "w_db w4 = (w_db w2)\<lparr>notification_records := notification_records (w_db w2) @ batch_notices n sur (w_db w2) 0 batch\<rparr>"
            using handle_batch_ok [OF fine2 w2(2) s, of sur batch 0] cond by blast
          with loop w3 w2 w1 batch have "healthy w3" "notification_records ?d @ rs = notification_records ?d @ due_notices n sur ?d"
            by (auto simp: due_notices_def dest: arg_cong [where f = notification_records])
          then show ?thesis by simp
        qed
        obtain r4 w4 where mv: "(exec_job (change (move_offset (nt_session n) (ob_id (last batch)))) :: unit job) w3 = (r4, w4)" by fastforce
        from run pos first q ok(1) loop r3 mv False batch have out: "res = r4" "w' = w4" by (auto simp: notify_tick_def bind_def andthen_def)
        from mv show ?thesis
        proof (cases rule: exec_or_outcome)
          case (failed e)
          have "\<not> healthy w3" using mv failed(1) exec_change_ok [where k = "\<lambda>_. PlainError" and w = w3 and f = "move_offset (nt_session n) (ob_id (last batch))"] by auto
          with full have "\<not> ?cond" by blast
          moreover have "w_db w' = ?d\<lparr>notification_records := notification_records ?d @ rs, consumer_offsets := offs\<rparr>" "res \<noteq> Inr ()"
            using failed out w3 by simp_all
          moreover from this(1) kept have "notify_position (w_db w') = notify_position ?d" by (simp add: notify_position_def)
          ultimately show ?thesis using rs by (intro exI [of _ rs] exI [of _ offs] conjI impI) (simp_all only: if_False simp_thms)
        next
          case (ok x)
          let ?offs = "map (\<lambda>(k, v). if k = notify_consumer then (k, ob_id (last batch)) else (k, v)) offs"
          from ok(2) have "w_db w4 = ?d\<lparr>notification_records := notification_records ?d @ rs, consumer_offsets := ?offs\<rparr>"
            by (simp add: w3 move_offset_def s)
          moreover have "notify_position (?d\<lparr>notification_records := notification_records ?d @ rs, consumer_offsets := ?offs\<rparr>) = ob_id (last batch)"
            using there by (auto simp: notify_position_def map_of_moved)
          ultimately show ?thesis using out ok(1) rs full False batch by (intro exI [of _ rs] exI [of _ ?offs]) auto
        qed
      qed
    qed
  qed
qed

section \<open>Nobody is told twice\<close>

text \<open>The events that have a record.\<close>

definition told :: "db \<Rightarrow> int list" where
  "told d = List.map_filter nr_related_event (notification_records d)"

definition told_once :: "db \<Rightarrow> bool" where
  "told_once d \<longleftrightarrow> distinct (told d) \<and> (\<forall>e\<in>set (told d). e \<le> notify_position d)"

lemma map_filter_append: "List.map_filter f (xs @ ys) = List.map_filter f xs @ List.map_filter f ys"
  by (simp add: List.map_filter_def)

lemma subseq_map_filter: "subseq xs ys \<Longrightarrow> subseq (List.map_filter f xs) (List.map_filter f ys)"
  unfolding List.map_filter_def by (intro subseq_map subseq_filter)

lemma told_batch: "subseq (List.map_filter nr_related_event (batch_notices n sur d k ps)) (map ob_id ps)"
proof (induction ps arbitrary: k)
  case (Cons p ps)
  let ?ns = "row_notice n sur d k p"
  have "subseq (List.map_filter nr_related_event ?ns) [ob_id p]"
    using length_row_notice [of n sur d k p] row_notice_fields [of _ n sur d k p]
    by (cases ?ns) (auto simp: List.map_filter_def)
  from list_emb_append_mono [OF this Cons.IH [of "Suc k"]] show ?case by (simp add: map_filter_append)
qed (simp add: List.map_filter_def)

lemma due_events_facts:
  assumes "distinct (map ob_id (outbox d))"
  shows "distinct (map ob_id (due_events n d))" and "\<forall>p\<in>set (due_events n d). notify_position d < ob_id p \<and> ob_id p \<le> ob_id (last (due_events n d))"
proof -
  let ?all = "sort_key ob_id (filter (\<lambda>r. ob_id r > notify_position d) (rows_seen ob_tenant (nt_session n) (outbox d)))"
  have due: "due_events n d = take 50 ?all" by (simp add: due_events_def pending_events_def)
  have "distinct (map ob_id (filter (\<lambda>r. ob_id r > notify_position d) (rows_seen ob_tenant (nt_session n) (outbox d))))"
    using assms unfolding rows_seen_def by (intro distinct_filter_map)
  then have "distinct (map ob_id ?all)" by (simp add: distinct_map inj_on_def)
  then show "distinct (map ob_id (due_events n d))" unfolding due take_map [symmetric] by (rule distinct_take)
  have "sorted (map ob_id (due_events n d))" unfolding due take_map [symmetric] by (intro sorted_wrt_take) simp
  then have "ob_id p \<le> ob_id (last (due_events n d))" if "p \<in> set (due_events n d)" for p
    using that by (cases "due_events n d" rule: rev_cases) (auto simp: sorted_append)
  then show "\<forall>p\<in>set (due_events n d). notify_position d < ob_id p \<and> ob_id p \<le> ob_id (last (due_events n d))"
    unfolding due by (auto dest!: in_set_takeD simp: table_simps)
qed

text \<open>
  A tick that ends without an error, whatever happened to its events, or anything the other services
  do, including messages sent by hand.
\<close>

inductive notify_step :: "notifier \<Rightarrow> db \<Rightarrow> db \<Rightarrow> bool" for n where
  tick: "notify_tick n sur w = (Inr (), w') \<Longrightarrow> w_snap w = None \<Longrightarrow> distinct (map ob_id (outbox (w_db w))) \<Longrightarrow>
     notify_step n (w_db w) (w_db w')"
| other: "told d' = told d \<Longrightarrow> consumer_offsets d' = consumer_offsets d \<Longrightarrow> notify_step n d d'"

lemma notify_step_told_once:
  assumes "notify_step n d d'" and "told_once d"
  shows "told_once d'"
  using assms(1)
proof (cases rule: notify_step.cases)
  case (tick sur w w')
  from notifications_follow_the_outbox [OF tick(3,4)] obtain rs offs where db: "d' = d\<lparr>notification_records := notification_records d @ rs, consumer_offsets := offs\<rparr>"
    and rs: "subseq rs (due_notices n sur d)"
    and pos: "notify_position d' = (if due_events n d \<noteq> [] then ob_id (last (due_events n d)) else notify_position d)"
    unfolding tick(1,2) [symmetric] by auto
  note facts = due_events_facts [OF tick(5) [folded tick(1)], of n]
  let ?new = "List.map_filter nr_related_event rs"
  have sub: "subseq ?new (map ob_id (due_events n d))"
    using subseq_map_filter [OF rs, of nr_related_event] told_batch [of n sur d 0 "due_events n d"] unfolding due_notices_def by (rule subseq_order.trans)
  have new: "distinct ?new" using facts(1) sub unfolding subseq_conv_nths by auto
  have set: "set ?new \<subseteq> ob_id ` set (due_events n d)" using sub unfolding subseq_conv_nths by (auto dest!: in_set_nthsD)
  have told: "told d' = told d @ ?new" unfolding told_def db by (simp add: map_filter_append)
  show ?thesis
  proof (cases "due_events n d = []")
    case True
    with set have "?new = []" by simp
    with assms(2) pos told True show ?thesis by (simp add: told_once_def)
  next
    case False
    have "notify_position d < ob_id (last (due_events n d))" using facts(2) last_in_set [OF False] by blast
    moreover from set facts(2) have "notify_position d < e \<and> e \<le> ob_id (last (due_events n d))" if "e \<in> set ?new" for e
      using that by blast
    moreover from assms(2) have "distinct (told d)" "\<And>e. e \<in> set (told d) \<Longrightarrow> e \<le> notify_position d" by (simp_all add: told_once_def)
    moreover from pos False have "notify_position d' = ob_id (last (due_events n d))" by simp
    ultimately show ?thesis using new unfolding told_once_def told by fastforce
  qed
next
  case other
  with assms(2) show ?thesis by (simp add: told_once_def notify_position_def)
qed


text \<open>The owner of a car is told of a fine and of its payment; a third event interests nobody.\<close>

definition demo_owner_row :: owner_row where
  "demo_owner_row = \<lparr>o_id = 4, o_tenant = ''no'', o_user_id = None, o_full_name = ''Ola'', o_national_id = None, o_email = None,
     o_phone = Some ''47'', o_created_at = 0\<rparr>"

definition demo_told_car :: vehicle_row where
  "demo_told_car = \<lparr>v_id = 8, v_tenant = ''no'', v_plate = ''AB10'', v_vin = None, v_make = None, v_model = None, v_year = None,
     v_color = None, v_category = None, v_emission_class = None, v_owner_id = Some 4, v_registration_expires_at = None,
     v_insurance_expires_at = None, v_inspection_expires_at = None, v_tax_paid_through = None, v_is_stolen = False,
     v_is_seized = False, v_is_wanted = False, v_updated_at = 0\<rparr>"

definition demo_note_event :: "int \<Rightarrow> string \<Rightarrow> payload \<Rightarrow> outbox_row" where
  "demo_note_event k ty data = \<lparr>ob_id = k, ob_tenant = ''no'', ob_body = Some \<lparr>env_id = 0, env_type = ty, env_version = 1, env_source = [],
     env_tenant = ''no'', env_occurred_at = 0, env_actor_id = None, env_actor_role = [], env_trace_id = [], env_request_id = [],
     env_data = data\<rparr>, ob_delivered_at = None, ob_attempts = 0, ob_created_at = 0\<rparr>"

definition demo_note_world :: dbworld where
  "demo_note_world = world_of (empty_db\<lparr>tenants := [(''no'', [])], owners := [demo_owner_row], vehicles := [demo_told_car],
     outbox := [demo_note_event 1 TypeVehicleTransferred (VehicleTransferred \<lparr>vtp_vehicle_id = 8, vtp_plate = ''AB10'', vtp_from_owner = 3, vtp_to_owner = 4\<rparr>),
       demo_note_event 2 TypeAnprScan OtherData,
       demo_note_event 3 TypeFinePaid (FinePaid \<lparr>fpp_fine_id = 77, fpp_amount = 5000, fpp_currency = ''NOK'', fpp_method = ''card'', fpp_provider_ref = []\<rparr>)]\<rparr>)"

definition demo_notifier :: notifier where
  "demo_notifier = \<lparr>nt_pool = BypassesRls, nt_sender = notify_DevStub ''r1'', nt_rfc3339 = (\<lambda>_. [])\<rparr>"

definition demo_note_now :: surroundings where
  "demo_note_now = \<lparr>go_now = 0, db_now = 0, new_uuid = (\<lambda>k. k)\<rparr>"

definition demo_noted :: "(goerr + unit) \<times> dbworld" where
  "demo_noted = notify_tick demo_notifier demo_note_now demo_note_world"

lemma demo_noted_facts:
  "fst demo_noted = Inr ()" "told (w_db (snd demo_noted)) = [1, 3]"
  "map (\<lambda>r. (nr_recipient r, nr_status r)) (notification_records (w_db (snd demo_noted))) = [(''47'', NSent), ([], NSuppressed)]"
  "w_snap demo_note_world = None" "distinct (map ob_id (outbox (w_db demo_note_world)))" "told_once (w_db demo_note_world)"
  "notify_position (w_db (snd demo_noted)) = 3"
  by code_simp+

lemma demo_noted_run: "notify_tick demo_notifier demo_note_now demo_note_world = (Inr (), snd demo_noted)"
  using demo_noted_facts(1) by (simp add: demo_noted_def prod_eq_iff)

theorem notifications_follow_the_outbox_witness:
  "notification_records (w_db (snd demo_noted)) = due_notices demo_notifier demo_note_now (w_db demo_note_world)
    \<and> map nr_recipient (due_notices demo_notifier demo_note_now (w_db demo_note_world)) = [''47'', []]"
proof -
  have "healthy demo_note_world \<and> nt_pool demo_notifier = BypassesRls \<and> inj (new_uuid demo_note_now)
    \<and> (\<forall>p\<in>set (outbox (w_db demo_note_world)). \<forall>env. ob_body p = Some env \<longrightarrow> map_of (tenants (w_db demo_note_world)) (env_tenant env) \<noteq> None)
    \<and> (\<forall>y\<in>set (notification_records (w_db demo_note_world)). nr_id y \<notin> range (new_uuid demo_note_now))"
    by (simp add: demo_note_world_def demo_notifier_def demo_note_now_def demo_note_event_def world_of_def empty_db_def healthy_def inj_on_def)
  moreover have "notification_records (w_db demo_note_world) = []" by (simp add: demo_note_world_def world_of_def empty_db_def)
  ultimately obtain offs where db: "w_db (snd demo_noted) = (w_db demo_note_world)
     \<lparr>notification_records := due_notices demo_notifier demo_note_now (w_db demo_note_world), consumer_offsets := offs\<rparr>"
    using notifications_follow_the_outbox [OF demo_noted_run demo_noted_facts(4)] by auto
  have "notification_records (w_db (snd demo_noted)) = due_notices demo_notifier demo_note_now (w_db demo_note_world)"
    unfolding db by simp
  moreover from arg_cong [OF demo_noted_facts(3), of "map fst"] have "map nr_recipient (notification_records (w_db (snd demo_noted))) = [''47'', []]"
    by (simp add: o_def)
  ultimately show ?thesis by simp
qed


section \<open>What the code does not do\<close>

text \<open>
  The offset moves in a statement of its own, after the transactions of the events: where it fails, or
  the process ends before it, the messages go out again with the next tick.
\<close>

lemma lost_offset_tells_again:
  "told (w_db (snd (notify_tick demo_notifier (demo_note_now\<lparr>new_uuid := (\<lambda>k. 50 + k)\<rparr>)
     (snd (notify_tick demo_notifier demo_note_now (demo_note_world\<lparr>w_faults := replicate 14 False @ [True]\<rparr>)))))) = [1, 3, 1, 3]"
  by code_simp

text \<open>Where the record is rolled back after the message was taken, the message is out with no trace of it.\<close>

lemma sent_without_record:
  "(let w = snd (notify_tick demo_notifier demo_note_now (demo_note_world\<lparr>w_faults := replicate 7 False @ [True]\<rparr>))
    in (MessageSent ''no'' ''sms'' ''47'' (Some ''vehicle.transferred.v1'') \<in> set (w_log w), told (w_db w), notify_position (w_db w))) = (True, [3], 3)"
  by code_simp

text \<open>A consumer whose pool is subject to the policies cannot keep an offset and does nothing.\<close>

lemma consumer_without_bypass:
  assumes "nt_pool n = SubjectToRls"
  shows "w_db (snd (notify_tick n sur w)) = w_db w"
proof -
  obtain res w' where run: "notify_offset n w = (res, w')" by fastforce
  have "nt_session n \<noteq> BypassRls" using assms by (simp add: nt_session_def)
  with run obtain e where "res = Inl e" "w_db w' = w_db w" by (cases rule: notify_offset_outcome) auto
  with run show ?thesis by (simp add: notify_tick_def bind_def)
qed

end
