(* ===== verification/NotifyApi.thy ===== *)
theory NotifyApi
  imports Notifications
begin

text \<open>
  The endpoints of the notifications service (\<open>services/notifications/internal/api/api.go\<close>): a message
  sent by hand, the history of a tenant, and the inbox of a citizen.
\<close>

section \<open>The endpoints\<close>

record notify_req =
  nq_channel :: string
  nq_to :: string
  nq_subject :: string
  nq_body :: string

record inbox_item =
  ib_id :: uuid
  ib_channel :: string
  ib_recipient :: string
  ib_subject :: string
  ib_template :: "string option"
  ib_status :: notification_status
  ib_body :: string
  ib_created_at :: time
  ib_sent_at :: "time option"

record history_item =
  hi_id :: uuid
  hi_channel :: string
  hi_recipient :: string
  hi_subject :: string
  hi_template :: "string option"
  hi_status :: notification_status
  hi_provider :: string
  hi_provider_ref :: string
  hi_created_at :: time
  hi_sent_at :: "time option"

datatype notify_body = MessageAccepted uuid string string | Inbox "inbox_item list" | History "history_item list"

type_synonym notify_handler = "(notify_body, notify_body response) handler"

definition null_str :: "string \<Rightarrow> string option" where
  "null_str s = (if s = [] then None else Some s)"

definition or_empty :: "string option \<Rightarrow> string" where
  "or_empty x = (case x of None \<Rightarrow> [] | Some s \<Rightarrow> s)"

text \<open>The statements run one by one, outside a transaction; the errors of the last two are dropped.\<close>

definition notify :: "notifier \<Rightarrow> surroundings \<Rightarrow> claims \<Rightarrow> notify_req option \<Rightarrow> notify_handler" where
  "notify n sur c body =
     bind (read_json body) (\<lambda>q.
     andthen (guard (\<not> (nq_channel q = [] \<or> nq_to q = [] \<or> nq_body q = [])) (Err 400 ''missing'')) (
     andthen (WithTenant (Some c)) (
     let s = session_of (nt_pool n) (c_tenant c) in
     bind (exec (insert_notification s (new_notification sur (new_uuid sur 0) (c_tenant c) None (nq_channel q) (nq_to q)
       (null_str (nq_subject q)) (nq_body q) None NPending))) (\<lambda>nid.
     bind (Send (nt_sender n) \<lparr>ms_tenant = c_tenant c, ms_channel = nq_channel q, ms_to = nq_to q, ms_subject = nq_subject q,
       ms_body = nq_body q, ms_template = []\<rparr>) (\<lambda>res.
     case res of
       Inl e \<Rightarrow>
         bind (exec_try (change (update_notification s nid (mark_send_failed e)))) (\<lambda>_.
         stop (Err 502 ''send_failed''))
     | Inr receipt \<Rightarrow>
         bind (exec_try (change (update_notification s nid (mark_sent sur (sn_provider (nt_sender n)) receipt)))) (\<lambda>_.
         ret (Json 202 (MessageAccepted nid (sn_provider (nt_sender n)) receipt))))))))"

text \<open>The addresses of the caller; where the lookup fails there are none.\<close>

definition own_addresses :: "session \<Rightarrow> uuid \<Rightarrow> db \<Rightarrow> (string \<times> string) option" where
  "own_addresses s me d =
     map_option (\<lambda>u. (u_email u, coalesce (Option.bind (row_seen o_tenant s (\<lambda>o'. o_user_id o' = Some (u_id u)) (owners d)) o_phone) (u_phone u)))
       (row_seen u_tenant s (\<lambda>u. u_id u = me) (users d))"

definition addressed_to :: "string \<Rightarrow> string \<Rightarrow> notification_row \<Rightarrow> bool" where
  "addressed_to email phone r \<longleftrightarrow> nr_status r = NSent
     \<and> ((email \<noteq> [] \<and> nr_recipient r = email) \<or> (phone \<noteq> [] \<and> nr_recipient r = phone))"

definition inbox_item_of :: "notification_row \<Rightarrow> inbox_item" where
  "inbox_item_of r =
     \<lparr>ib_id = nr_id r, ib_channel = nr_channel r, ib_recipient = nr_recipient r, ib_subject = or_empty (nr_subject r),
      ib_template = nr_template r, ib_status = nr_status r, ib_body = nr_body r, ib_created_at = nr_created_at r, ib_sent_at = nr_sent_at r\<rparr>"

definition inbox_rows :: "session \<Rightarrow> string \<times> string \<Rightarrow> db \<Rightarrow> notification_row list" where
  "inbox_rows s addr d =
     take 100 (sort_key (\<lambda>r. - nr_created_at r) (filter (addressed_to (fst addr) (snd addr)) (rows_seen nr_tenant s (notification_records d))))"

definition myInbox :: "notifier \<Rightarrow> claims \<Rightarrow> notify_handler" where
  "myInbox n c =
     (let s = session_of (nt_pool n) (c_tenant c) in
      andthen (WithTenant (Some c)) (
      bind (exec_try (subject_param c (\<lambda>me. query_row (own_addresses s me)))) (\<lambda>res.
      bind (exec (query (inbox_rows s (case res of Inl _ \<Rightarrow> ([], []) | Inr addr \<Rightarrow> addr)))) (\<lambda>rows.
      ret (Json 200 (Inbox (map inbox_item_of rows)))))))"

definition history_item_of :: "notification_row \<Rightarrow> history_item" where
  "history_item_of r =
     \<lparr>hi_id = nr_id r, hi_channel = nr_channel r, hi_recipient = nr_recipient r, hi_subject = or_empty (nr_subject r),
      hi_template = nr_template r, hi_status = nr_status r, hi_provider = or_empty (nr_provider r),
      hi_provider_ref = or_empty (nr_provider_ref r), hi_created_at = nr_created_at r, hi_sent_at = nr_sent_at r\<rparr>"

definition list_notifications :: "notifier \<Rightarrow> claims \<Rightarrow> notify_handler" where
  "list_notifications n c =
     andthen (WithTenant (Some c)) (
     bind (exec (query (\<lambda>d. map history_item_of (take 200 (sort_key (\<lambda>r. - nr_created_at r)
       (rows_seen nr_tenant (session_of (nt_pool n) (c_tenant c)) (notification_records d))))))) (\<lambda>items.
     ret (Json 200 (History items))))"

datatype notify_route = PostNotify "notify_req option" | GetNotify | GetMyInbox

definition notify_mux :: "jwt_parser \<Rightarrow> issuer \<Rightarrow> notifier \<Rightarrow> surroundings \<Rightarrow> headers \<Rightarrow> notify_route \<Rightarrow> notify_handler" where
  "notify_mux jwt i n sur h route =
     Middleware jwt i h (\<lambda>c.
       case route of
         PostNotify body \<Rightarrow> notify n sur c body
       | GetNotify \<Rightarrow> list_notifications n c
       | GetMyInbox \<Rightarrow> myInbox n c)"

section \<open>The inbox is the caller's\<close>

lemma inbox_rows_set:
  "r \<in> set (inbox_rows s addr d) \<Longrightarrow> r \<in> set (notification_records d) \<and> sees s (nr_tenant r) \<and> addressed_to (fst addr) (snd addr) r"
  unfolding inbox_rows_def by (auto simp: table_simps dest!: in_set_takeD)

lemma myInbox_run:
  assumes "myInbox n c w = (Inr r, w')"
  obtains addr where "r = Json 200 (Inbox (map inbox_item_of (inbox_rows (session_of (nt_pool n) (c_tenant c)) addr (w_db w))))" "w_db w' = w_db w"
    "addr = ([], []) \<or> (\<exists>me. c_subject c = Some me \<and> own_addresses (session_of (nt_pool n) (c_tenant c)) me (w_db w) = Some addr)"
    "healthy w \<Longrightarrow> addr = (case c_subject c of None \<Rightarrow> ([], []) | Some me \<Rightarrow>
       (case own_addresses (session_of (nt_pool n) (c_tenant c)) me (w_db w) of None \<Rightarrow> ([], []) | Some a \<Rightarrow> a))"
proof -
  let ?s = "session_of (nt_pool n) (c_tenant c)" and ?f = "subject_param c (\<lambda>me. query_row (own_addresses (session_of (nt_pool n) (c_tenant c)) me))"
  from assms obtain w1 res w2 rows where
    ten: "(WithTenant (Some c) :: (db, effect, notify_body response, unit) act) w = (Inr (), w1)" and
    look: "(exec_try ?f :: (db, effect, notify_body response, sqlerr + string \<times> string) act) w1 = (Inr res, w2)" and
    read: "(exec (query (inbox_rows ?s (case res of Inl _ \<Rightarrow> ([], []) | Inr addr \<Rightarrow> addr))) :: (db, effect, notify_body response, _) act) w2 = (Inr rows, w')" and
    r: "r = Json 200 (Inbox (map inbox_item_of rows))"
    unfolding myInbox_def Let_def by (elim bindE andthenE) (rule that; simp)
  from keepsD [OF rd_WithTenant ten] have w1: "w_db w1 = w_db w" by (simp add: same_db_def)
  have "reads ?f" by (intro frame_intros)
  from keepsD [OF rd_exec_try [OF this] look] w1 have w2: "w_db w2 = w_db w" by (simp add: same_db_def)
  from exec_query_db [OF read] w2 have rows: "rows = inbox_rows ?s (case res of Inl _ \<Rightarrow> ([], []) | Inr addr \<Rightarrow> addr) (w_db w)" "w_db w' = w_db w" by simp_all
  have res: "(\<exists>e. res = Inl e) \<or> (\<exists>me a. c_subject c = Some me \<and> own_addresses ?s me (w_db w) = Some a \<and> res = Inr a)"
    using look by (cases rule: exec_try_cases) (auto simp: subject_param_Inr w1)
  have fine: "res = (case c_subject c of None \<Rightarrow> Inl SqlFault | Some me \<Rightarrow> (case own_addresses ?s me (w_db w) of None \<Rightarrow> Inl NoRows | Some a \<Rightarrow> Inr a))"
    if "healthy w"
  proof -
    from that ten have "healthy w1" by (auto simp: healthy_def WithTenant_def exec_or_def exec_try_def bind_def ret_def Let_def query_def split: if_splits)
    with look w1 show ?thesis
      by (auto simp: exec_try_def healthy_def Let_def subject_param_def query_row_def split: option.splits)
  qed
  show thesis
    by (rule that [of "case res of Inl _ \<Rightarrow> ([], []) | Inr addr \<Rightarrow> addr"])
      (use r rows res fine in \<open>auto split: option.splits\<close>)
qed

text \<open>What an inbox shows was sent to an address of its owner: the account's, or the phone of the person registered to it.\<close>

definition own_note :: "claims \<Rightarrow> db \<Rightarrow> notification_row \<Rightarrow> bool" where
  "own_note c d r \<longleftrightarrow> r \<in> set (notification_records d) \<and> nr_tenant r = c_tenant c \<and> nr_status r = NSent
     \<and> (\<exists>u\<in>set (users d). c_subject c = Some (u_id u) \<and> u_tenant u = c_tenant c
          \<and> (nr_recipient r = u_email u \<or> u_phone u = Some (nr_recipient r)
             \<or> (\<exists>o'\<in>set (owners d). o_tenant o' = c_tenant c \<and> o_user_id o' = Some (u_id u) \<and> o_phone o' = Some (nr_recipient r))))"

lemma own_phone:
  assumes "p = coalesce (Option.bind (row_seen o_tenant (TenantSession ten) (\<lambda>o'. o_user_id o' = Some i) rows) o_phone) ph" and "p \<noteq> []"
  shows "ph = Some p \<or> (\<exists>o'\<in>set rows. o_tenant o' = ten \<and> o_user_id o' = Some i \<and> o_phone o' = Some p)"
proof (cases "Option.bind (row_seen o_tenant (TenantSession ten) (\<lambda>o'. o_user_id o' = Some i) rows) o_phone")
  case None
  with assms show ?thesis by (auto simp: coalesce_def split: option.splits)
next
  case (Some q)
  with assms have "q = p" by (simp add: coalesce_def)
  with Some obtain y where "row_seen o_tenant (TenantSession ten) (\<lambda>o'. o_user_id o' = Some i) rows = Some y" "o_phone y = Some p"
    by (auto simp: Option.bind_eq_Some_conv)
  with row_seen_SomeD show ?thesis by fastforce
qed

lemma inbox_row_own:
  assumes "r \<in> set (inbox_rows (TenantSession (c_tenant c)) addr d)"
    and "addr = ([], []) \<or> (\<exists>me. c_subject c = Some me \<and> own_addresses (TenantSession (c_tenant c)) me d = Some addr)"
  shows "own_note c d r"
proof -
  from inbox_rows_set [OF assms(1)] have seen: "r \<in> set (notification_records d)" "nr_tenant r = c_tenant c" "addressed_to (fst addr) (snd addr) r"
    by simp_all
  then have "addr \<noteq> ([], [])" by (auto simp: addressed_to_def)
  with assms(2) obtain me where me: "c_subject c = Some me" "own_addresses (TenantSession (c_tenant c)) me d = Some addr" by blast
  from me(2) obtain u where u: "row_seen u_tenant (TenantSession (c_tenant c)) (\<lambda>u. u_id u = me) (users d) = Some u"
    and a: "fst addr = u_email u"
      "snd addr = coalesce (Option.bind (row_seen o_tenant (TenantSession (c_tenant c)) (\<lambda>o'. o_user_id o' = Some (u_id u)) (owners d)) o_phone) (u_phone u)"
    by (auto simp: own_addresses_def)
  from row_seen_SomeD [OF u] have own: "u \<in> set (users d)" "u_tenant u = c_tenant c" "u_id u = me" by simp_all
  from seen(3) have sent: "nr_status r = NSent" and to: "nr_recipient r = fst addr \<or> (nr_recipient r = snd addr \<and> nr_recipient r \<noteq> [])"
    by (auto simp: addressed_to_def)
  from to own_phone [OF a(2)] a(1) have "nr_recipient r = u_email u \<or> u_phone u = Some (nr_recipient r)
       \<or> (\<exists>o'\<in>set (owners d). o_tenant o' = c_tenant c \<and> o_user_id o' = Some (u_id u) \<and> o_phone o' = Some (nr_recipient r))" by metis
  with own me(1) seen(1,2) sent show ?thesis unfolding own_note_def by (intro conjI bexI [of _ u]) simp_all
qed

lemma inbox_rows_all:
  assumes "ten \<noteq> []" and "length (filter (\<lambda>r. nr_tenant r = ten \<and> addressed_to (fst addr) (snd addr) r) (notification_records d)) \<le> 100"
  shows "r \<in> set (inbox_rows (TenantSession ten) addr d)
    \<longleftrightarrow> r \<in> set (notification_records d) \<and> nr_tenant r = ten \<and> addressed_to (fst addr) (snd addr) r"
proof -
  let ?all = "filter (addressed_to (fst addr) (snd addr)) (rows_seen nr_tenant (TenantSession ten) (notification_records d))"
  have "?all = filter (\<lambda>r. nr_tenant r = ten \<and> addressed_to (fst addr) (snd addr) r) (notification_records d)"
    using assms(1) by (auto simp: rows_seen_def intro!: filter_cong)
  with assms have "length ?all \<le> 100" by simp
  with assms(1) show ?thesis unfolding inbox_rows_def by (auto simp: table_simps)
qed

text \<open>C37
  The inbox is the caller's own. With a pool subject to the policies, whatever fails, it shows only
  messages of the caller's tenant that were sent to the e-mail address or the phone of the account
  behind the token, at most a hundred, the newest first, and reading changes nothing. Without faults,
  where the account exists, it shows every such message unless there are more than a hundred.
\<close>

theorem inbox_is_own:
  assumes "finish (myInbox n c) w = (Json 200 (Inbox items), w')" and "nt_pool n = SubjectToRls"
  shows "\<exists>rows. items = map inbox_item_of rows \<and> length rows \<le> 100 \<and> sorted (map (\<lambda>r. - nr_created_at r) rows) \<and> w_db w' = w_db w
    \<and> (\<forall>r\<in>set rows. r \<in> set (notification_records (w_db w)) \<and> nr_tenant r = c_tenant c \<and> nr_status r = NSent
         \<and> (\<exists>u\<in>set (users (w_db w)). c_subject c = Some (u_id u) \<and> u_tenant u = c_tenant c
              \<and> (nr_recipient r = u_email u \<or> u_phone u = Some (nr_recipient r)
                 \<or> (\<exists>o'\<in>set (owners (w_db w)). o_tenant o' = c_tenant c \<and> o_user_id o' = Some (u_id u) \<and> o_phone o' = Some (nr_recipient r)))))
    \<and> (healthy w \<longrightarrow> (\<forall>me addr r. c_subject c = Some me \<and> own_addresses (TenantSession (c_tenant c)) me (w_db w) = Some addr
         \<and> r \<in> set (notification_records (w_db w)) \<and> nr_tenant r = c_tenant c \<and> c_tenant c \<noteq> [] \<and> addressed_to (fst addr) (snd addr) r
         \<and> length (filter (\<lambda>r. nr_tenant r = c_tenant c \<and> addressed_to (fst addr) (snd addr) r) (notification_records (w_db w))) \<le> 100
         \<longrightarrow> r \<in> set rows))"
proof -
  let ?s = "TenantSession (c_tenant c)"
  have "stops_with refusal (myInbox n c)" unfolding myInbox_def Let_def by (intro sw_steps sw_WithTenant) simp_all
  from finish_accepted [OF assms(1) this] have run: "myInbox n c w = (Inr (Json 200 (Inbox items)), w')" by simp
  have s: "session_of (nt_pool n) (c_tenant c) = ?s" using assms(2) by simp
  obtain addr where items: "items = map inbox_item_of (inbox_rows ?s addr (w_db w))" and db: "w_db w' = w_db w"
    and addr: "addr = ([], []) \<or> (\<exists>me. c_subject c = Some me \<and> own_addresses ?s me (w_db w) = Some addr)"
    and fine: "healthy w \<Longrightarrow> addr = (case c_subject c of None \<Rightarrow> ([], []) | Some me \<Rightarrow>
       (case own_addresses ?s me (w_db w) of None \<Rightarrow> ([], []) | Some a \<Rightarrow> a))"
    by (rule myInbox_run [OF run, unfolded s]) (rule that; simp)
  let ?rows = "inbox_rows ?s addr (w_db w)"
  have newest: "sorted (map (\<lambda>r. - nr_created_at r) ?rows)"
    unfolding inbox_rows_def take_map [symmetric] by (intro sorted_wrt_take) simp
  have complete: "r \<in> set ?rows"
    if "healthy w" "c_subject c = Some me" "own_addresses ?s me (w_db w) = Some addr'" "r \<in> set (notification_records (w_db w))"
      "nr_tenant r = c_tenant c" "c_tenant c \<noteq> []" "addressed_to (fst addr') (snd addr') r"
      "length (filter (\<lambda>r. nr_tenant r = c_tenant c \<and> addressed_to (fst addr') (snd addr') r) (notification_records (w_db w))) \<le> 100" for me addr' r
    using fine [OF that(1)] that inbox_rows_all [of "c_tenant c" addr "w_db w" r] by simp
  show ?thesis
  proof (rule exI [of _ ?rows], intro conjI)
    show "items = map inbox_item_of ?rows" by (rule items)
    show "length ?rows \<le> 100" by (simp add: inbox_rows_def)
    show "sorted (map (\<lambda>r. - nr_created_at r) ?rows)" by (rule newest)
    show "w_db w' = w_db w" by (rule db)
  qed (intro ballI, rule inbox_row_own [OF _ addr, unfolded own_note_def], assumption, intro impI allI, elim conjE, rule complete, assumption+)
qed

definition demo_citizen :: user_row where
  "demo_citizen = \<lparr>u_id = 9, u_tenant = ''no'', u_email = ''o@no'', u_phone = None, u_password_hash = [], u_full_name = ''Ola'', u_is_active = True\<rparr>"

definition demo_note :: "uuid \<Rightarrow> string \<Rightarrow> string \<Rightarrow> notification_row" where
  "demo_note k ten to' = \<lparr>nr_id = k, nr_tenant = ten, nr_related_event = None, nr_channel = ''sms'', nr_recipient = to', nr_subject = None, nr_body = ''x'',
     nr_template = None, nr_status = NSent, nr_provider = None, nr_provider_ref = None, nr_attempts = 1, nr_failed_with = None,
     nr_created_at = int k, nr_sent_at = None\<rparr>"

definition demo_inbox_world :: dbworld where
  "demo_inbox_world = world_of (empty_db\<lparr>tenants := [(''no'', []), (''se'', [])], users := [demo_citizen],
     owners := [demo_owner_row\<lparr>o_user_id := Some 9\<rparr>],
     notification_records := [demo_note 1 ''no'' ''47'', demo_note 2 ''se'' ''47'', demo_note 3 ''no'' ''o@no'', demo_note 4 ''no'' ''48'']\<rparr>)"

definition demo_reader :: claims where
  "demo_reader = \<lparr>c_tenant = ''no'', c_role = ''citizen'', c_permissions = [], c_device = [], c_subject = Some 9,
     c_issued_at = 0, c_expires_at = 0, c_jti = None\<rparr>"

definition demo_inbox :: "dbrole \<Rightarrow> nat list" where
  "demo_inbox role = (case fst (finish (myInbox (demo_notifier\<lparr>nt_pool := role\<rparr>) demo_reader) demo_inbox_world) of
     Json _ (Inbox items) \<Rightarrow> map ib_id items | _ \<Rightarrow> [])"

theorem inbox_is_own_witness:
  "\<exists>items. fst (finish (myInbox (demo_notifier\<lparr>nt_pool := SubjectToRls\<rparr>) demo_reader) demo_inbox_world) = Json 200 (Inbox items)
     \<and> map ib_id items = [3, 1] \<and> inbox_item_of (demo_note 1 ''no'' ''47'') \<in> set items"
proof -
  let ?n = "demo_notifier\<lparr>nt_pool := SubjectToRls\<rparr>"
  have ids: "demo_inbox SubjectToRls = [3, 1]" by code_simp
  then obtain k items where resp: "fst (finish (myInbox ?n demo_reader) demo_inbox_world) = Json k (Inbox items)" "map ib_id items = [3, 1]"
    by (auto simp: demo_inbox_def split: response.splits notify_body.splits)
  have "(case fst (finish (myInbox ?n demo_reader) demo_inbox_world) of Json k _ \<Rightarrow> k = 200 | _ \<Rightarrow> False)" by code_simp
  with resp have k: "k = 200" by simp
  have run: "finish (myInbox ?n demo_reader) demo_inbox_world = (Json 200 (Inbox items), snd (finish (myInbox ?n demo_reader) demo_inbox_world))"
    using resp(1) k by (simp add: prod_eq_iff)
  have w: "healthy demo_inbox_world" "c_subject demo_reader = Some 9" "own_addresses (TenantSession (c_tenant demo_reader)) 9 (w_db demo_inbox_world) = Some (''o@no'', ''47'')"
    "c_tenant demo_reader \<noteq> []" "nr_tenant (demo_note 1 ''no'' ''47'') = c_tenant demo_reader" "addressed_to ''o@no'' ''47'' (demo_note 1 ''no'' ''47'')"
    "length (filter (\<lambda>r. nr_tenant r = c_tenant demo_reader \<and> addressed_to ''o@no'' ''47'' r) (notification_records (w_db demo_inbox_world))) \<le> 100"
    by code_simp+
  have mem: "demo_note 1 ''no'' ''47'' \<in> set (notification_records (w_db demo_inbox_world))"
    by (simp add: demo_inbox_world_def world_of_def empty_db_def)
  have "nt_pool ?n = SubjectToRls" by simp
  from inbox_is_own [OF run this] obtain rows where items: "items = map inbox_item_of rows"
    and "\<And>me addr r. c_subject demo_reader = Some me \<Longrightarrow> own_addresses (TenantSession (c_tenant demo_reader)) me (w_db demo_inbox_world) = Some addr
      \<Longrightarrow> r \<in> set (notification_records (w_db demo_inbox_world)) \<Longrightarrow> nr_tenant r = c_tenant demo_reader \<Longrightarrow> addressed_to (fst addr) (snd addr) r
      \<Longrightarrow> length (filter (\<lambda>r. nr_tenant r = c_tenant demo_reader \<and> addressed_to (fst addr) (snd addr) r) (notification_records (w_db demo_inbox_world))) \<le> 100
      \<Longrightarrow> r \<in> set rows"
    using w(1,4) by blast
  from this(2) [OF w(2,3) mem w(5)] w(6,7) have "demo_note 1 ''no'' ''47'' \<in> set rows" by simp
  with items resp k show ?thesis by auto
qed

section \<open>What the code does not do\<close>

text \<open>
  The service has one pool. Where it bypasses the policies, as the consumer needs, the endpoints, which
  leave the tenant to the policies, show the messages of other tenants.
\<close>

lemma inbox_across_tenants: "demo_inbox BypassesRls = [3, 2, 1]"
  by code_simp

text \<open>Any account may send: no permission stands between a token and a message to any address.\<close>

lemma anyone_sends:
  "fst (finish (notify demo_notifier demo_note_now demo_reader (Some \<lparr>nq_channel = ''sms'', nq_to = ''1'', nq_subject = [], nq_body = ''hi''\<rparr>))
     (world_of (empty_db\<lparr>tenants := [(''no'', [])]\<rparr>))) = Json 202 (MessageAccepted 0 ''dev-stub'' ''r1'')"
  by code_simp

end
