(* ===== verification/Packs.thy ===== *)
theory Packs
  imports Schema
begin

text \<open>
  Country regulation packs (\<open>packages/go-common/regulation/pack.go\<close>, \<open>loader.go\<close>): what a pack must
  look like to be accepted, and the cache that holds the active pack of every tenant.

  \<open>pl_decode\<close> is \<open>json.Unmarshal\<close> up to the one field with a format of its own: the manifest's object
  with its fields, \<open>None\<close> where the text is not JSON of that shape. \<open>pl_time\<close> is how \<open>time.Time\<close> reads
  a text (RFC 3339, so a date alone is refused), \<open>pl_compiles\<close> whether a regular expression compiles.
  Every error of \<open>Validate\<close> is a constructor; a Go \<open>int\<close> is only compared here and stays an integer.
\<close>

section \<open>Packs\<close>

record offence =
  of_code :: string
  of_name :: "(string \<times> string) list"
  of_description :: "(string \<times> string) list"
  of_base_amount :: string
  of_currency :: string
  of_points :: int
  of_duplicate_window_min :: int
  of_rule_expr :: string

record stage =
  sg_stage :: int
  sg_after_days :: int
  sg_multiplier :: float64
  sg_action :: string

record license_class =
  lc_code :: string
  lc_name :: "(string \<times> string) list"
  lc_min_age :: int
  lc_max_weight_kg :: int

record vehicle_category =
  vg_code :: string
  vg_inspection_months :: int

record pack =
  pk_id :: string
  pk_country_code :: string
  pk_version :: string
  pk_effective_from :: "time option"
  pk_locales :: "string list"
  pk_currency :: string
  pk_plate_regex :: string
  pk_offences :: "offence list"
  pk_escalation :: "stage list"
  pk_license_classes :: "license_class list"
  pk_vehicle_categories :: "vehicle_category list"

datatype pack_error =
    BadManifest | HeadMissing | PlateRegexMissing | PlateRegexInvalid | CurrencyMissing | NoOffences
  | OffenceCodeMissing | DuplicateOffence string | BaseAmountMissing string | NegativeWindow string
  | StageOutOfRange int | DuplicateStage int

section \<open>Validation\<close>

text \<open>\<open>codes\<close> and \<open>stages\<close> are the maps of what was seen so far.\<close>

fun check_offences :: "(string \<Rightarrow> bool) \<Rightarrow> offence list \<Rightarrow> pack_error option" where
  "check_offences codes [] = None"
| "check_offences codes (o' # os) =
     (if of_code o' = [] then Some OffenceCodeMissing
      else if codes (of_code o') then Some (DuplicateOffence (of_code o'))
      else if of_base_amount o' = [] then Some (BaseAmountMissing (of_code o'))
      else if of_duplicate_window_min o' < 0 then Some (NegativeWindow (of_code o'))
      else check_offences (codes(of_code o' := True)) os)"

fun check_stages :: "(int \<Rightarrow> bool) \<Rightarrow> stage list \<Rightarrow> pack_error option" where
  "check_stages stages [] = None"
| "check_stages stages (s # ss) =
     (if sg_stage s < 1 \<or> sg_stage s > 5 then Some (StageOutOfRange (sg_stage s))
      else if stages (sg_stage s) then Some (DuplicateStage (sg_stage s))
      else check_stages (stages(sg_stage s := True)) ss)"

definition Validate :: "(string \<Rightarrow> bool) \<Rightarrow> pack \<Rightarrow> pack_error option" where
  "Validate compiles p =
     (if pk_id p = [] \<or> pk_country_code p = [] \<or> pk_version p = [] then Some HeadMissing
      else if pk_plate_regex p = [] then Some PlateRegexMissing
      else if \<not> compiles (pk_plate_regex p) then Some PlateRegexInvalid
      else if pk_currency p = [] then Some CurrencyMissing
      else if pk_offences p = [] then Some NoOffences
      else case check_offences (\<lambda>_. False) (pk_offences p) of
             Some e \<Rightarrow> Some e
           | None \<Rightarrow> check_stages (\<lambda>_. False) (pk_escalation p))"

text \<open>
  The manifest's fields with \<open>effective_from\<close> still a text; \<open>None\<close> is an absent field, which leaves
  the zero time.
\<close>

record manifest =
  mf_effective_from :: "string option"
  mf_rest :: pack

record pack_lib =
  pl_decode :: "string \<Rightarrow> manifest option"
  pl_time :: "string \<Rightarrow> time option"
  pl_compiles :: "string \<Rightarrow> bool"

definition unmarshal :: "pack_lib \<Rightarrow> string \<Rightarrow> pack option" where
  "unmarshal lib b =
     (case pl_decode lib b of
        None \<Rightarrow> None
      | Some m \<Rightarrow>
          (case mf_effective_from m of
             None \<Rightarrow> Some ((mf_rest m)\<lparr>pk_effective_from := None\<rparr>)
           | Some s \<Rightarrow> (case pl_time lib s of
                 None \<Rightarrow> None
               | Some t \<Rightarrow> Some ((mf_rest m)\<lparr>pk_effective_from := Some t\<rparr>))))"

definition ParseManifest :: "pack_lib \<Rightarrow> string \<Rightarrow> pack_error + pack" where
  "ParseManifest lib b =
     (case unmarshal lib b of
        None \<Rightarrow> Inl BadManifest
      | Some p \<Rightarrow> (case Validate (pl_compiles lib) p of Some e \<Rightarrow> Inl e | None \<Rightarrow> Inr p))"

definition OffenceByCode :: "pack \<Rightarrow> string \<Rightarrow> offence option" where
  "OffenceByCode p code = find (\<lambda>x. of_code x = code) (pk_offences p)"

section \<open>The loader\<close>

record country_pack_row =
  cp_id :: string
  cp_manifest :: string

record tenant_pack_row =
  tp_tenant :: string
  tp_pack_id :: string

text \<open>Only the binding is subject to the policies; a tenant is bound to one pack at most.\<close>

record packs_db =
  country_packs :: "country_pack_row list"
  tenant_packs :: "tenant_pack_row list"

record loader =
  ld_by_tenant :: "string \<Rightarrow> pack option"
  ld_loaded :: "time option"

definition NewLoader :: loader where
  "NewLoader = \<lparr>ld_by_tenant = Map.empty, ld_loaded = None\<rparr>"

definition loader_For :: "loader \<Rightarrow> string \<Rightarrow> pack option" where
  "loader_For l ten = ld_by_tenant l ten"

definition bound_manifests :: "session \<Rightarrow> packs_db \<Rightarrow> (string \<times> string) list" where
  "bound_manifests s d =
     concat (map (\<lambda>b. map (\<lambda>c. (tp_tenant b, cp_manifest c)) (filter (\<lambda>c. cp_id c = tp_pack_id b) (country_packs d)))
       (rows_seen tp_tenant s (tenant_packs d)))"

definition load_row :: "pack_lib \<Rightarrow> (string \<Rightarrow> pack option) \<Rightarrow> string \<times> string \<Rightarrow> string \<Rightarrow> pack option" where
  "load_row lib next row = (case ParseManifest lib (snd row) of Inl _ \<Rightarrow> next | Inr p \<Rightarrow> next(fst row \<mapsto> p))"

text \<open>
  \<open>brk\<close>: the connection breaks after that many rows were read. The loop ends as it does after the
  last row, and \<open>rows.Err\<close> is not looked at.
\<close>

definition reload :: "pack_lib \<Rightarrow> dbrole \<Rightarrow> time \<Rightarrow> nat option \<Rightarrow> (packs_db, 'e, goerr, loader) act" where
  "reload lib role now brk =
     andthen (exec_job (query (\<lambda>_. ()))) (
     bind (exec_job (query (bound_manifests (session_of role [])))) (\<lambda>rows.
     let rows = (case brk of None \<Rightarrow> rows | Some k \<Rightarrow> take k rows) in
     ret \<lparr>ld_by_tenant = foldl (load_row lib) Map.empty rows, ld_loaded = Some now\<rparr>))"

text \<open>The loop of \<open>Run\<close> drops the error and keeps the map it has.\<close>

definition after_reload :: "loader \<Rightarrow> goerr + loader \<Rightarrow> loader" where
  "after_reload l res = (case res of Inl _ \<Rightarrow> l | Inr l' \<Rightarrow> l')"

section \<open>What is accepted\<close>

definition well_formed :: "(string \<Rightarrow> bool) \<Rightarrow> pack \<Rightarrow> bool" where
  "well_formed compiles p \<longleftrightarrow>
     pk_id p \<noteq> [] \<and> pk_country_code p \<noteq> [] \<and> pk_version p \<noteq> [] \<and> pk_currency p \<noteq> []
     \<and> pk_plate_regex p \<noteq> [] \<and> compiles (pk_plate_regex p)
     \<and> pk_offences p \<noteq> [] \<and> distinct (map of_code (pk_offences p))
     \<and> (\<forall>x\<in>set (pk_offences p). of_code x \<noteq> [] \<and> of_base_amount x \<noteq> [] \<and> 0 \<le> of_duplicate_window_min x)
     \<and> distinct (map sg_stage (pk_escalation p)) \<and> (\<forall>s\<in>set (pk_escalation p). sg_stage s \<in> {1..5})"

lemma check_offences_None:
  "check_offences codes os = None \<longleftrightarrow>
     distinct (map of_code os)
     \<and> (\<forall>x\<in>set os. of_code x \<noteq> [] \<and> of_base_amount x \<noteq> [] \<and> 0 \<le> of_duplicate_window_min x \<and> \<not> codes (of_code x))"
  by (induction os arbitrary: codes) (auto, metis image_eqI)

lemma check_stages_None:
  "check_stages stages ss = None \<longleftrightarrow>
     distinct (map sg_stage ss) \<and> (\<forall>s\<in>set ss. sg_stage s \<in> {1..5} \<and> \<not> stages (sg_stage s))"
  by (induction ss arbitrary: stages) (auto, metis image_eqI)

lemma Validate_None: "Validate compiles p = None \<longleftrightarrow> well_formed compiles p"
  using check_offences_None [of "\<lambda>_. False" "pk_offences p"] check_stages_None [of "\<lambda>_. False" "pk_escalation p"]
  by (cases "check_offences (\<lambda>_. False) (pk_offences p)") (auto simp: Validate_def well_formed_def)

lemma find_by_key: "distinct (map f xs) \<Longrightarrow> x \<in> set xs \<Longrightarrow> find (\<lambda>y. f y = f x) xs = Some x"
  by (induction xs) auto

lemma no_bad_manifest [simp]:
  "check_offences codes os \<noteq> Some BadManifest" "check_stages stages ss \<noteq> Some BadManifest" "Validate compiles p \<noteq> Some BadManifest"
proof -
  show os: "check_offences codes os \<noteq> Some BadManifest" for codes os by (induction os arbitrary: codes) auto
  show ss: "check_stages stages ss \<noteq> Some BadManifest" for stages ss by (induction ss arbitrary: stages) auto
  show "Validate compiles p \<noteq> Some BadManifest"
    using os ss by (auto simp: Validate_def split: option.splits)
qed

lemma ParseManifest_Inr:
  "ParseManifest lib b = Inr p \<longleftrightarrow> unmarshal lib b = Some p \<and> well_formed (pl_compiles lib) p"
  by (auto simp: ParseManifest_def Validate_None [symmetric] split: option.splits)

lemma OffenceByCode_iff:
  assumes "well_formed compiles p"
  shows "OffenceByCode p code = Some x \<longleftrightarrow> x \<in> set (pk_offences p) \<and> of_code x = code"
proof
  assume "OffenceByCode p code = Some x"
  then show "x \<in> set (pk_offences p) \<and> of_code x = code" by (auto simp: OffenceByCode_def dest: find_Some_in)
next
  assume x: "x \<in> set (pk_offences p) \<and> of_code x = code"
  from assms have "distinct (map of_code (pk_offences p))" by (simp add: well_formed_def)
  from find_by_key [OF this, of x] x show "OffenceByCode p code = Some x" by (simp add: OffenceByCode_def)
qed

lemma at_most_five_stages:
  assumes "well_formed compiles p"
  shows "length (pk_escalation p) \<le> 5"
proof -
  from assms have d: "distinct (map sg_stage (pk_escalation p))" and sub: "set (map sg_stage (pk_escalation p)) \<subseteq> {1..5}"
    by (auto simp: well_formed_def)
  from card_mono [OF _ sub] distinct_card [OF d] show ?thesis by simp
qed

section \<open>What the loader serves\<close>

lemma load_rows_served:
  "foldl (load_row lib) m rows ten = Some p \<Longrightarrow>
     m ten = Some p \<or> (\<exists>b. (ten, b) \<in> set rows \<and> ParseManifest lib b = Inr p)"
proof (induction rows arbitrary: m)
  case Nil
  then show ?case by simp
next
  case (Cons row rows)
  from Cons.IH [of "load_row lib m row"] Cons.prems
  show ?case by (auto simp: load_row_def split: sum.splits if_splits prod.splits) (cases row; force)+
qed

lemma load_rows_other: "ten \<notin> fst ` set rows \<Longrightarrow> foldl (load_row lib) m rows ten = m ten"
  by (induction rows arbitrary: m) (auto simp: load_row_def split: sum.splits)

lemma load_rows_loads:
  assumes "distinct (map fst rows)" and "(ten, b) \<in> set rows" and "ParseManifest lib b = Inr p"
  shows "foldl (load_row lib) m rows ten = Some p"
proof -
  from assms(2) obtain xs ys where rows: "rows = xs @ (ten, b) # ys" by (auto dest: split_list)
  with assms(1) have "ten \<notin> fst ` set ys" by (auto simp: image_iff)
  then show ?thesis by (simp add: rows load_rows_other load_row_def assms(3))
qed

lemma reload_Inr:
  assumes "(reload lib role now brk :: (packs_db, 'e, goerr, loader) act) w = (Inr l, w')"
  shows "ld_by_tenant l = foldl (load_row lib) Map.empty
    (case brk of None \<Rightarrow> bound_manifests (session_of role []) (w_db w) | Some k \<Rightarrow> take k (bound_manifests (session_of role []) (w_db w)))"
  using assms unfolding reload_def
  by (elim andthenE bindE) (auto simp: Let_def cong: option.case_cong dest!: exec_query_db)

lemma reload_ok:
  "healthy w \<Longrightarrow> (reload lib role now brk :: (packs_db, 'e, goerr, loader) act) w
     = (Inr \<lparr>ld_by_tenant = foldl (load_row lib) Map.empty
          (case brk of None \<Rightarrow> bound_manifests (session_of role []) (w_db w) | Some k \<Rightarrow> take k (bound_manifests (session_of role []) (w_db w))),
        ld_loaded = Some now\<rparr>, w)"
  by (simp add: reload_def andthen_def bind_def exec_query_ok ret_def Let_def)

lemma set_bound_manifests:
  "(ten, m) \<in> set (bound_manifests BypassRls d) \<longleftrightarrow>
     (\<exists>b\<in>set (tenant_packs d). \<exists>c\<in>set (country_packs d). tp_tenant b = ten \<and> cp_id c = tp_pack_id b \<and> cp_manifest c = m)"
  by (auto simp: bound_manifests_def rows_seen_def)

lemma distinct_bound_manifests:
  assumes "distinct (map tp_tenant (tenant_packs d))" and "distinct (map cp_id (country_packs d))"
  shows "distinct (map fst (bound_manifests BypassRls d))"
proof -
  have one: "length (filter (\<lambda>c. cp_id c = k) cs) \<le> 1" if "distinct (map cp_id cs)" for k and cs :: "country_pack_row list"
    using that by (induction cs) (auto simp: filter_empty_conv, metis image_eqI)
  have "distinct (map fst (concat (map (\<lambda>b. map (\<lambda>c. (tp_tenant b, cp_manifest c)) (filter (\<lambda>c. cp_id c = tp_pack_id b) (country_packs d))) bs)))"
    if "distinct (map tp_tenant bs)" for bs
    using that
  proof (induction bs)
    case (Cons b bs)
    from one [OF assms(2), of "tp_pack_id b"] Cons show ?case
      by (cases "filter (\<lambda>c. cp_id c = tp_pack_id b) (country_packs d)") (auto simp: image_iff)
  qed simp
  from this [OF assms(1)] show ?thesis by (simp add: bound_manifests_def rows_seen_def)
qed

text \<open>
  The process with its cache: reloads, of any extent and with any faults, and whatever happens to the
  tables and the connections in between.
\<close>

inductive loader_step :: "pack_lib \<Rightarrow> dbrole \<Rightarrow> (packs_db, unit) world \<times> loader \<Rightarrow> (packs_db, unit) world \<times> loader \<Rightarrow> bool"
  for lib role where
  reloaded: "reload lib role now brk w = (res, w') \<Longrightarrow> loader_step lib role (w, l) (w', after_reload l res)"
| changed: "loader_step lib role (w, l) (w', l)"

lemma loader_step_valid:
  assumes "loader_step lib role s s'" and "\<And>ten p. loader_For (snd s) ten = Some p \<Longrightarrow> \<exists>b. ParseManifest lib b = Inr p"
    and "loader_For (snd s') ten = Some p"
  shows "\<exists>b. ParseManifest lib b = Inr p"
  using assms(1)
proof (cases rule: loader_step.cases)
  case (reloaded now brk w res w' l)
  show ?thesis
  proof (cases res)
    case (Inl e)
    with reloaded assms(2,3) show ?thesis by (simp add: after_reload_def)
  next
    case (Inr l')
    with reloaded have "reload lib role now brk w = (Inr l', w')" by simp
    from reload_Inr [OF this] Inr reloaded assms(3) show ?thesis
      by (auto simp: after_reload_def loader_For_def dest: load_rows_served)
  qed
qed (use assms(2,3) in simp)

lemma loader_steps_valid:
  assumes "(loader_step lib role)\<^sup>*\<^sup>* s s'" and "snd s = NewLoader" and "loader_For (snd s') ten = Some p"
  shows "\<exists>b. ParseManifest lib b = Inr p"
  using assms(1,3)
proof (induction arbitrary: ten p rule: rtranclp_induct)
  case base
  with assms(2) show ?case by (simp add: loader_For_def NewLoader_def)
next
  case (step y z)
  show ?case by (rule loader_step_valid [OF step(2) _ step(4)]) (rule step(3))
qed

section \<open>The properties\<close>

text \<open>
  A pack is accepted exactly when it is well-formed. \<open>ParseManifest\<close> answers a pack if and only if the
  text decodes to it and the pack has an id, a country, a version, a currency and a plate pattern that
  compiles, at least one offence, all offences with different non-empty codes, an amount and a window
  that is not negative, and all escalation stages different and between 1 and 5.
\<close>

theorem ParseManifest_accepts_well_formed:
  "(ParseManifest lib b = Inr p \<longleftrightarrow> unmarshal lib b = Some p \<and> well_formed (pl_compiles lib) p)
   \<and> (ParseManifest lib b = Inl BadManifest \<longleftrightarrow> unmarshal lib b = None)"
  using no_bad_manifest(3) [of "pl_compiles lib"] by (auto simp: ParseManifest_Inr) (auto simp: ParseManifest_def split: option.splits)

text \<open>C38
  The cache serves valid packs only, and serves every valid one. Whatever reloads ran, brk short or
  failing anywhere, and whatever was written to the tables in between: a pack it serves was accepted by
  \<open>ParseManifest\<close>, so it has at most five escalation stages and each of its offences is the one found
  under its code. A reload of all rows without faults on a connection that bypasses the policies then
  serves a tenant exactly the accepted manifest it is bound to, and a reload that fails leaves the cache
  as it was.
\<close>

theorem loader_serves_valid_packs:
  assumes "(loader_step lib role)\<^sup>*\<^sup>* (w0, NewLoader) (w, l)"
    and "healthy w" and "distinct (map tp_tenant (tenant_packs (w_db w)))" and "distinct (map cp_id (country_packs (w_db w)))"
  shows "(loader_For l ten = Some p \<longrightarrow>
        (\<exists>b. ParseManifest lib b = Inr p) \<and> length (pk_escalation p) \<le> 5
        \<and> (OffenceByCode p code = Some x \<longleftrightarrow> x \<in> set (pk_offences p) \<and> of_code x = code))
    \<and> (\<exists>l'. reload lib BypassesRls now None w = (Inr l' :: goerr + loader, w)
        \<and> (loader_For l' ten = Some p \<longleftrightarrow>
             (\<exists>b\<in>set (tenant_packs (w_db w)). \<exists>c\<in>set (country_packs (w_db w)).
                tp_tenant b = ten \<and> cp_id c = tp_pack_id b \<and> ParseManifest lib (cp_manifest c) = Inr p)))
    \<and> after_reload l (Inl e) = l"
proof (intro conjI impI)
  assume "loader_For l ten = Some p"
  with loader_steps_valid [OF assms(1)] obtain b where b: "ParseManifest lib b = Inr p" by auto
  then show "\<exists>b. ParseManifest lib b = Inr p" ..
  from b have ok: "well_formed (pl_compiles lib) p" by (simp add: ParseManifest_Inr)
  then show "length (pk_escalation p) \<le> 5" by (rule at_most_five_stages)
  from ok show "OffenceByCode p code = Some x \<longleftrightarrow> x \<in> set (pk_offences p) \<and> of_code x = code" by (rule OffenceByCode_iff)
next
  let ?rows = "bound_manifests BypassRls (w_db w)"
  from distinct_bound_manifests [OF assms(3,4)] have d: "distinct (map fst ?rows)" .
  have "foldl (load_row lib) Map.empty ?rows ten = Some p \<longleftrightarrow> (\<exists>m. (ten, m) \<in> set ?rows \<and> ParseManifest lib m = Inr p)"
    using load_rows_loads [OF d] load_rows_served [of lib Map.empty ?rows ten p] by auto
  then show "\<exists>l'. reload lib BypassesRls now None w = (Inr l' :: goerr + loader, w)
        \<and> (loader_For l' ten = Some p \<longleftrightarrow>
             (\<exists>b\<in>set (tenant_packs (w_db w)). \<exists>c\<in>set (country_packs (w_db w)).
                tp_tenant b = ten \<and> cp_id c = tp_pack_id b \<and> ParseManifest lib (cp_manifest c) = Inr p))"
    using reload_ok [OF assms(2), of lib BypassesRls now None] by (auto simp: loader_For_def set_bound_manifests)
qed (simp add: after_reload_def)

section \<open>A run\<close>

definition demo_offence :: "string \<Rightarrow> offence" where
  "demo_offence code = \<lparr>of_code = code, of_name = [], of_description = [], of_base_amount = ''400.00'', of_currency = ''EUR'',
     of_points = 4, of_duplicate_window_min = 1440, of_rule_expr = []\<rparr>"

definition demo_pack :: "string \<Rightarrow> pack" where
  "demo_pack i = \<lparr>pk_id = i, pk_country_code = ''XX'', pk_version = ''1.0'', pk_effective_from = None, pk_locales = [''en''],
     pk_currency = ''EUR'', pk_plate_regex = ''^x$'', pk_offences = [demo_offence ''INS_EXPIRED'', demo_offence ''SPEED_30''],
     pk_escalation = [\<lparr>sg_stage = 1, sg_after_days = 7, sg_multiplier = 0, sg_action = ''warning''\<rparr>],
     pk_license_classes = [], pk_vehicle_categories = []\<rparr>"

text \<open>A text stands for a manifest with that id; a leading \<open>@\<close> dates it with the day only.\<close>

definition demo_packs :: pack_lib where
  "demo_packs = \<lparr>pl_decode = (\<lambda>b. case b of [] \<Rightarrow> None
        | c # cs \<Rightarrow> if c = CHR ''@'' then Some \<lparr>mf_effective_from = Some ''2026-01-01'', mf_rest = demo_pack cs\<rparr>
                   else Some \<lparr>mf_effective_from = None, mf_rest = demo_pack b\<rparr>),
     pl_time = (\<lambda>_. None), pl_compiles = (\<lambda>_. True)\<rparr>"

definition demo_bindings :: "(packs_db, unit) world" where
  "demo_bindings = \<lparr>w_db = \<lparr>country_packs = [\<lparr>cp_id = ''a'', cp_manifest = ''a''\<rparr>, \<lparr>cp_id = ''b'', cp_manifest = ''@b''\<rparr>],
       tenant_packs = [\<lparr>tp_tenant = ''no'', tp_pack_id = ''a''\<rparr>, \<lparr>tp_tenant = ''demo'', tp_pack_id = ''b''\<rparr>]\<rparr>,
     w_snap = None, w_save = None, w_aborted = False, w_seq = (\<lambda>_. 0), w_faults = [], w_log = []\<rparr>"

definition demo_loaded :: loader where
  "demo_loaded = after_reload NewLoader (fst (reload demo_packs BypassesRls 5 None demo_bindings))"

theorem loader_serves_valid_packs_witness:
  "loader_For demo_loaded ''no'' = Some (demo_pack ''a'') \<and> length (pk_escalation (demo_pack ''a'')) \<le> 5
     \<and> OffenceByCode (demo_pack ''a'') ''SPEED_30'' = Some (demo_offence ''SPEED_30'')"
proof -
  have served: "loader_For demo_loaded ''no'' = Some (demo_pack ''a'')" by code_simp
  have step: "loader_step demo_packs BypassesRls (demo_bindings, NewLoader) (demo_bindings, demo_loaded)"
    unfolding demo_loaded_def by (rule loader_step.reloaded [where now = 5 and brk = None]) (simp add: reload_ok demo_bindings_def healthy_def)
  have here: "healthy demo_bindings" "distinct (map tp_tenant (tenant_packs (w_db demo_bindings)))" "distinct (map cp_id (country_packs (w_db demo_bindings)))"
    "demo_offence ''SPEED_30'' \<in> set (pk_offences (demo_pack ''a''))" "of_code (demo_offence ''SPEED_30'') = ''SPEED_30''" by code_simp+
  from loader_serves_valid_packs [OF r_into_rtranclp [where r = "loader_step demo_packs BypassesRls", OF step] here(1-3), where ten = "''no''" and p = "demo_pack ''a''"
      and code = "''SPEED_30''" and x = "demo_offence ''SPEED_30''"] served here(4,5)
  show ?thesis by simp
qed

section \<open>What the code does not do\<close>

text \<open>
  The packs the migrations ship (\<open>0004\<close>, \<open>0012\<close>) date themselves with the day only, which \<open>time.Time\<close>
  does not read: the loader drops them, and serves their tenants nothing.
\<close>

lemma shipped_packs_are_refused:
  assumes "pl_decode lib b = Some m" and "mf_effective_from m = Some ''2026-01-01''" and "pl_time lib ''2026-01-01'' = None"
  shows "ParseManifest lib b = Inl BadManifest"
  using assms by (simp add: ParseManifest_def unmarshal_def)

text \<open>A manifest that no longer parses takes the tenant's pack away at the next reload.\<close>

lemma broken_manifest_drops_the_pack:
  "loader_For demo_loaded ''demo'' = None"
  by code_simp

text \<open>A connection that breaks while the rows are read leaves the cache with the tenants read so far.\<close>

lemma cut_reload_forgets_tenants:
  "loader_For demo_loaded ''no'' \<noteq> None
   \<and> loader_For (after_reload demo_loaded (fst (reload demo_packs BypassesRls 35 (Some 0) demo_bindings))) ''no'' = None"
  by code_simp

text \<open>The effective date plays no part: a pack is served from the moment its tenant is bound to it.\<close>

lemma future_pack_is_served:
  "Validate compiles (p\<lparr>pk_effective_from := t\<rparr>) = Validate compiles p"
  by (simp add: Validate_def cong: option.case_cong)

end
