(* ===== verification/Server.thy ===== *)
theory Server
  imports Texts "HOL-Library.Word" "HOL-Library.Sublist"
begin

text \<open>
  What every service puts around its handler (\<open>packages/go-common/server/server.go\<close>,
  \<open>observability/middleware.go\<close>): the probes, the recovery from panics, request and trace ids, the
  access log and the counters behind \<open>/metrics\<close>.

  A handler is what it does to its \<open>ResponseWriter\<close>: the calls it makes, in order, and whether it
  panics after them. \<open>net_op\<close> is \<open>net/http\<close>'s own writer. Path cleaning of \<open>http.ServeMux\<close> and the
  sockets and signals of \<open>Run\<close> are not modelled.
\<close>

section \<open>The response writer\<close>

datatype write_op = SetHeader string string | WriteHeader int | Write string

type_synonym header = "(string \<times> string) list"

record reply =
  rp_header :: header
  rp_sent :: "(int \<times> header) option"
  rp_body :: string

definition set_header :: "string \<Rightarrow> string \<Rightarrow> header \<Rightarrow> header" where
  "set_header k v hs = filter (\<lambda>(k', _). k' \<noteq> k) hs @ [(k, v)]"

definition body_allowed :: "int \<Rightarrow> bool" where
  "body_allowed code \<longleftrightarrow> 200 \<le> code \<and> code \<noteq> 204 \<and> code \<noteq> 304"

text \<open>
  \<open>None\<close>: the call panics (a code that is none). The first final code counts; informational ones leave
  the reply open; writing a body first sends 200.
\<close>

definition net_op :: "write_op \<Rightarrow> reply \<Rightarrow> reply option" where
  "net_op op r =
     (case op of
        SetHeader k v \<Rightarrow> Some (r\<lparr>rp_header := set_header k v (rp_header r)\<rparr>)
      | WriteHeader code \<Rightarrow>
          (if rp_sent r \<noteq> None then Some r
           else if code < 100 \<or> code > 999 then None
           else if code \<le> 199 \<and> code \<noteq> 101 then Some r
           else Some (r\<lparr>rp_sent := Some (code, rp_header r)\<rparr>))
      | Write b \<Rightarrow>
          (let r = (if rp_sent r = None then r\<lparr>rp_sent := Some (200, rp_header r)\<rparr> else r)
           in Some (if body_allowed (fst (the (rp_sent r))) then r\<lparr>rp_body := rp_body r @ b\<rparr> else r)))"

record responseWriter =
  ow_status :: int
  ow_wrote :: bool
  ow_reply :: reply

definition obs_WriteHeader :: "int \<Rightarrow> responseWriter \<Rightarrow> responseWriter" where
  "obs_WriteHeader s w = (if \<not> ow_wrote w then w\<lparr>ow_status := s, ow_wrote := True\<rparr> else w)"

definition obs_Write :: "responseWriter \<Rightarrow> responseWriter" where
  "obs_Write w = (if \<not> ow_wrote w then w\<lparr>ow_wrote := True\<rparr> else w)"

definition obs_op :: "write_op \<Rightarrow> responseWriter \<Rightarrow> responseWriter \<times> bool" where
  "obs_op op w =
     (let w = (case op of SetHeader _ _ \<Rightarrow> w | WriteHeader s \<Rightarrow> obs_WriteHeader s w | Write _ \<Rightarrow> obs_Write w)
      in case net_op op (ow_reply w) of None \<Rightarrow> (w, True) | Some r \<Rightarrow> (w\<lparr>ow_reply := r\<rparr>, False))"

type_synonym program = "write_op list \<times> bool"

text \<open>The second component: whether it panicked.\<close>

fun run_ops :: "write_op list \<Rightarrow> responseWriter \<Rightarrow> responseWriter \<times> bool" where
  "run_ops [] w = (w, False)"
| "run_ops (op # ops) w = (case obs_op op w of (w', panicked) \<Rightarrow> if panicked then (w', True) else run_ops ops w')"

section \<open>Middleware\<close>

record request =
  rq_method :: string
  rq_path :: string
  rq_request_id :: string
  rq_traceparent :: string
  rq_forwarded_for :: string
  rq_remote_addr :: string

record trace_ctx =
  tc_request_id :: string
  tc_trace_id :: string
  tc_span_id :: string

definition IDs :: "trace_ctx option \<Rightarrow> string \<times> string \<times> string" where
  "IDs ctx = (case ctx of None \<Rightarrow> ([], [], []) | Some c \<Rightarrow> (tc_request_id c, tc_trace_id c, tc_span_id c))"

type_synonym http_handler = "trace_ctx \<Rightarrow> request \<Rightarrow> program"

definition internal_error :: string where
  "internal_error = ''{\"code\":\"internal\",\"message\":\"internal error\"}''"

definition recoverMiddleware :: "program \<Rightarrow> responseWriter \<Rightarrow> responseWriter" where
  "recoverMiddleware prog w =
     (case run_ops (fst prog) w of (w', panicked) \<Rightarrow>
        if panicked \<or> snd prog
        then fst (run_ops [SetHeader ''Content-Type'' ''application/json'', WriteHeader 500, Write internal_error] w')
        else w')"

record counter =
  ct_count :: "64 word"
  ct_totalNs :: "64 word"
  ct_statuses :: "64 word list"

definition registryReqs :: counter where
  "registryReqs = \<lparr>ct_count = 0, ct_totalNs = 0, ct_statuses = replicate 6 0\<rparr>"

text \<open>Go's division of integers rounds towards zero.\<close>

definition status_class :: "int \<Rightarrow> int" where
  "status_class status = (if status < 0 then - (- status div 100) else status div 100)"

definition incReq :: "int \<Rightarrow> 64 word \<Rightarrow> counter \<Rightarrow> counter" where
  "incReq status ns c =
     (let c = c\<lparr>ct_count := ct_count c + 1, ct_totalNs := ct_totalNs c + ns\<rparr>;
          bucket = status_class status
      in if bucket \<ge> 0 \<and> bucket < 6
         then c\<lparr>ct_statuses := (ct_statuses c)[nat bucket := ct_statuses c ! nat bucket + 1]\<rparr> else c)"

record access_log =
  al_request_id :: string
  al_trace :: string
  al_method :: string
  al_path :: string
  al_status :: int
  al_ns :: "64 word"
  al_ip :: string

definition obs_clientIP :: "request \<Rightarrow> string" where
  "obs_clientIP rq = (if rq_forwarded_for rq \<noteq> [] then rq_forwarded_for rq else rq_remote_addr rq)"

text \<open>When the handler returns without a word, the server sends 200.\<close>

definition finish_reply :: "reply \<Rightarrow> reply" where
  "finish_reply r = (if rp_sent r = None then r\<lparr>rp_sent := Some (200, rp_header r)\<rparr> else r)"

text \<open>\<open>fresh\<close>: the three ids the process would draw; \<open>ns\<close>: how long the handler takes.\<close>

record draws =
  dr_request_id :: string
  dr_trace_id :: string
  dr_span_id :: string
  dr_ns :: "64 word"

definition request_ctx :: "draws \<Rightarrow> request \<Rightarrow> trace_ctx" where
  "request_ctx dr rq =
     \<lparr>tc_request_id = (if rq_request_id rq = [] then dr_request_id dr else rq_request_id rq),
      tc_trace_id = (if rq_traceparent rq = [] then dr_trace_id dr else rq_traceparent rq),
      tc_span_id = dr_span_id dr\<rparr>"

definition opened_reply :: "trace_ctx \<Rightarrow> reply" where
  "opened_reply ctx =
     \<lparr>rp_header = set_header ''X-Trace-Id'' (tc_trace_id ctx) (set_header ''X-Request-Id'' (tc_request_id ctx) []), rp_sent = None, rp_body = []\<rparr>"

definition obs_Middleware :: "http_handler \<Rightarrow> draws \<Rightarrow> request \<Rightarrow> counter \<Rightarrow> reply \<times> access_log \<times> counter" where
  "obs_Middleware h dr rq c =
     (let ctx = request_ctx dr rq;
          w = recoverMiddleware (h ctx rq) \<lparr>ow_status = 200, ow_wrote = False, ow_reply = opened_reply ctx\<rparr>
      in (finish_reply (ow_reply w),
          \<lparr>al_request_id = tc_request_id ctx, al_trace = tc_trace_id ctx, al_method = rq_method rq, al_path = rq_path rq,
           al_status = ow_status w, al_ns = dr_ns dr, al_ip = obs_clientIP rq\<rparr>,
          incReq (ow_status w) (dr_ns dr) c))"

section \<open>Probes and metrics\<close>

definition ok_reply :: "string \<Rightarrow> reply" where
  "ok_reply body = \<lparr>rp_header = [], rp_sent = Some (200, []), rp_body = body\<rparr>"

definition Health :: "string \<Rightarrow> reply" where
  "Health path = (if path = ''/healthz'' then ok_reply ''{\"ok\":true}'' else ok_reply ''{\"alive\":true}'')"

text \<open>\<open>f6\<close> prints nanoseconds as seconds with six digits; the counters are printed as 64-bit integers.\<close>

definition metrics_text :: "(64 word \<Rightarrow> string) \<Rightarrow> counter \<Rightarrow> string" where
  "metrics_text f6 c =
     ''naditos_http_requests_total '' @ int_text (sint (ct_count c)) @ nl
     @ ''naditos_http_duration_seconds_sum '' @ f6 (ct_totalNs c) @ nl
     @ concat (map (\<lambda>i. if sint (ct_statuses c ! i) > 0
          then ''naditos_http_responses_total{class=\"'' @ nat_text i @ ''xx\"} '' @ int_text (sint (ct_statuses c ! i)) @ nl else [])
        [0..<length (ct_statuses c)])"

definition MetricsHandler :: "(64 word \<Rightarrow> string) \<Rightarrow> counter \<Rightarrow> reply" where
  "MetricsHandler f6 c =
     (let hs = set_header ''Content-Type'' ''text/plain; version=0.0.4'' []
      in \<lparr>rp_header = hs, rp_sent = Some (200, hs), rp_body = metrics_text f6 c\<rparr>)"

definition Mount :: "(64 word \<Rightarrow> string) \<Rightarrow> http_handler \<Rightarrow> draws \<Rightarrow> request \<Rightarrow> counter \<Rightarrow> reply \<times> access_log option \<times> counter" where
  "Mount f6 h dr rq c =
     (if rq_path rq = ''/healthz'' \<or> rq_path rq = ''/livez'' then (Health (rq_path rq), None, c)
      else if rq_path rq = ''/metrics'' then (MetricsHandler f6 c, None, c)
      else case obs_Middleware h dr rq c of (r, entry, c') \<Rightarrow> (r, Some entry, c'))"

section \<open>The wrapper is transparent\<close>

text \<open>The handler's calls on \<open>net/http\<close>'s writer alone, without the wrapper.\<close>

fun net_run :: "write_op list \<Rightarrow> reply \<Rightarrow> reply \<times> bool" where
  "net_run [] r = (r, False)"
| "net_run (op # ops) r = (case net_op op r of None \<Rightarrow> (r, True) | Some r' \<Rightarrow> net_run ops r')"

lemma run_ops_reply:
  "ow_reply (fst (run_ops ops w)) = fst (net_run ops (ow_reply w)) \<and> snd (run_ops ops w) = snd (net_run ops (ow_reply w))"
proof (induction ops arbitrary: w)
  case (Cons op ops)
  let ?w = "case op of SetHeader _ _ \<Rightarrow> w | WriteHeader s \<Rightarrow> obs_WriteHeader s w | Write _ \<Rightarrow> obs_Write w"
  have same: "ow_reply ?w = ow_reply w" by (simp add: obs_WriteHeader_def obs_Write_def split: write_op.split)
  show ?case
    using Cons [of "?w\<lparr>ow_reply := the (net_op op (ow_reply w))\<rparr>"] by (cases "net_op op (ow_reply w)") (simp_all add: obs_op_def Let_def same)
qed simp

text \<open>What the wrapper remembers: a reply that was sent had its code noted, when the codes are final ones.\<close>

definition noted :: "responseWriter \<Rightarrow> bool" where
  "noted w \<longleftrightarrow> ow_wrote w = (rp_sent (ow_reply w) \<noteq> None) \<and> (case rp_sent (ow_reply w) of None \<Rightarrow> ow_status w = 200 | Some (code, _) \<Rightarrow> ow_status w = code)"

lemma run_ops_noted:
  assumes "noted w" and "\<forall>code. WriteHeader code \<in> set ops \<longrightarrow> 200 \<le> code \<and> code \<le> 999"
  shows "noted (fst (run_ops ops w)) \<and> \<not> snd (run_ops ops w)"
  using assms
proof (induction ops arbitrary: w)
  case (Cons op ops)
  obtain w' where step: "obs_op op w = (w', False)" "noted w'"
  proof (cases op)
    case (SetHeader k v)
    with Cons.prems(1) show thesis
      by (intro that [of "w\<lparr>ow_reply := (ow_reply w)\<lparr>rp_header := set_header k v (rp_header (ow_reply w))\<rparr>\<rparr>"])
        (auto simp: obs_op_def net_op_def noted_def Let_def split: option.splits)
  next
    case (WriteHeader code)
    with Cons.prems have "200 \<le> code" "code \<le> 999" by auto
    with WriteHeader Cons.prems(1) show thesis
      by (intro that [of "if rp_sent (ow_reply w) = None then w\<lparr>ow_status := code, ow_wrote := True, ow_reply := (ow_reply w)\<lparr>rp_sent := Some (code, rp_header (ow_reply w))\<rparr>\<rparr> else w"])
        (auto simp: obs_op_def net_op_def noted_def obs_WriteHeader_def Let_def split: option.splits)
  next
    case (Write b)
    show thesis
    proof (rule that [of "fst (obs_op op w)"])
      from Write show "obs_op op w = (fst (obs_op op w), False)" by (simp add: obs_op_def net_op_def Let_def)
      from Write Cons.prems(1) show "noted (fst (obs_op op w))"
        by (auto simp: obs_op_def net_op_def noted_def obs_Write_def Let_def split: option.splits)
    qed
  qed
  with Cons.IH [of w'] Cons.prems(2) show ?case by simp
qed simp

lemma net_op_sent: "net_op op r = Some r' \<Longrightarrow> rp_sent r = Some s \<Longrightarrow> rp_sent r' = Some s \<and> prefix (rp_body r) (rp_body r')"
  by (auto simp: net_op_def Let_def split: write_op.splits if_splits)

lemma net_run_sent: "rp_sent r = Some s \<Longrightarrow> rp_sent (fst (net_run ops r)) = Some s \<and> prefix (rp_body r) (rp_body (fst (net_run ops r)))"
proof (induction ops arbitrary: r)
  case (Cons op ops)
  show ?case
  proof (cases "net_op op r")
    case None
    with Cons.prems show ?thesis by simp
  next
    case (Some r')
    from net_op_sent [OF Some Cons.prems] Cons.IH [of r'] show ?thesis
      by (auto simp: Some intro: prefix_order.trans)
  qed
qed simp

text \<open>What the recovery leaves behind, by whether the reply was already under way.\<close>

lemma recovered_reply:
  assumes "w' = fst (run_ops (fst prog) w)" and "panics = (snd (run_ops (fst prog) w) \<or> snd prog)"
  shows "ow_reply (recoverMiddleware prog w)
    = (if panics then fst (net_run [SetHeader ''Content-Type'' ''application/json'', WriteHeader 500, Write internal_error] (ow_reply w'))
       else ow_reply w')"
  using assms by (simp add: recoverMiddleware_def run_ops_reply case_prod_unfold del: run_ops.simps net_run.simps)

lemma recovery_of_open_reply:
  assumes "rp_sent r = None" and "rp_body r = []"
  shows "fst (net_run [SetHeader ''Content-Type'' ''application/json'', WriteHeader 500, Write internal_error] r)
    = (let hs = set_header ''Content-Type'' ''application/json'' (rp_header r)
       in r\<lparr>rp_header := hs, rp_sent := Some (500, hs), rp_body := internal_error\<rparr>)"
  using assms by (simp add: net_op_def body_allowed_def Let_def)

lemma open_reply_has_no_body:
  assumes "rp_sent (fst (net_run ops r)) = None" and "rp_sent r = None" and "rp_body r = []"
  shows "rp_body (fst (net_run ops r)) = []"
  using assms
proof (induction ops arbitrary: r)
  case (Cons op ops)
  show ?case
  proof (cases "net_op op r")
    case None
    with Cons.prems show ?thesis by simp
  next
    case (Some r')
    have "rp_sent r' = None"
      using Cons.prems(1) net_run_sent [of r' _ ops] by (cases "rp_sent r'") (auto simp: Some)
    with Some Cons.prems(2,3) have "rp_body r' = []" by (auto simp: net_op_def Let_def split: write_op.splits if_splits)
    with Cons.IH [of r'] Cons.prems(1) \<open>rp_sent r' = None\<close> show ?thesis by (simp add: Some)
  qed
qed simp

lemma recoverMiddleware_noted:
  assumes "noted w" and "\<forall>code. WriteHeader code \<in> set (fst prog) \<longrightarrow> 200 \<le> code \<and> code \<le> 999"
  shows "noted (recoverMiddleware prog w)"
proof -
  from run_ops_noted [OF assms] have n: "noted (fst (run_ops (fst prog) w))" ..
  have "noted (fst (run_ops [SetHeader ''Content-Type'' ''application/json'', WriteHeader 500, Write internal_error] (fst (run_ops (fst prog) w))))"
    using run_ops_noted [OF n, of "[SetHeader ''Content-Type'' ''application/json'', WriteHeader 500, Write internal_error]"] by auto
  with n show ?thesis by (simp add: recoverMiddleware_def case_prod_unfold del: run_ops.simps)
qed

lemma finished_status: "noted w \<Longrightarrow> ow_status w = fst (the (rp_sent (finish_reply (ow_reply w))))"
  by (auto simp: noted_def finish_reply_def split: option.splits)

section \<open>The properties\<close>


definition demo_request :: request where
  "demo_request = \<lparr>rq_method = ''POST'', rq_path = ''/v1/fines'', rq_request_id = [], rq_traceparent = ''t'', rq_forwarded_for = [], rq_remote_addr = ''a''\<rparr>"

definition demo_draws :: draws where
  "demo_draws = \<lparr>dr_request_id = ''r'', dr_trace_id = ''u'', dr_span_id = ''s'', dr_ns = 5\<rparr>"

definition demo_panics :: http_handler where
  "demo_panics ctx rq = ([SetHeader ''Content-Type'' ''text/plain''], True)"


fun served :: "(http_handler \<times> draws \<times> request) list \<Rightarrow> counter \<Rightarrow> access_log list \<times> counter" where
  "served [] c = ([], c)"
| "served ((h, dr, rq) # rs) c =
     (case obs_Middleware h dr rq c of (_, entry, c') \<Rightarrow> (case served rs c' of (es, c'') \<Rightarrow> (entry # es, c'')))"

definition of_class :: "nat \<Rightarrow> access_log list \<Rightarrow> nat" where
  "of_class k es = length (filter (\<lambda>e. status_class (al_status e) = int k) es)"

lemma served_counts:
  assumes "length (ct_statuses c) = 6"
  shows "length (fst (served rs c)) = length rs
    \<and> ct_count (snd (served rs c)) = ct_count c + of_nat (length rs)
    \<and> ct_statuses (snd (served rs c)) = map (\<lambda>k. ct_statuses c ! k + of_nat (of_class k (fst (served rs c)))) [0..<6]"
  using assms
proof (induction rs arbitrary: c)
  case Nil
  then show ?case by (auto simp: of_class_def intro: nth_equalityI)
next
  case (Cons x rs)
  obtain h dr rq where x: "x = (h, dr, rq)" by (cases x)
  obtain rep e c' where m: "obs_Middleware h dr rq c = (rep, e, c')" by (cases "obs_Middleware h dr rq c") auto
  then have c': "c' = incReq (al_status e) (dr_ns dr) c" by (auto simp: obs_Middleware_def Let_def)
  with Cons.prems have len: "length (ct_statuses c') = 6" by (simp add: incReq_def Let_def)
  have cnt: "ct_count c' = ct_count c + 1" by (simp add: c' incReq_def Let_def)
  have bump: "ct_statuses c' ! k = ct_statuses c ! k + (if status_class (al_status e) = int k then 1 else 0)" if "k < 6" for k
    using that Cons.prems by (auto simp: c' incReq_def Let_def nth_list_update)
  from Cons.IH [OF len] show ?case
    by (auto simp: x m of_class_def bump cnt case_prod_unfold)
qed

text \<open>
  The counters count the responses. After any sequence of requests, the number of requests and of
  responses of each class \<open>0xx\<close> to \<open>5xx\<close> are those of the codes that were recorded, modulo the 64 bits
  of the counters; below \<open>2^63\<close> requests \<open>/metrics\<close> prints the true number.
\<close>

theorem metrics_count_responses:
  assumes "served rs registryReqs = (es, c)"
  shows "ct_count c = of_nat (length rs) \<and> length es = length rs
    \<and> ct_statuses c = map (\<lambda>k. of_nat (of_class k es)) [0..<6]
    \<and> (length rs < 2 ^ 63 \<longrightarrow> prefix (''naditos_http_requests_total '' @ nat_text (length rs) @ nl) (metrics_text f6 c))"
proof -
  have "length (ct_statuses registryReqs) = 6" by (simp add: registryReqs_def)
  from served_counts [OF this, of rs] assms
  have *: "ct_count c = of_nat (length rs)" "length es = length rs" "ct_statuses c = map (\<lambda>k. of_nat (of_class k es)) [0..<6]"
    by (auto simp: registryReqs_def)
  have "sint (ct_count c) = int (length rs)" if "length rs < 2 ^ 63"
    using that by (simp add: *(1) signed_of_nat signed_take_bit_int_eq_self)
  with * show ?thesis by (simp add: metrics_text_def int_text_def)
qed

theorem metrics_count_responses_witness:
  "prefix (''naditos_http_requests_total '' @ nat_text 2 @ nl)
     (metrics_text (\<lambda>_. []) (snd (served [(demo_panics, demo_draws, demo_request), (demo_panics, demo_draws, demo_request)] registryReqs)))"
proof -
  let ?rs = "[(demo_panics, demo_draws, demo_request), (demo_panics, demo_draws, demo_request)]"
  have two: "length ?rs = 2" by simp
  have small: "length ?rs < 2 ^ 63" by simp
  from metrics_count_responses [OF surjective_pairing, of ?rs "\<lambda>_. []"] small
  have "prefix (''naditos_http_requests_total '' @ nat_text (length ?rs) @ nl) (metrics_text (\<lambda>_. []) (snd (served ?rs registryReqs)))"
    by blast
  then show ?thesis unfolding two .
qed

section \<open>What the code does not do\<close>

text \<open>A reply that a panic cuts short is closed as a complete one, and counted among the good ones.\<close>

lemma interrupted_body_counts_as_ok:
  "case obs_Middleware (\<lambda>_ _. ([Write ''[1,''], True)) demo_draws demo_request registryReqs of (rep, entry, _) \<Rightarrow>
     fst (the (rp_sent rep)) = 200 \<and> rp_body rep = ''[1,'' @ internal_error \<and> al_status entry = 200"
  by code_simp

text \<open>An informational code is what the log and the counters keep, whatever is sent after it.\<close>

lemma informational_code_is_logged:
  "case obs_Middleware (\<lambda>_ _. ([WriteHeader 103, WriteHeader 404], False)) demo_draws demo_request registryReqs of (rep, entry, _) \<Rightarrow>
     fst (the (rp_sent rep)) = 404 \<and> al_status entry = 103"
  by code_simp

end
