(* ===== verification/Config.thy ===== *)
theory Config
  imports Texts
begin

text \<open>
  Start-up configuration (\<open>packages/go-common/config/config.go\<close>): a service reads its settings from
  the environment, with defaults, and panics when a required one is missing.

  The environment is a function: \<open>os.Getenv\<close> answers the empty text for a variable that is not set. A
  panic is \<open>Inl\<close> with its message. \<open>ParseDuration\<close> is that of \<open>time\<close>, in nanoseconds; \<open>frac\<close> is its
  floating-point step \<open>float64(f) * (float64(unit) / scale)\<close>, truncated.
\<close>

section \<open>Durations\<close>

definition is_digit :: "char \<Rightarrow> bool" where
  "is_digit c \<longleftrightarrow> digit_of c \<noteq> None"

definition unit_ns :: "string \<Rightarrow> nat option" where
  "unit_ns u =
     (if u = ''ns'' then Some 1
      else if u \<in> {''us'', [CHR 0xC2, CHR 0xB5, CHR ''s''], [CHR 0xCE, CHR 0xBC, CHR ''s'']} then Some 1000
      else if u = ''ms'' then Some (1000 * 1000)
      else if u = ''s'' then Some (1000 * 1000 * 1000)
      else if u = ''m'' then Some (60 * 1000 * 1000 * 1000)
      else if u = ''h'' then Some (3600 * 1000 * 1000 * 1000)
      else None)"

text \<open>Digits that no longer fit are dropped.\<close>

fun leading_fraction :: "nat \<Rightarrow> nat \<Rightarrow> string \<Rightarrow> nat \<times> nat" where
  "leading_fraction x scale [] = (x, scale)"
| "leading_fraction x scale (c # cs) =
     (let y = 10 * x + the (digit_of c)
      in if x > (2 ^ 63 - 1) div 10 \<or> y > 2 ^ 63 then (x, scale) else leading_fraction y (10 * scale) cs)"

type_synonym float_step = "nat \<Rightarrow> nat \<Rightarrow> nat \<Rightarrow> nat"

text \<open>One number with its unit: what it adds, and the rest of the text.\<close>

definition parse_term :: "float_step \<Rightarrow> string \<Rightarrow> (nat \<times> string) option" where
  "parse_term frac s =
     (if s = [] \<or> \<not> (hd s = CHR ''.'' \<or> is_digit (hd s)) then None
      else let ds = takeWhile is_digit s; s1 = dropWhile is_digit s in
        case digits_value 0 ds of
          None \<Rightarrow> None
        | Some v \<Rightarrow>
            if v > 2 ^ 63 then None
            else let dot = (s1 \<noteq> [] \<and> hd s1 = CHR ''.'');
                     fs = (if dot then takeWhile is_digit (tl s1) else []);
                     s2 = (if dot then dropWhile is_digit (tl s1) else s1)
              in if ds = [] \<and> fs = [] then None
                 else let u = takeWhile (\<lambda>c. c \<noteq> CHR ''.'' \<and> \<not> is_digit c) s2;
                          rest = dropWhile (\<lambda>c. c \<noteq> CHR ''.'' \<and> \<not> is_digit c) s2
                   in case unit_ns u of
                        None \<Rightarrow> None
                      | Some un \<Rightarrow>
                          if v > 2 ^ 63 div un then None
                          else case leading_fraction 0 1 fs of (f, scale) \<Rightarrow>
                            let v' = (if f > 0 then v * un + frac f un scale else v * un)
                            in if f > 0 \<and> v' > 2 ^ 63 then None else Some (v', rest))"

lemma parse_term_shorter: "parse_term frac s = Some (v, rest) \<Longrightarrow> length rest < length s"
proof -
  assume p: "parse_term frac s = Some (v, rest)"
  let ?unit = "\<lambda>c. c \<noteq> CHR ''.'' \<and> \<not> is_digit c"
  define s1 where "s1 = dropWhile is_digit s"
  define s2 where "s2 = (if s1 \<noteq> [] \<and> hd s1 = CHR ''.'' then dropWhile is_digit (tl s1) else s1)"
  from p have rest: "rest = dropWhile ?unit s2" and u: "unit_ns (takeWhile ?unit s2) \<noteq> None"
    by (auto simp: parse_term_def s1_def s2_def Let_def split: if_splits option.splits prod.splits)
  from u have "takeWhile ?unit s2 \<noteq> []" by (auto simp: unit_ns_def)
  then have "length rest < length s2"
    by (metis rest append_self_conv2 length_dropWhile_le nat_less_le takeWhile_dropWhile_id length_append add_0_left length_0_conv add_right_imp_eq)
  moreover have "length s1 \<le> length s" by (simp add: s1_def length_dropWhile_le)
  moreover have "length s2 \<le> length s1"
    using length_dropWhile_le [of is_digit "tl s1"] by (auto simp: s2_def)
  ultimately show ?thesis by simp
qed

text \<open>The sum is kept in 64 bits.\<close>

function parse_terms :: "float_step \<Rightarrow> nat \<Rightarrow> string \<Rightarrow> nat option" where
  "parse_terms frac d s =
     (if s = [] then Some d
      else case parse_term frac s of
             None \<Rightarrow> None
           | Some (v, rest) \<Rightarrow>
               let d' = (d + v) mod 2 ^ 64 in if d' > 2 ^ 63 then None else parse_terms frac d' rest)"
  by pat_completeness auto
termination
  by (relation "measure (\<lambda>(frac, d, s). length s)") (auto dest: parse_term_shorter)

declare parse_terms.simps [simp del]

definition ParseDuration :: "float_step \<Rightarrow> string \<Rightarrow> int option" where
  "ParseDuration frac s =
     (let neg = (s \<noteq> [] \<and> hd s = CHR ''-'');
          body = (if s \<noteq> [] \<and> (hd s = CHR ''-'' \<or> hd s = CHR ''+'') then tl s else s)
      in if body = ''0'' then Some 0
         else if body = [] then None
         else case parse_terms frac 0 body of
                None \<Rightarrow> None
              | Some d \<Rightarrow> if neg then Some (- int d) else if d > 2 ^ 63 - 1 then None else Some (int d))"

section \<open>The environment\<close>

type_synonym environment = "string \<Rightarrow> string"

definition must :: "environment \<Rightarrow> string \<Rightarrow> string + string" where
  "must env k = (if env k = [] then Inl (''missing env var: '' @ k) else Inr (env k))"

definition getStr :: "environment \<Rightarrow> string \<Rightarrow> string \<Rightarrow> string" where
  "getStr env k def = (if env k \<noteq> [] then env k else def)"

definition getInt :: "environment \<Rightarrow> string \<Rightarrow> int \<Rightarrow> int" where
  "getInt env k def = (if env k \<noteq> [] then (case Atoi (env k) of Some n \<Rightarrow> n | None \<Rightarrow> def) else def)"

definition getDur :: "float_step \<Rightarrow> environment \<Rightarrow> string \<Rightarrow> int \<Rightarrow> int" where
  "getDur frac env k def = (if env k \<noteq> [] then (case ParseDuration frac (env k) of Some d \<Rightarrow> d | None \<Rightarrow> def) else def)"

record service =
  sv_name :: string
  sv_port :: int
  sv_database_url :: string
  sv_redis_url :: string
  sv_jwt_secret :: string
  sv_access_ttl :: int
  sv_refresh_ttl :: int
  sv_audit_url :: string
  sv_log_level :: string
  sv_default_tenant :: string
  sv_default_locale :: string
  sv_default_country :: string

definition minute_ns :: int where
  "minute_ns = 60 * 1000 * 1000 * 1000"

definition hour_ns :: int where
  "hour_ns = 60 * minute_ns"

definition MustLoad :: "float_step \<Rightarrow> environment \<Rightarrow> string \<Rightarrow> int \<Rightarrow> string + service" where
  "MustLoad frac env name defaultPort =
     (case must env ''JWT_SECRET'' of
        Inl e \<Rightarrow> Inl e
      | Inr secret \<Rightarrow> Inr
          \<lparr>sv_name = name, sv_port = getInt env ''SERVICE_PORT'' defaultPort,
           sv_database_url = getStr env ''DATABASE_URL'' [], sv_redis_url = getStr env ''REDIS_URL'' [],
           sv_jwt_secret = secret,
           sv_access_ttl = getDur frac env ''JWT_ACCESS_TTL'' (15 * minute_ns),
           sv_refresh_ttl = getDur frac env ''JWT_REFRESH_TTL'' (30 * 24 * hour_ns),
           sv_audit_url = getStr env ''AUDIT_URL'' [], sv_log_level = getStr env ''LOG_LEVEL'' ''info'',
           sv_default_tenant = getStr env ''NEXT_PUBLIC_DEFAULT_TENANT'' ''demo'',
           sv_default_locale = getStr env ''DEFAULT_LOCALE'' ''en'',
           sv_default_country = getStr env ''DEFAULT_COUNTRY'' ''XX''\<rparr>)"

definition MustLoadWithDB :: "float_step \<Rightarrow> environment \<Rightarrow> string \<Rightarrow> int \<Rightarrow> string + service" where
  "MustLoadWithDB frac env name defaultPort =
     (case MustLoad frac env name defaultPort of
        Inl e \<Rightarrow> Inl e
      | Inr c \<Rightarrow> if sv_database_url c = [] then Inl ''missing env var: DATABASE_URL'' else Inr c)"

datatype log_level = LevelDebug | LevelInfo | LevelWarn | LevelError

definition logger_New :: "string \<Rightarrow> log_level" where
  "logger_New level =
     (let l = ToLower level
      in if l = ''debug'' then LevelDebug else if l = ''warn'' then LevelWarn else if l = ''error'' then LevelError else LevelInfo)"

section \<open>What is written is read\<close>

definition dur_text :: "int \<Rightarrow> string" where
  "dur_text d = (if d < 0 then ''-'' else []) @ nat_text (nat \<bar>d\<bar>) @ ''ns''"

definition env_of :: "service \<Rightarrow> environment" where
  "env_of c k =
     (case map_of
        [(''SERVICE_PORT'', int_text (sv_port c)), (''DATABASE_URL'', sv_database_url c), (''REDIS_URL'', sv_redis_url c),
         (''JWT_SECRET'', sv_jwt_secret c), (''JWT_ACCESS_TTL'', dur_text (sv_access_ttl c)),
         (''JWT_REFRESH_TTL'', dur_text (sv_refresh_ttl c)), (''AUDIT_URL'', sv_audit_url c), (''LOG_LEVEL'', sv_log_level c),
         (''NEXT_PUBLIC_DEFAULT_TENANT'', sv_default_tenant c), (''DEFAULT_LOCALE'', sv_default_locale c),
         (''DEFAULT_COUNTRY'', sv_default_country c)] k
      of None \<Rightarrow> [] | Some v \<Rightarrow> v)"


lemma parse_one_ns:
  assumes "n \<le> 2 ^ 63"
  shows "parse_terms frac 0 (nat_text n @ ''ns'') = Some n"
proof -
  have dig: "\<forall>c\<in>set (nat_text n). is_digit c" using nat_text_digits by (auto simp: is_digit_def)
  obtain c cs where t: "nat_text n = c # cs" by (cases "nat_text n") auto
  have unit: "\<not> is_digit (CHR ''n'')" "\<not> is_digit (CHR ''s'')" by (simp_all add: is_digit_def digit_of_def)
  have tw: "takeWhile is_digit (nat_text n @ ''ns'') = nat_text n" "dropWhile is_digit (nat_text n @ ''ns'') = ''ns''"
    using dig unit by (simp_all add: takeWhile_append2 dropWhile_append2)
  have "parse_term frac (nat_text n @ ''ns'') = Some (n, [])"
    using dig unit assms digits_value_nat_text [of n]
    by (simp add: parse_term_def tw [unfolded t] unit_ns_def t Let_def del: digits_value.simps)
  then show ?thesis using assms by (simp add: parse_terms.simps [of frac 0 "nat_text n @ ''ns''"] parse_terms.simps [of frac n "[]"])
qed

lemma ParseDuration_dur_text:
  assumes "- (2 ^ 63) \<le> d" and "d < 2 ^ 63"
  shows "ParseDuration frac (dur_text d) = Some d"
proof -
  obtain c cs where t: "nat_text (nat \<bar>d\<bar>) = c # cs" by (cases "nat_text (nat \<bar>d\<bar>)") auto
  with nat_text_digits [of c "nat \<bar>d\<bar>"] have "digit_of c \<noteq> None" by simp
  then have sign: "c \<noteq> CHR ''-'' \<and> c \<noteq> CHR ''+''" by (auto simp: digit_of_def)
  have zero: "nat_text (nat \<bar>d\<bar>) @ ''ns'' \<noteq> ''0''" by (simp add: t)
  from assms have "nat \<bar>d\<bar> \<le> 2 ^ 63" by (simp add: nat_le_iff)
  note parsed = parse_one_ns [OF this, of frac]
  show ?thesis
  proof (cases "d < 0")
    case True
    with parsed zero show ?thesis by (simp add: ParseDuration_def dur_text_def)
  next
    case False
    with parsed zero sign t assms show ?thesis by (simp add: ParseDuration_def dur_text_def Let_def)
  qed
qed


text \<open>A configuration the environment can hold: nothing empty, numbers in 64 bits.\<close>

definition writable :: "service \<Rightarrow> bool" where
  "writable c \<longleftrightarrow>
     sv_database_url c \<noteq> [] \<and> sv_redis_url c \<noteq> [] \<and> sv_jwt_secret c \<noteq> [] \<and> sv_audit_url c \<noteq> [] \<and> sv_log_level c \<noteq> []
     \<and> sv_default_tenant c \<noteq> [] \<and> sv_default_locale c \<noteq> [] \<and> sv_default_country c \<noteq> []
     \<and> - (2 ^ 63) \<le> sv_port c \<and> sv_port c < 2 ^ 63
     \<and> - (2 ^ 63) \<le> sv_access_ttl c \<and> sv_access_ttl c < 2 ^ 63
     \<and> - (2 ^ 63) \<le> sv_refresh_ttl c \<and> sv_refresh_ttl c < 2 ^ 63"

lemma texts_not_empty [simp]: "int_text i \<noteq> []" "dur_text d \<noteq> []"
  by (simp_all add: int_text_def dur_text_def)

lemma env_of_reads:
  "env_of c ''SERVICE_PORT'' = int_text (sv_port c)" "env_of c ''DATABASE_URL'' = sv_database_url c"
  "env_of c ''REDIS_URL'' = sv_redis_url c" "env_of c ''JWT_SECRET'' = sv_jwt_secret c"
  "env_of c ''JWT_ACCESS_TTL'' = dur_text (sv_access_ttl c)" "env_of c ''JWT_REFRESH_TTL'' = dur_text (sv_refresh_ttl c)"
  "env_of c ''AUDIT_URL'' = sv_audit_url c" "env_of c ''LOG_LEVEL'' = sv_log_level c"
  "env_of c ''NEXT_PUBLIC_DEFAULT_TENANT'' = sv_default_tenant c" "env_of c ''DEFAULT_LOCALE'' = sv_default_locale c"
  "env_of c ''DEFAULT_COUNTRY'' = sv_default_country c"
  by (simp_all add: env_of_def)

lemma MustLoad_env_of:
  assumes "writable c"
  shows "MustLoad frac (env_of c) (sv_name c) port = Inr c"
proof -
  from assms have "Atoi (int_text (sv_port c)) = Some (sv_port c)"
    "ParseDuration frac (dur_text (sv_access_ttl c)) = Some (sv_access_ttl c)"
    "ParseDuration frac (dur_text (sv_refresh_ttl c)) = Some (sv_refresh_ttl c)"
    by (simp_all add: writable_def Atoi_int_text ParseDuration_dur_text)
  then have "getInt (env_of c) ''SERVICE_PORT'' port = sv_port c"
    "getDur frac (env_of c) ''JWT_ACCESS_TTL'' x = sv_access_ttl c" "getDur frac (env_of c) ''JWT_REFRESH_TTL'' x = sv_refresh_ttl c" for x
    by (simp_all add: getInt_def getDur_def env_of_reads)
  moreover from assms have "must (env_of c) ''JWT_SECRET'' = Inr (sv_jwt_secret c)"
    "getStr (env_of c) ''DATABASE_URL'' x = sv_database_url c" "getStr (env_of c) ''REDIS_URL'' x = sv_redis_url c"
    "getStr (env_of c) ''AUDIT_URL'' x = sv_audit_url c" "getStr (env_of c) ''LOG_LEVEL'' x = sv_log_level c"
    "getStr (env_of c) ''NEXT_PUBLIC_DEFAULT_TENANT'' x = sv_default_tenant c" "getStr (env_of c) ''DEFAULT_LOCALE'' x = sv_default_locale c"
    "getStr (env_of c) ''DEFAULT_COUNTRY'' x = sv_default_country c" for x
    by (simp_all add: writable_def must_def getStr_def env_of_reads)
  ultimately show ?thesis by (simp add: MustLoad_def)
qed

lemma MustLoad_Inl:
  "MustLoad frac env name port = Inl e \<longleftrightarrow> env ''JWT_SECRET'' = [] \<and> e = ''missing env var: JWT_SECRET''"
  by (cases "env ''JWT_SECRET'' = []") (simp_all only: MustLoad_def must_def if_True if_False sum.case sum.simps refl simp_thms, auto)

lemma MustLoad_Inr: "MustLoad frac env name port = Inr c \<Longrightarrow> sv_database_url c = env ''DATABASE_URL''"
  by (cases "env ''JWT_SECRET'' = []") (simp_all add: MustLoad_def must_def getStr_def [of _ _ "[]"], elim subst, simp)

section \<open>The property\<close>

text \<open>C40
  A service reads the configuration that was written for it, port and token lifetimes included: from the
  environment that holds it, \<open>MustLoad\<close> and \<open>MustLoadWithDB\<close> answer it, whatever the default port. They
  panic in one case each, and name the variable: no \<open>JWT_SECRET\<close>, and for \<open>MustLoadWithDB\<close> also no
  \<open>DATABASE_URL\<close>.
\<close>

theorem config_reads_what_was_written:
  assumes "writable c"
  shows "MustLoad frac (env_of c) (sv_name c) port = Inr c \<and> MustLoadWithDB frac (env_of c) (sv_name c) port = Inr c
    \<and> (MustLoad frac env name port = Inl e \<longleftrightarrow> env ''JWT_SECRET'' = [] \<and> e = ''missing env var: JWT_SECRET'')
    \<and> (MustLoadWithDB frac env name port = Inl e \<longleftrightarrow>
         env ''JWT_SECRET'' = [] \<and> e = ''missing env var: JWT_SECRET''
         \<or> env ''JWT_SECRET'' \<noteq> [] \<and> env ''DATABASE_URL'' = [] \<and> e = ''missing env var: DATABASE_URL'')"
proof (intro conjI)
  show "MustLoad frac (env_of c) (sv_name c) port = Inr c" by (rule MustLoad_env_of [OF assms])
  with assms show "MustLoadWithDB frac (env_of c) (sv_name c) port = Inr c" by (simp add: MustLoadWithDB_def writable_def)
  show "MustLoad frac env name port = Inl e \<longleftrightarrow> env ''JWT_SECRET'' = [] \<and> e = ''missing env var: JWT_SECRET''"
    by (rule MustLoad_Inl)
  show "MustLoadWithDB frac env name port = Inl e \<longleftrightarrow>
         env ''JWT_SECRET'' = [] \<and> e = ''missing env var: JWT_SECRET''
         \<or> env ''JWT_SECRET'' \<noteq> [] \<and> env ''DATABASE_URL'' = [] \<and> e = ''missing env var: DATABASE_URL''"
  proof (cases "MustLoad frac env name port")
    case (Inl x)
    with MustLoad_Inl [of frac env name port x] show ?thesis by (auto simp: MustLoadWithDB_def)
  next
    case (Inr c')
    with MustLoad_Inl [of frac env name port] MustLoad_Inr [OF Inr] show ?thesis by (auto simp: MustLoadWithDB_def)
  qed
qed

definition demo_service :: service where
  "demo_service = \<lparr>sv_name = ''fines'', sv_port = 8006, sv_database_url = ''postgres://x'', sv_redis_url = ''r'', sv_jwt_secret = ''s'',
     sv_access_ttl = 5 * minute_ns, sv_refresh_ttl = 24 * hour_ns, sv_audit_url = ''a'', sv_log_level = ''debug'',
     sv_default_tenant = ''no'', sv_default_locale = ''nb'', sv_default_country = ''NO''\<rparr>"

theorem config_reads_what_was_written_witness:
  "MustLoadWithDB (\<lambda>f un scale. f * un div scale) (env_of demo_service) ''fines'' 80 = Inr demo_service"
proof -
  have w: "writable demo_service" by (simp add: writable_def demo_service_def minute_ns_def hour_ns_def)
  have "sv_name demo_service = ''fines''" by (simp add: demo_service_def)
  with config_reads_what_was_written [OF w, of "\<lambda>f un scale. f * un div scale" 80] show ?thesis by simp
qed

section \<open>What the code does not do\<close>

text \<open>A lifetime with a sign is accepted: every token is then expired when it is issued.\<close>

lemma negative_lifetime_is_accepted:
  "ParseDuration frac (dur_text (- 5)) = Some (- 5)"
  "getDur frac (\<lambda>_. dur_text (- 5)) k def = - 5"
  by (simp_all add: ParseDuration_dur_text getDur_def)

text \<open>Written without a unit, or as \<open>30d\<close>, a lifetime is the default one, and nothing says so.\<close>

lemma unit_is_required: "getDur frac (\<lambda>_. ''900'') k def = def" "getDur frac (\<lambda>_. ''30d'') k def = def"
  by (simp_all add: getDur_def ParseDuration_def parse_terms.simps parse_term_def is_digit_def digit_of_def unit_ns_def Let_def)

end
