(* ===== verification/Stubs.thy ===== *)
theory Stubs
  imports Reaper FinesPay AnprApi
begin

text \<open>
  The development stubs the services are wired with: the object store
  (\<open>packages/go-common/contracts/storage/devstub.go\<close>), the payment provider
  (\<open>contracts/payments/devstub.go\<close>), the court (\<open>contracts/court/devstub.go\<close>), and the choice of a plate
  recogniser (\<open>contracts/anpr/factory.go\<close>). Random and clock draws, and the hex text of SHA-256, are
  arguments.
\<close>

section \<open>Object storage\<close>

record stored_object =
  so_bucket :: string
  so_key :: string
  so_content_type :: string
  so_size :: int
  so_sha256 :: string
  so_uploaded_at :: time
  so_body :: string

type_synonym stub_store = "string \<Rightarrow> stored_object option"

definition store_NewDevStub :: stub_store where
  "store_NewDevStub = Map.empty"

definition object_path :: "string \<Rightarrow> string \<Rightarrow> string" where
  "object_path bucket key = bucket @ ''/'' @ key"

definition object_of :: "(string \<Rightarrow> string) \<Rightarrow> time \<Rightarrow> string \<Rightarrow> string \<Rightarrow> string \<Rightarrow> string \<Rightarrow> stored_object" where
  "object_of sha now bucket key ct body =
     \<lparr>so_bucket = bucket, so_key = key, so_content_type = ct, so_size = int (length body), so_sha256 = sha body,
      so_uploaded_at = now, so_body = body\<rparr>"

text \<open>\<open>body\<close> is what reading the upload gives: \<open>None\<close> when it fails.\<close>

definition store_Put ::
    "(string \<Rightarrow> string) \<Rightarrow> time \<Rightarrow> string \<Rightarrow> string \<Rightarrow> string \<Rightarrow> string option \<Rightarrow> stub_store \<Rightarrow> (goerr + stored_object) \<times> stub_store" where
  "store_Put sha now bucket key ct body m =
     (case body of
        None \<Rightarrow> (Inl PlainError, m)
      | Some b \<Rightarrow> (Inr (object_of sha now bucket key ct b), m(object_path bucket key \<mapsto> object_of sha now bucket key ct b)))"

definition store_Get :: "string \<Rightarrow> string \<Rightarrow> stub_store \<Rightarrow> string + stored_object" where
  "store_Get bucket key m =
     (case m (object_path bucket key) of None \<Rightarrow> Inl ''storage: not found'' | Some v \<Rightarrow> Inr v)"

definition store_Delete :: "string \<Rightarrow> string \<Rightarrow> stub_store \<Rightarrow> string option \<times> stub_store" where
  "store_Delete bucket key m = (None, m(object_path bucket key := None))"

record presigned_put =
  pp_url :: string
  pp_method :: string
  pp_headers :: "(string \<times> string) list"
  pp_expires :: time

definition PresignPut :: "time \<Rightarrow> string \<Rightarrow> string \<Rightarrow> string \<Rightarrow> time \<Rightarrow> presigned_put" where
  "PresignPut now bucket key ct ttl =
     \<lparr>pp_url = ''memory://'' @ object_path bucket key, pp_method = ''PUT'', pp_headers = [(''Content-Type'', ct)], pp_expires = now + ttl\<rparr>"

section \<open>Payments\<close>

record stub_intent =
  sn_intent :: intent
  sn_amount :: money
  sn_currency :: string
  sn_created_at :: time

type_synonym stub_intents = "string \<Rightarrow> stub_intent option"

datatype pay_error = PayNotFound | SignatureInvalid

text \<open>\<open>draw\<close>: the hex text of 16 random bytes.\<close>

definition stub_intent_of :: "string \<Rightarrow> intent" where
  "stub_intent_of draw = \<lparr>pi_id = ''dev_'' @ draw, pi_status = Succeeded, pi_client_secret = []\<rparr>"

definition pay_CreateIntent :: "string \<Rightarrow> time \<Rightarrow> create_intent_input \<Rightarrow> stub_intents \<Rightarrow> intent \<times> stub_intents" where
  "pay_CreateIntent draw now inp m =
     (let it = \<lparr>sn_intent = stub_intent_of draw, sn_amount = ci_amount inp, sn_currency = ci_currency inp, sn_created_at = now\<rparr>
      in (sn_intent it, m(pi_id (sn_intent it) \<mapsto> it)))"

definition pay_GetIntent :: "string \<Rightarrow> stub_intents \<Rightarrow> pay_error + stub_intent" where
  "pay_GetIntent i m = (case m i of None \<Rightarrow> Inl PayNotFound | Some it \<Rightarrow> Inr it)"

text \<open>The amount to refund is not looked at.\<close>

definition pay_Refund :: "string \<Rightarrow> (money \<times> string) option \<Rightarrow> string \<Rightarrow> stub_intents \<Rightarrow> pay_error option \<times> stub_intents" where
  "pay_Refund i amount reason m =
     (case m i of
        None \<Rightarrow> (Some PayNotFound, m)
      | Some it \<Rightarrow> (None, m(i \<mapsto> it\<lparr>sn_intent := (sn_intent it)\<lparr>pi_status := Refunded\<rparr>\<rparr>)))"

definition pay_VerifyWebhook :: "(string \<times> string) list \<Rightarrow> string \<Rightarrow> pay_error + webhook_event" where
  "pay_VerifyWebhook hdrs body = Inl SignatureInvalid"

text \<open>The stub as the provider the fines service is given: what it answers to one call.\<close>

definition pay_DevStub :: "string \<Rightarrow> provider" where
  "pay_DevStub draw =
     \<lparr>pv_module = ''payments'', pv_name = ''dev-stub'', pv_region = [],
      pv_create_intent = (\<lambda>inp. Some (fst (pay_CreateIntent draw 0 inp Map.empty))),
      pv_verify_webhook = (\<lambda>hdrs body. case pay_VerifyWebhook hdrs body of Inl _ \<Rightarrow> None | Inr e \<Rightarrow> Some e)\<rparr>"

section \<open>The court, and the recogniser\<close>

record case_ref =
  cr_id :: string
  cr_court :: string
  cr_filed_at :: time
  cr_status :: string

text \<open>\<open>draw\<close>: the text of a fresh UUID.\<close>

definition court_File :: "string \<Rightarrow> time \<Rightarrow> case_ref" where
  "court_File draw now = \<lparr>cr_id = ''case_'' @ draw, cr_court = ''Demo Magistrate'', cr_filed_at = now, cr_status = ''filed''\<rparr>"

definition court_Status :: "string \<Rightarrow> time \<Rightarrow> case_ref" where
  "court_Status i now = \<lparr>cr_id = i, cr_court = ''Demo Magistrate'', cr_filed_at = now, cr_status = ''filed''\<rparr>"

text \<open>Which adapter runs, and with which settings; the environment answers the empty text for what is not set.\<close>

datatype recognizer_choice = UseDevStub | UseOpenALPR string string string

definition NewFromEnv :: "(string \<Rightarrow> string) \<Rightarrow> recognizer_choice" where
  "NewFromEnv env =
     (if env ''ANPR_PROVIDER'' = ''openalpr''
      then let key = env ''OPENALPR_SECRET_KEY'' in
        if key = [] then UseDevStub else UseOpenALPR (env ''OPENALPR_BASE_URL'') key (env ''OPENALPR_COUNTRY'')
      else UseDevStub)"

section \<open>A store keyed by bucket and key\<close>

text \<open>A history of a store: \<open>Some v\<close> writes \<open>v\<close> under the name, \<open>None\<close> deletes.\<close>

fun history :: "('n \<Rightarrow> 'w \<Rightarrow> 's \<Rightarrow> 's) \<Rightarrow> ('n \<Rightarrow> 's \<Rightarrow> 's) \<Rightarrow> ('n \<times> 'w option) list \<Rightarrow> 's \<Rightarrow> 's" where
  "history put remove [] s = s"
| "history put remove ((n, Some v) # ops) s = history put remove ops (put n v s)"
| "history put remove ((n, None) # ops) s = history put remove ops (remove n s)"

text \<open>
  The contract of \<open>storage.Store\<close>: what is found under a name after a write or a delete, for the names
  the store tells apart.
\<close>

locale keyed_store =
  fixes found :: "'n \<Rightarrow> 's \<Rightarrow> 'v option"
    and put :: "'n \<Rightarrow> 'w \<Rightarrow> 's \<Rightarrow> 's"
    and remove :: "'n \<Rightarrow> 's \<Rightarrow> 's"
    and stored :: "'n \<Rightarrow> 'w \<Rightarrow> 'v"
    and name_ok :: "'n \<Rightarrow> bool"
  assumes found_put: "name_ok n \<Longrightarrow> name_ok n' \<Longrightarrow> found n' (put n v s) = (if n' = n then Some (stored n v) else found n' s)"
    and found_remove: "name_ok n \<Longrightarrow> name_ok n' \<Longrightarrow> found n' (remove n s) = (if n' = n then None else found n' s)"
begin

lemma found_after:
  assumes "name_ok n'" and "list_all (\<lambda>op. name_ok (fst op)) ops"
  shows "found n' (history put remove ops s)
    = (case map_of (rev ops) n' of None \<Rightarrow> found n' s | Some x \<Rightarrow> map_option (stored n') x)"
  using assms(2)
proof (induction ops arbitrary: s)
  case (Cons op ops)
  obtain n x where op: "op = (n, x)" by (cases op)
  from Cons.prems have n: "name_ok n" and rest: "list_all (\<lambda>op. name_ok (fst op)) ops" by (simp_all add: op)
  show ?case
    using Cons.IH [OF rest] assms(1) n by (cases x) (auto simp: op found_put found_remove map_add_def split: option.splits)
qed simp

end

definition stub_found :: "string \<times> string \<Rightarrow> stub_store \<Rightarrow> stored_object option" where
  "stub_found n m = (case store_Get (fst n) (snd n) m of Inl _ \<Rightarrow> None | Inr v \<Rightarrow> Some v)"

text \<open>What is written under a name: content type, body, time.\<close>

definition stub_stored :: "(string \<Rightarrow> string) \<Rightarrow> string \<times> string \<Rightarrow> string \<times> string \<times> time \<Rightarrow> stored_object" where
  "stub_stored sha n v = object_of sha (snd (snd v)) (fst n) (snd n) (fst v) (fst (snd v))"

definition stub_write :: "(string \<Rightarrow> string) \<Rightarrow> string \<times> string \<Rightarrow> string \<times> string \<times> time \<Rightarrow> stub_store \<Rightarrow> stub_store" where
  "stub_write sha n v m = snd (store_Put sha (snd (snd v)) (fst n) (snd n) (fst v) (Some (fst (snd v))) m)"

definition stub_remove :: "string \<times> string \<Rightarrow> stub_store \<Rightarrow> stub_store" where
  "stub_remove n m = snd (store_Delete (fst n) (snd n) m)"

definition plain_bucket :: "string \<times> string \<Rightarrow> bool" where
  "plain_bucket n \<longleftrightarrow> CHR ''/'' \<notin> set (fst n)"

lemma object_path_inj:
  assumes "plain_bucket n" and "plain_bucket n'"
  shows "object_path (fst n) (snd n) = object_path (fst n') (snd n') \<longleftrightarrow> n = n'"
proof -
  have "takeWhile (\<lambda>c. c \<noteq> CHR ''/'') (object_path (fst m) (snd m)) = fst m" if "plain_bucket m" for m
  proof -
    from that have "\<And>c. c \<in> set (fst m) \<Longrightarrow> c \<noteq> CHR ''/''" by (auto simp: plain_bucket_def)
    then show ?thesis by (simp add: object_path_def takeWhile_append2)
  qed
  from this [OF assms(1)] this [OF assms(2)] show ?thesis by (cases n; cases n') (auto simp: object_path_def)
qed

interpretation stub: keyed_store stub_found "stub_write sha" stub_remove "stub_stored sha" plain_bucket
proof unfold_locales
  fix n n' v m
  assume "plain_bucket n" "plain_bucket n'"
  note inj = object_path_inj [OF this]
  show "stub_found n' (stub_write sha n v m) = (if n' = n then Some (stub_stored sha n v) else stub_found n' m)"
    using inj by (auto simp: stub_found_def stub_write_def stub_stored_def store_Get_def store_Put_def split: option.splits)
  show "stub_found n' (stub_remove n m) = (if n' = n then None else stub_found n' m)"
    using inj by (auto simp: stub_found_def stub_remove_def store_Get_def store_Delete_def split: option.splits)
qed

text \<open>
  The store refines a map from buckets and keys to objects. After any history of uploads and deletes in
  buckets whose names hold no \<open>/\<close>, reading a name gives the last object uploaded under it, with its
  content type, size, digest and time, or \<open>not found\<close> when it was never uploaded or deleted since.
  An upload whose body cannot be read changes nothing.
\<close>

theorem stub_store_refines_map:
  assumes "plain_bucket (b, k)" and "list_all (\<lambda>op. plain_bucket (fst op)) ops"
  shows "store_Get b k (history (stub_write sha) stub_remove ops store_NewDevStub)
      = (case map_of (rev ops) (b, k) of
           Some (Some v) \<Rightarrow> Inr (stub_stored sha (b, k) v)
         | _ \<Rightarrow> Inl ''storage: not found'')
    \<and> store_Put sha now b k ct None m = (Inl PlainError, m)"
proof -
  have empty: "stub_found n store_NewDevStub = None" for n by (simp add: stub_found_def store_NewDevStub_def store_Get_def)
  have "stub_found (b, k) (history (stub_write sha) stub_remove ops store_NewDevStub)
    = (case map_of (rev ops) (b, k) of None \<Rightarrow> None | Some x \<Rightarrow> map_option (stub_stored sha (b, k)) x)"
    using stub.found_after [OF assms, where s = store_NewDevStub and sha = sha]
    unfolding empty .
  then show ?thesis
    by (auto simp: stub_found_def store_Get_def store_Put_def split: option.splits)
qed

theorem stub_store_refines_map_witness:
  "store_Get ''e'' ''1'' (history (stub_write rev) stub_remove [((''e'', ''1''), Some (''image/png'', ''ab'', 4)), ((''e'', ''2''), None)] store_NewDevStub)
     = Inr \<lparr>so_bucket = ''e'', so_key = ''1'', so_content_type = ''image/png'', so_size = 2, so_sha256 = ''ba'', so_uploaded_at = 4, so_body = ''ab''\<rparr>"
proof -
  have p: "plain_bucket (''e'', ''1'')"
    "list_all (\<lambda>op. plain_bucket (fst op)) [((''e'', ''1''), Some (''image/png'', ''ab'', 4 :: time)), ((''e'', ''2''), None)]"
    by (simp_all add: plain_bucket_def)
  from stub_store_refines_map [OF p, where sha = rev] show ?thesis by (simp add: stub_stored_def object_of_def)
qed

text \<open>An intent is what it was created as, until it is refunded; other intents are not touched.\<close>

lemma intent_after_create:
  "pay_GetIntent i (snd (pay_CreateIntent draw now inp m))
     = (if i = ''dev_'' @ draw then Inr \<lparr>sn_intent = stub_intent_of draw, sn_amount = ci_amount inp, sn_currency = ci_currency inp, sn_created_at = now\<rparr>
        else pay_GetIntent i m)"
  by (simp add: pay_GetIntent_def pay_CreateIntent_def stub_intent_of_def Let_def)

lemma intent_after_refund:
  "pay_GetIntent i m = Inr it \<Longrightarrow>
     pay_GetIntent i (snd (pay_Refund i amount reason m)) = Inr (it\<lparr>sn_intent := (sn_intent it)\<lparr>pi_status := Refunded\<rparr>\<rparr>)"
  "i' \<noteq> i \<Longrightarrow> pay_GetIntent i' (snd (pay_Refund i amount reason m)) = pay_GetIntent i' m"
  by (auto simp: pay_GetIntent_def pay_Refund_def split: option.splits)

section \<open>What the code does not do\<close>

text \<open>Bucket \<open>a\<close>, key \<open>b/c\<close> and bucket \<open>a/b\<close>, key \<open>c\<close> are the same object.\<close>

lemma slash_in_bucket_aliases: "object_path ''a'' ''b/c'' = object_path ''a/b'' ''c''"
  by (simp add: object_path_def)

text \<open>A refund of a part is recorded as a refund of the whole, and an amount larger than the intent is taken too.\<close>

lemma refund_ignores_the_amount: "pay_Refund i amount reason m = pay_Refund i amount' reason' m"
  by (simp add: pay_Refund_def)

text \<open>
  As the fines service is wired, no webhook is ever accepted: one for the stub is refused 401, one for
  another provider 404, one that cannot be read 400.
\<close>

lemma wired_webhooks_are_refused:
  assumes "fa_pay a = pay_DevStub draw"
  shows "\<exists>e w'. handleWebhook a sur name hdrs body w = (Inl e, w')"
  using assms
  by (auto simp: handleWebhook_def pay_DevStub_def pay_VerifyWebhook_def hm_fail_def andthen_def bind_def stop_def emit_def ret_def split: option.splits)

text \<open>
  The reaper is given a store of its own process (\<open>cmd/server/main.go:56\<close>) that nobody uploads to, and
  its \<open>Delete\<close> never fails: evidence is sealed as deleted while the object stays where it is.
\<close>

lemma wired_reaper_deletes_nothing:
  "store_Delete bucket key store_NewDevStub = (None, store_NewDevStub)"
  by (simp add: store_Delete_def store_NewDevStub_def)

end
