(* ===== verification/Jobs.thy ===== *)
theory Jobs
  imports FinesMux Outbox Rollup Anpr Inspection Notifications Packs
begin

text \<open>
  The background loops of the services: every \<open>Run\<close> waits for its ticker or for the end of its context,
  and runs its step at each tick. The other theories model the steps; here they are put on their loops,
  and the relay's loop is shown to empty the outbox.

  A loop is given what its \<open>select\<close> sees, one wake after the other: a tick, with the surroundings the step
  then runs in, or the end of the context. A list that ends without the latter leaves the loop waiting.
  The error of a step is logged and dropped.
\<close>

section \<open>Loops\<close>

datatype 'i wake = Fired 'i | CtxDone

text \<open>Whether the loop has returned, and the state it leaves.\<close>

fun ticker_loop :: "('i \<Rightarrow> 'w \<Rightarrow> 'w) \<Rightarrow> 'i wake list \<Rightarrow> 'w \<Rightarrow> bool \<times> 'w" where
  "ticker_loop step [] w = (False, w)"
| "ticker_loop step (CtxDone # wakes) w = (True, w)"
| "ticker_loop step (Fired i # wakes) w = ticker_loop step wakes (step i w)"

definition relay_Run :: "(envelope \<Rightarrow> bool) \<Rightarrow> time wake list \<Rightarrow> (bus_db, bus_effect) world \<Rightarrow> bool \<times> (bus_db, bus_effect) world" where
  "relay_Run publish = ticker_loop (\<lambda>now w. snd (relay_tick publish 100 now w))"

definition consumer_Run :: "consumer \<Rightarrow> unit wake list \<Rightarrow> (bus_db, bus_effect) world \<Rightarrow> bool \<times> (bus_db, bus_effect) world" where
  "consumer_Run c = ticker_loop (\<lambda>_ w. snd (tick c w))"

text \<open>Escalation and rollup sweep once before they wait; the reaper waits first.\<close>

definition escalation_Run :: "dbrole \<Rightarrow> surroundings \<Rightarrow> surroundings wake list \<Rightarrow> dbworld \<Rightarrow> bool \<times> dbworld" where
  "escalation_Run role sur wakes w =
     ticker_loop (\<lambda>sur w. snd (Escalation.RunOnce role sur w)) wakes (snd (Escalation.RunOnce role sur w))"

definition rollup_Run :: "float_lib \<Rightarrow> dbrole \<Rightarrow> surroundings \<Rightarrow> surroundings wake list \<Rightarrow> dbworld \<Rightarrow> bool \<times> dbworld" where
  "rollup_Run lib role sur wakes w =
     ticker_loop (\<lambda>sur w. snd (Rollup.RunOnce lib role sur w)) wakes (snd (Rollup.RunOnce lib role sur w))"

definition reaper_Run :: "dbrole \<Rightarrow> object_store \<Rightarrow> surroundings wake list \<Rightarrow> dbworld \<Rightarrow> bool \<times> dbworld" where
  "reaper_Run role delete = ticker_loop (\<lambda>sur w. snd (reap role delete sur w))"

definition anpr_Run :: "anpr_worker \<Rightarrow> surroundings wake list \<Rightarrow> dbworld \<Rightarrow> bool \<times> dbworld" where
  "anpr_Run a = ticker_loop (\<lambda>sur w. snd (anpr_tick a sur w))"

definition insurance_Run :: "policy verify_svc \<Rightarrow> surroundings wake list \<Rightarrow> dbworld \<Rightarrow> bool \<times> dbworld" where
  "insurance_Run v = ticker_loop (\<lambda>sur w. snd (insurance_tick v sur w))"

definition inspection_Run :: "inspection verify_svc \<Rightarrow> surroundings wake list \<Rightarrow> dbworld \<Rightarrow> bool \<times> dbworld" where
  "inspection_Run v = ticker_loop (\<lambda>sur w. snd (inspection_tick v sur w))"

definition notifications_Run :: "notifier \<Rightarrow> surroundings wake list \<Rightarrow> dbworld \<Rightarrow> bool \<times> dbworld" where
  "notifications_Run n = ticker_loop (\<lambda>sur w. snd (notify_tick n sur w))"

text \<open>The loader of packs reloads at once and then at each tick; a wake carries the time, and where the rows break off.\<close>

definition loader_step_at :: "pack_lib \<Rightarrow> dbrole \<Rightarrow> time \<times> nat option \<Rightarrow> loader \<times> (packs_db, unit) world \<Rightarrow> loader \<times> (packs_db, unit) world" where
  "loader_step_at lib role i s =
     (case reload lib role (fst i) (snd i) (snd s) of (res, w') \<Rightarrow> (after_reload (fst s) res, w'))"

definition loader_Run ::
    "pack_lib \<Rightarrow> dbrole \<Rightarrow> time \<times> nat option \<Rightarrow> (time \<times> nat option) wake list \<Rightarrow> loader \<times> (packs_db, unit) world \<Rightarrow> bool \<times> loader \<times> (packs_db, unit) world" where
  "loader_Run lib role i wakes s = ticker_loop (loader_step_at lib role) wakes (loader_step_at lib role i s)"

text \<open>The two consumers of events the services run: the license service's and the audit service's.\<close>

definition demerit_consumer :: consumer where
  "demerit_consumer = OnlyTypes [TypeFineIssued] (NewConsumer ''license-demerit'')"

definition anpralerts_consumer :: consumer where
  "anpralerts_consumer = OnlyTypes [TypeAnprAlert] (NewConsumer ''audit-anpr-alerts'')"

lemma consumers_apart: "inj_on cn_name {demerit_consumer, anpralerts_consumer}"
  by (simp add: demerit_consumer_def anpralerts_consumer_def OnlyTypes_def NewConsumer_def)

section \<open>A loop is its steps\<close>

fun fired :: "'i wake list \<Rightarrow> 'i list" where
  "fired [] = []"
| "fired (CtxDone # wakes) = []"
| "fired (Fired i # wakes) = i # fired wakes"

lemma ticker_loop_fold: "ticker_loop step wakes w = (CtxDone \<in> set wakes, fold step (fired wakes) w)"
  by (induction step wakes w rule: ticker_loop.induct) simp_all

lemma ticker_loop_inv:
  assumes "P w" and "\<And>i w. P w \<Longrightarrow> P (step i w)"
  shows "P (snd (ticker_loop step wakes w))"
  using assms by (induction step wakes w rule: ticker_loop.induct) auto

text \<open>The loader on its loop is a run of the transition system of \<open>Packs\<close>: it serves accepted packs only.\<close>

lemma loader_step_at_step: "loader_step lib role (w, l) (snd (loader_step_at lib role i (l, w)), fst (loader_step_at lib role i (l, w)))"
  by (auto simp: loader_step_at_def split: prod.split intro: loader_step.reloaded)

lemma loader_Run_serves_accepted:
  assumes "snd (loader_Run lib role i wakes (NewLoader, w)) = (l, w')" and "loader_For l ten = Some p"
  shows "\<exists>b. ParseManifest lib b = Inr p"
proof -
  let ?P = "\<lambda>s. (loader_step lib role)\<^sup>*\<^sup>* (w, NewLoader) (snd s, fst s)"
  have step: "?P (loader_step_at lib role j s)" if "?P s" for j s
    using that loader_step_at_step [of lib role "snd s" "fst s" j] by (cases s) (auto intro: rtranclp.rtrancl_into_rtrancl)
  have "?P (loader_step_at lib role i (NewLoader, w))" by (rule step) simp
  from ticker_loop_inv [where P = ?P and step = "loader_step_at lib role" and wakes = wakes, OF this] step
  have "?P (snd (loader_Run lib role i wakes (NewLoader, w)))" unfolding loader_Run_def by blast
  with assms(1) have "(loader_step lib role)\<^sup>*\<^sup>* (w, NewLoader) (w', l)" by simp
  from loader_steps_valid [OF this] assms(2) show ?thesis by simp
qed

section \<open>A tick of the relay without faults\<close>

definition pending :: "bus_db \<Rightarrow> outbox_row list" where
  "pending d = sort_key ob_created_at (filter (\<lambda>r. ob_delivered_at r = None) (bd_outbox d))"

lemma undelivered_pending: "undelivered n d = take n (pending d)"
  by (simp add: undelivered_def pending_def)

lemma distinct_pending: "distinct (map ob_id (bd_outbox d)) \<Longrightarrow> distinct (map ob_id (pending d))"
  by (auto simp: pending_def distinct_map inj_on_def)

lemma pending_mark: "pending (mark_delivered i now d) = filter (\<lambda>r. ob_id r \<noteq> i) (pending d)"
proof -
  have "filter (\<lambda>r. ob_delivered_at r = None) (map (\<lambda>r. if ob_id r = i then r\<lparr>ob_delivered_at := Some now\<rparr> else r) rs)
      = filter (\<lambda>r. ob_id r \<noteq> i) (filter (\<lambda>r. ob_delivered_at r = None) rs)" for rs :: "outbox_row list"
    by (induction rs) auto
  then show ?thesis by (simp add: pending_def mark_delivered_def filter_sort)
qed

definition takes :: "(envelope \<Rightarrow> bool) \<Rightarrow> outbox_row \<Rightarrow> bool" where
  "takes publish r \<longleftrightarrow> (case ob_body r of None \<Rightarrow> False | Some env \<Rightarrow> publish env)"

definition publication :: "outbox_row \<Rightarrow> bus_effect" where
  "publication r = Published (the (ob_body r))"

lemma mark_keeps_ids [simp]: "map ob_id (bd_outbox (mark_delivered i now d)) = map ob_id (bd_outbox d)"
  by (simp add: mark_delivered_def)

lemma relay_row_healthy:
  assumes "healthy w" and "takes publish r"
  shows "relay_row publish now r w = (Inr (), w\<lparr>w_log := w_log w @ [publication r], w_db := mark_delivered (ob_id r) now (w_db w)\<rparr>)"
  using assms exec_change_ok [of "w\<lparr>w_log := w_log w @ [publication r]\<rparr>" "\<lambda>_. Some PlainError" "mark_delivered (ob_id r) now"]
  by (auto simp: relay_row_def takes_def publication_def andthen_def bind_def emit_def split: option.splits)

lemma relay_rows_healthy:
  assumes "healthy w" and "list_all (takes publish) rows"
  obtains w' where "for_each (relay_row publish now) rows w = (Inr (), w')" "healthy w'" "w_snap w' = w_snap w"
    "w_log w' = w_log w @ map publication rows" "pending (w_db w') = filter (\<lambda>r. ob_id r \<notin> ob_id ` set rows) (pending (w_db w))"
    "map ob_id (bd_outbox (w_db w')) = map ob_id (bd_outbox (w_db w))"
  using assms
proof (induction rows arbitrary: w thesis)
  case Nil
  then show ?case by (auto simp: ret_def)
next
  case (Cons r rows)
  let ?w1 = "w\<lparr>w_log := w_log w @ [publication r], w_db := mark_delivered (ob_id r) now (w_db w)\<rparr>"
  from Cons.prems have h: "healthy ?w1" and rest: "list_all (takes publish) rows" by simp_all
  from Cons.prems relay_row_healthy [of w publish r now] have first: "relay_row publish now r w = (Inr (), ?w1)" by simp
  obtain w' where w': "for_each (relay_row publish now) rows ?w1 = (Inr (), w')" "healthy w'" "w_snap w' = w_snap ?w1"
    "w_log w' = w_log ?w1 @ map publication rows" "pending (w_db w') = filter (\<lambda>r. ob_id r \<notin> ob_id ` set rows) (pending (w_db ?w1))"
    "map ob_id (bd_outbox (w_db w')) = map ob_id (bd_outbox (w_db ?w1))"
    using Cons.IH [OF _ h rest] by blast
  show ?case
  proof (rule Cons.prems(1))
    show "for_each (relay_row publish now) (r # rows) w = (Inr (), w')"
      using w'(1) by (simp add: andthen_ok [where m = "relay_row publish now r", OF first])
    show "pending (w_db w') = filter (\<lambda>x. ob_id x \<notin> ob_id ` set (r # rows)) (pending (w_db w))"
      using w'(5) by (simp add: pending_mark conj_commute)
  qed (use w' in simp_all)
qed

lemma relay_tick_healthy:
  assumes w: "healthy w" "w_snap w = None" and d: "distinct (map ob_id (bd_outbox (w_db w)))" and ok: "list_all (takes publish) (pending (w_db w))"
  obtains w' where "snd (relay_tick publish n now w) = w'" "healthy w'" "w_snap w' = None"
    "w_log w' = w_log w @ map publication (take n (pending (w_db w)))" "pending (w_db w') = drop n (pending (w_db w))"
    "map ob_id (bd_outbox (w_db w')) = map ob_id (bd_outbox (w_db w))"
proof -
  let ?p = "pending (w_db w)" and ?w1 = "w\<lparr>w_snap := Some (w_db w), w_save := None\<rparr>"
  have tick: "relay_tick publish n now w = in_tx (Some PlainError) (relay_tx publish n now) w"
    by (simp add: relay_tick_def andthen_ok [where m = "exec_or (\<lambda>_. Some PlainError) (query (\<lambda>_. ()))", OF exec_query_ok [OF w(1)]])
  have h1: "healthy ?w1" using w(1) by simp
  have body: "relay_tx publish n now ?w1 = andthen (guard (take n ?p \<noteq> []) None) (for_each (relay_row publish now) (take n ?p)) ?w1"
    unfolding relay_tx_def
    by (subst bind_ok [where m = "exec_or (\<lambda>_. Some PlainError) (query (undelivered n))", OF exec_query_ok [OF h1]]) (simp add: undelivered_pending)
  have tx: "relay_tx publish n now ?w1 = (if take n ?p = [] then (Inl None, ?w1) else for_each (relay_row publish now) (take n ?p) ?w1)"
    by (simp add: body andthen_def bind_def guard_def stop_def ret_def del: take_eq_Nil)
  show thesis
  proof (cases "take n ?p = []")
    case True
    with tx have "relay_tx publish n now ?w1 = (Inl None, ?w1)" by simp
    from in_tx_stopped [where body = "relay_tx publish n now" and k = "Some PlainError", OF w this, of "w_db w"] True w show thesis
      by (intro that [of "w\<lparr>w_db := w_db w, w_snap := None, w_save := None, w_aborted := False\<rparr>"])
        (auto simp: tick healthy_def)
  next
    case False
    from ok have "list_all (takes publish) (take n ?p)" by (auto simp: list_all_iff dest: in_set_takeD)
    from relay_rows_healthy [OF h1 this, of now] obtain w2 where
      run: "for_each (relay_row publish now) (take n ?p) ?w1 = (Inr (), w2)" and w2: "healthy w2" "w_snap w2 = w_snap ?w1"
        "w_log w2 = w_log ?w1 @ map publication (take n ?p)"
        "pending (w_db w2) = filter (\<lambda>r. ob_id r \<notin> ob_id ` set (take n ?p)) (pending (w_db ?w1))"
        "map ob_id (bd_outbox (w_db w2)) = map ob_id (bd_outbox (w_db ?w1))" by blast
    have "distinct (map ob_id (take n ?p @ drop n ?p))" using distinct_pending [OF d] by simp
    then have dis: "ob_id ` set (take n ?p) \<inter> ob_id ` set (drop n ?p) = {}"
      unfolding map_append distinct_append by simp
    have "filter (\<lambda>r. ob_id r \<notin> ob_id ` set (take n ?p)) (take n ?p @ drop n ?p) = drop n ?p"
      using dis by (auto simp: filter_empty_conv filter_id_conv simp del: append_take_drop_id)
    with w2(4) have left: "pending (w_db w2) = drop n ?p" by simp
    from in_tx_ok [where body = "relay_tx publish n now" and k = "Some PlainError", OF w, of "()" w2] tx run False w2 left show thesis
      by (intro that [of "w2\<lparr>w_snap := None, w_save := None\<rparr>"]) (simp_all add: tick)
  qed
qed

section \<open>The relay empties the outbox\<close>

text \<open>C13
  The relay's loop delivers everything, once and in order. Where no statement fails and the bus takes
  every waiting envelope, as many ticks as there are batches of a hundred rows leave no row undelivered;
  what was published meanwhile is exactly the waiting envelopes, each once, oldest first; and the loop
  goes on waiting.
\<close>

theorem relay_empties_the_outbox:
  assumes "healthy w" and "w_snap w = None" and "distinct (map ob_id (bd_outbox (w_db w)))"
    and "list_all (takes publish) (pending (w_db w))" and "length (pending (w_db w)) \<le> 100 * length ts"
  shows "\<exists>w'. relay_Run publish (map Fired ts) w = (False, w') \<and> undelivered n (w_db w') = []
    \<and> w_log w' = w_log w @ map publication (pending (w_db w))"
  using assms unfolding relay_Run_def
proof (induction ts arbitrary: w)
  case Nil
  then show ?case by (simp add: undelivered_pending)
next
  case (Cons now ts)
  obtain w1 where w1: "snd (relay_tick publish 100 now w) = w1" "healthy w1" "w_snap w1 = None"
    "w_log w1 = w_log w @ map publication (take 100 (pending (w_db w)))" "pending (w_db w1) = drop 100 (pending (w_db w))"
    "map ob_id (bd_outbox (w_db w1)) = map ob_id (bd_outbox (w_db w))"
    using relay_tick_healthy [OF Cons.prems(1-4), of 100 now] by blast
  have "list_all (takes publish) (pending (w_db w1))"
    using Cons.prems(4) w1(5) by (auto simp: list_all_iff dest: in_set_dropD)
  from Cons.IH [OF w1(2,3) _ this] Cons.prems(3,5) w1(5,6) obtain w' where
    w': "ticker_loop (\<lambda>now w. snd (relay_tick publish 100 now w)) (map Fired ts) w1 = (False, w')" "undelivered n (w_db w') = []"
    "w_log w' = w_log w1 @ map publication (pending (w_db w1))" by (auto simp: le_diff_conv)
  have "w_log w' = w_log w @ map publication (take 100 (pending (w_db w)) @ drop 100 (pending (w_db w)))"
    unfolding w'(3) w1(4,5) map_append append_assoc ..
  with w'(1,2) w1(1) show ?case by simp
qed

theorem relay_empties_the_outbox_witness:
  "\<exists>w'. relay_Run (\<lambda>_. True) [Fired 5] (demo_bus [Outbox.demo_event 2 TypeFinePaid, Outbox.demo_event 1 TypeFineIssued]) = (False, w')
    \<and> undelivered 100 (w_db w') = []
    \<and> w_log w' = [publication (Outbox.demo_event 1 TypeFineIssued), publication (Outbox.demo_event 2 TypeFinePaid)]"
proof -
  let ?w = "demo_bus [Outbox.demo_event 2 TypeFinePaid, Outbox.demo_event 1 TypeFineIssued]"
  have "healthy ?w" "w_snap ?w = None" "distinct (map ob_id (bd_outbox (w_db ?w)))" "w_log ?w = []"
    by (simp_all add: healthy_def demo_bus_def Outbox.demo_event_def)
  moreover have "pending (w_db ?w) = [Outbox.demo_event 1 TypeFineIssued, Outbox.demo_event 2 TypeFinePaid]"
    by (simp add: pending_def demo_bus_def Outbox.demo_event_def)
  moreover have "takes (\<lambda>_. True) (Outbox.demo_event i ty)" for i ty by (simp add: takes_def Outbox.demo_event_def)
  ultimately show ?thesis using relay_empties_the_outbox [of ?w "\<lambda>_. True" "[5]" 100] by simp
qed

section \<open>What the loops do not do\<close>

text \<open>
  A batch of rows that the bus refuses, or that do not decode, blocks the relay: each tick reads the same
  oldest rows again, and what waits behind them is never published. The attempts are counted, but
  nothing looks at them.
\<close>

definition gist :: "outbox_row \<Rightarrow> int \<times> envelope option" where
  "gist r = (ob_id r, ob_body r)"

lemma sort_key_map: "sort_key f (map h xs) = map h (sort_key (\<lambda>x. f (h x)) xs)"
proof (induction xs)
  case (Cons x xs)
  have "insort_key f (h x) (map h ys) = map h (insort_key (\<lambda>x. f (h x)) x ys)" for ys by (induction ys) simp_all
  with Cons show ?case by simp
qed simp

lemma gist_bump: "map gist (pending (bump_attempts i d)) = map gist (pending d)"
proof -
  let ?h = "\<lambda>r. if ob_id r = i then r\<lparr>ob_attempts := ob_attempts r + 1\<rparr> else r"
  have key: "(\<lambda>r. ob_created_at (?h r)) = ob_created_at" and late: "ob_delivered_at (?h r) = ob_delivered_at r"
    and gist: "gist (?h r) = gist r" for r :: outbox_row by (auto simp: gist_def)
  have "pending (bump_attempts i d) = map ?h (pending d)"
    unfolding pending_def bump_attempts_def by (simp add: filter_map comp_def late sort_key_map key)
  then show ?thesis by (simp add: gist)
qed

lemma refused_row:
  assumes "healthy w" and "\<not> takes publish r"
  shows "relay_row publish now r w = (Inr (), w\<lparr>w_db := bump_attempts (ob_id r) (w_db w)\<rparr>)"
proof -
  have "relay_row publish now r w = bind (exec_try (change (bump_attempts (ob_id r)))) (\<lambda>_. ret ()) w"
    using assms(2) by (auto simp: relay_row_def takes_def split: option.splits)
  moreover from assms(1) have "w\<lparr>w_faults := []\<rparr> = w" by (cases w) (simp add: healthy_def)
  ultimately show ?thesis using assms(1)
    by (cases w) (simp add: bind_def exec_try_def change_def ret_def Let_def healthy_def)
qed

lemma refused_rows:
  assumes "healthy w" and "list_all (\<lambda>r. \<not> takes publish r) rows"
  obtains w' where "for_each (relay_row publish now) rows w = (Inr (), w')" "healthy w'" "w_snap w' = w_snap w"
    "w_log w' = w_log w" "map gist (pending (w_db w')) = map gist (pending (w_db w))"
  using assms
proof (induction rows arbitrary: w thesis)
  case Nil
  then show ?case by (auto simp: ret_def)
next
  case (Cons r rows)
  let ?w1 = "w\<lparr>w_db := bump_attempts (ob_id r) (w_db w)\<rparr>"
  from Cons.prems have h: "healthy ?w1" and rest: "list_all (\<lambda>r. \<not> takes publish r) rows" by simp_all
  from Cons.prems refused_row [of w publish r now] have first: "relay_row publish now r w = (Inr (), ?w1)" by simp
  obtain w' where w': "for_each (relay_row publish now) rows ?w1 = (Inr (), w')" "healthy w'" "w_snap w' = w_snap ?w1"
    "w_log w' = w_log ?w1" "map gist (pending (w_db w')) = map gist (pending (w_db ?w1))"
    using Cons.IH [OF _ h rest] by blast
  show ?case
  proof (rule Cons.prems(1))
    show "for_each (relay_row publish now) (r # rows) w = (Inr (), w')"
      using w'(1) by (simp add: andthen_ok [where m = "relay_row publish now r", OF first])
  qed (use w' in \<open>simp_all add: gist_bump\<close>)
qed

lemma blocked_tick:
  assumes w: "healthy w" "w_snap w = None" and bad: "list_all (\<lambda>r. \<not> takes publish r) (undelivered n (w_db w))" "undelivered n (w_db w) \<noteq> []"
  obtains w' where "snd (relay_tick publish n now w) = w'" "healthy w'" "w_snap w' = None"
    "w_log w' = w_log w" "map gist (pending (w_db w')) = map gist (pending (w_db w))"
proof -
  let ?w1 = "w\<lparr>w_snap := Some (w_db w), w_save := None\<rparr>"
  have h1: "healthy ?w1" using w(1) by simp
  have tick: "relay_tick publish n now w = in_tx (Some PlainError) (relay_tx publish n now) w"
    by (simp add: relay_tick_def andthen_ok [where m = "exec_or (\<lambda>_. Some PlainError) (query (\<lambda>_. ()))", OF exec_query_ok [OF w(1)]])
  obtain w2 where w2: "for_each (relay_row publish now) (undelivered n (w_db w)) ?w1 = (Inr (), w2)" "healthy w2" "w_snap w2 = w_snap ?w1"
    "w_log w2 = w_log ?w1" "map gist (pending (w_db w2)) = map gist (pending (w_db ?w1))"
    using refused_rows [OF h1 bad(1), of now] by blast
  have "relay_tx publish n now ?w1 = (Inr (), w2)"
    unfolding relay_tx_def
    by (subst bind_ok [where m = "exec_or (\<lambda>_. Some PlainError) (query (undelivered n))", OF exec_query_ok [OF h1]])
      (simp add: bad(2) guard_def ret_def andthen_def bind_def w2(1))
  from in_tx_ok [where body = "relay_tx publish n now" and k = "Some PlainError", OF w this w2(2)] w2 show thesis
    by (intro that [of "w2\<lparr>w_snap := None, w_save := None\<rparr>"]) (simp_all add: tick)
qed

lemma refused_batch_blocks_the_relay:
  assumes "healthy w" and "w_snap w = None" and "undelivered 100 (w_db w) \<noteq> []"
    and "list_all (\<lambda>r. \<not> takes publish r) (undelivered 100 (w_db w))"
  shows "w_log (snd (relay_Run publish (map Fired ts) w)) = w_log w
    \<and> map gist (pending (w_db (snd (relay_Run publish (map Fired ts) w)))) = map gist (pending (w_db w))"
  using assms unfolding relay_Run_def
proof (induction ts arbitrary: w)
  case (Cons now ts)
  obtain w1 where w1: "snd (relay_tick publish 100 now w) = w1" "healthy w1" "w_snap w1 = None" "w_log w1 = w_log w"
    "map gist (pending (w_db w1)) = map gist (pending (w_db w))"
    using blocked_tick [OF Cons.prems(1,2,4,3), of now] by blast
  have takes: "takes publish r = (case snd (gist r) of None \<Rightarrow> False | Some env \<Rightarrow> publish env)" for r
    by (simp add: takes_def gist_def)
  from w1(5) have same: "map gist (undelivered 100 (w_db w1)) = map gist (undelivered 100 (w_db w))"
    by (simp add: undelivered_pending flip: take_map)
  have by_gist: "list_all (\<lambda>r. \<not> takes publish r) rs
      = list_all (\<lambda>g. \<not> (case snd g of None \<Rightarrow> False | Some env \<Rightarrow> publish env)) (map gist rs)" for rs
    by (simp add: list_all_iff takes)
  have "undelivered 100 (w_db w1) \<noteq> []" "list_all (\<lambda>r. \<not> takes publish r) (undelivered 100 (w_db w1))"
    using Cons.prems(3,4) same unfolding by_gist by auto
  from Cons.IH [OF w1(2,3) this] w1(1,4,5) show ?case by simp
qed simp

text \<open>
  The reaper does nothing before its first tick, six hours after the start: a service restarted more often
  than that never seals anything. The other sweeps run once at once.
\<close>

lemma restarted_reaper_never_sweeps: "reaper_Run role delete [CtxDone] w = (True, w)"
  by (simp add: reaper_Run_def)

end
