(* ===== verification/Spec2Isabelle.thy ===== *)
theory Spec2Isabelle
  imports FinesMux Outbox Bus Pool RegistryMux LicenseMux AuditLog AuthService AlertLife AuditMux AnprApi Inspection Gateway NotifyApi Packs
    Server Config Stubs Jobs
begin

text \<open>
  NADITOS, a multi-tenant platform for traffic enforcement: officers issue fines against vehicles
  and drivers, citizens pay, dispute and transfer, courts resolve. It is a set of Go services over
  one Postgres database whose tables carry a tenant and are protected by row-level security.

  \<^bold>\<open>The parts and how they interact.\<close> Every request carries a JWT made by the auth service; the
  middleware checks it and hands the claims to the handler, which opens a connection for the tenant
  of the claims and runs its statements in a transaction. Changes other services care about are
  written to an outbox table in the same transaction; consumers poll it (the license service's
  demerit engine is one) and a relay publishes it. Background jobs escalate unpaid fines and seal
  expired evidence. An audit service chains events by their digests, rolls the fines up into
  statistics of the officers and keeps alerts. The gateway in front checks tokens and rates and hands
  each request to its service. Cameras and officers queue scans of plates; a worker matches them with
  the registry and tells the audit service of flagged vehicles. Insurance and inspection of vehicles
  are looked up at outside bureaus, through a queue that retries. A consumer of the outbox turns events
  into messages to the people they concern.

  \<^bold>\<open>The library.\<close>
  \<^item> \<open>Prelude\<close>: base types (time in microseconds, money in hundredths), list lemmas, collections.
  \<^item> \<open>Handler\<close>: how a handler runs (\<open>packages/go-common/httpx\<close>, \<open>db.InTx\<close>): responses and errors,
    statements, transactions with rollback, savepoints, sequences, injected faults (a list of
    flags, one per statement to come), and the log of effects outside the database. The locale
    \<open>frame\<close> is the contract of a frame condition, interpreted for: the transaction is kept, the
    database is only read, a part of it is not written (isolation), the log grows, an invariant is
    kept step by step or between transactions. \<open>stops_with\<close>, \<open>atomic\<close> and \<open>healthy\<close> say how a handler
    refuses, that a refusal leaves no trace, and how a run without faults goes.
  \<^item> \<open>Rls\<close>: row-level security (\<open>db/migrations\<close>): what a session sees, updates and inserts, and that
    a session of one tenant leaves the rows of the others alone.
  \<^item> \<open>Auth\<close>: claims, signing and parsing, the middleware and the permission guards
    (\<open>packages/go-common/auth\<close>), the connection of a tenant (\<open>db.WithTenant\<close>).
  \<^item> \<open>Texts\<close>: numbers as texts and back, with the round trip of \<open>strconv.Atoi\<close>.
  \<^item> \<open>Pool\<close>: the pooled connections of \<open>packages/go-common/db\<close> as a transition system: the session a
    request's statements run in is that of its own claims, as the other theories take it to be.
  \<^item> \<open>Events\<close>: envelopes and payloads (\<open>packages/go-common/events\<close>, \<open>observability/events.go\<close>).
  \<^item> \<open>Schema\<close>: one record per table row, the database, and what belongs to a tenant (\<open>outside\<close>).

  \<^bold>\<open>The components.\<close>
  \<^item> Fines (\<open>services/fines\<close>): \<open>FinesTypes\<close> (requests and answers), \<open>FinesIssue\<close> (\<open>issue\<close> with its
    duplicate check, evidence and custody rows), \<open>FinesRead\<close>, \<open>FinesPay\<close> (payment and the provider's
    webhook), \<open>FinesDispute\<close> (dispute, verdict, cancellation), \<open>Escalation\<close> (\<open>escalation/engine.go\<close>),
    \<open>Reaper\<close> (\<open>reaper/reaper.go\<close>), \<open>FinesMux\<close> (routes; the service with its jobs as a transition
    system, with custody of evidence as the invariant).
  \<^item> Outbox (\<open>events/outbox.go\<close>, \<open>consumer.go\<close>, \<open>inproc.go\<close>): \<open>Outbox\<close>, writer, relay and consumers as
    a transition system: no wanted event at or below an offset was missed. \<open>Bus\<close>: the two publishers
    (\<open>nats.go\<close>, \<open>inproc.go\<close>) behind one interface, a locale interpreted for the choice between them.
  \<^item> Registry (\<open>services/registry\<close>): \<open>Registry\<close> (vehicles, plates, flags), \<open>Owners\<close>, \<open>Transfers\<close> (the
    two-step change of title), \<open>RegistryMux\<close> (routes, life cycle of a transfer as the invariant).
  \<^item> License (\<open>services/license\<close>): \<open>Demerit\<close> (the engine, refined against its specification),
    \<open>License\<close> (records, endorsements, suspensions), \<open>Base64\<close>, \<open>LicenseToken\<close> (the signed bundle),
    \<open>LicenseSelf\<close> (the citizen's view and the field check), \<open>LicenseMux\<close> (routes; open suspensions show).
  \<^item> Audit (\<open>services/audit\<close>): \<open>AuditLog\<close>, the hash-chained log; \<open>Alerts\<close> (the table of alerts, the
    consumer of recognition alerts, listing and resolving), \<open>Rollup\<close> (the sweep of
    \<open>rollup/rollup.go\<close> and the officers' endpoints), \<open>AlertLife\<close> (alerts as a transition system, and the
    way of a flagged vehicle from the camera to the alert), \<open>AuditMux\<close> (routes, and who writes the log).
  \<^item> Auth (\<open>services/auth\<close>): \<open>AuthService\<close>, login, refresh, logout and the creation of users.
  \<^item> Gateway (\<open>services/gateway/internal/proxy\<close>): \<open>Gateway\<close>, the route table, the checks at the edge
    and the rate limits, refined against one bucket per tenant and prefix.
  \<^item> ANPR (\<open>services/anpr-gateway\<close>, \<open>contracts/anpr\<close>): \<open>Anpr\<close> (normalisation of plates and the worker),
    \<open>AnprApi\<close> (endpoints and the OpenALPR adapter).
  \<^item> Outside bureaus (\<open>packages/go-common/connectors\<close>, \<open>services/insurance\<close>, \<open>services/inspection\<close>):
    \<open>Queues\<close> (the contract of a queue whose jobs use up attempts: a locale, interpreted for the scan
    queue, the retry queue and the two workers on it), \<open>Connectors\<close> (router of providers, health table,
    retry queue), \<open>Insurance\<close>, \<open>Inspection\<close>.
  \<^item> Notifications (\<open>services/notifications\<close>): \<open>Notifications\<close> (the consumer, who is told what),
    \<open>NotifyApi\<close> (sending, the citizen's inbox, the history).
  \<^item> Regulation packs (\<open>packages/go-common/regulation\<close>): \<open>Packs\<close>, what a pack must look like, and the
    cache of the tenants' packs under reloads that fail or break off.
  \<^item> \<open>Jobs\<close>: the loops (\<open>Run\<close>) that put the steps of the jobs on their tickers; the relay's empties the outbox.
  \<^item> Around every service: \<open>Config\<close> (\<open>config/config.go\<close>: the environment and its defaults, with the
    parser of durations), \<open>Server\<close> (\<open>server/server.go\<close>, \<open>observability/middleware.go\<close>: recovery from
    panics, access log, counters, probes).
  \<^item> Development stubs (\<open>contracts/storage\<close>, \<open>payments\<close>, \<open>court\<close>, \<open>anpr/factory.go\<close>): \<open>Stubs\<close>, the object store
    refined against a map of names (a locale for the contract), and what the fines service gets from
    being wired with them.

  A handler of the code is a definition of the same name (\<open>create_license\<close>, \<open>audit_write\<close> and the like
  where the bare name would clash), its transaction a definition \<open>\<dots>_tx\<close>, each SQL statement a function
  on the database, its routes a datatype with the permission each asks for.

  \<^bold>\<open>What is proved.\<close> For each handler: who may use it and under which conditions it succeeds, its whole
  effect on the database as an equation, and that a refusal leaves the database as it was. For each
  service: isolation of tenants, and invariants of the states that requests, jobs and faults in any
  order lead to. For the jobs: what they touch whatever fails, and that without faults they finish.
  For the pure routines: equivalence with a reference, round trips, exact bounds of 64-bit
  arithmetic. Where the code falls short of its intent a lemma shows the concrete run (sections at the
  end of the theories, named after the behaviour).

  \<^bold>\<open>Loops and fuel.\<close> The loops of the code run over lists (rows, requested items, bytes), so they are
  recursive on them and always end; the retries of a transfer code are counted down from
  \<open>transferCodeRetries\<close>; the parser of durations ends because each number it reads shortens the text. No
  definition uses fuel. That the queues of jobs come to rest is proved in
  \<open>Queues\<close> from a measure, the attempts left, for steps of the workers in any order and with any faults:
  at most five steps per queued scan, at most the attempts left per queued verification.

  \<^bold>\<open>Parameters.\<close> JWT library, bcrypt, SHA-256 and HMAC, the JSON codec where its text is hashed, casts
  of texts in Postgres, regular expressions, the decoder of a pack's manifest, the payment provider, the object store, the
  recognition provider, the insurance and inspection bureaus, the sender of messages, the token bucket
  of \<open>golang.org/x/time/rate\<close>, floating-point arithmetic where a value is computed with it (statistics,
  confidences), random bytes, clocks and fresh UUIDs. Each is an argument or a field of the service's record; what a
  theorem needs of one it assumes by name.

  \<^bold>\<open>Not modelled.\<close> Human-readable messages and log records, but for the access log; HTTP routing below
  the datatype of routes; the lengths of the tickers' periods; concurrency below a transaction (a step is
  one request or one job's run, interleaved in any order); the isolation level's anomalies except where
  a lemma names one. The \<open>main\<close> functions, which pass the parameters of the model to each other, open
  the sockets and wait for signals (\<open>server.Run\<close>); the identity contract, an interface nobody
  implements or calls; and the test kit, fixtures of the integration tests.
\<close>

end
